(* ===== verification/Prelude.thy ===== *)
theory Prelude
  imports Complex_Main "HOL-Library.AList" "HOL-Library.Sublist"
begin

text \<open>
  Shared vocabulary of the development.

  Samus is Python. Its values are modelled as follows, everywhere below:
  \<^item> a \<open>str\<close> is a \<^typ>\<open>string\<close> over ASCII characters: \<open>strip\<close>, \<open>lower\<close> and \<open>upper\<close> are
    Python's on ASCII text, and no theorem speaks about other code points;
  \<^item> an \<open>int\<close> is an \<^typ>\<open>int\<close>;
  \<^item> a \<open>dict\<close> (Python dictionaries and \<open>OrderedDict\<close> keep insertion order) is an association
    list with distinct keys, updated by \<^const>\<open>AList.update\<close>, which replaces the value in place
    or appends a new entry at the end;
  \<^item> JSON payloads are the datatype \<open>json\<close> below; floating-point numbers are left out of it;
  \<^item> an exception is an \<open>Inl\<close> of a sum type, \<open>None\<close> is \<^const>\<open>None\<close>.
\<close>

named_theorems map_keys \<open>how operations change the key list of a dictionary\<close>
named_theorems py_str \<open>evaluation rules of the string helpers\<close>

section \<open>Strings\<close>

definition py_isspace :: "char \<Rightarrow> bool" where
  "py_isspace c = (c \<in> set [CHR 0x09, CHR 0x0A, CHR 0x0B, CHR 0x0C, CHR 0x0D,
                            CHR 0x1C, CHR 0x1D, CHR 0x1E, CHR 0x1F, CHR 0x20])"

definition py_lstrip :: "string \<Rightarrow> string" where
  "py_lstrip s = dropWhile py_isspace s"

definition py_strip :: "string \<Rightarrow> string" where
  "py_strip s = rev (py_lstrip (rev (py_lstrip s)))"

definition char_code :: "char \<Rightarrow> nat" where
  "char_code c = of_char c"

definition lower_char :: "char \<Rightarrow> char" where
  "lower_char c = (if 65 \<le> char_code c \<and> char_code c \<le> 90 then char_of (char_code c + 32) else c)"

definition upper_char :: "char \<Rightarrow> char" where
  "upper_char c = (if 97 \<le> char_code c \<and> char_code c \<le> 122 then char_of (char_code c - 32) else c)"

definition py_lower :: "string \<Rightarrow> string" where
  "py_lower s = map lower_char s"

definition py_upper :: "string \<Rightarrow> string" where
  "py_upper s = map upper_char s"

definition py_isdigit :: "char \<Rightarrow> bool" where
  "py_isdigit c = (48 \<le> char_code c \<and> char_code c \<le> 57)"

definition py_isalnum :: "char \<Rightarrow> bool" where
  "py_isalnum c = (py_isdigit c \<or> (65 \<le> char_code c \<and> char_code c \<le> 90)
                   \<or> (97 \<le> char_code c \<and> char_code c \<le> 122))"

text \<open>\<open>needle in haystack\<close>, \<open>sep.join(parts)\<close> and \<open>s.startswith(p)\<close>.\<close>

fun py_in :: "string \<Rightarrow> string \<Rightarrow> bool" where
  "py_in n [] = (n = [])"
| "py_in n (c # cs) = (prefix n (c # cs) \<or> py_in n cs)"

fun py_join :: "string \<Rightarrow> string list \<Rightarrow> string" where
  "py_join sep [] = []"
| "py_join sep [s] = s"
| "py_join sep (s # t # ts) = s @ sep @ py_join sep (t # ts)"

definition py_startswith :: "string \<Rightarrow> string \<Rightarrow> bool" where
  "py_startswith s p = prefix p s"

lemma py_in_sublist: "py_in n h \<longleftrightarrow> sublist n h"
  by (induction h) (auto simp: sublist_Cons_right)

lemma py_in_empty [simp]: "py_in [] h"
  by (simp add: py_in_sublist)

lemma py_join_singleton_sep:
  "py_join sep (s # ts) = (if ts = [] then s else s @ sep @ py_join sep ts)"
  by (cases ts) auto

text \<open>\<open>s.split(c)\<close>.\<close>

fun split_on :: "char \<Rightarrow> string \<Rightarrow> string list" where
  "split_on c [] = [[]]"
| "split_on c (x # xs) =
     (if x = c then [] # split_on c xs
      else (case split_on c xs of [] \<Rightarrow> [[x]] | s # ss \<Rightarrow> (x # s) # ss))"

lemma split_on_nonempty [simp]: "split_on c s \<noteq> []"
  by (induction s) (auto split: list.splits)

lemma split_on_none: "c \<notin> set s \<Longrightarrow> split_on c s = [s]"
  by (induction s) auto

text \<open>\<open>a or b\<close> on strings: the empty string is falsy.\<close>

definition py_or :: "string \<Rightarrow> string \<Rightarrow> string" where
  "py_or a b = (if a = [] then b else a)"

lemma py_or_simps [simp]: "py_or [] b = b" "a \<noteq> [] \<Longrightarrow> py_or a b = a"
  by (simp_all add: py_or_def)

subsection \<open>Decimal numerals\<close>

definition digit_char :: "nat \<Rightarrow> char" where
  "digit_char d = char_of (48 + d)"

fun show_nat :: "nat \<Rightarrow> string" where
  "show_nat n = (if n < 10 then [digit_char n] else show_nat (n div 10) @ [digit_char (n mod 10)])"

declare show_nat.simps [simp del]

definition show_int :: "int \<Rightarrow> string" where
  "show_int i = (if i < 0 then CHR ''-'' # show_nat (nat (- i)) else show_nat (nat i))"

text \<open>
  \<open>int(text)\<close>: surrounding whitespace, an optional sign, then digits, where single underscores
  may stand between digits. \<^const>\<open>None\<close> is \<open>ValueError\<close>. The flag says whether the character
  before was a digit, so that an underscore is refused elsewhere.
\<close>

fun parse_digits :: "bool \<Rightarrow> nat \<Rightarrow> string \<Rightarrow> nat option" where
  "parse_digits after_digit acc [] = (if after_digit then Some acc else None)"
| "parse_digits after_digit acc (c # cs) =
     (if py_isdigit c then parse_digits True (10 * acc + (char_code c - 48)) cs
      else if c = CHR ''_'' \<and> after_digit then parse_digits False acc cs
      else None)"

definition py_int :: "string \<Rightarrow> int option" where
  "py_int s = (case py_strip s of
       [] \<Rightarrow> None
     | c # cs \<Rightarrow>
         (if c = CHR ''-'' then map_option (\<lambda>n. - int n) (parse_digits False 0 cs)
          else if c = CHR ''+'' then map_option int (parse_digits False 0 cs)
          else map_option int (parse_digits False 0 (c # cs))))"

lemma char_code_digit_char: "d < 10 \<Longrightarrow> char_code (digit_char d) = 48 + d"
  by (simp add: char_code_def digit_char_def)

lemma isdigit_digit_char: "d < 10 \<Longrightarrow> py_isdigit (digit_char d)"
  by (simp add: py_isdigit_def char_code_digit_char)

lemma parse_digits_run:
  "\<forall>c \<in> set xs. py_isdigit c \<Longrightarrow>
   parse_digits True acc (xs @ ys) = parse_digits True
     (fold (\<lambda>c a. 10 * a + (char_code c - 48)) xs acc) ys"
  by (induction xs arbitrary: acc) auto

lemma parse_digits_append:
  "\<forall>c \<in> set xs. py_isdigit c \<Longrightarrow> xs \<noteq> [] \<Longrightarrow>
   parse_digits b acc (xs @ ys) = parse_digits True
     (fold (\<lambda>c a. 10 * a + (char_code c - 48)) xs acc) ys"
  by (cases xs) (simp_all add: parse_digits_run)

lemma show_nat_digits: "\<forall>c \<in> set (show_nat n). py_isdigit c"
proof (induction n rule: show_nat.induct)
  case (1 n)
  then show ?case
    by (subst show_nat.simps) (auto simp: isdigit_digit_char)
qed

lemma show_nat_nonempty [simp]: "show_nat n \<noteq> []"
  by (subst show_nat.simps) simp

lemma show_nat_value: "fold (\<lambda>c a. 10 * a + (char_code c - 48)) (show_nat n) 0 = n"
proof (induction n rule: show_nat.induct)
  case (1 n)
  show ?case
  proof (cases "n < 10")
    case True
    then show ?thesis by (subst show_nat.simps) (simp add: char_code_digit_char)
  next
    case False
    with "1" show ?thesis
      by (subst show_nat.simps) (simp add: char_code_digit_char)
  qed
qed

lemma parse_show_nat: "parse_digits b 0 (show_nat n) = Some n"
  using parse_digits_append [of "show_nat n" b 0 "[]"]
  by (simp add: show_nat_digits show_nat_value)

lemma show_nat_inj: "show_nat m = show_nat n \<longleftrightarrow> m = n"
  by (metis parse_show_nat option.inject)

lemma isdigit_simps [simp]: "\<not> py_isdigit (CHR ''-'')" "\<not> py_isdigit (CHR ''+'')"
    "\<not> py_isdigit (CHR '':'')"
  by (simp_all add: py_isdigit_def char_code_def)

lemma show_nat_no_sign: "c \<in> set (show_nat n) \<Longrightarrow> c \<noteq> CHR ''-'' \<and> c \<noteq> CHR ''+'' \<and> c \<noteq> CHR '':''"
  using show_nat_digits [of n] by auto

lemma show_nat_head: "show_nat n \<noteq> CHR ''-'' # s"
proof
  assume "show_nat n = CHR ''-'' # s"
  then have "CHR ''-'' \<in> set (show_nat n)" by simp
  then show False by (blast dest: show_nat_no_sign)
qed

lemma show_int_inj: "show_int i = show_int j \<longleftrightarrow> i = j"
proof
  assume eq: "show_int i = show_int j"
  consider "i < 0" "j < 0" | "i < 0" "\<not> j < 0" | "\<not> i < 0" "j < 0" | "\<not> i < 0" "\<not> j < 0"
    by blast
  then show "i = j"
  proof cases
    case 1
    with eq show ?thesis by (simp add: show_int_def show_nat_inj)
  next
    case 2
    with eq show ?thesis using show_nat_head [of "nat j"] by (metis show_int_def)
  next
    case 3
    with eq show ?thesis using show_nat_head [of "nat i"] by (metis show_int_def)
  next
    case 4
    with eq show ?thesis by (simp add: show_int_def show_nat_inj)
  qed
qed simp

lemma show_int_no_colon: "CHR '':'' \<notin> set (show_int i)"
  using show_nat_no_sign [of "CHR '':''"] by (auto simp: show_int_def)

lemma show_nat_Cons_digit: "show_nat n = c # cs \<Longrightarrow> py_isdigit c"
  using show_nat_digits [of n] by auto

lemma isdigit_not_space: "py_isdigit c \<Longrightarrow> \<not> py_isspace c"
  by (auto simp: py_isdigit_def py_isspace_def char_code_def)

lemma dropWhile_all_not: "\<forall>c \<in> set s. \<not> P c \<Longrightarrow> dropWhile P s = s"
  by (cases s) auto

lemma strip_no_space: "\<forall>c \<in> set s. \<not> py_isspace c \<Longrightarrow> py_strip s = s"
  by (simp add: py_strip_def py_lstrip_def dropWhile_all_not)

lemma dropWhile_idem: "dropWhile P (dropWhile P s) = dropWhile P s"
  by (induction s) auto

lemma lstrip_rev_lstrip:
  "dropWhile P (rev (dropWhile P (rev (dropWhile P s)))) = rev (dropWhile P (rev (dropWhile P s)))"
proof (cases "dropWhile P s")
  case Nil
  then show ?thesis by (simp only: rev.simps dropWhile.simps)
next
  case (Cons c cs)
  then have "\<not> P c" by (metis hd_dropWhile list.distinct(1) list.sel(1))
  then have "dropWhile P (rev cs @ [c]) = dropWhile P (rev cs) @ [c]"
    by (simp add: dropWhile_append3)
  then show ?thesis using \<open>\<not> P c\<close> by (simp add: Cons)
qed

lemma py_strip_idem: "py_strip (py_strip s) = py_strip s"
  by (simp add: py_strip_def py_lstrip_def lstrip_rev_lstrip dropWhile_idem)

lemma show_int_no_space: "\<forall>c \<in> set (show_int i). \<not> py_isspace c"
  using show_nat_digits isdigit_not_space
  by (auto simp: show_int_def py_isspace_def [of "CHR ''-''"])

text \<open>Printing and parsing an integer is the identity.\<close>

lemma py_int_show_int: "py_int (show_int i) = Some i"
proof (cases "i < 0")
  case True
  then show ?thesis
    by (simp add: py_int_def strip_no_space show_int_no_space)
       (simp add: show_int_def parse_show_nat)
next
  case False
  obtain c cs where s: "show_nat (nat i) = c # cs"
    by (cases "show_nat (nat i)") auto
  with show_nat_Cons_digit have "py_isdigit c" by blast
  then have "c \<noteq> CHR ''-''" "c \<noteq> CHR ''+''" by auto
  with False s parse_show_nat [of False "nat i"] show ?thesis
    by (simp add: py_int_def strip_no_space show_int_no_space)
       (simp add: show_int_def)
qed

section \<open>Dictionaries\<close>

definition dict_wf :: "('k \<times> 'v) list \<Rightarrow> bool" where
  "dict_wf d = distinct (map fst d)"

abbreviation dict_keys :: "('k \<times> 'v) list \<Rightarrow> 'k list" where
  "dict_keys d \<equiv> map fst d"

text \<open>\<open>key in d\<close>, \<open>d.get(key, default)\<close>.\<close>

definition dict_has :: "('k \<times> 'v) list \<Rightarrow> 'k \<Rightarrow> bool" where
  "dict_has d k = (map_of d k \<noteq> None)"

definition dict_get :: "('k \<times> 'v) list \<Rightarrow> 'k \<Rightarrow> 'v \<Rightarrow> 'v" where
  "dict_get d k v0 = (case map_of d k of None \<Rightarrow> v0 | Some v \<Rightarrow> v)"

lemma dict_has_keys: "dict_has d k \<longleftrightarrow> k \<in> set (dict_keys d)"
  by (simp add: dict_has_def map_of_eq_None_iff)

lemma keys_update [map_keys]:
  "dict_keys (AList.update k v d) = (if k \<in> set (dict_keys d) then dict_keys d else dict_keys d @ [k])"
  by (induction d) auto

lemma keys_delete [map_keys]: "dict_keys (AList.delete k d) = filter (\<lambda>x. x \<noteq> k) (dict_keys d)"
  by (induction d) auto

lemma dict_wf_update: "dict_wf d \<Longrightarrow> dict_wf (AList.update k v d)"
  by (simp add: dict_wf_def map_keys)

lemma dict_wf_delete: "dict_wf d \<Longrightarrow> dict_wf (AList.delete k d)"
  by (simp add: dict_wf_def map_keys)

lemma map_of_update: "map_of (AList.update k v d) = (map_of d)(k \<mapsto> v)"
  by (rule update_conv')

lemma update_new: "k \<notin> set (dict_keys d) \<Longrightarrow> AList.update k v d = d @ [(k, v)]"
  by (induction d) auto

lemma filter_neq_remove1: "distinct xs \<Longrightarrow> filter (\<lambda>y. y \<noteq> x) xs = remove1 x xs"
  by (simp add: distinct_remove1_removeAll removeAll_filter_not_eq) metis

section \<open>The process environment and clocks\<close>

text \<open>
  \<open>os.getenv(name, default)\<close>. A clock reading (\<open>time.time()\<close>, \<open>time.monotonic()\<close>) is a
  Python float; it is a rational number here, so the rounding of float sums is not modelled.
\<close>

type_synonym environ = "string \<Rightarrow> string option"

definition getenv :: "environ \<Rightarrow> string \<Rightarrow> string \<Rightarrow> string" where
  "getenv env name d = (case env name of None \<Rightarrow> d | Some v \<Rightarrow> v)"

section \<open>JSON values\<close>

datatype json =
    JNull
  | JBool bool
  | JInt int
  | JStr string
  | JList "json list"
  | JObj "(string \<times> json) list"

fun json_truthy :: "json \<Rightarrow> bool" where
  "json_truthy JNull = False"
| "json_truthy (JBool b) = b"
| "json_truthy (JInt i) = (i \<noteq> 0)"
| "json_truthy (JStr s) = (s \<noteq> [])"
| "json_truthy (JList xs) = (xs \<noteq> [])"
| "json_truthy (JObj kvs) = (kvs \<noteq> [])"

text \<open>\<open>repr(s)\<close> of a string: quoted, with the escapes of Python for ASCII text.\<close>

definition hex_digit_char :: "nat \<Rightarrow> char" where
  "hex_digit_char n = (if n < 10 then digit_char n else char_of (87 + n))"

definition repr_char :: "char \<Rightarrow> char \<Rightarrow> string" where
  "repr_char quote c =
     (if c = quote \<or> c = CHR 0x5C then [CHR 0x5C, c]
      else if c = CHR 0x0A then [CHR 0x5C, CHR ''n'']
      else if c = CHR 0x0D then [CHR 0x5C, CHR ''r'']
      else if c = CHR 0x09 then [CHR 0x5C, CHR ''t'']
      else if char_code c < 32 \<or> char_code c = 127
        then [CHR 0x5C, CHR ''x'', hex_digit_char (char_code c div 16), hex_digit_char (char_code c mod 16)]
      else [c])"

definition py_repr :: "string \<Rightarrow> string" where
  "py_repr s =
     (let quote = (if CHR 0x27 \<in> set s \<and> CHR 0x22 \<notin> set s then CHR 0x22 else CHR 0x27)
      in [quote] @ concat (map (repr_char quote) s) @ [quote])"

section \<open>Lists\<close>

lemma nat_list_all_less: "(\<forall>i < length xs. P (xs ! i)) \<longleftrightarrow> (\<forall>x \<in> set xs. P x)"
  by (simp add: all_set_conv_all_nth)

section \<open>Time stamp texts\<close>

text \<open>
  \<open>IsoAt n\<close> is the rendering of the whole second \<open>n\<close> in UTC, any other text is \<open>IsoText\<close>, the empty one included.
  \<open>_iso_at\<close> and \<open>_iso_to_epoch\<close> are the same in every module that has them.
\<close>

datatype iso_time = IsoAt int | IsoText string

definition iso_at :: "rat \<Rightarrow> iso_time" where
  "iso_at epoch = IsoAt \<lfloor>epoch\<rfloor>"

fun iso_to_epoch :: "iso_time \<Rightarrow> int" where
  "iso_to_epoch (IsoAt n) = n"
| "iso_to_epoch (IsoText s) = 0"

end
