(* ===== verification/Ring_Store.thy ===== *)
theory Ring_Store
  imports Prelude
begin

text \<open>
  The capacity-bounded in-process stores of \<open>backend/common\<close>: \<open>IdempotencyStore\<close>
  (\<open>idempotency.py\<close>), \<open>NonceStore\<close> (\<open>middleware.py\<close>) and \<open>_FixedWindowCounter\<close>
  (\<open>rate_limit.py\<close>). All three are an \<open>OrderedDict\<close> that evicts from the front when it grows
  past its capacity; they differ in what an operation on a key that is already present does.
  The locale \<open>bounded_ring\<close> states what they share, and its lemmas (a fresh key survives any
  run of fewer operations than the capacity) are proved once and interpreted three times.
  Every method runs under the store's lock, so an operation here is one atomic step.
\<close>

section \<open>OrderedDict operations\<close>

text \<open>\<open>d.move_to_end(k)\<close> for a present key, and \<open>while len(d) > m: d.popitem(last=False)\<close>.\<close>

definition od_move_to_end :: "string \<Rightarrow> (string \<times> 'v) list \<Rightarrow> (string \<times> 'v) list" where
  "od_move_to_end k d = (case map_of d k of None \<Rightarrow> d | Some v \<Rightarrow> AList.delete k d @ [(k, v)])"

fun od_evict :: "nat \<Rightarrow> 'a list \<Rightarrow> 'a list" where
  "od_evict m [] = []"
| "od_evict m (x # xs) = (if m < length (x # xs) then od_evict m xs else x # xs)"

lemma od_evict_drop: "od_evict m d = drop (length d - m) d"
  by (induction d) (auto simp: Suc_diff_le)

lemma od_evict_fits [simp]: "length d \<le> m \<Longrightarrow> od_evict m d = d"
  by (simp add: od_evict_drop)

lemma length_od_evict: "length (od_evict m d) = min m (length d)"
  by (simp add: od_evict_drop)

lemma keys_od_evict [map_keys]: "dict_keys (od_evict m d) = od_evict m (dict_keys d)"
  by (simp add: od_evict_drop drop_map)

lemma distinct_od_evict: "distinct d \<Longrightarrow> distinct (od_evict m d)"
  by (simp add: od_evict_drop distinct_drop)

lemma od_evict_append1:
  "od_evict m (xs @ [k]) = (if m = 0 then [] else od_evict (m - 1) xs @ [k])"
  by (cases m) (auto simp: od_evict_drop)

lemma od_evict_twice: "od_evict m (od_evict m xs @ ys) = od_evict m (xs @ ys)"
proof (cases "length xs \<le> m")
  case False
  then have "length xs - m + length ys = length xs + length ys - m" by simp
  with False show ?thesis by (simp add: od_evict_drop add.commute)
qed simp

lemma length_move_key:
  assumes "k \<in> set xs"
  shows "Suc (length (remove1 k xs)) = length xs"
proof -
  have "0 < length xs" using assms by (rule length_pos_if_in_set)
  with assms show ?thesis by (simp add: length_remove1)
qed

lemma keys_od_move_to_end [map_keys]:
  "dict_keys (od_move_to_end k d) =
     (if k \<in> set (dict_keys d) then filter (\<lambda>x. x \<noteq> k) (dict_keys d) @ [k] else dict_keys d)"
proof (cases "map_of d k")
  case None
  then have "k \<notin> set (dict_keys d)" by (simp add: map_of_eq_None_iff)
  with None show ?thesis by (simp add: od_move_to_end_def)
next
  case (Some v)
  then have "k \<in> set (dict_keys d)" by (metis map_of_eq_None_iff option.distinct(1) image_set)
  with Some show ?thesis by (simp add: od_move_to_end_def map_keys)
qed

lemma map_of_move_to_end [simp]: "map_of (od_move_to_end k d) k' = map_of d k'"
  by (cases "map_of d k") (auto simp: od_move_to_end_def map_add_def delete_conv' split: option.splits)

lemma length_touch: "length (od_move_to_end k (AList.update k v d)) \<le> Suc (length d)"
proof -
  have "length (dict_keys (od_move_to_end k (AList.update k v d))) \<le> Suc (length (dict_keys d))"
  proof (cases "k \<in> set (dict_keys d)")
    case True
    then have "length (filter (\<lambda>x. x \<noteq> k) (dict_keys d)) < length (dict_keys d)"
      by (rule length_filter_less) simp
    with True show ?thesis by (simp add: map_keys)
  next
    case False
    then have "filter (\<lambda>x. x \<noteq> k) (dict_keys d) = dict_keys d" by (intro filter_True) auto
    with False show ?thesis by (simp add: map_keys)
  qed
  then show ?thesis by simp
qed

text \<open>Below the capacity nothing is evicted, so a touched dictionary only gains the new value.\<close>

lemma map_of_touch:
  assumes "length d < m"
  shows "map_of (od_evict m (od_move_to_end k (AList.update k v d))) = (map_of d)(k \<mapsto> v)"
proof -
  have "length (od_move_to_end k (AList.update k v d)) \<le> m"
    using length_touch [of k v d] assms by simp
  then show ?thesis by (auto simp: map_of_update)
qed

section \<open>IdempotencyStore\<close>

record 'v idempotency_store =
  idem_max :: nat
  idem_data :: "(string \<times> 'v option) list"

definition idem_init :: "nat \<Rightarrow> 'v idempotency_store" where
  "idem_init max_items = \<lparr>idem_max = max_items, idem_data = []\<rparr>"

text \<open>A stored value is \<open>None\<close> after \<open>first_seen\<close> (the claim placeholder).\<close>

definition idem_get :: "string \<Rightarrow> 'v idempotency_store \<Rightarrow> 'v option" where
  "idem_get k s = dict_get (idem_data s) k None"

definition idem_set :: "string \<Rightarrow> 'v option \<Rightarrow> 'v idempotency_store \<Rightarrow> 'v idempotency_store" where
  "idem_set k v s = s\<lparr>idem_data := od_evict (idem_max s) (od_move_to_end k (AList.update k v (idem_data s)))\<rparr>"

definition idem_exists :: "string \<Rightarrow> 'v idempotency_store \<Rightarrow> bool" where
  "idem_exists k s = dict_has (idem_data s) k"

definition idem_first_seen :: "string \<Rightarrow> 'v idempotency_store \<Rightarrow> bool \<times> 'v idempotency_store" where
  "idem_first_seen k s =
     (if dict_has (idem_data s) k then (False, s)
      else (True, s\<lparr>idem_data := od_evict (idem_max s) (od_move_to_end k (AList.update k None (idem_data s)))\<rparr>))"

datatype 'v idem_op = Claim string | Put string "'v option"

fun idem_apply :: "'v idem_op \<Rightarrow> 'v idempotency_store \<Rightarrow> 'v idempotency_store" where
  "idem_apply (Claim k) s = snd (idem_first_seen k s)"
| "idem_apply (Put k v) s = idem_set k v s"

fun idem_op_key :: "'v idem_op \<Rightarrow> string" where
  "idem_op_key (Claim k) = k"
| "idem_op_key (Put k v) = k"

section \<open>NonceStore\<close>

text \<open>The value stored with a nonce is the wall-clock reading; nothing reads it back.\<close>

record nonce_store =
  nonce_max :: nat
  nonce_ring :: "(string \<times> int) list"

definition nonce_init :: "nat \<Rightarrow> nonce_store" where
  "nonce_init max_items = \<lparr>nonce_max = max_items, nonce_ring = []\<rparr>"

definition nonce_seen :: "string \<Rightarrow> int \<Rightarrow> nonce_store \<Rightarrow> bool \<times> nonce_store" where
  "nonce_seen nonce now s =
     (if nonce = [] then (False, s)
      else if dict_has (nonce_ring s) nonce then (True, s)
      else (False, s\<lparr>nonce_ring := od_evict (nonce_max s) (AList.update nonce now (nonce_ring s))\<rparr>))"

section \<open>The fixed-window counter\<close>

record window_counter =
  wc_max :: nat
  wc_counts :: "(string \<times> int) list"

definition wc_init :: "nat \<Rightarrow> window_counter" where
  "wc_init max_keys = \<lparr>wc_max = max_keys, wc_counts = []\<rparr>"

definition wc_incr :: "string \<Rightarrow> window_counter \<Rightarrow> int \<times> window_counter" where
  "wc_incr key s =
     (let current = dict_get (wc_counts s) key 0 + 1
      in (current, s\<lparr>wc_counts := od_evict (wc_max s) (od_move_to_end key (AList.update key current (wc_counts s)))\<rparr>))"

section \<open>What the three stores share\<close>

text \<open>
  \<open>keys\<close> lists the keys from the oldest to the newest, \<open>ins\<close> is any operation that claims
  or touches a key, \<open>ok\<close> says whether the operation is effective (an empty nonce is not).
  On a present key the order either stays or the key moves to the newest end.
\<close>

locale bounded_ring =
  fixes keys :: "'s \<Rightarrow> string list"
    and cap :: "'s \<Rightarrow> nat"
    and ins :: "'e \<Rightarrow> 's \<Rightarrow> 's"
    and ekey :: "'e \<Rightarrow> string"
    and ok :: "'e \<Rightarrow> bool"
  assumes cap_ins: "cap (ins e s) = cap s"
    and ins_new: "ok e \<Longrightarrow> ekey e \<notin> set (keys s) \<Longrightarrow> keys (ins e s) = od_evict (cap s) (keys s @ [ekey e])"
    and ins_old: "ok e \<Longrightarrow> ekey e \<in> set (keys s) \<Longrightarrow> distinct (keys s) \<Longrightarrow> length (keys s) \<le> cap s \<Longrightarrow>
        keys (ins e s) = keys s \<or> keys (ins e s) = remove1 (ekey e) (keys s) @ [ekey e]"
    and ins_skip: "\<not> ok e \<Longrightarrow> keys (ins e s) = keys s"
begin

definition ring_wf :: "'s \<Rightarrow> bool" where
  "ring_wf s \<longleftrightarrow> distinct (keys s) \<and> length (keys s) \<le> cap s"

text \<open>\<open>young n k s\<close>: the key is present and at most \<open>n\<close> keys are newer.\<close>

definition young :: "nat \<Rightarrow> string \<Rightarrow> 's \<Rightarrow> bool" where
  "young n k s \<longleftrightarrow> (\<exists>xs ys. keys s = xs @ k # ys \<and> length ys \<le> n)"

lemma ring_wf_ins: "ring_wf s \<Longrightarrow> ring_wf (ins e s)"
proof (cases "ok e")
  case False
  then show "ring_wf s \<Longrightarrow> ring_wf (ins e s)" by (simp add: ring_wf_def ins_skip cap_ins)
next
  case True
  assume wf: "ring_wf s"
  show "ring_wf (ins e s)"
  proof (cases "ekey e \<in> set (keys s)")
    case False
    with True wf show ?thesis
      by (auto simp: ring_wf_def ins_new cap_ins length_od_evict intro!: distinct_od_evict)
  next
    case True
    with \<open>ok e\<close> wf have "keys (ins e s) = keys s \<or> keys (ins e s) = remove1 (ekey e) (keys s) @ [ekey e]"
      by (simp add: ring_wf_def ins_old)
    then show ?thesis
    proof
      assume "keys (ins e s) = keys s"
      with wf show ?thesis by (simp add: ring_wf_def cap_ins)
    next
      assume "keys (ins e s) = remove1 (ekey e) (keys s) @ [ekey e]"
      moreover have "Suc (length (remove1 (ekey e) (keys s))) = length (keys s)"
        using True by (rule length_move_key)
      ultimately show ?thesis using wf by (auto simp: ring_wf_def cap_ins)
    qed
  qed
qed

lemma ring_wf_fold: "ring_wf s \<Longrightarrow> ring_wf (fold ins es s)"
  by (induction es arbitrary: s) (simp_all add: ring_wf_ins)

lemma cap_fold: "cap (fold ins es s) = cap s"
  by (induction es arbitrary: s) (simp_all add: cap_ins)

lemma young_present: "young n k s \<Longrightarrow> k \<in> set (keys s)"
  by (auto simp: young_def)

lemma young_fresh:
  assumes "ok e" "ekey e \<notin> set (keys s)" "0 < cap s"
  shows "young 0 (ekey e) (ins e s)"
  using assms by (auto simp: young_def ins_new od_evict_append1)

text \<open>One more operation ages a key by at most one place.\<close>

lemma young_ins:
  assumes wf: "ring_wf s" and y: "young n k s" and room: "Suc n < cap s"
  shows "young (Suc n) k (ins e s)"
proof -
  from y obtain xs ys where s: "keys s = xs @ k # ys" and len: "length ys \<le> n"
    by (auto simp: young_def)
  consider "\<not> ok e" | "ok e" "ekey e \<notin> set (keys s)"
    | "ok e" "ekey e \<in> set (keys s)" "keys (ins e s) = keys s"
    | "ok e" "ekey e \<in> set (keys s)" "keys (ins e s) = remove1 (ekey e) (keys s) @ [ekey e]"
    using wf ins_old by (auto simp: ring_wf_def)
  then show ?thesis
  proof cases
    case 1
    with s len show ?thesis unfolding young_def by (intro exI [of _ xs] exI [of _ ys]) (simp add: ins_skip)
  next
    case 2
    let ?d = "length (keys s @ [ekey e]) - cap s"
    have "?d \<le> length xs" using wf s len room by (simp add: ring_wf_def)
    then have "keys (ins e s) = drop ?d xs @ k # ys @ [ekey e]"
      using 2 s by (simp add: ins_new od_evict_drop)
    with len show ?thesis unfolding young_def by (intro exI [of _ "drop ?d xs"] exI [of _ "ys @ [ekey e]"]) simp
  next
    case 3
    with s len show ?thesis unfolding young_def by (intro exI [of _ xs] exI [of _ ys]) simp
  next
    case 4
    from wf s have d: "distinct (xs @ k # ys)" by (simp add: ring_wf_def)
    consider "ekey e = k" | "ekey e \<noteq> k" "ekey e \<in> set xs" | "ekey e \<noteq> k" "ekey e \<in> set ys" "ekey e \<notin> set xs"
      using 4(2) s by auto
    then show ?thesis
    proof cases
      case 1
      then show ?thesis unfolding young_def
        by (intro exI [of _ "remove1 (ekey e) (keys s)"] exI [of _ "[]"]) (simp add: 4(3))
    next
      case 2
      with s len show ?thesis unfolding young_def
        by (intro exI [of _ "remove1 (ekey e) xs"] exI [of _ "ys @ [ekey e]"]) (simp add: 4(3) remove1_append)
    next
      case 3
      with s len show ?thesis unfolding young_def
        by (intro exI [of _ xs] exI [of _ "remove1 (ekey e) ys @ [ekey e]"])
           (simp add: 4(3) remove1_append length_remove1)
    qed
  qed
qed

lemma young_fold:
  "ring_wf s \<Longrightarrow> young n k s \<Longrightarrow> n + length es < cap s \<Longrightarrow> young (n + length es) k (fold ins es s)"
proof (induction es arbitrary: s n)
  case (Cons e es)
  then have "young (Suc n) k (ins e s)" by (auto intro: young_ins)
  with Cons.IH [of "ins e s" "Suc n"] Cons.prems show ?case
    by (simp add: ring_wf_ins cap_ins)
qed simp

text \<open>A fresh key is still there after fewer operations than the capacity.\<close>

lemma fresh_key_survives:
  assumes "ring_wf s" "ok e" "ekey e \<notin> set (keys s)" "length es < cap s"
  shows "ekey e \<in> set (keys (fold ins es (ins e s)))"
proof -
  from assms have "young 0 (ekey e) (ins e s)" by (auto intro: young_fresh)
  with assms young_fold [of "ins e s" 0 "ekey e" es] have "young (length es) (ekey e) (fold ins es (ins e s))"
    by (simp add: ring_wf_ins cap_ins)
  then show ?thesis by (rule young_present)
qed

text \<open>And it is gone after as many fresh other keys as the capacity.\<close>

lemma fold_new_keys:
  assumes "\<forall>e \<in> set es. ok e" "distinct (map ekey es)" "set (map ekey es) \<inter> set (keys s) = {}" "ring_wf s"
  shows "keys (fold ins es s) = od_evict (cap s) (keys s @ map ekey es)"
  using assms
proof (induction es arbitrary: s)
  case Nil
  then show ?case by (simp add: ring_wf_def)
next
  case (Cons e es)
  have k: "keys (ins e s) = od_evict (cap s) (keys s @ [ekey e])"
    using Cons.prems by (simp add: ins_new)
  have sub: "set (keys (ins e s)) \<subseteq> insert (ekey e) (set (keys s))"
    unfolding k od_evict_drop by (auto dest: in_set_dropD)
  have disj: "set (map ekey es) \<inter> set (keys (ins e s)) = {}"
  proof -
    have "ekey e \<notin> set (map ekey es)" "set (map ekey es) \<inter> set (keys s) = {}"
      using Cons.prems(2,3) by auto
    with sub show ?thesis by blast
  qed
  have "keys (fold ins es (ins e s)) = od_evict (cap (ins e s)) (keys (ins e s) @ map ekey es)"
    using Cons.prems disj by (intro Cons.IH) (simp_all add: ring_wf_ins)
  then have "keys (fold ins es (ins e s)) = od_evict (cap s) (keys (ins e s) @ map ekey es)"
    by (simp only: cap_ins)
  then show ?case unfolding k by (simp add: od_evict_twice del: od_evict.simps)
qed

lemma evicted_by_fresh_keys:
  assumes "\<forall>e \<in> set es. ok e" "distinct (map ekey es)" "set (map ekey es) \<inter> set (keys s) = {}" "ring_wf s"
    and "k \<in> set (keys s)" "cap s \<le> length es"
  shows "k \<notin> set (keys (fold ins es s))"
proof -
  have "k \<notin> set (map ekey es)" using assms(3,5) by auto
  then show ?thesis
    using assms(6) by (auto simp: fold_new_keys [OF assms(1-4)] od_evict_drop dest: in_set_dropD)
qed

end

section \<open>The three interpretations\<close>

lemma keys_touch_new:
  assumes "k \<notin> set (dict_keys d)"
  shows "dict_keys (od_evict m (od_move_to_end k (AList.update k v d))) = od_evict m (dict_keys d @ [k])"
proof -
  have "filter (\<lambda>x. x \<noteq> k) (dict_keys d) = dict_keys d"
    using assms by (intro filter_True) auto
  with assms show ?thesis by (simp add: map_keys)
qed

lemma keys_touch_old:
  assumes "distinct (dict_keys d)" "length (dict_keys d) \<le> m" "k \<in> set (dict_keys d)"
  shows "dict_keys (od_evict m (od_move_to_end k (AList.update k v d))) = remove1 k (dict_keys d) @ [k]"
proof -
  have "length (remove1 k (dict_keys d) @ [k]) \<le> m"
    using assms length_move_key [of k "dict_keys d"] by simp
  with assms show ?thesis by (simp add: map_keys filter_neq_remove1 del: append_assoc)
qed

interpretation idem: bounded_ring "\<lambda>s. dict_keys (idem_data s)" idem_max idem_apply idem_op_key "\<lambda>_. True"
proof (unfold_locales, goal_cases)
  case (1 e s)
  show ?case by (cases e) (simp_all add: idem_first_seen_def idem_set_def)
next
  case (2 e s)
  then show ?case
    by (cases e) (simp_all add: idem_first_seen_def idem_set_def dict_has_keys keys_touch_new)
next
  case (3 e s)
  then show ?case
    by (cases e) (simp_all add: idem_first_seen_def idem_set_def dict_has_keys keys_touch_old)
qed simp

interpretation nonces: bounded_ring "\<lambda>s. dict_keys (nonce_ring s)" nonce_max
  "\<lambda>(n, now) s. snd (nonce_seen n now s)" fst "\<lambda>(n, now). n \<noteq> []"
proof (unfold_locales, goal_cases)
  case (1 e s)
  show ?case by (cases e) (simp add: nonce_seen_def)
next
  case (2 e s)
  then show ?case by (cases e) (simp add: nonce_seen_def dict_has_keys map_keys)
next
  case (3 e s)
  then show ?case by (cases e) (simp add: nonce_seen_def dict_has_keys)
next
  case (4 e s)
  then show ?case by (cases e) (simp add: nonce_seen_def)
qed

interpretation window: bounded_ring "\<lambda>s. dict_keys (wc_counts s)" wc_max "\<lambda>k s. snd (wc_incr k s)" "\<lambda>k. k" "\<lambda>_. True"
proof (unfold_locales, goal_cases)
  case (1 e s)
  show ?case by (simp add: wc_incr_def Let_def)
next
  case (2 e s)
  then show ?case by (simp add: wc_incr_def Let_def keys_touch_new)
next
  case (3 e s)
  then show ?case by (simp add: wc_incr_def Let_def keys_touch_old)
qed simp

lemmas idem_unfold = idem_first_seen_def idem_set_def idem_exists_def idem_get_def
lemmas idem_wf_def = idem.ring_wf_def
lemmas nonce_wf_def = nonces.ring_wf_def

lemma idem_init_wf [intro]: "idem.ring_wf (idem_init m)"
  by (simp add: idem_wf_def idem_init_def)

lemma nonce_init_wf [intro]: "nonces.ring_wf (nonce_init m)"
  by (simp add: nonce_wf_def nonce_init_def)

lemma window_init_wf [intro]: "window.ring_wf (wc_init m)"
  by (simp add: window.ring_wf_def wc_init_def)

end
