(* ===== verification/Rate_Limit.thy ===== *)
theory Rate_Limit
  imports Ring_Store
begin

text \<open>
  The fixed-window HTTP rate limiter, \<open>backend/common/rate_limit.py\<close>: the environment-driven
  limit of a scope, one check (which counts), and what a run of checks admits.
\<close>

definition rl_default_per_minute :: int where "rl_default_per_minute = 30"
definition rl_max_keys :: nat where "rl_max_keys = 50000"
definition rl_window_seconds :: int where "rl_window_seconds = 60"

definition env_int :: "environ \<Rightarrow> string \<Rightarrow> int \<Rightarrow> int" where
  "env_int env name dflt =
     (let raw = py_strip (getenv env name []) in
      if raw = [] then dflt
      else (case py_int raw of Some n \<Rightarrow> n | None \<Rightarrow> dflt))"

definition limiter_enabled :: "environ \<Rightarrow> bool" where
  "limiter_enabled env =
     (let raw = py_lower (py_strip (getenv env ''SAMUS_RATE_LIMIT_ENABLED'' ''1''))
      in raw \<notin> set [''0'', ''false'', ''no'', ''off'', []])"

definition limit_for_scope :: "environ \<Rightarrow> string \<Rightarrow> int" where
  "limit_for_scope env scope =
     (let env_name = ''SAMUS_RATE_LIMIT_'' @ py_upper scope @ ''_PER_MINUTE'';
          dflt = env_int env ''SAMUS_RATE_LIMIT_DEFAULT_PER_MINUTE'' rl_default_per_minute
      in env_int env env_name dflt)"

record rate_limit_decision =
  rl_allowed :: bool
  rl_scope :: string
  rl_limit :: int
  rl_retry_after :: int

text \<open>\<open>int(clock // 60)\<close> and \<open>int(clock % 60)\<close> (Python's float modulo has the sign of 60).\<close>

definition rl_bucket :: "rat \<Rightarrow> int" where
  "rl_bucket clock = \<lfloor>clock / of_int rl_window_seconds\<rfloor>"

definition rl_into_window :: "rat \<Rightarrow> int" where
  "rl_into_window clock = \<lfloor>clock - of_int rl_window_seconds * of_int (rl_bucket clock)\<rfloor>"

definition rl_ident :: "string \<Rightarrow> string" where
  "rl_ident identifier = py_or (py_strip (py_or identifier ''unknown'')) ''unknown''"

definition rl_key :: "string \<Rightarrow> string \<Rightarrow> rat \<Rightarrow> string" where
  "rl_key scope identifier clock =
     scope @ '':'' @ rl_ident identifier @ '':'' @ show_int (rl_bucket clock)"

definition check_rate_limit ::
  "environ \<Rightarrow> string \<Rightarrow> string \<Rightarrow> rat \<Rightarrow> window_counter \<Rightarrow> rate_limit_decision \<times> window_counter" where
  "check_rate_limit env scope identifier clock counter =
     (if \<not> limiter_enabled env then
        (\<lparr>rl_allowed = True, rl_scope = scope, rl_limit = 0, rl_retry_after = 0\<rparr>, counter)
      else
        let limit = limit_for_scope env scope in
        if limit \<le> 0 then
          (\<lparr>rl_allowed = True, rl_scope = scope, rl_limit = limit, rl_retry_after = 0\<rparr>, counter)
        else
          let (count, counter') = wc_incr (rl_key scope identifier clock) counter in
          if count > limit then
            (let retry_after = rl_window_seconds - rl_into_window clock in
             (\<lparr>rl_allowed = False, rl_scope = scope, rl_limit = limit, rl_retry_after = max 1 retry_after\<rparr>,
              counter'))
          else
            (\<lparr>rl_allowed = True, rl_scope = scope, rl_limit = limit, rl_retry_after = 0\<rparr>, counter'))"

text \<open>
  The FastAPI dependency: the direct socket peer is the identifier, and a breach is an
  \<open>HTTPException(429)\<close> with a \<open>Retry-After\<close> header.
\<close>

record http_error =
  err_status :: int
  err_retry_after :: string
  err_limit :: int
  err_scope :: string

definition client_identifier :: "string option \<Rightarrow> string" where
  "client_identifier host = py_or (case host of None \<Rightarrow> [] | Some h \<Rightarrow> h) ''unknown''"

definition rate_limit_dep ::
  "environ \<Rightarrow> string \<Rightarrow> string option \<Rightarrow> rat \<Rightarrow> window_counter \<Rightarrow> (http_error + unit) \<times> window_counter" where
  "rate_limit_dep env scope host clock counter =
     (let (d, counter') = check_rate_limit env scope (client_identifier host) clock counter in
      (if rl_allowed d then Inr ()
       else Inl \<lparr>err_status = 429, err_retry_after = show_int (rl_retry_after d),
                 err_limit = rl_limit d, err_scope = rl_scope d\<rparr>, counter'))"

section \<open>A run of checks\<close>

type_synonym rl_request = "string \<times> string \<times> rat"

definition run_check :: "environ \<Rightarrow> rl_request \<Rightarrow> window_counter \<Rightarrow> window_counter" where
  "run_check env r counter = (case r of (scope, ident, clock) \<Rightarrow> snd (check_rate_limit env scope ident clock counter))"

definition run_checks :: "environ \<Rightarrow> rl_request list \<Rightarrow> window_counter \<Rightarrow> window_counter" where
  "run_checks env rs counter = fold (run_check env) rs counter"

text \<open>The key a request counts under, if it is counted at all.\<close>

definition counted_as :: "environ \<Rightarrow> string \<Rightarrow> rl_request \<Rightarrow> bool" where
  "counted_as env k r = (case r of (scope, ident, clock) \<Rightarrow>
     limiter_enabled env \<and> 0 < limit_for_scope env scope \<and> rl_key scope ident clock = k)"

definition tally :: "environ \<Rightarrow> rl_request list \<Rightarrow> string \<Rightarrow> nat" where
  "tally env rs k = length (filter (counted_as env k) rs)"

lemma wc_incr_count:
  "length (wc_counts s) < wc_max s \<Longrightarrow>
   dict_get (wc_counts (snd (wc_incr k s))) k' 0 =
     (if k' = k then dict_get (wc_counts s) k 0 + 1 else dict_get (wc_counts s) k' 0)"
  by (simp add: wc_incr_def Let_def dict_get_def map_of_touch)

lemma check_counter:
  "snd (check_rate_limit env scope ident clock counter) =
     (if counted_as env (rl_key scope ident clock) (scope, ident, clock)
      then snd (wc_incr (rl_key scope ident clock) counter) else counter)"
  by (auto simp: check_rate_limit_def counted_as_def Let_def split: prod.splits)

lemma run_checks_count:
  "length (wc_counts c) + length rs \<le> wc_max c \<Longrightarrow>
   length (wc_counts (run_checks env rs c)) \<le> length (wc_counts c) + length rs \<and>
   wc_max (run_checks env rs c) = wc_max c \<and>
   dict_get (wc_counts (run_checks env rs c)) k 0 = dict_get (wc_counts c) k 0 + int (tally env rs k)"
proof (induction rs arbitrary: c)
  case (Cons r rs)
  obtain scope ident clock where r: "r = (scope, ident, clock)" by (cases r)
  let ?c = "run_check env r c"
  let ?key = "rl_key scope ident clock"
  have len: "length (wc_counts ?c) \<le> Suc (length (wc_counts c))" and cap: "wc_max ?c = wc_max c"
    using length_touch [of ?key _ "wc_counts c"]
    by (auto simp: run_check_def r check_counter wc_incr_def Let_def length_od_evict min.coboundedI2)
  have cnt: "dict_get (wc_counts ?c) k 0 =
      dict_get (wc_counts c) k 0 + (if counted_as env k r then 1 else 0)"
  proof (cases "counted_as env ?key r")
    case True
    with Cons.prems show ?thesis
      by (auto simp: run_check_def r check_counter wc_incr_count counted_as_def)
  next
    case False
    then show ?thesis by (auto simp: run_check_def r check_counter counted_as_def)
  qed
  from Cons.prems len cap have "length (wc_counts ?c) + length rs \<le> wc_max ?c" by simp
  from Cons.IH [OF this] len cap cnt show ?case
    by (auto simp: run_checks_def tally_def)
qed (simp add: run_checks_def tally_def)

text \<open>The window arithmetic.\<close>

lemma into_window_bounds: "0 \<le> rl_into_window clock \<and> rl_into_window clock < rl_window_seconds"
proof -
  let ?b = "rl_bucket clock"
  have "of_int ?b \<le> clock / 60" "clock / 60 < of_int ?b + 1"
    using floor_correct [of "clock / 60"] unfolding rl_bucket_def rl_window_seconds_def by simp_all
  then show ?thesis
    unfolding rl_into_window_def rl_window_seconds_def by (simp add: le_floor_iff floor_less_iff)
qed

lemma window_rolls_over:
  assumes "clock + of_int (rl_window_seconds - rl_into_window clock) \<le> later"
  shows "rl_bucket clock < rl_bucket later"
proof -
  let ?b = "rl_bucket clock" and ?r = "clock - 60 * of_int (rl_bucket clock)"
  have "of_int (rl_into_window clock) \<le> ?r"
    unfolding rl_into_window_def rl_window_seconds_def by simp
  with assms have "60 * of_int ?b + 60 \<le> later"
    unfolding rl_window_seconds_def by simp
  then have "of_int (?b + 1) \<le> later / 60" by simp
  then have "?b + 1 \<le> \<lfloor>later / 60\<rfloor>" by (simp only: le_floor_iff)
  then show ?thesis
    unfolding rl_bucket_def [of later] rl_window_seconds_def by simp
qed

text \<open>A denied check advertises a retry delay between 1 and 60 seconds, and the delay is enough: a
  check of the same scope and caller made that many seconds later, or after that, counts under a
  later window, so under a different key.\<close>

theorem retry_after_reaches_next_window:
  assumes "fst (check_rate_limit env scope ident clock counter) = d" "\<not> rl_allowed d"
    and "clock + of_int (rl_retry_after d) \<le> later"
  shows "1 \<le> rl_retry_after d \<and> rl_retry_after d \<le> 60
    \<and> rl_bucket clock < rl_bucket later \<and> rl_key scope ident later \<noteq> rl_key scope ident clock"
proof -
  have r: "rl_retry_after d = rl_window_seconds - rl_into_window clock"
    using assms(1,2) into_window_bounds [of clock]
    by (auto simp: check_rate_limit_def Let_def rl_window_seconds_def split: if_splits prod.splits)
  have "rl_bucket clock < rl_bucket later"
    using assms(3) window_rolls_over [of clock later] by (simp add: r)
  then show ?thesis
    using r into_window_bounds [of clock]
    by (auto simp: rl_window_seconds_def rl_key_def show_int_inj)
qed

text \<open>
  The counter key joins scope, caller and bucket with colons. Scopes are colon-free route
  names; then distinct (scope, caller, window) triples never share a counter, even for
  IPv6 peers, whose identifiers do contain colons.
\<close>

lemma split_at_colon:
  "c \<notin> set a \<Longrightarrow> c \<notin> set b \<Longrightarrow> a @ c # xs = b @ c # ys \<longleftrightarrow> a = b \<and> xs = ys"
proof (induction a arbitrary: b)
  case Nil
  then show ?case by (cases b) auto
next
  case (Cons x a)
  then show ?case by (cases b) auto
qed

lemma split_at_last_colon:
  assumes "c \<notin> set xs" "c \<notin> set ys"
  shows "a @ c # xs = b @ c # ys \<longleftrightarrow> a = b \<and> xs = ys"
proof -
  have "a @ c # xs = b @ c # ys \<longleftrightarrow> rev xs @ c # rev a = rev ys @ c # rev b"
    by (metis append.assoc append_Cons append_Nil rev.simps(2) rev_append rev_rev_ident)
  also have "\<dots> \<longleftrightarrow> rev xs = rev ys \<and> rev a = rev b"
    using assms by (intro split_at_colon) simp_all
  finally show ?thesis by auto
qed

text \<open>For colon-free scope names, two checks share a counter key only if they agree on the scope, the
  normalised caller and the window, so no caller can exhaust another caller's allowance.\<close>

lemma rate_limit_key_injective:
  assumes "CHR '':'' \<notin> set scope1" "CHR '':'' \<notin> set scope2"
  shows "rl_key scope1 id1 t1 = rl_key scope2 id2 t2 \<longleftrightarrow>
    scope1 = scope2 \<and> rl_ident id1 = rl_ident id2 \<and> rl_bucket t1 = rl_bucket t2"
  using assms
  by (simp add: rl_key_def split_at_colon split_at_last_colon show_int_no_colon show_int_inj)

text \<open>The checks of one scope, caller and window, whatever their key.\<close>

definition checks_of :: "string \<Rightarrow> string \<Rightarrow> rat \<Rightarrow> rl_request list \<Rightarrow> nat" where
  "checks_of scope ident clock rs =
     length (filter (\<lambda>(s, i, t). s = scope \<and> rl_ident i = rl_ident ident \<and> rl_bucket t = rl_bucket clock) rs)"

lemma tally_is_checks_of:
  assumes "CHR '':'' \<notin> set scope" "\<forall>(s, i, t) \<in> set rs. CHR '':'' \<notin> set s" "limiter_enabled env" "0 < limit_for_scope env scope"
  shows "tally env rs (rl_key scope ident clock) = checks_of scope ident clock rs"
proof -
  have "counted_as env (rl_key scope ident clock) r
      = (case r of (s, i, t) \<Rightarrow> s = scope \<and> rl_ident i = rl_ident ident \<and> rl_bucket t = rl_bucket clock)"
    if "r \<in> set rs" for r
    using assms that rate_limit_key_injective [OF _ assms(1)] by (cases r) (fastforce simp: counted_as_def)
  then show ?thesis unfolding tally_def checks_of_def by (metis (mono_tags, lifting) filter_cong)
qed

text \<open>C24: Starting from an empty counter, with scope names without colons (as the routes have), and as long as fewer checks
  than the key cap have been made (so that no counter has been evicted), a check in a scope that has a limit, with
  the limiter on, is allowed exactly when fewer than the scope's limit of the earlier checks were of the same scope, the same
  caller (by its stripped name) and the same 60-second window: checks of other scopes, callers or windows never matter.\<close>

theorem rate_limit_admits_exactly:
  assumes "limiter_enabled env" "0 < limit_for_scope env scope"
    and "CHR '':'' \<notin> set scope" "\<forall>(s, i, t) \<in> set earlier. CHR '':'' \<notin> set s"
    and "length earlier < cap"
  shows "rl_allowed (fst (check_rate_limit env scope ident clock (run_checks env earlier (wc_init cap))))
    \<longleftrightarrow> int (checks_of scope ident clock earlier) < limit_for_scope env scope"
proof -
  let ?c = "run_checks env earlier (wc_init cap)"
  have "dict_get (wc_counts ?c) (rl_key scope ident clock) 0 = int (tally env earlier (rl_key scope ident clock))"
    using run_checks_count [of "wc_init cap" earlier env] assms(5)
    by (simp add: wc_init_def dict_get_def)
  with assms(1,2) show ?thesis
    by (auto simp: check_rate_limit_def wc_incr_def Let_def tally_is_checks_of [OF assms(3,4,1,2)])
qed

section \<open>Witnesses\<close>

definition rl_env_two :: environ where
  "rl_env_two = (\<lambda>name. if name = ''SAMUS_RATE_LIMIT_VOICE_CALL_PER_MINUTE'' then Some ''2'' else None)"

lemma rl_env_two_enabled: "limiter_enabled rl_env_two"
  by code_simp

lemma rl_env_two_limit: "limit_for_scope rl_env_two ''voice_call'' = 2"
  by code_simp

theorem rate_limit_admits_exactly_witness:
  "\<not> rl_allowed (fst (check_rate_limit rl_env_two ''voice_call'' ''10.0.0.7'' 61
       (run_checks rl_env_two [(''voice_call'', ''10.0.0.7'', 60), (''voice_call'', ''10.0.0.7'', 62),
                              (''voice_call'', ''10.0.0.8'', 60)] (wc_init 5))))"
proof -
  have "checks_of ''voice_call'' ''10.0.0.7'' 61 [(''voice_call'', ''10.0.0.7'', 60), (''voice_call'', ''10.0.0.7'', 62),
      (''voice_call'', ''10.0.0.8'', 60)] = 2"
    by code_simp
  then show ?thesis
    by (subst rate_limit_admits_exactly [OF rl_env_two_enabled]) (simp_all add: rl_env_two_limit)
qed

theorem retry_after_reaches_next_window_witness:
  "rl_bucket 61 < rl_bucket (61 + 59)"
proof -
  let ?c = "run_checks rl_env_two [(''voice_call'', ''10.0.0.7'', 60), (''voice_call'', ''10.0.0.7'', 60)] (wc_init 5)"
  have d: "fst (check_rate_limit rl_env_two ''voice_call'' ''10.0.0.7'' 61 ?c) =
      \<lparr>rl_allowed = False, rl_scope = ''voice_call'', rl_limit = 2, rl_retry_after = 59\<rparr>"
    by code_simp
  show ?thesis
    using retry_after_reaches_next_window [OF d, of "61 + 59"] by simp
qed

theorem rate_limit_key_injective_witness:
  "rl_key ''seo_generate'' ''10.0.0.7'' 61 \<noteq> rl_key ''voice_call'' ''10.0.0.7'' 61"
  by (subst rate_limit_key_injective) simp_all

end
