(* ===== verification/Sha256.thy ===== *)
theory Sha256
  imports Prelude "HOL-Library.Word"
begin

text \<open>
  The two digests the code takes from the Python standard library, written out:
  \<open>hashlib.sha256(b).hexdigest()\<close> and \<open>hmac.new(key, msg, hashlib.sha256).hexdigest()\<close>
  (FIPS 180-4 and RFC 2104) on byte strings. Bytes are the characters of a \<^typ>\<open>string\<close>,
  words are 32 bits wide and their addition wraps. Nothing below assumes that the digests are
  collision free.
\<close>

unbundle bit_operations_syntax

definition ror32 :: "nat \<Rightarrow> 32 word \<Rightarrow> 32 word" where
  "ror32 n w = push_bit (32 - n) w OR drop_bit n w"

text \<open>
  The constants of FIPS 180-4 are the first 32 bits of the fractional parts of the roots of the first
  primes; they are computed here bit by bit, the integer part falling out of the 32-bit word.
\<close>

fun root_bits :: "nat \<Rightarrow> nat \<Rightarrow> nat \<Rightarrow> nat \<Rightarrow> nat" where
  "root_bits 0 e target acc = acc"
| "root_bits (Suc b) e target acc =
     root_bits b e target (if (acc + 2 ^ b) ^ e \<le> target then acc + 2 ^ b else acc)"

definition root_fraction :: "nat \<Rightarrow> nat \<Rightarrow> 32 word" where
  "root_fraction e p = of_nat (root_bits 36 e (p * 2 ^ (32 * e)) 0)"

definition small_primes :: "nat list" where
  "small_primes = filter (\<lambda>p. list_all (\<lambda>d. p mod d \<noteq> 0) [2..<p]) [2..<312]"

definition sha_k :: "32 word list" where
  "sha_k = map (root_fraction 3) small_primes"

type_synonym sha_state = "32 word \<times> 32 word \<times> 32 word \<times> 32 word \<times> 32 word \<times> 32 word \<times> 32 word \<times> 32 word"

definition sha_h0 :: sha_state where
  "sha_h0 = (let r = root_fraction 2 in (r 2, r 3, r 5, r 7, r 11, r 13, r 17, r 19))"

definition small_sigma0 :: "32 word \<Rightarrow> 32 word" where
  "small_sigma0 x = ror32 7 x XOR ror32 18 x XOR drop_bit 3 x"

definition small_sigma1 :: "32 word \<Rightarrow> 32 word" where
  "small_sigma1 x = ror32 17 x XOR ror32 19 x XOR drop_bit 10 x"

definition big_sigma0 :: "32 word \<Rightarrow> 32 word" where
  "big_sigma0 x = ror32 2 x XOR ror32 13 x XOR ror32 22 x"

definition big_sigma1 :: "32 word \<Rightarrow> 32 word" where
  "big_sigma1 x = ror32 6 x XOR ror32 11 x XOR ror32 25 x"

text \<open>The message schedule, newest word first.\<close>

fun sha_schedule :: "nat \<Rightarrow> 32 word list \<Rightarrow> 32 word list" where
  "sha_schedule 0 ws = ws"
| "sha_schedule (Suc n) ws =
     sha_schedule n ((small_sigma1 (ws ! 1) + ws ! 6 + small_sigma0 (ws ! 14) + ws ! 15) # ws)"

fun sha_round :: "32 word \<times> 32 word \<Rightarrow> sha_state \<Rightarrow> sha_state" where
  "sha_round (k, w) (a, b, c, d, e, f, g, h) =
     (let t1 = h + big_sigma1 e + ((e AND f) XOR (NOT e AND g)) + k + w;
          t2 = big_sigma0 a + ((a AND b) XOR (a AND c) XOR (b AND c))
      in (t1 + t2, a, b, c, d + t1, e, f, g))"

fun sha_add :: "sha_state \<Rightarrow> sha_state \<Rightarrow> sha_state" where
  "sha_add (a, b, c, d, e, f, g, h) (a', b', c', d', e', f', g', h') =
     (a + a', b + b', c + c', d + d', e + e', f + f', g + g', h + h')"

definition sha_block :: "32 word list \<Rightarrow> sha_state \<Rightarrow> sha_state" where
  "sha_block ws s = sha_add s (fold sha_round (zip sha_k (rev (sha_schedule 48 (rev ws)))) s)"

definition byte_of :: "char \<Rightarrow> 32 word" where
  "byte_of c = of_nat (char_code c)"

definition be_bytes :: "nat \<Rightarrow> nat \<Rightarrow> 32 word list" where
  "be_bytes k n = map (\<lambda>i. of_nat (n div 256 ^ (k - 1 - i) mod 256)) [0..<k]"

definition sha_pad :: "32 word list \<Rightarrow> 32 word list" where
  "sha_pad bs = (let n = length bs; z = (119 - n mod 64) mod 64
                 in bs @ [0x80] @ replicate z 0 @ be_bytes 8 (8 * n))"

fun words_of :: "32 word list \<Rightarrow> 32 word list" where
  "words_of (a # b # c # d # bs) = (push_bit 24 a OR push_bit 16 b OR push_bit 8 c OR d) # words_of bs"
| "words_of _ = []"

fun sha_blocks :: "nat \<Rightarrow> 32 word list \<Rightarrow> sha_state \<Rightarrow> sha_state" where
  "sha_blocks 0 ws s = s"
| "sha_blocks (Suc n) ws s = sha_blocks n (drop 16 ws) (sha_block (take 16 ws) s)"

fun sha_out :: "sha_state \<Rightarrow> 32 word list" where
  "sha_out (a, b, c, d, e, f, g, h) = [a, b, c, d, e, f, g, h]"

definition sha256_words :: "32 word list \<Rightarrow> 32 word list" where
  "sha256_words bs = (let ws = words_of (sha_pad bs) in sha_out (sha_blocks (length ws div 16) ws sha_h0))"

definition word_bytes :: "32 word \<Rightarrow> 32 word list" where
  "word_bytes w = [drop_bit 24 w, drop_bit 16 w AND 255, drop_bit 8 w AND 255, w AND 255]"

definition sha256_bytes :: "32 word list \<Rightarrow> 32 word list" where
  "sha256_bytes bs = concat (map word_bytes (sha256_words bs))"

definition hex_digit :: "32 word \<Rightarrow> char" where
  "hex_digit w = ''0123456789abcdef'' ! unat (w AND 15)"

definition hex_byte :: "32 word \<Rightarrow> string" where
  "hex_byte b = [hex_digit (drop_bit 4 b), hex_digit b]"

definition sha256_hex :: "string \<Rightarrow> string" where
  "sha256_hex s = concat (map hex_byte (sha256_bytes (map byte_of s)))"

definition hmac_key_block :: "32 word list \<Rightarrow> 32 word list" where
  "hmac_key_block k = (let k' = (if 64 < length k then sha256_bytes k else k)
                       in k' @ replicate (64 - length k') 0)"

text \<open>\<open>hmac.new(key, msg, sha256).digest()\<close>.\<close>

definition hmac_bytes :: "32 word list \<Rightarrow> 32 word list \<Rightarrow> 32 word list" where
  "hmac_bytes key msg =
     (let k = hmac_key_block key;
          inner = sha256_bytes (map (\<lambda>b. b XOR 0x36) k @ msg)
      in sha256_bytes (map (\<lambda>b. b XOR 0x5c) k @ inner))"

definition hmac_sha256_hex :: "string \<Rightarrow> string \<Rightarrow> string" where
  "hmac_sha256_hex key msg = concat (map hex_byte (hmac_bytes (map byte_of key) (map byte_of msg)))"

lemma length_sha256_words [simp]: "length (sha256_words bs) = 8"
proof -
  have "length (sha_out s) = 8" for s
    by (cases s rule: sha_out.cases) simp
  then show ?thesis by (simp add: sha256_words_def Let_def)
qed

lemma length_sha256_bytes [simp]: "length (sha256_bytes bs) = 32"
proof -
  have "length (concat (map word_bytes ws)) = 4 * length ws" for ws
    by (induction ws) (simp_all add: word_bytes_def)
  then show ?thesis by (simp add: sha256_bytes_def)
qed

lemma hex_digit_in: "hex_digit w \<in> set ''0123456789abcdef''"
proof -
  have "unat (w AND 15) \<le> unat (15 :: 32 word)"
    by (rule word_and_le1 [THEN word_le_nat_alt [THEN iffD1]])
  then show ?thesis unfolding hex_digit_def by (intro nth_mem) simp
qed

lemma hex_render:
  "length (concat (map hex_byte bs)) = 2 * length bs
   \<and> set (concat (map hex_byte bs)) \<subseteq> set ''0123456789abcdef''"
proof (induction bs)
  case (Cons b bs)
  then show ?case using hex_digit_in [of b] hex_digit_in [of "drop_bit 4 b"] by (auto simp: hex_byte_def)
qed simp

lemma sha256_hex_shape:
  "length (sha256_hex s) = 64 \<and> set (sha256_hex s) \<subseteq> set ''0123456789abcdef''"
  using hex_render [of "sha256_bytes (map byte_of s)"] by (simp add: sha256_hex_def)

lemma length_hmac_bytes [simp]: "length (hmac_bytes k m) = 32"
  by (simp add: hmac_bytes_def Let_def)

lemma hmac_hex_shape:
  "length (hmac_sha256_hex k m) = 64 \<and> set (hmac_sha256_hex k m) \<subseteq> set ''0123456789abcdef''"
  using hex_render [of "hmac_bytes (map byte_of k) (map byte_of m)"] by (simp add: hmac_sha256_hex_def)

end
