(* ===== verification/Security.thy ===== *)
theory Security
  imports Sha256
begin

text \<open>
  Request signing: \<open>backend/common/security.py\<close> (canonical string, HMAC, key resolution) and the
  request builders of \<open>backend/common/http_client.py\<close>. A signature is the HMAC-SHA256 of a
  newline-joined canonical string; the lemmas show that the canonical string determines every
  signed field when no field holds a newline, so nothing in it can be moved from one field to
  another.
\<close>

definition newline :: string where
  "newline = [CHR 0x0A]"

definition canonical_parts ::
  "string \<Rightarrow> string \<Rightarrow> string \<Rightarrow> string \<Rightarrow> string \<Rightarrow> string option \<Rightarrow> string \<Rightarrow> string list" where
  "canonical_parts method path timestamp nonce body caller query =
     (let body_hash = sha256_hex body;
          signed_path = (if query \<noteq> [] then path @ ''?'' @ query else path);
          parts = [py_upper method, signed_path, timestamp, nonce, body_hash]
      in (case caller of None \<Rightarrow> parts | Some c \<Rightarrow> parts @ [c]))"

definition sign_request ::
  "string \<Rightarrow> string \<Rightarrow> string \<Rightarrow> string \<Rightarrow> string \<Rightarrow> string \<Rightarrow> string option \<Rightarrow> string \<Rightarrow> string" where
  "sign_request secret method path timestamp nonce body caller query =
     hmac_sha256_hex secret (py_join newline (canonical_parts method path timestamp nonce body caller query))"

text \<open>\<open>hmac.compare_digest\<close> on ASCII strings is equality.\<close>

definition safe_compare :: "string \<Rightarrow> string \<Rightarrow> bool" where
  "safe_compare a b = (a = b)"

text \<open>\<open>generate_timestamp()\<close> at a clock whose whole seconds are \<open>now\<close>.\<close>

definition generate_timestamp :: "int \<Rightarrow> string" where
  "generate_timestamp now = show_int now"

definition per_service_key_env_name :: "string \<Rightarrow> string" where
  "per_service_key_env_name service =
     ''SAMUS_HMAC_KEY_'' @ py_upper (map (\<lambda>c. if py_isalnum c then c else CHR ''_'') (py_strip service))"

definition resolve_service_key :: "environ \<Rightarrow> string \<Rightarrow> string \<Rightarrow> string" where
  "resolve_service_key env service shared_key =
     (let env_key = getenv env (per_service_key_env_name service) []
      in if env_key \<noteq> [] \<and> py_strip env_key \<noteq> [] then py_strip env_key else shared_key)"

section \<open>HTTP requests and the signing client\<close>

record http_request =
  req_method :: string
  req_path :: string
  req_query :: string
  req_headers :: "(string \<times> string) list"
  req_body :: string

text \<open>\<open>request.headers.get(name, "")\<close>, with canonically spelled header names.\<close>

definition header :: "http_request \<Rightarrow> string \<Rightarrow> string" where
  "header r name = dict_get (req_headers r) name []"

datatype sign_error = NoHmacKey string

definition caller_name :: "string \<Rightarrow> string" where
  "caller_name service_name = py_or (py_strip (py_or service_name ''unknown'')) ''unknown''"

definition url_path :: "string \<Rightarrow> string" where
  "url_path path = (if py_startswith path ''/'' then path else ''/'' @ path)"

text \<open>
  \<open>_build_signed_request\<close>: the request that is sent. The body is httpx's JSON encoding of the
  payload, which is passed in encoded; the nonce and the clock are passed in as well. The
  request goes to the path of the joined URL, while the signature is taken over \<open>path\<close> as it
  was given. The base URL is a host with no path of its own, as all gateway URLs are.
\<close>

definition build_signed_request ::
  "environ \<Rightarrow> string \<Rightarrow> string \<Rightarrow> string \<Rightarrow> string \<Rightarrow> string option \<Rightarrow> int \<Rightarrow> string \<Rightarrow> sign_error + http_request" where
  "build_signed_request env service_name shared_key path body secret now nonce =
     (let caller = caller_name service_name;
          key = (case secret of None \<Rightarrow> resolve_service_key env caller shared_key | Some k \<Rightarrow> k)
      in if key = [] then Inl (NoHmacKey caller)
         else let ts = generate_timestamp now;
                  sig = sign_request key ''POST'' path ts nonce body (Some caller) []
              in Inr \<lparr>req_method = ''POST'', req_path = url_path path, req_query = [],
                      req_headers = [(''X-Samus-Timestamp'', ts), (''X-Samus-Nonce'', nonce),
                                     (''X-Samus-Signature'', sig), (''X-Samus-Caller'', caller)],
                      req_body = body\<rparr>)"

definition build_signed_get_request ::
  "environ \<Rightarrow> string \<Rightarrow> string \<Rightarrow> string \<Rightarrow> string option \<Rightarrow> int \<Rightarrow> string \<Rightarrow> sign_error + http_request" where
  "build_signed_get_request env service_name shared_key path secret now nonce =
     (let caller = caller_name service_name;
          key = (case secret of None \<Rightarrow> resolve_service_key env caller shared_key | Some k \<Rightarrow> k)
      in if key = [] then Inl (NoHmacKey caller)
         else let ts = generate_timestamp now;
                  sig = sign_request key ''GET'' path ts nonce [] (Some caller) []
              in Inr \<lparr>req_method = ''GET'', req_path = url_path path, req_query = [],
                      req_headers = [(''X-Samus-Timestamp'', ts), (''X-Samus-Nonce'', nonce),
                                     (''X-Samus-Signature'', sig), (''X-Samus-Caller'', caller)],
                      req_body = []\<rparr>)"

section \<open>The canonical string determines the signed fields\<close>

lemma py_join_newline_cancel:
  assumes "CHR 0x0A \<notin> set s" "CHR 0x0A \<notin> set t"
  shows "s @ CHR 0x0A # xs = t @ CHR 0x0A # ys \<longleftrightarrow> s = t \<and> xs = ys"
  using assms
proof (induction s arbitrary: t)
  case Nil
  then show ?case by (cases t) auto
next
  case (Cons c s)
  then show ?case by (cases t) auto
qed

lemma py_join_newline_count:
  "xs \<noteq> [] \<Longrightarrow> \<forall>x \<in> set xs. CHR 0x0A \<notin> set x \<Longrightarrow>
   count_list (py_join newline xs) (CHR 0x0A) = length xs - 1"
  by (induction newline xs rule: py_join.induct) (auto simp: newline_def)

lemma py_join_newline_inj:
  assumes "xs \<noteq> []" "ys \<noteq> []"
    and "\<forall>x \<in> set xs. CHR 0x0A \<notin> set x" "\<forall>y \<in> set ys. CHR 0x0A \<notin> set y"
  shows "py_join newline xs = py_join newline ys \<longleftrightarrow> xs = ys"
  using assms
proof (induction xs arbitrary: ys)
  case (Cons x xs)
  then obtain y ys' where ys: "ys = y # ys'" by (cases ys) auto
  show ?case
  proof (cases "xs = [] \<or> ys' = []")
    case True
    have "length (x # xs) = length ys" if "py_join newline (x # xs) = py_join newline ys"
      using py_join_newline_count [of "x # xs"] py_join_newline_count [of ys] Cons.prems that ys
      by simp
    with True ys show ?thesis by auto
  next
    case False
    with Cons.prems Cons.IH [of ys'] ys show ?thesis
      by (auto simp: py_join_singleton_sep newline_def py_join_newline_cancel)
  qed
qed simp

lemma sha256_hex_no_newline: "CHR 0x0A \<notin> set (sha256_hex s)"
  using sha256_hex_shape [of s] by auto

text \<open>Two signed requests have the same canonical string only if they agree on the method, on the path
  with its query, on the timestamp, the nonce, the body digest and the caller, and on whether
  a caller is named at all, provided no field holds a newline: no signed field can be shifted into
  a neighbouring one.\<close>

theorem canonical_string_binds_fields:
  assumes "\<forall>f \<in> {py_upper m1, p1, q1, t1, n1, py_upper m2, p2, q2, t2, n2}. CHR 0x0A \<notin> set f"
    and "\<forall>c. c1 = Some c \<or> c2 = Some c \<longrightarrow> CHR 0x0A \<notin> set c"
    and "py_join newline (canonical_parts m1 p1 t1 n1 b1 c1 q1)
       = py_join newline (canonical_parts m2 p2 t2 n2 b2 c2 q2)"
  shows "py_upper m1 = py_upper m2 \<and> t1 = t2 \<and> n1 = n2 \<and> sha256_hex b1 = sha256_hex b2 \<and> c1 = c2
    \<and> (if q1 = [] then p1 else p1 @ ''?'' @ q1) = (if q2 = [] then p2 else p2 @ ''?'' @ q2)"
proof -
  have "canonical_parts m1 p1 t1 n1 b1 c1 q1 = canonical_parts m2 p2 t2 n2 b2 c2 q2"
  proof (subst py_join_newline_inj [symmetric])
    show "\<forall>x \<in> set (canonical_parts m1 p1 t1 n1 b1 c1 q1). CHR 0x0A \<notin> set x"
      using assms(1,2) sha256_hex_no_newline by (auto simp: canonical_parts_def Let_def split: option.splits)
    show "\<forall>x \<in> set (canonical_parts m2 p2 t2 n2 b2 c2 q2). CHR 0x0A \<notin> set x"
      using assms(1,2) sha256_hex_no_newline by (auto simp: canonical_parts_def Let_def split: option.splits)
  qed (use assms(3) in \<open>simp_all add: canonical_parts_def Let_def split: option.splits\<close>)
  then show ?thesis
    by (auto simp: canonical_parts_def Let_def split: option.splits if_splits)
qed

text \<open>Every signature is 64 lowercase hexadecimal characters, for every key and every request.\<close>

theorem sign_request_shape:
  "length (sign_request k m p t n b c q) = 64 \<and> set (sign_request k m p t n b c q) \<subseteq> set ''0123456789abcdef''"
  unfolding sign_request_def by (rule hmac_hex_shape)

lemma sign_request_nonempty: "sign_request k m p t n b c q \<noteq> []"
  using hmac_hex_shape by (metis sign_request_def list.size(3) zero_neq_numeral)

section \<open>Key resolution\<close>

lemma resolve_service_key_cases:
  "resolve_service_key env service shared = shared
   \<or> (\<exists>v. env (per_service_key_env_name service) = Some v \<and> py_strip v \<noteq> []
          \<and> resolve_service_key env service shared = py_strip v)"
  by (auto simp: resolve_service_key_def getenv_def Let_def split: option.splits)

lemma caller_name_nonempty: "caller_name s \<noteq> []"
  by (auto simp: caller_name_def py_or_def)

section \<open>Witness\<close>

theorem canonical_string_binds_fields_witness:
  "py_upper ''post'' = py_upper ''POST''"
proof -
  have u: "py_upper ''post'' = ''POST''" "py_upper ''POST'' = ''POST''" by code_simp+
  show ?thesis
    using canonical_string_binds_fields
      [of "''post''" "''/work''" "''a=1''" "''1000''" "''n1''" "''POST''" "''/work''" "''a=1''" "''1000''" "''n1''"
          "Some ''voice''" "Some ''voice''" "''{}''" "''{}''"]
    by (simp add: u canonical_parts_def)
qed

end
