(* ===== verification/Capabilities.thy ===== *)
theory Capabilities
  imports Prelude
begin

text \<open>
  Capability enforcement and the caller-to-callee authorization matrix,
  \<open>backend/common/capabilities.py\<close>. The two tables are the source's, entry by entry; a Python
  set is a list without repetition. A handler that raises \<open>HTTPException\<close> returns \<open>Inl\<close> of the
  status and the detail. Log lines are not part of the state.
\<close>

definition SERVICE_CAPABILITIES :: "(string \<times> string list) list" where
  "SERVICE_CAPABILITIES = [
     (''gateway'', [''dispatch'', ''dlq_read'', ''autonomy_plan'', ''budget_admin'',
           ''list_tasks'', ''control_tick'', ''crm_stats'', ''journey_read'']),
     (''leadgen'', [''score'', ''qualify'']),
     (''prospecting'', [''discover'', ''build_call_sheet'', ''analyze_business'',
           ''score_deal'', ''generate_dynamic_script'',
           ''generate_dynamic_script_with_pivot'']),
     (''scaffold'', [''generate_assets'']),
     (''fulfillment'', [''plan_execution'', ''validate_plan'', ''execute_plan'',
           ''ingest_result'', ''resume_plan'', ''finalize_plan'']),
     (''memory'', [''read'', ''write'', ''query'', ''delete'', ''stats'', ''graph'',
           ''customers'', ''ingest_knowledge'']),
     (''feedback'', [''ingest'']),
     (''outreach'', [''advance_call'', ''log_outcome'', ''send_message'',
           ''handle_objection'', ''advance_call_state'', ''send_social_post'',
           ''compose_and_send_social_post'', ''repurpose_blog_post'',
           ''plan_social_calendar'', ''dispatch_social_calendar'',
           ''plan_nurture'']),
     (''optimizer'', [''select_arm'', ''update_arm'', ''optimize_portfolio'']),
     (''proposal'', [''generate_proposal'', ''validate_proposal'']),
     (''seo'', [''audit_site'', ''optimize_page'', ''generate_content'',
           ''audit_and_report'', ''geo_format'', ''aio_analyze'', ''aio_probe'']),
     (''finance'', [''snapshot'', ''codb_summary'', ''runway'', ''liabilities'',
           ''declines'', ''debts'', ''actions'', ''info_gaps'', ''hardship'',
           ''payment_links'', ''stripe_webhook'', ''recent_payments'',
           ''customer_summary'', ''report_meter_event'', ''customer_exists'']),
     (''voice'', [''initiate_call'', ''fetch_call'', ''list_calls'',
           ''handle_webhook'', ''adapt_call'', ''handle_inbound'',
           ''send_call_summary'']),
     (''intake'', [''submit_lead'', ''list_leads'', ''poll_inbox'']),
     (''crm'', [''read_prospects'', ''read_contacts'', ''read_conversations'',
           ''read_call_state'', ''read_opportunities'', ''read_tasks'',
           ''read_artifacts'', ''convert_lead'', ''write_conversation'',
           ''write_call_state'', ''write_task'', ''update_task'',
           ''write_opportunity'', ''advance_opportunity'', ''write_artifact'',
           ''find_opportunity_for_email'', ''log_feedback'',
           ''get_feedback_snapshot'', ''auto_create_opportunity'',
           ''generate_case_study'', ''build_proof_wall'', ''referral_code'',
           ''referral_record'', ''referral_qualify'']),
     (''strategy'', [''evaluate'', ''dispatch_strategy_action'', ''record_outcome'',
           ''build_context'', ''rank_portfolio'', ''propose_allocation'',
           ''update_bandit_arm'', ''forecast_allocation'', ''compile_policy'']),
     (''campaigns'', [''create_campaign'', ''start_campaign'', ''advance_campaign'',
           ''approve_node'', ''update_kpis'', ''ingest_kpi'',
           ''generate_report'', ''read_status'']),
     (''signal_filter'', [''plan_execution'']),
     (''path_optimizer'', [''plan_execution'']),
     (''template_recovery'', [''plan_execution'']),
     (''portfolio_controller'', [''plan_execution'']),
     (''entropy'', [''plan_execution''])]"

definition CALLER_GRANTS :: "(string \<times> (string \<times> string list) list) list" where
  "CALLER_GRANTS = [
     (''gateway'',
       [(''*'', [''*''])]),
     (''fulfillment'',
       [(''*'', [''*''])]),
     (''crm'',
       [(''strategy'', [''evaluate'', ''dispatch_strategy_action'', ''record_outcome'',
               ''build_context''])]),
     (''outreach'',
       [(''crm'', [''read_prospects'', ''read_contacts'', ''read_call_state'',
               ''read_opportunities'', ''read_conversations'',
               ''write_conversation'', ''write_call_state'', ''write_task'',
               ''update_task'', ''advance_opportunity'',
               ''find_opportunity_for_email''])]),
     (''voice'',
       [(''memory'', [''write'', ''read'', ''query'']),
        (''crm'', [''read_prospects'', ''read_call_state'',
               ''read_conversations'', ''read_opportunities'',
               ''write_conversation'', ''write_call_state'', ''write_task'',
               ''update_task'', ''write_artifact'', ''advance_opportunity'',
               ''find_opportunity_for_email'']),
        (''finance'', [''report_meter_event'', ''customer_exists''])]),
     (''finance'',
       [(''gateway'', [''dispatch''])]),
     (''seo'',
       [(''gateway'', [''dispatch''])]),
     (''proposal'',
       [(''gateway'', [''dispatch''])]),
     (''strategy'',
       [(''gateway'', [''dispatch'']),
        (''crm'', [''read_prospects'', ''read_opportunities'',
               ''read_conversations''])]),
     (''retainer'',
       [(''crm'', [''write_opportunity'', ''advance_opportunity'', ''write_task'',
               ''update_task''])]),
     (''prospecting'',
       [(''crm'', [''read_prospects'', ''read_call_state'', ''read_conversations''])]),
     (''campaigns'',
       [(''gateway'', [''dispatch''])])]"

definition EXTERNAL_CALLER :: string where "EXTERNAL_CALLER = ''external''"
definition UNKNOWN_CALLER :: string where "UNKNOWN_CALLER = ''unknown''"

type_synonym 'a http_result = "(int \<times> string) + 'a"

definition check_capability :: "string \<Rightarrow> string \<Rightarrow> unit http_result" where
  "check_capability service capability =
     (let allowed = dict_get SERVICE_CAPABILITIES service []
      in if capability \<notin> set allowed then Inl (403, ''capability denied: '' @ capability) else Inr ())"

definition authz_mode :: "environ \<Rightarrow> string" where
  "authz_mode env =
     (let raw = py_lower (py_strip (py_or (getenv env ''SAMUS_AUTHZ_MODE'' []) []))
      in if raw = [] then ''enforce''
         else if raw \<notin> set [''off'', ''audit'', ''enforce''] then ''enforce''
         else raw)"

text \<open>An empty grant table or grant set is falsy, as a missing one is.\<close>

definition is_authorized :: "string \<Rightarrow> string \<Rightarrow> string \<Rightarrow> bool" where
  "is_authorized caller callee capability =
     (if caller = EXTERNAL_CALLER then True
      else let grants = dict_get CALLER_GRANTS caller [] in
        if grants = [] then False
        else if ''*'' \<in> set (dict_get grants ''*'' []) then True
        else let callee_grant = dict_get grants callee [] in
          if callee_grant = [] then False
          else ''*'' \<in> set callee_grant \<or> capability \<in> set callee_grant)"

definition caller_reaches_callee :: "string \<Rightarrow> string \<Rightarrow> bool" where
  "caller_reaches_callee caller callee =
     (if caller = EXTERNAL_CALLER then True
      else let grants = dict_get CALLER_GRANTS caller [] in
        if grants = [] then False
        else if ''*'' \<in> set (dict_get grants ''*'' []) then True
        else dict_get grants callee [] \<noteq> [])"

text \<open>\<open>(caller or "").strip() or UNKNOWN_CALLER\<close>.\<close>

definition caller_id_of :: "string option \<Rightarrow> string" where
  "caller_id_of caller = py_or (py_strip (case caller of None \<Rightarrow> [] | Some c \<Rightarrow> c)) UNKNOWN_CALLER"

definition authorize_caller_to_callee :: "environ \<Rightarrow> string option \<Rightarrow> string \<Rightarrow> string option \<Rightarrow> bool" where
  "authorize_caller_to_callee env caller callee mode =
     (let resolved_mode = (case mode of Some m \<Rightarrow> m | None \<Rightarrow> authz_mode env) in
      if resolved_mode = ''off'' then True
      else let caller_id = caller_id_of caller in
        if caller_id = EXTERNAL_CALLER then True
        else if caller_reaches_callee caller_id callee then True
        else if resolved_mode = ''audit'' then True
        else False)"

definition authorize ::
  "environ \<Rightarrow> string option \<Rightarrow> string \<Rightarrow> string \<Rightarrow> string option \<Rightarrow> unit http_result" where
  "authorize env caller callee capability mode =
     (let resolved_mode = (case mode of Some m \<Rightarrow> m | None \<Rightarrow> authz_mode env) in
      if resolved_mode = ''off'' then Inr ()
      else let caller_id = caller_id_of caller in
        if caller_id = EXTERNAL_CALLER then Inr ()
        else if is_authorized caller_id callee capability then Inr ()
        else if resolved_mode = ''audit'' then Inr ()
        else Inl (403, ''authorization denied: '' @ caller_id @ '' -> '' @ callee @ '':'' @ capability))"

text \<open>
  \<open>resolve_caller\<close>: no request at all, or no (or an empty) \<open>caller_service\<close> attribute, is the
  unknown caller. The outer option is the request.
\<close>

definition resolve_caller :: "string option option \<Rightarrow> string" where
  "resolve_caller request =
     (case request of
        None \<Rightarrow> UNKNOWN_CALLER
      | Some attribute \<Rightarrow>
          (case attribute of None \<Rightarrow> UNKNOWN_CALLER
           | Some c \<Rightarrow> if c = [] then UNKNOWN_CALLER else c))"

definition check_capability_for ::
  "environ \<Rightarrow> string option option \<Rightarrow> string \<Rightarrow> string \<Rightarrow> unit http_result" where
  "check_capability_for env request callee capability =
     (case check_capability callee capability of
        Inl e \<Rightarrow> Inl e
      | Inr _ \<Rightarrow> authorize env (Some (resolve_caller request)) callee capability None)"

section \<open>The tables\<close>

lemma CALLER_GRANTS_wf: "dict_wf CALLER_GRANTS \<and> (\<forall>row \<in> set CALLER_GRANTS. dict_wf (snd row) \<and> snd row \<noteq> [])"
  by code_simp

lemma SERVICE_CAPABILITIES_wf: "dict_wf SERVICE_CAPABILITIES"
  by code_simp

lemma grants_nonempty: "\<forall>row \<in> set CALLER_GRANTS. \<forall>grant \<in> set (snd row). snd grant \<noteq> []"
  by code_simp

text \<open>Every grant that is not a wildcard names a service and capabilities that service exposes.\<close>

lemma grants_within_capabilities:
  "\<forall>row \<in> set CALLER_GRANTS. \<forall>grant \<in> set (snd row).
     snd grant = [''*''] \<or> set (snd grant) \<subseteq> set (dict_get SERVICE_CAPABILITIES (fst grant) [])"
  by code_simp

lemma wildcard_only_whole_mesh:
  "\<forall>row \<in> set CALLER_GRANTS. \<forall>grant \<in> set (snd row).
     ''*'' \<in> set (snd grant) \<longrightarrow> fst grant = ''*'' \<and> fst row \<in> {''gateway'', ''fulfillment''}"
  by code_simp

lemma dict_get_Cons_in:
  assumes "dict_get d k [] \<noteq> []"
  shows "(k, dict_get d k []) \<in> set d"
  using assms by (auto simp: dict_get_def dest: map_of_SomeD split: option.splits)

lemma external_not_in_matrix: "dict_get CALLER_GRANTS EXTERNAL_CALLER [] = []"
  by code_simp

section \<open>What the matrix grants\<close>

lemma is_authorized_grant:
  assumes "is_authorized caller callee capability" "caller \<noteq> EXTERNAL_CALLER"
    and "caller \<noteq> ''gateway''" "caller \<noteq> ''fulfillment''"
  shows "\<exists>row \<in> set CALLER_GRANTS. \<exists>grant \<in> set (snd row).
    fst row = caller \<and> fst grant = callee \<and> capability \<in> set (snd grant) \<and> ''*'' \<notin> set (snd grant)"
proof -
  let ?grants = "dict_get CALLER_GRANTS caller []"
  from assms(1,2) have ne: "?grants \<noteq> []"
    by (auto simp: is_authorized_def Let_def split: if_splits)
  then have row: "(caller, ?grants) \<in> set CALLER_GRANTS" by (rule dict_get_Cons_in)
  have nowild: "''*'' \<notin> set (snd grant)" if "grant \<in> set ?grants" for grant
    using wildcard_only_whole_mesh row that assms(3,4) by fastforce
  have "''*'' \<notin> set (dict_get ?grants ''*'' [])"
  proof (cases "dict_get ?grants ''*'' [] = []")
    case False
    then show ?thesis using nowild [OF dict_get_Cons_in [OF False]] by simp
  qed simp
  with assms(1,2) ne have g: "dict_get ?grants callee [] \<noteq> []"
      "''*'' \<in> set (dict_get ?grants callee []) \<or> capability \<in> set (dict_get ?grants callee [])"
    by (auto simp: is_authorized_def Let_def split: if_splits)
  from nowild [OF dict_get_Cons_in [OF g(1)]] g(2)
  have "''*'' \<notin> set (dict_get ?grants callee [])" "capability \<in> set (dict_get ?grants callee [])" by auto
  with row dict_get_Cons_in [OF g(1)] show ?thesis by force
qed

text \<open>Least privilege: a workcell other than the gateway and fulfillment can only be authorized for a
  capability that the callee really exposes, so the fine-grained matrix never grants anything the
  static capability check would refuse.\<close>

theorem authorized_capability_is_exposed:
  assumes "is_authorized caller callee capability"
    and "caller \<noteq> EXTERNAL_CALLER" "caller \<noteq> ''gateway''" "caller \<noteq> ''fulfillment''"
  shows "check_capability callee capability = Inr ()"
proof -
  obtain row grant where "row \<in> set CALLER_GRANTS" "grant \<in> set (snd row)" "fst grant = callee"
      "capability \<in> set (snd grant)" "''*'' \<notin> set (snd grant)"
    using is_authorized_grant [OF assms] by blast
  moreover then have "set (snd grant) \<subseteq> set (dict_get SERVICE_CAPABILITIES (fst grant) [])"
    using grants_within_capabilities by fastforce
  ultimately show ?thesis by (auto simp: check_capability_def Let_def)
qed

theorem authorized_capability_is_exposed_witness:
  "check_capability ''crm'' ''write_task'' = Inr ()"
  by (rule authorized_capability_is_exposed [of "''voice''"])
     (simp_all add: is_authorized_def CALLER_GRANTS_def dict_get_def EXTERNAL_CALLER_def)

text \<open>The coarse gate of the middleware agrees with the fine-grained matrix: a caller reaches a callee
  exactly when it is authorized for at least one capability there, so the boundary check neither
  blocks a granted call nor lets through a caller without any grant.\<close>

theorem coarse_gate_agrees_with_matrix:
  "caller_reaches_callee caller callee \<longleftrightarrow> (\<exists>capability. is_authorized caller callee capability)"
proof -
  have "xs \<noteq> [] \<longleftrightarrow> (\<exists>c. ''*'' \<in> set xs \<or> c \<in> set xs)" for xs :: "string list"
    by (cases xs) auto
  then show ?thesis
    by (auto simp: caller_reaches_callee_def is_authorized_def Let_def)
qed

text \<open>The mode decides what a denial does. With the mode off nothing is refused; in audit mode nothing
  is refused either; in every other case, unset and misspelled values included, a request-aware check
  succeeds only if the callee exposes the capability and the caller is external or holds the grant.\<close>

theorem enforcement_fails_closed:
  assumes "authz_mode env \<noteq> ''off''" "authz_mode env \<noteq> ''audit''"
  shows "check_capability_for env request callee capability = Inr () \<longleftrightarrow>
    check_capability callee capability = Inr () \<and>
    is_authorized (caller_id_of (Some (resolve_caller request))) callee capability"
  using assms
  by (auto simp: check_capability_for_def authorize_def Let_def is_authorized_def split: sum.splits if_splits)

lemma authz_mode_cases: "authz_mode env \<in> {''off'', ''audit'', ''enforce''}"
  by (auto simp: authz_mode_def Let_def)

theorem enforcement_fails_closed_witness:
  "check_capability_for (\<lambda>_. Some ''ENFROCE'') (Some (Some ''seo'')) ''crm'' ''write_task'' \<noteq> Inr ()"
proof -
  let ?env = "\<lambda>_. Some ''ENFROCE''"
  have m: "authz_mode ?env = ''enforce''" by code_simp
  have "\<not> is_authorized (caller_id_of (Some (resolve_caller (Some (Some ''seo''))))) ''crm'' ''write_task''"
    by code_simp
  with enforcement_fails_closed [of ?env "Some (Some ''seo'')" "''crm''" "''write_task''"] m
  show ?thesis by simp
qed

lemma crm_callers:
  "filter (\<lambda>c. caller_reaches_callee c ''crm'') (dict_keys CALLER_GRANTS) =
     [''gateway'', ''fulfillment'', ''outreach'', ''voice'', ''strategy'', ''retainer'', ''prospecting'']"
  by code_simp

lemma reaches_needs_row:
  "caller_reaches_callee caller callee \<Longrightarrow> caller = EXTERNAL_CALLER \<or> caller \<in> set (dict_keys CALLER_GRANTS)"
  by (auto simp: caller_reaches_callee_def Let_def dest!: dict_get_Cons_in intro: rev_image_eqI split: if_splits)

text \<open>The cross-workcell boundary of CRM, with enforcement armed: the workcells that get through are exactly
  the gateway, fulfillment, outreach, voice, strategy, the retainer jobs and prospecting, besides the
  reserved name for unsigned paths; an absent or blank caller never does.\<close>

theorem crm_boundary:
  assumes "authz_mode env = ''enforce''"
  shows "authorize_caller_to_callee env caller ''crm'' None \<longleftrightarrow>
    caller_id_of caller \<in> set [''external'', ''gateway'', ''fulfillment'', ''outreach'', ''voice'',
      ''strategy'', ''retainer'', ''prospecting'']"
proof -
  let ?c = "caller_id_of caller"
  have "authorize_caller_to_callee env caller ''crm'' None \<longleftrightarrow> caller_reaches_callee ?c ''crm''"
    using assms by (simp add: authorize_caller_to_callee_def Let_def caller_reaches_callee_def)
  also have "\<dots> \<longleftrightarrow> ?c = EXTERNAL_CALLER
      \<or> ?c \<in> set (filter (\<lambda>c. caller_reaches_callee c ''crm'') (dict_keys CALLER_GRANTS))"
    using reaches_needs_row [of ?c "''crm''"] by (auto simp: caller_reaches_callee_def)
  finally show ?thesis unfolding crm_callers by (simp add: EXTERNAL_CALLER_def)
qed

theorem crm_boundary_witness:
  "\<not> authorize_caller_to_callee (\<lambda>_. None) (Some ''seo'') ''crm'' None"
proof -
  have "authz_mode (\<lambda>_. None) = ''enforce''" by code_simp
  moreover have "caller_id_of (Some ''seo'') = ''seo''" by code_simp
  ultimately show ?thesis using crm_boundary [of "\<lambda>_. None" "Some ''seo''"] by simp
qed

end
