(* ===== verification/Hmac_Middleware.thy ===== *)
theory Hmac_Middleware
  imports Ring_Store Security Capabilities
begin

text \<open>
  \<open>VerifyHMACMiddleware\<close> of \<open>backend/common/middleware.py\<close>: the gate in front of every workcell.
  One dispatch takes the configuration, the environment (per-service keys and the authorization
  mode), the wall clock in whole seconds and the request, and gives either a rejection (status
  and error) or the caller identity the request is forwarded under. The state is the nonce ring and
  the list of deduplication keys the operator was alerted with. What the handler behind the gate
  does with a forwarded request is not part of this theory.
\<close>

record hmac_config =
  hc_pinned :: "string option"
  hc_shared :: string
  hc_window :: int
  hc_exempt_services :: "string list"
  hc_self :: string
  hc_extra_exempt :: "string list"

text \<open>The constructor: \<open>secret or settings.shared_hmac_key\<close>, \<open>window_seconds or settings.hmac_window_seconds\<close>.\<close>

definition verify_hmac_init ::
  "string option \<Rightarrow> int option \<Rightarrow> string list \<Rightarrow> string list \<Rightarrow> string \<Rightarrow> int \<Rightarrow> string \<Rightarrow> hmac_config" where
  "verify_hmac_init secret window_seconds exempt_services extra_exempt settings_key settings_window settings_service =
     \<lparr>hc_pinned = secret,
      hc_shared = py_or (case secret of None \<Rightarrow> [] | Some s \<Rightarrow> s) settings_key,
      hc_window = (case window_seconds of None \<Rightarrow> settings_window
                   | Some w \<Rightarrow> if w = 0 then settings_window else w),
      hc_exempt_services = exempt_services,
      hc_self = settings_service,
      hc_extra_exempt = extra_exempt\<rparr>"

definition EXEMPT_PATHS :: "string list" where
  "EXEMPT_PATHS = [''/health'', ''/metrics'']"

definition FUTURE_SKEW_SECONDS :: int where "FUTURE_SKEW_SECONDS = 5"

record verifier_state =
  vs_nonces :: nonce_store
  vs_alerts :: "string list"

datatype verdict = Reject int string | Forward string

definition resolve_caller_key :: "hmac_config \<Rightarrow> environ \<Rightarrow> string \<Rightarrow> string" where
  "resolve_caller_key cfg env caller =
     (case hc_pinned cfg of Some s \<Rightarrow> s | None \<Rightarrow> resolve_service_key env caller (hc_shared cfg))"

definition request_caller :: "http_request \<Rightarrow> string" where
  "request_caller r = py_strip (header r ''X-Samus-Caller'')"

definition verifier_key :: "hmac_config \<Rightarrow> environ \<Rightarrow> string \<Rightarrow> string" where
  "verifier_key cfg env caller =
     (if caller \<noteq> [] then resolve_caller_key cfg env caller
      else (case hc_pinned cfg of Some s \<Rightarrow> s | None \<Rightarrow> hc_shared cfg))"

definition hmac_exempt :: "hmac_config \<Rightarrow> http_request \<Rightarrow> bool" where
  "hmac_exempt cfg r \<longleftrightarrow> req_path r \<in> set EXEMPT_PATHS \<or> req_path r \<in> set (hc_extra_exempt cfg)
     \<or> hc_self cfg \<in> set (hc_exempt_services cfg)"

definition expected_signature :: "hmac_config \<Rightarrow> environ \<Rightarrow> http_request \<Rightarrow> string" where
  "expected_signature cfg env r =
     (let caller = request_caller r
      in sign_request (verifier_key cfg env caller) (req_method r) (req_path r)
           (header r ''X-Samus-Timestamp'') (header r ''X-Samus-Nonce'') (req_body r)
           (if caller \<noteq> [] then Some caller else None) (req_query r))"

definition verify_dispatch ::
  "hmac_config \<Rightarrow> environ \<Rightarrow> int \<Rightarrow> http_request \<Rightarrow> verifier_state \<Rightarrow> verdict \<times> verifier_state" where
  "verify_dispatch cfg env now r st =
     (if hmac_exempt cfg r then (Forward EXTERNAL_CALLER, st)
      else
        let ts = header r ''X-Samus-Timestamp'';
            nonce = header r ''X-Samus-Nonce'';
            sig = header r ''X-Samus-Signature'' in
        if ts = [] \<or> nonce = [] \<or> sig = [] then (Reject 401 ''hmac_headers_missing'', st)
        else
        let caller = request_caller r;
            secret = verifier_key cfg env caller in
        if secret = [] then (Reject 503 ''hmac_not_configured'', st)
        else
        (case py_int ts of
           None \<Rightarrow> (Reject 401 ''hmac_timestamp_invalid'', st)
         | Some ts_int \<Rightarrow>
           if now - ts_int > hc_window cfg then (Reject 401 ''hmac_timestamp_stale'', st)
           else if ts_int - now > FUTURE_SKEW_SECONDS then (Reject 401 ''hmac_timestamp_future'', st)
           else
             let (seen, nonces) = nonce_seen nonce now (vs_nonces st);
                 st1 = st\<lparr>vs_nonces := nonces\<rparr> in
             if seen then (Reject 401 ''hmac_nonce_replay'', st1)
             else if \<not> safe_compare (expected_signature cfg env r) sig then
               (Reject 401 ''hmac_signature_mismatch'',
                st1\<lparr>vs_alerts := vs_alerts st1 @ [''authfail:'' @ py_or caller ''unknown'']\<rparr>)
             else
               let resolved_caller = py_or caller UNKNOWN_CALLER in
               if \<not> authorize_caller_to_callee env (Some resolved_caller) (hc_self cfg) None then
                 (Reject 403 ''authz_denied'', st1)
               else (Forward resolved_caller, st1)))"

text \<open>A run of dispatches: each request with its clock reading, in the order of arrival.\<close>

definition verify_step ::
  "hmac_config \<Rightarrow> environ \<Rightarrow> int \<times> http_request \<Rightarrow> verifier_state \<Rightarrow> verifier_state" where
  "verify_step cfg env e st = snd (verify_dispatch cfg env (fst e) (snd e) st)"

definition verify_run ::
  "hmac_config \<Rightarrow> environ \<Rightarrow> (int \<times> http_request) list \<Rightarrow> verifier_state \<Rightarrow> verifier_state" where
  "verify_run cfg env es st = fold (verify_step cfg env) es st"

section \<open>What a forwarded request satisfies\<close>

text \<open>The checks that stand before the nonce is recorded.\<close>

definition reaches_nonce_check :: "hmac_config \<Rightarrow> environ \<Rightarrow> int \<Rightarrow> http_request \<Rightarrow> bool" where
  "reaches_nonce_check cfg env now r \<longleftrightarrow>
     \<not> hmac_exempt cfg r \<and> header r ''X-Samus-Timestamp'' \<noteq> [] \<and> header r ''X-Samus-Nonce'' \<noteq> []
     \<and> header r ''X-Samus-Signature'' \<noteq> [] \<and> verifier_key cfg env (request_caller r) \<noteq> []
     \<and> (\<exists>ts. py_int (header r ''X-Samus-Timestamp'') = Some ts \<and> now - ts \<le> hc_window cfg
             \<and> ts - now \<le> FUTURE_SKEW_SECONDS)"

lemma verify_dispatch_nonces:
  "vs_nonces (snd (verify_dispatch cfg env now r st)) =
     (if reaches_nonce_check cfg env now r
      then snd (nonce_seen (header r ''X-Samus-Nonce'') now (vs_nonces st)) else vs_nonces st)"
  by (auto simp: verify_dispatch_def reaches_nonce_check_def Let_def split: option.splits prod.splits if_splits)

lemma verify_dispatch_past_checks:
  assumes "reaches_nonce_check cfg env now r"
  shows "fst (verify_dispatch cfg env now r st) =
    (if dict_has (nonce_ring (vs_nonces st)) (header r ''X-Samus-Nonce'') then Reject 401 ''hmac_nonce_replay''
     else if expected_signature cfg env r \<noteq> header r ''X-Samus-Signature'' then Reject 401 ''hmac_signature_mismatch''
     else if authorize_caller_to_callee env (Some (py_or (request_caller r) UNKNOWN_CALLER)) (hc_self cfg) None
       then Forward (py_or (request_caller r) UNKNOWN_CALLER)
     else Reject 403 ''authz_denied'')"
  using assms
  by (auto simp: verify_dispatch_def reaches_nonce_check_def nonce_seen_def safe_compare_def Let_def
           split: prod.splits)

lemma verify_dispatch_early:
  assumes "\<not> reaches_nonce_check cfg env now r" "\<not> hmac_exempt cfg r"
  shows "\<exists>status err. verify_dispatch cfg env now r st = (Reject status err, st)"
  using assms
  by (force simp: verify_dispatch_def reaches_nonce_check_def Let_def not_less split: option.splits)

lemma forward_facts:
  assumes "verify_dispatch cfg env now r st = (Forward c, st')" "\<not> hmac_exempt cfg r"
  shows "reaches_nonce_check cfg env now r" "c = py_or (request_caller r) UNKNOWN_CALLER"
    "\<not> dict_has (nonce_ring (vs_nonces st)) (header r ''X-Samus-Nonce'')"
    "header r ''X-Samus-Signature'' = expected_signature cfg env r"
    "authorize_caller_to_callee env (Some c) (hc_self cfg) None"
proof -
  show n: "reaches_nonce_check cfg env now r"
    using assms verify_dispatch_early [of cfg env now r st] by auto
  from assms(1) verify_dispatch_past_checks [OF n, of st]
  show "c = py_or (request_caller r) UNKNOWN_CALLER"
    "\<not> dict_has (nonce_ring (vs_nonces st)) (header r ''X-Samus-Nonce'')"
    "header r ''X-Samus-Signature'' = expected_signature cfg env r"
    "authorize_caller_to_callee env (Some c) (hc_self cfg) None"
    by (auto split: if_splits)
qed

text \<open>C2: Complete mediation: a request to a path that is not exempt is forwarded only if its timestamp parses
  and lies between the replay window behind and five seconds ahead of the verifier's clock, its nonce was
  not in the ring, its signature is the one computed with the key of the caller it names, and the
  caller-to-callee gate allows it; it is then forwarded under exactly that caller name.\<close>

theorem forwarded_request_is_authentic:
  assumes "verify_dispatch cfg env now r st = (Forward c, st')" "\<not> hmac_exempt cfg r"
  shows "c = py_or (request_caller r) UNKNOWN_CALLER
    \<and> (\<exists>ts. py_int (header r ''X-Samus-Timestamp'') = Some ts
          \<and> now - hc_window cfg \<le> ts \<and> ts \<le> now + FUTURE_SKEW_SECONDS)
    \<and> header r ''X-Samus-Nonce'' \<noteq> []
    \<and> \<not> dict_has (nonce_ring (vs_nonces st)) (header r ''X-Samus-Nonce'')
    \<and> verifier_key cfg env (request_caller r) \<noteq> []
    \<and> header r ''X-Samus-Signature'' = expected_signature cfg env r
    \<and> authorize_caller_to_callee env (Some c) (hc_self cfg) None"
  using forward_facts [OF assms] by (force simp: reaches_nonce_check_def)

section \<open>Replay\<close>

text \<open>A dispatch changes the nonce ring by one \<open>seen\<close> call, or not at all: a run is a run of the ring.\<close>

definition nonce_events :: "hmac_config \<Rightarrow> environ \<Rightarrow> (int \<times> http_request) list \<Rightarrow> (string \<times> int) list" where
  "nonce_events cfg env es =
     map (\<lambda>(now, r). (header r ''X-Samus-Nonce'', now)) (filter (\<lambda>(now, r). reaches_nonce_check cfg env now r) es)"

lemma verify_run_nonces:
  "vs_nonces (verify_run cfg env es st)
     = fold (\<lambda>(n, now) s. snd (nonce_seen n now s)) (nonce_events cfg env es) (vs_nonces st)"
  unfolding verify_run_def
proof (induction es arbitrary: st)
  case (Cons e es)
  then show ?case
    by (cases e) (simp add: nonce_events_def verify_step_def verify_dispatch_nonces)
qed (simp add: nonce_events_def)

lemma length_nonce_events: "length (nonce_events cfg env es) \<le> length es"
  by (simp add: nonce_events_def)

text \<open>C23: No replay inside the ring's memory: once a signed request has been forwarded, a request carrying the
  same nonce is never forwarded again while fewer other requests than the ring's capacity
  (10000 in production) have arrived in between, whatever those requests were.\<close>

theorem forwarded_nonce_is_not_replayed:
  assumes "nonces.ring_wf (vs_nonces st)"
    and "verify_dispatch cfg env now r st = (Forward c, st1)" "\<not> hmac_exempt cfg r"
    and "length between < nonce_max (vs_nonces st)"
    and "header r' ''X-Samus-Nonce'' = header r ''X-Samus-Nonce''" "\<not> hmac_exempt cfg r'"
  shows "\<exists>status err. fst (verify_dispatch cfg env later r' (verify_run cfg env between st1)) = Reject status err"
proof -
  let ?n = "header r ''X-Samus-Nonce''" and ?st = "verify_run cfg env between st1"
  have fresh: "\<not> dict_has (nonce_ring (vs_nonces st)) ?n" "?n \<noteq> []"
    using forward_facts [OF assms(2,3)] by (simp_all add: reaches_nonce_check_def)
  have "reaches_nonce_check cfg env now r" by (rule forward_facts(1) [OF assms(2,3)])
  then have s1: "vs_nonces st1 = (case (?n, now) of (n, now) \<Rightarrow> \<lambda>s. snd (nonce_seen n now s)) (vs_nonces st)"
    using verify_dispatch_nonces [of cfg env now r st] assms(2) by simp
  have "fst (?n, now) \<in> set (dict_keys (nonce_ring (vs_nonces ?st)))"
    unfolding verify_run_nonces s1
    using assms(1,4) fresh length_nonce_events [of cfg env between]
    by (intro nonces.fresh_key_survives) (auto simp: dict_has_keys)
  then have "dict_has (nonce_ring (vs_nonces ?st)) (header r' ''X-Samus-Nonce'')"
    using assms(5) by (simp add: dict_has_keys)
  then show ?thesis
    using verify_dispatch_past_checks [of cfg env later r' ?st] verify_dispatch_early [of cfg env later r' ?st] assms(6)
    by (cases "reaches_nonce_check cfg env later r'") auto
qed

section \<open>The signing client and the verifier agree\<close>

lemma caller_name_stripped: "py_strip (caller_name s) = caller_name s"
proof -
  have u: "py_strip ''unknown'' = ''unknown''" by code_simp
  then show ?thesis by (auto simp: caller_name_def py_or_def py_strip_idem)
qed

lemma built_request_headers:
  assumes "build_signed_request env service shared path body secret now nonce = Inr r"
  shows "header r ''X-Samus-Timestamp'' = show_int now" "header r ''X-Samus-Nonce'' = nonce"
    "request_caller r = caller_name service" "req_path r = url_path path"
    "header r ''X-Samus-Signature'' =
       sign_request (case secret of None \<Rightarrow> resolve_service_key env (caller_name service) shared | Some k \<Rightarrow> k)
         ''POST'' path (show_int now) nonce body (Some (caller_name service)) []"
    "(case secret of None \<Rightarrow> resolve_service_key env (caller_name service) shared | Some k \<Rightarrow> k) \<noteq> []"
    "req_method r = ''POST''" "req_query r = []" "req_body r = body"
  using assms
  by (auto simp: build_signed_request_def header_def dict_get_def request_caller_def Let_def
      caller_name_stripped generate_timestamp_def split: if_splits)

lemma show_int_nonempty: "show_int i \<noteq> []"
  by (simp add: show_int_def)

text \<open>What the verifier answers to a built request whose key it shares, before authorization.\<close>

lemma built_request_verified:
  assumes built: "build_signed_request env service shared path body None sent nonce = Inr r"
    and "hc_pinned cfg = None" "hc_shared cfg = shared" "py_startswith path ''/''"
    and "\<not> hmac_exempt cfg r" "nonce \<noteq> []" "\<not> dict_has (nonce_ring (vs_nonces st)) nonce"
    and "now - sent \<le> hc_window cfg" "sent - now \<le> FUTURE_SKEW_SECONDS"
  shows "fst (verify_dispatch cfg env now r st) =
    (if authorize_caller_to_callee env (Some (caller_name service)) (hc_self cfg) None
     then Forward (caller_name service) else Reject 403 ''authz_denied'')"
proof -
  note b = built_request_headers [OF built]
  have c: "caller_name service \<noteq> []" by (rule caller_name_nonempty)
  have path: "url_path path = path" using assms(4) by (simp add: url_path_def)
  have key: "verifier_key cfg env (request_caller r) = resolve_service_key env (caller_name service) shared"
    using assms(2,3) c by (simp add: verifier_key_def resolve_caller_key_def b)
  have sig: "expected_signature cfg env r = header r ''X-Samus-Signature''"
    using b c path key by (simp add: expected_signature_def Let_def)
  have "reaches_nonce_check cfg env now r"
    using assms(5,6,8,9) b(6) key
    by (auto simp: reaches_nonce_check_def b(1-3) py_int_show_int show_int_nonempty)
       (simp add: b(5) sign_request_nonempty)
  from verify_dispatch_past_checks [OF this, of st] show ?thesis
    using sig c assms(7) by (simp add: b)
qed

text \<open>C30: Round trip: a request built by the signing client for a path that starts with a slash and is not exempt, with the
  shared key both sides hold (the callee pins no key of its own), a fresh nonce and clocks within the accepted skew, passes
  the verifier and is forwarded under the calling workcell's name, whenever the matrix lets that workcell reach the
  callee.\<close>

theorem signed_request_is_accepted:
  assumes "build_signed_request env service shared path body None sent nonce = Inr r"
    and "hc_pinned cfg = None" "hc_shared cfg = shared" "py_startswith path ''/''"
    and "\<not> hmac_exempt cfg r" "nonce \<noteq> []" "\<not> dict_has (nonce_ring (vs_nonces st)) nonce"
    and "now - sent \<le> hc_window cfg" "sent - now \<le> FUTURE_SKEW_SECONDS"
    and "authorize_caller_to_callee env (Some (caller_name service)) (hc_self cfg) None"
  shows "fst (verify_dispatch cfg env now r st) = Forward (caller_name service)"
  using built_request_verified [OF assms(1-9)] assms(10) by simp

text \<open>The name reserved for unsigned paths is not reserved on the wire: a holder of the shared key that names
  itself "external" is forwarded by every workcell, with enforcement armed, although the matrix grants
  that name nothing; the caller-to-callee gate is bypassed.\<close>

theorem external_name_bypasses_matrix:
  assumes "build_signed_request env ''external'' shared path body None sent nonce = Inr r"
    and "hc_pinned cfg = None" "hc_shared cfg = shared" "py_startswith path ''/''"
    and "\<not> hmac_exempt cfg r" "nonce \<noteq> []" "\<not> dict_has (nonce_ring (vs_nonces st)) nonce"
    and "now - sent \<le> hc_window cfg" "sent - now \<le> FUTURE_SKEW_SECONDS"
  shows "fst (verify_dispatch cfg env now r st) = Forward EXTERNAL_CALLER
    \<and> dict_get CALLER_GRANTS EXTERNAL_CALLER [] = []"
proof -
  have n: "caller_name ''external'' = EXTERNAL_CALLER" by code_simp
  have "py_strip EXTERNAL_CALLER = EXTERNAL_CALLER" "EXTERNAL_CALLER \<noteq> []" by code_simp+
  then have "authorize_caller_to_callee env (Some EXTERNAL_CALLER) (hc_self cfg) None"
    by (simp add: authorize_caller_to_callee_def caller_id_of_def Let_def)
  with built_request_verified [OF assms] n external_not_in_matrix show ?thesis by simp
qed

text \<open>The nonce is recorded before the signature is compared: a request whose signature is wrong still
  consumes its nonce, so the genuine request that carries this nonce is refused as a replay.\<close>

theorem unauthenticated_request_burns_nonce:
  assumes "reaches_nonce_check cfg env now forged"
    and "\<not> dict_has (nonce_ring (vs_nonces st)) (header forged ''X-Samus-Nonce'')"
    and "expected_signature cfg env forged \<noteq> header forged ''X-Samus-Signature''"
    and "header genuine ''X-Samus-Nonce'' = header forged ''X-Samus-Nonce''"
    and "reaches_nonce_check cfg env later genuine" "0 < nonce_max (vs_nonces st)"
  shows "fst (verify_dispatch cfg env now forged st) = Reject 401 ''hmac_signature_mismatch''
    \<and> fst (verify_dispatch cfg env later genuine (snd (verify_dispatch cfg env now forged st)))
        = Reject 401 ''hmac_nonce_replay''"
proof -
  let ?n = "header forged ''X-Samus-Nonce''"
  have n: "?n \<noteq> []" using assms(1) by (simp add: reaches_nonce_check_def)
  have "?n \<notin> set (dict_keys (nonce_ring (vs_nonces st)))" using assms(2) by (simp add: dict_has_keys)
  with n have "dict_has (nonce_ring (snd (nonce_seen ?n now (vs_nonces st)))) ?n"
    using assms(2,6) by (simp add: nonce_seen_def dict_has_keys map_keys od_evict_append1)
  then have "dict_has (nonce_ring (vs_nonces (snd (verify_dispatch cfg env now forged st)))) ?n"
    using assms(1) by (simp add: verify_dispatch_nonces)
  then show ?thesis
    using verify_dispatch_past_checks [OF assms(1), of st] verify_dispatch_past_checks [OF assms(5)] assms(2-4)
    by simp
qed

section \<open>Witnesses: CRM behind the gate, voice calling\<close>

definition w_cfg :: hmac_config where
  "w_cfg = verify_hmac_init None (Some 300) [''gateway''] [] ''shared'' 300 ''crm''"

abbreviation (input) w_env :: environ where "w_env \<equiv> (\<lambda>_. None)"

definition w_state :: verifier_state where
  "w_state = \<lparr>vs_nonces = nonce_init 3, vs_alerts = []\<rparr>"

definition w_signed :: "string \<Rightarrow> string \<Rightarrow> http_request" where
  "w_signed caller sig = \<lparr>req_method = ''POST'', req_path = ''/work'', req_query = [],
     req_headers = [(''X-Samus-Timestamp'', show_int 1000), (''X-Samus-Nonce'', ''n1''),
                    (''X-Samus-Signature'', sig), (''X-Samus-Caller'', caller)],
     req_body = ''{}''\<rparr>"

definition w_genuine :: "string \<Rightarrow> http_request" where
  "w_genuine caller = w_signed caller
     (sign_request ''shared'' ''POST'' ''/work'' (show_int 1000) ''n1'' ''{}'' (Some caller) [])"

lemma w_names: "caller_name ''voice'' = ''voice''" "caller_name ''external'' = ''external''"
  by code_simp+

lemma w_built_voice: "build_signed_request w_env ''voice'' ''shared'' ''/work'' ''{}'' None 1000 ''n1'' = Inr (w_genuine ''voice'')"
  by (simp add: build_signed_request_def w_genuine_def w_signed_def resolve_service_key_def getenv_def
      url_path_def py_startswith_def generate_timestamp_def w_names Let_def)

lemma w_built_external:
  "build_signed_request w_env ''external'' ''shared'' ''/work'' ''{}'' None 1000 ''n1'' = Inr (w_genuine ''external'')"
  by (simp add: build_signed_request_def w_genuine_def w_signed_def resolve_service_key_def getenv_def
      url_path_def py_startswith_def generate_timestamp_def w_names Let_def)

lemma w_facts: "hc_pinned w_cfg = None" "hc_shared w_cfg = ''shared''" "py_startswith ''/work'' ''/''"
    "\<not> hmac_exempt w_cfg (w_signed c sig)" "\<not> hmac_exempt w_cfg (w_genuine c)"
    "\<not> dict_has (nonce_ring (vs_nonces w_state)) n"
    "hc_window w_cfg = 300" "hc_self w_cfg = ''crm''"
  by (simp_all add: w_cfg_def verify_hmac_init_def py_or_def py_startswith_def hmac_exempt_def w_signed_def
      w_genuine_def EXEMPT_PATHS_def w_state_def nonce_init_def dict_has_def)

lemma w_mode: "authz_mode w_env = ''enforce''"
  by code_simp

lemma w_voice_reaches_crm: "authorize_caller_to_callee w_env (Some ''voice'') ''crm'' None"
  by code_simp

theorem signed_request_is_accepted_witness:
  "fst (verify_dispatch w_cfg w_env 1002 (w_genuine ''voice'') w_state) = Forward ''voice''"
  using signed_request_is_accepted [OF w_built_voice w_facts(1-3) w_facts(5) _ w_facts(6), of 1002]
  by (simp add: w_facts w_names FUTURE_SKEW_SECONDS_def w_voice_reaches_crm)

theorem external_name_bypasses_matrix_witness:
  "fst (verify_dispatch w_cfg w_env 1002 (w_genuine ''external'') w_state) = Forward EXTERNAL_CALLER"
  using external_name_bypasses_matrix [OF w_built_external w_facts(1-3) w_facts(5) _ w_facts(6), of 1002]
  by (simp add: w_facts FUTURE_SKEW_SECONDS_def)

lemma w_voice_forwarded: "fst (verify_dispatch w_cfg w_env 1002 (w_genuine ''voice'') w_state) = Forward ''voice''"
  using built_request_verified [OF w_built_voice w_facts(1-3) w_facts(5) _ w_facts(6), of 1002]
  by (simp add: w_facts w_names FUTURE_SKEW_SECONDS_def w_voice_reaches_crm)

lemma w_voice_dispatch:
  "verify_dispatch w_cfg w_env 1002 (w_genuine ''voice'') w_state
     = (Forward ''voice'', snd (verify_dispatch w_cfg w_env 1002 (w_genuine ''voice'') w_state))"
  using w_voice_forwarded by (metis prod.collapse)

theorem forwarded_request_is_authentic_witness:
  "header (w_genuine ''voice'') ''X-Samus-Signature'' = expected_signature w_cfg w_env (w_genuine ''voice'')"
  using forwarded_request_is_authentic [OF w_voice_dispatch w_facts(5)] by blast

theorem forwarded_nonce_is_not_replayed_witness:
  "\<exists>status err. fst (verify_dispatch w_cfg w_env 1003 (w_genuine ''voice'')
     (verify_run w_cfg w_env [(1002, w_signed ''seo'' ''00''), (1002, w_signed ''crm'' ''11'')]
        (snd (verify_dispatch w_cfg w_env 1002 (w_genuine ''voice'') w_state)))) = Reject status err"
proof (rule forwarded_nonce_is_not_replayed [OF _ w_voice_dispatch w_facts(5) _ _ w_facts(5)])
  show "nonces.ring_wf (vs_nonces w_state)" by (simp add: w_state_def nonce_init_wf)
qed (simp_all add: w_state_def nonce_init_def)

lemma w_headers:
  "header (w_signed c sig) ''X-Samus-Timestamp'' = show_int 1000" "header (w_signed c sig) ''X-Samus-Nonce'' = ''n1''"
  "header (w_signed c sig) ''X-Samus-Signature'' = sig" "header (w_signed c sig) ''X-Samus-Caller'' = c"
  by (simp_all add: w_signed_def header_def dict_get_def)

lemma w_reaches: "reaches_nonce_check w_cfg w_env 1002 (w_signed ''voice'' sig)" if "sig \<noteq> []"
proof -
  have c: "request_caller (w_signed ''voice'' sig) = ''voice''"
    by (simp add: request_caller_def w_headers) code_simp
  show ?thesis
    using that by (simp add: reaches_nonce_check_def c w_facts w_headers py_int_show_int
        show_int_nonempty verifier_key_def resolve_caller_key_def resolve_service_key_def getenv_def
        FUTURE_SKEW_SECONDS_def)
qed

lemma expected_signature_length: "length (expected_signature cfg env r) = 64"
  by (simp add: expected_signature_def Let_def sign_request_def hmac_hex_shape)

theorem unauthenticated_request_burns_nonce_witness:
  "fst (verify_dispatch w_cfg w_env 1002 (w_genuine ''voice'')
     (snd (verify_dispatch w_cfg w_env 1002 (w_signed ''voice'' ''forged'') w_state))) = Reject 401 ''hmac_nonce_replay''"
proof -
  have "expected_signature w_cfg w_env (w_signed ''voice'' ''forged'') \<noteq> ''forged''"
    using expected_signature_length [of w_cfg w_env "w_signed ''voice'' ''forged''"] by auto
  then show ?thesis
    using unauthenticated_request_burns_nonce [OF w_reaches [of "''forged''"] w_facts(6), of "w_genuine ''voice''" 1002]
      w_reaches [OF sign_request_nonempty]
    by (simp add: w_genuine_def w_signed_def header_def dict_get_def w_state_def nonce_init_def)
qed

end
