(* ===== verification/Json.thy ===== *)
theory Json
  imports Prelude "HOL-Library.Multiset" "HOL-Library.List_Lexorder" "HOL-Library.Char_ord"
begin

text \<open>
  The rendering \<open>json.dumps(obj, sort_keys=True, separators=(",", ":"), ensure_ascii=False)\<close>
  of the Python standard library, on the JSON values of the prelude: the form in which payloads
  are hashed and signed by \<open>common/queue_signing.py\<close> and \<open>common/events.py\<close>.
  An object's entries are rendered in the order of their keys.
\<close>

definition hex_nibble :: "nat \<Rightarrow> char" where
  "hex_nibble n = (if n < 10 then digit_char n else char_of (87 + n))"

definition json_escape :: "char \<Rightarrow> string" where
  "json_escape c =
     (if c = CHR 0x22 then [CHR 0x5C, CHR 0x22]
      else if c = CHR 0x5C then [CHR 0x5C, CHR 0x5C]
      else if c = CHR 0x0A then [CHR 0x5C, CHR ''n'']
      else if c = CHR 0x0D then [CHR 0x5C, CHR ''r'']
      else if c = CHR 0x09 then [CHR 0x5C, CHR ''t'']
      else if c = CHR 0x08 then [CHR 0x5C, CHR ''b'']
      else if c = CHR 0x0C then [CHR 0x5C, CHR ''f'']
      else if char_code c < 32
        then [CHR 0x5C] @ ''u00'' @ [hex_nibble (char_code c div 16), hex_nibble (char_code c mod 16)]
      else [c])"

definition json_string :: "string \<Rightarrow> string" where
  "json_string s = [CHR 0x22] @ concat (map json_escape s) @ [CHR 0x22]"

fun json_dumps :: "json \<Rightarrow> string" where
  "json_dumps JNull = ''null''"
| "json_dumps (JBool b) = (if b then ''true'' else ''false'')"
| "json_dumps (JInt i) = show_int i"
| "json_dumps (JStr s) = json_string s"
| "json_dumps (JList xs) = ''['' @ py_join '','' (map json_dumps xs) @ '']''"
| "json_dumps (JObj kvs) =
     ''{'' @ py_join '','' (map (\<lambda>(k, v). json_string k @ '':'' @ v)
       (sort_key fst (map (\<lambda>(k, v). (k, json_dumps v)) kvs))) @ ''}''"

text \<open>\<open>str(v)\<close>, with \<open>repr\<close> inside lists and dictionaries.\<close>

fun json_repr :: "json \<Rightarrow> string" where
  "json_repr JNull = ''None''"
| "json_repr (JBool b) = (if b then ''True'' else ''False'')"
| "json_repr (JInt i) = show_int i"
| "json_repr (JStr s) = py_repr s"
| "json_repr (JList xs) = ''['' @ py_join '', '' (map json_repr xs) @ '']''"
| "json_repr (JObj kvs) = ''{'' @ py_join '', '' (map (\<lambda>(k, v). py_repr k @ '': '' @ json_repr v) kvs) @ ''}''"

definition json_text :: "json \<Rightarrow> string" where
  "json_text v = (case v of JStr s \<Rightarrow> s | _ \<Rightarrow> json_repr v)"

section \<open>Reading values out of parsed JSON\<close>

text \<open>
  \<open>.get\<close> of something that is not an object raises an error nothing catches, \<open>Crash\<close>; \<open>int\<close> of a text that is no
  number raises \<open>Value_Error\<close>; a reader's own complaint is a \<open>Call_Error\<close>, of which only the part before the colon is kept.
\<close>

datatype 'a reading = Got 'a | Call_Error string | Value_Error | Crash

definition get_or :: "json \<Rightarrow> string \<Rightarrow> json \<Rightarrow> json reading" where
  "get_or v k dflt = (case v of JObj kvs \<Rightarrow> (let x = dict_get kvs k JNull in Got (if json_truthy x then x else dflt)) | _ \<Rightarrow> Crash)"

section \<open>The second rendering\<close>

text \<open>
  \<open>json.dumps(v, sort_keys=True)\<close> with Python's default \<open>ensure_ascii\<close> (a character outside the printable ASCII
  range is escaped, the delete character included) and the two given separators.
\<close>

definition ascii_escape :: "char \<Rightarrow> string" where
  "ascii_escape c =
     (if 127 \<le> char_code c
      then [CHR 0x5C] @ ''u00'' @ [hex_nibble (char_code c div 16), hex_nibble (char_code c mod 16)]
      else json_escape c)"

definition ascii_string :: "string \<Rightarrow> string" where
  "ascii_string s = [CHR 0x22] @ concat (map ascii_escape s) @ [CHR 0x22]"

fun dumps_ascii :: "string \<Rightarrow> string \<Rightarrow> json \<Rightarrow> string" where
  "dumps_ascii isep ksep JNull = ''null''"
| "dumps_ascii isep ksep (JBool b) = (if b then ''true'' else ''false'')"
| "dumps_ascii isep ksep (JInt i) = show_int i"
| "dumps_ascii isep ksep (JStr s) = ascii_string s"
| "dumps_ascii isep ksep (JList xs) = ''['' @ py_join isep (map (dumps_ascii isep ksep) xs) @ '']''"
| "dumps_ascii isep ksep (JObj kvs) =
     ''{'' @ py_join isep (map (\<lambda>(k, v). ascii_string k @ ksep @ v)
       (sort_key fst (map (\<lambda>(k, v). (k, dumps_ascii isep ksep v)) kvs))) @ ''}''"

text \<open>A value prints the same whatever the insertion order of an object's entries.\<close>

lemma json_dumps_permuted:
  assumes "mset kvs = mset kvs'" "distinct (map fst kvs)"
  shows "json_dumps (JObj kvs) = json_dumps (JObj kvs')"
proof -
  let ?f = "\<lambda>(k, v). (k, json_dumps v)"
  have "sort_key fst (map ?f kvs) = sort_key fst (map ?f kvs')"
  proof (rule sort_key_inj_key_eq)
    show "mset (map ?f kvs) = mset (sort_key fst (map ?f kvs'))" using assms(1) by simp
    have "distinct (map fst (map ?f kvs))" using assms(2) by (simp add: comp_def case_prod_beta)
    then show "inj_on fst (set (map ?f kvs))" by (simp only: distinct_map)
    show "sorted (map fst (sort_key fst (map ?f kvs')))" by simp
  qed
  then show ?thesis by simp
qed

end
