(* ===== verification/Queue_Signing.thy ===== *)
theory Queue_Signing
  imports Security Json
begin

text \<open>
  The queue message contract \<open>QueueEnvelope\<close> (\<open>common/queue_contracts.py\<close>), its signature
  (\<open>common/queue_signing.py\<close>) and the audit record of \<open>common/events.py\<close>. The shared key of the
  settings object is an argument. The lemmas show what the signature binds, and what it leaves open:
  the action budget is outside it, and a newline inside a field moves the field boundary.
\<close>

record queue_envelope =
  qe_task_id :: string
  qe_service :: string
  qe_action :: string
  qe_trace_id :: "string option"
  qe_idempotency_key :: "string option"
  qe_payload :: "(string \<times> json) list"
  qe_metadata :: "(string \<times> json) list"
  qe_hmac :: "string option"
  qe_action_budget :: "int option"

text \<open>The \<open>min_length\<close> constraints of the model's fields.\<close>

definition envelope_valid :: "queue_envelope \<Rightarrow> bool" where
  "envelope_valid e \<longleftrightarrow> qe_task_id e \<noteq> [] \<and> qe_service e \<noteq> [] \<and> qe_action e \<noteq> []"

definition SQS_SIGNER_CALLER :: string where
  "SQS_SIGNER_CALLER = ''gateway''"

definition canonical_json :: "(string \<times> json) list \<Rightarrow> string" where
  "canonical_json obj = json_dumps (JObj obj)"

definition str_or_empty :: "string option \<Rightarrow> string" where
  "str_or_empty v = (case v of None \<Rightarrow> [] | Some s \<Rightarrow> s)"

definition envelope_parts :: "queue_envelope \<Rightarrow> string list" where
  "envelope_parts e =
     [qe_task_id e, qe_service e, qe_action e, str_or_empty (qe_trace_id e), str_or_empty (qe_idempotency_key e),
      sha256_hex (canonical_json (qe_payload e)), sha256_hex (canonical_json (qe_metadata e))]"

definition envelope_canonical_string :: "queue_envelope \<Rightarrow> string" where
  "envelope_canonical_string e = py_join newline (envelope_parts e)"

definition resolve_sqs_key :: "environ \<Rightarrow> string \<Rightarrow> string" where
  "resolve_sqs_key env shared = resolve_service_key env SQS_SIGNER_CALLER shared"

definition envelope_signature :: "string \<Rightarrow> queue_envelope \<Rightarrow> string" where
  "envelope_signature key e =
     sign_request key ''SQS'' (''/'' @ qe_service e) [] [] (envelope_canonical_string e) (Some SQS_SIGNER_CALLER) []"

definition sign_envelope :: "environ \<Rightarrow> string \<Rightarrow> queue_envelope \<Rightarrow> queue_envelope" where
  "sign_envelope env shared e =
     (let key = resolve_sqs_key env shared
      in if key = [] then e else e\<lparr>qe_hmac := Some (envelope_signature key e)\<rparr>)"

definition enforce_hmac :: "environ \<Rightarrow> bool" where
  "enforce_hmac env =
     (py_lower (py_strip (getenv env ''SAMUS_SQS_REQUIRE_HMAC'' [])) \<in> set [''1'', ''true'', ''yes'', ''on''])"

definition verify_envelope :: "environ \<Rightarrow> string \<Rightarrow> queue_envelope \<Rightarrow> bool" where
  "verify_envelope env shared e =
     (let sig = str_or_empty (qe_hmac e); key = resolve_sqs_key env shared
      in if sig = [] then False else if key = [] then False
         else safe_compare sig (envelope_signature key e))"

datatype authenticity_log = HmacRejected string | HmacAuditMismatch string

text \<open>The verdict, and the line that is logged when verification failed.\<close>

definition check_message_authenticity ::
  "environ \<Rightarrow> string \<Rightarrow> queue_envelope \<Rightarrow> bool \<times> authenticity_log option" where
  "check_message_authenticity env shared e =
     (if verify_envelope env shared e then (True, None)
      else let reason = (if str_or_empty (qe_hmac e) = [] then ''missing_hmac'' else ''bad_hmac'')
           in if enforce_hmac env then (False, Some (HmacRejected reason))
              else (True, Some (HmacAuditMismatch reason)))"

section \<open>Audit events\<close>

definition deterministic_hash :: "json \<Rightarrow> string" where
  "deterministic_hash payload = sha256_hex (json_dumps payload)"

record audit_event =
  ae_service :: string
  ae_task_id :: string
  ae_action :: string
  ae_input_hash :: string
  ae_output_hash :: string
  ae_status :: string

text \<open>\<open>build_audit_event\<close> without its random id, its clock reading and the trace id of the context.\<close>

definition build_audit_event :: "string \<Rightarrow> string \<Rightarrow> string \<Rightarrow> json \<Rightarrow> json \<Rightarrow> string \<Rightarrow> audit_event" where
  "build_audit_event service task_id action input output status =
     \<lparr>ae_service = service, ae_task_id = task_id, ae_action = action,
      ae_input_hash = deterministic_hash input, ae_output_hash = deterministic_hash output,
      ae_status = status\<rparr>"

section \<open>What the signature binds\<close>

lemma envelope_signature_cong:
  "qe_service e = qe_service e' \<Longrightarrow> envelope_canonical_string e = envelope_canonical_string e' \<Longrightarrow>
   envelope_signature key e = envelope_signature key e'"
  by (simp add: envelope_signature_def)

lemma envelope_signature_ignores [simp]:
  "envelope_signature key (e\<lparr>qe_hmac := h\<rparr>) = envelope_signature key e"
  "envelope_signature key (e\<lparr>qe_action_budget := b\<rparr>) = envelope_signature key e"
  by (simp_all add: envelope_signature_def envelope_canonical_string_def envelope_parts_def)

lemma envelope_signature_nonempty [simp]: "envelope_signature key e \<noteq> []"
  by (simp add: envelope_signature_def sign_request_nonempty)

lemma signed_transplant:
  assumes "resolve_sqs_key env shared \<noteq> []" "qe_service e' = qe_service e"
    and "envelope_canonical_string e' = envelope_canonical_string e"
    and "qe_hmac e' = qe_hmac (sign_envelope env shared e)"
  shows "verify_envelope env shared e'"
  using assms envelope_signature_cong [OF assms(2,3)]
  by (simp add: verify_envelope_def sign_envelope_def Let_def str_or_empty_def safe_compare_def)

text \<open>Round trip, and its limit: an envelope signed by the dispatcher verifies at the worker, and it still
  verifies after its action budget is replaced by any other value, because the budget override is not part
  of the signed content.\<close>

theorem signed_envelope_verifies:
  assumes "resolve_sqs_key env shared \<noteq> []"
  shows "verify_envelope env shared ((sign_envelope env shared e)\<lparr>qe_action_budget := b\<rparr>)
    \<and> fst (check_message_authenticity env shared (sign_envelope env shared e))"
  using assms
  by (simp add: check_message_authenticity_def verify_envelope_def sign_envelope_def Let_def str_or_empty_def
      safe_compare_def)

text \<open>In enforce mode a message may proceed only with a signature computed under the queue key over its own
  content, so an unsigned message and every message on a worker without a key are refused; in audit mode
  every message proceeds.\<close>

theorem queue_enforcement:
  "fst (check_message_authenticity env shared e) =
     (enforce_hmac env \<longrightarrow> resolve_sqs_key env shared \<noteq> []
        \<and> qe_hmac e = Some (envelope_signature (resolve_sqs_key env shared) e))"
  using envelope_signature_nonempty [of "resolve_sqs_key env shared" e, symmetric]
  by (auto simp: check_message_authenticity_def verify_envelope_def Let_def safe_compare_def str_or_empty_def
      split: option.splits)

text \<open>Two envelopes whose text fields hold no newline have the same canonical string only if they agree on
  task, service, action, trace, idempotency key and on the digests of payload and metadata.\<close>

theorem envelope_canonical_string_binds_fields:
  assumes "\<forall>e \<in> {e1, e2}. \<forall>s \<in> {qe_task_id e, qe_service e, qe_action e, str_or_empty (qe_trace_id e),
      str_or_empty (qe_idempotency_key e)}. CHR 0x0A \<notin> set s"
    and "envelope_canonical_string e1 = envelope_canonical_string e2"
  shows "qe_task_id e1 = qe_task_id e2 \<and> qe_service e1 = qe_service e2 \<and> qe_action e1 = qe_action e2
    \<and> str_or_empty (qe_trace_id e1) = str_or_empty (qe_trace_id e2)
    \<and> str_or_empty (qe_idempotency_key e1) = str_or_empty (qe_idempotency_key e2)
    \<and> sha256_hex (canonical_json (qe_payload e1)) = sha256_hex (canonical_json (qe_payload e2))
    \<and> sha256_hex (canonical_json (qe_metadata e1)) = sha256_hex (canonical_json (qe_metadata e2))"
proof -
  have "envelope_parts e1 = envelope_parts e2"
    using assms py_join_newline_inj [of "envelope_parts e1" "envelope_parts e2"]
    by (auto simp: envelope_canonical_string_def envelope_parts_def sha256_hex_no_newline)
  then show ?thesis by (simp add: envelope_parts_def)
qed

text \<open>A newline inside a field moves the boundary between two signed fields: the signature of an envelope
  also verifies on the envelope whose trace id has absorbed the first line of the idempotency key, so a holder
  of the message, but not of the key, can give it a different idempotency key.\<close>

theorem signature_survives_field_shift:
  assumes "resolve_sqs_key env shared \<noteq> []"
    and "qe_trace_id e = Some a" "qe_idempotency_key e = Some (b @ newline @ c)"
  shows "verify_envelope env shared
    ((sign_envelope env shared e)\<lparr>qe_trace_id := Some (a @ newline @ b), qe_idempotency_key := Some c\<rparr>)"
  using assms(1)
  by (rule signed_transplant [where e = e])
     (use assms in \<open>auto simp: sign_envelope_def Let_def envelope_canonical_string_def envelope_parts_def
        str_or_empty_def\<close>)

section \<open>Witnesses\<close>

definition w_envelope :: queue_envelope where
  "w_envelope = \<lparr>qe_task_id = ''t1'', qe_service = ''crm'', qe_action = ''create_task'', qe_trace_id = Some ''tr'',
     qe_idempotency_key = Some (''k'' @ newline @ ''1''), qe_payload = [], qe_metadata = [], qe_hmac = None,
     qe_action_budget = None\<rparr>"

lemma w_sqs_key: "resolve_sqs_key (\<lambda>_. None) ''shared'' \<noteq> []"
  by code_simp

theorem signed_envelope_verifies_witness:
  "verify_envelope (\<lambda>_. None) ''shared'' ((sign_envelope (\<lambda>_. None) ''shared'' w_envelope)\<lparr>qe_action_budget := Some 1000\<rparr>)"
  using signed_envelope_verifies [OF w_sqs_key] by blast

theorem queue_enforcement_witness:
  "\<not> fst (check_message_authenticity (\<lambda>n. if n = ''SAMUS_SQS_REQUIRE_HMAC'' then Some '' Yes'' else None)
      ''shared'' w_envelope)"
proof -
  have "enforce_hmac (\<lambda>n. if n = ''SAMUS_SQS_REQUIRE_HMAC'' then Some '' Yes'' else None)" by code_simp
  then show ?thesis by (simp add: queue_enforcement w_envelope_def)
qed

theorem envelope_canonical_string_binds_fields_witness:
  "qe_task_id (w_envelope\<lparr>qe_idempotency_key := None\<rparr>) = qe_task_id (w_envelope\<lparr>qe_idempotency_key := Some []\<rparr>)"
  using envelope_canonical_string_binds_fields
    [of "w_envelope\<lparr>qe_idempotency_key := None\<rparr>" "w_envelope\<lparr>qe_idempotency_key := Some []\<rparr>"]
  by (simp add: w_envelope_def str_or_empty_def envelope_canonical_string_def envelope_parts_def)

theorem signature_survives_field_shift_witness:
  "verify_envelope (\<lambda>_. None) ''shared'' ((sign_envelope (\<lambda>_. None) ''shared'' w_envelope)
     \<lparr>qe_trace_id := Some (''tr'' @ newline @ ''k''), qe_idempotency_key := Some ''1''\<rparr>)"
  by (rule signature_survives_field_shift [OF w_sqs_key]) (simp_all add: w_envelope_def)

end
