(* ===== verification/Action_Budget.thy ===== *)
theory Action_Budget
  imports Prelude
begin

text \<open>
  \<open>common/worker_action_budget.py\<close>: the token budget of one job (\<open>ActionContext\<close>), the budget
  registry, and the idle back-off of the poll loop (\<open>PollThrottle\<close>). Seconds are rationals.
\<close>

section \<open>ActionContext\<close>

datatype budget_exhausted = BudgetExhausted string string int int

record action_context =
  ac_service :: string
  ac_action :: string
  ac_total :: int
  ac_used :: int

definition action_context_init :: "string \<Rightarrow> string \<Rightarrow> int \<Rightarrow> action_context" where
  "action_context_init service action budget =
     \<lparr>ac_service = service, ac_action = action, ac_total = max 1 budget, ac_used = 0\<rparr>"

definition spend :: "int \<Rightarrow> action_context \<Rightarrow> budget_exhausted + action_context" where
  "spend n c =
     (if n < 1 then Inr c
      else if ac_used c + n > ac_total c
        then Inl (BudgetExhausted (ac_service c) (ac_action c) (ac_total c) (ac_used c))
      else Inr (c\<lparr>ac_used := ac_used c + n\<rparr>))"

definition can_spend :: "int \<Rightarrow> action_context \<Rightarrow> bool" where
  "can_spend n c = (ac_used c + n \<le> ac_total c)"

definition ac_remaining :: "action_context \<Rightarrow> int" where
  "ac_remaining c = max 0 (ac_total c - ac_used c)"

text \<open>A handler that asks for the amounts \<open>ns\<close> in turn and stops at the first refusal.\<close>

fun spend_all :: "int list \<Rightarrow> action_context \<Rightarrow> budget_exhausted + action_context" where
  "spend_all [] c = Inr c"
| "spend_all (n # ns) c = (case spend n c of Inl e \<Rightarrow> Inl e | Inr c' \<Rightarrow> spend_all ns c')"

definition FALLBACK_BUDGET :: int where "FALLBACK_BUDGET = 10"

definition ACTION_BUDGET_REGISTRY :: "(string \<times> int) list" where
  "ACTION_BUDGET_REGISTRY =
    [(''feedback.ingest'', 3),
     (''outreach.log_outcome'', 3),
     (''outreach.advance_call'', 5),
     (''outreach.send_message'', 5),
     (''crm.upsert_prospect'', 3),
     (''crm.upsert_conversation'', 3),
     (''crm.upsert_call_state'', 3),
     (''crm.create_task'', 3),
     (''crm.update_task'', 3),
     (''crm.create_artifact'', 3),
     (''crm.convert_lead'', 5),
     (''crm.create_opportunity'', 5),
     (''crm.advance_opportunity'', 5),
     (''crm.find_opportunity_for_email'', 5),
     (''crm.close_opportunity_from_payment'', 5),
     (''crm.close_payment_to_opportunity'', 5),
     (''optimizer.select_arm'', 5),
     (''optimizer.update_arm'', 5),
     (''fulfillment.ingest_result'', 3),
     (''fulfillment.validate_plan'', 5),
     (''fulfillment.finalize_plan'', 5),
     (''proposal.validate_proposal'', 5),
     (''leadgen.score_lead'', 5),
     (''optimizer.optimize_portfolio'', 8),
     (''prospecting.score_deal'', 5),
     (''prospecting.analyze_business'', 10),
     (''prospecting.generate_dynamic_script'', 6),
     (''prospecting.generate_dynamic_script_with_pivot'', 8),
     (''prospecting.discover'', 15),
     (''scaffold.generate_assets'', 12),
     (''proposal.generate_proposal'', 10),
     (''seo.generate_content'', 10),
     (''seo.optimize_page'', 12),
     (''seo.audit_site'', 20),
     (''fulfillment.plan_execution'', 12),
     (''fulfillment.resume_plan'', 20),
     (''fulfillment.execute_plan'', 30),
     (''cash_engine.process_job'', 40)]"

definition get_budget :: "string \<Rightarrow> string \<Rightarrow> int option \<Rightarrow> int" where
  "get_budget service action override =
     (case override of
        Some b \<Rightarrow> if b > 0 then b else dict_get ACTION_BUDGET_REGISTRY (service @ ''.'' @ action) FALLBACK_BUDGET
      | None \<Rightarrow> dict_get ACTION_BUDGET_REGISTRY (service @ ''.'' @ action) FALLBACK_BUDGET)"

section \<open>PollThrottle\<close>

record poll_throttle =
  pt_threshold :: nat
  pt_base :: rat
  pt_max :: rat
  pt_factor :: rat
  pt_idle_count :: nat
  pt_extra :: rat

definition poll_throttle_init :: "nat \<Rightarrow> rat \<Rightarrow> rat \<Rightarrow> rat \<Rightarrow> poll_throttle" where
  "poll_throttle_init threshold base max_extra factor =
     \<lparr>pt_threshold = max 1 threshold, pt_base = base, pt_max = max_extra, pt_factor = factor,
      pt_idle_count = 0, pt_extra = 0\<rparr>"

definition on_idle :: "poll_throttle \<Rightarrow> poll_throttle" where
  "on_idle t =
     (let n = pt_idle_count t + 1
      in if n \<le> pt_threshold t then t\<lparr>pt_idle_count := n, pt_extra := 0\<rparr>
         else let tier = n - pt_threshold t
              in t\<lparr>pt_idle_count := n, pt_extra := min (pt_base t * pt_factor t ^ (tier - 1)) (pt_max t)\<rparr>)"

definition on_work :: "poll_throttle \<Rightarrow> poll_throttle" where
  "on_work t = t\<lparr>pt_idle_count := 0, pt_extra := 0\<rparr>"

definition default_throttle :: poll_throttle where
  "default_throttle = poll_throttle_init 3 5 60 2"

section \<open>Budgets are respected\<close>

lemma spend_total: "spend n c = Inr c' \<Longrightarrow> ac_total c' = ac_total c"
  by (auto simp: spend_def split: if_splits)

lemma spend_used: "spend n c = Inr c' \<Longrightarrow> ac_used c' = ac_used c + max 0 n"
  by (auto simp: spend_def split: if_splits)

lemma spend_bounded:
  "spend n c = Inr c' \<Longrightarrow> ac_used c \<le> ac_total c \<Longrightarrow> ac_used c' \<le> ac_total c'"
  by (auto simp: spend_def split: if_splits)

lemma spend_all_used:
  "spend_all ns c = Inr c' \<Longrightarrow>
     ac_used c' = ac_used c + sum_list (map (max 0) ns) \<and> ac_total c' = ac_total c"
  by (induction ns arbitrary: c) (auto split: sum.splits dest: spend_total spend_used)

lemma sum_pos_part_nonneg: "0 \<le> sum_list (map (max (0::int)) ns)"
  by (rule sum_list_nonneg) auto

lemma spend_all_succeeds:
  "ac_used c + sum_list (map (max 0) ns) \<le> ac_total c \<Longrightarrow> \<exists>c'. spend_all ns c = Inr c'"
proof (induction ns arbitrary: c)
  case (Cons n ns)
  from Cons.prems sum_pos_part_nonneg [of ns] obtain c1 where c1: "spend n c = Inr c1"
    by (cases "n < 1") (auto simp: spend_def)
  with Cons.prems Cons.IH [of c1] spend_total [OF c1] spend_used [OF c1] show ?case by simp
qed simp

lemma spend_all_bounded:
  "spend_all ns c = Inr c' \<Longrightarrow> ac_used c \<le> ac_total c \<Longrightarrow> ac_used c' \<le> ac_total c'"
  by (induction ns arbitrary: c) (auto split: sum.splits dest: spend_bounded)

text \<open>A job's handler gets all the amounts it asks for exactly when their sum is within the budget
  (amounts below one are free), and then that sum is what is recorded as used; the budget of a job is at
  least one token whatever was configured.\<close>

theorem spending_within_budget:
  "(\<exists>c. spend_all ns (action_context_init service action budget) = Inr c
        \<and> ac_used c = sum_list (map (max 0) ns) \<and> ac_used c \<le> ac_total c)
     \<longleftrightarrow> sum_list (map (max 0) ns) \<le> max 1 budget"
proof -
  let ?c = "action_context_init service action budget"
  have c: "ac_used ?c = 0" "ac_total ?c = max 1 budget" by (simp_all add: action_context_init_def)
  show ?thesis
    using spend_all_succeeds [of ?c ns] spend_all_used [of ns ?c] c by fastforce
qed

lemma registry_positive: "list_all (\<lambda>(k, b). 3 \<le> b \<and> b \<le> 40) ACTION_BUDGET_REGISTRY"
  by code_simp

text \<open>The budget resolved for a job is a positive override if there is one, and otherwise between 3 and 40
  tokens; a zero or negative override is ignored.\<close>

theorem resolved_budget_range:
  "get_budget service action override =
     (case override of Some b \<Rightarrow> if 0 < b then b else get_budget service action None
                     | None \<Rightarrow> get_budget service action None)
   \<and> get_budget service action None \<in> {3..40}"
proof -
  have "get_budget service action None \<in> {3..40}"
    using registry_positive
    by (auto simp: get_budget_def dict_get_def FALLBACK_BUDGET_def list_all_iff split: option.splits
        dest: map_of_SomeD)
  then show ?thesis by (auto simp: get_budget_def split: option.splits)
qed

section \<open>Idle back-off\<close>

lemma on_idle_params [simp]:
  "pt_threshold (on_idle t) = pt_threshold t" "pt_base (on_idle t) = pt_base t"
  "pt_max (on_idle t) = pt_max t" "pt_factor (on_idle t) = pt_factor t"
  "pt_idle_count (on_idle t) = Suc (pt_idle_count t)"
  by (simp_all add: on_idle_def Let_def)

lemma idle_run_params:
  "pt_threshold ((on_idle ^^ n) t) = pt_threshold t" "pt_base ((on_idle ^^ n) t) = pt_base t"
  "pt_max ((on_idle ^^ n) t) = pt_max t" "pt_factor ((on_idle ^^ n) t) = pt_factor t"
  "pt_idle_count ((on_idle ^^ n) t) = n + pt_idle_count t"
  by (induction n) simp_all

lemma idle_run_extra:
  "pt_extra ((on_idle ^^ Suc n) (on_work t)) =
     (if n < pt_threshold t then 0 else min (pt_base t * pt_factor t ^ (n - pt_threshold t)) (pt_max t))"
proof -
  have "pt_threshold ((on_idle ^^ n) (on_work t)) = pt_threshold t"
    "pt_base ((on_idle ^^ n) (on_work t)) = pt_base t" "pt_max ((on_idle ^^ n) (on_work t)) = pt_max t"
    "pt_factor ((on_idle ^^ n) (on_work t)) = pt_factor t" "pt_idle_count ((on_idle ^^ n) (on_work t)) = n"
    by (simp_all add: idle_run_params) (simp_all add: on_work_def)
  then show ?thesis
    by (simp add: on_idle_def Let_def Suc_diff_le)
qed

text \<open>After a message has arrived the throttle sleeps no extra time for the threshold's empty polls, then
  doubles from five seconds up to sixty: the extra sleep after the (n+1)-th consecutive empty poll.\<close>

theorem throttle_schedule:
  "pt_extra ((on_idle ^^ Suc n) (on_work default_throttle)) = (if n < 3 then 0 else min (5 * 2 ^ (n - 3)) 60)"
  unfolding idle_run_extra by (simp add: default_throttle_def poll_throttle_init_def)

text \<open>The eighth consecutive empty poll sleeps sixty extra seconds, where the class documentation says that
  the extra sleep stays at forty from the seventh poll on.\<close>

theorem throttle_reaches_sixty:
  "pt_extra ((on_idle ^^ 7) (on_work default_throttle)) = 40
   \<and> pt_extra ((on_idle ^^ 8) (on_work default_throttle)) = 60"
  using idle_run_extra [of 6 default_throttle] idle_run_extra [of 7 default_throttle]
  by (simp add: default_throttle_def poll_throttle_init_def eval_nat_numeral)

end
