(* ===== verification/Ledger.thy ===== *)
theory Ledger
  imports Sha256 "HOL-Library.Multiset"
begin

text \<open>
  \<open>JsonlLedger\<close> (\<open>common/persistence.py\<close>): the append-only log as the text of its file, and
  the claim markers beside it. The tail read walks the file backwards in blocks; it is proved equal to
  reading every line and keeping the last ones. \<open>json.loads\<close> on one line and the conversion of a
  time stamp are arguments; file-system errors are not modelled, so the fail-open branches are absent.
\<close>

record jsonl_ledger =
  lg_file :: "string option"
  lg_archive :: string
  lg_claims :: "(string \<times> rat) list"

definition ledger_empty :: jsonl_ledger where
  "ledger_empty = \<lparr>lg_file = None, lg_archive = [], lg_claims = []\<rparr>"

definition LF :: char where "LF = CHR 0x0A"
definition CR :: char where "CR = CHR 0x0D"

lemma LF_CR [simp]: "LF \<noteq> CR" "CR \<noteq> LF"
  by (simp_all add: LF_def CR_def)

definition file_text :: "jsonl_ledger \<Rightarrow> string" where
  "file_text l = (case lg_file l of None \<Rightarrow> [] | Some t \<Rightarrow> t)"

text \<open>\<open>append\<close> of a record whose JSON text is \<open>line\<close>.\<close>

definition ledger_append :: "string \<Rightarrow> jsonl_ledger \<Rightarrow> jsonl_ledger" where
  "ledger_append line l = l\<lparr>lg_file := Some (file_text l @ line @ [LF])\<rparr>"

text \<open>\<open>bytes.splitlines()\<close>: line feed, carriage return, or the two together end a line; the flag says
  that the character before was a carriage return.\<close>

fun splitlines_from :: "bool \<Rightarrow> string \<Rightarrow> string \<Rightarrow> string list" where
  "splitlines_from cr cur [] = (if cur = [] then [] else [cur])"
| "splitlines_from cr cur (c # cs) =
     (if cr \<and> c = LF then splitlines_from False cur cs
      else if c = LF then cur # splitlines_from False [] cs
      else if c = CR then cur # splitlines_from True [] cs
      else splitlines_from False (cur @ [c]) cs)"

definition py_splitlines :: "string \<Rightarrow> string list" where
  "py_splitlines s = splitlines_from False [] s"

text \<open>The last \<open>n\<close> elements, \<open>xs[-n:]\<close> for \<open>n > 0\<close>.\<close>

definition last_n :: "nat \<Rightarrow> 'a list \<Rightarrow> 'a list" where
  "last_n n xs = drop (length xs - n) xs"

definition tail_block :: nat where
  "tail_block = 8192"

text \<open>The backwards read: the position of the buffer in the file, and the buffer.\<close>

function tail_read :: "nat \<Rightarrow> string \<Rightarrow> nat \<Rightarrow> string \<Rightarrow> nat \<times> string" where
  "tail_read limit file remaining buf =
     (if 0 < remaining \<and> count_list buf LF \<le> limit
      then let chunk = min tail_block remaining; rest = remaining - chunk
           in tail_read limit file rest (take chunk (drop rest file) @ buf)
      else (remaining, buf))"
  by pat_completeness auto
termination
  by (relation "measure (\<lambda>(limit, file, remaining, buf). remaining)") (auto simp: tail_block_def)

declare tail_read.simps [simp del]

definition tail_lines :: "nat \<Rightarrow> string \<Rightarrow> string list" where
  "tail_lines limit file =
     (let (remaining, buf) = tail_read limit file (length file) [];
          split_lines = py_splitlines buf
      in last_n limit (if 0 < remaining \<and> limit < length split_lines then drop 1 split_lines else split_lines))"

text \<open>The parsing of raw lines: blank and malformed lines are skipped.\<close>

definition parse_lines :: "(string \<Rightarrow> json option) \<Rightarrow> string list \<Rightarrow> json list" where
  "parse_lines loads raws = List.map_filter (\<lambda>raw. if py_strip raw = [] then None else loads (py_strip raw)) raws"

definition ledger_tail :: "(string \<Rightarrow> json option) \<Rightarrow> int \<Rightarrow> jsonl_ledger \<Rightarrow> json list" where
  "ledger_tail loads limit l =
     (case lg_file l of None \<Rightarrow> []
      | Some file \<Rightarrow> if limit \<le> 0 then [] else parse_lines loads (tail_lines (nat limit) file))"

definition ledger_scan :: "(string \<Rightarrow> json option) \<Rightarrow> jsonl_ledger \<Rightarrow> json list" where
  "ledger_scan loads l =
     (case lg_file l of None \<Rightarrow> [] | Some file \<Rightarrow> parse_lines loads (py_splitlines file))"

section \<open>Rotation\<close>

datatype ledger_error = NotAnObject string

fun rotate_lines ::
  "(string \<Rightarrow> json option) \<Rightarrow> (json \<Rightarrow> rat option) \<Rightarrow> string \<Rightarrow> rat \<Rightarrow> string list
     \<Rightarrow> ledger_error + (string list \<times> string list)" where
  "rotate_lines loads epoch ts_field cutoff [] = Inr ([], [])"
| "rotate_lines loads epoch ts_field cutoff (raw # raws) =
     (let stripped = py_strip raw; more = rotate_lines loads epoch ts_field cutoff raws
      in if stripped = [] then more
         else case loads stripped of
             None \<Rightarrow> map_sum id (\<lambda>(kept, old). (stripped # kept, old)) more
           | Some (JObj kvs) \<Rightarrow>
               (case epoch (dict_get kvs ts_field JNull) of
                  Some ts \<Rightarrow> if ts < cutoff
                    then map_sum id (\<lambda>(kept, old). (kept, stripped # old)) more
                    else map_sum id (\<lambda>(kept, old). (stripped # kept, old)) more
                | None \<Rightarrow> map_sum id (\<lambda>(kept, old). (stripped # kept, old)) more)
           | Some v \<Rightarrow> Inl (NotAnObject stripped))"

definition unlines :: "string list \<Rightarrow> string" where
  "unlines ls = concat (map (\<lambda>l. l @ [LF]) ls)"

definition rotate_by_age ::
  "(string \<Rightarrow> json option) \<Rightarrow> (json \<Rightarrow> rat option) \<Rightarrow> rat \<Rightarrow> rat \<Rightarrow> string \<Rightarrow> jsonl_ledger
     \<Rightarrow> ledger_error + (int \<times> jsonl_ledger)" where
  "rotate_by_age loads epoch now max_age_hours ts_field l =
     (case lg_file l of
        None \<Rightarrow> Inr (0, l)
      | Some file \<Rightarrow>
          if max_age_hours \<le> 0 then Inr (0, l)
          else (case rotate_lines loads epoch ts_field (now - max_age_hours * 3600) (py_splitlines file) of
              Inl e \<Rightarrow> Inl e
            | Inr (kept, archived) \<Rightarrow>
                if archived = [] then Inr (0, l)
                else Inr (int (length archived),
                          l\<lparr>lg_archive := lg_archive l @ unlines archived, lg_file := Some (unlines kept)\<rparr>)))"

section \<open>Claims\<close>

definition claim_marker :: "string \<Rightarrow> string" where
  "claim_marker key = sha256_hex key"

definition ledger_claim :: "string \<Rightarrow> rat \<Rightarrow> jsonl_ledger \<Rightarrow> bool \<times> jsonl_ledger" where
  "ledger_claim key now l =
     (if key = [] then (True, l)
      else if dict_has (lg_claims l) (claim_marker key) then (False, l)
      else (True, l\<lparr>lg_claims := AList.update (claim_marker key) now (lg_claims l)\<rparr>))"

definition claim_age_seconds :: "string \<Rightarrow> rat \<Rightarrow> jsonl_ledger \<Rightarrow> rat option" where
  "claim_age_seconds key now l =
     (if key = [] then None
      else map_option (\<lambda>claimed_at. max 0 (now - claimed_at)) (map_of (lg_claims l) (claim_marker key)))"

definition reclaim_expired :: "string \<Rightarrow> rat \<Rightarrow> jsonl_ledger \<Rightarrow> bool \<times> jsonl_ledger" where
  "reclaim_expired key now l =
     (if key = [] then (False, l)
      else if \<not> dict_has (lg_claims l) (claim_marker key) then (False, l)
      else (True, l\<lparr>lg_claims := AList.update (claim_marker key) now (lg_claims l)\<rparr>))"

section \<open>The tail read returns the last lines\<close>

definition plain_line :: "string \<Rightarrow> bool" where
  "plain_line l \<longleftrightarrow> LF \<notin> set l \<and> CR \<notin> set l"

lemma splitlines_plain_prefix:
  "plain_line l \<Longrightarrow> splitlines_from False cur (l @ LF # s) = (cur @ l) # splitlines_from False [] s"
proof (induction l arbitrary: cur)
  case (Cons c l)
  then have "c \<noteq> LF" "c \<noteq> CR" "plain_line l" by (auto simp: plain_line_def)
  with Cons.IH [of "cur @ [c]"] show ?case by simp
qed simp

lemma unlines_simps [simp]: "unlines [] = []" "unlines (l # ls) = l @ LF # unlines ls"
    "unlines (ls @ ks) = unlines ls @ unlines ks"
  by (simp_all add: unlines_def)

lemma splitlines_unlines:
  "\<forall>l \<in> set ls. plain_line l \<Longrightarrow> py_splitlines (unlines ls) = ls"
  unfolding py_splitlines_def by (induction ls) (auto simp: splitlines_plain_prefix)

lemma count_LF_plain: "plain_line l \<Longrightarrow> count_list l LF = 0"
  by (simp add: plain_line_def count_list_0_iff)

lemma count_LF_unlines: "\<forall>l \<in> set ls. plain_line l \<Longrightarrow> count_list (unlines ls) LF = length ls"
  by (induction ls) (auto simp: count_LF_plain)

text \<open>A suffix of a file is a partial line followed by whole lines.\<close>

lemma drop_unlines:
  "drop r (unlines ls) = [] \<or>
   (\<exists>pre l rest k. ls = pre @ l # rest \<and> drop r (unlines ls) = drop k l @ LF # unlines rest)"
proof (induction ls arbitrary: r)
  case (Cons l ls)
  show ?case
  proof (cases "r \<le> length l")
    case True
    then have "drop r (unlines (l # ls)) = drop r l @ LF # unlines ls" by simp
    then show ?thesis by (metis append_Nil)
  next
    case False
    define r' where "r' = r - Suc (length l)"
    with False have r: "r = Suc (length l) + r'" by simp
    then have d: "drop r (unlines (l # ls)) = drop r' (unlines ls)" by simp
    from Cons.IH [of r'] show ?thesis
    proof (rule disjE)
      assume "\<exists>pre l' rest k. ls = pre @ l' # rest \<and> drop r' (unlines ls) = drop k l' @ LF # unlines rest"
      then show ?thesis unfolding d by (metis append_Cons)
    next
      assume "drop r' (unlines ls) = []"
      then show ?thesis by (simp only: d) simp
    qed
  qed
qed simp

lemma plain_drop: "plain_line l \<Longrightarrow> plain_line (drop k l)"
  by (auto simp: plain_line_def dest: in_set_dropD)

lemma last_n_append: "n \<le> length ys \<Longrightarrow> last_n n (xs @ ys) = last_n n ys"
  by (simp add: last_n_def)

lemma last_n_idem: "length xs \<le> n \<Longrightarrow> last_n n xs = xs"
  by (simp add: last_n_def)

text \<open>The loop stops at a suffix of the file that is the whole file or holds enough line ends.\<close>

lemma tail_read_spec:
  assumes "tail_read limit bytes remaining buf = (p, b)" "buf = drop remaining bytes" "remaining \<le> length bytes"
  shows "b = drop p bytes \<and> (p = 0 \<or> limit < count_list b LF)"
  using assms
proof (induction limit bytes remaining buf rule: tail_read.induct)
  case (1 limit bytes remaining buf)
  show ?case
  proof (cases "0 < remaining \<and> count_list buf LF \<le> limit")
    case True
    define chunk where "chunk = min tail_block remaining"
    have step: "take chunk (drop (remaining - chunk) bytes) @ buf = drop (remaining - chunk) bytes"
      using 1(3) by (metis add.commute append_take_drop_id chunk_def drop_drop le_add_diff_inverse2 min.cobounded2)
    have "tail_read limit bytes (remaining - chunk) (take chunk (drop (remaining - chunk) bytes) @ buf) = (p, b)"
      using 1(2) True unfolding chunk_def by (subst (asm) tail_read.simps) (simp add: Let_def)
    moreover have "remaining - chunk \<le> length bytes" using 1(4) by simp
    ultimately show ?thesis using 1(1) [OF True chunk_def refl _ step] by blast
  next
    case False
    with 1(2) have "p = remaining" "b = buf"
      by (subst (asm) tail_read.simps; simp split: if_splits)+
    with False 1(3) show ?thesis by auto
  qed
qed

lemma tail_lines_spec:
  assumes "\<forall>l \<in> set ls. plain_line l"
  shows "tail_lines limit (unlines ls) = last_n limit ls"
proof -
  let ?file = "unlines ls"
  obtain p b where pb: "tail_read limit ?file (length ?file) [] = (p, b)" by fastforce
  have "b = drop p ?file \<and> (p = 0 \<or> limit < count_list b LF)" by (rule tail_read_spec [OF pb]) simp_all
  then have b: "b = drop p ?file" and stop: "p = 0 \<or> limit < count_list b LF" by (rule conjunct1, rule conjunct2)
  show ?thesis
  proof (cases "p = 0")
    case True
    with pb b splitlines_unlines [OF assms] show ?thesis by (simp add: tail_lines_def)
  next
    case False
    with stop have many: "limit < count_list b LF" by simp
    then have "b \<noteq> []" by auto
    with drop_unlines [of p ls] b obtain pre l rest k
      where ls: "ls = pre @ l # rest" and d: "b = drop k l @ LF # unlines rest" by blast
    have plain: "plain_line (drop k l)" "\<forall>l \<in> set rest. plain_line l"
      using assms ls by (auto intro: plain_drop)
    have split: "py_splitlines b = drop k l # rest"
      using splitlines_plain_prefix [OF plain(1), of "[]"] splitlines_unlines [OF plain(2)]
      by (simp add: d py_splitlines_def)
    have "limit \<le> length rest"
      using many count_LF_plain [OF plain(1)] count_LF_unlines [OF plain(2)] by (simp add: d)
    moreover have "last_n limit ls = last_n limit rest"
      using last_n_append [of limit rest "pre @ [l]"] \<open>limit \<le> length rest\<close> ls by simp
    ultimately show ?thesis
      using pb split False by (simp add: tail_lines_def)
  qed
qed

lemma map_filter_last: "parse_lines loads (last_n n ls) = parse_lines loads (drop (length ls - n) ls)"
  by (simp add: last_n_def)

text \<open>C29: The backwards block read is the reference read: on a file of lines written by append, reading the tail
  returns the records of the last lines, in order, exactly as if the whole file had been read, for
  every limit and file length (so also when a block boundary falls inside a line).\<close>

theorem tail_reads_last_lines:
  assumes "\<forall>line \<in> set ls. plain_line line" "0 < limit"
  shows "ledger_tail loads limit (fold ledger_append ls ledger_empty) =
    parse_lines loads (drop (length ls - nat limit) ls)"
proof (cases "ls = []")
  case True
  then show ?thesis using assms(2) by (simp add: ledger_tail_def ledger_empty_def parse_lines_def List.map_filter_def)
next
  case False
  have "lg_file (fold ledger_append ls l) = (if ls = [] then lg_file l else Some (file_text l @ unlines ls))" for l ls
    by (induction ls arbitrary: l) (auto simp: ledger_append_def file_text_def split: if_splits)
  with False have "lg_file (fold ledger_append ls ledger_empty) = Some (unlines ls)"
    by (simp add: file_text_def ledger_empty_def)
  then show ?thesis
    using assms tail_lines_spec [OF assms(1)] by (simp add: ledger_tail_def last_n_def)
qed

section \<open>Rotation loses nothing\<close>

lemma rotate_lines_partition:
  "rotate_lines loads epoch ts cutoff raws = Inr (kept, old) \<Longrightarrow>
     mset kept + mset old = mset (filter (\<lambda>l. l \<noteq> []) (map py_strip raws))
     \<and> subseq kept (map py_strip raws) \<and> subseq old (map py_strip raws)"
proof (induction raws arbitrary: kept old)
  case (Cons raw raws)
  then show ?case
    by (cases "rotate_lines loads epoch ts cutoff raws")
       (auto simp: Let_def split: if_splits option.splits json.splits)
qed simp

text \<open>Rotation never drops a record: on a log of whole lines the lines kept and the lines archived are together
  exactly the lines there were, each part in its old order, and the count returned is the number archived.\<close>

theorem rotation_loses_nothing:
  assumes "lg_file l = Some (unlines ls)" "\<forall>line \<in> set ls. plain_line line \<and> py_strip line = line \<and> line \<noteq> []"
    and "rotate_by_age loads epoch now age ts_field l = Inr (n, l')"
  shows "\<exists>kept old. lg_file l' = Some (unlines kept) \<and> lg_archive l' = lg_archive l @ unlines old
    \<and> mset kept + mset old = mset ls \<and> subseq kept ls \<and> subseq old ls \<and> n = int (length old)"
proof -
  have strip: "map py_strip ls = ls" using assms(2) by (simp add: map_idI)
  have filt: "filter (\<lambda>l. l \<noteq> []) ls = ls" using assms(2) by (intro filter_True) auto
  have split: "py_splitlines (unlines ls) = ls" using assms(2) by (simp add: splitlines_unlines)
  show ?thesis
  proof (cases "lg_file l' = lg_file l \<and> lg_archive l' = lg_archive l \<and> n = 0")
    case True
    then have "lg_file l' = Some (unlines ls) \<and> lg_archive l' = lg_archive l @ unlines []
      \<and> mset ls + mset [] = mset ls \<and> subseq ls ls \<and> subseq [] ls \<and> n = int (length ([] :: string list))"
      using assms(1) by simp
    then show ?thesis by blast
  next
    case False
    with assms(1,3) split obtain kept old where
      r: "rotate_lines loads epoch ts_field (now - age * 3600) ls = Inr (kept, old)"
      and l': "l' = l\<lparr>lg_archive := lg_archive l @ unlines old, lg_file := Some (unlines kept)\<rparr>" "n = int (length old)"
      by (auto simp: rotate_by_age_def split: if_splits sum.splits)
    from rotate_lines_partition [OF r] l' show ?thesis by (auto simp: strip filt)
  qed
qed

section \<open>A claim is won once\<close>

datatype claim_op = OpClaim string rat | OpReclaim string rat | OpAppend string

fun claim_apply :: "claim_op \<Rightarrow> jsonl_ledger \<Rightarrow> jsonl_ledger" where
  "claim_apply (OpClaim k now) l = snd (ledger_claim k now l)"
| "claim_apply (OpReclaim k now) l = snd (reclaim_expired k now l)"
| "claim_apply (OpAppend line) l = ledger_append line l"

lemma claim_kept: "dict_has (lg_claims l) m \<Longrightarrow> dict_has (lg_claims (claim_apply e l)) m"
  by (cases e) (auto simp: ledger_claim_def reclaim_expired_def ledger_append_def dict_has_def map_of_update)

lemma claims_kept: "dict_has (lg_claims l) m \<Longrightarrow> dict_has (lg_claims (fold claim_apply es l)) m"
  by (induction es arbitrary: l) (simp_all add: claim_kept)

text \<open>A key is claimed by at most one caller: once a claim of a non-empty key has returned, whatever claims,
  takeovers and appends follow, no later claim of the same key wins.\<close>

theorem claim_wins_once:
  assumes "k \<noteq> []"
  shows "\<not> fst (ledger_claim k later (fold claim_apply es (snd (ledger_claim k now l))))"
proof -
  have "dict_has (lg_claims (snd (ledger_claim k now l))) (claim_marker k)"
    using assms by (auto simp: ledger_claim_def dict_has_def map_of_update)
  then have "dict_has (lg_claims (fold claim_apply es (snd (ledger_claim k now l)))) (claim_marker k)"
    by (rule claims_kept)
  with assms show ?thesis by (simp add: ledger_claim_def)
qed

text \<open>The takeover of an expired claim is not exclusive: two callers that have both read the age of the
  same expired marker both take it over, one after the other, although the method is documented to let exactly
  one win and to return False when another caller has refreshed the marker.\<close>

theorem both_reclaimers_win:
  assumes "claim_age_seconds k now l = Some age"
  shows "fst (reclaim_expired k now l)
    \<and> claim_age_seconds k now (snd (reclaim_expired k now l)) = Some 0
    \<and> fst (reclaim_expired k now (snd (reclaim_expired k now l)))"
  using assms
  by (auto simp: claim_age_seconds_def reclaim_expired_def dict_has_def map_of_update split: if_splits)

section \<open>Witnesses\<close>

theorem tail_reads_last_lines_witness:
  "ledger_tail (\<lambda>s. Some (JStr s)) 2 (fold ledger_append [''a'', ''b'', ''c''] ledger_empty) = [JStr ''b'', JStr ''c'']"
proof -
  have s: "py_strip ''b'' = ''b''" "py_strip ''c'' = ''c''" by code_simp+
  have "\<forall>line \<in> set [''a'', ''b'', ''c'']. plain_line line" by (simp add: plain_line_def LF_def CR_def)
  from tail_reads_last_lines [OF this, of 2 "\<lambda>s. Some (JStr s)"] s show ?thesis
    by (simp add: parse_lines_def List.map_filter_def)
qed

definition w_log :: jsonl_ledger where
  "w_log = \<lparr>lg_file = Some (unlines [''old'', ''new'']), lg_archive = [], lg_claims = []\<rparr>"

definition w_loads :: "string \<Rightarrow> json option" where
  "w_loads s = Some (JObj [(''ts'', JInt (if s = ''old'' then 0 else 7200))])"

fun w_epoch :: "json \<Rightarrow> rat option" where
  "w_epoch (JInt i) = Some (of_int i)"
| "w_epoch _ = None"

lemma w_rotate:
  "rotate_by_age w_loads w_epoch 7200 1 ''ts'' w_log =
     Inr (1, \<lparr>lg_file = Some (unlines [''new'']), lg_archive = unlines [''old''], lg_claims = []\<rparr>)"
proof -
  have s: "py_splitlines (unlines [''old'', ''new'']) = [''old'', ''new'']"
    by (rule splitlines_unlines) (simp add: plain_line_def LF_def CR_def)
  have "py_strip ''old'' = ''old''" "py_strip ''new'' = ''new''" by code_simp+
  then show ?thesis
    unfolding rotate_by_age_def w_log_def by (simp add: s w_loads_def dict_get_def del: unlines_simps)
qed

theorem rotation_loses_nothing_witness:
  "\<exists>kept old. unlines [''new''] = unlines kept \<and> unlines [''old''] = unlines old \<and> subseq kept [''old'', ''new'']"
proof -
  have "py_strip ''old'' = ''old''" "py_strip ''new'' = ''new''" by code_simp+
  then have "\<forall>line \<in> set [''old'', ''new'']. plain_line line \<and> py_strip line = line \<and> line \<noteq> []"
    by (simp add: plain_line_def LF_def CR_def)
  from rotation_loses_nothing [OF _ this w_rotate] show ?thesis by (auto simp: w_log_def)
qed

theorem claim_wins_once_witness:
  "\<not> fst (ledger_claim ''evt_1'' 20 (snd (ledger_claim ''evt_1'' 10 ledger_empty)))"
  using claim_wins_once [of "''evt_1''" 20 "[]" 10 ledger_empty] by simp

theorem both_reclaimers_win_witness:
  "fst (reclaim_expired ''evt_1'' 900 (snd (reclaim_expired ''evt_1'' 900 (snd (ledger_claim ''evt_1'' 0 ledger_empty)))))"
proof -
  have "claim_age_seconds ''evt_1'' 900 (snd (ledger_claim ''evt_1'' 0 ledger_empty)) = Some 900"
    by (simp add: claim_age_seconds_def ledger_claim_def ledger_empty_def dict_has_def)
  from both_reclaimers_win [OF this] show ?thesis by blast
qed

end
