(* ===== verification/Worker.thy ===== *)
theory Worker
  imports Queue_Signing Ring_Store Action_Budget
begin

text \<open>
  The queue worker: \<open>BaseSqsWorker\<close> (\<open>common/worker_base.py\<close>) and the dead-letter record of
  \<open>common/dlq.py\<close>. \<open>process_message\<close> is the whole handler of one delivery; the poll loop is a
  step relation in which the shutdown signal may arrive between any two steps. The body parser
  (pydantic) and the subclass's \<open>handle\<close> are arguments; \<open>handle\<close> works on an application state of its
  own and on the claim store, which by default is the process-wide \<open>GLOBAL_IDEMPOTENCY_STORE\<close>: it reads the
  store and returns the writes it makes there, and other code of the process may write the store between any
  two steps of the loop. The calls to AWS are recorded in the order they are made: the state table, the topic and the
  ledger are written best-effort (their failures are swallowed), the deletion of a message is taken to succeed.
\<close>

definition MAX_HANDLER_ATTEMPTS :: int where
  "MAX_HANDLER_ATTEMPTS = 5"

record sqs_message =
  sm_receipt :: string
  sm_body :: string
  sm_attributes :: "(string \<times> string) list"

definition receive_count :: "sqs_message \<Rightarrow> int" where
  "receive_count m =
     (case map_of (sm_attributes m) ''ApproximateReceiveCount'' of
        None \<Rightarrow> 1
      | Some raw \<Rightarrow> (case py_int raw of None \<Rightarrow> 1 | Some n \<Rightarrow> n))"

record dlq_record =
  dl_service :: string
  dl_task_id :: string
  dl_target :: string
  dl_payload :: "(string \<times> json) list"
  dl_error :: string
  dl_attempt :: int
  dl_status :: string

definition valid_service :: "string \<Rightarrow> bool" where
  "valid_service s = (2 \<le> length s \<and> length s \<le> 32
     \<and> list_all (\<lambda>c. c = CHR ''_'' \<or> (97 \<le> char_code c \<and> char_code c \<le> 122)) s)"

definition enqueue_failure ::
  "string \<Rightarrow> string \<Rightarrow> string \<Rightarrow> (string \<times> json) list \<Rightarrow> string \<Rightarrow> int \<Rightarrow> dlq_record option" where
  "enqueue_failure service task_id target payload error attempt =
     (if valid_service service
      then Some \<lparr>dl_service = service, dl_task_id = task_id, dl_target = target, dl_payload = payload,
                 dl_error = error, dl_attempt = attempt, dl_status = ''pending_retry''\<rparr>
      else None)"

datatype effect =
    Metric string
  | PutState string string json
  | PublishEvent string string
  | LedgerRecord audit_event
  | Handled string
  | Stored string
  | DlqAppend dlq_record
  | DeleteMessage string

datatype handler_outcome =
    HandlerDone "(string \<times> json) list"
  | HandlerExhausted budget_exhausted
  | HandlerRaised string

type_synonym 'a handler =
  "queue_envelope \<Rightarrow> bool option \<Rightarrow> action_context option \<Rightarrow> 'a \<Rightarrow> json idempotency_store
     \<Rightarrow> handler_outcome \<times> 'a \<times> json idem_op list"

record 'a worker =
  wk_service :: string
  wk_accepts_stop :: bool
  wk_accepts_context :: bool
  wk_stop :: bool
  wk_idem :: "json idempotency_store"
  wk_app :: 'a
  wk_effects :: "effect list"

definition emit :: "effect list \<Rightarrow> 'a worker \<Rightarrow> 'a worker" where
  "emit es w = w\<lparr>wk_effects := wk_effects w @ es\<rparr>"

text \<open>Writes of the store, by the handler or by other code of the process.\<close>

definition store_ops :: "json idem_op list \<Rightarrow> 'a worker \<Rightarrow> 'a worker" where
  "store_ops ops w = w\<lparr>wk_idem := fold idem_apply ops (wk_idem w),
     wk_effects := wk_effects w @ map (\<lambda>op. Stored (idem_op_key op)) ops\<rparr>"

definition idem_key :: "string \<Rightarrow> queue_envelope \<Rightarrow> string" where
  "idem_key service e = py_or (str_or_empty (qe_idempotency_key e)) (service @ '':'' @ qe_task_id e)"

fun exhausted_text :: "budget_exhausted \<Rightarrow> string" where
  "exhausted_text (BudgetExhausted service action budget used) =
     service @ ''.'' @ action @ '': action budget exhausted (allotted='' @ show_int budget @ '', used=''
       @ show_int used @ '')''"

definition shed_to_dlq :: "string \<Rightarrow> queue_envelope \<Rightarrow> string \<Rightarrow> effect list" where
  "shed_to_dlq service e error =
     (case enqueue_failure service (qe_task_id e) service (qe_payload e)
             (''retry ceiling ('' @ show_int MAX_HANDLER_ATTEMPTS @ '') reached: '' @ error) MAX_HANDLER_ATTEMPTS of
        None \<Rightarrow> [] | Some r \<Rightarrow> [DlqAppend r])"

text \<open>The effects that follow the handler, by its outcome.\<close>

fun outcome_effects :: "string \<Rightarrow> sqs_message \<Rightarrow> queue_envelope \<Rightarrow> handler_outcome \<Rightarrow> effect list" where
  "outcome_effects service m e (HandlerDone result) =
     [PutState (qe_task_id e) ''completed'' (JObj result),
      PublishEvent ''task.completed'' (qe_task_id e),
      LedgerRecord (build_audit_event service (qe_task_id e) (qe_action e) (JObj (qe_payload e)) (JObj result) ''completed''),
      DeleteMessage (sm_receipt m), Metric ''completed'']"
| "outcome_effects service m e (HandlerExhausted (BudgetExhausted s a budget used)) =
     [Metric ''budget_exhausted'',
      PutState (qe_task_id e) ''budget_exhausted'' (JStr (exhausted_text (BudgetExhausted s a budget used))),
      LedgerRecord (build_audit_event service (qe_task_id e) (qe_action e) (JObj (qe_payload e))
        (JObj [(''budget_exhausted'', JBool True), (''used'', JInt used), (''budget'', JInt budget)]) ''budget_exhausted''),
      DeleteMessage (sm_receipt m)]"
| "outcome_effects service m e (HandlerRaised error) =
     [Metric ''failed'',
      PutState (qe_task_id e) ''failed'' (JStr error),
      PublishEvent ''task.failed'' (qe_task_id e),
      LedgerRecord (build_audit_event service (qe_task_id e) (qe_action e) (JObj (qe_payload e))
        (JObj [(''error'', JStr error)]) ''failed'')]
     @ (if receive_count m \<ge> MAX_HANDLER_ATTEMPTS
        then shed_to_dlq service e error @ [DeleteMessage (sm_receipt m), Metric ''retry_exhausted'']
        else [])"

definition process_message ::
  "(string \<Rightarrow> queue_envelope option) \<Rightarrow> environ \<Rightarrow> string \<Rightarrow> 'a handler \<Rightarrow> sqs_message \<Rightarrow> 'a worker \<Rightarrow> 'a worker" where
  "process_message parse env shared handle m w =
     (case parse (sm_body m) of
        None \<Rightarrow> emit [Metric ''poison'', DeleteMessage (sm_receipt m)] w
      | Some e \<Rightarrow>
          if \<not> fst (check_message_authenticity env shared e)
          then emit [Metric ''unauthenticated'', DeleteMessage (sm_receipt m)] w
          else
            let w1 = emit [PutState (qe_task_id e) ''processing'' JNull] w;
                key = idem_key (wk_service w) e;
                (first, store) = idem_first_seen key (wk_idem w1);
                w2 = w1\<lparr>wk_idem := store\<rparr>
            in if \<not> first then emit [Metric ''deduplicated'', DeleteMessage (sm_receipt m)] w2
               else
                 let budget = get_budget (wk_service w) (qe_action e) (qe_action_budget e);
                     ctx = action_context_init (wk_service w) (qe_action e) budget;
                     w3 = emit [Handled key] w2;
                     (outcome, app, ops) = handle e (if wk_accepts_stop w then Some (wk_stop w) else None)
                                        (if wk_accepts_context w then Some ctx else None) (wk_app w3) (wk_idem w3)
                 in emit (outcome_effects (wk_service w) m e outcome) (store_ops ops (w3\<lparr>wk_app := app\<rparr>)))"

section \<open>The poll loop\<close>

text \<open>
  \<open>run_forever\<close> with its throttle. \<open>Draining ms\<close>: a batch is being processed, \<open>ms\<close> is what is left.
\<close>

datatype phase = Polling | Draining "sqs_message list" | Stopped

record 'a loop_state =
  ls_phase :: phase
  ls_throttle :: poll_throttle
  ls_worker :: "'a worker"

definition POLL_WAIT_LONG_S :: int where "POLL_WAIT_LONG_S = 20"
definition POLL_WAIT_SHUTDOWN_S :: int where "POLL_WAIT_SHUTDOWN_S = 0"

definition poll_wait_seconds :: "'a worker \<Rightarrow> int" where
  "poll_wait_seconds w = (if wk_stop w then POLL_WAIT_SHUTDOWN_S else POLL_WAIT_LONG_S)"

definition loop_start :: "'a worker \<Rightarrow> 'a loop_state" where
  "loop_start w = \<lparr>ls_phase = Polling, ls_throttle = default_throttle, ls_worker = w\<rparr>"

inductive loop_step ::
  "(string \<Rightarrow> queue_envelope option) \<Rightarrow> environ \<Rightarrow> string \<Rightarrow> 'a handler \<Rightarrow> 'a loop_state \<Rightarrow> 'a loop_state \<Rightarrow> bool"
  for parse env shared handle where
  Signal: "ls_phase s \<noteq> Stopped \<Longrightarrow>
     loop_step parse env shared handle s (s\<lparr>ls_worker := (ls_worker s)\<lparr>wk_stop := True\<rparr>\<rparr>)"
| Quit: "ls_phase s = Polling \<Longrightarrow> wk_stop (ls_worker s) \<Longrightarrow>
     loop_step parse env shared handle s (s\<lparr>ls_phase := Stopped\<rparr>)"
| ReceiveFailed: "ls_phase s = Polling \<Longrightarrow> \<not> wk_stop (ls_worker s) \<Longrightarrow> loop_step parse env shared handle s s"
| ReceiveEmpty: "ls_phase s = Polling \<Longrightarrow> \<not> wk_stop (ls_worker s) \<Longrightarrow>
     loop_step parse env shared handle s (s\<lparr>ls_throttle := on_idle (ls_throttle s)\<rparr>)"
| ReceiveBatch: "ls_phase s = Polling \<Longrightarrow> \<not> wk_stop (ls_worker s) \<Longrightarrow> ms \<noteq> [] \<Longrightarrow>
     loop_step parse env shared handle s (s\<lparr>ls_phase := Draining ms, ls_throttle := on_work (ls_throttle s)\<rparr>)"
| Process: "ls_phase s = Draining (m # ms) \<Longrightarrow> \<not> wk_stop (ls_worker s) \<Longrightarrow>
     loop_step parse env shared handle s
       (s\<lparr>ls_phase := Draining ms, ls_worker := process_message parse env shared handle m (ls_worker s)\<rparr>)"
| Interrupted: "ls_phase s = Draining ms \<Longrightarrow> wk_stop (ls_worker s) \<Longrightarrow>
     loop_step parse env shared handle s (s\<lparr>ls_phase := Polling\<rparr>)"
| BatchDone: "ls_phase s = Draining [] \<Longrightarrow>
     loop_step parse env shared handle s (s\<lparr>ls_phase := Polling\<rparr>)"
| Elsewhere: "loop_step parse env shared handle s (s\<lparr>ls_worker := store_ops [op] (ls_worker s)\<rparr>)"

inductive_cases loop_stepE: "loop_step parse env shared handle s s'"

section \<open>One delivery\<close>

definition authentic_envelope ::
  "(string \<Rightarrow> queue_envelope option) \<Rightarrow> environ \<Rightarrow> string \<Rightarrow> sqs_message \<Rightarrow> queue_envelope option" where
  "authentic_envelope parse env shared m =
     (case parse (sm_body m) of
        None \<Rightarrow> None
      | Some e \<Rightarrow> if fst (check_message_authenticity env shared e) then Some e else None)"

text \<open>The handler call of a message that gets through.\<close>

definition run_handler :: "'a handler \<Rightarrow> queue_envelope \<Rightarrow> 'a worker \<Rightarrow> handler_outcome \<times> 'a \<times> json idem_op list" where
  "run_handler handle e w =
     handle e (if wk_accepts_stop w then Some (wk_stop w) else None)
       (if wk_accepts_context w
        then Some (action_context_init (wk_service w) (qe_action e)
          (get_budget (wk_service w) (qe_action e) (qe_action_budget e)))
        else None) (wk_app w) (idem_apply (Claim (idem_key (wk_service w) e)) (wk_idem w))"

abbreviation handler_app :: "handler_outcome \<times> 'a \<times> json idem_op list \<Rightarrow> 'a" where
  "handler_app r \<equiv> fst (snd r)"

abbreviation handler_writes :: "handler_outcome \<times> 'a \<times> json idem_op list \<Rightarrow> json idem_op list" where
  "handler_writes r \<equiv> snd (snd r)"

lemma process_refused:
  "authentic_envelope parse env shared m = None \<Longrightarrow>
     \<exists>label. process_message parse env shared handle m w = emit [Metric label, DeleteMessage (sm_receipt m)] w"
  by (auto simp: authentic_envelope_def process_message_def split: option.splits if_splits)

lemma process_duplicate:
  assumes "authentic_envelope parse env shared m = Some e" "idem_exists (idem_key (wk_service w) e) (wk_idem w)"
  shows "process_message parse env shared handle m w =
    emit [PutState (qe_task_id e) ''processing'' JNull, Metric ''deduplicated'', DeleteMessage (sm_receipt m)] w"
  using assms
  by (auto simp: authentic_envelope_def process_message_def emit_def idem_unfold Let_def split: option.splits if_splits)

lemma process_first:
  assumes "authentic_envelope parse env shared m = Some e" "\<not> idem_exists (idem_key (wk_service w) e) (wk_idem w)"
  shows "process_message parse env shared handle m w =
    emit (outcome_effects (wk_service w) m e (fst (run_handler handle e w)))
      (store_ops (handler_writes (run_handler handle e w))
        (emit [PutState (qe_task_id e) ''processing'' JNull, Handled (idem_key (wk_service w) e)]
          (w\<lparr>wk_idem := idem_apply (Claim (idem_key (wk_service w) e)) (wk_idem w),
             wk_app := handler_app (run_handler handle e w)\<rparr>)))"
  using assms
  by (auto simp: authentic_envelope_def process_message_def emit_def store_ops_def idem_unfold run_handler_def Let_def
      split: option.splits if_splits prod.splits)

lemma emit_simps [simp]:
  "wk_service (emit es w) = wk_service w" "wk_stop (emit es w) = wk_stop w" "wk_idem (emit es w) = wk_idem w"
  "wk_app (emit es w) = wk_app w" "wk_effects (emit es w) = wk_effects w @ es"
  "wk_accepts_stop (emit es w) = wk_accepts_stop w" "wk_accepts_context (emit es w) = wk_accepts_context w"
  by (simp_all add: emit_def)

lemma store_ops_simps [simp]:
  "wk_service (store_ops ops w) = wk_service w" "wk_stop (store_ops ops w) = wk_stop w"
  "wk_idem (store_ops ops w) = fold idem_apply ops (wk_idem w)" "wk_app (store_ops ops w) = wk_app w"
  "wk_effects (store_ops ops w) = wk_effects w @ map (\<lambda>op. Stored (idem_op_key op)) ops"
  "wk_accepts_stop (store_ops ops w) = wk_accepts_stop w" "wk_accepts_context (store_ops ops w) = wk_accepts_context w"
  by (simp_all add: store_ops_def)

lemma process_message_fields [simp]:
  "wk_service (process_message parse env shared handle m w) = wk_service w"
  "wk_stop (process_message parse env shared handle m w) = wk_stop w"
proof -
  have "wk_service (process_message parse env shared handle m w) = wk_service w
    \<and> wk_stop (process_message parse env shared handle m w) = wk_stop w"
  proof (cases "authentic_envelope parse env shared m")
    case None
    with process_refused [OF None, of handle w] show ?thesis by auto
  next
    case (Some e)
    then show ?thesis
      using process_duplicate [OF Some, of w handle] process_first [OF Some, of w handle]
      by (cases "idem_exists (idem_key (wk_service w) e) (wk_idem w)") simp_all
  qed
  then show "wk_service (process_message parse env shared handle m w) = wk_service w"
    "wk_stop (process_message parse env shared handle m w) = wk_stop w" by simp_all
qed

text \<open>
  The recorded writes of the store are the operations that were applied to it, one for one: \<open>store_writes\<close>
  counts them.
\<close>

fun is_store_write :: "effect \<Rightarrow> bool" where
  "is_store_write (Handled k) = True"
| "is_store_write (Stored k) = True"
| "is_store_write _ = False"

definition store_writes :: "effect list \<Rightarrow> nat" where
  "store_writes es = length (filter is_store_write es)"

lemma store_writes_simps [simp]:
  "store_writes [] = 0" "store_writes (es @ es') = store_writes es + store_writes es'"
  "store_writes (e # es) = (if is_store_write e then Suc (store_writes es) else store_writes es)"
  by (simp_all add: store_writes_def)

lemma store_writes_stored [simp]: "store_writes (map (\<lambda>op. Stored (idem_op_key op)) ops) = length ops"
  by (induction ops) simp_all

lemma outcome_writes: "e' \<in> set (outcome_effects service m e out) \<Longrightarrow> \<not> is_store_write e'"
  by (cases "(service, m, e, out)" rule: outcome_effects.cases)
     (auto simp: shed_to_dlq_def split: option.splits if_splits)

lemma store_writes_outcome [simp]: "store_writes (outcome_effects service m e out) = 0"
  using outcome_writes by (auto simp: store_writes_def filter_empty_conv)

definition writes_kept :: "'a worker \<Rightarrow> 'a worker \<Rightarrow> bool" where
  "writes_kept w w' \<longleftrightarrow> wk_service w' = wk_service w
     \<and> (\<exists>es ops. wk_effects w' = wk_effects w @ es \<and> wk_idem w' = fold idem_apply ops (wk_idem w)
          \<and> length ops = store_writes es)"

lemma writes_keptI:
  "wk_service w' = wk_service w \<Longrightarrow> wk_effects w' = wk_effects w @ es \<Longrightarrow>
     wk_idem w' = fold idem_apply ops (wk_idem w) \<Longrightarrow> length ops = store_writes es \<Longrightarrow> writes_kept w w'"
  by (auto simp: writes_kept_def)

lemma writes_kept_trans: "writes_kept w v \<Longrightarrow> writes_kept v u \<Longrightarrow> writes_kept w u"
proof -
  assume "writes_kept w v" "writes_kept v u"
  then obtain es ops es' ops' where
    "wk_effects v = wk_effects w @ es" "wk_idem v = fold idem_apply ops (wk_idem w)" "length ops = store_writes es"
    "wk_effects u = wk_effects v @ es'" "wk_idem u = fold idem_apply ops' (wk_idem v)" "length ops' = store_writes es'"
    "wk_service v = wk_service w" "wk_service u = wk_service v"
    by (auto simp: writes_kept_def)
  then show ?thesis by (intro writes_keptI [where es = "es @ es'" and ops = "ops @ ops'"]) simp_all
qed

lemma process_writes: "writes_kept w (process_message parse env shared handle m w)"
proof (cases "authentic_envelope parse env shared m")
  case None
  from process_refused [OF None, of handle w] show ?thesis
    by (auto intro!: writes_keptI [where ops = "[]"])
next
  case (Some e)
  let ?k = "idem_key (wk_service w) e"
  show ?thesis
  proof (cases "idem_exists ?k (wk_idem w)")
    case True
    with process_duplicate [OF Some True, of handle] show ?thesis
      by (auto intro!: writes_keptI [where ops = "[]"])
  next
    case False
    with process_first [OF Some False, of handle] show ?thesis
      by (auto intro!: writes_keptI [where ops = "Claim ?k # handler_writes (run_handler handle e w)"]
          simp del: idem_apply.simps)
  qed
qed

definition process_all ::
  "(string \<Rightarrow> queue_envelope option) \<Rightarrow> environ \<Rightarrow> string \<Rightarrow> 'a handler \<Rightarrow> sqs_message list \<Rightarrow> 'a worker \<Rightarrow> 'a worker" where
  "process_all parse env shared handle ms w = fold (process_message parse env shared handle) ms w"

lemma process_all_writes: "writes_kept w (process_all parse env shared handle ms w)"
  unfolding process_all_def
proof (induction ms arbitrary: w)
  case Nil
  show ?case by (auto intro: writes_keptI [where ops = "[]"])
next
  case (Cons m ms)
  from writes_kept_trans [OF process_writes Cons] show ?case by simp
qed

lemma process_all_service [simp]: "wk_service (process_all parse env shared handle ms w) = wk_service w"
  by (rule process_all_writes [unfolded writes_kept_def, THEN conjunct1])

text \<open>A key that a message has claimed stays claimed while fewer writes than the capacity follow.\<close>

lemma claim_survives:
  assumes "idem.ring_wf (wk_idem w)" "authentic_envelope parse env shared m = Some e"
    and "\<not> idem_exists (idem_key (wk_service w) e) (wk_idem w)"
    and "w' = process_all parse env shared handle between (process_message parse env shared handle m w)"
    and "store_writes (drop (length (wk_effects w)) (wk_effects w')) \<le> idem_max (wk_idem w)"
  shows "idem_exists (idem_key (wk_service w) e) (wk_idem w')"
proof -
  let ?c = "Claim (idem_key (wk_service w) e)" and ?r = "run_handler handle e w"
  from process_all_writes [of "process_message parse env shared handle m w" parse env shared handle between]
  obtain es ops where tail: "wk_effects w' = wk_effects (process_message parse env shared handle m w) @ es"
    "wk_idem w' = fold idem_apply ops (wk_idem (process_message parse env shared handle m w))"
    "length ops = store_writes es"
    by (auto simp: writes_kept_def assms(4))
  have head: "wk_effects (process_message parse env shared handle m w) = wk_effects w
        @ [PutState (qe_task_id e) ''processing'' JNull, Handled (idem_key (wk_service w) e)]
        @ map (\<lambda>op. Stored (idem_op_key op)) (handler_writes ?r)
        @ outcome_effects (wk_service w) m e (fst ?r)"
    "wk_idem (process_message parse env shared handle m w) = fold idem_apply (handler_writes ?r) (idem_apply ?c (wk_idem w))"
    using process_first [OF assms(2,3), of handle] by (simp_all del: idem_apply.simps)
  have "length (handler_writes ?r @ ops) < idem_max (wk_idem w)"
    using assms(5) unfolding tail(1) head(1) by (simp add: tail(3))
  then have "idem_op_key ?c \<in> set (dict_keys (idem_data (fold idem_apply (handler_writes ?r @ ops) (idem_apply ?c (wk_idem w)))))"
    using assms(1,3) idem.fresh_key_survives [of "wk_idem w" ?c "handler_writes ?r @ ops"]
    by (simp add: idem_exists_def dict_has_keys)
  then show ?thesis by (simp add: tail(2) head(2) idem_exists_def dict_has_keys del: idem_apply.simps)
qed

text \<open>A failed message is never retried: when a handler raises below the attempt ceiling the message is left
  for redelivery and nothing is sent to the dead-letter queue, but its idempotency key stays claimed, so
  the redelivery (at any receive count, while no more writes than the store's capacity were made in between)
  is suppressed as a duplicate and deleted: the handler is not called, nothing reaches the dead-letter
  queue, and the work is lost.\<close>

theorem failed_message_is_lost:
  assumes "idem.ring_wf (wk_idem w)" "authentic_envelope parse env shared m = Some e"
    and "\<not> idem_exists (idem_key (wk_service w) e) (wk_idem w)"
    and "fst (run_handler handle e w) = HandlerRaised error" "receive_count m < MAX_HANDLER_ATTEMPTS"
    and "w' = process_all parse env shared handle between (process_message parse env shared handle m w)"
    and "store_writes (drop (length (wk_effects w)) (wk_effects w')) \<le> idem_max (wk_idem w)"
    and "authentic_envelope parse env shared m' = Some e"
  shows "(\<exists>es. wk_effects (process_message parse env shared handle m w) = wk_effects w @ es
        \<and> DeleteMessage (sm_receipt m) \<notin> set es \<and> (\<forall>r. DlqAppend r \<notin> set es))
    \<and> wk_effects (process_message parse env shared handle m' w') = wk_effects w' @
        [PutState (qe_task_id e) ''processing'' JNull, Metric ''deduplicated'', DeleteMessage (sm_receipt m')]
    \<and> wk_app (process_message parse env shared handle m' w') = wk_app w'"
proof -
  have "wk_service w' = wk_service w" by (simp add: assms(6))
  then have "idem_exists (idem_key (wk_service w') e) (wk_idem w')"
    using claim_survives [OF assms(1-3,6,7)] by simp
  from process_duplicate [OF assms(8) this, of handle] process_first [OF assms(2,3), of handle] assms(4,5)
  show ?thesis by auto
qed

text \<open>When the handler is called and fails at or above the attempt ceiling, the message is deleted after a
  dead-letter record with its task, payload and error has been written, for every service whose name
  is a valid identifier; below the ceiling a message is deleted exactly when its handler did not raise.\<close>

theorem handled_message_disposition:
  assumes "authentic_envelope parse env shared m = Some e"
    and "\<not> idem_exists (idem_key (wk_service w) e) (wk_idem w)" "valid_service (wk_service w)"
  shows "\<exists>es. wk_effects (process_message parse env shared handle m w) = wk_effects w @ es
    \<and> (DeleteMessage (sm_receipt m) \<in> set es \<longleftrightarrow>
         (\<nexists>error. fst (run_handler handle e w) = HandlerRaised error) \<or> receive_count m \<ge> MAX_HANDLER_ATTEMPTS)
    \<and> (\<forall>r. DlqAppend r \<in> set es \<longleftrightarrow>
         (\<exists>error. fst (run_handler handle e w) = HandlerRaised error \<and> receive_count m \<ge> MAX_HANDLER_ATTEMPTS
            \<and> enqueue_failure (wk_service w) (qe_task_id e) (wk_service w) (qe_payload e)
                (''retry ceiling (5) reached: '' @ error) 5 = Some r))"
proof -
  have five: "show_int MAX_HANDLER_ATTEMPTS = ''5''" by code_simp
  show ?thesis
  proof (cases "fst (run_handler handle e w)")
    case (HandlerExhausted x)
    then show ?thesis using process_first [OF assms(1,2), of handle] by (cases x) auto
  next
    case (HandlerRaised error)
    then show ?thesis using process_first [OF assms(1,2), of handle] assms(3) five
      by (auto simp: shed_to_dlq_def enqueue_failure_def MAX_HANDLER_ATTEMPTS_def)
  qed (use process_first [OF assms(1,2), of handle] in auto)
qed

section \<open>Runs of the loop\<close>

text \<open>
  \<open>spaced cap es\<close>: between any two calls of the handler for one key at least \<open>cap\<close> writes of the store lie.
  \<open>remembers\<close>: the key of every call is still in the store, until as many writes have followed.
\<close>

definition spaced :: "nat \<Rightarrow> effect list \<Rightarrow> bool" where
  "spaced cap es \<longleftrightarrow> (\<forall>before k between after.
     es = before @ Handled k # between @ Handled k # after \<longrightarrow> cap \<le> store_writes between)"

definition remembers :: "effect list \<Rightarrow> json idempotency_store \<Rightarrow> bool" where
  "remembers es store \<longleftrightarrow> (\<forall>before k since. es = before @ Handled k # since \<longrightarrow>
     idem_max store \<le> store_writes since \<or> idem.young (store_writes since) k store)"

definition claims_in_sync :: "nat \<Rightarrow> effect list \<Rightarrow> json idempotency_store \<Rightarrow> bool" where
  "claims_in_sync cap es store \<longleftrightarrow> idem_max store = cap \<and> idem.ring_wf store \<and> remembers es store \<and> spaced cap es"

abbreviation worker_in_sync :: "nat \<Rightarrow> 'a worker \<Rightarrow> bool" where
  "worker_in_sync cap w \<equiv> claims_in_sync cap (wk_effects w) (wk_idem w)"

lemma snoc_split:
  "es @ [e] = before @ x # since \<longleftrightarrow>
     (since = [] \<and> before = es \<and> x = e) \<or> (\<exists>since'. since = since' @ [e] \<and> es = before @ x # since')"
  by (cases since rule: rev_cases) auto

lemma spaced_snoc:
  assumes "spaced cap es" "\<And>k before since. e = Handled k \<Longrightarrow> es = before @ Handled k # since \<Longrightarrow> cap \<le> store_writes since"
  shows "spaced cap (es @ [e])"
  unfolding spaced_def
proof (intro allI impI)
  fix before k between after
  assume "es @ [e] = before @ Handled k # between @ Handled k # after"
  then have "es @ [e] = (before @ Handled k # between) @ Handled k # after" by simp
  then consider "e = Handled k" "es = before @ Handled k # between"
    | after' where "es = before @ Handled k # between @ Handled k # after'"
    unfolding snoc_split by auto
  then show "cap \<le> store_writes between"
    by cases (use assms in \<open>auto simp: spaced_def\<close>)
qed

lemma sync_plain:
  assumes "claims_in_sync cap es store" "\<not> is_store_write e"
  shows "claims_in_sync cap (es @ [e]) store"
proof -
  have "spaced cap (es @ [e])" using assms by (intro spaced_snoc) (auto simp: claims_in_sync_def)
  moreover have "remembers (es @ [e]) store"
    unfolding remembers_def snoc_split using assms by (fastforce simp: claims_in_sync_def remembers_def)
  ultimately show ?thesis using assms(1) by (simp add: claims_in_sync_def)
qed

lemma sync_plains:
  "claims_in_sync cap es store \<Longrightarrow> \<forall>e \<in> set es'. \<not> is_store_write e \<Longrightarrow> claims_in_sync cap (es @ es') store"
proof (induction es' rule: rev_induct)
  case (snoc e es')
  then show ?case using sync_plain [of cap "es @ es'" store e] by simp
qed simp

lemma remembersD:
  "claims_in_sync cap es store \<Longrightarrow> es = before @ Handled k # since \<Longrightarrow>
     cap \<le> store_writes since \<or> idem.young (store_writes since) k store"
  unfolding claims_in_sync_def remembers_def by blast

text \<open>One more write, and the calls so far are still remembered or far enough away.\<close>

lemma remembers_write:
  assumes "claims_in_sync cap es store" "is_store_write e"
    and "\<And>k. e = Handled k \<Longrightarrow> cap = 0 \<or> idem.young 0 k (idem_apply op store)"
  shows "remembers (es @ [e]) (idem_apply op store)"
  unfolding remembers_def
proof (intro allI impI)
  fix before k since
  have cap: "idem_max (idem_apply op store) = cap" "idem_max store = cap" "idem.ring_wf store"
    using assms(1) by (simp_all add: claims_in_sync_def idem.cap_ins del: idem_apply.simps)
  assume "es @ [e] = before @ Handled k # since"
  then consider "since = []" "e = Handled k" | since' where "since = since' @ [e]" "es = before @ Handled k # since'"
    unfolding snoc_split by auto
  then show "idem_max (idem_apply op store) \<le> store_writes since
      \<or> idem.young (store_writes since) k (idem_apply op store)"
  proof cases
    case 1
    with assms(3) cap show ?thesis by auto
  next
    case 2
    from remembersD [OF assms(1) 2(2)] idem.young_ins [OF cap(3), of "store_writes since'" k op]
    show ?thesis unfolding cap using 2(1) assms(2)
      by (cases "Suc (store_writes since') < cap") (auto simp del: idem_apply.simps)
  qed
qed

lemma sync_write:
  assumes "claims_in_sync cap es store"
  shows "claims_in_sync cap (es @ [Stored k]) (idem_apply op store)"
proof -
  have "spaced cap (es @ [Stored k])" using assms by (intro spaced_snoc) (auto simp: claims_in_sync_def)
  moreover have "remembers (es @ [Stored k]) (idem_apply op store)" by (rule remembers_write [OF assms]) simp_all
  ultimately show ?thesis
    using assms by (simp add: claims_in_sync_def idem.cap_ins idem.ring_wf_ins del: idem_apply.simps)
qed

lemma sync_writes:
  "claims_in_sync cap es store \<Longrightarrow>
     claims_in_sync cap (es @ map (\<lambda>op. Stored (idem_op_key op)) ops) (fold idem_apply ops store)"
proof (induction ops arbitrary: es store)
  case (Cons op ops)
  from Cons.IH [OF sync_write [OF Cons.prems]] show ?case by simp
qed simp

lemma sync_claim:
  assumes "claims_in_sync cap es store" "\<not> idem_exists k store"
  shows "claims_in_sync cap (es @ [Handled k]) (idem_apply (Claim k) store)"
proof -
  have new: "k \<notin> set (dict_keys (idem_data store))" using assms(2) by (simp add: idem_exists_def dict_has_keys)
  have "cap \<le> store_writes since" if "es = before @ Handled k # since" for before since
    using remembersD [OF assms(1) that] new idem.young_present [of "store_writes since" k store] by auto
  then have "spaced cap (es @ [Handled k])"
    using assms(1) by (intro spaced_snoc) (auto simp: claims_in_sync_def)
  moreover have "remembers (es @ [Handled k]) (idem_apply (Claim k) store)"
  proof (rule remembers_write [OF assms(1)])
    fix k' assume "Handled k = Handled k'"
    then show "cap = 0 \<or> idem.young 0 k' (idem_apply (Claim k) store)"
      using assms(1) new idem.young_fresh [of "Claim k" store] by (auto simp: claims_in_sync_def)
  qed simp
  ultimately show ?thesis
    using assms(1) by (simp add: claims_in_sync_def idem.cap_ins idem.ring_wf_ins del: idem_apply.simps)
qed

lemma process_in_sync:
  assumes "worker_in_sync cap w"
  shows "worker_in_sync cap (process_message parse env shared handle m w)"
proof (cases "authentic_envelope parse env shared m")
  case None
  with process_refused [OF None, of handle w] assms show ?thesis by (auto intro!: sync_plains)
next
  case (Some e)
  let ?k = "idem_key (wk_service w) e" and ?p = "PutState (qe_task_id e) ''processing'' JNull"
  show ?thesis
  proof (cases "idem_exists ?k (wk_idem w)")
    case True
    with process_duplicate [OF Some True, of handle] assms show ?thesis by (auto intro!: sync_plains)
  next
    case False
    have "claims_in_sync cap ((wk_effects w @ [?p]) @ [Handled ?k]) (idem_apply (Claim ?k) (wk_idem w))"
      using assms False by (intro sync_claim sync_plain) simp_all
    from sync_plains [OF sync_writes [OF this], of "outcome_effects (wk_service w) m e (fst (run_handler handle e w))"
        "handler_writes (run_handler handle e w)"] process_first [OF Some False, of handle]
    show ?thesis by (simp add: outcome_writes del: idem_apply.simps)
  qed
qed

lemma loop_step_in_sync:
  assumes "loop_step parse env shared handle s s'" "worker_in_sync cap (ls_worker s)"
  shows "worker_in_sync cap (ls_worker s')"
  using assms by (cases rule: loop_step.cases) (auto intro: process_in_sync sync_write)

lemma loop_steps_in_sync:
  "(loop_step parse env shared handle)\<^sup>*\<^sup>* s s' \<Longrightarrow> worker_in_sync cap (ls_worker s) \<Longrightarrow> worker_in_sync cap (ls_worker s')"
  by (induction rule: rtranclp_induct) (blast intro: loop_step_in_sync)+

text \<open>C6: Between two calls of the worker's handler for one idempotency key lie at least as many writes of the claim
  store as the store holds keys (10000 in production), whatever messages, redeliveries, failures and shutdown
  signals the run holds. Every write counts: the worker's own claims, the writes its handlers make to the
  same store and those of other code of the process. With fewer writes a key is handled at most once.\<close>

theorem handler_called_at_most_once:
  assumes "(loop_step parse env shared handle)\<^sup>*\<^sup>* (loop_start w) s"
    and "wk_idem w = idem_init cap" "wk_effects w = []"
    and "wk_effects (ls_worker s) = before @ Handled k # between @ Handled k # after"
  shows "cap \<le> store_writes between"
proof -
  have "worker_in_sync cap (ls_worker (loop_start w))"
    using assms(2,3) idem_init_wf [of cap]
    by (auto simp: claims_in_sync_def loop_start_def remembers_def spaced_def idem_init_def)
  from loop_steps_in_sync [OF assms(1) this] assms(4) show ?thesis by (auto simp: claims_in_sync_def spaced_def)
qed

text \<open>What is recorded, the writes of other code of the process aside.\<close>

definition worker_effects :: "'a worker \<Rightarrow> effect list" where
  "worker_effects w = filter (\<lambda>e. \<forall>k. e \<noteq> Stored k) (wk_effects w)"

lemma stopped_step:
  "loop_step parse env shared handle s s' \<Longrightarrow> wk_stop (ls_worker s) \<Longrightarrow>
     wk_stop (ls_worker s') \<and> worker_effects (ls_worker s') = worker_effects (ls_worker s)
       \<and> wk_app (ls_worker s') = wk_app (ls_worker s)"
  by (cases rule: loop_step.cases) (auto simp: worker_effects_def)

text \<open>Graceful shutdown: after the stop signal no message is handled, deleted or recorded by any continuation of
  the run, and from every state of the loop the stopped state is reached in at most two more steps.\<close>

theorem shutdown_is_quiet_and_reached:
  assumes "wk_stop (ls_worker s)"
  shows "((loop_step parse env shared handle)\<^sup>*\<^sup>* s s' \<longrightarrow>
      worker_effects (ls_worker s') = worker_effects (ls_worker s) \<and> wk_app (ls_worker s') = wk_app (ls_worker s))
    \<and> (\<exists>t. (loop_step parse env shared handle)\<^sup>*\<^sup>* s t \<and> ls_phase t = Stopped)"
proof
  have "(loop_step parse env shared handle)\<^sup>*\<^sup>* s s' \<Longrightarrow> wk_stop (ls_worker s')
      \<and> worker_effects (ls_worker s') = worker_effects (ls_worker s) \<and> wk_app (ls_worker s') = wk_app (ls_worker s)"
    by (induction rule: rtranclp_induct) (auto simp: assms dest!: stopped_step)
  then show "(loop_step parse env shared handle)\<^sup>*\<^sup>* s s' \<longrightarrow>
      worker_effects (ls_worker s') = worker_effects (ls_worker s) \<and> wk_app (ls_worker s') = wk_app (ls_worker s)" by blast
  have quit: "loop_step parse env shared handle u (u\<lparr>ls_phase := Stopped\<rparr>)"
    if "ls_phase u = Polling" "wk_stop (ls_worker u)" for u :: "'a loop_state"
    using that by (rule loop_step.Quit)
  show "\<exists>t. (loop_step parse env shared handle)\<^sup>*\<^sup>* s t \<and> ls_phase t = Stopped"
  proof (cases "ls_phase s")
    case Polling
    have "(loop_step parse env shared handle)\<^sup>*\<^sup>* s (s\<lparr>ls_phase := Stopped\<rparr>)"
      using quit [OF Polling assms] by (rule r_into_rtranclp)
    then show ?thesis by (intro exI conjI) auto
  next
    case (Draining ms)
    let ?u = "s\<lparr>ls_phase := Polling\<rparr>"
    have "loop_step parse env shared handle s ?u" using Draining assms by (rule loop_step.Interrupted)
    moreover have "loop_step parse env shared handle ?u (?u\<lparr>ls_phase := Stopped\<rparr>)"
      by (rule quit) (simp_all add: assms)
    ultimately have "(loop_step parse env shared handle)\<^sup>*\<^sup>* s (?u\<lparr>ls_phase := Stopped\<rparr>)"
      by (meson converse_rtranclp_into_rtranclp r_into_rtranclp)
    then show ?thesis by (intro exI conjI) auto
  qed auto
qed

section \<open>Witnesses: a CRM worker in audit mode whose handler always fails\<close>

definition w_task :: "string \<Rightarrow> queue_envelope" where
  "w_task t = \<lparr>qe_task_id = t, qe_service = ''crm'', qe_action = ''create_task'', qe_trace_id = None,
     qe_idempotency_key = None, qe_payload = [], qe_metadata = [], qe_hmac = None, qe_action_budget = None\<rparr>"

definition w_parse :: "string \<Rightarrow> queue_envelope option" where
  "w_parse body = (if body = [] then None else Some (w_task body))"

definition w_failing :: "nat handler" where
  "w_failing e stop ctx n store = (HandlerRaised ''boom'', Suc n, [Put ''job'' (Some JNull)])"

definition w_worker :: "nat worker" where
  "w_worker = \<lparr>wk_service = ''crm'', wk_accepts_stop = True, wk_accepts_context = True, wk_stop = False,
     wk_idem = idem_init 3, wk_app = 0, wk_effects = []\<rparr>"

definition w_delivery :: "string \<Rightarrow> string \<Rightarrow> string \<Rightarrow> sqs_message" where
  "w_delivery receipt body attempts =
     \<lparr>sm_receipt = receipt, sm_body = body, sm_attributes = [(''ApproximateReceiveCount'', attempts)]\<rparr>"

lemma w_audit_mode: "fst (check_message_authenticity (\<lambda>_. None) ''k'' (w_task t))"
proof -
  have "\<not> enforce_hmac (\<lambda>_. None)" by code_simp
  then show ?thesis
    by (simp add: check_message_authenticity_def verify_envelope_def w_task_def str_or_empty_def)
qed

lemma w_authentic: "t \<noteq> [] \<Longrightarrow> authentic_envelope w_parse (\<lambda>_. None) ''k'' (w_delivery r t c) = Some (w_task t)"
  using w_audit_mode [of t] by (simp add: authentic_envelope_def w_parse_def w_delivery_def)

lemma w_counts: "receive_count (w_delivery r t ''1'') = 1" "receive_count (w_delivery r t ''5'') = 5"
proof -
  have "py_int ''1'' = Some 1" "py_int ''5'' = Some 5" by code_simp+
  then show "receive_count (w_delivery r t ''1'') = 1" "receive_count (w_delivery r t ''5'') = 5"
    by (simp_all add: receive_count_def w_delivery_def)
qed

lemma w_fresh: "\<not> idem_exists k (wk_idem w_worker)"
  by (simp add: idem_exists_def w_worker_def idem_init_def dict_has_def)

lemma w_raises: "fst (run_handler w_failing e w) = HandlerRaised ''boom''"
  by (simp add: run_handler_def w_failing_def)

abbreviation w_process :: "sqs_message \<Rightarrow> nat worker \<Rightarrow> nat worker" where
  "w_process \<equiv> process_message w_parse (\<lambda>_. None) ''k'' w_failing"

lemma w_first:
  assumes "t \<noteq> []" "c = ''1''" "wk_service w = ''crm''" "\<not> idem_exists (''crm:'' @ t) (wk_idem w)"
  shows "wk_effects (w_process (w_delivery r t c) w) = wk_effects w @
      [PutState t ''processing'' JNull, Handled (''crm:'' @ t), Stored ''job'']
        @ outcome_effects ''crm'' (w_delivery r t c) (w_task t) (HandlerRaised ''boom'')"
    and "wk_app (w_process (w_delivery r t c) w) = Suc (wk_app w)"
    and "wk_idem (w_process (w_delivery r t c) w)
      = idem_apply (Put ''job'' (Some JNull)) (idem_apply (Claim (''crm:'' @ t)) (wk_idem w))"
proof -
  have key: "idem_key (wk_service w) (w_task t) = ''crm:'' @ t"
    by (simp add: idem_key_def w_task_def str_or_empty_def py_or_def assms(3))
  with assms(4) have fresh: "\<not> idem_exists (idem_key (wk_service w) (w_task t)) (wk_idem w)" by simp
  note run = process_first [OF w_authentic [OF assms(1)] fresh, of w_failing r c]
  show "wk_effects (w_process (w_delivery r t c) w) = wk_effects w @
      [PutState t ''processing'' JNull, Handled (''crm:'' @ t), Stored ''job'']
        @ outcome_effects ''crm'' (w_delivery r t c) (w_task t) (HandlerRaised ''boom'')"
    unfolding run key by (simp add: run_handler_def w_failing_def assms(3) w_task_def [of t])
  show "wk_app (w_process (w_delivery r t c) w) = Suc (wk_app w)"
    unfolding run key by (simp add: run_handler_def w_failing_def)
  show "wk_idem (w_process (w_delivery r t c) w)
      = idem_apply (Put ''job'' (Some JNull)) (idem_apply (Claim (''crm:'' @ t)) (wk_idem w))"
    unfolding run key by (simp add: run_handler_def w_failing_def del: idem_apply.simps)
qed

theorem failed_message_is_lost_witness:
  "wk_app (process_message w_parse (\<lambda>_. None) ''k'' w_failing (w_delivery ''r2'' ''t1'' ''5'')
     (process_message w_parse (\<lambda>_. None) ''k'' w_failing (w_delivery ''r1'' ''t1'' ''1'') w_worker)) = 1"
proof -
  let ?w' = "w_process (w_delivery ''r1'' ''t1'' ''1'') w_worker"
  have t: "''t1'' \<noteq> []" by simp
  have crm: "wk_service w_worker = ''crm''" by (simp add: w_worker_def)
  note first = w_first [OF t refl crm w_fresh, of "''r1''"]
  have wf: "idem.ring_wf (wk_idem w_worker)" by (simp add: w_worker_def idem_init_wf)
  have few: "store_writes (drop (length (wk_effects w_worker)) (wk_effects ?w')) \<le> idem_max (wk_idem w_worker)"
    unfolding first(1) by (simp add: w_worker_def idem_init_def del: outcome_effects.simps)
  have "wk_app (w_process (w_delivery ''r2'' ''t1'' ''5'') ?w') = wk_app ?w'"
    using failed_message_is_lost [OF wf w_authentic [OF t] w_fresh w_raises _ _ few w_authentic [OF t],
        of "''r1''" "''1''" "[]" "''r2''" "''5''"]
    by (simp add: w_counts MAX_HANDLER_ATTEMPTS_def process_all_def)
  then show ?thesis by (simp add: first(2)) (simp add: w_worker_def)
qed

theorem handled_message_disposition_witness:
  "\<exists>es. wk_effects (process_message w_parse (\<lambda>_. None) ''k'' w_failing (w_delivery ''r1'' ''t1'' ''5'') w_worker) = es
     \<and> DeleteMessage ''r1'' \<in> set es"
proof -
  have t: "''t1'' \<noteq> []" by simp
  have "valid_service (wk_service w_worker)" unfolding w_worker_def by code_simp
  from handled_message_disposition [OF w_authentic [OF t] w_fresh this, of w_failing "''r1''" "''5''"]
  obtain es where es: "wk_effects (process_message w_parse (\<lambda>_. None) ''k'' w_failing (w_delivery ''r1'' ''t1'' ''5'') w_worker)
      = wk_effects w_worker @ es" "DeleteMessage (sm_receipt (w_delivery ''r1'' ''t1'' ''5'')) \<in> set es"
    by (auto simp: w_counts MAX_HANDLER_ATTEMPTS_def)
  then show ?thesis by (simp add: w_delivery_def [of "''r1''"] w_worker_def)
qed

text \<open>
  A claim store of two keys: the handler of each message writes a key of its own, so the first message's
  claim is gone when its redelivery arrives, and it is handled again.
\<close>

definition w_small :: "nat worker" where
  "w_small = w_worker\<lparr>wk_idem := idem_init 2\<rparr>"

definition w_batch :: "sqs_message list" where
  "w_batch = [w_delivery ''r1'' ''t1'' ''1'', w_delivery ''r2'' ''t2'' ''1'', w_delivery ''r3'' ''t1'' ''1'']"

lemma loop_drains:
  "\<not> wk_stop (ls_worker s) \<Longrightarrow> ls_phase s = Draining (ms @ rest) \<Longrightarrow>
     (loop_step parse env shared handle)\<^sup>*\<^sup>* s
       (s\<lparr>ls_phase := Draining rest, ls_worker := process_all parse env shared handle ms (ls_worker s)\<rparr>)"
proof (induction ms arbitrary: s)
  case Nil
  then have "s\<lparr>ls_phase := Draining rest\<rparr> = s" by simp
  then show ?case by (simp add: process_all_def)
next
  case (Cons m ms)
  let ?u = "s\<lparr>ls_phase := Draining (ms @ rest), ls_worker := process_message parse env shared handle m (ls_worker s)\<rparr>"
  have "loop_step parse env shared handle s ?u" using Cons.prems by (auto intro: loop_step.Process)
  moreover have "(loop_step parse env shared handle)\<^sup>*\<^sup>* ?u
      (?u\<lparr>ls_phase := Draining rest, ls_worker := process_all parse env shared handle ms (ls_worker ?u)\<rparr>)"
    using Cons.prems by (intro Cons.IH) simp_all
  ultimately show ?case by (simp add: process_all_def converse_rtranclp_into_rtranclp)
qed

lemma w_loop:
  "(loop_step w_parse (\<lambda>_. None) ''k'' w_failing)\<^sup>*\<^sup>* (loop_start w_small)
     \<lparr>ls_phase = Draining [], ls_throttle = on_work default_throttle,
        ls_worker = process_all w_parse (\<lambda>_. None) ''k'' w_failing w_batch w_small\<rparr>"
proof -
  let ?s = "loop_start w_small"
  let ?u = "?s\<lparr>ls_phase := Draining (w_batch @ []), ls_throttle := on_work default_throttle\<rparr>"
  have "loop_step w_parse (\<lambda>_. None) ''k'' w_failing ?s ?u"
    using loop_step.ReceiveBatch [of ?s w_batch w_parse "\<lambda>_. None" "''k''" w_failing]
    by (simp add: loop_start_def w_small_def w_worker_def w_batch_def)
  moreover have "(loop_step w_parse (\<lambda>_. None) ''k'' w_failing)\<^sup>*\<^sup>* ?u
      (?u\<lparr>ls_phase := Draining [], ls_worker := process_all w_parse (\<lambda>_. None) ''k'' w_failing w_batch (ls_worker ?u)\<rparr>)"
    by (rule loop_drains) (simp_all add: loop_start_def w_small_def w_worker_def)
  ultimately show ?thesis by (auto simp: loop_start_def intro: converse_rtranclp_into_rtranclp)
qed

lemma w_handled_again:
  "\<exists>p q r. wk_effects (process_all w_parse (\<lambda>_. None) ''k'' w_failing w_batch w_small)
     = p @ Handled ''crm:t1'' # ([Stored ''job''] @ q @ [Handled ''crm:t2'', Stored ''job''] @ r) @ Handled ''crm:t1''
         # Stored ''job'' # outcome_effects ''crm'' (w_delivery ''r3'' ''t1'' ''1'') (w_task ''t1'') (HandlerRaised ''boom'')
     \<and> store_writes q = 0 \<and> store_writes r = 0"
proof -
  let ?v1 = "w_process (w_delivery ''r1'' ''t1'' ''1'') w_small"
  let ?v2 = "w_process (w_delivery ''r2'' ''t2'' ''1'') ?v1"
  have crm: "wk_service w_small = ''crm''" by (simp add: w_small_def w_worker_def)
  have "\<not> idem_exists (''crm:'' @ ''t1'') (wk_idem w_small)" by (simp add: w_small_def idem_exists_def idem_init_def dict_has_def)
  then have one: "wk_effects ?v1 = [PutState ''t1'' ''processing'' JNull, Handled ''crm:t1'', Stored ''job'']
      @ outcome_effects ''crm'' (w_delivery ''r1'' ''t1'' ''1'') (w_task ''t1'') (HandlerRaised ''boom'')"
    "wk_idem ?v1 = idem_apply (Put ''job'' (Some JNull)) (idem_apply (Claim ''crm:t1'') (idem_init 2))"
    using w_first [of "''t1''" "''1''" w_small "''r1''"] crm by (simp_all add: w_small_def w_worker_def del: idem_apply.simps outcome_effects.simps)
  have s1: "idem_data (wk_idem ?v1) = [(''crm:t1'', None), (''job'', Some JNull)]" "idem_max (wk_idem ?v1) = 2"
    unfolding one(2) by (simp_all add: idem_unfold idem_init_def dict_has_def od_move_to_end_def)
  have "\<not> idem_exists (''crm:'' @ ''t2'') (wk_idem ?v1)" by (simp add: idem_exists_def s1 dict_has_def)
  then have two: "wk_effects ?v2 = wk_effects ?v1 @ [PutState ''t2'' ''processing'' JNull, Handled ''crm:t2'', Stored ''job'']
      @ outcome_effects ''crm'' (w_delivery ''r2'' ''t2'' ''1'') (w_task ''t2'') (HandlerRaised ''boom'')"
    "wk_idem ?v2 = idem_apply (Put ''job'' (Some JNull)) (idem_apply (Claim ''crm:t2'') (wk_idem ?v1))"
    using w_first [of "''t2''" "''1''" ?v1 "''r2''"] crm by (simp_all del: idem_apply.simps outcome_effects.simps)
  have "idem_data (wk_idem ?v2) = [(''crm:t2'', None), (''job'', Some JNull)]"
    unfolding two(2) by (simp add: idem_unfold s1 dict_has_def od_move_to_end_def)
  then have "\<not> idem_exists (''crm:'' @ ''t1'') (wk_idem ?v2)" by (simp add: idem_exists_def dict_has_def)
  then have "wk_effects (process_all w_parse (\<lambda>_. None) ''k'' w_failing w_batch w_small)
      = wk_effects ?v2 @ [PutState ''t1'' ''processing'' JNull, Handled ''crm:t1'', Stored ''job'']
        @ outcome_effects ''crm'' (w_delivery ''r3'' ''t1'' ''1'') (w_task ''t1'') (HandlerRaised ''boom'')"
    using w_first [of "''t1''" "''1''" ?v2 "''r3''"] crm by (simp add: process_all_def w_batch_def del: outcome_effects.simps)
  then show ?thesis
    unfolding two(1) one(1)
    by (intro exI [of _ "[PutState ''t1'' ''processing'' JNull]"]
        exI [of _ "outcome_effects ''crm'' (w_delivery ''r1'' ''t1'' ''1'') (w_task ''t1'') (HandlerRaised ''boom'')
          @ [PutState ''t2'' ''processing'' JNull]"]
        exI [of _ "outcome_effects ''crm'' (w_delivery ''r2'' ''t2'' ''1'') (w_task ''t2'') (HandlerRaised ''boom'')
          @ [PutState ''t1'' ''processing'' JNull]"]) (simp del: outcome_effects.simps)
qed

theorem handler_called_at_most_once_witness:
  "\<exists>q r. store_writes q = 0 \<and> store_writes r = 0
     \<and> 2 \<le> store_writes ([Stored ''job''] @ q @ [Handled ''crm:t2'', Stored ''job''] @ r)"
proof -
  have init: "wk_idem w_small = idem_init 2" "wk_effects w_small = []" by (simp_all add: w_small_def w_worker_def)
  from w_handled_again obtain p q r where again:
    "wk_effects (process_all w_parse (\<lambda>_. None) ''k'' w_failing w_batch w_small)
     = p @ Handled ''crm:t1'' # ([Stored ''job''] @ q @ [Handled ''crm:t2'', Stored ''job''] @ r) @ Handled ''crm:t1''
         # Stored ''job'' # outcome_effects ''crm'' (w_delivery ''r3'' ''t1'' ''1'') (w_task ''t1'') (HandlerRaised ''boom'')"
    and "store_writes q = 0" "store_writes r = 0" by blast
  moreover have "2 \<le> store_writes ([Stored ''job''] @ q @ [Handled ''crm:t2'', Stored ''job''] @ r)"
    by (rule handler_called_at_most_once [OF w_loop init]) (simp only: loop_state.simps again)
  ultimately show ?thesis by blast
qed

theorem shutdown_is_quiet_and_reached_witness:
  "\<exists>t. (loop_step w_parse (\<lambda>_. None) ''k'' w_failing)\<^sup>*\<^sup>*
     ((loop_start w_worker)\<lparr>ls_worker := w_worker\<lparr>wk_stop := True\<rparr>\<rparr>) t \<and> ls_phase t = Stopped"
  using shutdown_is_quiet_and_reached [of "(loop_start w_worker)\<lparr>ls_worker := w_worker\<lparr>wk_stop := True\<rparr>\<rparr>"]
  by auto

end
