(* ===== verification/Dlq_Replay.thy ===== *)
theory Dlq_Replay
  imports Ring_Store
begin

text \<open>
  Replay of the gateway's dead letters: \<open>common/replay_worker.py\<close> over the failure store and
  archive of \<open>common/dlq.py\<close>. The failure ledger is the list of its records, oldest first; the
  signed HTTP call is an argument that works on a state of its own. The lemmas show that replay is
  idempotent within a process, and that this rests on the in-memory store alone: the archive of
  status transitions is never read back.
\<close>

record dlq_item =
  di_event_id :: string
  di_target :: string
  di_payload :: "(string \<times> json) list"

record 'w replay_state =
  rs_failures :: "dlq_item list"
  rs_archive :: "(string \<times> string) list"
  rs_idem :: "bool idempotency_store"
  rs_posts :: "(string \<times> (string \<times> json) list) list"
  rs_world :: 'w

datatype replay_outcome =
    Skipped string string
  | Replayed string
  | ReplayFailed string string

type_synonym 'w http_post = "string \<Rightarrow> (string \<times> json) list \<Rightarrow> 'w \<Rightarrow> (string + int) \<times> 'w"

definition read_pending :: "nat \<Rightarrow> 'w replay_state \<Rightarrow> dlq_item list" where
  "read_pending limit s = drop (length (rs_failures s) - limit) (rs_failures s)"

definition mark_replayed :: "string \<Rightarrow> string \<Rightarrow> 'w replay_state \<Rightarrow> 'w replay_state" where
  "mark_replayed event_id status s = s\<lparr>rs_archive := rs_archive s @ [(event_id, status)]\<rparr>"

definition replay_key :: "string \<Rightarrow> string" where
  "replay_key event_id = ''replay:'' @ event_id"

definition replay_one ::
  "(string \<times> string) list \<Rightarrow> 'w http_post \<Rightarrow> dlq_item \<Rightarrow> 'w replay_state \<Rightarrow> replay_outcome \<times> 'w replay_state" where
  "replay_one urls post item s =
     (let event_id = di_event_id item; target = di_target item
      in if event_id = [] \<or> target = [] then (Skipped event_id ''missing event_id or target'', s)
         else if idem_exists (replay_key event_id) (rs_idem s) then (Skipped event_id ''already replayed'', s)
         else let base_url = dict_get urls target []
              in if base_url = [] then (Skipped event_id ''unknown target'', mark_replayed event_id ''skipped'' s)
                 else let (resp, world) = post base_url (di_payload item) (rs_world s);
                          s' = s\<lparr>rs_world := world, rs_posts := rs_posts s @ [(base_url, di_payload item)]\<rparr>
                      in (case resp of
                            Inl err \<Rightarrow> (ReplayFailed event_id err, mark_replayed event_id ''replay_failed'' s')
                          | Inr status \<Rightarrow>
                              if status < 400
                              then (Replayed event_id,
                                    mark_replayed event_id ''replayed''
                                      (s'\<lparr>rs_idem := idem_set (replay_key event_id) (Some True) (rs_idem s')\<rparr>))
                              else (ReplayFailed event_id (''upstream '' @ show_int status),
                                    mark_replayed event_id ''replay_failed'' s')))"

fun replay_items ::
  "(string \<times> string) list \<Rightarrow> 'w http_post \<Rightarrow> dlq_item list \<Rightarrow> 'w replay_state
     \<Rightarrow> replay_outcome list \<times> 'w replay_state" where
  "replay_items urls post [] s = ([], s)"
| "replay_items urls post (i # is) s =
     (let (r, s1) = replay_one urls post i s; (rs, s2) = replay_items urls post is s1 in (r # rs, s2))"

definition replay_gateway_dlq ::
  "(string \<times> string) list \<Rightarrow> 'w http_post \<Rightarrow> nat \<Rightarrow> 'w replay_state \<Rightarrow> replay_outcome list \<times> 'w replay_state" where
  "replay_gateway_dlq urls post limit s = replay_items urls post (read_pending limit s) s"

text \<open>A new process has the ledgers of the old one and an empty idempotency store.\<close>

definition restart :: "nat \<Rightarrow> 'w replay_state \<Rightarrow> 'w replay_state" where
  "restart cap s = s\<lparr>rs_idem := idem_init cap\<rparr>"

section \<open>Within a process\<close>

lemma replay_one_failures [simp]: "rs_failures (snd (replay_one urls post i s)) = rs_failures s"
  by (auto simp: replay_one_def mark_replayed_def Let_def split: prod.splits sum.splits)

lemma replay_items_failures [simp]: "rs_failures (snd (replay_items urls post is s)) = rs_failures s"
proof (induction "is" arbitrary: s)
  case (Cons i "is")
  from Cons.IH [of "snd (replay_one urls post i s)"] show ?case
    by (simp add: case_prod_beta Let_def)
qed simp

lemma replay_one_idem:
  "rs_idem (snd (replay_one urls post i s)) =
     (case fst (replay_one urls post i s) of
        Replayed k \<Rightarrow> idem_apply (Put (replay_key k) (Some True)) (rs_idem s) | _ \<Rightarrow> rs_idem s)"
  by (auto simp: replay_one_def mark_replayed_def Let_def split: prod.splits sum.splits)

lemma replay_one_event:
  "fst (replay_one urls post i s) \<in> {Skipped (di_event_id i) r | r. True} \<union> {Replayed (di_event_id i)}
     \<union> {ReplayFailed (di_event_id i) r | r. True}"
  by (auto simp: replay_one_def Let_def split: prod.splits sum.splits)

lemma replay_one_done:
  assumes "fst (replay_one urls post i s) = Replayed k" "0 < idem_max (rs_idem s)"
  shows "k = di_event_id i \<and> idem_exists (replay_key k) (rs_idem (snd (replay_one urls post i s)))"
proof -
  have k: "k = di_event_id i" using replay_one_event [of urls post i s] assms(1) by auto
  have keys: "dict_keys (idem_data (idem_set (replay_key k) v (rs_idem s)))
      = od_evict (idem_max (rs_idem s)) (filter (\<lambda>x. x \<noteq> replay_key k) (dict_keys (idem_data (rs_idem s))) @ [replay_key k])"
    for v by (auto simp: idem_set_def map_keys intro!: arg_cong [where f = "od_evict _"])
  have "replay_key k \<in> set (dict_keys (idem_data (idem_set (replay_key k) (Some True) (rs_idem s))))"
    unfolding keys using assms(2) by (simp add: od_evict_append1)
  then show ?thesis
    using assms(1) k by (simp add: replay_one_idem idem_exists_def dict_has_keys)
qed

lemma skip_present:
  "di_event_id i \<noteq> [] \<Longrightarrow> di_target i \<noteq> [] \<Longrightarrow> idem_exists (replay_key (di_event_id i)) (rs_idem s) \<Longrightarrow>
     replay_one urls post i s = (Skipped (di_event_id i) ''already replayed'', s)"
  by (simp add: replay_one_def)

text \<open>Replay of a dead letter is idempotent within a process: once an item has been delivered, replaying it
  again right away sends nothing and changes no state.\<close>

theorem replayed_item_is_skipped:
  assumes "replay_one urls post i s = (Replayed k, s')" "0 < idem_max (rs_idem s)"
  shows "replay_one urls post i s' = (Skipped (di_event_id i) ''already replayed'', s')"
proof -
  have "di_event_id i \<noteq> [] \<and> di_target i \<noteq> []"
    using assms(1) by (auto simp: replay_one_def Let_def split: if_splits)
  then show ?thesis
    using replay_one_done [of urls post i s k] assms by (auto intro: skip_present)
qed

text \<open>The archive is written but never consulted: after an item has been delivered and archived as replayed,
  the pending list still contains it, and a replay in a new process delivers it a second time.\<close>

theorem delivered_item_is_posted_again:
  assumes "replay_one urls post i s = (Replayed k, s')" "i \<in> set (read_pending limit s)"
  shows "(k, ''replayed'') \<in> set (rs_archive s') \<and> i \<in> set (read_pending limit (restart cap s'))
    \<and> (\<exists>url. rs_posts (snd (replay_one urls post i (restart cap s'))) = rs_posts s' @ [(url, di_payload i)])"
proof -
  have s': "s' = snd (replay_one urls post i s)" using assms(1) by simp
  have k: "(k, ''replayed'') \<in> set (rs_archive s')"
    using assms(1) by (auto simp: replay_one_def mark_replayed_def Let_def split: if_splits prod.splits sum.splits)
  have item: "di_event_id i \<noteq> []" "di_target i \<noteq> []" "dict_get urls (di_target i) [] \<noteq> []"
    using assms(1) by (auto simp: replay_one_def Let_def split: if_splits)
  have "rs_failures (restart cap s') = rs_failures s" by (simp add: restart_def s')
  then have pending: "i \<in> set (read_pending limit (restart cap s'))" using assms(2) by (simp add: read_pending_def)
  have "\<not> idem_exists (replay_key (di_event_id i)) (rs_idem (restart cap s'))"
    by (simp add: restart_def idem_init_def idem_exists_def dict_has_def)
  with item have "rs_posts (snd (replay_one urls post i (restart cap s')))
      = rs_posts (restart cap s') @ [(dict_get urls (di_target i) [], di_payload i)]"
    by (auto simp: replay_one_def mark_replayed_def Let_def split: prod.splits sum.splits)
  with k pending show ?thesis by (auto simp: restart_def)
qed

section \<open>Witnesses\<close>

definition w_item :: dlq_item where
  "w_item = \<lparr>di_event_id = ''e1'', di_target = ''crm'', di_payload = []\<rparr>"

definition w_post :: "unit http_post" where
  "w_post url payload w = (Inr 200, w)"

definition w_replay :: "unit replay_state" where
  "w_replay = \<lparr>rs_failures = [w_item], rs_archive = [], rs_idem = idem_init 3, rs_posts = [], rs_world = ()\<rparr>"

lemma w_replayed:
  "replay_one [(''crm'', ''http://crm'')] w_post w_item w_replay
     = (Replayed ''e1'', snd (replay_one [(''crm'', ''http://crm'')] w_post w_item w_replay))"
  by code_simp

theorem replayed_item_is_skipped_witness:
  "fst (replay_one [(''crm'', ''http://crm'')] w_post w_item
     (snd (replay_one [(''crm'', ''http://crm'')] w_post w_item w_replay))) = Skipped ''e1'' ''already replayed''"
proof -
  have "0 < idem_max (rs_idem w_replay)" by code_simp
  from replayed_item_is_skipped [OF w_replayed this] show ?thesis by (simp add: w_item_def)
qed

theorem delivered_item_is_posted_again_witness:
  "w_item \<in> set (read_pending 25 (restart 3 (snd (replay_one [(''crm'', ''http://crm'')] w_post w_item w_replay))))"
proof -
  have "w_item \<in> set (read_pending 25 w_replay)" by (simp add: w_replay_def read_pending_def)
  from delivered_item_is_posted_again [OF w_replayed this] show ?thesis by blast
qed

end
