(* ===== verification/Dag.thy ===== *)
theory Dag
  imports Prelude
begin

text \<open>
  The fulfilment planner and executor, \<open>fulfillment/dag.py\<close>: the plan and its steps, the builder,
  serialisation, validation (with the depth-first cycle check), the topological order (Kahn), result
  ingestion and the sequential executor. A step of a plan is a Python object shared by the list of
  steps and by the topological order; the order is a list of step ids here, and the step is looked up in the plan,
  which is the same object because the executor runs on plans with distinct ids only. The random
  suffix of a plan id and the signed HTTP post are arguments.
\<close>

section \<open>Plans\<close>

record plan_step =
  ps_id :: string
  ps_type :: string
  ps_depends_on :: "string list"
  ps_payload :: "(string \<times> json) list"
  ps_retryable :: bool
  ps_timeout_sec :: "int option"
  ps_status :: string

record fulfillment_plan =
  fp_plan_id :: string
  fp_task_id :: string
  fp_steps :: "plan_step list"
  fp_risk :: "(string \<times> json) list"
  fp_artifacts :: "json list"
  fp_status :: string

definition STEP_PENDING :: string where "STEP_PENDING = ''pending''"
definition STEP_RUNNING :: string where "STEP_RUNNING = ''running''"
definition STEP_DONE :: string where "STEP_DONE = ''done''"
definition STEP_FAILED :: string where "STEP_FAILED = ''failed''"
definition STEP_SKIPPED :: string where "STEP_SKIPPED = ''skipped''"

definition PLAN_PLANNED :: string where "PLAN_PLANNED = ''planned''"
definition PLAN_RUNNING :: string where "PLAN_RUNNING = ''running''"
definition PLAN_COMPLETE :: string where "PLAN_COMPLETE = ''complete''"
definition PLAN_FAILED :: string where "PLAN_FAILED = ''failed''"

lemmas step_status_defs = STEP_PENDING_def STEP_RUNNING_def STEP_DONE_def STEP_FAILED_def STEP_SKIPPED_def
lemmas plan_status_defs = PLAN_PLANNED_def PLAN_RUNNING_def PLAN_COMPLETE_def PLAN_FAILED_def

definition TERMINAL_STEP_STATUSES :: "string list" where
  "TERMINAL_STEP_STATUSES = [STEP_DONE, STEP_FAILED, STEP_SKIPPED]"

text \<open>\<open>PlanStep(id, type, depends_on, payload)\<close> with the defaults of the dataclass.\<close>

definition new_step :: "string \<Rightarrow> string \<Rightarrow> string list \<Rightarrow> (string \<times> json) list \<Rightarrow> plan_step" where
  "new_step sid typ deps payload =
     \<lparr>ps_id = sid, ps_type = typ, ps_depends_on = deps, ps_payload = payload, ps_retryable = True,
      ps_timeout_sec = None, ps_status = STEP_PENDING\<rparr>"

section \<open>The builder\<close>

text \<open>An entry of \<open>payload["actions"]\<close>: its type, if it has one, and its payload.\<close>

record plan_action =
  pa_type :: "string option"
  pa_payload :: "(string \<times> json) list"

definition action_id :: "string \<Rightarrow> nat \<Rightarrow> string" where
  "action_id plan_id idx = plan_id @ '':action_'' @ show_nat idx"

fun action_steps :: "string \<Rightarrow> string \<Rightarrow> nat \<Rightarrow> plan_action list \<Rightarrow> plan_step list" where
  "action_steps plan_id prepare_id idx [] = []"
| "action_steps plan_id prepare_id idx (a # as) =
     new_step (action_id plan_id idx)
       (py_or (case pa_type a of None \<Rightarrow> [] | Some t \<Rightarrow> t) (''fulfillment.action_'' @ show_nat idx))
       [prepare_id] (pa_payload a)
     # action_steps plan_id prepare_id (Suc idx) as"

definition build_execution_graph_v2 ::
  "string \<Rightarrow> string \<Rightarrow> plan_action list \<Rightarrow> (string \<times> json) list \<Rightarrow> fulfillment_plan" where
  "build_execution_graph_v2 hex8 task_id actions risk =
     (let plan_id = ''plan_'' @ task_id @ ''_'' @ hex8;
          validate_id = plan_id @ '':validate_inputs'';
          prepare_id = plan_id @ '':prepare_assets'';
          acts = action_steps plan_id prepare_id 1 actions;
          action_step_ids = map ps_id acts;
          verify_depends = (if action_step_ids \<noteq> [] then action_step_ids else [prepare_id])
      in \<lparr>fp_plan_id = plan_id, fp_task_id = task_id,
          fp_steps =
            [new_step validate_id ''fulfillment.validate_inputs'' [] [],
             new_step prepare_id ''fulfillment.prepare_assets'' [validate_id] []]
            @ acts
            @ [new_step (plan_id @ '':verify_output'') ''fulfillment.verify_output'' verify_depends []],
          fp_risk = risk, fp_artifacts = [], fp_status = PLAN_PLANNED\<rparr>)"

section \<open>Serialisation\<close>

definition opt_int_json :: "int option \<Rightarrow> json" where
  "opt_int_json v = (case v of None \<Rightarrow> JNull | Some i \<Rightarrow> JInt i)"

definition step_to_dict :: "plan_step \<Rightarrow> json" where
  "step_to_dict s = JObj
     [(''id'', JStr (ps_id s)), (''type'', JStr (ps_type s)),
      (''depends_on'', JList (map JStr (ps_depends_on s))), (''payload'', JObj (ps_payload s)),
      (''retryable'', JBool (ps_retryable s)), (''timeout_sec'', opt_int_json (ps_timeout_sec s)),
      (''status'', JStr (ps_status s))]"

definition plan_to_dict :: "fulfillment_plan \<Rightarrow> json" where
  "plan_to_dict p = JObj
     [(''plan_id'', JStr (fp_plan_id p)), (''task_id'', JStr (fp_task_id p)),
      (''steps'', JList (map step_to_dict (fp_steps p))), (''risk'', JObj (fp_risk p)),
      (''artifacts'', JList (fp_artifacts p)), (''status'', JStr (fp_status p))]"

text \<open>
  Reading: a missing required key or a value of another shape than the writer's is \<^const>\<open>None\<close>
  (Python raises or coerces); falsy values of the optional keys fall back to the defaults as in the code.
\<close>

fun json_str :: "json \<Rightarrow> string option" where
  "json_str (JStr s) = Some s"
| "json_str _ = None"

fun json_strs :: "json list \<Rightarrow> string list option" where
  "json_strs [] = Some []"
| "json_strs (v # vs) = (case (json_str v, json_strs vs) of (Some s, Some ss) \<Rightarrow> Some (s # ss) | _ \<Rightarrow> None)"

fun json_list :: "json \<Rightarrow> json list option" where
  "json_list (JList vs) = Some vs"
| "json_list v = (if json_truthy v then None else Some [])"

fun json_obj :: "json \<Rightarrow> (string \<times> json) list option" where
  "json_obj (JObj kvs) = Some kvs"
| "json_obj v = (if json_truthy v then None else Some [])"

fun json_opt_int :: "json \<Rightarrow> int option option" where
  "json_opt_int JNull = Some None"
| "json_opt_int (JInt i) = Some (Some i)"
| "json_opt_int _ = None"

definition step_from_dict :: "json \<Rightarrow> plan_step option" where
  "step_from_dict j = (case j of
     JObj d \<Rightarrow>
       (case (map_of d ''id'', map_of d ''type'') of
          (Some i, Some t) \<Rightarrow>
            (case (json_str i, json_str t,
                   Option.bind (json_list (dict_get d ''depends_on'' JNull)) json_strs,
                   json_obj (dict_get d ''payload'' JNull),
                   json_opt_int (dict_get d ''timeout_sec'' JNull),
                   json_str (dict_get d ''status'' (JStr STEP_PENDING))) of
               (Some sid, Some typ, Some deps, Some payload, Some timeout, Some status) \<Rightarrow>
                 Some \<lparr>ps_id = sid, ps_type = typ, ps_depends_on = deps, ps_payload = payload,
                       ps_retryable = json_truthy (dict_get d ''retryable'' (JBool True)),
                       ps_timeout_sec = timeout, ps_status = status\<rparr>
             | _ \<Rightarrow> None)
        | _ \<Rightarrow> None)
   | _ \<Rightarrow> None)"

fun steps_from_dicts :: "json list \<Rightarrow> plan_step list option" where
  "steps_from_dicts [] = Some []"
| "steps_from_dicts (j # js) =
     (case (step_from_dict j, steps_from_dicts js) of (Some s, Some ss) \<Rightarrow> Some (s # ss) | _ \<Rightarrow> None)"

definition plan_from_dict :: "json \<Rightarrow> fulfillment_plan option" where
  "plan_from_dict j = (case j of
     JObj d \<Rightarrow>
       (case (Option.bind (map_of d ''plan_id'') json_str, Option.bind (map_of d ''task_id'') json_str,
              Option.bind (json_list (dict_get d ''steps'' JNull)) steps_from_dicts,
              json_obj (dict_get d ''risk'' JNull), json_list (dict_get d ''artifacts'' JNull),
              json_str (dict_get d ''status'' (JStr PLAN_PLANNED))) of
          (Some pid, Some tid, Some steps, Some risk, Some artifacts, Some status) \<Rightarrow>
            Some \<lparr>fp_plan_id = pid, fp_task_id = tid, fp_steps = steps, fp_risk = risk,
                  fp_artifacts = artifacts, fp_status = status\<rparr>
        | _ \<Rightarrow> None)
   | _ \<Rightarrow> None)"

lemma json_strs_map [simp]: "json_strs (map JStr ss) = Some ss"
  by (induction ss) simp_all

lemma step_round_trip: "step_from_dict (step_to_dict s) = Some s"
  by (cases "ps_timeout_sec s") (simp_all add: step_from_dict_def step_to_dict_def dict_get_def opt_int_json_def)

lemma steps_round_trip: "steps_from_dicts (map step_to_dict ss) = Some ss"
  by (induction ss) (simp_all add: step_round_trip)

text \<open>Reading back a written plan gives the plan: every field of the plan and of all its steps survives the
  round trip through its dictionary, whatever the statuses, payloads and timeouts are.\<close>

theorem plan_round_trip: "plan_from_dict (plan_to_dict p) = Some p"
  by (simp add: plan_from_dict_def plan_to_dict_def dict_get_def steps_round_trip)

section \<open>Helpers over the steps\<close>

definition find_step :: "fulfillment_plan \<Rightarrow> string \<Rightarrow> plan_step option" where
  "find_step p sid = List.find (\<lambda>s. ps_id s = sid) (fp_steps p)"

text \<open>A dictionary built from the steps by their id: a later step replaces an earlier one.\<close>

definition by_id :: "(plan_step \<Rightarrow> 'v) \<Rightarrow> plan_step list \<Rightarrow> (string \<times> 'v) list" where
  "by_id f steps = fold (\<lambda>s d. AList.update (ps_id s) (f s) d) steps []"

definition step_ready :: "plan_step \<Rightarrow> fulfillment_plan \<Rightarrow> bool" where
  "step_ready s p =
     (let status_by_id = by_id ps_status (fp_steps p)
      in list_all (\<lambda>dep. map_of status_by_id dep \<in> set [Some STEP_DONE, Some STEP_SKIPPED]) (ps_depends_on s))"

definition all_terminal :: "fulfillment_plan \<Rightarrow> bool" where
  "all_terminal p = list_all (\<lambda>s. ps_status s \<in> set TERMINAL_STEP_STATUSES) (fp_steps p)"

definition derived_plan_status :: "plan_step list \<Rightarrow> string" where
  "derived_plan_status steps =
     (if STEP_RUNNING \<in> set (map ps_status steps) then PLAN_RUNNING
      else if STEP_FAILED \<in> set (map ps_status steps) then PLAN_FAILED
      else if list_all (\<lambda>s. ps_status s \<in> set [STEP_DONE, STEP_SKIPPED]) steps then PLAN_COMPLETE
      else PLAN_PLANNED)"

definition update_plan_status :: "fulfillment_plan \<Rightarrow> fulfillment_plan" where
  "update_plan_status p = p\<lparr>fp_status := derived_plan_status (fp_steps p)\<rparr>"

section \<open>Topological order\<close>

datatype plan_exception =
    CycleDetected string "string list"
  | InvalidStatus string
  | StepNotFound string string

definition in_degree_init :: "plan_step list \<Rightarrow> (string \<times> int) list" where
  "in_degree_init steps = by_id (\<lambda>s. int (length (ps_depends_on s))) steps"

text \<open>One iteration of the inner loop: a step that depends on \<open>sid\<close> loses one from its in-degree.\<close>

definition relax ::
  "string \<Rightarrow> plan_step \<Rightarrow> (string \<times> int) list \<times> string list \<Rightarrow> (string \<times> int) list \<times> string list" where
  "relax sid s = (\<lambda>(deg, queue).
     if sid \<in> set (ps_depends_on s)
     then let d = dict_get deg (ps_id s) 0 - 1; deg' = AList.update (ps_id s) d deg
          in (deg', if d = 0 then queue @ [ps_id s] else queue)
     else (deg, queue))"

definition positive_degrees :: "(string \<times> int) list \<Rightarrow> nat" where
  "positive_degrees deg = length (filter (\<lambda>(k, d). 0 < d) deg)"

lemma positive_update:
  "positive_degrees (AList.update k v deg) + (case map_of deg k of Some u \<Rightarrow> (if 0 < u then 1 else 0) | None \<Rightarrow> 0)
     = positive_degrees deg + (if 0 < v then 1 else 0)"
  by (induction deg) (auto simp: positive_degrees_def split: option.splits)

lemma relax_measure:
  "relax sid s (deg, queue) = (deg', queue') \<Longrightarrow>
     positive_degrees deg' + length queue' \<le> positive_degrees deg + length queue"
  using positive_update [of "ps_id s" "dict_get deg (ps_id s) 0 - 1" deg]
  by (auto simp: relax_def Let_def dict_get_def split: if_splits option.splits)

lemma relax_all_measure:
  "fold (relax sid) steps (deg, queue) = (deg', queue') \<Longrightarrow>
     positive_degrees deg' + length queue' \<le> positive_degrees deg + length queue"
proof (induction steps arbitrary: deg queue)
  case (Cons s steps)
  obtain d q where r: "relax sid s (deg, queue) = (d, q)" by fastforce
  with Cons.prems have "fold (relax sid) steps (d, q) = (deg', queue')" by simp
  from Cons.IH [OF this] relax_measure [OF r] show ?case by linarith
qed simp

text \<open>The main loop. Every round takes one id from the queue, and an id enters it when its degree reaches zero.\<close>

function kahn :: "plan_step list \<Rightarrow> (string \<times> int) list \<Rightarrow> string list \<Rightarrow> string list \<times> (string \<times> int) list" where
  "kahn steps deg [] = ([], deg)"
| "kahn steps deg (sid # queue) =
     (let (deg', queue') = fold (relax sid) steps (deg, queue);
          (ordered, final) = kahn steps deg' queue'
      in (sid # ordered, final))"
  by pat_completeness auto
termination
proof (relation "measure (\<lambda>(steps, deg, queue). positive_degrees deg + length queue)", goal_cases)
  case (2 steps deg sid queue x deg' queue')
  then have "fold (relax sid) steps (deg, queue) = (deg', queue')" by simp
  from relax_all_measure [OF this] show ?case by simp
qed simp

definition topological_order :: "fulfillment_plan \<Rightarrow> plan_exception + string list" where
  "topological_order p =
     (let deg = in_degree_init (fp_steps p);
          queue = map fst (filter (\<lambda>(sid, d). d = 0) deg);
          (ordered, final) = kahn (fp_steps p) deg queue
      in if length ordered \<noteq> length (fp_steps p)
         then Inl (CycleDetected (fp_plan_id p) (map fst (filter (\<lambda>(sid, d). 0 < d) final)))
         else Inr ordered)"

section \<open>Cycle detection\<close>

datatype colour = White | Grey | Black

text \<open>
  The recursive search. The recursion goes from a white node to a white node and paints it grey, so
  its depth is bounded by the number of steps: the fuel. \<^const>\<open>None\<close> would be a deeper recursion.
\<close>

fun dfs :: "nat \<Rightarrow> (string \<times> plan_step) list \<Rightarrow> string \<Rightarrow> (string \<times> colour) list
      \<Rightarrow> (bool \<times> (string \<times> colour) list) option"
  and dfs_deps :: "nat \<Rightarrow> (string \<times> plan_step) list \<Rightarrow> string list \<Rightarrow> (string \<times> colour) list
      \<Rightarrow> (bool \<times> (string \<times> colour) list) option"
  where
  "dfs 0 step_by_id node color = None"
| "dfs (Suc n) step_by_id node color =
     (let color1 = AList.update node Grey color
      in case map_of step_by_id node of
           None \<Rightarrow> Some (False, AList.update node Black color1)
         | Some step \<Rightarrow>
             (case dfs_deps n step_by_id (ps_depends_on step) color1 of
                None \<Rightarrow> None
              | Some (True, c) \<Rightarrow> Some (True, c)
              | Some (False, c) \<Rightarrow> Some (False, AList.update node Black c)))"
| "dfs_deps n step_by_id [] color = Some (False, color)"
| "dfs_deps n step_by_id (dep # deps) color =
     (case map_of color dep of
        None \<Rightarrow> dfs_deps n step_by_id deps color
      | Some Grey \<Rightarrow> Some (True, color)
      | Some Black \<Rightarrow> dfs_deps n step_by_id deps color
      | Some White \<Rightarrow>
          (case dfs n step_by_id dep color of
             None \<Rightarrow> None
           | Some (True, c) \<Rightarrow> Some (True, c)
           | Some (False, c) \<Rightarrow> dfs_deps n step_by_id deps c))"

fun dfs_roots :: "nat \<Rightarrow> (string \<times> plan_step) list \<Rightarrow> string list \<Rightarrow> (string \<times> colour) list \<Rightarrow> bool option" where
  "dfs_roots n step_by_id [] color = Some False"
| "dfs_roots n step_by_id (sid # sids) color =
     (if map_of color sid = Some White
      then (case dfs n step_by_id sid color of
              None \<Rightarrow> None
            | Some (True, c) \<Rightarrow> Some True
            | Some (False, c) \<Rightarrow> dfs_roots n step_by_id sids c)
      else dfs_roots n step_by_id sids color)"

definition has_cycle_search :: "fulfillment_plan \<Rightarrow> bool option" where
  "has_cycle_search p =
     dfs_roots (length (fp_steps p)) (by_id (\<lambda>s. s) (fp_steps p)) (map ps_id (fp_steps p))
       (by_id (\<lambda>_. White) (fp_steps p))"

definition has_cycle :: "fulfillment_plan \<Rightarrow> bool" where
  "has_cycle p = (has_cycle_search p = Some True)"

section \<open>Validation\<close>

fun duplicate_errors :: "string list \<Rightarrow> string list \<Rightarrow> string list" where
  "duplicate_errors seen [] = []"
| "duplicate_errors seen (i # is) =
     (if i \<in> set seen then [''duplicate step id: '' @ py_repr i] else []) @ duplicate_errors (i # seen) is"

definition prefix_errors :: "fulfillment_plan \<Rightarrow> string list" where
  "prefix_errors p =
     (let pre = fp_plan_id p @ '':''
      in map (\<lambda>s. ''step id '' @ py_repr (ps_id s) @ '' does not start with plan prefix '' @ py_repr pre)
           (filter (\<lambda>s. \<not> py_startswith (ps_id s) pre) (fp_steps p)))"

definition reference_errors :: "fulfillment_plan \<Rightarrow> string list" where
  "reference_errors p =
     concat (map (\<lambda>s. map (\<lambda>dep. ''step '' @ py_repr (ps_id s) @ '' depends_on unknown id '' @ py_repr dep)
         (filter (\<lambda>dep. dep \<notin> set (map ps_id (fp_steps p))) (ps_depends_on s))) (fp_steps p))"

definition type_error :: "plan_step \<Rightarrow> string list" where
  "type_error s =
     (if ps_type s = [] then [''step '' @ py_repr (ps_id s) @ '' has empty type'']
      else if count_list (ps_type s) CHR ''.'' \<noteq> 1
        then [''step '' @ py_repr (ps_id s) @ '' type '' @ py_repr (ps_type s)
              @ '' must be in '' @ [CHR 0x27] @ ''<service>.<action>'' @ [CHR 0x27] @ '' format'']
      else [])"

definition type_errors :: "fulfillment_plan \<Rightarrow> string list" where
  "type_errors p = concat (map type_error (fp_steps p))"

definition validate_plan :: "fulfillment_plan \<Rightarrow> string list" where
  "validate_plan p =
     (let e0 = (if fp_plan_id p = [] then [''plan_id must be non-empty''] else [])
               @ (if fp_task_id p = [] then [''task_id must be non-empty''] else [])
      in if fp_steps p = [] then e0 @ [''steps must be non-empty'']
         else let e1 = e0 @ duplicate_errors [] (map ps_id (fp_steps p)) @ prefix_errors p @ reference_errors p;
                  ref_errors = filter (py_in ''depends_on unknown id'') e1;
                  e2 = (if ref_errors = [] \<and> has_cycle p
                        then [''plan '' @ py_repr (fp_plan_id p) @ '' contains a circular dependency''] else [])
              in e1 @ e2 @ type_errors p)"

section \<open>Ingestion of a result\<close>

text \<open>\<open>step.status = status\<close> and \<open>step.payload["_output"] = output\<close> on the first step with this id.\<close>

fun update_step :: "string \<Rightarrow> (plan_step \<Rightarrow> plan_step) \<Rightarrow> plan_step list \<Rightarrow> plan_step list" where
  "update_step sid f [] = []"
| "update_step sid f (s # ss) = (if ps_id s = sid then f s # ss else s # update_step sid f ss)"

definition store_result :: "string \<Rightarrow> json \<Rightarrow> plan_step \<Rightarrow> plan_step" where
  "store_result status output s =
     (let s' = s\<lparr>ps_status := status\<rparr>
      in if output = JNull then s' else s'\<lparr>ps_payload := AList.update ''_output'' output (ps_payload s')\<rparr>)"

definition newly_ready :: "string \<Rightarrow> fulfillment_plan \<Rightarrow> string list" where
  "newly_ready sid p =
     map ps_id (filter (\<lambda>c. ps_status c = STEP_PENDING \<and> sid \<in> set (ps_depends_on c) \<and> step_ready c p) (fp_steps p))"

definition ingest_result ::
  "fulfillment_plan \<Rightarrow> string \<Rightarrow> string \<Rightarrow> json \<Rightarrow> plan_exception + (fulfillment_plan \<times> string list)" where
  "ingest_result p sid status output =
     (if status \<notin> set TERMINAL_STEP_STATUSES then Inl (InvalidStatus status)
      else case find_step p sid of
             None \<Rightarrow> Inl (StepNotFound sid (fp_plan_id p))
           | Some s \<Rightarrow>
               let p' = p\<lparr>fp_steps := update_step sid (store_result status output) (fp_steps p)\<rparr>
               in Inr (p', newly_ready sid p'))"

end
