(* ===== verification/Dag_Cycle.thy ===== *)
theory Dag_Cycle
  imports Dag
begin

text \<open>
  Correctness of the cycle check of \<open>fulfillment/dag.py\<close>: the white-grey-black search answers, and
  it answers True exactly when the dependency relation has a cycle. The three parts of the proof are
  the fuel (white nodes only decrease), the finishing order of the black nodes (each node's
  dependencies finished before it), and the grey path to the current node.
\<close>

definition dep_edges :: "(string \<times> plan_step) list \<Rightarrow> string set \<Rightarrow> (string \<times> string) set" where
  "dep_edges sb K = {(x, y). \<exists>s. map_of sb x = Some s \<and> y \<in> set (ps_depends_on s) \<and> y \<in> K}"

definition colored :: "colour \<Rightarrow> (string \<times> colour) list \<Rightarrow> string set" where
  "colored k color = {x. map_of color x = Some k}"

lemma finite_colored: "finite (colored k color)"
proof -
  have "colored k color \<subseteq> set (map fst color)"
    by (auto simp: colored_def dest!: map_of_SomeD intro: rev_image_eqI)
  then show ?thesis by (rule finite_subset) simp
qed

lemma colored_update:
  "colored k (AList.update x k' color) = (if k = k' then insert x (colored k color) else colored k color - {x})"
  by (auto simp: colored_def map_of_update)

lemma dom_update: "x \<in> dom (map_of color) \<Longrightarrow> dom (map_of (AList.update x k color)) = dom (map_of color)"
  by (auto simp: map_of_update)

section \<open>The fuel\<close>

lemma dfs_shape:
  "dfs n sb node color = Some (b, color') \<Longrightarrow> node \<in> dom (map_of color) \<Longrightarrow>
     dom (map_of color') = dom (map_of color) \<and> colored White color' \<subseteq> colored White color"
  "dfs_deps n sb deps color = Some (b, color') \<Longrightarrow>
     dom (map_of color') = dom (map_of color) \<and> colored White color' \<subseteq> colored White color"
proof (induction n sb node color and n sb deps color arbitrary: b color' and b color' rule: dfs_dfs_deps.induct)
  case (2 n sb node color)
  define c1 where "c1 = AList.update node Grey color"
  have d1: "dom (map_of c1) = dom (map_of color)" using 2(3) by (simp add: c1_def dom_update)
  have w1: "colored White c1 \<subseteq> colored White color" by (auto simp: c1_def colored_update)
  show ?case
  proof (cases "map_of sb node")
    case None
    then have eq: "color' = AList.update node Black c1" using 2(2) by (simp add: Let_def c1_def)
    have "dom (map_of color') = dom (map_of color)"
      unfolding eq d1 [symmetric] using 2(3) d1 by (intro dom_update) simp
    moreover have "colored White color' \<subseteq> colored White color" using w1 by (auto simp: eq colored_update)
    ultimately show ?thesis ..
  next
    case (Some step)
    with 2(2) obtain b2 c2 where r: "dfs_deps n sb (ps_depends_on step) c1 = Some (b2, c2)"
      by (auto simp: Let_def c1_def split: option.splits)
    from 2(1) [OF c1_def Some r] have "dom (map_of c2) = dom (map_of color) \<and> colored White c2 \<subseteq> colored White color"
      using d1 w1 by auto
    then have d2: "dom (map_of c2) = dom (map_of color)" and w2: "colored White c2 \<subseteq> colored White color" by simp_all
    have "color' = (if b2 then c2 else AList.update node Black c2)"
      using 2(2) Some r by (simp add: Let_def c1_def split: if_splits bool.splits)
    moreover have "dom (map_of (AList.update node Black c2)) = dom (map_of color)"
      unfolding d2 [symmetric] using 2(3) d2 by (intro dom_update) simp
    moreover have "colored White (AList.update node Black c2) \<subseteq> colored White color"
      using w2 by (auto simp: colored_update)
    ultimately show ?thesis using d2 w2 by simp
  qed
next
  case (4 n sb dep deps color)
  show ?case
  proof (cases "map_of color dep")
    case None
    with 4 show ?thesis by simp
  next
    case (Some k)
    show ?thesis
    proof (cases k)
      case White
      with Some 4(5) obtain b2 c2 where r: "dfs n sb dep color = Some (b2, c2)"
        by (auto split: option.splits)
      from 4(2) [OF Some White r] Some have s: "dom (map_of c2) = dom (map_of color) \<and> colored White c2 \<subseteq> colored White color"
        by auto
      show ?thesis
      proof (cases b2)
        case True
        with r s Some White 4(5) show ?thesis by auto
      next
        case False
        with r Some White 4(5) have rest: "dfs_deps n sb deps c2 = Some (b, color')" by simp
        have "dom (map_of color') = dom (map_of c2) \<and> colored White color' \<subseteq> colored White c2"
          using 4(3) [OF Some White r refl _ rest] False by simp
        with s show ?thesis by auto
      qed
    next
      case Grey
      with Some 4(5) show ?thesis by auto
    next
      case Black
      with Some 4 show ?thesis by auto
    qed
  qed
qed auto

lemma dfs_enough_fuel:
  "map_of color node = Some White \<Longrightarrow> card (colored White color) \<le> n \<Longrightarrow> dfs n sb node color \<noteq> None"
  "card (colored White color) \<le> n \<Longrightarrow> dfs_deps n sb deps color \<noteq> None"
proof (induction n sb node color and n sb deps color rule: dfs_dfs_deps.induct)
  case (1 sb node color)
  then have "node \<in> colored White color" by (simp add: colored_def)
  then have "card (colored White color) \<noteq> 0" using finite_colored by auto
  with 1 show ?case by simp
next
  case (2 n sb node color)
  define c1 where "c1 = AList.update node Grey color"
  have "node \<in> colored White color" using 2(2) by (simp add: colored_def)
  then have "card (colored White c1) \<le> n"
    using 2(3) by (simp add: c1_def colored_update finite_colored card_Diff_singleton)
  with 2(1) [OF c1_def] show ?case
    by (auto simp: Let_def c1_def [symmetric] split: option.splits bool.splits)
next
  case (4 n sb dep deps color)
  show ?case
  proof (cases "map_of color dep = Some White")
    case False
    with 4 show ?thesis by (auto split: option.splits colour.splits)
  next
    case True
    with 4(2,5) obtain b c where r: "dfs n sb dep color = Some (b, c)" by auto
    have "colored White c \<subseteq> colored White color"
      using dfs_shape(1) [OF r] True by auto
    then have "card (colored White c) \<le> n"
      using 4(5) card_mono [OF finite_colored] by (meson le_trans)
    with 4(3) [OF True refl r refl] True r show ?thesis by (cases b) auto
  qed
qed auto

section \<open>False: the dependencies finish in a topological order\<close>

fun finished :: "(string \<times> string) set \<Rightarrow> string list \<Rightarrow> bool" where
  "finished E [] = True"
| "finished E (x # xs) = (x \<notin> set xs \<and> (\<forall>y. (x, y) \<in> E \<longrightarrow> y \<in> set xs) \<and> finished E xs)"

lemma finished_closed: "finished E xs \<Longrightarrow> x \<in> set xs \<Longrightarrow> (x, y) \<in> E \<Longrightarrow> y \<in> set xs"
  by (induction xs) auto

lemma finished_trancl: "(x, y) \<in> E\<^sup>+ \<Longrightarrow> finished E xs \<Longrightarrow> x \<in> set xs \<Longrightarrow> y \<in> set xs"
  by (induction rule: trancl_induct) (auto dest: finished_closed)

lemma finished_acyclic: "finished E xs \<Longrightarrow> x \<in> set xs \<Longrightarrow> (x, x) \<notin> E\<^sup>+"
proof (induction xs)
  case (Cons a xs)
  have "(a, a) \<notin> E\<^sup>+"
  proof
    assume "(a, a) \<in> E\<^sup>+"
    then obtain y where y: "(a, y) \<in> E" "y = a \<or> (y, a) \<in> E\<^sup>+" by (metis tranclD rtranclD)
    with Cons.prems have "y \<in> set xs" by simp
    with y Cons.prems finished_trancl [of y a E xs] show False by auto
  qed
  with Cons show ?case by auto
qed simp

definition black_ok :: "(string \<times> string) set \<Rightarrow> (string \<times> colour) list \<Rightarrow> bool" where
  "black_ok E color \<longleftrightarrow> (\<exists>xs. finished E xs \<and> set xs = colored Black color)"

lemma dfs_false:
  "dfs n sb node color = Some (False, color') \<Longrightarrow> K = dom (map_of color) \<Longrightarrow> map_of color node = Some White \<Longrightarrow>
     black_ok (dep_edges sb K) color \<Longrightarrow>
     black_ok (dep_edges sb K) color' \<and> colored Grey color' = colored Grey color
       \<and> colored Black color \<subseteq> colored Black color' \<and> node \<in> colored Black color'"
  "dfs_deps n sb deps color = Some (False, color') \<Longrightarrow> K = dom (map_of color) \<Longrightarrow>
     black_ok (dep_edges sb K) color \<Longrightarrow>
     black_ok (dep_edges sb K) color' \<and> colored Grey color' = colored Grey color
       \<and> colored Black color \<subseteq> colored Black color' \<and> set deps \<inter> K \<subseteq> colored Black color'"
proof (induction n sb node color and n sb deps color arbitrary: color' and color' rule: dfs_dfs_deps.induct)
  case (2 n sb node color)
  let ?E = "dep_edges sb K"
  define c1 where "c1 = AList.update node Grey color"
  have node: "node \<in> K" "node \<notin> colored Black color" "node \<notin> colored Grey color"
    using 2(3,4) by (auto simp: colored_def)
  have K1: "K = dom (map_of c1)" using node(1) 2(3) by (simp add: c1_def dom_update)
  have b1: "colored Black c1 = colored Black color" "colored Grey c1 = insert node (colored Grey color)"
    using node by (auto simp: c1_def colored_update)
  have ok1: "black_ok ?E c1" using 2(5) b1 by (simp add: black_ok_def)
  have close: "black_ok ?E (AList.update node Black c2) \<and> colored Grey (AList.update node Black c2) = colored Grey color
      \<and> colored Black color \<subseteq> colored Black (AList.update node Black c2) \<and> node \<in> colored Black (AList.update node Black c2)"
    if "black_ok ?E c2" "colored Grey c2 = colored Grey c1" "colored Black c1 \<subseteq> colored Black c2"
      "\<forall>y. (node, y) \<in> ?E \<longrightarrow> y \<in> colored Black c2" for c2
  proof -
    from that(1) obtain xs where xs: "finished ?E xs" "set xs = colored Black c2" by (auto simp: black_ok_def)
    have "node \<in> colored Grey c2" using that(2) b1 by simp
    then have "node \<notin> colored Black c2" by (simp add: colored_def)
    with xs that(4) have "finished ?E (node # xs)" "set (node # xs) = colored Black (AList.update node Black c2)"
      by (auto simp: colored_update)
    then have "black_ok ?E (AList.update node Black c2)" unfolding black_ok_def by blast
    with that(2,3) b1 node show ?thesis by (auto simp: colored_update)
  qed
  show ?case
  proof (cases "map_of sb node")
    case None
    then have "color' = AList.update node Black c1" using 2(2) by (simp add: Let_def c1_def)
    moreover have "\<forall>y. (node, y) \<notin> ?E" using None by (simp add: dep_edges_def)
    ultimately show ?thesis using close [of c1] ok1 by auto
  next
    case (Some step)
    with 2(2) obtain c2 where r: "dfs_deps n sb (ps_depends_on step) c1 = Some (False, c2)"
      and c': "color' = AList.update node Black c2"
      by (auto simp: Let_def c1_def split: option.splits bool.splits)
    from 2(1) [OF c1_def Some r K1 ok1] have s: "black_ok ?E c2" "colored Grey c2 = colored Grey c1"
      "colored Black c1 \<subseteq> colored Black c2" "set (ps_depends_on step) \<inter> K \<subseteq> colored Black c2" by auto
    have "\<forall>y. (node, y) \<in> ?E \<longrightarrow> y \<in> colored Black c2"
      using s(4) Some by (auto simp: dep_edges_def)
    from close [OF s(1-3) this] show ?thesis by (simp add: c')
  qed
next
  case (4 n sb dep deps color)
  let ?E = "dep_edges sb K"
  show ?case
  proof (cases "map_of color dep")
    case None
    then have "dep \<notin> K" using 4(6) by auto
    with 4(1) [OF None] 4(5-7) None show ?thesis by auto
  next
    case (Some k)
    show ?thesis
    proof (cases k)
      case White
      with Some 4(5) obtain c where r: "dfs n sb dep color = Some (False, c)"
        and rest: "dfs_deps n sb deps c = Some (False, color')"
        by (auto split: option.splits bool.splits)
      from 4(2) [OF Some White r 4(6)] Some White 4(7) have s: "black_ok ?E c" "colored Grey c = colored Grey color"
        "colored Black color \<subseteq> colored Black c" "dep \<in> colored Black c" by auto
      have K: "K = dom (map_of c)" using dfs_shape(1) [OF r] Some 4(6) by auto
      from 4(3) [OF Some White r refl refl rest K s(1)] s show ?thesis by auto
    next
      case Grey
      with Some 4(5) show ?thesis by simp
    next
      case Black
      then have "dep \<in> colored Black color" using Some by (simp add: colored_def)
      moreover from 4(5) Some Black have "dfs_deps n sb deps color = Some (False, color')" by simp
      with 4 Some Black have "black_ok ?E color' \<and> colored Grey color' = colored Grey color
        \<and> colored Black color \<subseteq> colored Black color' \<and> set deps \<inter> K \<subseteq> colored Black color'" by auto
      ultimately show ?thesis by auto
    qed
  qed
qed auto

section \<open>True: a grey dependency closes a cycle\<close>

lemma dfs_true:
  "dfs n sb node color = Some (True, color') \<Longrightarrow> K = dom (map_of color) \<Longrightarrow> map_of color node = Some White \<Longrightarrow>
     black_ok (dep_edges sb K) color \<Longrightarrow> \<forall>g \<in> colored Grey color. (g, node) \<in> (dep_edges sb K)\<^sup>+ \<Longrightarrow>
     \<exists>z. (z, z) \<in> (dep_edges sb K)\<^sup>+"
  "dfs_deps n sb deps color = Some (True, color') \<Longrightarrow> K = dom (map_of color) \<Longrightarrow>
     black_ok (dep_edges sb K) color \<Longrightarrow> \<forall>g \<in> colored Grey color. (g, x) \<in> (dep_edges sb K)\<^sup>* \<Longrightarrow>
     \<forall>d \<in> set deps \<inter> K. (x, d) \<in> dep_edges sb K \<Longrightarrow>
     \<exists>z. (z, z) \<in> (dep_edges sb K)\<^sup>+"
proof (induction n sb node color and n sb deps color arbitrary: color' and color' x rule: dfs_dfs_deps.induct)
  case (2 n sb node color)
  let ?E = "dep_edges sb K"
  define c1 where "c1 = AList.update node Grey color"
  from 2(2) obtain step where s: "map_of sb node = Some step" and r: "dfs_deps n sb (ps_depends_on step) c1 = Some (True, color')"
    by (auto simp: Let_def c1_def split: option.splits bool.splits)
  have node: "node \<in> K" "node \<notin> colored Black color" using 2(3,4) by (auto simp: colored_def)
  have K1: "K = dom (map_of c1)" using node(1) 2(3) by (simp add: c1_def dom_update)
  have "colored Black c1 = colored Black color" using node by (auto simp: c1_def colored_update)
  then have ok1: "black_ok ?E c1" using 2(5) by (simp add: black_ok_def)
  have grey: "\<forall>g \<in> colored Grey c1. (g, node) \<in> ?E\<^sup>*"
    using 2(6) by (auto simp: c1_def colored_update intro: trancl_into_rtrancl)
  have deps: "\<forall>d \<in> set (ps_depends_on step) \<inter> K. (node, d) \<in> ?E" using s by (auto simp: dep_edges_def)
  from 2(1) [OF c1_def s r K1 ok1 grey deps] show ?case .
next
  case (4 n sb dep deps color)
  let ?E = "dep_edges sb K"
  have deps: "\<forall>d \<in> set deps \<inter> K. (x, d) \<in> ?E" using 4(9) by simp
  show ?case
  proof (cases "map_of color dep")
    case None
    with 4(5) have "dfs_deps n sb deps color = Some (True, color')" by simp
    from 4(1) [OF None this 4(6-8) deps] show ?thesis .
  next
    case (Some k)
    then have E: "(x, dep) \<in> ?E" using 4(6,9) by auto
    show ?thesis
    proof (cases k)
      case White
      have below: "\<forall>g \<in> colored Grey color. (g, dep) \<in> ?E\<^sup>+" using 4(8) E by (meson rtrancl_into_trancl1)
      from Some 4(5) White obtain b c where r: "dfs n sb dep color = Some (b, c)" by (auto split: option.splits)
      show ?thesis
      proof (cases b)
        case True
        with 4(2) [OF Some White _ 4(6) _ 4(7) below] r Some White show ?thesis by auto
      next
        case False
        with r have r: "dfs n sb dep color = Some (False, c)" by simp
        with Some White 4(5) have rest: "dfs_deps n sb deps c = Some (True, color')" by simp
        have ok: "black_ok ?E c" "colored Grey c = colored Grey color"
          using dfs_false(1) [OF r 4(6) _ 4(7)] Some White by auto
        have K: "K = dom (map_of c)" using dfs_shape(1) [OF r] Some 4(6) by auto
        have grey: "\<forall>g \<in> colored Grey c. (g, x) \<in> ?E\<^sup>*" using 4(8) ok(2) by simp
        from 4(3) [OF Some White r refl refl rest K ok(1) grey deps] show ?thesis .
      qed
    next
      case Grey
      then have "dep \<in> colored Grey color" using Some by (simp add: colored_def)
      with 4(8) have "(dep, x) \<in> ?E\<^sup>*" by blast
      from this E have "(dep, dep) \<in> ?E\<^sup>+" by (rule rtrancl_into_trancl1)
      then show ?thesis by blast
    next
      case Black
      with Some 4(5) have "dfs_deps n sb deps color = Some (True, color')" by simp
      from 4(4) [OF Some Black this 4(6-8) deps] show ?thesis .
    qed
  qed
qed auto

section \<open>The check as a whole\<close>

lemma dfs_roots_correct:
  assumes "K = dom (map_of color)" "black_ok (dep_edges sb K) color" "colored Grey color = {}"
    and "card (colored White color) \<le> n" "set sids \<subseteq> K"
  shows "\<exists>b. dfs_roots n sb sids color = Some b
    \<and> (b \<longrightarrow> (\<exists>z. (z, z) \<in> (dep_edges sb K)\<^sup>+))
    \<and> (\<not> b \<longrightarrow> (\<exists>xs. finished (dep_edges sb K) xs \<and> set sids \<union> colored Black color \<subseteq> set xs))"
  using assms
proof (induction sids arbitrary: color)
  case Nil
  then show ?case by (auto simp: black_ok_def)
next
  case (Cons sid sids)
  show ?case
  proof (cases "map_of color sid = Some White")
    case False
    with Cons.prems have "sid \<in> colored Black color"
      by (cases "map_of color sid") (auto simp: colored_def, metis (full_types) colour.exhaust)
    moreover obtain b where b: "dfs_roots n sb sids color = Some b"
      "b \<longrightarrow> (\<exists>z. (z, z) \<in> (dep_edges sb K)\<^sup>+)"
      "\<not> b \<longrightarrow> (\<exists>xs. finished (dep_edges sb K) xs \<and> set sids \<union> colored Black color \<subseteq> set xs)"
      using Cons.IH [OF Cons.prems(1-4)] Cons.prems(5) by auto
    moreover have "dfs_roots n sb (sid # sids) color = Some b" using b(1) False by simp
    ultimately show ?thesis by (intro exI [of _ b]) auto
  next
    case True
    with dfs_enough_fuel(1) [OF True Cons.prems(4), of sb] obtain b c where r: "dfs n sb sid color = Some (b, c)"
      by fastforce
    show ?thesis
    proof (cases b)
      case b: True
      with r dfs_true(1) [of n sb sid color c K] True Cons.prems show ?thesis by auto
    next
      case b: False
      with r have r: "dfs n sb sid color = Some (False, c)" by simp
      have f: "black_ok (dep_edges sb K) c" "colored Grey c = {}" "colored Black color \<subseteq> colored Black c"
        "sid \<in> colored Black c"
        using dfs_false(1) [OF r Cons.prems(1) True Cons.prems(2)] Cons.prems(3) by auto
      have K: "K = dom (map_of c)" using dfs_shape(1) [OF r] True Cons.prems(1) by auto
      have "card (colored White c) \<le> n"
      proof -
        have "sid \<in> dom (map_of color)" using True by blast
        then have "colored White c \<subseteq> colored White color" using dfs_shape(1) [OF r] by simp
        then have "card (colored White c) \<le> card (colored White color)" by (rule card_mono [OF finite_colored])
        with Cons.prems(4) show ?thesis by linarith
      qed
      moreover have "set sids \<subseteq> K" using Cons.prems(5) by simp
      ultimately obtain b' where b': "dfs_roots n sb sids c = Some b'"
        "b' \<longrightarrow> (\<exists>z. (z, z) \<in> (dep_edges sb K)\<^sup>+)"
        "\<not> b' \<longrightarrow> (\<exists>xs. finished (dep_edges sb K) xs \<and> set sids \<union> colored Black c \<subseteq> set xs)"
        using Cons.IH [OF K f(1,2)] by blast
      have "dfs_roots n sb (sid # sids) color = Some b'" using b'(1) True r by simp
      moreover have "\<not> b' \<longrightarrow> (\<exists>xs. finished (dep_edges sb K) xs \<and> set (sid # sids) \<union> colored Black color \<subseteq> set xs)"
        using b'(3) f(3,4) by auto
      ultimately show ?thesis using b'(2) by blast
    qed
  qed
qed

lemma dom_fold_update:
  "dom (map_of (fold (\<lambda>s d. AList.update (ps_id s) (f s) d) steps d0)) = set (map ps_id steps) \<union> dom (map_of d0)"
  by (induction steps arbitrary: d0) (simp_all add: map_of_update)

lemma dom_by_id: "dom (map_of (by_id f steps)) = set (map ps_id steps)"
  by (simp add: by_id_def dom_fold_update)

lemma by_id_values:
  "(\<forall>x v. map_of d0 x = Some v \<longrightarrow> v = c) \<Longrightarrow>
     map_of (fold (\<lambda>s d. AList.update (ps_id s) c d) steps d0) x = Some v \<Longrightarrow> v = c"
proof (induction steps arbitrary: d0)
  case (Cons s steps)
  have "\<forall>x v. map_of (AList.update (ps_id s) c d0) x = Some v \<longrightarrow> v = c"
    using Cons.prems(1) by (simp add: map_of_update)
  from Cons.IH [OF this] Cons.prems(2) show ?case by simp
qed simp

lemma white_start: "map_of (by_id (\<lambda>_. White) steps) x = Some k \<Longrightarrow> k = White"
  using by_id_values [of "[]" White steps x k] by (simp add: by_id_def)

lemma white_start_sets:
  "colored Black (by_id (\<lambda>_. White) steps) = {}" "colored Grey (by_id (\<lambda>_. White) steps) = {}"
  by (auto simp: colored_def dest: white_start)

lemma card_white_start: "card (colored White (by_id (\<lambda>_. White) steps)) \<le> length steps"
proof -
  have "colored White (by_id (\<lambda>_. White) steps) \<subseteq> dom (map_of (by_id (\<lambda>_. White) steps))"
    by (auto simp: colored_def)
  then have "card (colored White (by_id (\<lambda>_. White) steps)) \<le> card (set (map ps_id steps))"
    by (metis dom_by_id List.finite_set card_mono)
  also have "\<dots> \<le> length steps" using card_length [of "map ps_id steps"] by simp
  finally show ?thesis .
qed

definition plan_edges :: "fulfillment_plan \<Rightarrow> (string \<times> string) set" where
  "plan_edges p = dep_edges (by_id (\<lambda>s. s) (fp_steps p)) (set (map ps_id (fp_steps p)))"

lemma cycle_search:
  "\<exists>b. has_cycle_search p = Some b \<and> (b \<longleftrightarrow> (\<exists>z. (z, z) \<in> (plan_edges p)\<^sup>+))"
proof -
  let ?c = "by_id (\<lambda>_. White) (fp_steps p)" and ?ids = "map ps_id (fp_steps p)"
  have K: "set ?ids = dom (map_of ?c)" by (simp add: dom_by_id)
  have ok: "black_ok (plan_edges p) ?c"
    unfolding black_ok_def by (intro exI [of _ "[]"]) (simp add: white_start_sets)
  obtain b where b: "has_cycle_search p = Some b" "b \<longrightarrow> (\<exists>z. (z, z) \<in> (plan_edges p)\<^sup>+)"
    "\<not> b \<longrightarrow> (\<exists>xs. finished (plan_edges p) xs \<and> set ?ids \<union> colored Black ?c \<subseteq> set xs)"
    using dfs_roots_correct [OF K, of "by_id (\<lambda>s. s) (fp_steps p)" "length (fp_steps p)" ?ids] ok
    by (auto simp: has_cycle_search_def plan_edges_def white_start_sets card_white_start)
  have "\<not> (\<exists>z. (z, z) \<in> (plan_edges p)\<^sup>+)" if "\<not> b"
  proof
    assume "\<exists>z. (z, z) \<in> (plan_edges p)\<^sup>+"
    then obtain z where z: "(z, z) \<in> (plan_edges p)\<^sup>+" by blast
    from b(3) that obtain xs where xs: "finished (plan_edges p) xs" "set ?ids \<subseteq> set xs" by auto
    have "z \<in> set ?ids" using tranclD2 [OF z] by (auto simp: plan_edges_def dep_edges_def)
    with finished_acyclic [OF xs(1)] xs(2) z show False by blast
  qed
  with b(1,2) show ?thesis by blast
qed

lemma has_cycle_iff: "has_cycle p \<longleftrightarrow> (\<exists>z. (z, z) \<in> (plan_edges p)\<^sup>+)"
  using cycle_search [of p] by (auto simp: has_cycle_def)

text \<open>C25: The depth-first cycle check always ends within its recursion depth (the number of steps) and answers
  True exactly when some step depends on itself through a chain of dependencies on steps of the plan.\<close>

theorem has_cycle_correct:
  "has_cycle_search p \<noteq> None \<and> (has_cycle p \<longleftrightarrow> (\<exists>z. (z, z) \<in> (plan_edges p)\<^sup>+))"
  using cycle_search [of p] by (auto simp: has_cycle_def)

end
