(* ===== verification/Dag_Order.thy ===== *)
theory Dag_Order
  imports Dag_Cycle
begin

text \<open>
  Correctness of the topological order of \<open>fulfillment/dag.py\<close> (Kahn's algorithm) on plans that pass
  validation: which steps enter the order, in which order, and when the algorithm reports a cycle
  although there is none.
\<close>

section \<open>What validation guarantees\<close>

definition ids :: "fulfillment_plan \<Rightarrow> string set" where
  "ids p = set (map ps_id (fp_steps p))"

lemma duplicate_errors_none: "duplicate_errors seen is = [] \<Longrightarrow> distinct is \<and> set is \<inter> set seen = {}"
  by (induction seen "is" rule: duplicate_errors.induct) (auto split: if_splits)

lemma duplicate_errors_distinct: "distinct is \<Longrightarrow> set is \<inter> set seen = {} \<Longrightarrow> duplicate_errors seen is = []"
  by (induction seen "is" rule: duplicate_errors.induct) auto

lemma type_error_none: "type_error s = [] \<longleftrightarrow> count_list (ps_type s) CHR ''.'' = 1"
  by (cases "ps_type s = []") (simp_all add: type_error_def)

lemma reference_errors_none: "reference_errors p = [] \<longleftrightarrow> (\<forall>s \<in> set (fp_steps p). set (ps_depends_on s) \<subseteq> ids p)"
  by (auto simp: reference_errors_def ids_def filter_empty_conv)

lemma prefix_errors_none:
  "prefix_errors p = [] \<longleftrightarrow> (\<forall>i \<in> set (map ps_id (fp_steps p)). py_startswith i (fp_plan_id p @ '':''))"
  by (simp add: prefix_errors_def filter_empty_conv Let_def)

lemma validate_facts:
  assumes "validate_plan p = []"
  shows "fp_plan_id p \<noteq> []" "fp_task_id p \<noteq> []" "fp_steps p \<noteq> []" "distinct (map ps_id (fp_steps p))"
    "\<forall>s \<in> set (fp_steps p). set (ps_depends_on s) \<subseteq> ids p" "\<not> has_cycle p"
    "\<forall>s \<in> set (fp_steps p). count_list (ps_type s) CHR ''.'' = 1"
proof -
  have parts: "fp_plan_id p \<noteq> []" "fp_task_id p \<noteq> []" "fp_steps p \<noteq> []"
    "duplicate_errors [] (map ps_id (fp_steps p)) = []" "reference_errors p = []" "prefix_errors p = []"
    "\<not> has_cycle p" "type_errors p = []"
    using assms by (auto simp: validate_plan_def Let_def split: if_splits)
  show "fp_plan_id p \<noteq> []" "fp_task_id p \<noteq> []" "fp_steps p \<noteq> []" "\<not> has_cycle p" by (fact parts)+
  show "distinct (map ps_id (fp_steps p))" using duplicate_errors_none [OF parts(4)] by blast
  show "\<forall>s \<in> set (fp_steps p). set (ps_depends_on s) \<subseteq> ids p"
    using parts(5) by (simp only: reference_errors_none)
  show "\<forall>s \<in> set (fp_steps p). count_list (ps_type s) CHR ''.'' = 1"
    using parts(8) by (simp add: type_errors_def type_error_none)
qed

lemma by_id_distinct_aux:
  "distinct (map ps_id steps) \<Longrightarrow> set (map ps_id steps) \<inter> set (map fst d) = {} \<Longrightarrow>
     fold (\<lambda>s d. AList.update (ps_id s) (f s) d) steps d = d @ map (\<lambda>s. (ps_id s, f s)) steps"
proof (induction steps arbitrary: d)
  case (Cons s steps)
  have "AList.update (ps_id s) (f s) d = d @ [(ps_id s, f s)]"
    using Cons.prems(2) by (induction d) auto
  with Cons show ?case by auto
qed simp

lemma by_id_distinct: "distinct (map ps_id steps) \<Longrightarrow> by_id f steps = map (\<lambda>s. (ps_id s, f s)) steps"
  using by_id_distinct_aux [of steps "[]" f] by (simp add: by_id_def)

lemma map_of_by_id:
  "distinct (map ps_id steps) \<Longrightarrow> s \<in> set steps \<Longrightarrow> map_of (by_id f steps) (ps_id s) = Some (f s)"
  by (simp add: by_id_distinct map_of_eq_Some_iff comp_def)

lemma plan_edges_distinct:
  assumes "distinct (map ps_id (fp_steps p))"
  shows "plan_edges p = {(ps_id s, d) | s d. s \<in> set (fp_steps p) \<and> d \<in> set (ps_depends_on s) \<and> d \<in> ids p}"
proof -
  have "map_of (by_id (\<lambda>s. s) (fp_steps p)) x = Some s \<longleftrightarrow> s \<in> set (fp_steps p) \<and> ps_id s = x" for x s
    using assms by (auto simp: by_id_distinct map_of_eq_Some_iff comp_def)
  then show ?thesis by (auto simp: plan_edges_def dep_edges_def ids_def)
qed

lemma finite_plan_edges: "distinct (map ps_id (fp_steps p)) \<Longrightarrow> finite (plan_edges p)"
  by (rule finite_subset [of _ "ids p \<times> ids p"]) (auto simp: plan_edges_distinct ids_def)

section \<open>One round of the algorithm\<close>

lemma relax_all:
  assumes "distinct (map ps_id ss)"
  shows "fold (relax sid) ss (deg, q) = (deg', q') \<Longrightarrow>
     q' = q @ map ps_id (filter (\<lambda>s. sid \<in> set (ps_depends_on s) \<and> dict_get deg (ps_id s) 0 = 1) ss)
     \<and> (\<forall>x. map_of deg' x = (if \<exists>s \<in> set ss. ps_id s = x \<and> sid \<in> set (ps_depends_on s)
           then Some (dict_get deg x 0 - 1) else map_of deg x))"
  using assms
proof (induction ss arbitrary: deg q)
  case (Cons s ss)
  show ?case
  proof (cases "sid \<in> set (ps_depends_on s)")
    case False
    with Cons show ?thesis by (auto simp: relax_def [of sid s])
  next
    case True
    let ?d = "dict_get deg (ps_id s) 0 - 1"
    let ?deg = "AList.update (ps_id s) ?d deg" and ?q = "if ?d = 0 then q @ [ps_id s] else q"
    have fresh: "ps_id s \<notin> ps_id ` set ss" using Cons.prems(2) by simp
    have other: "x \<noteq> ps_id s \<Longrightarrow> dict_get ?deg x 0 = dict_get deg x 0" for x
      by (simp add: dict_get_def map_of_update)
    have "fold (relax sid) ss (?deg, ?q) = (deg', q')" using Cons.prems(1) True by (simp add: relax_def [of sid s] Let_def)
    from Cons.IH [OF this] Cons.prems(2)
    have ih: "q' = ?q @ map ps_id (filter (\<lambda>s. sid \<in> set (ps_depends_on s) \<and> dict_get ?deg (ps_id s) 0 = 1) ss)"
      "\<And>x. map_of deg' x = (if \<exists>s \<in> set ss. ps_id s = x \<and> sid \<in> set (ps_depends_on s)
           then Some (dict_get ?deg x 0 - 1) else map_of ?deg x)" by auto
    have "filter (\<lambda>s. sid \<in> set (ps_depends_on s) \<and> dict_get ?deg (ps_id s) 0 = 1) ss
        = filter (\<lambda>s. sid \<in> set (ps_depends_on s) \<and> dict_get deg (ps_id s) 0 = 1) ss"
    proof (rule filter_cong [OF refl])
      fix x assume "x \<in> set ss"
      then have "ps_id x \<noteq> ps_id s" using fresh by (metis imageI)
      then show "(sid \<in> set (ps_depends_on x) \<and> dict_get ?deg (ps_id x) 0 = 1)
          = (sid \<in> set (ps_depends_on x) \<and> dict_get deg (ps_id x) 0 = 1)"
        using other [of "ps_id x"] by simp
    qed
    moreover have "map_of deg' x = (if \<exists>t \<in> set (s # ss). ps_id t = x \<and> sid \<in> set (ps_depends_on t)
           then Some (dict_get deg x 0 - 1) else map_of deg x)" for x
    proof (cases "x = ps_id s")
      case x: True
      then have no: "\<not> (\<exists>t \<in> set ss. ps_id t = x \<and> sid \<in> set (ps_depends_on t))" using fresh by (metis imageI)
      have "map_of deg' x = map_of ?deg x" by (simp only: ih(2) if_not_P [OF no])
      with True x show ?thesis by (simp add: map_of_update)
    next
      case False
      show ?thesis
      proof (cases "\<exists>t \<in> set ss. ps_id t = x \<and> sid \<in> set (ps_depends_on t)")
        case yes: True
        have "map_of deg' x = Some (dict_get ?deg x 0 - 1)" by (simp only: ih(2) if_P [OF yes])
        with yes other [OF False] show ?thesis by auto
      next
        case no: False
        have "map_of deg' x = map_of ?deg x" by (simp only: ih(2) if_not_P [OF no])
        with no False show ?thesis by (auto simp: map_of_update)
      qed
    qed
    ultimately show ?thesis using ih(1) True by auto
  qed
qed simp

text \<open>
  The invariant of the main loop: \<open>P\<close> are the ids already ordered. The degree of a step is the number of
  its dependency entries less the ordered ones, and a step has been queued exactly when that is zero.
\<close>

definition settled :: "string set \<Rightarrow> plan_step \<Rightarrow> bool" where
  "settled P s \<longleftrightarrow> length (ps_depends_on s) = card (P \<inter> set (ps_depends_on s))"

definition kahn_inv :: "plan_step list \<Rightarrow> string set \<Rightarrow> (string \<times> int) list \<Rightarrow> string list \<Rightarrow> bool" where
  "kahn_inv steps P deg q \<longleftrightarrow>
     (\<forall>s \<in> set steps. map_of deg (ps_id s)
        = Some (int (length (ps_depends_on s)) - int (card (P \<inter> set (ps_depends_on s)))))
     \<and> distinct q \<and> set q \<inter> P = {} \<and> set q \<union> P \<subseteq> set (map ps_id steps)
     \<and> (\<forall>s \<in> set steps. ps_id s \<in> P \<union> set q \<longleftrightarrow> settled P s)"

lemma settled_iff: "settled P s \<longleftrightarrow> distinct (ps_depends_on s) \<and> set (ps_depends_on s) \<subseteq> P"
proof
  let ?d = "ps_depends_on s"
  assume s: "settled P s"
  have "card (P \<inter> set ?d) \<le> card (set ?d)" by (rule card_mono) auto
  with s card_length [of ?d] have eq: "card (P \<inter> set ?d) = card (set ?d)" "card (set ?d) = length ?d"
    by (auto simp: settled_def)
  then have "P \<inter> set ?d = set ?d" by (intro card_subset_eq) auto
  with eq show "distinct ?d \<and> set ?d \<subseteq> P" by (auto intro: card_distinct)
next
  assume "distinct (ps_depends_on s) \<and> set (ps_depends_on s) \<subseteq> P"
  then show "settled P s" by (simp add: settled_def distinct_card Int_absorb1)
qed

lemma kahn_inv_step:
  assumes ids: "distinct (map ps_id steps)" and inv: "kahn_inv steps P deg (sid # q)"
    and r: "fold (relax sid) steps (deg, q) = (deg', q')"
  shows "kahn_inv steps (insert sid P) deg' q'"
proof -
  let ?P = "insert sid P"
  note rel = relax_all [OF ids r]
  have new: "sid \<notin> P" "sid \<notin> set q" and deg: "\<And>s. s \<in> set steps \<Longrightarrow> dict_get deg (ps_id s) 0
      = int (length (ps_depends_on s)) - int (card (P \<inter> set (ps_depends_on s)))"
    using inv by (auto simp: kahn_inv_def dict_get_def)
  have uniq: "\<And>s t. s \<in> set steps \<Longrightarrow> t \<in> set steps \<Longrightarrow> ps_id s = ps_id t \<Longrightarrow> s = t"
    using ids by (auto simp: distinct_map dest: inj_onD)
  have card: "card (?P \<inter> set (ps_depends_on s))
      = card (P \<inter> set (ps_depends_on s)) + (if sid \<in> set (ps_depends_on s) then 1 else 0)" for s
    using new(1) by auto
  have degs: "map_of deg' (ps_id s) = Some (int (length (ps_depends_on s)) - int (card (?P \<inter> set (ps_depends_on s))))"
    if "s \<in> set steps" for s
    using rel that uniq [OF _ that] deg [OF that] card [of s] inv by (auto simp: kahn_inv_def)
  have fresh: "ps_id s \<notin> P \<union> set (sid # q)" if "s \<in> set steps" "sid \<in> set (ps_depends_on s)" for s
    using inv that new(1) by (auto simp: kahn_inv_def settled_iff)
  let ?new = "filter (\<lambda>s. sid \<in> set (ps_depends_on s) \<and> dict_get deg (ps_id s) 0 = 1) steps"
  have q': "q' = q @ map ps_id ?new" using rel by blast
  have dist: "distinct q'"
  proof -
    have "distinct (map ps_id ?new)" using ids by (rule distinct_map_filter)
    moreover have "set q \<inter> set (map ps_id ?new) = {}" using fresh by auto
    ultimately show ?thesis using inv by (simp add: q' kahn_inv_def)
  qed
  have mem: "ps_id s \<in> ?P \<union> set q' \<longleftrightarrow> settled ?P s" if s: "s \<in> set steps" for s
  proof (cases "sid \<in> set (ps_depends_on s)")
    case True
    then have "ps_id s \<in> ?P \<union> set q' \<longleftrightarrow> dict_get deg (ps_id s) 0 = 1"
      using fresh [OF s True] uniq [OF _ s] s by (auto simp: q')
    also have "\<dots> \<longleftrightarrow> settled ?P s" using deg [OF s] card [of s] True by (auto simp: settled_def)
    finally show ?thesis .
  next
    case False
    then have "ps_id s \<in> ?P \<union> set q' \<longleftrightarrow> ps_id s \<in> P \<union> set (sid # q)"
      using uniq [OF _ s] by (auto simp: q')
    also have "\<dots> \<longleftrightarrow> settled P s" using inv s by (auto simp: kahn_inv_def)
    also have "\<dots> \<longleftrightarrow> settled ?P s" using card [of s] False by (simp add: settled_def)
    finally show ?thesis .
  qed
  have queued: "x \<notin> ?P" if "x \<in> set (map ps_id ?new)" for x
  proof -
    from that obtain s where "s \<in> set steps" "sid \<in> set (ps_depends_on s)" "x = ps_id s" by auto
    with fresh [of s] show ?thesis by simp
  qed
  have "x \<notin> ?P" if "x \<in> set q" for x using inv new(2) that by (auto simp: kahn_inv_def)
  with queued have disj: "set q' \<inter> ?P = {}" unfolding q' set_append by blast
  have sub: "set q' \<union> ?P \<subseteq> set (map ps_id steps)" using inv by (auto simp: q' kahn_inv_def)
  show ?thesis unfolding kahn_inv_def by (intro conjI ballI degs dist mem disj sub)
qed

text \<open>An order in which every step comes after its dependencies (\<open>P\<close>: what has been placed before).\<close>

fun deps_first :: "plan_step list \<Rightarrow> string set \<Rightarrow> string list \<Rightarrow> bool" where
  "deps_first steps P [] = True"
| "deps_first steps P (x # xs) =
     ((\<forall>s \<in> set steps. ps_id s = x \<longrightarrow> set (ps_depends_on s) \<subseteq> P) \<and> deps_first steps (insert x P) xs)"

lemma kahn_spec:
  "kahn steps deg q = (ordered, final) \<Longrightarrow> distinct (map ps_id steps) \<Longrightarrow> kahn_inv steps P deg q \<Longrightarrow>
     distinct ordered \<and> set ordered \<inter> P = {} \<and> deps_first steps P ordered
     \<and> kahn_inv steps (P \<union> set ordered) final []"
proof (induction steps deg q arbitrary: P ordered final rule: kahn.induct)
  case (1 steps deg)
  then show ?case by simp
next
  case (2 steps deg sid q)
  obtain deg' q' where r: "fold (relax sid) steps (deg, q) = (deg', q')" by fastforce
  obtain rest f where k: "kahn steps deg' q' = (rest, f)" by fastforce
  with 2(2) r have o: "ordered = sid # rest" "final = f" by auto
  have inv: "kahn_inv steps (insert sid P) deg' q'" by (rule kahn_inv_step [OF 2(3,4) r])
  have ih: "distinct rest \<and> set rest \<inter> insert sid P = {} \<and> deps_first steps (insert sid P) rest
     \<and> kahn_inv steps (insert sid P \<union> set rest) f []"
    using 2(1) [OF r [symmetric] refl k 2(3) inv] .
  have "\<forall>s \<in> set steps. ps_id s = sid \<longrightarrow> set (ps_depends_on s) \<subseteq> P"
    using 2(4) by (auto simp: kahn_inv_def settled_iff)
  moreover have "sid \<notin> P" using 2(4) by (auto simp: kahn_inv_def)
  ultimately show ?case using ih o by auto
qed

section \<open>The order of a valid plan\<close>

lemma kahn_inv_start:
  assumes "distinct (map ps_id steps)"
  shows "kahn_inv steps {} (in_degree_init steps) (map fst (filter (\<lambda>(sid, d). d = 0) (in_degree_init steps)))"
proof -
  have q: "map fst (filter (\<lambda>(sid, d). d = 0) (in_degree_init steps)) = map ps_id (filter (\<lambda>s. ps_depends_on s = []) steps)"
    by (simp add: in_degree_init_def by_id_distinct [OF assms] filter_map comp_def)
  have uniq: "\<And>s t. s \<in> set steps \<Longrightarrow> t \<in> set steps \<Longrightarrow> ps_id s = ps_id t \<Longrightarrow> s = t"
    using assms by (auto simp: distinct_map dest: inj_onD)
  have "ps_id s \<in> set (map ps_id (filter (\<lambda>s. ps_depends_on s = []) steps)) \<longleftrightarrow> settled {} s" if "s \<in> set steps" for s
    using uniq [OF _ that] that by (auto simp: settled_def)
  then show ?thesis
    unfolding kahn_inv_def q using assms
    by (auto simp: in_degree_init_def map_of_by_id distinct_map_filter)
qed

lemma topological_order_cases:
  assumes "validate_plan p = []"
  shows "if \<forall>s \<in> set (fp_steps p). distinct (ps_depends_on s)
     then \<exists>ordered. topological_order p = Inr ordered \<and> distinct ordered \<and> set ordered = ids p
            \<and> deps_first (fp_steps p) {} ordered
     else \<exists>remaining. topological_order p = Inl (CycleDetected (fp_plan_id p) remaining)"
proof -
  note v = validate_facts [OF assms]
  let ?steps = "fp_steps p"
  obtain ordered final where k: "kahn ?steps (in_degree_init ?steps)
      (map fst (filter (\<lambda>(sid, d). d = 0) (in_degree_init ?steps))) = (ordered, final)" by fastforce
  from kahn_spec [OF k v(4) kahn_inv_start [OF v(4)]]
  have o: "distinct ordered" "deps_first ?steps {} ordered" "kahn_inv ?steps (set ordered) final []" by auto
  have sub: "set ordered \<subseteq> ids p" using o(3) by (auto simp: kahn_inv_def ids_def)
  have closed: "ps_id s \<in> set ordered \<longleftrightarrow> settled (set ordered) s" if "s \<in> set ?steps" for s
    using o(3) that by (auto simp: kahn_inv_def)
  have len: "length ordered = length ?steps \<longleftrightarrow> set ordered = ids p"
    using distinct_card [OF o(1)] distinct_card [OF v(4)] sub card_subset_eq [of "ids p" "set ordered"]
    by (auto simp: ids_def)
  have result: "topological_order p = (if length ordered \<noteq> length ?steps
      then Inl (CycleDetected (fp_plan_id p) (map fst (filter (\<lambda>(sid, d). 0 < d) final))) else Inr ordered)"
    using k by (simp add: topological_order_def Let_def)
  show ?thesis
  proof (cases "\<forall>s \<in> set ?steps. distinct (ps_depends_on s)")
    case False
    then obtain s where s: "s \<in> set ?steps" "\<not> distinct (ps_depends_on s)" by blast
    then have "ps_id s \<notin> set ordered" using closed by (simp add: settled_iff)
    then have "set ordered \<noteq> ids p" using s(1) by (auto simp: ids_def)
    with False len result show ?thesis by auto
  next
    case True
    have "acyclic (plan_edges p)" using has_cycle_iff [of p] v(6) by (auto simp: acyclic_def)
    then have wf: "wf ((plan_edges p)\<inverse>)" by (rule finite_acyclic_wf_converse [OF finite_plan_edges [OF v(4)]])
    have "ids p \<subseteq> set ordered"
    proof (rule ccontr)
      assume "\<not> ids p \<subseteq> set ordered"
      then obtain x where "x \<in> ids p - set ordered" by blast
      with wf obtain z where z: "z \<in> ids p - set ordered" "\<And>y. (y, z) \<in> (plan_edges p)\<inverse> \<Longrightarrow> y \<notin> ids p - set ordered"
        by (rule wfE_min) blast
      then obtain s where s: "s \<in> set ?steps" "ps_id s = z" by (auto simp: ids_def)
      have "set (ps_depends_on s) \<subseteq> set ordered"
      proof
        fix d assume d: "d \<in> set (ps_depends_on s)"
        with s v(5) have "d \<in> ids p" by blast
        moreover from d s this have "(z, d) \<in> plan_edges p" by (auto simp: plan_edges_distinct [OF v(4)])
        ultimately show "d \<in> set ordered" using z(2) [of d] by blast
      qed
      with closed [OF s(1)] True s z(1) show False by (auto simp: settled_iff)
    qed
    with sub have "set ordered = ids p" by blast
    with True len result o show ?thesis by auto
  qed
qed

text \<open>C26: For every plan that passes validation and whose steps list no dependency twice, the topological order
  exists: it lists every step once, each after all of its dependencies.\<close>

theorem topological_order_correct:
  assumes "validate_plan p = []" "\<forall>s \<in> set (fp_steps p). distinct (ps_depends_on s)"
  shows "\<exists>ordered. topological_order p = Inr ordered \<and> distinct ordered \<and> set ordered = ids p
    \<and> deps_first (fp_steps p) {} ordered"
  using topological_order_cases [OF assms(1)] assms(2) by simp

text \<open>A plan that passes validation (so it has no cycle) but in which some step lists a dependency twice is
  refused by the topological order as cyclic, because the in-degree counts the entry twice and the round that
  orders the dependency takes one off.\<close>

theorem duplicate_dependency_reported_as_cycle:
  assumes "validate_plan p = []" "s \<in> set (fp_steps p)" "\<not> distinct (ps_depends_on s)"
  shows "\<not> has_cycle p \<and> (\<exists>remaining. topological_order p = Inl (CycleDetected (fp_plan_id p) remaining))"
proof -
  have "\<not> (\<forall>s \<in> set (fp_steps p). distinct (ps_depends_on s))" using assms(2,3) by blast
  with topological_order_cases [OF assms(1)] validate_facts(6) [OF assms(1)] show ?thesis by (simp only: if_False simp_thms)
qed

section \<open>The builder\<close>

lemma action_steps_shape:
  "map ps_id (action_steps pid prep k as) = map (action_id pid) [k..<k + length as]"
  "\<forall>s \<in> set (action_steps pid prep k as). ps_depends_on s = [prep] \<and> ps_status s = STEP_PENDING"
  by (induction as arbitrary: k) (auto simp: new_step_def upt_rec simp del: upt_Suc)

lemma action_id_inj: "action_id pid i = action_id pid j \<longleftrightarrow> i = j"
  by (simp add: action_id_def show_nat_inj)

lemma action_id_not_fixed [simp]:
  "action_id pid i \<noteq> pid @ '':validate_inputs''" "action_id pid i \<noteq> pid @ '':prepare_assets''"
  "action_id pid i \<noteq> pid @ '':verify_output''"
  "pid @ '':validate_inputs'' \<noteq> action_id pid i" "pid @ '':prepare_assets'' \<noteq> action_id pid i"
  "pid @ '':verify_output'' \<noteq> action_id pid i"
  by (simp_all add: action_id_def)

lemma type_has_dot: "count_list (show_nat n) CHR ''.'' = 0"
proof -
  have "\<not> py_isdigit CHR ''.''" by (simp add: py_isdigit_def char_code_def)
  then have "CHR ''.'' \<notin> set (show_nat n)" using show_nat_digits [of n] by auto
  then show ?thesis by (simp add: count_list_0_iff)
qed

lemma action_steps_types:
  assumes "\<forall>a \<in> set as. pa_type a \<in> {None, Some []} \<or> (\<exists>t. pa_type a = Some t \<and> count_list t CHR ''.'' = 1)"
  shows "s \<in> set (action_steps pid prep k as) \<Longrightarrow> count_list (ps_type s) CHR ''.'' = 1"
  using assms
proof (induction as arbitrary: k)
  case (Cons a as)
  have "count_list (py_or (case pa_type a of None \<Rightarrow> [] | Some t \<Rightarrow> t) (''fulfillment.action_'' @ show_nat k)) CHR ''.'' = 1"
    using Cons.prems(2) by (auto simp: py_or_def type_has_dot)
  with Cons show ?case by (auto simp: new_step_def)
qed simp

lemma finished_fan:
  assumes "distinct as" "prep \<notin> set as" "entry \<notin> set as" "prep \<noteq> entry"
    and "\<forall>x \<in> set as. \<forall>y. (x, y) \<in> E \<longrightarrow> y = prep" "\<forall>y. (prep, y) \<in> E \<longrightarrow> y = entry" "\<forall>y. (entry, y) \<notin> E"
  shows "finished E (as @ [prep, entry])"
  using assms by (induction as) auto

text \<open>Every plan the builder emits passes validation and has a topological order, for any task id, any list of
  actions whose types are absent or of the form service.action, and any random suffix.\<close>

theorem built_plan_is_valid:
  assumes "task_id \<noteq> []"
    and "\<forall>a \<in> set actions. pa_type a \<in> {None, Some []} \<or> (\<exists>t. pa_type a = Some t \<and> count_list t CHR ''.'' = 1)"
  shows "validate_plan (build_execution_graph_v2 hex8 task_id actions risk) = []
    \<and> (\<exists>ordered. topological_order (build_execution_graph_v2 hex8 task_id actions risk) = Inr ordered)"
proof -
  let ?p = "build_execution_graph_v2 hex8 task_id actions risk"
  define pid where "pid = ''plan_'' @ task_id @ ''_'' @ hex8"
  define entry where "entry = pid @ '':validate_inputs''"
  define prep where "prep = pid @ '':prepare_assets''"
  define verify where "verify = pid @ '':verify_output''"
  define acts where "acts = action_steps pid prep 1 actions"
  define as where "as = map (action_id pid) [1..<1 + length actions]"
  have ids_acts: "map ps_id acts = as" by (simp add: acts_def as_def action_steps_shape)
  have steps: "fp_steps ?p = [new_step entry ''fulfillment.validate_inputs'' [] [],
      new_step prep ''fulfillment.prepare_assets'' [entry] []] @ acts
      @ [new_step verify ''fulfillment.verify_output'' (if as \<noteq> [] then as else [prep]) []]"
    and fields: "fp_plan_id ?p = pid" "fp_task_id ?p = task_id"
    by (simp_all only: build_execution_graph_v2_def Let_def pid_def [symmetric] entry_def [symmetric]
        prep_def [symmetric] verify_def [symmetric] acts_def [symmetric] ids_acts fulfillment_plan.select_convs)
  have names: "entry \<notin> set as" "prep \<notin> set as" "verify \<notin> set as" "entry \<noteq> prep" "entry \<noteq> verify" "prep \<noteq> verify"
    by (auto simp: entry_def prep_def verify_def as_def)
  have dist_as: "distinct as" by (simp add: as_def distinct_map inj_on_def action_id_inj)
  have idl: "map ps_id (fp_steps ?p) = [entry, prep] @ as @ [verify]"
    using steps ids_acts by (simp add: new_step_def)
  have dist: "distinct (map ps_id (fp_steps ?p))" using names dist_as by (auto simp: idl)
  have deps: "s \<in> set (fp_steps ?p) \<Longrightarrow> (ps_id s = entry \<and> ps_depends_on s = []) \<or> (ps_id s = prep \<and> ps_depends_on s = [entry])
      \<or> (ps_id s \<in> set as \<and> ps_depends_on s = [prep]) \<or> (ps_id s = verify \<and> ps_depends_on s = (if as \<noteq> [] then as else [prep]))" for s
  proof -
    assume "s \<in> set (fp_steps ?p)"
    then consider "s = new_step entry ''fulfillment.validate_inputs'' [] []"
      | "s = new_step prep ''fulfillment.prepare_assets'' [entry] []" | "s \<in> set acts"
      | "s = new_step verify ''fulfillment.verify_output'' (if as \<noteq> [] then as else [prep]) []"
      unfolding steps by auto
    then show ?thesis
    proof cases
      case 3
      then have "ps_id s \<in> set as" unfolding ids_acts [symmetric] by simp
      moreover have "ps_depends_on s = [prep]"
        using 3 action_steps_shape(2) [of pid prep 1 actions] by (simp add: acts_def)
      ultimately show ?thesis by blast
    qed (simp_all add: new_step_def)
  qed
  have idset: "ids ?p = {entry, prep, verify} \<union> set as"
    unfolding ids_def idl by auto
  have refs: "\<forall>s \<in> set (fp_steps ?p). set (ps_depends_on s) \<subseteq> ids ?p"
  proof
    fix s assume "s \<in> set (fp_steps ?p)"
    from deps [OF this] show "set (ps_depends_on s) \<subseteq> ids ?p" unfolding idset by (auto split: if_splits)
  qed
  have E: "plan_edges ?p \<subseteq> {(entry, y) | y. False} \<union> {(prep, entry)} \<union> {(x, prep) | x. x \<in> set as} \<union> {(verify, y) | y. y \<in> set as \<union> {prep}}"
  proof
    fix x assume "x \<in> plan_edges ?p"
    then obtain s d where s: "x = (ps_id s, d)" "s \<in> set (fp_steps ?p)" "d \<in> set (ps_depends_on s)"
      by (auto simp: plan_edges_distinct [OF dist])
    from deps [OF s(2)] s show "x \<in> {(entry, y) | y. False} \<union> {(prep, entry)} \<union> {(x, prep) | x. x \<in> set as}
        \<union> {(verify, y) | y. y \<in> set as \<union> {prep}}" by (auto split: if_splits)
  qed
  have "finished (plan_edges ?p) (as @ [prep, entry])"
    using E names dist_as by (intro finished_fan) auto
  then have "finished (plan_edges ?p) (verify # as @ [prep, entry])" using E names by auto
  note fin = finished_acyclic [OF this]
  have nc: "\<not> has_cycle ?p"
  proof
    assume "has_cycle ?p"
    then obtain z where z: "(z, z) \<in> (plan_edges ?p)\<^sup>+" using has_cycle_iff [of ?p] by blast
    then obtain y where "(z, y) \<in> plan_edges ?p" by (blast dest: tranclD)
    then have "z \<in> set (verify # as @ [prep, entry])" using E by auto
    with fin [OF this] z show False by blast
  qed
  have dup: "duplicate_errors [] (map ps_id (fp_steps ?p)) = []" by (rule duplicate_errors_distinct [OF dist]) simp
  have pre: "prefix_errors ?p = []"
  proof -
    have "\<forall>i \<in> set (map ps_id (fp_steps ?p)). py_startswith i (pid @ '':'')"
      unfolding idl by (auto simp: entry_def prep_def verify_def as_def action_id_def py_startswith_def)
    then show ?thesis by (simp only: prefix_errors_none fields)
  qed
  have ref: "reference_errors ?p = []"
    using refs by (simp only: reference_errors_none)
  have types_ok: "type_errors ?p = []"
    using action_steps_types [OF assms(2), of _ pid prep 1]
    by (auto simp: type_errors_def type_error_none steps new_step_def acts_def)
  have ne: "fp_steps ?p \<noteq> []" "fp_plan_id ?p \<noteq> []" "fp_task_id ?p \<noteq> []"
    using assms(1) by (simp_all add: steps fields) (simp add: pid_def)
  have valid: "validate_plan ?p = []"
    by (simp add: validate_plan_def Let_def ne nc dup pre ref types_ok)
  have "\<forall>s \<in> set (fp_steps ?p). distinct (ps_depends_on s)"
  proof
    fix s assume "s \<in> set (fp_steps ?p)"
    from deps [OF this] dist_as show "distinct (ps_depends_on s)" by (auto split: if_splits)
  qed
  with topological_order_cases [OF valid] valid show ?thesis by auto
qed

section \<open>Witnesses\<close>

definition w_dag :: "string list \<Rightarrow> fulfillment_plan" where
  "w_dag deps = \<lparr>fp_plan_id = ''p'', fp_task_id = ''t'',
     fp_steps = [new_step ''p:b'' ''seo.audit'' deps [], new_step ''p:a'' ''crm.read'' [] []],
     fp_risk = [], fp_artifacts = [], fp_status = PLAN_PLANNED\<rparr>"

lemma w_dag_valid: "validate_plan (w_dag [''p:a'']) = []"
  by code_simp

lemma w_dag_valid_twice: "validate_plan (w_dag [''p:a'', ''p:a'']) = []"
  by code_simp

theorem topological_order_correct_witness:
  "\<exists>ordered. topological_order (w_dag [''p:a'']) = Inr ordered \<and> set ordered = {''p:a'', ''p:b''}"
proof -
  have d: "\<forall>s \<in> set (fp_steps (w_dag [''p:a''])). distinct (ps_depends_on s)"
    by (simp add: w_dag_def new_step_def)
  have "ids (w_dag [''p:a'']) = {''p:a'', ''p:b''}" by (simp add: w_dag_def new_step_def ids_def insert_commute)
  with topological_order_correct [OF w_dag_valid d] show ?thesis by auto
qed

theorem duplicate_dependency_reported_as_cycle_witness:
  "\<exists>remaining. topological_order (w_dag [''p:a'', ''p:a'']) = Inl (CycleDetected ''p'' remaining)"
proof -
  have "new_step ''p:b'' ''seo.audit'' [''p:a'', ''p:a''] [] \<in> set (fp_steps (w_dag [''p:a'', ''p:a'']))"
    by (simp add: w_dag_def)
  from duplicate_dependency_reported_as_cycle [OF w_dag_valid_twice this] show ?thesis
    by (simp add: new_step_def w_dag_def)
qed

theorem built_plan_is_valid_witness:
  "validate_plan (build_execution_graph_v2 ''0a1b2c3d'' ''t1'' [\<lparr>pa_type = Some ''seo.audit'', pa_payload = []\<rparr>] []) = []"
  using built_plan_is_valid [of "''t1''" "[\<lparr>pa_type = Some ''seo.audit'', pa_payload = []\<rparr>]" "''0a1b2c3d''" "[]"]
  by simp

end
