(* ===== verification/Dag_Exec.thy ===== *)
theory Dag_Exec
  imports Dag_Order
begin

text \<open>
  The executor of \<open>fulfillment/dag.py\<close>: \<open>execute_plan\<close>, \<open>resume_plan\<close> and \<open>finalize_plan\<close>. The
  signed post is an argument working on a state of its own (the world the steps act on); every
  dispatch is recorded, so the theorems can speak of what was sent and when.
\<close>

datatype post_reply = PostRaised string | PostReply int string "json option"

type_synonym 'w dispatch = "string \<Rightarrow> json \<Rightarrow> 'w \<Rightarrow> post_reply \<times> 'w"

record 'w exec_state =
  es_plan :: fulfillment_plan
  es_world :: 'w
  es_log :: "(string \<times> fulfillment_plan) list"
  es_progress :: bool

text \<open>The status and the output that are ingested for a reply.\<close>

fun reply_outcome :: "post_reply \<Rightarrow> string \<times> json" where
  "reply_outcome (PostRaised err) = (STEP_FAILED, JObj [(''error'', JStr err), (''status_code'', JNull)])"
| "reply_outcome (PostReply code body_text body) =
     (if code < 200 \<or> code \<ge> 300
      then (STEP_FAILED, JObj [(''error'', JStr (''HTTP '' @ show_int code)), (''status_code'', JInt code),
                               (''body'', JStr (take 512 body_text))])
      else (STEP_DONE, case body of Some j \<Rightarrow> j | None \<Rightarrow> JObj [(''raw'', JStr (take 512 body_text))]))"

definition step_service :: "plan_step \<Rightarrow> string" where
  "step_service s = takeWhile (\<lambda>c. c \<noteq> CHR ''.'') (ps_type s)"

definition step_action :: "plan_step \<Rightarrow> string" where
  "step_action s = drop 1 (dropWhile (\<lambda>c. c \<noteq> CHR ''.'') (ps_type s))"

definition step_envelope :: "fulfillment_plan \<Rightarrow> plan_step \<Rightarrow> json" where
  "step_envelope p s = JObj
     [(''task_id'', JStr (fp_task_id p @ '':'' @ ps_id s)), (''payload'', JObj (ps_payload s)),
      (''metadata'', JObj [(''action'', JStr (step_action s)), (''plan_id'', JStr (fp_plan_id p)),
                           (''step_id'', JStr (ps_id s))])]"

text \<open>
  The body of the inner loop for one id of the order. A dispatch is logged with the plan as it was before
  it. The ingestion of an outcome cannot raise here (lemma \<open>ingest_outcome\<close>).
\<close>

definition exec_step :: "'w dispatch \<Rightarrow> string \<Rightarrow> 'w exec_state \<Rightarrow> 'w exec_state" where
  "exec_step post sid st =
     (case find_step (es_plan st) sid of
        None \<Rightarrow> st
      | Some s \<Rightarrow>
          if ps_status s \<noteq> STEP_PENDING then st
          else if \<not> step_ready s (es_plan st) then st
          else
            let p = es_plan st;
                running = update_plan_status
                  (p\<lparr>fp_steps := update_step sid (\<lambda>s. s\<lparr>ps_status := STEP_RUNNING\<rparr>) (fp_steps p)\<rparr>);
                (reply, world) = post (''/dispatch/'' @ step_service s) (step_envelope p s) (es_world st);
                (status, output) = reply_outcome reply
            in (case ingest_result running sid status output of
                  Inl exc \<Rightarrow> st
                | Inr (p', ready) \<Rightarrow>
                    \<lparr>es_plan = p', es_world = world, es_log = es_log st @ [(sid, p)], es_progress = True\<rparr>))"

definition exec_pass :: "'w dispatch \<Rightarrow> string list \<Rightarrow> 'w exec_state \<Rightarrow> 'w exec_state" where
  "exec_pass post ordered st = fold (exec_step post) ordered (st\<lparr>es_progress := False\<rparr>)"

section \<open>The passes end\<close>

definition pending_count :: "plan_step list \<Rightarrow> nat" where
  "pending_count steps = length (filter (\<lambda>s. ps_status s = STEP_PENDING) steps)"

lemma update_step_twice:
  "(\<And>s. ps_id (f s) = ps_id s) \<Longrightarrow> update_step sid g (update_step sid f steps) = update_step sid (g \<circ> f) steps"
  by (induction steps) auto

lemma find_update_step:
  "(\<And>s. ps_id (f s) = ps_id s) \<Longrightarrow>
     List.find (\<lambda>s. ps_id s = i) (update_step sid f steps) =
       (if i = sid then map_option f (List.find (\<lambda>s. ps_id s = i) steps) else List.find (\<lambda>s. ps_id s = i) steps)"
  by (induction steps) auto

lemma store_result_fields [simp]:
  "ps_id (store_result status output s) = ps_id s" "ps_status (store_result status output s) = status"
  "ps_depends_on (store_result status output s) = ps_depends_on s" "ps_type (store_result status output s) = ps_type s"
  by (simp_all add: store_result_def Let_def)

lemma outcome_terminal: "fst (reply_outcome reply) \<in> {STEP_DONE, STEP_FAILED}"
  by (cases reply) auto

lemma status_distinct [simp]:
  "STEP_DONE \<noteq> STEP_PENDING" "STEP_FAILED \<noteq> STEP_PENDING" "STEP_RUNNING \<noteq> STEP_PENDING" "STEP_SKIPPED \<noteq> STEP_PENDING"
  "STEP_PENDING \<noteq> STEP_DONE" "STEP_PENDING \<noteq> STEP_FAILED" "STEP_PENDING \<noteq> STEP_RUNNING" "STEP_PENDING \<noteq> STEP_SKIPPED"
  "STEP_DONE \<noteq> STEP_FAILED" "STEP_FAILED \<noteq> STEP_DONE" "STEP_SKIPPED \<noteq> STEP_FAILED" "STEP_FAILED \<noteq> STEP_SKIPPED"
  "STEP_RUNNING \<noteq> STEP_DONE" "STEP_DONE \<noteq> STEP_RUNNING" "STEP_RUNNING \<noteq> STEP_FAILED" "STEP_FAILED \<noteq> STEP_RUNNING"
  "STEP_RUNNING \<noteq> STEP_SKIPPED" "STEP_SKIPPED \<noteq> STEP_RUNNING" "STEP_DONE \<noteq> STEP_SKIPPED" "STEP_SKIPPED \<noteq> STEP_DONE"
  by (simp_all add: step_status_defs)

text \<open>The plan after the dispatch of a step: the two updates of the step in one.\<close>

definition dispatched :: "string \<Rightarrow> post_reply \<Rightarrow> plan_step list \<Rightarrow> plan_step list" where
  "dispatched sid reply steps = update_step sid
     (store_result (fst (reply_outcome reply)) (snd (reply_outcome reply)) \<circ> (\<lambda>s. s\<lparr>ps_status := STEP_RUNNING\<rparr>)) steps"

lemma ingest_outcome:
  assumes "find_step p sid = Some s"
  shows "\<exists>ready. ingest_result
      (update_plan_status (p\<lparr>fp_steps := update_step sid (\<lambda>s. s\<lparr>ps_status := STEP_RUNNING\<rparr>) (fp_steps p)\<rparr>))
      sid (fst (reply_outcome reply)) (snd (reply_outcome reply))
    = Inr ((update_plan_status (p\<lparr>fp_steps := update_step sid (\<lambda>s. s\<lparr>ps_status := STEP_RUNNING\<rparr>) (fp_steps p)\<rparr>))
        \<lparr>fp_steps := dispatched sid reply (fp_steps p)\<rparr>, ready)"
  using assms outcome_terminal [of reply]
  by (auto simp: ingest_result_def find_step_def find_update_step update_plan_status_def dispatched_def
      update_step_twice TERMINAL_STEP_STATUSES_def Let_def)

lemma exec_step_cases:
  "exec_step post sid st = st \<or>
   (\<exists>s reply world status. find_step (es_plan st) sid = Some s \<and> ps_status s = STEP_PENDING
      \<and> step_ready s (es_plan st)
      \<and> post (''/dispatch/'' @ step_service s) (step_envelope (es_plan st) s) (es_world st) = (reply, world)
      \<and> exec_step post sid st =
          \<lparr>es_plan = (es_plan st)\<lparr>fp_status := status, fp_steps := dispatched sid reply (fp_steps (es_plan st))\<rparr>,
           es_world = world, es_log = es_log st @ [(sid, es_plan st)], es_progress = True\<rparr>)"
proof (cases "find_step (es_plan st) sid")
  case None
  then show ?thesis by (simp add: exec_step_def)
next
  case (Some s)
  obtain reply world where post: "post (''/dispatch/'' @ step_service s) (step_envelope (es_plan st) s) (es_world st) = (reply, world)"
    by fastforce
  show ?thesis
  proof (cases "ps_status s = STEP_PENDING \<and> step_ready s (es_plan st)")
    case False
    with Some show ?thesis by (auto simp: exec_step_def)
  next
    case True
    from ingest_outcome [OF Some, of reply] obtain ready where
      "ingest_result (update_plan_status ((es_plan st)\<lparr>fp_steps := update_step sid (\<lambda>s. s\<lparr>ps_status := STEP_RUNNING\<rparr>) (fp_steps (es_plan st))\<rparr>))
         sid (fst (reply_outcome reply)) (snd (reply_outcome reply)) = Inr
        ((update_plan_status ((es_plan st)\<lparr>fp_steps := update_step sid (\<lambda>s. s\<lparr>ps_status := STEP_RUNNING\<rparr>) (fp_steps (es_plan st))\<rparr>))
          \<lparr>fp_steps := dispatched sid reply (fp_steps (es_plan st))\<rparr>, ready)" by blast
    with Some True post show ?thesis
      by (auto simp: exec_step_def Let_def case_prod_beta update_plan_status_def)
  qed
qed

lemma exec_step_dispatches:
  assumes "find_step (es_plan st) sid = Some s" "ps_status s = STEP_PENDING" "step_ready s (es_plan st)"
  shows "es_progress (exec_step post sid st)"
proof -
  obtain reply world where post: "post (''/dispatch/'' @ step_service s) (step_envelope (es_plan st) s) (es_world st) = (reply, world)"
    by fastforce
  from ingest_outcome [OF assms(1), of reply] assms post show ?thesis
    by (auto simp: exec_step_def Let_def case_prod_beta)
qed

lemma pending_dispatched:
  "List.find (\<lambda>s. ps_id s = sid) steps = Some s \<Longrightarrow> ps_status s = STEP_PENDING \<Longrightarrow>
     Suc (pending_count (dispatched sid reply steps)) = pending_count steps"
  using outcome_terminal [of reply]
  by (induction steps) (auto simp: dispatched_def pending_count_def split: if_splits)

definition exec_pending :: "'w exec_state \<Rightarrow> nat" where
  "exec_pending st = pending_count (fp_steps (es_plan st))"

lemma exec_step_pending:
  "exec_pending (exec_step post sid st) \<le> exec_pending st \<and>
   (\<not> es_progress st \<longrightarrow> es_progress (exec_step post sid st) \<longrightarrow> exec_pending (exec_step post sid st) < exec_pending st)"
proof (rule disjE [OF exec_step_cases [of post sid st]])
  assume "exec_step post sid st = st"
  then show ?thesis by simp
next
  assume "\<exists>s reply world status. find_step (es_plan st) sid = Some s \<and> ps_status s = STEP_PENDING
      \<and> step_ready s (es_plan st)
      \<and> post (''/dispatch/'' @ step_service s) (step_envelope (es_plan st) s) (es_world st) = (reply, world)
      \<and> exec_step post sid st =
          \<lparr>es_plan = (es_plan st)\<lparr>fp_status := status, fp_steps := dispatched sid reply (fp_steps (es_plan st))\<rparr>,
           es_world = world, es_log = es_log st @ [(sid, es_plan st)], es_progress = True\<rparr>"
  then obtain s reply world status where s: "find_step (es_plan st) sid = Some s" "ps_status s = STEP_PENDING"
    and e: "exec_step post sid st =
          \<lparr>es_plan = (es_plan st)\<lparr>fp_status := status, fp_steps := dispatched sid reply (fp_steps (es_plan st))\<rparr>,
           es_world = world, es_log = es_log st @ [(sid, es_plan st)], es_progress = True\<rparr>" by blast
  with pending_dispatched [of sid "fp_steps (es_plan st)" s reply] show ?thesis
    by (simp add: exec_pending_def find_step_def)
qed

lemma exec_steps_pending:
  "exec_pending (fold (exec_step post) sids st) \<le> exec_pending st \<and>
   (\<not> es_progress st \<longrightarrow> es_progress (fold (exec_step post) sids st) \<longrightarrow>
      exec_pending (fold (exec_step post) sids st) < exec_pending st)"
proof (induction sids arbitrary: st)
  case (Cons sid sids)
  from Cons.IH [of "exec_step post sid st"] exec_step_pending [of post sid st] show ?case
    by auto
qed simp

lemma exec_pass_pending:
  "es_progress (exec_pass post ordered st) \<Longrightarrow> exec_pending (exec_pass post ordered st) < exec_pending st"
  using exec_steps_pending [of post ordered "st\<lparr>es_progress := False\<rparr>"]
  by (simp add: exec_pass_def exec_pending_def)

text \<open>\<open>while progress\<close>: another pass as long as the last one dispatched a step.\<close>

function exec_loop :: "'w dispatch \<Rightarrow> string list \<Rightarrow> 'w exec_state \<Rightarrow> 'w exec_state" where
  "exec_loop post ordered st =
     (let st' = exec_pass post ordered st in if es_progress st' then exec_loop post ordered st' else st')"
  by pat_completeness auto
termination
  by (relation "measure (\<lambda>(post, ordered, st). exec_pending st)") (auto simp: exec_pass_pending)

declare exec_loop.simps [simp del]

section \<open>execute\_plan and its companions\<close>

fun exception_text :: "plan_exception \<Rightarrow> string" where
  "exception_text (CycleDetected pid remaining) =
     ''Cycle detected in plan '' @ py_repr pid @ ''; remaining nodes: [''
       @ py_join '', '' (map py_repr remaining) @ '']''"
| "exception_text (InvalidStatus status) =
     ''ingest_result: invalid status '' @ py_repr status @ ''; must be one of [''
       @ py_join '', '' (map py_repr [STEP_DONE, STEP_FAILED, STEP_SKIPPED]) @ '']''"
| "exception_text (StepNotFound sid pid) =
     ''ingest_result: step_id '' @ py_repr sid @ '' not found in plan '' @ py_repr pid"

text \<open>\<open>plan.status = FAILED; plan.risk.setdefault("validation_errors", errors)\<close>.\<close>

definition reject_plan :: "string list \<Rightarrow> fulfillment_plan \<Rightarrow> fulfillment_plan" where
  "reject_plan errors p = p\<lparr>fp_status := PLAN_FAILED,
     fp_risk := (if dict_has (fp_risk p) ''validation_errors'' then fp_risk p
                 else AList.update ''validation_errors'' (JList (map JStr errors)) (fp_risk p))\<rparr>"

definition start_exec :: "fulfillment_plan \<Rightarrow> 'w \<Rightarrow> 'w exec_state" where
  "start_exec p world = \<lparr>es_plan = p, es_world = world, es_log = [], es_progress = True\<rparr>"

definition execute_plan :: "'w dispatch \<Rightarrow> fulfillment_plan \<Rightarrow> 'w \<Rightarrow> 'w exec_state" where
  "execute_plan post p world =
     (let st = start_exec p world
      in if fp_status p = PLAN_COMPLETE then st
         else let errors = validate_plan p
              in if errors \<noteq> [] then st\<lparr>es_plan := reject_plan errors p\<rparr>
                 else case topological_order p of
                        Inl exc \<Rightarrow> st\<lparr>es_plan := reject_plan [exception_text exc] p\<rparr>
                      | Inr ordered \<Rightarrow>
                          let st' = exec_loop post ordered st
                          in st'\<lparr>es_plan := update_plan_status (es_plan st')\<rparr>)"

definition resume_plan :: "fulfillment_plan \<Rightarrow> fulfillment_plan" where
  "resume_plan p = p\<lparr>fp_steps :=
     map (\<lambda>s. if ps_status s = STEP_RUNNING then s\<lparr>ps_status := STEP_PENDING\<rparr> else s) (fp_steps p)\<rparr>"

definition finalize_plan :: "fulfillment_plan \<Rightarrow> fulfillment_plan" where
  "finalize_plan p = update_plan_status p"

section \<open>Invariants of an execution\<close>

lemma exec_pass_invariant:
  assumes "\<And>sid st. P st \<Longrightarrow> P (exec_step post sid st)" "\<And>st b. P st \<Longrightarrow> P (st\<lparr>es_progress := b\<rparr>)" "P st"
  shows "P (exec_pass post ordered st)"
proof -
  have "P st \<Longrightarrow> P (fold (exec_step post) sids st)" for sids st
    by (induction sids arbitrary: st) (simp_all add: assms(1))
  with assms(2,3) show ?thesis by (simp add: exec_pass_def)
qed

lemma exec_loop_invariant:
  "(\<And>sid st. P st \<Longrightarrow> P (exec_step post sid st)) \<Longrightarrow> (\<And>st b. P st \<Longrightarrow> P (st\<lparr>es_progress := b\<rparr>)) \<Longrightarrow> P st \<Longrightarrow>
     P (exec_loop post ordered st)"
proof (induction post ordered st rule: exec_loop.induct)
  case (1 post ordered st)
  have "P (exec_pass post ordered st)" by (rule exec_pass_invariant) (use 1 in auto)
  with 1 show ?case by (subst exec_loop.simps) (simp add: Let_def)
qed

text \<open>What a dispatch does to the steps: ids, types and dependencies stay, one status changes.\<close>

definition step_shape :: "plan_step list \<Rightarrow> (string \<times> string list) list" where
  "step_shape steps = map (\<lambda>s. (ps_id s, ps_depends_on s)) steps"

lemma step_shape_dispatched: "step_shape (dispatched sid reply steps) = step_shape steps"
  by (induction steps) (auto simp: dispatched_def step_shape_def)

lemma step_shape_ids: "step_shape steps = step_shape steps' \<Longrightarrow> map ps_id steps = map ps_id steps'"
proof -
  assume "step_shape steps = step_shape steps'"
  then have "map fst (step_shape steps) = map fst (step_shape steps')" by simp
  then show ?thesis by (simp add: step_shape_def comp_def)
qed

lemma exec_step_shape: "step_shape (fp_steps (es_plan (exec_step post sid st))) = step_shape (fp_steps (es_plan st))"
  using exec_step_cases [of post sid st] by (auto simp: step_shape_dispatched)

lemma exec_loop_shape: "step_shape (fp_steps (es_plan (exec_loop post ordered st))) = step_shape (fp_steps (es_plan st))"
  by (rule exec_loop_invariant [where P = "\<lambda>s. step_shape (fp_steps (es_plan s)) = step_shape (fp_steps (es_plan st))"])
     (simp_all add: exec_step_shape)

lemma find_dispatched:
  "List.find (\<lambda>s. ps_id s = i) (dispatched sid reply steps) =
     (if i = sid then map_option (\<lambda>s. store_result (fst (reply_outcome reply)) (snd (reply_outcome reply))
          (s\<lparr>ps_status := STEP_RUNNING\<rparr>)) (List.find (\<lambda>s. ps_id s = i) steps)
      else List.find (\<lambda>s. ps_id s = i) steps)"
  unfolding dispatched_def by (subst find_update_step) (simp_all add: comp_def)

text \<open>
  The log: a step is dispatched while it is pending and every dependency is done or skipped, no step twice,
  and a dispatched step has been settled by its reply.
\<close>

definition log_ok :: "'w exec_state \<Rightarrow> bool" where
  "log_ok st \<longleftrightarrow>
     (\<forall>(sid, q) \<in> set (es_log st). \<exists>s. find_step q sid = Some s \<and> ps_status s = STEP_PENDING \<and> step_ready s q)
     \<and> distinct (map fst (es_log st))
     \<and> (\<forall>sid \<in> set (map fst (es_log st)). \<exists>s. find_step (es_plan st) sid = Some s
          \<and> ps_status s \<in> {STEP_DONE, STEP_FAILED})"

lemma exec_step_log: "log_ok st \<Longrightarrow> log_ok (exec_step post sid st)"
proof (rule disjE [OF exec_step_cases [of post sid st]])
  assume ok: "log_ok st"
    and "\<exists>s reply world status. find_step (es_plan st) sid = Some s \<and> ps_status s = STEP_PENDING
      \<and> step_ready s (es_plan st)
      \<and> post (''/dispatch/'' @ step_service s) (step_envelope (es_plan st) s) (es_world st) = (reply, world)
      \<and> exec_step post sid st =
          \<lparr>es_plan = (es_plan st)\<lparr>fp_status := status, fp_steps := dispatched sid reply (fp_steps (es_plan st))\<rparr>,
           es_world = world, es_log = es_log st @ [(sid, es_plan st)], es_progress = True\<rparr>"
  then obtain s reply world status where s: "find_step (es_plan st) sid = Some s" "ps_status s = STEP_PENDING"
    "step_ready s (es_plan st)" and e: "exec_step post sid st =
          \<lparr>es_plan = (es_plan st)\<lparr>fp_status := status, fp_steps := dispatched sid reply (fp_steps (es_plan st))\<rparr>,
           es_world = world, es_log = es_log st @ [(sid, es_plan st)], es_progress = True\<rparr>" by blast
  have find: "find_step (es_plan (exec_step post sid st)) i =
      (if i = sid then map_option (\<lambda>s. store_result (fst (reply_outcome reply)) (snd (reply_outcome reply))
          (s\<lparr>ps_status := STEP_RUNNING\<rparr>)) (find_step (es_plan st) i) else find_step (es_plan st) i)" for i
    by (simp add: e find_step_def find_dispatched)
  have new: "sid \<notin> set (map fst (es_log st))" using ok s by (auto simp: log_ok_def)
  have "\<exists>t. find_step (es_plan (exec_step post sid st)) sid = Some t \<and> ps_status t \<in> {STEP_DONE, STEP_FAILED}"
    using s outcome_terminal [of reply] by (simp add: find)
  moreover have "\<exists>t. find_step (es_plan (exec_step post sid st)) i = Some t \<and> ps_status t \<in> {STEP_DONE, STEP_FAILED}"
    if "i \<in> set (map fst (es_log st))" for i
  proof -
    have "i \<noteq> sid" using new that by blast
    moreover have "\<exists>t. find_step (es_plan st) i = Some t \<and> ps_status t \<in> {STEP_DONE, STEP_FAILED}"
      using ok that unfolding log_ok_def by blast
    ultimately show ?thesis by (simp add: find)
  qed
  ultimately have "\<forall>i \<in> set (map fst (es_log (exec_step post sid st))).
      \<exists>t. find_step (es_plan (exec_step post sid st)) i = Some t \<and> ps_status t \<in> {STEP_DONE, STEP_FAILED}"
    by (simp add: e)
  then show ?thesis using ok s new by (simp add: log_ok_def e)
qed simp

lemma exec_loop_log: "log_ok st \<Longrightarrow> log_ok (exec_loop post ordered st)"
  by (rule exec_loop_invariant) (simp_all add: exec_step_log, simp add: log_ok_def)

lemma execute_plan_log: "log_ok (execute_plan post p world)"
proof -
  have "log_ok (exec_loop post ordered (start_exec p world))" for ordered
    by (rule exec_loop_log) (simp add: log_ok_def start_exec_def)
  then show ?thesis
    by (auto simp: execute_plan_def Let_def log_ok_def start_exec_def update_plan_status_def find_step_def
        split: sum.splits)
qed

text \<open>C5: The executor dispatches a step only while it is pending and only after every dependency has the status
  done or skipped in the plan at that moment, and it dispatches no step twice in one run, whatever the
  plan (valid or not) and whatever the services reply.\<close>

theorem dispatch_respects_dependencies:
  "distinct (map fst (es_log (execute_plan post p world)))
   \<and> (\<forall>(sid, q) \<in> set (es_log (execute_plan post p world)).
        \<exists>s. find_step q sid = Some s \<and> ps_status s = STEP_PENDING \<and> step_ready s q)"
  using execute_plan_log [of post p world] by (auto simp: log_ok_def)

section \<open>When the executor stops\<close>

lemma step_ready_iff:
  assumes "distinct (map ps_id (fp_steps p))"
  shows "step_ready s p \<longleftrightarrow> (\<forall>d \<in> set (ps_depends_on s).
    \<exists>t \<in> set (fp_steps p). ps_id t = d \<and> ps_status t \<in> {STEP_DONE, STEP_SKIPPED})"
proof -
  have "map_of (by_id ps_status (fp_steps p)) d = Some v \<longleftrightarrow> (\<exists>t \<in> set (fp_steps p). ps_id t = d \<and> ps_status t = v)" for d v
    using assms by (auto simp: by_id_distinct map_of_eq_Some_iff comp_def)
  then show ?thesis by (auto simp: step_ready_def Let_def list_all_iff)
qed

lemma find_step_distinct:
  "distinct (map ps_id (fp_steps p)) \<Longrightarrow> s \<in> set (fp_steps p) \<Longrightarrow> find_step p (ps_id s) = Some s"
proof -
  have "distinct (map ps_id steps) \<Longrightarrow> s \<in> set steps \<Longrightarrow> List.find (\<lambda>t. ps_id t = ps_id s) steps = Some s" for steps
    by (induction steps) auto
  then show "distinct (map ps_id (fp_steps p)) \<Longrightarrow> s \<in> set (fp_steps p) \<Longrightarrow> find_step p (ps_id s) = Some s"
    by (simp add: find_step_def)
qed

text \<open>A step that is pending and ready, by id.\<close>

definition dispatchable :: "fulfillment_plan \<Rightarrow> string \<Rightarrow> bool" where
  "dispatchable p sid \<longleftrightarrow> (\<exists>s. find_step p sid = Some s \<and> ps_status s = STEP_PENDING \<and> step_ready s p)"

lemma progress_kept: "es_progress st \<Longrightarrow> es_progress (fold (exec_step post) sids st)"
proof (induction sids arbitrary: st)
  case (Cons sid sids)
  then have "es_progress (exec_step post sid st)" using exec_step_cases [of post sid st] by auto
  with Cons.IH show ?case by simp
qed simp

lemma idle_pass:
  "\<not> es_progress (fold (exec_step post) sids st) \<Longrightarrow>
     fold (exec_step post) sids st = st \<and> (\<forall>sid \<in> set sids. \<not> dispatchable (es_plan st) sid)"
proof (induction sids arbitrary: st)
  case (Cons sid sids)
  have no: "\<not> es_progress (exec_step post sid st)"
    using Cons.prems progress_kept [of "exec_step post sid st" post sids] by auto
  then have same: "exec_step post sid st = st" using exec_step_cases [of post sid st] by auto
  have "\<not> dispatchable (es_plan st) sid"
    using no exec_step_dispatches [of st sid _ post] by (auto simp: dispatchable_def)
  with Cons same show ?case by simp
qed simp

lemma exec_loop_idle: "sid \<in> set ordered \<Longrightarrow> \<not> dispatchable (es_plan (exec_loop post ordered st)) sid"
proof (induction post ordered st rule: exec_loop.induct)
  case (1 post ordered st)
  show ?case
  proof (cases "es_progress (exec_pass post ordered st)")
    case True
    with 1 show ?thesis by (subst exec_loop.simps) (simp add: Let_def)
  next
    case False
    from idle_pass [OF False [unfolded exec_pass_def]] 1(2) False show ?thesis
      by (subst exec_loop.simps) (simp add: Let_def exec_pass_def)
  qed
qed

definition runnable_plan :: "fulfillment_plan \<Rightarrow> bool" where
  "runnable_plan p \<longleftrightarrow> fp_status p \<noteq> PLAN_COMPLETE \<and> validate_plan p = []
     \<and> list_all (\<lambda>s. distinct (ps_depends_on s)) (fp_steps p)"

lemma execute_runnable:
  assumes "runnable_plan p"
  obtains ordered where "execute_plan post p world
      = (exec_loop post ordered (start_exec p world))
          \<lparr>es_plan := update_plan_status (es_plan (exec_loop post ordered (start_exec p world)))\<rparr>"
    "set ordered = ids p"
proof -
  from assms have v: "validate_plan p = []" "\<forall>s \<in> set (fp_steps p). distinct (ps_depends_on s)"
    by (auto simp: runnable_plan_def list_all_iff)
  from topological_order_cases [OF v(1)] v(2) obtain ordered where "topological_order p = Inr ordered" "set ordered = ids p"
    by auto
  with that [of ordered] v assms show thesis by (simp add: execute_plan_def runnable_plan_def Let_def)
qed

lemma final_steps: "step_ready s (update_plan_status p) = step_ready s p"
  "dispatchable (update_plan_status p) sid = dispatchable p sid" "fp_steps (update_plan_status p) = fp_steps p"
  by (simp_all add: step_ready_def dispatchable_def find_step_def update_plan_status_def)

lemma final_pending:
  assumes "runnable_plan p" "s \<in> set (fp_steps (es_plan (execute_plan post p world)))" "ps_status s = STEP_PENDING"
  shows "(\<exists>d \<in> set (ps_depends_on s). \<forall>t \<in> set (fp_steps (es_plan (execute_plan post p world))).
        ps_id t = d \<longrightarrow> ps_status t \<notin> {STEP_DONE, STEP_SKIPPED})
    \<and> fp_status (es_plan (execute_plan post p world))
        = derived_plan_status (fp_steps (es_plan (execute_plan post p world)))"
proof -
  from execute_runnable [OF assms(1), of post world] obtain ordered where e: "execute_plan post p world
      = (exec_loop post ordered (start_exec p world))
          \<lparr>es_plan := update_plan_status (es_plan (exec_loop post ordered (start_exec p world)))\<rparr>"
    and o: "set ordered = ids p" .
  let ?q = "es_plan (exec_loop post ordered (start_exec p world))"
  have "step_shape (fp_steps ?q) = step_shape (fp_steps p)" by (simp add: exec_loop_shape start_exec_def)
  then have q: "map ps_id (fp_steps ?q) = map ps_id (fp_steps p)" by (rule step_shape_ids)
  have dist: "distinct (map ps_id (fp_steps ?q))"
    using assms(1) validate_facts(4) [of p] by (simp add: q runnable_plan_def)
  have s: "s \<in> set (fp_steps ?q)" using assms(2) by (simp add: e final_steps)
  have "ps_id s \<in> set (map ps_id (fp_steps p))" using s by (metis image_eqI list.set_map q)
  then have "ps_id s \<in> set ordered" using o by (simp only: ids_def)
  then have "\<not> dispatchable ?q (ps_id s)" by (rule exec_loop_idle)
  then have "\<not> step_ready s ?q" using find_step_distinct [OF dist s] assms(3) by (simp add: dispatchable_def)
  then show ?thesis
    by (auto simp: step_ready_iff [OF dist] e update_plan_status_def)
qed

text \<open>C35: The execution of a plan that is valid, not yet complete, and lists no dependency of a step twice ends with no
  dispatchable step left: every step that is still pending waits
  for a dependency that is neither done nor skipped, and the plan's status is the one derived from its steps.\<close>

theorem execution_is_exhaustive:
  assumes "runnable_plan p" "s \<in> set (fp_steps (es_plan (execute_plan post p world)))" "ps_status s = STEP_PENDING"
  shows "(\<exists>d \<in> set (ps_depends_on s). \<forall>t \<in> set (fp_steps (es_plan (execute_plan post p world))).
        ps_id t = d \<longrightarrow> ps_status t \<notin> {STEP_DONE, STEP_SKIPPED})
    \<and> fp_status (es_plan (execute_plan post p world))
        = derived_plan_status (fp_steps (es_plan (execute_plan post p world)))"
  using final_pending [OF assms] .

section \<open>When every service succeeds\<close>

definition healthy :: "'w dispatch \<Rightarrow> bool" where
  "healthy post \<longleftrightarrow> (\<forall>path env world. fst (reply_outcome (fst (post path env world))) = STEP_DONE)"

definition unfailed :: "plan_step list \<Rightarrow> bool" where
  "unfailed steps \<longleftrightarrow> list_all (\<lambda>s. ps_status s \<in> set [STEP_PENDING, STEP_DONE, STEP_SKIPPED]) steps"

lemma dispatched_unfailed:
  "fst (reply_outcome reply) = STEP_DONE \<Longrightarrow> unfailed steps \<Longrightarrow> unfailed (dispatched sid reply steps)"
  by (induction steps) (auto simp: dispatched_def unfailed_def)

lemma exec_step_unfailed:
  assumes "healthy post" "unfailed (fp_steps (es_plan st))"
  shows "unfailed (fp_steps (es_plan (exec_step post sid st)))"
proof (rule disjE [OF exec_step_cases [of post sid st]])
  assume "\<exists>s reply world status. find_step (es_plan st) sid = Some s \<and> ps_status s = STEP_PENDING
      \<and> step_ready s (es_plan st)
      \<and> post (''/dispatch/'' @ step_service s) (step_envelope (es_plan st) s) (es_world st) = (reply, world)
      \<and> exec_step post sid st =
          \<lparr>es_plan = (es_plan st)\<lparr>fp_status := status, fp_steps := dispatched sid reply (fp_steps (es_plan st))\<rparr>,
           es_world = world, es_log = es_log st @ [(sid, es_plan st)], es_progress = True\<rparr>"
  then obtain s reply world status where
    post: "post (''/dispatch/'' @ step_service s) (step_envelope (es_plan st) s) (es_world st) = (reply, world)"
    and e: "exec_step post sid st =
          \<lparr>es_plan = (es_plan st)\<lparr>fp_status := status, fp_steps := dispatched sid reply (fp_steps (es_plan st))\<rparr>,
           es_world = world, es_log = es_log st @ [(sid, es_plan st)], es_progress = True\<rparr>" by blast
  have "fst (reply_outcome reply) = STEP_DONE"
    using assms(1) post unfolding healthy_def by (metis fst_conv)
  with assms(2) show ?thesis by (simp add: e dispatched_unfailed)
qed (simp add: assms(2))

lemma exec_loop_unfailed:
  assumes "healthy post" "unfailed (fp_steps (es_plan st))"
  shows "unfailed (fp_steps (es_plan (exec_loop post ordered st)))"
  by (rule exec_loop_invariant [where P = "\<lambda>st. unfailed (fp_steps (es_plan st))"])
     (simp_all add: exec_step_unfailed assms)

lemma no_pending_left:
  assumes "wf ((plan_edges p)\<inverse>)" "map ps_id steps = map ps_id (fp_steps p)"
    and "\<forall>s \<in> set steps. ps_status s = STEP_PENDING \<longrightarrow>
      (\<exists>d \<in> set (ps_depends_on s). (ps_id s, d) \<in> plan_edges p
         \<and> (\<exists>t \<in> set steps. ps_id t = d \<and> ps_status t = STEP_PENDING))"
  shows "\<forall>s \<in> set steps. ps_status s \<noteq> STEP_PENDING"
proof (rule ccontr)
  let ?B = "{ps_id s | s. s \<in> set steps \<and> ps_status s = STEP_PENDING}"
  assume "\<not> (\<forall>s \<in> set steps. ps_status s \<noteq> STEP_PENDING)"
  then obtain x where "x \<in> ?B" by blast
  with assms(1) obtain z where z: "z \<in> ?B" "\<And>y. (y, z) \<in> (plan_edges p)\<inverse> \<Longrightarrow> y \<notin> ?B"
    by (rule wfE_min) blast
  from z(1) obtain s where "s \<in> set steps" "ps_status s = STEP_PENDING" "ps_id s = z" by blast
  with assms(3) z(2) show False by blast
qed

text \<open>C27: A plan that is valid, not marked complete, and lists no dependency of a step twice, and whose steps are pending, done
  or skipped, runs to completion when every service answers with a success: all its steps end done or skipped and the plan is complete (so the executor never stops early
  and never waits for a step it will not run).\<close>

theorem healthy_execution_completes:
  assumes "runnable_plan p" "unfailed (fp_steps p)" "healthy post"
  shows "fp_status (es_plan (execute_plan post p world)) = PLAN_COMPLETE
    \<and> (\<forall>s \<in> set (fp_steps (es_plan (execute_plan post p world))). ps_status s \<in> {STEP_DONE, STEP_SKIPPED})"
proof -
  from execute_runnable [OF assms(1), of post world] obtain ordered where e: "execute_plan post p world
      = (exec_loop post ordered (start_exec p world))
          \<lparr>es_plan := update_plan_status (es_plan (exec_loop post ordered (start_exec p world)))\<rparr>"
    and o: "set ordered = ids p" .
  let ?st = "exec_loop post ordered (start_exec p world)"
  let ?steps = "fp_steps (es_plan ?st)"
  have final: "fp_steps (es_plan (execute_plan post p world)) = ?steps" by (simp add: e final_steps)
  have shape: "step_shape ?steps = step_shape (fp_steps p)" by (simp add: exec_loop_shape start_exec_def)
  note ids = step_shape_ids [OF shape]
  have v: "validate_plan p = []" using assms(1) by (simp add: runnable_plan_def)
  note facts = validate_facts [OF v]
  have ok: "unfailed ?steps" by (rule exec_loop_unfailed) (simp_all add: assms start_exec_def)
  have "acyclic (plan_edges p)" using has_cycle_iff [of p] facts(6) by (auto simp: acyclic_def)
  then have wf: "wf ((plan_edges p)\<inverse>)" by (rule finite_acyclic_wf_converse [OF finite_plan_edges [OF facts(4)]])
  have blocked: "\<exists>d \<in> set (ps_depends_on s). (ps_id s, d) \<in> plan_edges p \<and> (\<exists>t \<in> set ?steps. ps_id t = d \<and> ps_status t = STEP_PENDING)"
    if s: "s \<in> set ?steps" "ps_status s = STEP_PENDING" for s
  proof -
    from final_pending [OF assms(1), of s post world] s obtain d where d: "d \<in> set (ps_depends_on s)"
      "\<forall>t \<in> set ?steps. ps_id t = d \<longrightarrow> ps_status t \<notin> {STEP_DONE, STEP_SKIPPED}" unfolding final by auto
    have "(ps_id s, ps_depends_on s) \<in> set (step_shape (fp_steps p))"
      using s(1) unfolding shape [symmetric] by (auto simp: step_shape_def)
    then obtain s0 where s0: "s0 \<in> set (fp_steps p)" "ps_id s0 = ps_id s" "ps_depends_on s0 = ps_depends_on s"
      by (auto simp: step_shape_def)
    have known: "d \<in> ids p" using bspec [OF facts(5) s0(1)] s0(3) d(1) by (metis subsetD)
    then have edge: "(ps_id s, d) \<in> plan_edges p"
      using s0 d(1) by (auto simp: plan_edges_distinct [OF facts(4)]) metis
    from known obtain t where t: "t \<in> set ?steps" "ps_id t = d"
      unfolding ids_def ids [symmetric] by auto
    with ok d(2) have "ps_status t = STEP_PENDING" by (auto simp: unfailed_def list_all_iff)
    with edge d(1) t show ?thesis by blast
  qed
  have "\<forall>s \<in> set ?steps. ps_status s \<noteq> STEP_PENDING"
    by (rule no_pending_left [OF wf ids]) (use blocked in blast)
  with ok have done_all: "\<forall>s \<in> set ?steps. ps_status s \<in> {STEP_DONE, STEP_SKIPPED}"
    by (auto simp: unfailed_def list_all_iff)
  then have "derived_plan_status ?steps = PLAN_COMPLETE"
    by (fastforce simp: derived_plan_status_def list_all_iff)
  with done_all show ?thesis by (simp add: final) (simp add: e update_plan_status_def)
qed

section \<open>Resumption\<close>

text \<open>Resuming a plan puts back to pending exactly the steps that were running, keeps every other status, id
  and dependency, and so leaves the plan as valid as it was.\<close>

theorem resume_keeps_plan_valid:
  "(\<forall>s \<in> set (fp_steps (resume_plan p)). ps_status s \<noteq> STEP_RUNNING)
   \<and> step_shape (fp_steps (resume_plan p)) = step_shape (fp_steps p)
   \<and> filter (\<lambda>s. ps_status s \<notin> {STEP_RUNNING, STEP_PENDING}) (fp_steps (resume_plan p))
       = filter (\<lambda>s. ps_status s \<notin> {STEP_RUNNING, STEP_PENDING}) (fp_steps p)"
proof -
  let ?f = "\<lambda>s. if ps_status s = STEP_RUNNING then s\<lparr>ps_status := STEP_PENDING\<rparr> else s"
  have "filter (\<lambda>s. ps_status s \<notin> {STEP_RUNNING, STEP_PENDING}) (map ?f steps)
      = filter (\<lambda>s. ps_status s \<notin> {STEP_RUNNING, STEP_PENDING}) steps" for steps
    by (induction steps) auto
  then show ?thesis by (auto simp: resume_plan_def step_shape_def)
qed

section \<open>Witnesses\<close>

definition w_ok_post :: "nat dispatch" where
  "w_ok_post path env n = (PostReply 200 [] (Some (JObj [])), Suc n)"

definition w_bad_post :: "nat dispatch" where
  "w_bad_post path env n = (PostReply 503 [] None, Suc n)"

lemma w_dag_runnable: "runnable_plan (w_dag [''p:a''])"
  unfolding runnable_plan_def w_dag_valid by code_simp

lemma w_dag_unfailed: "unfailed (fp_steps (w_dag [''p:a'']))"
  by code_simp

theorem dispatch_respects_dependencies_witness:
  "distinct (map fst (es_log (execute_plan w_ok_post (w_dag [''p:a'']) 0)))"
  using dispatch_respects_dependencies [of w_ok_post "w_dag [''p:a'']" 0] by blast

lemma w_bad_run: "ps_status (fp_steps (es_plan (execute_plan w_bad_post (w_dag [''p:a'']) 0)) ! 0) = STEP_PENDING
    \<and> length (fp_steps (es_plan (execute_plan w_bad_post (w_dag [''p:a'']) 0))) = 2"
  by code_simp

theorem execution_is_exhaustive_witness:
  "fp_status (es_plan (execute_plan w_bad_post (w_dag [''p:a'']) 0))
     = derived_plan_status (fp_steps (es_plan (execute_plan w_bad_post (w_dag [''p:a'']) 0)))"
proof -
  have "fp_steps (es_plan (execute_plan w_bad_post (w_dag [''p:a'']) 0)) ! 0
      \<in> set (fp_steps (es_plan (execute_plan w_bad_post (w_dag [''p:a'']) 0)))"
    using w_bad_run by (intro nth_mem) simp
  from execution_is_exhaustive [OF w_dag_runnable this] w_bad_run show ?thesis by blast
qed

theorem healthy_execution_completes_witness:
  "fp_status (es_plan (execute_plan w_ok_post (w_dag [''p:a'']) 0)) = PLAN_COMPLETE"
proof -
  have "healthy w_ok_post" by (simp add: healthy_def w_ok_post_def)
  from healthy_execution_completes [OF w_dag_runnable w_dag_unfailed this] show ?thesis by blast
qed

theorem resume_keeps_plan_valid_witness:
  "step_shape (fp_steps (resume_plan (w_dag [''p:a'']))) = step_shape (fp_steps (w_dag [''p:a'']))"
  using resume_keeps_plan_valid [of "w_dag [''p:a'']"] by blast

end
