(* ===== verification/Approvals.thy ===== *)
theory Approvals
  imports Prelude "HOL-Library.List_Lexorder" "HOL-Library.Char_ord"
begin

text \<open>
  The operator approval queue, \<open>common/approvals.py\<close>: rows with a severity and a deadline, stored in a
  DynamoDB table and mirrored to a JSON file. The operations are written over the two storage
  functions (\<open>_load_all\<close>, \<open>_save\<close>); the locale \<open>row_store\<close> states what they need of them, and it is
  interpreted on the two ways the store runs: with the table reachable, and on the file alone. The
  last section shows what happens between the two.

  A time stamp text is \<open>IsoAt n\<close> when it is the rendering of whole second \<open>n\<close>, any other text is \<open>IsoText\<close>.
  Random ids and clock readings are arguments, and so is \<open>float(text)\<close>.
\<close>

record approval =
  ap_id :: string
  ap_kind :: string
  ap_payload :: "(string \<times> json) list"
  ap_risk_level :: string
  ap_severity :: string
  ap_ev_usd :: "rat option"
  ap_confidence :: "rat option"
  ap_status :: string
  ap_ttl_expires_at :: iso_time
  ap_decided_by :: "string option"
  ap_decided_at :: "string option"
  ap_created_at :: string

definition SEVERITY_EMERGENCY :: string where "SEVERITY_EMERGENCY = ''emergency''"
definition SEVERITY_ROUTINE :: string where "SEVERITY_ROUTINE = ''routine''"
definition STATUS_PENDING :: string where "STATUS_PENDING = ''pending''"
definition STATUS_APPROVED :: string where "STATUS_APPROVED = ''approved''"
definition STATUS_REJECTED :: string where "STATUS_REJECTED = ''rejected''"
definition STATUS_EXPIRED :: string where "STATUS_EXPIRED = ''expired''"

lemmas approval_status_defs = STATUS_PENDING_def STATUS_APPROVED_def STATUS_REJECTED_def STATUS_EXPIRED_def

lemma approval_status_distinct [simp]:
  "STATUS_PENDING \<noteq> STATUS_APPROVED" "STATUS_PENDING \<noteq> STATUS_REJECTED" "STATUS_PENDING \<noteq> STATUS_EXPIRED"
  "STATUS_APPROVED \<noteq> STATUS_PENDING" "STATUS_REJECTED \<noteq> STATUS_PENDING" "STATUS_EXPIRED \<noteq> STATUS_PENDING"
  "STATUS_APPROVED \<noteq> STATUS_REJECTED" "STATUS_APPROVED \<noteq> STATUS_EXPIRED" "STATUS_REJECTED \<noteq> STATUS_APPROVED"
  "STATUS_EXPIRED \<noteq> STATUS_APPROVED"
  by (simp_all add: approval_status_defs)

definition severity_for :: "string \<Rightarrow> string" where
  "severity_for risk_level =
     (if py_lower (py_strip risk_level) \<in> set [''critical'', ''high''] then SEVERITY_EMERGENCY else SEVERITY_ROUTINE)"

definition default_ttl_sec :: "(string \<Rightarrow> rat option) \<Rightarrow> environ \<Rightarrow> string \<Rightarrow> rat" where
  "default_ttl_sec to_float env severity =
     (let (raw, dflt) = (if severity = SEVERITY_EMERGENCY
                         then (getenv env ''SAMUS_APPROVAL_TTL_EMERGENCY_SEC'' [], 4 * 3600)
                         else (getenv env ''SAMUS_APPROVAL_TTL_ROUTINE_SEC'' [], 72 * 3600))
      in if raw = [] then dflt else (case to_float raw of None \<Rightarrow> dflt | Some t \<Rightarrow> t))"

section \<open>Storage\<close>

text \<open>Which parts of the storage answer during an operation.\<close>

record store_health =
  sh_ddb_put :: bool
  sh_ddb_scan :: bool
  sh_json_write :: bool
  sh_json_read :: bool

record approval_store =
  as_json :: "(string \<times> approval) list"
  as_ddb :: "(string \<times> approval) list"

definition json_save :: "store_health \<Rightarrow> approval \<Rightarrow> approval_store \<Rightarrow> approval_store" where
  "json_save h row st =
     (if sh_json_write h
      then st\<lparr>as_json := AList.update (ap_id row) row (if sh_json_read h then as_json st else [])\<rparr> else st)"

definition ddb_put :: "store_health \<Rightarrow> approval \<Rightarrow> approval_store \<Rightarrow> approval_store" where
  "ddb_put h row st = (if sh_ddb_put h then st\<lparr>as_ddb := AList.update (ap_id row) row (as_ddb st)\<rparr> else st)"

definition save_row :: "store_health \<Rightarrow> approval \<Rightarrow> approval_store \<Rightarrow> approval_store" where
  "save_row h row st = json_save h row (ddb_put h row st)"

definition load_all :: "store_health \<Rightarrow> approval_store \<Rightarrow> (string \<times> approval) list" where
  "load_all h st =
     fold (\<lambda>(k, row) merged. if ap_id row = [] then merged else AList.update (ap_id row) row merged)
       (if sh_ddb_scan h then as_ddb st else []) (if sh_json_read h then as_json st else [])"

section \<open>Operations over the storage functions\<close>

definition due :: "rat \<Rightarrow> approval \<Rightarrow> bool" where
  "due now row = (ap_status row = STATUS_PENDING \<and> ap_ttl_expires_at row \<noteq> IsoText []
     \<and> now \<ge> of_int (iso_to_epoch (ap_ttl_expires_at row)))"

definition expire_if_due :: "(approval \<Rightarrow> 's \<Rightarrow> 's) \<Rightarrow> rat \<Rightarrow> approval \<Rightarrow> 's \<Rightarrow> approval \<times> 's" where
  "expire_if_due save now row s =
     (if due now row then (let row' = row\<lparr>ap_status := STATUS_EXPIRED\<rparr> in (row', save row' s)) else (row, s))"

definition create_row ::
  "(string \<Rightarrow> rat option) \<Rightarrow> environ \<Rightarrow> string \<Rightarrow> rat \<Rightarrow> string \<Rightarrow> string \<Rightarrow> (string \<times> json) list \<Rightarrow> string
     \<Rightarrow> rat option \<Rightarrow> rat option \<Rightarrow> rat option \<Rightarrow> approval" where
  "create_row to_float env new_id now created_at kind payload risk_level ev_usd confidence ttl_seconds =
     (let level = py_lower (py_strip (py_or risk_level ''normal''));
          severity = severity_for level;
          ttl = (case ttl_seconds of Some t \<Rightarrow> if t \<noteq> 0 then t else default_ttl_sec to_float env severity
                                   | None \<Rightarrow> default_ttl_sec to_float env severity)
      in \<lparr>ap_id = new_id, ap_kind = kind, ap_payload = payload, ap_risk_level = level, ap_severity = severity,
          ap_ev_usd = ev_usd, ap_confidence = confidence, ap_status = STATUS_PENDING,
          ap_ttl_expires_at = iso_at (now + max 1 ttl), ap_decided_by = None, ap_decided_at = None,
          ap_created_at = created_at\<rparr>)"

definition create_approval ::
  "(approval \<Rightarrow> 's \<Rightarrow> 's) \<Rightarrow> (string \<Rightarrow> rat option) \<Rightarrow> environ \<Rightarrow> string \<Rightarrow> rat \<Rightarrow> string \<Rightarrow> string
     \<Rightarrow> (string \<times> json) list \<Rightarrow> string \<Rightarrow> rat option \<Rightarrow> rat option \<Rightarrow> rat option \<Rightarrow> 's \<Rightarrow> approval \<times> 's" where
  "create_approval save to_float env new_id now created_at kind payload risk_level ev_usd confidence ttl_seconds s =
     (let row = create_row to_float env new_id now created_at kind payload risk_level ev_usd confidence ttl_seconds
      in (row, save row s))"

definition get_approval ::
  "('s \<Rightarrow> (string \<times> approval) list) \<Rightarrow> (approval \<Rightarrow> 's \<Rightarrow> 's) \<Rightarrow> rat \<Rightarrow> string \<Rightarrow> 's \<Rightarrow> approval option \<times> 's" where
  "get_approval load save now approval_id s =
     (case map_of (load s) approval_id of
        None \<Rightarrow> (None, s)
      | Some row \<Rightarrow> (let (row', s') = expire_if_due save now row s in (Some row', s')))"

fun expire_rows :: "(approval \<Rightarrow> 's \<Rightarrow> 's) \<Rightarrow> rat \<Rightarrow> approval list \<Rightarrow> 's \<Rightarrow> approval list \<times> 's" where
  "expire_rows save now [] s = ([], s)"
| "expire_rows save now (r # rs) s =
     (let (r', s1) = expire_if_due save now r s; (rs', s2) = expire_rows save now rs s1 in (r' # rs', s2))"

definition list_approvals ::
  "('s \<Rightarrow> (string \<times> approval) list) \<Rightarrow> (approval \<Rightarrow> 's \<Rightarrow> 's) \<Rightarrow> rat \<Rightarrow> string \<Rightarrow> string \<Rightarrow> nat \<Rightarrow> 's
     \<Rightarrow> approval list \<times> 's" where
  "list_approvals load save now status kind limit s =
     (let (rows, s') = expire_rows save now (map snd (load s)) s;
          rows = (if status \<noteq> [] then filter (\<lambda>r. ap_status r = status) rows else rows);
          rows = (if kind \<noteq> [] then filter (\<lambda>r. ap_kind r = kind) rows else rows)
      in (take limit (sort_key ap_created_at rows), s'))"

definition decision_status :: "string \<Rightarrow> string option" where
  "decision_status decision =
     map_of [(''approve'', STATUS_APPROVED), (''approved'', STATUS_APPROVED),
             (''reject'', STATUS_REJECTED), (''rejected'', STATUS_REJECTED)] (py_lower (py_strip decision))"

definition decide_approval ::
  "('s \<Rightarrow> (string \<times> approval) list) \<Rightarrow> (approval \<Rightarrow> 's \<Rightarrow> 's) \<Rightarrow> rat \<Rightarrow> string \<Rightarrow> string \<Rightarrow> string \<Rightarrow> string \<Rightarrow> 's
     \<Rightarrow> approval option \<times> 's" where
  "decide_approval load save now decided_at approval_id decision decided_by s =
     (case decision_status decision of
        None \<Rightarrow> (None, s)
      | Some normalized \<Rightarrow>
          (case get_approval load save now approval_id s of
             (None, s') \<Rightarrow> (None, s')
           | (Some row, s') \<Rightarrow>
               if ap_status row \<noteq> STATUS_PENDING then (None, s')
               else let row' = row\<lparr>ap_status := normalized, ap_decided_by := Some decided_by,
                                   ap_decided_at := Some decided_at\<rparr>
                    in (Some row', save row' s')))"

text \<open>One id of \<open>batch_approve\<close>: the reason it is skipped, or \<^const>\<open>None\<close> when it was approved.\<close>

definition batch_item ::
  "('s \<Rightarrow> (string \<times> approval) list) \<Rightarrow> (approval \<Rightarrow> 's \<Rightarrow> 's) \<Rightarrow> rat \<Rightarrow> string \<Rightarrow> string \<Rightarrow> string \<Rightarrow> 's
     \<Rightarrow> string option \<times> 's" where
  "batch_item load save now decided_at decided_by i s =
     (case get_approval load save now i s of
        (None, s1) \<Rightarrow> (Some ''not_pending'', s1)
      | (Some row, s1) \<Rightarrow>
          if ap_status row \<noteq> STATUS_PENDING then (Some ''not_pending'', s1)
          else if ap_severity row = SEVERITY_EMERGENCY then (Some ''emergency_requires_per_item'', s1)
          else (case decide_approval load save now decided_at i ''approved'' decided_by s1 of
                  (Some r, s2) \<Rightarrow> (None, s2)
                | (None, s2) \<Rightarrow> (Some ''decide_failed'', s2)))"

fun batch_approve ::
  "('s \<Rightarrow> (string \<times> approval) list) \<Rightarrow> (approval \<Rightarrow> 's \<Rightarrow> 's) \<Rightarrow> rat \<Rightarrow> string \<Rightarrow> string \<Rightarrow> string list \<Rightarrow> 's
     \<Rightarrow> (string list \<times> (string \<times> string) list) \<times> 's" where
  "batch_approve load save now decided_at decided_by [] s = (([], []), s)"
| "batch_approve load save now decided_at decided_by (i # ids) s =
     (let (why, s1) = batch_item load save now decided_at decided_by i s;
          ((ok, skipped), s2) = batch_approve load save now decided_at decided_by ids s1
      in ((case why of None \<Rightarrow> (i # ok, skipped) | Some w \<Rightarrow> (ok, (i, w) # skipped)), s2))"

definition is_currently_approved ::
  "('s \<Rightarrow> (string \<times> approval) list) \<Rightarrow> (approval \<Rightarrow> 's \<Rightarrow> 's) \<Rightarrow> rat \<Rightarrow> string \<Rightarrow> 's \<Rightarrow> bool \<times> 's" where
  "is_currently_approved load save now approval_id s =
     (case get_approval load save now approval_id s of
        (None, s') \<Rightarrow> (False, s')
      | (Some row, s') \<Rightarrow> (ap_status row = STATUS_APPROVED, s'))"

text \<open>The public operations as commands, each at its own clock reading.\<close>

datatype approval_op =
    Op_Create string rat string string "(string \<times> json) list" string "rat option" "rat option" "rat option"
  | Op_Get rat string
  | Op_List rat string string nat
  | Op_Decide rat string string string string
  | Op_Batch rat string string "string list"
  | Op_Check rat string

fun approval_step ::
  "('s \<Rightarrow> (string \<times> approval) list) \<Rightarrow> (approval \<Rightarrow> 's \<Rightarrow> 's) \<Rightarrow> (string \<Rightarrow> rat option) \<Rightarrow> environ \<Rightarrow> approval_op \<Rightarrow> 's \<Rightarrow> 's" where
  "approval_step load save to_float env (Op_Create i now stamp kind payload risk ev conf ttl) s =
     snd (create_approval save to_float env i now stamp kind payload risk ev conf ttl s)"
| "approval_step load save to_float env (Op_Get now i) s = snd (get_approval load save now i s)"
| "approval_step load save to_float env (Op_List now status kind limit) s = snd (list_approvals load save now status kind limit s)"
| "approval_step load save to_float env (Op_Decide now stamp i decision who) s = snd (decide_approval load save now stamp i decision who s)"
| "approval_step load save to_float env (Op_Batch now stamp who ids) s = snd (batch_approve load save now stamp who ids s)"
| "approval_step load save to_float env (Op_Check now i) s = snd (is_currently_approved load save now i s)"

fun approval_run ::
  "('s \<Rightarrow> (string \<times> approval) list) \<Rightarrow> (approval \<Rightarrow> 's \<Rightarrow> 's) \<Rightarrow> (string \<Rightarrow> rat option) \<Rightarrow> environ \<Rightarrow> approval_op list \<Rightarrow> 's \<Rightarrow> 's" where
  "approval_run load save to_float env [] s = s"
| "approval_run load save to_float env (op # ops) s =
     approval_run load save to_float env ops (approval_step load save to_float env op s)"

text \<open>The ids a command creates (random in the code, and never empty).\<close>

fun op_creates :: "approval_op \<Rightarrow> string set" where
  "op_creates (Op_Create i now stamp kind payload risk ev conf ttl) = {i}"
| "op_creates (Op_Get now i) = {}"
| "op_creates (Op_List now status kind limit) = {}"
| "op_creates (Op_Decide now stamp i decision who) = {}"
| "op_creates (Op_Batch now stamp who ids) = {}"
| "op_creates (Op_Check now i) = {}"

section \<open>The interface to storage\<close>

text \<open>
  \<open>good\<close> is an invariant of the storage under which a save is seen by the next load, and every row is found
  under its own id.
\<close>

locale row_store =
  fixes load :: "'s \<Rightarrow> (string \<times> approval) list"
    and save :: "approval \<Rightarrow> 's \<Rightarrow> 's"
    and good :: "'s \<Rightarrow> bool"
  assumes good_save: "good s \<Longrightarrow> ap_id r \<noteq> [] \<Longrightarrow> good (save r s)"
    and load_save: "good s \<Longrightarrow> ap_id r \<noteq> [] \<Longrightarrow> map_of (load (save r s)) = (map_of (load s))(ap_id r \<mapsto> r)"
    and load_keyed: "good s \<Longrightarrow> (k, r) \<in> set (load s) \<Longrightarrow> ap_id r = k \<and> k \<noteq> []"
    and load_distinct: "good s \<Longrightarrow> distinct (map fst (load s))"
begin

definition look :: "'s \<Rightarrow> string \<Rightarrow> approval option" where
  "look s k = map_of (load s) k"

lemma look_keyed: "good s \<Longrightarrow> look s k = Some r \<Longrightarrow> ap_id r = k \<and> k \<noteq> []"
  unfolding look_def by (auto dest: map_of_SomeD load_keyed)

lemma look_save: "good s \<Longrightarrow> ap_id r \<noteq> [] \<Longrightarrow> look (save r s) k = (if k = ap_id r then Some r else look s k)"
  by (simp add: look_def load_save)

text \<open>A row as it is after its deadline has been applied.\<close>

definition aged :: "rat \<Rightarrow> approval \<Rightarrow> approval" where
  "aged now r = (if due now r then r\<lparr>ap_status := STATUS_EXPIRED\<rparr> else r)"

lemma get_row: "good s \<Longrightarrow> fst (get_approval load save now i s) = map_option (aged now) (look s i)"
  by (cases "look s i") (simp_all add: get_approval_def expire_if_due_def aged_def look_def Let_def)

lemma get_good: "good s \<Longrightarrow> good (snd (get_approval load save now i s))"
proof (cases "look s i")
  case (Some r)
  assume good: "good s"
  with Some have "ap_id r \<noteq> []" using look_keyed by blast
  with Some good show ?thesis by (simp add: get_approval_def expire_if_due_def look_def good_save Let_def)
qed (simp add: get_approval_def look_def)

lemma get_look:
  assumes "good s"
  shows "look (snd (get_approval load save now i s)) k = (if k = i then map_option (aged now) (look s i) else look s k)"
proof (cases "look s i")
  case None
  then show ?thesis by (simp add: get_approval_def look_def)
next
  case (Some r)
  then have "ap_id r = i" "i \<noteq> []" using look_keyed [OF assms] by auto
  with Some assms show ?thesis
    by (simp add: get_approval_def expire_if_due_def aged_def look_def load_save Let_def)
qed

definition decide_post :: "rat \<Rightarrow> string \<Rightarrow> string \<Rightarrow> string \<Rightarrow> string \<Rightarrow> 's \<Rightarrow> approval option \<times> 's \<Rightarrow> bool" where
  "decide_post now stamp i decision who s = (\<lambda>(result, s').
     good s' \<and> (\<forall>k. k \<noteq> i \<longrightarrow> look s' k = look s k)
     \<and> (case result of
          Some r' \<Rightarrow> look s' i = Some r' \<and> (\<exists>r st. look s i = Some r \<and> ap_status r = STATUS_PENDING \<and> \<not> due now r
            \<and> decision_status decision = Some st
            \<and> r' = r\<lparr>ap_status := st, ap_decided_by := Some who, ap_decided_at := Some stamp\<rparr>)
        | None \<Rightarrow> look s' i = look s i \<or> look s' i = map_option (aged now) (look s i)))"

lemma decide_spec: "good s \<Longrightarrow> decide_post now stamp i decision who s (decide_approval load save now stamp i decision who s)"
proof (cases "decision_status decision")
  case None
  then show "good s \<Longrightarrow> ?thesis" by (simp add: decide_approval_def decide_post_def)
next
  case (Some st)
  assume good: "good s"
  obtain g s' where g: "get_approval load save now i s = (g, s')" by fastforce
  have gl: "good s'" "g = map_option (aged now) (look s i)"
    "\<And>k. look s' k = (if k = i then map_option (aged now) (look s i) else look s k)"
    using get_good [OF good, of now i] get_row [OF good, of now i] get_look [OF good, of now i] g by simp_all
  show ?thesis
  proof (cases "look s i")
    case None
    with Some g gl show ?thesis by (simp add: decide_approval_def decide_post_def)
  next
    case r: (Some r)
    then have key: "ap_id r = i" "i \<noteq> []" using look_keyed [OF good] by auto
    show ?thesis
    proof (cases "ap_status (aged now r) = STATUS_PENDING")
      case False
      with Some g gl r show ?thesis by (simp add: decide_approval_def decide_post_def)
    next
      case True
      then have "\<not> due now r" by (auto simp: aged_def)
      with True Some g gl r key show ?thesis
        by (simp add: decide_approval_def decide_post_def aged_def look_save good_save Let_def)
    qed
  qed
qed

text \<open>
  The life of a row: a pending row may close, by an operator's decision or by its deadline; a closed row
  never changes again.
\<close>

definition evolves :: "approval option \<Rightarrow> approval option \<Rightarrow> bool" where
  "evolves r r' \<longleftrightarrow> r' = r \<or> r = None
     \<or> (\<exists>row row'. r = Some row \<and> r' = Some row' \<and> ap_status row = STATUS_PENDING \<and> ap_severity row' = ap_severity row
          \<and> ap_kind row' = ap_kind row \<and> ap_payload row' = ap_payload row
          \<and> ap_status row' \<in> {STATUS_APPROVED, STATUS_REJECTED, STATUS_EXPIRED})"

lemma evolves_refl [simp]: "evolves r r" by (simp add: evolves_def)

lemma evolves_trans: "evolves a b \<Longrightarrow> evolves b c \<Longrightarrow> evolves a c"
  unfolding evolves_def by (auto simp: approval_status_defs)

lemma evolves_aged: "evolves r (map_option (aged now) r)"
  by (cases r) (auto simp: evolves_def aged_def due_def)

lemma decision_status_range: "decision_status d = Some st \<Longrightarrow> st \<in> {STATUS_APPROVED, STATUS_REJECTED}"
  by (auto simp: decision_status_def split: if_splits)

lemma get_evolves: "good s \<Longrightarrow> evolves (look s k) (look (snd (get_approval load save now i s)) k)"
  by (simp add: get_look evolves_aged)

lemma decide_good: "good s \<Longrightarrow> good (snd (decide_approval load save now stamp i decision who s))"
  using decide_spec [of s now stamp i decision who] by (auto simp: decide_post_def)

lemma decide_evolves: "good s \<Longrightarrow> evolves (look s k) (look (snd (decide_approval load save now stamp i decision who s)) k)"
proof -
  assume good: "good s"
  obtain res s' where d: "decide_approval load save now stamp i decision who s = (res, s')" by fastforce
  with decide_spec [OF good, of now stamp i decision who] have p: "decide_post now stamp i decision who s (res, s')" by simp
  show ?thesis
  proof (cases "k = i")
    case False
    with p d show ?thesis by (simp add: decide_post_def)
  next
    case True
    show ?thesis
    proof (cases res)
      case None
      with p d True evolves_aged [of "look s i" now] show ?thesis by (auto simp: decide_post_def)
    next
      case (Some r')
      with p d True show ?thesis
        by (auto simp: decide_post_def evolves_def dest!: decision_status_range)
    qed
  qed
qed

lemma decide_result:
  "good s \<Longrightarrow> fst (decide_approval load save now stamp i decision who s) = Some r'
     \<Longrightarrow> \<exists>r st. look s i = Some r \<and> ap_status r = STATUS_PENDING \<and> \<not> due now r \<and> decision_status decision = Some st
          \<and> r' = r\<lparr>ap_status := st, ap_decided_by := Some who, ap_decided_at := Some stamp\<rparr>
          \<and> look (snd (decide_approval load save now stamp i decision who s)) i = Some r'"
  using decide_spec [of s now stamp i decision who] by (auto simp: decide_post_def split_beta)

lemma expired_stays_closed:
  assumes "good s" "look s i = Some r" "due now r"
  shows "fst (decide_approval load save now stamp i decision who s) = None"
    and "fst (is_currently_approved load save now i s) = False"
    and "fst (get_approval load save now i s) = Some (r\<lparr>ap_status := STATUS_EXPIRED\<rparr>)"
proof -
  show "fst (decide_approval load save now stamp i decision who s) = None"
    using decide_result [OF assms(1)] assms(2,3) by (metis option.exhaust option.inject)
  show g: "fst (get_approval load save now i s) = Some (r\<lparr>ap_status := STATUS_EXPIRED\<rparr>)"
    using get_row [OF assms(1), of now i] assms(2,3) by (simp add: aged_def)
  then show "fst (is_currently_approved load save now i s) = False"
    by (cases "get_approval load save now i s") (simp add: is_currently_approved_def)
qed

text \<open>
  Batch approval evolves rows too, and a row of emergency severity that it leaves approved was approved before.
\<close>

definition calm :: "approval option \<Rightarrow> approval option \<Rightarrow> bool" where
  "calm a b \<longleftrightarrow> evolves a b \<and> (a = None \<longrightarrow> b = None)
     \<and> (\<forall>r r'. a = Some r \<longrightarrow> b = Some r' \<longrightarrow> ap_severity r = SEVERITY_EMERGENCY \<longrightarrow> ap_status r' = STATUS_APPROVED \<longrightarrow> r' = r)"

lemma calm_refl [simp]: "calm a a" by (simp add: calm_def)

lemma calm_trans:
  assumes ab: "calm a b" and bc: "calm b c"
  shows "calm a c"
proof (cases a)
  case None
  with assms show ?thesis by (simp add: calm_def)
next
  case (Some r)
  with ab obtain q where q: "b = Some q" by (auto simp: calm_def evolves_def)
  with bc obtain r' where r': "c = Some r'" by (auto simp: calm_def evolves_def)
  have "evolves a c" using ab bc evolves_trans by (auto simp: calm_def)
  with ab bc Some q r' show ?thesis
    by (auto simp: calm_def evolves_def)
qed

lemma calm_aged: "calm a (map_option (aged now) a)"
proof (cases a)
  case (Some r)
  have "evolves a (map_option (aged now) a)" by (rule evolves_aged)
  with Some show ?thesis by (simp add: calm_def aged_def)
qed simp

lemma batch_item_post:
  assumes good: "good s" and b: "batch_item load save now stamp who i s = (why, s')"
  shows "good s' \<and> (\<forall>k. calm (look s k) (look s' k))
     \<and> (why = None \<longrightarrow> (\<exists>r. look s i = Some r \<and> ap_status r = STATUS_PENDING \<and> ap_severity r \<noteq> SEVERITY_EMERGENCY))"
proof -
  obtain g s1 where g: "get_approval load save now i s = (g, s1)" by fastforce
  have g1: "good s1" "g = map_option (aged now) (look s i)"
    "\<And>k. look s1 k = (if k = i then map_option (aged now) (look s i) else look s k)"
    using get_good [OF good, of now i] get_row [OF good, of now i] get_look [OF good, of now i] g by simp_all
  have c1: "calm (look s k) (look s1 k)" for k by (simp add: g1(3) calm_aged)
  show ?thesis
  proof (cases "\<exists>row. g = Some row \<and> ap_status row = STATUS_PENDING \<and> ap_severity row \<noteq> SEVERITY_EMERGENCY")
    case False
    with b g g1(1) c1 show ?thesis by (auto simp: batch_item_def split: option.splits if_splits)
  next
    case True
    then obtain row where row: "g = Some row" "ap_status row = STATUS_PENDING" "ap_severity row \<noteq> SEVERITY_EMERGENCY" by blast
    obtain d s2 where d: "decide_approval load save now stamp i ''approved'' who s1 = (d, s2)" by fastforce
    from row g1(2) obtain r where r: "look s i = Some r" "row = aged now r" by auto
    with row(2) have nd: "row = r" by (auto simp: aged_def split: if_splits)
    have s2: "s' = s2" using b g row d by (auto simp: batch_item_def split: option.splits)
    have "good s2" "evolves (look s1 k) (look s2 k)" for k
      using decide_good [OF g1(1), of now stamp i "''approved''" who] decide_evolves [OF g1(1), of k now stamp i "''approved''" who] d
      by simp_all
    moreover have "k \<noteq> i \<Longrightarrow> look s2 k = look s k" for k
      using decide_spec [OF g1(1), of now stamp i "''approved''" who] d g1(3) by (simp add: decide_post_def)
    moreover have "look s1 i = look s i" using g1(3) r nd by simp
    moreover have "evolves (look s i) (look s2 i)" using calculation(2) [of i] calculation(4) by simp
    ultimately have "calm (look s k) (look s2 k)" for k
      using r nd row(3) by (cases "k = i") (simp_all add: calm_def)
    moreover have "ap_status r = STATUS_PENDING" "ap_severity r \<noteq> SEVERITY_EMERGENCY" using row nd by simp_all
    ultimately show ?thesis using s2 \<open>good s2\<close> r(1) by simp
  qed
qed

lemma batch_post:
  "good s \<Longrightarrow> batch_approve load save now stamp who ids s = ((ok, skipped), s')
     \<Longrightarrow> good s' \<and> (\<forall>k. calm (look s k) (look s' k))"
proof (induction ids arbitrary: s ok skipped s')
  case Nil
  then show ?case by simp
next
  case (Cons i ids)
  obtain why s1 where b: "batch_item load save now stamp who i s = (why, s1)" by fastforce
  obtain ok2 sk2 s2 where t: "batch_approve load save now stamp who ids s1 = ((ok2, sk2), s2)" by (metis prod.exhaust)
  have s2: "s' = s2" using Cons.prems(2) b t by simp
  note p = batch_item_post [OF Cons.prems(1) b]
  then have "good s2 \<and> (\<forall>k. calm (look s1 k) (look s2 k))" using Cons.IH t by blast
  with p s2 show ?case using calm_trans by blast
qed

text \<open>Listing ages every row; a pass over rows that are still the stored ones.\<close>

lemma expire_rows_post:
  "good s \<Longrightarrow> \<forall>r \<in> set rows. look s (ap_id r) = Some r \<Longrightarrow> distinct (map ap_id rows)
     \<Longrightarrow> fst (expire_rows save now rows s) = map (aged now) rows
       \<and> good (snd (expire_rows save now rows s))
       \<and> (\<forall>k. evolves (look s k) (look (snd (expire_rows save now rows s)) k))"
proof (induction rows arbitrary: s)
  case Nil
  then show ?case by simp
next
  case (Cons r rows)
  have key: "ap_id r \<noteq> []" "look s (ap_id r) = Some r" using Cons.prems look_keyed by fastforce+
  define s1 where "s1 = snd (expire_if_due save now r s)"
  have e: "expire_if_due save now r s = (aged now r, s1)" by (simp add: s1_def expire_if_due_def aged_def Let_def)
  have s1: "good s1" "look s1 k = (if k = ap_id r then Some (aged now r) else look s k)" for k
    using key Cons.prems(1) by (auto simp: s1_def expire_if_due_def aged_def Let_def good_save look_save)
  have ev: "evolves (look s k) (look s1 k)" for k
    using evolves_aged [of "look s k" now] key(2) by (cases "k = ap_id r") (simp_all add: s1(2))
  have "\<forall>q \<in> set rows. look s1 (ap_id q) = Some q"
  proof
    fix q
    assume q: "q \<in> set rows"
    then have "ap_id q \<noteq> ap_id r" using Cons.prems(3) by (metis distinct.simps(2) image_eqI list.set_map list.simps(9))
    moreover have "look s (ap_id q) = Some q" using q Cons.prems(2) by simp
    ultimately show "look s1 (ap_id q) = Some q" by (simp only: s1(2) if_False)
  qed
  then have ih: "fst (expire_rows save now rows s1) = map (aged now) rows
      \<and> good (snd (expire_rows save now rows s1))
      \<and> (\<forall>k. evolves (look s1 k) (look (snd (expire_rows save now rows s1)) k))"
    using Cons.IH [OF s1(1)] Cons.prems(3) by simp
  moreover have "expire_rows save now (r # rows) s
      = (aged now r # fst (expire_rows save now rows s1), snd (expire_rows save now rows s1))"
    by (simp add: e split_beta)
  ultimately show ?case using ev evolves_trans by (metis fst_conv list.simps(9) snd_conv)
qed

lemma loaded_rows:
  assumes "good s"
  shows "\<forall>r \<in> set (map snd (load s)). look s (ap_id r) = Some r" "distinct (map ap_id (map snd (load s)))"
proof -
  have k: "map ap_id (map snd (load s)) = map fst (load s)"
    using load_keyed [OF assms] by (auto simp: comp_def intro!: map_cong)
  show "distinct (map ap_id (map snd (load s)))" unfolding k by (rule load_distinct [OF assms])
  show "\<forall>r \<in> set (map snd (load s)). look s (ap_id r) = Some r"
    using load_keyed [OF assms] load_distinct [OF assms] by (auto simp: look_def)
qed

lemma list_state: "snd (list_approvals load save now status kind limit s) = snd (expire_rows save now (map snd (load s)) s)"
  by (simp add: list_approvals_def split_beta Let_def)

lemma list_post:
  assumes "good s"
  shows "good (snd (list_approvals load save now status kind limit s))"
    and "evolves (look s k) (look (snd (list_approvals load save now status kind limit s)) k)"
  using expire_rows_post [OF assms loaded_rows [OF assms], of now] by (auto simp: list_state)

lemma check_state: "snd (is_currently_approved load save now i s) = snd (get_approval load save now i s)"
  by (simp add: is_currently_approved_def split: prod.splits option.splits)

lemma create_post:
  assumes "good s" "i \<noteq> []"
  shows "good (snd (create_approval save to_float env i now stamp kind payload risk ev conf ttl s))"
    and "k \<noteq> i \<Longrightarrow> look (snd (create_approval save to_float env i now stamp kind payload risk ev conf ttl s)) k = look s k"
  using assms by (simp_all add: create_approval_def create_row_def Let_def good_save look_save)

lemma step_post:
  assumes "good s" "[] \<notin> op_creates op"
  shows "good (approval_step load save to_float env op s)
     \<and> (k \<notin> op_creates op \<longrightarrow> evolves (look s k) (look (approval_step load save to_float env op s) k))"
proof (cases op)
  case (Op_Batch now stamp who ids)
  obtain ok sk s' where "batch_approve load save now stamp who ids s = ((ok, sk), s')" by (metis prod.exhaust)
  with batch_post [OF assms(1) this] Op_Batch show ?thesis by (auto simp: calm_def)
qed (use assms create_post [OF assms(1)] in
      \<open>auto simp: get_good get_evolves list_post decide_good decide_evolves check_state\<close>)

lemma run_evolves:
  "good s \<Longrightarrow> \<forall>op \<in> set ops. [] \<notin> op_creates op \<and> k \<notin> op_creates op
     \<Longrightarrow> evolves (look s k) (look (approval_run load save to_float env ops s) k)"
proof (induction ops arbitrary: s)
  case Nil
  then show ?case by simp
next
  case (Cons op ops)
  then show ?case using step_post [of s op to_float env k] evolves_trans by fastforce
qed

lemma closed_row_is_final:
  assumes "good s" "\<forall>op \<in> set ops. [] \<notin> op_creates op \<and> k \<notin> op_creates op"
    and "look s k = Some r" "ap_status r \<noteq> STATUS_PENDING"
  shows "look (approval_run load save to_float env ops s) k = Some r"
  using run_evolves [OF assms(1,2), of to_float env] assms(3,4) by (auto simp: evolves_def)

end

section \<open>The model's storage provides the interface\<close>

text \<open>Every row is stored under its own non-empty id.\<close>

definition rows_ok :: "(string \<times> approval) list \<Rightarrow> bool" where
  "rows_ok rows \<longleftrightarrow> distinct (map fst rows) \<and> (\<forall>(k, r) \<in> set rows. ap_id r = k \<and> k \<noteq> [])"

definition store_ok :: "approval_store \<Rightarrow> bool" where
  "store_ok st \<longleftrightarrow> rows_ok (as_json st) \<and> rows_ok (as_ddb st)"

lemma rows_ok_Nil [simp]: "rows_ok []"
  by (simp add: rows_ok_def)

lemma update_entry: "(a, b) \<in> set (AList.update k v xs) \<Longrightarrow> a = k \<and> b = v \<or> (a, b) \<in> set xs"
  by (induction xs) (auto split: if_splits)

lemma rows_ok_update: "rows_ok rows \<Longrightarrow> ap_id r \<noteq> [] \<Longrightarrow> rows_ok (AList.update (ap_id r) r rows)"
  unfolding rows_ok_def by (auto simp: distinct_update dest!: update_entry)

lemma rows_ok_key: "rows_ok ((k, r) # xs) \<Longrightarrow> ap_id r = k \<and> k \<noteq> [] \<and> rows_ok xs \<and> map_of xs k = None"
  by (auto simp: rows_ok_def map_of_eq_None_iff)

abbreviation merge_row :: "string \<times> approval \<Rightarrow> (string \<times> approval) list \<Rightarrow> (string \<times> approval) list" where
  "merge_row \<equiv> (\<lambda>(k, row) merged. if ap_id row = [] then merged else AList.update (ap_id row) row merged)"

lemma merge_rows_ok: "rows_ok xs \<Longrightarrow> rows_ok m \<Longrightarrow> rows_ok (fold merge_row xs m)"
proof (induction xs arbitrary: m)
  case (Cons x xs)
  obtain k r where x: "x = (k, r)" by fastforce
  with Cons.prems rows_ok_key have "ap_id r \<noteq> []" "rows_ok xs" by blast+
  with Cons x rows_ok_update show ?case by simp
qed simp

lemma map_of_merge: "rows_ok xs \<Longrightarrow> map_of (fold merge_row xs m) = map_of m ++ map_of xs"
proof (induction xs arbitrary: m)
  case (Cons x xs)
  obtain k r where x: "x = (k, r)" by fastforce
  with Cons.prems rows_ok_key have k: "ap_id r = k" "k \<noteq> []" "rows_ok xs" "map_of xs k = None" by blast+
  have "(map_of m)(k \<mapsto> r) ++ map_of xs = map_of m ++ (map_of xs)(k \<mapsto> r)"
    using k(4) by (intro ext) (auto simp: map_add_def split: option.splits)
  moreover have "map_of (fold merge_row (x # xs) m) = map_of (AList.update k r m) ++ map_of xs"
    using Cons.IH [OF k(3)] x k(1,2) by simp
  ultimately show ?case by (simp only: update_conv' x map_of.simps fst_conv snd_conv)
qed simp

lemma load_all_map: "store_ok st \<Longrightarrow> map_of (load_all h st)
     = (if sh_json_read h then map_of (as_json st) else Map.empty) ++ (if sh_ddb_scan h then map_of (as_ddb st) else Map.empty)"
  by (simp add: load_all_def map_of_merge store_ok_def)

lemma load_all_ok: "store_ok st \<Longrightarrow> rows_ok (load_all h st)"
  by (simp add: load_all_def merge_rows_ok store_ok_def)

lemma save_row_ok: "store_ok st \<Longrightarrow> ap_id r \<noteq> [] \<Longrightarrow> store_ok (save_row h r st)"
  by (simp add: save_row_def json_save_def ddb_put_def store_ok_def rows_ok_update)

text \<open>The store is steady when the file works and the table either takes writes and scans, or neither.\<close>

definition steady :: "store_health \<Rightarrow> bool" where
  "steady h \<longleftrightarrow> sh_json_read h \<and> sh_json_write h \<and> sh_ddb_put h = sh_ddb_scan h"

lemma row_store_steady: "steady h \<Longrightarrow> row_store (load_all h) (save_row h) store_ok"
proof unfold_locales
  fix s and r :: approval
  assume "steady h" "store_ok s" "ap_id r \<noteq> []"
  then show "map_of (load_all h (save_row h r s)) = (map_of (load_all h s))(ap_id r \<mapsto> r)"
    by (auto simp: load_all_map save_row_ok)
      (auto simp: save_row_def json_save_def ddb_put_def steady_def update_conv' map_add_def fun_eq_iff split: option.splits)
next
  fix s k r
  assume "store_ok s" "(k, r) \<in> set (load_all h s)"
  then show "ap_id r = k \<and> k \<noteq> []" using load_all_ok [of s h] by (auto simp: rows_ok_def)
next
  fix s
  assume "store_ok s"
  then show "distinct (map fst (load_all h s))" using load_all_ok [of s h] by (simp add: rows_ok_def)
qed (rule save_row_ok)

definition all_up :: store_health where
  "all_up = \<lparr>sh_ddb_put = True, sh_ddb_scan = True, sh_json_write = True, sh_json_read = True\<rparr>"

definition file_only :: store_health where
  "file_only = \<lparr>sh_ddb_put = False, sh_ddb_scan = False, sh_json_write = True, sh_json_read = True\<rparr>"

interpretation with_table: row_store "load_all all_up" "save_row all_up" store_ok
  by (rule row_store_steady) (simp add: steady_def all_up_def)

interpretation on_file: row_store "load_all file_only" "save_row file_only" store_ok
  by (rule row_store_steady) (simp add: steady_def file_only_def)

lemmas looks = with_table.look_def on_file.look_def

section \<open>Properties\<close>

text \<open>Rows the witnesses use: one routine, one emergency, deadline at second 100.\<close>

definition sample_row :: "string \<Rightarrow> string \<Rightarrow> string \<Rightarrow> approval" where
  "sample_row i severity status = \<lparr>ap_id = i, ap_kind = ''k'', ap_payload = [], ap_risk_level = ''normal'', ap_severity = severity,
     ap_ev_usd = None, ap_confidence = None, ap_status = status, ap_ttl_expires_at = IsoAt 100,
     ap_decided_by = None, ap_decided_at = None, ap_created_at = ''t''\<rparr>"

definition sample_store :: approval_store where
  "sample_store = \<lparr>as_json = [(''a'', sample_row ''a'' SEVERITY_EMERGENCY STATUS_PENDING),
                               (''b'', sample_row ''b'' SEVERITY_ROUTINE STATUS_REJECTED)],
     as_ddb = [(''a'', sample_row ''a'' SEVERITY_EMERGENCY STATUS_PENDING)]\<rparr>"

lemma sample_store_ok: "store_ok sample_store"
  by (simp add: store_ok_def rows_ok_def sample_store_def sample_row_def)

lemma sample_lookups:
  "map_of (load_all h sample_store) ''a'' = (if sh_json_read h \<or> sh_ddb_scan h then Some (sample_row ''a'' SEVERITY_EMERGENCY STATUS_PENDING) else None)"
  "map_of (load_all file_only sample_store) ''b'' = Some (sample_row ''b'' SEVERITY_ROUTINE STATUS_REJECTED)"
  by (simp_all add: load_all_map [OF sample_store_ok] file_only_def) (simp_all add: sample_store_def)

text \<open>C19: decisions are final. With the storage steady (table reachable, or file alone), once a request is
  approved, rejected or expired, no sequence of public operations, at whatever clock readings, changes its
  row again; only a new request created under the same id could.\<close>

theorem approval_decisions_are_final:
  assumes "h \<in> {all_up, file_only}" "store_ok st"
    and "map_of (load_all h st) k = Some r" "ap_status r \<noteq> STATUS_PENDING"
    and "\<forall>op \<in> set ops. [] \<notin> op_creates op \<and> k \<notin> op_creates op"
  shows "map_of (load_all h (approval_run (load_all h) (save_row h) to_float env ops st)) k = Some r"
  using assms with_table.closed_row_is_final [of st ops k r to_float env]
    on_file.closed_row_is_final [of st ops k r to_float env]
  by (auto simp: looks)

theorem approval_decisions_are_final_witness:
  "map_of (load_all file_only (approval_run (load_all file_only) (save_row file_only) (\<lambda>x. None) (\<lambda>v. None)
      [Op_Decide 1 ''now'' ''b'' ''approve'' ''eve'', Op_Batch 2 ''now'' ''eve'' [''b'', ''a''], Op_Get 500 ''b''] sample_store)) ''b''
   = Some (sample_row ''b'' SEVERITY_ROUTINE STATUS_REJECTED)"
  by (rule approval_decisions_are_final [OF _ sample_store_ok sample_lookups(2)])
    (simp_all add: sample_row_def approval_status_defs)

text \<open>C32: expiry is fail-closed. From the deadline on, an undecided request cannot be approved by anyone: a
  decision returns nothing, the check says not approved, and reading the row shows it expired.\<close>

theorem overdue_request_is_never_approved:
  assumes "h \<in> {all_up, file_only}" "store_ok st"
    and "map_of (load_all h st) i = Some r" "due now r"
  shows "fst (decide_approval (load_all h) (save_row h) now stamp i decision who st) = None
     \<and> fst (is_currently_approved (load_all h) (save_row h) now i st) = False
     \<and> fst (get_approval (load_all h) (save_row h) now i st) = Some (r\<lparr>ap_status := STATUS_EXPIRED\<rparr>)"
  using assms with_table.expired_stays_closed [of st i r now] on_file.expired_stays_closed [of st i r now]
  by (auto simp: looks)

theorem overdue_request_is_never_approved_witness:
  "fst (decide_approval (load_all all_up) (save_row all_up) 100 ''now'' ''a'' ''approved'' ''op'' sample_store) = None"
proof -
  have "map_of (load_all all_up sample_store) ''a'' = Some (sample_row ''a'' SEVERITY_EMERGENCY STATUS_PENDING)"
    by (simp add: sample_lookups all_up_def)
  moreover have "due 100 (sample_row ''a'' SEVERITY_EMERGENCY STATUS_PENDING)" by (simp add: due_def sample_row_def)
  ultimately show ?thesis using overdue_request_is_never_approved [OF _ sample_store_ok, of all_up] by blast
qed

text \<open>batch approval never approves an emergency request: an emergency row that is approved after a batch
  was the same approved row before it, and the batch leaves the other rows' severities alone.\<close>

theorem batch_never_approves_emergency:
  assumes "h \<in> {all_up, file_only}" "store_ok st"
    and "batch_approve (load_all h) (save_row h) now stamp who ids st = ((ok, skipped), st')"
    and "map_of (load_all h st) k = Some r" "ap_severity r = SEVERITY_EMERGENCY"
    and "map_of (load_all h st') k = Some r'"
  shows "ap_severity r' = SEVERITY_EMERGENCY \<and> (ap_status r' = STATUS_APPROVED \<longrightarrow> r' = r)"
proof -
  consider "h = all_up" | "h = file_only" using assms(1) by blast
  then show ?thesis
  proof cases
    case 1
    with assms with_table.batch_post [of st now stamp who ids ok skipped st'] show ?thesis
      by (auto simp: looks with_table.calm_def with_table.evolves_def dest!: spec [of _ k])
  next
    case 2
    with assms on_file.batch_post [of st now stamp who ids ok skipped st'] show ?thesis
      by (auto simp: looks on_file.calm_def on_file.evolves_def dest!: spec [of _ k])
  qed
qed

theorem batch_never_approves_emergency_witness:
  "\<exists>ok skipped st' r'. batch_approve (load_all all_up) (save_row all_up) 5 ''now'' ''op'' [''a'', ''a''] sample_store = ((ok, skipped), st')
     \<and> map_of (load_all all_up st') ''a'' = Some r' \<and> ap_status r' \<noteq> STATUS_APPROVED"
proof -
  let ?b = "batch_approve (load_all all_up) (save_row all_up) 5 ''now'' ''op'' [''a'', ''a''] sample_store"
  have a: "map_of (load_all all_up sample_store) ''a'' = Some (sample_row ''a'' SEVERITY_EMERGENCY STATUS_PENDING)"
    by (simp add: sample_lookups all_up_def)
  have b: "?b = (([], [(''a'', ''emergency_requires_per_item''), (''a'', ''emergency_requires_per_item'')]), sample_store)"
    by (simp add: batch_item_def get_approval_def a expire_if_due_def due_def sample_row_def)
  have "ap_severity (sample_row ''a'' SEVERITY_EMERGENCY STATUS_PENDING) = SEVERITY_EMERGENCY" by (simp add: sample_row_def)
  from batch_never_approves_emergency [OF _ sample_store_ok b a this a]
  have "ap_status (sample_row ''a'' SEVERITY_EMERGENCY STATUS_PENDING) = STATUS_APPROVED \<longrightarrow> True" by simp
  with a b show ?thesis by (auto simp: sample_row_def approval_status_defs)
qed

text \<open>a new request is pending under its id with the severity of its risk level, and until the whole second
  its deadline was rounded down to, it can be approved; a high or critical one has emergency severity.\<close>

theorem created_request_awaits_decision:
  assumes "h \<in> {all_up, file_only}" "store_ok st" "i \<noteq> []"
    and "create_approval (save_row h) to_float env i t0 stamp kind payload risk ev conf (Some ttl) st = (row, st')"
    and "0 < ttl" "now < of_int \<lfloor>t0 + max 1 ttl\<rfloor>"
    and "py_lower (py_strip decision) = ''approved''"
  shows "ap_severity row = severity_for (py_lower (py_strip (py_or risk ''normal'')))
     \<and> fst (get_approval (load_all h) (save_row h) now i st') = Some row \<and> ap_status row = STATUS_PENDING
     \<and> fst (decide_approval (load_all h) (save_row h) now stamp2 i decision who st')
         = Some (row\<lparr>ap_status := STATUS_APPROVED, ap_decided_by := Some who, ap_decided_at := Some stamp2\<rparr>)"
proof -
  have row: "ap_id row = i" "ap_status row = STATUS_PENDING" "ap_ttl_expires_at row = IsoAt \<lfloor>t0 + max 1 ttl\<rfloor>"
    "ap_severity row = severity_for (py_lower (py_strip (py_or risk ''normal'')))" "st' = save_row h row st"
    using assms(4,5) by (auto simp: create_approval_def create_row_def iso_at_def Let_def)
  have "\<not> due now row" using assms(6) row(3) by (simp add: due_def)
  moreover have "map_of (load_all h st') i = Some row"
    using assms(1,2,3) row(1,5) with_table.load_save [of st row] on_file.load_save [of st row] by auto
  moreover have "decision_status decision = Some STATUS_APPROVED" using assms(7) by (simp add: decision_status_def)
  ultimately show ?thesis
    using row by (simp add: get_approval_def decide_approval_def expire_if_due_def Let_def)
qed

theorem created_request_awaits_decision_witness:
  "\<exists>row st'. create_approval (save_row all_up) (\<lambda>x. None) (\<lambda>v. None) ''n'' 0 ''t'' ''k'' [] '' HIGH'' None None (Some 60) sample_store = (row, st')
     \<and> ap_severity row = SEVERITY_EMERGENCY
     \<and> fst (decide_approval (load_all all_up) (save_row all_up) 30 ''u'' ''n'' ''approved'' ''op'' st') \<noteq> None"
proof -
  obtain row st' where c: "create_approval (save_row all_up) (\<lambda>x. None) (\<lambda>v. None) ''n'' 0 ''t'' ''k'' [] '' HIGH'' None None (Some 60) sample_store
      = (row, st')" by fastforce
  have "py_lower (py_strip ''approved'') = ''approved''" by code_simp
  moreover have "severity_for (py_lower (py_strip (py_or '' HIGH'' ''normal''))) = SEVERITY_EMERGENCY" by code_simp
  ultimately show ?thesis
    using created_request_awaits_decision [OF _ sample_store_ok _ c, of 30 "''approved''" "''u''" "''op''"] c by simp
qed

definition table_readonly :: store_health where
  "table_readonly = all_up\<lparr>sh_ddb_put := False\<rparr>"

text \<open>A rejection can be lost. When the table refuses the write of a decision (the file takes it) and later
  scans work again, the decision was reported as recorded, but the table's stale pending row wins over the
  file, so the same request can afterwards be approved.\<close>

theorem rejection_lost_on_table_outage:
  assumes "store_ok st" "map_of (as_ddb st) i = Some r" "ap_status r = STATUS_PENDING"
    and "\<not> due t1 r" "\<not> due t2 r"
    and "decide_approval (load_all table_readonly) (save_row table_readonly) t1 s1 i ''rejected'' who st = (res, st1)"
    and "decide_approval (load_all all_up) (save_row all_up) t2 s2 i ''approved'' who st1 = (res2, st2)"
  shows "map_option ap_status res = Some STATUS_REJECTED
     \<and> map_option ap_status res2 = Some STATUS_APPROVED
     \<and> fst (is_currently_approved (load_all all_up) (save_row all_up) t3 i st2)"
proof -
  have key: "ap_id r = i" "i \<noteq> []"
    using assms(1,2) by (auto simp: store_ok_def rows_ok_def dest!: map_of_SomeD)
  have d: "decision_status ''rejected'' = Some STATUS_REJECTED" "decision_status ''approved'' = Some STATUS_APPROVED"
    by (simp_all add: decision_status_def py_lower_def py_strip_def py_lstrip_def py_isspace_def lower_char_def char_code_def)
  have l0: "map_of (load_all h st) i = Some r" if "sh_ddb_scan h" for h
    using that assms(1,2) by (simp add: load_all_map)
  define rj where "rj = r\<lparr>ap_status := STATUS_REJECTED, ap_decided_by := Some who, ap_decided_at := Some s1\<rparr>"
  have 1: "res = Some rj" "st1 = json_save table_readonly rj st"
    using assms(6) l0 [of table_readonly] assms(3,4) d
    by (simp_all add: decide_approval_def get_approval_def expire_if_due_def table_readonly_def all_up_def rj_def
        save_row_def ddb_put_def Let_def)
  have ok1: "store_ok st1" "map_of (as_ddb st1) i = Some r"
    using 1 key assms(1,2) rows_ok_update [of "as_json st" rj]
    by (simp_all add: json_save_def store_ok_def rj_def table_readonly_def all_up_def)
  then have l1: "map_of (load_all all_up st1) i = Some r" by (simp add: load_all_map all_up_def)
  define ra where "ra = r\<lparr>ap_status := STATUS_APPROVED, ap_decided_by := Some who, ap_decided_at := Some s2\<rparr>"
  have 2: "res2 = Some ra" "st2 = save_row all_up ra st1"
    using assms(7) l1 assms(3,5) d
    by (simp_all add: decide_approval_def get_approval_def expire_if_due_def ra_def Let_def)
  have "map_of (load_all all_up st2) i = Some ra"
    using with_table.load_save [OF ok1(1), of ra] key 2(2) by (simp add: ra_def)
  then have "fst (is_currently_approved (load_all all_up) (save_row all_up) t3 i st2)"
    by (simp add: is_currently_approved_def get_approval_def expire_if_due_def due_def ra_def)
  with 1 2 show ?thesis by (simp add: rj_def ra_def)
qed

theorem rejection_lost_on_table_outage_witness:
  "\<exists>st1 st2. snd (decide_approval (load_all table_readonly) (save_row table_readonly) 1 ''t'' ''a'' ''rejected'' ''op'' sample_store) = st1
     \<and> snd (decide_approval (load_all all_up) (save_row all_up) 2 ''t'' ''a'' ''approved'' ''op'' st1) = st2
     \<and> fst (is_currently_approved (load_all all_up) (save_row all_up) 3 ''a'' st2)"
proof -
  have "map_of (as_ddb sample_store) ''a'' = Some (sample_row ''a'' SEVERITY_EMERGENCY STATUS_PENDING)"
    by (simp add: sample_store_def)
  from rejection_lost_on_table_outage [OF sample_store_ok this _ _ _ prod.collapse [symmetric] prod.collapse [symmetric],
      of 1 2 "''t''" "''op''" "''t''" 3]
  show ?thesis by (simp add: due_def sample_row_def)
qed

end
