(* ===== verification/Campaign_Model.thy ===== *)
theory Campaign_Model
  imports Capabilities Json "HOL-Library.List_Lexorder" "HOL-Library.Char_ord" "HOL-Library.Product_Lexorder"
begin

text \<open>
  The declarative part of the campaign engine: the value objects of \<open>campaigns/models.py\<close>, the graph and its
  conditional edges (\<open>graph.py\<close>), the routing and risk rules (\<open>registry.py\<close>), template validation
  (\<open>templates.py\<close>) and the approval levels of \<open>approval_gate.py\<close>.

  Numbers inside contexts, payloads and KPI maps are whole numbers, as everywhere in the development; where the
  code calls \<open>float(text)\<close> the result is the argument \<open>to_float\<close> (\<^const>\<open>None\<close>: it raises or is not a
  number). Free-text fields that no code reads (titles, descriptions, labels) are kept in the records that
  carry them only where a record is copied.
\<close>

section \<open>Enumerations\<close>

datatype campaign_state =
  CS_DRAFT | CS_READY | CS_RUNNING | CS_PAUSED | CS_BLOCKED | CS_NEEDS_APPROVAL | CS_COMPLETED | CS_FAILED | CS_CANCELLED

datatype node_status =
  NS_PENDING | NS_RUNNING | NS_COMPLETED | NS_BLOCKED | NS_FAILED | NS_NEEDS_APPROVAL | NS_SKIPPED | NS_ROLLED_BACK

datatype approval_level = AL_NONE | AL_OPERATOR | AL_CLIENT | AL_GOVERNANCE

datatype audit_severity = SEV_INFO | SEV_NOTICE | SEV_WARNING | SEV_HIGH | SEV_CRITICAL

datatype rollback_mode = RB_NONE | RB_HALT | RB_COMPENSATE

text \<open>\<open>_LEVEL_ORDER\<close>: a higher index is a stricter gate, which makes the levels a linear order.\<close>

fun level_index :: "approval_level \<Rightarrow> nat" where
  "level_index AL_NONE = 0"
| "level_index AL_OPERATOR = 1"
| "level_index AL_CLIENT = 2"
| "level_index AL_GOVERNANCE = 3"

lemma level_index_inject [simp]: "level_index a = level_index b \<longleftrightarrow> a = b"
  by (cases a; cases b) simp_all

instantiation approval_level :: linorder
begin

definition less_eq_approval_level :: "approval_level \<Rightarrow> approval_level \<Rightarrow> bool" where
  "less_eq_approval_level a b = (level_index a \<le> level_index b)"

definition less_approval_level :: "approval_level \<Rightarrow> approval_level \<Rightarrow> bool" where
  "less_approval_level a b = (level_index a < level_index b)"

instance
  by standard (auto simp: less_eq_approval_level_def less_approval_level_def)

end

lemma level_least [simp]: "AL_NONE \<le> a"
  by (simp add: less_eq_approval_level_def)

lemma level_bot_iff [simp]: "a \<le> AL_NONE \<longleftrightarrow> a = AL_NONE"
  by (cases a) (simp_all add: less_eq_approval_level_def)

definition max_level :: "approval_level \<Rightarrow> approval_level \<Rightarrow> approval_level" where
  "max_level a b = (if level_index a \<ge> level_index b then a else b)"

lemma max_level_max: "max_level a b = max a b"
  by (auto simp: max_level_def max_def less_eq_approval_level_def)

fun level_value :: "approval_level \<Rightarrow> string" where
  "level_value AL_NONE = ''none''"
| "level_value AL_OPERATOR = ''operator''"
| "level_value AL_CLIENT = ''client''"
| "level_value AL_GOVERNANCE = ''governance''"

section \<open>Value objects\<close>

record retry_policy =
  rp_max_attempts :: int
  rp_backoff_seconds :: rat
  rp_backoff_multiplier :: rat
  rp_retry_on :: "string list"

record campaign_node =
  cn_id :: string
  cn_type :: string
  cn_target :: string
  cn_capability :: string
  cn_approval :: approval_level
  cn_severity :: "audit_severity option"
  cn_input_mapping :: "(string \<times> json) list"
  cn_output_mapping :: "(string \<times> string) list"
  cn_kpis :: "string list"
  cn_retry :: retry_policy
  cn_rollback :: rollback_mode
  cn_compensation :: "string option"

record campaign_edge =
  ce_from :: string
  ce_to :: string
  ce_condition :: "(string \<times> json) list option"

record vertical_rules =
  vr_vertical :: string
  vr_approval_overrides :: "(string \<times> approval_level) list"
  vr_forbidden_capabilities :: "string list"
  vr_max_auto_severity :: audit_severity
  vr_extra :: "(string \<times> json) list"

text \<open>Channels and the audience travel as the dictionaries \<open>model_dump()\<close> makes of them.\<close>

record campaign_template =
  ct_id :: string
  ct_vertical :: string
  ct_required_inputs :: "string list"
  ct_kpis :: "string list"
  ct_nodes :: "campaign_node list"
  ct_edges :: "campaign_edge list"
  ct_audience :: "json option"
  ct_channels :: "json list"
  ct_rules :: "vertical_rules option"
  ct_defaults :: "(string \<times> json) list"

record campaign_instance =
  ci_campaign_id :: string
  ci_client_id :: string
  ci_template_id :: string
  ci_vertical :: string
  ci_inputs :: "(string \<times> json) list"
  ci_channels :: "json list"
  ci_audience :: "json option"
  ci_kpi_targets :: "(string \<times> int) list"

text \<open>
  The errors the package raises: \<open>TemplateError\<close>, \<open>GraphError\<close>, \<open>CampaignError\<close> and the validation error of an
  artifact, one constructor per \<open>raise\<close>; any other exception is \<open>PyRaised\<close> of its type name and its text.
\<close>

datatype campaign_error =
    DuplicateNodeIds "string list"
  | TemplateHasNoNodes
  | EdgeFromUnknown string
  | EdgeToUnknown string
  | UnknownWorkcell string string
  | CapabilityNotExposed string string string
  | UndeclaredKpi string string
  | UnknownTemplate string
  | GraphKeyError string
  | GraphCycle "string list"
  | MissingInputs "string list"
  | UnknownCampaign string
  | NoPendingApproval
  | ApprovalNotDecided
  | PyRaised "string \<times> string"
  | ArtifactInvalid json

section \<open>Python values\<close>

text \<open>\<open>{**a, **b}\<close>.\<close>

definition dict_merge :: "('k \<times> 'v) list \<Rightarrow> ('k \<times> 'v) list \<Rightarrow> ('k \<times> 'v) list" where
  "dict_merge a b = fold (\<lambda>(k, v) m. AList.update k v m) b a"

lemma map_of_dict_merge: "map_of (dict_merge a b) k = (case map_of (rev b) k of Some v \<Rightarrow> Some v | None \<Rightarrow> map_of a k)"
proof (induction b arbitrary: a)
  case (Cons x b)
  obtain k' v where x: "x = (k', v)" by fastforce
  have "dict_merge a (x # b) = dict_merge (AList.update k' v a) b" by (simp add: dict_merge_def x)
  with Cons x show ?case by (auto simp: map_of_update map_of_append map_add_def split: option.splits)
qed (simp add: dict_merge_def)

text \<open>
  \<open>a == b\<close>: \<open>True\<close> and \<open>False\<close> are the numbers 1 and 0, and the order of the entries of a dictionary does not
  matter.
\<close>

function json_eq :: "json \<Rightarrow> json \<Rightarrow> bool" where
  "json_eq JNull b = (b = JNull)"
| "json_eq (JBool x) b = (case b of JBool y \<Rightarrow> x = y | JInt j \<Rightarrow> (if x then 1 else 0) = j | _ \<Rightarrow> False)"
| "json_eq (JInt i) b = (case b of JBool y \<Rightarrow> i = (if y then 1 else 0) | JInt j \<Rightarrow> i = j | _ \<Rightarrow> False)"
| "json_eq (JStr s) b = (b = JStr s)"
| "json_eq (JList xs) b = (case b of JList ys \<Rightarrow> length xs = length ys \<and> list_all (\<lambda>(x, y). json_eq x y) (zip xs ys) | _ \<Rightarrow> False)"
| "json_eq (JObj xs) b =
     (case b of JObj ys \<Rightarrow> length xs = length ys
        \<and> list_all (\<lambda>(k, v). case map_of ys k of None \<Rightarrow> False | Some w \<Rightarrow> json_eq v w) xs | _ \<Rightarrow> False)"
  by pat_completeness auto
termination
proof (relation "measure (\<lambda>(a, b). size a)", goal_cases)
  case (2 xs b x5 z x y)
  then have "x \<in> set xs" by (auto dest: set_zip_leftD)
  then have "size x \<le> size_list size xs" by (rule size_list_estimation') simp
  then show ?case by simp
next
  case (3 xs b x6 z k v w)
  then have "(k, v) \<in> set xs" by simp
  then have "size_prod (\<lambda>x. 0) size (k, v) \<le> size_list (size_prod (\<lambda>x. 0) size) xs"
    by (rule size_list_estimation') simp
  then show ?case by simp
qed simp

text \<open>\<open>float(v)\<close>.\<close>

fun json_num :: "(string \<Rightarrow> int option) \<Rightarrow> json \<Rightarrow> int option" where
  "json_num to_float (JBool b) = Some (if b then 1 else 0)"
| "json_num to_float (JInt i) = Some i"
| "json_num to_float (JStr s) = to_float s"
| "json_num to_float v = None"

text \<open>\<open>d.get(k)\<close>, with \<open>None\<close> as the value of a missing key.\<close>

definition json_get :: "(string \<times> json) list \<Rightarrow> string \<Rightarrow> json" where
  "json_get d k = (case map_of d k of None \<Rightarrow> JNull | Some v \<Rightarrow> v)"

section \<open>Conditional edges\<close>

text \<open>The walk along a dotted path: empty parts are skipped, and a part below a non-dictionary gives \<open>None\<close>.\<close>

fun walk_path :: "string list \<Rightarrow> json \<Rightarrow> json" where
  "walk_path [] cur = cur"
| "walk_path (p # ps) cur =
     (if p = [] then walk_path ps cur
      else (case cur of JObj kvs \<Rightarrow> walk_path ps (json_get kvs p) | _ \<Rightarrow> JNull))"

definition resolve_field :: "json \<Rightarrow> (string \<times> json) list \<Rightarrow> json" where
  "resolve_field field context = walk_path (split_on (CHR ''.'') (json_text field)) (JObj context)"

text \<open>The closed set of operators. A comparison with \<open>nan\<close> (no number) is false.\<close>

datatype cond_op = OP_EQ | OP_NE | OP_GT | OP_GTE | OP_LT | OP_LTE | OP_IN | OP_TRUTHY | OP_FALSY

definition cond_ops :: "(string \<times> cond_op) list" where
  "cond_ops = [(''eq'', OP_EQ), (''ne'', OP_NE), (''gt'', OP_GT), (''gte'', OP_GTE), (''lt'', OP_LT), (''lte'', OP_LTE),
     (''in'', OP_IN), (''truthy'', OP_TRUTHY), (''falsy'', OP_FALSY)]"

definition num_compare :: "(string \<Rightarrow> int option) \<Rightarrow> (int \<Rightarrow> int \<Rightarrow> bool) \<Rightarrow> json \<Rightarrow> json \<Rightarrow> bool" where
  "num_compare to_float rel a b =
     (case (json_num to_float a, json_num to_float b) of (Some x, Some y) \<Rightarrow> rel x y | _ \<Rightarrow> False)"

fun apply_op :: "(string \<Rightarrow> int option) \<Rightarrow> cond_op \<Rightarrow> json \<Rightarrow> json \<Rightarrow> bool" where
  "apply_op to_float OP_EQ a b = json_eq a b"
| "apply_op to_float OP_NE a b = (\<not> json_eq a b)"
| "apply_op to_float OP_GT a b = num_compare to_float (>) a b"
| "apply_op to_float OP_GTE a b = num_compare to_float (\<ge>) a b"
| "apply_op to_float OP_LT a b = num_compare to_float (<) a b"
| "apply_op to_float OP_LTE a b = num_compare to_float (\<le>) a b"
| "apply_op to_float OP_IN a b =
     (case b of JList xs \<Rightarrow> list_ex (json_eq a) xs
              | JStr t \<Rightarrow> (case a of JStr s \<Rightarrow> py_in s t | _ \<Rightarrow> False)
              | _ \<Rightarrow> False)"
| "apply_op to_float OP_TRUTHY a b = json_truthy a"
| "apply_op to_float OP_FALSY a b = (\<not> json_truthy a)"

definition evaluate_condition ::
  "(string \<Rightarrow> int option) \<Rightarrow> (string \<times> json) list option \<Rightarrow> (string \<times> json) list \<Rightarrow> bool" where
  "evaluate_condition to_float condition context =
     (case condition of
        None \<Rightarrow> True
      | Some c \<Rightarrow>
          if c = [] then True
          else (case map_of cond_ops (case map_of c ''op'' of None \<Rightarrow> ''truthy'' | Some v \<Rightarrow> json_text v) of
                  None \<Rightarrow> False
                | Some op \<Rightarrow>
                    apply_op to_float op
                      (resolve_field (case map_of c ''field'' of None \<Rightarrow> JStr [] | Some v \<Rightarrow> v) context)
                      (json_get c ''value'')))"

section \<open>Node types, risk and routing\<close>

definition LOCAL_WORKCELL :: string where "LOCAL_WORKCELL = ''campaigns''"

record node_type_spec =
  ts_high_risk :: bool
  ts_severity :: audit_severity
  ts_approval :: approval_level

definition type_spec :: "bool \<Rightarrow> audit_severity \<Rightarrow> approval_level \<Rightarrow> node_type_spec" where
  "type_spec risky sev level = \<lparr>ts_high_risk = risky, ts_severity = sev, ts_approval = level\<rparr>"

definition NODE_TYPE_SPECS :: "(string \<times> node_type_spec) list" where
  "NODE_TYPE_SPECS =
    [(''artifact_ingest'', type_spec False SEV_INFO AL_NONE),
     (''seo_audit'', type_spec False SEV_INFO AL_NONE),
     (''audience_discovery'', type_spec False SEV_INFO AL_NONE),
     (''funnel_plan'', type_spec False SEV_NOTICE AL_OPERATOR),
     (''content_generation'', type_spec False SEV_NOTICE AL_OPERATOR),
     (''seo_geo_content'', type_spec False SEV_NOTICE AL_OPERATOR),
     (''metrics_collection'', type_spec False SEV_INFO AL_NONE),
     (''public_action'', type_spec True SEV_CRITICAL AL_CLIENT),
     (''external_outreach'', type_spec True SEV_CRITICAL AL_OPERATOR),
     (''paid_ads'', type_spec True SEV_CRITICAL AL_OPERATOR),
     (''backlink'', type_spec True SEV_CRITICAL AL_GOVERNANCE),
     (''website_edit'', type_spec True SEV_HIGH AL_OPERATOR),
     (''mass_message'', type_spec True SEV_CRITICAL AL_CLIENT),
     (''review_request'', type_spec True SEV_HIGH AL_OPERATOR),
     (''reporting'', type_spec False SEV_NOTICE AL_OPERATOR)]"

definition UNKNOWN_SPEC :: node_type_spec where
  "UNKNOWN_SPEC = type_spec True SEV_HIGH AL_OPERATOR"

definition spec_for :: "string \<Rightarrow> node_type_spec" where
  "spec_for node_type = (case map_of NODE_TYPE_SPECS node_type of None \<Rightarrow> UNKNOWN_SPEC | Some s \<Rightarrow> s)"

definition is_high_risk :: "string \<Rightarrow> bool" where
  "is_high_risk node_type = ts_high_risk (spec_for node_type)"

definition is_valid_pair :: "string \<Rightarrow> string \<Rightarrow> bool" where
  "is_valid_pair target capability = (capability \<in> set (dict_get SERVICE_CAPABILITIES target []))"

definition known_workcell :: "string \<Rightarrow> bool" where
  "known_workcell target = dict_has SERVICE_CAPABILITIES target"

definition assert_routable :: "string \<Rightarrow> string \<Rightarrow> string \<Rightarrow> campaign_error option" where
  "assert_routable node_id target capability =
     (if \<not> known_workcell target then Some (UnknownWorkcell node_id target)
      else if \<not> is_valid_pair target capability then Some (CapabilityNotExposed node_id target capability)
      else None)"

text \<open>A type that is dangerous by its specification is also gated by it.\<close>

lemma high_risk_types_are_gated: "ts_high_risk (spec_for t) \<Longrightarrow> ts_approval (spec_for t) \<noteq> AL_NONE"
proof -
  have "list_all (\<lambda>(k, s). ts_high_risk s \<longrightarrow> ts_approval s \<noteq> AL_NONE) NODE_TYPE_SPECS"
    by (simp add: NODE_TYPE_SPECS_def type_spec_def)
  moreover assume "ts_high_risk (spec_for t)"
  ultimately show ?thesis
    by (auto simp: spec_for_def UNKNOWN_SPEC_def type_spec_def list_all_iff split: option.splits dest!: map_of_SomeD)
qed

section \<open>Approval levels and severities of a node\<close>

definition resolve_level :: "campaign_node \<Rightarrow> vertical_rules option \<Rightarrow> approval_level" where
  "resolve_level node rules =
     (let level = max_level (cn_approval node) (ts_approval (spec_for (cn_type node)))
      in case rules of
           None \<Rightarrow> level
         | Some r \<Rightarrow> (case map_of (vr_approval_overrides r) (cn_type node) of
                       None \<Rightarrow> level
                     | Some l \<Rightarrow> max_level level l))"

definition resolve_severity :: "campaign_node \<Rightarrow> audit_severity" where
  "resolve_severity node = (case cn_severity node of Some s \<Rightarrow> s | None \<Rightarrow> ts_severity (spec_for (cn_type node)))"

fun risk_level_for :: "audit_severity \<Rightarrow> string" where
  "risk_level_for SEV_CRITICAL = ''critical''"
| "risk_level_for SEV_HIGH = ''high''"
| "risk_level_for s = ''normal''"

lemma resolve_level_max: "resolve_level node rules =
     max (max (cn_approval node) (ts_approval (spec_for (cn_type node))))
         (case rules of None \<Rightarrow> AL_NONE
          | Some r \<Rightarrow> (case map_of (vr_approval_overrides r) (cn_type node) of None \<Rightarrow> AL_NONE | Some l \<Rightarrow> l))"
  by (auto simp: resolve_level_def max_level_max max.absorb1 split: option.splits)

lemma high_risk_is_gated: "is_high_risk (cn_type node) \<Longrightarrow> resolve_level node rules \<noteq> AL_NONE"
proof -
  assume "is_high_risk (cn_type node)"
  then have "ts_approval (spec_for (cn_type node)) \<noteq> AL_NONE"
    unfolding is_high_risk_def by (rule high_risk_types_are_gated)
  moreover have "ts_approval (spec_for (cn_type node)) \<le> resolve_level node rules"
    unfolding resolve_level_max by (simp add: le_max_iff_disj)
  ultimately show ?thesis by auto
qed

section \<open>Template validation\<close>

definition node_ids :: "campaign_template \<Rightarrow> string list" where
  "node_ids t = map cn_id (ct_nodes t)"

fun first_some :: "('a \<Rightarrow> 'b option) \<Rightarrow> 'a list \<Rightarrow> 'b option" where
  "first_some f [] = None"
| "first_some f (x # xs) = (case f x of Some y \<Rightarrow> Some y | None \<Rightarrow> first_some f xs)"

lemma first_some_None: "first_some f xs = None \<longleftrightarrow> (\<forall>x \<in> set xs. f x = None)"
  by (induction xs) (auto split: option.splits)

definition edge_error :: "string list \<Rightarrow> campaign_edge \<Rightarrow> campaign_error option" where
  "edge_error ids e = (if ce_from e \<notin> set ids then Some (EdgeFromUnknown (ce_from e))
                       else if ce_to e \<notin> set ids then Some (EdgeToUnknown (ce_to e)) else None)"

definition node_error :: "string list \<Rightarrow> campaign_node \<Rightarrow> campaign_error option" where
  "node_error kpis n =
     (case assert_routable (cn_id n) (cn_target n) (cn_capability n) of
        Some e \<Rightarrow> Some e
      | None \<Rightarrow> first_some (\<lambda>k. if k \<in> set kpis then None else Some (UndeclaredKpi (cn_id n) k)) (cn_kpis n))"

definition validate_graph_integrity :: "campaign_template \<Rightarrow> campaign_error option" where
  "validate_graph_integrity t =
     (let ids = node_ids t; dupes = filter (\<lambda>i. count_list ids i > 1) ids
      in if dupes \<noteq> [] then Some (DuplicateNodeIds (sort (remdups dupes)))
         else if ids = [] then Some TemplateHasNoNodes
         else (case first_some (edge_error ids) (ct_edges t) of
                 Some e \<Rightarrow> Some e
               | None \<Rightarrow> first_some (node_error (ct_kpis t)) (ct_nodes t)))"

end
