(* ===== verification/Campaign_Graph.thy ===== *)
theory Campaign_Graph
  imports Campaign_Model
begin

text \<open>
  The campaign graph, \<open>campaigns/graph.py\<close>: adjacency lists built from a template, Kahn's algorithm as the
  acyclicity check, and the nodes that are ready. The middle sections prove the algorithm correct on graphs
  that may have parallel edges.
\<close>

section \<open>Adjacency\<close>

text \<open>\<open>{n.id: n for n in nodes}\<close>.\<close>

definition node_map :: "campaign_template \<Rightarrow> (string \<times> campaign_node) list" where
  "node_map t = fold (\<lambda>n m. AList.update (cn_id n) n m) (ct_nodes t) []"

record campaign_graph =
  cg_nodes :: "(string \<times> campaign_node) list"
  cg_edges :: "campaign_edge list"
  cg_incoming :: "(string \<times> campaign_edge list) list"
  cg_outgoing :: "(string \<times> campaign_edge list) list"

fun add_edges ::
  "campaign_edge list \<Rightarrow> (string \<times> campaign_edge list) list \<times> (string \<times> campaign_edge list) list
     \<Rightarrow> campaign_error + ((string \<times> campaign_edge list) list \<times> (string \<times> campaign_edge list) list)" where
  "add_edges [] (out, inc) = Inr (out, inc)"
| "add_edges (e # es) (out, inc) =
     (case map_of out (ce_from e) of
        None \<Rightarrow> Inl (GraphKeyError (ce_from e))
      | Some os \<Rightarrow>
          (case map_of inc (ce_to e) of
             None \<Rightarrow> Inl (GraphKeyError (ce_to e))
           | Some is_ \<Rightarrow> add_edges es (AList.update (ce_from e) (os @ [e]) out, AList.update (ce_to e) (is_ @ [e]) inc)))"

section \<open>Kahn's algorithm\<close>

definition relax_edge :: "campaign_edge \<Rightarrow> (string \<times> int) list \<times> string list \<Rightarrow> (string \<times> int) list \<times> string list" where
  "relax_edge e = (\<lambda>(indeg, queue).
     let d = dict_get indeg (ce_to e) 0 - 1
     in (AList.update (ce_to e) d indeg, if d = 0 then queue @ [ce_to e] else queue))"

definition positive_indegs :: "(string \<times> int) list \<Rightarrow> nat" where
  "positive_indegs indeg = length (filter (\<lambda>(k, d). 0 < d) indeg)"

lemma positive_indegs_update:
  "positive_indegs (AList.update k v deg) + (case map_of deg k of Some u \<Rightarrow> (if 0 < u then 1 else 0) | None \<Rightarrow> 0)
     = positive_indegs deg + (if 0 < v then 1 else 0)"
  by (induction deg) (auto simp: positive_indegs_def split: option.splits)

lemma relax_edges_measure:
  "fold relax_edge es (deg, queue) = (deg', queue')
     \<Longrightarrow> positive_indegs deg' + length queue' \<le> positive_indegs deg + length queue"
proof (induction es arbitrary: deg queue)
  case (Cons e es)
  obtain d q where r: "relax_edge e (deg, queue) = (d, q)" by fastforce
  with Cons.prems have "fold relax_edge es (d, q) = (deg', queue')" by simp
  moreover have "positive_indegs d + length q \<le> positive_indegs deg + length queue"
    using r positive_indegs_update [of "ce_to e" "dict_get deg (ce_to e) 0 - 1" deg]
    by (auto simp: relax_edge_def Let_def dict_get_def split: if_splits option.splits)
  ultimately show ?case using Cons.IH [of d q] by linarith
qed simp

function graph_kahn :: "(string \<times> campaign_edge list) list \<Rightarrow> (string \<times> int) list \<Rightarrow> string list \<Rightarrow> string list" where
  "graph_kahn out indeg [] = []"
| "graph_kahn out indeg (nid # queue) =
     (let (indeg', queue') = fold relax_edge (dict_get out nid []) (indeg, queue)
      in nid # graph_kahn out indeg' queue')"
  by pat_completeness auto
termination
proof (relation "measure (\<lambda>(out, indeg, queue). positive_indegs indeg + length queue)", goal_cases)
  case (2 out indeg nid queue x indeg' queue')
  then have "fold relax_edge (dict_get out nid []) (indeg, queue) = (indeg', queue')" by simp
  from relax_edges_measure [OF this] show ?case by simp
qed simp

definition graph_order :: "campaign_graph \<Rightarrow> campaign_error + string list" where
  "graph_order g =
     (let ids = dict_keys (cg_nodes g);
          indeg = map (\<lambda>nid. (nid, int (length (dict_get (cg_incoming g) nid [])))) ids;
          order = graph_kahn (cg_outgoing g) indeg (filter (\<lambda>nid. dict_get indeg nid 0 = 0) ids)
      in if length order \<noteq> length ids then Inl (GraphCycle (sort (filter (\<lambda>nid. nid \<notin> set order) ids))) else Inr order)"

definition new_graph :: "campaign_template \<Rightarrow> campaign_error + campaign_graph" where
  "new_graph t =
     (let nodes = node_map t; blank = map (\<lambda>nid. (nid, [])) (dict_keys nodes)
      in case add_edges (ct_edges t) (blank, blank) of
           Inl e \<Rightarrow> Inl e
         | Inr (out, inc) \<Rightarrow>
             (let g = \<lparr>cg_nodes = nodes, cg_edges = ct_edges t, cg_incoming = inc, cg_outgoing = out\<rparr>
              in case graph_order g of Inl e \<Rightarrow> Inl e | Inr order \<Rightarrow> Inr g))"

definition graph_roots :: "campaign_graph \<Rightarrow> string list" where
  "graph_roots g = filter (\<lambda>nid. dict_get (cg_incoming g) nid [] = []) (dict_keys (cg_nodes g))"

definition successors :: "campaign_graph \<Rightarrow> string \<Rightarrow> campaign_edge list" where
  "successors g nid = dict_get (cg_outgoing g) nid []"

definition predecessors :: "campaign_graph \<Rightarrow> string \<Rightarrow> campaign_edge list" where
  "predecessors g nid = dict_get (cg_incoming g) nid []"

definition ready_nodes ::
  "(string \<Rightarrow> int option) \<Rightarrow> campaign_graph \<Rightarrow> string list \<Rightarrow> (string \<times> json) list \<Rightarrow> string list \<Rightarrow> string list" where
  "ready_nodes to_float g completed ctx exclude =
     filter (\<lambda>nid. nid \<notin> set completed \<union> set exclude
                 \<and> (predecessors g nid = []
                    \<or> (\<forall>e \<in> set (predecessors g nid). ce_from e \<in> set completed
                         \<and> evaluate_condition to_float (ce_condition e) ctx)))
       (dict_keys (cg_nodes g))"

section \<open>Adjacency lists hold the edges\<close>

lemma update_key_set: "fst ` set (AList.update k v m) = insert k (fst ` set m)"
  by (induction m) (auto split: if_splits)

lemma node_map_keys: "set (dict_keys (node_map t)) = set (node_ids t)" "distinct (dict_keys (node_map t))"
proof -
  have "set (map fst (fold (\<lambda>n m. AList.update (cn_id n) n m) ns m)) = set (map fst m) \<union> set (map cn_id ns)
      \<and> (distinct (map fst m) \<longrightarrow> distinct (map fst (fold (\<lambda>n m. AList.update (cn_id n) n m) ns m)))"
    for ns :: "campaign_node list" and m
    by (induction ns arbitrary: m) (simp_all add: update_key_set distinct_update)
  from this [of "ct_nodes t" "[]"] show "set (dict_keys (node_map t)) = set (node_ids t)" "distinct (dict_keys (node_map t))"
    by (simp_all add: node_map_def node_ids_def)
qed

lemma node_map_distinct: "distinct (node_ids t) \<Longrightarrow> node_map t = map (\<lambda>n. (cn_id n, n)) (ct_nodes t)"
proof -
  have new: "AList.update (k :: string) v m = m @ [(k, v)]" if "k \<notin> fst ` set m" for k m and v :: campaign_node
    using that by (induction m) auto
  have "fold (\<lambda>n m. AList.update (cn_id n) n m) ns m = m @ map (\<lambda>n. (cn_id n, n)) ns"
    if "distinct (map fst m @ map cn_id ns)" for ns :: "campaign_node list" and m
    using that
  proof (induction ns arbitrary: m)
    case (Cons n ns)
    then have "AList.update (cn_id n) n m = m @ [(cn_id n, n)]" by (intro new) auto
    with Cons show ?case by simp
  qed simp
  from this [of "[]" "ct_nodes t"] show "distinct (node_ids t) \<Longrightarrow> ?thesis" by (simp add: node_map_def node_ids_def)
qed

lemma add_edges_spec:
  "add_edges es (out, inc) = Inr (out', inc') \<Longrightarrow>
     (\<forall>k. map_of out' k = map_option (\<lambda>os. os @ filter (\<lambda>e. ce_from e = k) es) (map_of out k))
     \<and> (\<forall>k. map_of inc' k = map_option (\<lambda>os. os @ filter (\<lambda>e. ce_to e = k) es) (map_of inc k))
     \<and> (\<forall>e \<in> set es. map_of out (ce_from e) \<noteq> None \<and> map_of inc (ce_to e) \<noteq> None)"
proof (induction es arbitrary: out inc)
  case Nil
  then show ?case by (simp add: option.map_ident)
next
  case (Cons e es)
  from Cons.prems obtain os ins where e: "map_of out (ce_from e) = Some os" "map_of inc (ce_to e) = Some ins"
    "add_edges es (AList.update (ce_from e) (os @ [e]) out, AList.update (ce_to e) (ins @ [e]) inc) = Inr (out', inc')"
    by (auto split: option.splits)
  from Cons.IH [OF e(3)] e(1,2) show ?case by (auto simp: map_of_update option.map_comp comp_def split: if_splits)
qed

lemma add_edges_ok:
  "\<forall>e \<in> set es. map_of out (ce_from e) \<noteq> None \<and> map_of inc (ce_to e) \<noteq> None \<Longrightarrow> \<exists>r. add_edges es (out, inc) = Inr r"
proof (induction es arbitrary: out inc)
  case (Cons e es)
  then obtain os ins where e: "map_of out (ce_from e) = Some os" "map_of inc (ce_to e) = Some ins" by auto
  have "\<forall>x \<in> set es. map_of (AList.update (ce_from e) (os @ [e]) out) (ce_from x) \<noteq> None
      \<and> map_of (AList.update (ce_to e) (ins @ [e]) inc) (ce_to x) \<noteq> None"
    using Cons.prems by (auto simp: map_of_update)
  from Cons.IH [OF this] e show ?case by simp
qed simp

section \<open>Correctness of the acyclicity check\<close>

definition edges_to :: "campaign_edge list \<Rightarrow> string \<Rightarrow> nat" where
  "edges_to es x = length (filter (\<lambda>e. ce_to e = x) es)"

lemma edges_to_simps [simp]: "edges_to [] x = 0" "edges_to (e # es) x = (if ce_to e = x then 1 else 0) + edges_to es x"
  by (simp_all add: edges_to_def)

lemma dict_get_update [simp]: "dict_get (AList.update k v m) x d = (if x = k then v else dict_get m x d)"
  by (simp add: dict_get_def map_of_update)

lemma relax_edges_spec:
  "fold relax_edge es (deg, q) = (deg', q') \<Longrightarrow> (\<And>x. int (edges_to es x) \<le> dict_get deg x 0 \<or> edges_to es x = 0) \<Longrightarrow>
     (\<forall>x. dict_get deg' x 0 = dict_get deg x 0 - int (edges_to es x))
     \<and> (\<exists>new. q' = q @ new \<and> distinct new \<and> set new = {x. 0 < edges_to es x \<and> dict_get deg x 0 = int (edges_to es x)})"
proof (induction es arbitrary: deg q)
  case Nil
  then show ?case by simp
next
  case (Cons e es)
  define d where "d = dict_get deg (ce_to e) 0 - 1"
  define deg1 where "deg1 = AList.update (ce_to e) d deg"
  define q1 where "q1 = (if d = 0 then q @ [ce_to e] else q)"
  have "relax_edge e (deg, q) = (deg1, q1)" by (simp add: relax_edge_def Let_def d_def deg1_def q1_def)
  then have r: "fold relax_edge es (deg1, q1) = (deg', q')" using Cons.prems(1) by simp
  have d0: "int (edges_to es (ce_to e)) \<le> d" using Cons.prems(2) [of "ce_to e"] by (simp add: d_def)
  have "int (edges_to es x) \<le> dict_get deg1 x 0 \<or> edges_to es x = 0" for x
    using Cons.prems(2) [of x] d0 by (auto simp: deg1_def)
  from Cons.IH [OF r this] obtain new where n: "\<And>x. dict_get deg' x 0 = dict_get deg1 x 0 - int (edges_to es x)"
    "q' = q1 @ new" "distinct new" "set new = {x. 0 < edges_to es x \<and> dict_get deg1 x 0 = int (edges_to es x)}" by auto
  have "dict_get deg' x 0 = dict_get deg x 0 - int (edges_to (e # es) x)" for x
    by (simp add: n(1) deg1_def d_def)
  moreover have "\<exists>new. q' = q @ new \<and> distinct new
      \<and> set new = {x. 0 < edges_to (e # es) x \<and> dict_get deg x 0 = int (edges_to (e # es) x)}"
  proof (cases "d = 0")
    case True
    then have "edges_to es (ce_to e) = 0" using d0 by simp
    with True n show ?thesis
      by (intro exI [of _ "ce_to e # new"]) (auto simp: q1_def deg1_def d_def)
  next
    case False
    with n d0 show ?thesis
      by (intro exI [of _ new]) (auto simp: q1_def deg1_def d_def split: if_splits)
  qed
  ultimately show ?case by blast
qed

definition graph_ids :: "campaign_graph \<Rightarrow> string set" where
  "graph_ids g = set (dict_keys (cg_nodes g))"

lemma graph_ids_finite [simp]: "finite (graph_ids g)"
  by (simp add: graph_ids_def)

text \<open>Adjacency as \<open>new_graph\<close> builds it.\<close>

definition graph_wf :: "campaign_graph \<Rightarrow> bool" where
  "graph_wf g \<longleftrightarrow> distinct (dict_keys (cg_nodes g))
     \<and> (\<forall>k \<in> graph_ids g. dict_get (cg_outgoing g) k [] = filter (\<lambda>e. ce_from e = k) (cg_edges g)
          \<and> dict_get (cg_incoming g) k [] = filter (\<lambda>e. ce_to e = k) (cg_edges g))
     \<and> (\<forall>e \<in> set (cg_edges g). ce_from e \<in> graph_ids g \<and> ce_to e \<in> graph_ids g)"

lemma graph_wfD:
  assumes "graph_wf g" "k \<in> graph_ids g"
  shows "dict_get (cg_outgoing g) k [] = filter (\<lambda>e. ce_from e = k) (cg_edges g)"
    and "dict_get (cg_incoming g) k [] = filter (\<lambda>e. ce_to e = k) (cg_edges g)"
  using assms unfolding graph_wf_def by blast+

definition open_edges :: "campaign_edge list \<Rightarrow> string set \<Rightarrow> string \<Rightarrow> nat" where
  "open_edges es P x = length (filter (\<lambda>e. ce_to e = x \<and> ce_from e \<notin> P) es)"

lemma open_edges_insert:
  "nid \<notin> P \<Longrightarrow> open_edges es P x = open_edges es (insert nid P) x + edges_to (filter (\<lambda>e. ce_from e = nid) es) x"
  by (induction es) (auto simp: open_edges_def)

lemma open_edges_zero: "open_edges es P x = 0 \<longleftrightarrow> (\<forall>e \<in> set es. ce_to e = x \<longrightarrow> ce_from e \<in> P)"
  by (auto simp: open_edges_def filter_empty_conv)

text \<open>The invariant of the main loop; \<open>P\<close> are the nodes already ordered.\<close>

definition graph_inv :: "campaign_graph \<Rightarrow> string set \<Rightarrow> (string \<times> int) list \<Rightarrow> string list \<Rightarrow> bool" where
  "graph_inv g P deg q \<longleftrightarrow>
     (\<forall>x \<in> graph_ids g. dict_get deg x 0 = int (open_edges (cg_edges g) P x)
        \<and> (x \<in> P \<union> set q \<longleftrightarrow> open_edges (cg_edges g) P x = 0))
     \<and> distinct q \<and> set q \<inter> P = {} \<and> set q \<union> P \<subseteq> graph_ids g"

lemma graph_inv_step:
  assumes wf: "graph_wf g" and inv: "graph_inv g P deg (nid # q)"
    and r: "fold relax_edge (dict_get (cg_outgoing g) nid []) (deg, q) = (deg', q')"
  shows "graph_inv g (insert nid P) deg' q'"
proof -
  let ?V = "graph_ids g" and ?E = "cg_edges g"
  define es where "es = filter (\<lambda>e. ce_from e = nid) ?E"
  have nid: "nid \<in> ?V" "nid \<notin> P" "nid \<notin> set q" using inv by (auto simp: graph_inv_def)
  have es: "dict_get (cg_outgoing g) nid [] = es" unfolding es_def by (rule graph_wfD(1) [OF wf nid(1)])
  have to_V: "ce_to e \<in> ?V" if "e \<in> set es" for e using wf that by (simp add: graph_wf_def es_def)
  have deg: "dict_get deg x 0 = int (open_edges ?E P x)" if "x \<in> ?V" for x using inv that by (simp add: graph_inv_def)
  have split: "open_edges ?E P x = open_edges ?E (insert nid P) x + edges_to es x" for x
    unfolding es_def by (rule open_edges_insert [OF nid(2)])
  have out: "edges_to es x = 0" if "x \<notin> ?V" for x
    using that to_V by (auto simp: edges_to_def filter_empty_conv)
  have "int (edges_to es x) \<le> dict_get deg x 0 \<or> edges_to es x = 0" for x
    using deg [of x] split [of x] out [of x] by (cases "x \<in> ?V") simp_all
  from relax_edges_spec [OF r [unfolded es] this] obtain new where
    n: "\<And>x. dict_get deg' x 0 = dict_get deg x 0 - int (edges_to es x)" "q' = q @ new" "distinct new"
      "set new = {x. 0 < edges_to es x \<and> dict_get deg x 0 = int (edges_to es x)}" by auto
  have new: "x \<in> set new \<longleftrightarrow> 0 < edges_to es x \<and> open_edges ?E (insert nid P) x = 0" if "x \<in> ?V" for x
    using deg [OF that] split [of x] by (auto simp: n(4))
  have newV: "set new \<subseteq> ?V"
  proof
    fix x
    assume "x \<in> set new"
    then have "edges_to es x \<noteq> 0" by (simp add: n(4))
    with out show "x \<in> ?V" by (metis (full_types))
  qed
  have old: "x \<notin> insert nid P \<union> set q" if "x \<in> set new" for x
  proof -
    have x: "x \<in> ?V" "0 < open_edges ?E P x" using that newV new split [of x] by auto
    then have "x \<notin> P \<union> set (nid # q)" using inv by (simp add: graph_inv_def)
    then show ?thesis by simp
  qed
  have mem: "x \<in> insert nid P \<union> set q' \<longleftrightarrow> open_edges ?E (insert nid P) x = 0" if x: "x \<in> ?V" for x
  proof -
    have "x \<in> insert nid P \<union> set q' \<longleftrightarrow> x \<in> P \<union> set (nid # q) \<or> x \<in> set new" using n(2) by auto
    also have "\<dots> \<longleftrightarrow> open_edges ?E P x = 0 \<or> (0 < edges_to es x \<and> open_edges ?E (insert nid P) x = 0)"
      using inv x new [OF x] by (simp add: graph_inv_def)
    also have "\<dots> \<longleftrightarrow> open_edges ?E (insert nid P) x = 0" using split [of x] by auto
    finally show ?thesis .
  qed
  have degs: "dict_get deg' x 0 = int (open_edges ?E (insert nid P) x)" if "x \<in> ?V" for x
    using n(1) deg [OF that] split [of x] by simp
  have q: "distinct q" "set q \<inter> P = {}" "set q \<union> P \<subseteq> ?V" using inv by (auto simp: graph_inv_def)
  have disj: "set new \<inter> (insert nid P \<union> set q) = {}" using old by (meson disjoint_iff)
  have sq: "set q' = set q \<union> set new" by (simp only: n(2) set_append)
  have "distinct q'" unfolding n(2) distinct_append using n(3) q(1) disj by blast
  moreover have "set q' \<inter> insert nid P = {}" unfolding sq using disj q(2) nid(3) by blast
  moreover have "set q' \<union> insert nid P \<subseteq> ?V" unfolding sq using newV q(3) nid(1) by blast
  ultimately show ?thesis unfolding graph_inv_def by (intro conjI ballI mem degs)
qed

text \<open>An order in which every edge points forward (\<open>P\<close>: what has been placed before).\<close>

fun edges_forward :: "campaign_edge list \<Rightarrow> string set \<Rightarrow> string list \<Rightarrow> bool" where
  "edges_forward es P [] = True"
| "edges_forward es P (x # xs) = ((\<forall>e \<in> set es. ce_to e = x \<longrightarrow> ce_from e \<in> P) \<and> edges_forward es (insert x P) xs)"

lemma graph_kahn_spec:
  "graph_wf g \<Longrightarrow> graph_inv g P deg q \<Longrightarrow> graph_kahn (cg_outgoing g) deg q = order \<Longrightarrow>
     distinct order \<and> set order \<inter> P = {} \<and> edges_forward (cg_edges g) P order
     \<and> (\<exists>deg'. graph_inv g (P \<union> set order) deg' [])"
proof (induction "cg_outgoing g" deg q arbitrary: P order rule: graph_kahn.induct)
  case (1 deg)
  then show ?case by auto
next
  case (2 deg nid q)
  obtain deg' q' where r: "fold relax_edge (dict_get (cg_outgoing g) nid []) (deg, q) = (deg', q')" by fastforce
  with "2.prems"(3) have o: "order = nid # graph_kahn (cg_outgoing g) deg' q'" by simp
  have nid: "nid \<notin> P" "\<forall>e \<in> set (cg_edges g). ce_to e = nid \<longrightarrow> ce_from e \<in> P"
    using "2.prems"(2) open_edges_zero by (auto simp: graph_inv_def)
  from "2.hyps" [OF r [symmetric] refl "2.prems"(1) graph_inv_step [OF "2.prems"(1,2) r] refl] o nid
  show ?case by auto
qed

definition edge_rel :: "campaign_edge list \<Rightarrow> (string \<times> string) set" where
  "edge_rel es = set (map (\<lambda>e. (ce_from e, ce_to e)) es)"

lemma edges_forward_index:
  "edges_forward es P order \<Longrightarrow> e \<in> set es \<Longrightarrow> ce_to e \<in> set order \<Longrightarrow> ce_to e \<notin> P \<Longrightarrow>
     ce_from e \<in> P \<or> length (takeWhile (\<lambda>y. y \<noteq> ce_from e) order) < length (takeWhile (\<lambda>y. y \<noteq> ce_to e) order)"
proof (induction order arbitrary: P)
  case (Cons x xs)
  then show ?case by (cases "ce_to e = x") auto
qed simp

lemma edges_forward_acyclic:
  assumes "edges_forward es {} order" "\<forall>e \<in> set es. ce_to e \<in> set order"
  shows "acyclic (edge_rel es)"
proof -
  have "edge_rel es \<subseteq> measure (\<lambda>x. length (takeWhile (\<lambda>y. y \<noteq> x) order))"
    using assms edges_forward_index [OF assms(1)] by (auto simp: edge_rel_def)
  then show ?thesis by (metis wf_acyclic wf_measure wf_subset)
qed

lemma stuck_not_acyclic:
  assumes "finite R" "R \<noteq> {}" "\<forall>x \<in> R. \<exists>y \<in> R. (y, x) \<in> edge_rel es"
  shows "\<not> acyclic (edge_rel es)"
proof
  assume "acyclic (edge_rel es)"
  then have "wf (edge_rel es)" by (intro finite_acyclic_wf) (simp_all add: edge_rel_def)
  with assms(2) obtain x where "x \<in> R" "\<forall>y. (y, x) \<in> edge_rel es \<longrightarrow> y \<notin> R" by (metis wfE_min ex_in_conv)
  with assms(3) show False by blast
qed

lemma initial_queue_inv:
  fixes g
  defines "ids \<equiv> dict_keys (cg_nodes g)"
  defines "indeg \<equiv> map (\<lambda>nid. (nid, int (length (dict_get (cg_incoming g) nid [])))) ids"
  assumes wf: "graph_wf g"
  shows "graph_inv g {} indeg (filter (\<lambda>nid. dict_get indeg nid 0 = 0) ids)"
proof -
  have "dict_get indeg x 0 = int (open_edges (cg_edges g) {} x)" if "x \<in> set ids" for x
  proof -
    have "map_of indeg x = Some (int (length (dict_get (cg_incoming g) x [])))"
      using that by (simp add: indeg_def map_of_map_restrict restrict_map_def)
    moreover have "dict_get (cg_incoming g) x [] = filter (\<lambda>e. ce_to e = x) (cg_edges g)"
      using that unfolding ids_def graph_ids_def [symmetric] by (rule graph_wfD(2) [OF wf])
    ultimately show ?thesis by (simp add: dict_get_def open_edges_def)
  qed
  then have "\<forall>x \<in> graph_ids g. dict_get indeg x 0 = int (open_edges (cg_edges g) {} x)"
    unfolding graph_ids_def ids_def by blast
  moreover have "distinct ids" using wf by (simp add: graph_wf_def ids_def)
  moreover have "x \<in> graph_ids g \<longleftrightarrow> x \<in> set ids" for x by (simp only: graph_ids_def ids_def)
  ultimately show ?thesis by (auto simp: graph_inv_def)
qed

lemma graph_order_spec:
  assumes wf: "graph_wf g"
  shows "(case graph_order g of Inr order \<Rightarrow> acyclic (edge_rel (cg_edges g)) \<and> distinct order
             \<and> set order = graph_ids g \<and> edges_forward (cg_edges g) {} order
          | Inl err \<Rightarrow> \<not> acyclic (edge_rel (cg_edges g)))"
proof -
  let ?V = "dict_keys (cg_nodes g)"
  define indeg where "indeg = map (\<lambda>nid. (nid, int (length (dict_get (cg_incoming g) nid [])))) ?V"
  define order where "order = graph_kahn (cg_outgoing g) indeg (filter (\<lambda>nid. dict_get indeg nid 0 = 0) ?V)"
  have "graph_inv g {} indeg (filter (\<lambda>nid. dict_get indeg nid 0 = 0) ?V)"
    unfolding indeg_def by (rule initial_queue_inv [OF wf])
  from graph_kahn_spec [OF wf this refl] obtain deg' where
    k: "distinct order" "edges_forward (cg_edges g) {} order" "graph_inv g (set order) deg' []"
    by (auto simp: order_def)
  have sub: "set order \<subseteq> graph_ids g" using k(3) by (simp add: graph_inv_def)
  have go: "graph_order g = (if length order \<noteq> length ?V
      then Inl (GraphCycle (sort (filter (\<lambda>nid. nid \<notin> set order) ?V))) else Inr order)"
    by (simp add: graph_order_def Let_def order_def indeg_def)
  have len: "length order = length ?V \<longleftrightarrow> set order = graph_ids g"
    using wf k(1) sub by (metis card_subset_eq distinct_card graph_ids_def graph_ids_finite graph_wf_def)
  show ?thesis
  proof (cases "set order = graph_ids g")
    case True
    moreover have "\<forall>e \<in> set (cg_edges g). ce_to e \<in> set order" using wf True by (simp add: graph_wf_def)
    ultimately show ?thesis using go len k edges_forward_acyclic by simp
  next
    case False
    have "\<exists>y \<in> graph_ids g - set order. (y, x) \<in> edge_rel (cg_edges g)" if "x \<in> graph_ids g - set order" for x
    proof -
      from that k(3) have "open_edges (cg_edges g) (set order) x \<noteq> 0" by (auto simp: graph_inv_def)
      then obtain e where "e \<in> set (cg_edges g)" "ce_to e = x" "ce_from e \<notin> set order" by (auto simp: open_edges_zero)
      with wf show ?thesis by (force simp: edge_rel_def graph_wf_def)
    qed
    with False sub have "\<not> acyclic (edge_rel (cg_edges g))" by (intro stuck_not_acyclic [of "graph_ids g - set order"]) auto
    with False len go show ?thesis by simp
  qed
qed

text \<open>What the constructor returns.\<close>

lemma blank_lookup: "map_of (map (\<lambda>k. (k, [])) ks) x = (if x \<in> set ks then Some [] else None)"
  by (induction ks) auto

lemma new_graph_cases:
  assumes ends: "\<forall>e \<in> set (ct_edges t). ce_from e \<in> set (node_ids t) \<and> ce_to e \<in> set (node_ids t)"
  shows "\<exists>g. graph_wf g \<and> cg_nodes g = node_map t \<and> cg_edges g = ct_edges t
           \<and> new_graph t = (case graph_order g of Inl e \<Rightarrow> Inl e | Inr order \<Rightarrow> Inr g)"
proof -
  let ?b = "map (\<lambda>nid. (nid, [])) (dict_keys (node_map t)) :: (string \<times> campaign_edge list) list"
  have "\<forall>e \<in> set (ct_edges t). map_of ?b (ce_from e) \<noteq> None \<and> map_of ?b (ce_to e) \<noteq> None"
    using ends by (simp only: blank_lookup node_map_keys) auto
  from add_edges_ok [OF this] obtain out inc where a: "add_edges (ct_edges t) (?b, ?b) = Inr (out, inc)" by auto
  let ?g = "\<lparr>cg_nodes = node_map t, cg_edges = ct_edges t, cg_incoming = inc, cg_outgoing = out\<rparr>"
  have ids: "graph_ids ?g = set (node_ids t)" by (simp only: graph_ids_def node_map_keys campaign_graph.simps)
  have "graph_wf ?g" unfolding graph_wf_def ids
  proof (intro conjI ballI)
    show "distinct (dict_keys (cg_nodes ?g))" using node_map_keys(2) by simp
  next
    fix k
    assume "k \<in> set (node_ids t)"
    then have "map_of ?b k = Some []" by (simp only: blank_lookup node_map_keys if_True)
    with add_edges_spec [OF a] show "dict_get (cg_outgoing ?g) k [] = filter (\<lambda>e. ce_from e = k) (cg_edges ?g)"
      "dict_get (cg_incoming ?g) k [] = filter (\<lambda>e. ce_to e = k) (cg_edges ?g)"
      by (simp_all add: dict_get_def)
  qed (use ends in simp_all)
  moreover have "new_graph t = (case graph_order ?g of Inl e \<Rightarrow> Inl e | Inr order \<Rightarrow> Inr ?g)"
    using a unfolding new_graph_def Let_def by simp
  ultimately show ?thesis by (intro exI [of _ ?g]) simp
qed

lemma new_graph_wf:
  assumes "new_graph t = Inr g" "\<forall>e \<in> set (ct_edges t). ce_from e \<in> set (node_ids t) \<and> ce_to e \<in> set (node_ids t)"
  shows "graph_wf g" "cg_nodes g = node_map t" "cg_edges g = ct_edges t"
proof -
  from new_graph_cases [OF assms(2)] obtain g' where g: "graph_wf g'" "cg_nodes g' = node_map t" "cg_edges g' = ct_edges t"
    "new_graph t = (case graph_order g' of Inl e \<Rightarrow> Inl e | Inr order \<Rightarrow> Inr g')" by blast
  with assms(1) have "g' = g" by (cases "graph_order g'") simp_all
  with g show "graph_wf g" "cg_nodes g = node_map t" "cg_edges g = ct_edges t" by simp_all
qed

end
