(* ===== verification/Campaign_Exec.thy ===== *)
theory Campaign_Exec
  imports Campaign_Graph Approvals Json Sha256
begin

text \<open>
  Executing one campaign node: \<open>campaigns/executor.py\<close> with the dispatchers of \<open>dispatch.py\<close>, the KPI fold of
  \<open>kpi.py\<close>, the approval gate \<open>ensure\<close> and the audit events. Approvals are the operations of theory
  \<open>Approvals\<close>.

  The environment record holds what the code calls and this development does not define: clocks, random ids,
  the HTTP transport, the report writer, the templates on disk, and the two storage functions of the approval
  queue. The world record is the state shared by operations: the approval store, the stored runs, the audit
  trail, the calls made to dispatchers (\<open>cw_sent\<close>, a history no code reads) and a counter that makes each
  reading of a clock or random source a new one. Durations, trace ids, metrics and log lines are left out.
\<close>

section \<open>Run-time records\<close>

record artifact =
  af_id :: string
  af_type :: string
  af_ref :: string
  af_node :: string
  af_hash :: string
  af_title :: string
  af_metadata :: "(string \<times> json) list"
  af_created :: string

record step_result =
  sr_node :: string
  sr_status :: node_status
  sr_attempts :: nat
  sr_output_hash :: string
  sr_output_summary :: "(string \<times> json) list"
  sr_error :: string
  sr_artifact_refs :: "string list"
  sr_kpi_refs :: "string list"
  sr_approval :: "string option"

definition new_step_result :: "string \<Rightarrow> step_result" where
  "new_step_result nid = \<lparr>sr_node = nid, sr_status = NS_PENDING, sr_attempts = 0, sr_output_hash = [],
     sr_output_summary = [], sr_error = [], sr_artifact_refs = [], sr_kpi_refs = [], sr_approval = None\<rparr>"

record campaign_run =
  cr_campaign :: string
  cr_client :: string
  cr_template :: string
  cr_vertical :: string
  cr_state :: campaign_state
  cr_current :: "string option"
  cr_completed :: "string list"
  cr_blocked :: "string list"
  cr_failed :: "string list"
  cr_needs :: "string list"
  cr_artifacts :: "artifact list"
  cr_kpis :: "(string \<times> int) list"
  cr_approvals :: "string list"
  cr_audit :: "string list"
  cr_steps :: "(string \<times> step_result) list"
  cr_context :: "(string \<times> json) list"

datatype audit_entry =
    NodeEvent string string string string string string
  | LifecycleEvent string campaign_state campaign_state string

text \<open>A call to a dispatcher: the campaign, the node with the capability called, and the payload.\<close>

type_synonym dispatch_call = "string \<times> campaign_node \<times> (string \<times> json) list"

record 's campaign_world =
  cw_store :: 's
  cw_runs :: "(string \<times> campaign_run) list"
  cw_audit :: "audit_entry list"
  cw_sent :: "dispatch_call list"
  cw_tick :: nat

type_synonym py_exc = "string \<times> string"

text \<open>\<open>ce_post\<close> is \<open>signed_post_json_sync\<close>: an exception text, or a status code with text and decoded body.\<close>

record 's campaign_env =
  ce_load :: "'s \<Rightarrow> (string \<times> approval) list"
  ce_save :: "approval \<Rightarrow> 's \<Rightarrow> 's"
  ce_environ :: environ
  ce_to_rat :: "string \<Rightarrow> rat option"
  ce_to_float :: "string \<Rightarrow> int option"
  ce_clock :: "nat \<Rightarrow> rat"
  ce_stamp :: "nat \<Rightarrow> string"
  ce_uuid :: "nat \<Rightarrow> string"
  ce_gateway_url :: "string option"
  ce_hmac_ready :: bool
  ce_post :: "nat \<Rightarrow> string \<Rightarrow> string \<Rightarrow> json \<Rightarrow> string + (int \<times> string \<times> json option)"
  ce_report :: "nat \<Rightarrow> campaign_run \<Rightarrow> py_exc + artifact"
  ce_templates :: "string \<Rightarrow> campaign_error + campaign_template"

definition tick :: "'s campaign_world \<Rightarrow> 's campaign_world" where
  "tick w = w\<lparr>cw_tick := Suc (cw_tick w)\<rparr>"

definition hash_payload :: "json \<Rightarrow> string" where
  "hash_payload v = ''sha256:'' @ sha256_hex (dumps_ascii '','' '':'' v)"

section \<open>Vertical rules in the run context\<close>

fun severity_value :: "audit_severity \<Rightarrow> string" where
  "severity_value SEV_INFO = ''info''"
| "severity_value SEV_NOTICE = ''notice''"
| "severity_value SEV_WARNING = ''warning''"
| "severity_value SEV_HIGH = ''high''"
| "severity_value SEV_CRITICAL = ''critical''"

definition level_of_json :: "json \<Rightarrow> approval_level option" where
  "level_of_json v = (case v of JStr s \<Rightarrow>
     map_of (map (\<lambda>l. (level_value l, l)) [AL_NONE, AL_OPERATOR, AL_CLIENT, AL_GOVERNANCE]) s | _ \<Rightarrow> None)"

definition severity_of_json :: "json \<Rightarrow> audit_severity option" where
  "severity_of_json v = (case v of JStr s \<Rightarrow>
     map_of (map (\<lambda>l. (severity_value l, l)) [SEV_INFO, SEV_NOTICE, SEV_WARNING, SEV_HIGH, SEV_CRITICAL]) s | _ \<Rightarrow> None)"

fun str_of_json :: "json \<Rightarrow> string option" where
  "str_of_json (JStr s) = Some s"
| "str_of_json v = None"

fun all_some :: "'a option list \<Rightarrow> 'a list option" where
  "all_some [] = Some []"
| "all_some (x # xs) = (case (x, all_some xs) of (Some y, Some ys) \<Rightarrow> Some (y # ys) | _ \<Rightarrow> None)"

text \<open>\<open>vertical_rules.model_dump()\<close>, and \<open>_vertical_rules\<close>: the validated rules, or none.\<close>

definition rules_to_json :: "vertical_rules \<Rightarrow> json" where
  "rules_to_json r = JObj
     [(''vertical'', JStr (vr_vertical r)),
      (''approval_overrides'', JObj (map (\<lambda>(k, l). (k, JStr (level_value l))) (vr_approval_overrides r))),
      (''forbidden_capabilities'', JList (map JStr (vr_forbidden_capabilities r))),
      (''max_auto_severity'', JStr (severity_value (vr_max_auto_severity r))),
      (''extra'', JObj (vr_extra r))]"

definition rules_of_json :: "json \<Rightarrow> vertical_rules option" where
  "rules_of_json v = (case v of
     JObj d \<Rightarrow>
       (case (str_of_json (dict_get d ''vertical'' (JStr [])),
              (case dict_get d ''approval_overrides'' (JObj []) of
                 JObj kvs \<Rightarrow> all_some (map (\<lambda>(k, l). map_option (Pair k) (level_of_json l)) kvs) | _ \<Rightarrow> None),
              (case dict_get d ''forbidden_capabilities'' (JList []) of
                 JList xs \<Rightarrow> all_some (map str_of_json xs) | _ \<Rightarrow> None),
              severity_of_json (dict_get d ''max_auto_severity'' (JStr ''notice'')),
              (case dict_get d ''extra'' (JObj []) of JObj kvs \<Rightarrow> Some kvs | _ \<Rightarrow> None)) of
          (Some vert, Some overrides, Some forbidden, Some sev, Some extra) \<Rightarrow>
            Some \<lparr>vr_vertical = vert, vr_approval_overrides = overrides, vr_forbidden_capabilities = forbidden,
                  vr_max_auto_severity = sev, vr_extra = extra\<rparr>
        | _ \<Rightarrow> None)
   | _ \<Rightarrow> None)"

lemma level_of_json_value [simp]: "level_of_json (JStr (level_value l)) = Some l"
  by (cases l) (simp_all add: level_of_json_def)

lemma severity_of_json_value [simp]: "severity_of_json (JStr (severity_value l)) = Some l"
  by (cases l) (simp_all add: severity_of_json_def)

lemma all_some_map [simp]: "(\<And>x. x \<in> set xs \<Longrightarrow> f x = Some (g x)) \<Longrightarrow> all_some (map f xs) = Some (map g xs)"
  by (induction xs) auto

lemma rules_round_trip: "rules_of_json (rules_to_json r) = Some r"
proof -
  have "all_some (map (\<lambda>(k, l). map_option (Pair k) (level_of_json l)) (map (\<lambda>(k, l). (k, JStr (level_value l))) kvs)) = Some kvs"
    for kvs :: "(string \<times> approval_level) list"
    by (induction kvs) auto
  moreover have "all_some (map str_of_json (map JStr xs)) = Some xs" for xs by (induction xs) auto
  ultimately show ?thesis by (simp add: rules_of_json_def rules_to_json_def dict_get_def del: map_map)
qed

definition run_rules :: "campaign_run \<Rightarrow> vertical_rules option" where
  "run_rules run = rules_of_json (json_get (cr_context run) ''vertical_rules'')"

section \<open>KPIs\<close>

definition INITIAL_KPIS :: "string list" where
  "INITIAL_KPIS = [''page_views'', ''source_clicks'', ''cta_clicks'', ''phone_clicks'', ''email_clicks'', ''messenger_clicks'',
     ''application_starts'', ''application_completions'', ''tour_requests'', ''open_house_registrations'',
     ''social_posts_published'', ''social_engagements'', ''backlinks_created'', ''reviews_requested'', ''reviews_received'',
     ''local_partners_contacted'', ''flyers_distributed'']"

definition is_known_kpi :: "string \<Rightarrow> bool" where
  "is_known_kpi key = (key \<in> set INITIAL_KPIS)"

fun py_type_name :: "json \<Rightarrow> string" where
  "py_type_name JNull = ''NoneType''"
| "py_type_name (JBool b) = ''bool''"
| "py_type_name (JInt i) = ''int''"
| "py_type_name (JStr s) = ''str''"
| "py_type_name (JList xs) = ''list''"
| "py_type_name (JObj kvs) = ''dict''"

definition no_attribute_get :: "json \<Rightarrow> py_exc" where
  "no_attribute_get v = (''AttributeError'', py_repr (py_type_name v) @ '' object has no attribute '' @ py_repr ''get'')"

definition not_iterable :: "json \<Rightarrow> py_exc" where
  "not_iterable v = (''TypeError'', py_repr (py_type_name v) @ '' object is not iterable'')"

text \<open>\<open>a or b\<close> on JSON values.\<close>

definition json_or :: "json \<Rightarrow> json \<Rightarrow> json" where
  "json_or a b = (if json_truthy a then a else b)"

definition normalize_event ::
  "(string \<Rightarrow> int option) \<Rightarrow> (string \<times> json) list \<Rightarrow> py_exc + (string \<times> string \<times> int)" where
  "normalize_event to_float event =
     (let kpi = py_strip (json_text (json_or (json_or (json_get event ''kpi'') (json_get event ''key'')) (JStr [])));
          mode = py_lower (py_strip (json_text (dict_get event ''mode'' (JStr ''increment''))))
      in if \<not> is_known_kpi kpi then Inl (''ValueError'', ''unknown KPI '' @ py_repr kpi)
         else if mode \<notin> set [''set'', ''increment'', ''inc''] then Inl (''ValueError'', ''invalid KPI mode '' @ py_repr mode)
         else (case json_num to_float (dict_get event ''value'' (JInt 1)) of
                 None \<Rightarrow> Inl (''ValueError'', ''non-numeric KPI value: '' @ json_repr (json_get event ''value''))
               | Some value \<Rightarrow> Inr (kpi, if mode = ''inc'' then ''increment'' else mode, value)))"

text \<open>
  The fold over events: the values set so far, the run with them applied, and the exception that ended the
  fold, if any. Events before a bad one keep their effect on the run.
\<close>

fun apply_kpi_events ::
  "(string \<Rightarrow> int option) \<Rightarrow> json list \<Rightarrow> (string \<times> int) list \<Rightarrow> campaign_run
     \<Rightarrow> (string \<times> int) list \<times> campaign_run \<times> py_exc option" where
  "apply_kpi_events to_float [] changed run = (changed, run, None)"
| "apply_kpi_events to_float (raw # events) changed run =
     (case raw of
        JObj event \<Rightarrow>
          (case normalize_event to_float event of
             Inl e \<Rightarrow> (changed, run, Some e)
           | Inr (key, mode, value) \<Rightarrow>
               (let new = (if mode = ''set'' then value else dict_get (cr_kpis run) key 0 + value)
                in apply_kpi_events to_float events (AList.update key new changed)
                     (run\<lparr>cr_kpis := AList.update key new (cr_kpis run)\<rparr>)))
      | _ \<Rightarrow> (changed, run, Some (no_attribute_get raw)))"

definition kpi_json :: "(string \<times> int) list \<Rightarrow> json" where
  "kpi_json kpis = JObj (map (\<lambda>(k, v). (k, JInt v)) kpis)"

text \<open>What a \<open>for\<close> loop sees of a value.\<close>

fun json_iter :: "json \<Rightarrow> py_exc + json list" where
  "json_iter (JList xs) = Inr xs"
| "json_iter (JObj kvs) = Inr (map (\<lambda>(k, v). JStr k) kvs)"
| "json_iter (JStr s) = Inr (map (\<lambda>c. JStr [c]) s)"
| "json_iter v = Inl (not_iterable v)"

section \<open>Input mapping\<close>

fun resolve_spec :: "json \<Rightarrow> json \<Rightarrow> json" where
  "resolve_spec ctx (JStr s) = (if py_startswith s ''$'' then walk_path (split_on (CHR ''.'') (tl s)) ctx else JStr s)"
| "resolve_spec ctx (JObj kvs) = JObj (map (\<lambda>(k, v). (k, resolve_spec ctx v)) kvs)"
| "resolve_spec ctx v = v"

text \<open>\<open>d.setdefault(k, v)\<close>.\<close>

definition set_default :: "string \<Rightarrow> json \<Rightarrow> (string \<times> json) list \<Rightarrow> (string \<times> json) list" where
  "set_default k v d = (if dict_has d k then d else AList.update k v d)"

definition resolve_inputs :: "campaign_node \<Rightarrow> campaign_run \<Rightarrow> (string \<times> json) list" where
  "resolve_inputs node run =
     (let ctx = JObj [(''inputs'', dict_get (cr_context run) ''inputs'' (JObj [])),
                      (''kpi'', kpi_json (cr_kpis run)),
                      (''context'', JObj (cr_context run)),
                      (''channels'', dict_get (cr_context run) ''channels'' (JList [])),
                      (''audience'', dict_get (cr_context run) ''audience'' (JObj []))];
          payload = fold (\<lambda>(key, spec) p. AList.update key (resolve_spec ctx spec) p) (cn_input_mapping node) []
      in set_default ''node_id'' (JStr (cn_id node))
           (set_default ''client_id'' (JStr (cr_client run))
             (set_default ''campaign_id'' (JStr (cr_campaign run)) payload)))"

section \<open>Dispatchers\<close>

type_synonym dispatch_result = "py_exc + (string \<times> json) list"

definition gateway_dispatch ::
  "'s campaign_env \<Rightarrow> campaign_node \<Rightarrow> (string \<times> json) list \<Rightarrow> campaign_run \<Rightarrow> nat \<Rightarrow> dispatch_result" where
  "gateway_dispatch E node payload run n =
     (case ce_gateway_url E of
        None \<Rightarrow> Inl (''DispatchError'', ''gateway_url_unset: cannot dispatch campaign node'')
      | Some url \<Rightarrow>
          if url = [] then Inl (''DispatchError'', ''gateway_url_unset: cannot dispatch campaign node'')
          else if \<not> ce_hmac_ready E then Inl (''DispatchError'', ''hmac_key_unset: refusing to dispatch unsigned'')
          else
            (let envelope = JObj
               [(''task_id'', JStr (cr_campaign run @ '':'' @ cn_id node @ '':'' @ take 8 (ce_uuid E n))),
                (''payload'', JObj payload),
                (''metadata'', JObj [(''action'', JStr (cn_capability node)), (''campaign_id'', JStr (cr_campaign run)),
                   (''client_id'', JStr (cr_client run)), (''node_id'', JStr (cn_id node)), (''node_type'', JStr (cn_type node))])]
             in case ce_post E n url (''/dispatch/'' @ cn_target node) envelope of
                  Inl exc \<Rightarrow> Inl (''DispatchError'', ''gateway_transport_error: '' @ exc)
                | Inr (status, text, body) \<Rightarrow>
                    if status \<ge> 400 then Inl (''DispatchError'', ''gateway_status_'' @ show_int status @ '': '' @ take 200 text)
                    else (case body of
                            None \<Rightarrow> Inr [(''status'', JStr ''ok''), (''raw'', JBool True)]
                          | Some (JObj kvs) \<Rightarrow> Inr kvs
                          | Some v \<Rightarrow> Inr [(''status'', JStr ''ok''), (''result'', v)])))"

definition artifact_json :: "artifact \<Rightarrow> json" where
  "artifact_json a = JObj [(''artifact_id'', JStr (af_id a)), (''type'', JStr (af_type a)), (''ref'', JStr (af_ref a)),
     (''node_id'', JStr (af_node a)), (''content_hash'', JStr (af_hash a)), (''title'', JStr (af_title a)),
     (''metadata'', JObj (af_metadata a)), (''created_at'', JStr (af_created a))]"

definition local_dispatch ::
  "'s campaign_env \<Rightarrow> campaign_node \<Rightarrow> (string \<times> json) list \<Rightarrow> campaign_run \<Rightarrow> nat \<Rightarrow> dispatch_result \<times> campaign_run" where
  "local_dispatch E node payload run n =
     (let cap = cn_capability node in
      if cap = ''update_kpis'' then
        (Inr [(''status'', JStr ''ok''), (''summary'', JStr ''kpi_snapshot''), (''kpi_snapshot'', kpi_json (cr_kpis run))], run)
      else if cap = ''ingest_kpi'' then
        (case json_iter (json_or (json_get payload ''events'') (JList [])) of
           Inl e \<Rightarrow> (Inl e, run)
         | Inr events \<Rightarrow>
             (case apply_kpi_events (ce_to_float E) events [] run of
                (changed, run', Some e) \<Rightarrow> (Inl e, run')
              | (changed, run', None) \<Rightarrow>
                  (Inr [(''status'', JStr ''ok''), (''summary'', JStr ''kpi_ingest''), (''changed'', kpi_json changed)], run')))
      else if cap = ''generate_report'' then
        (case ce_report E n run of
           Inl e \<Rightarrow> (Inl e, run)
         | Inr a \<Rightarrow> (Inr [(''status'', JStr ''ok''), (''summary'', JStr ''weekly_report''), (''report_ref'', JStr (af_ref a)),
                         (''artifacts'', JList [artifact_json a])], run))
      else (Inl (''DispatchError'', ''unknown_local_capability: '' @ cap), run))"

definition composite_dispatch ::
  "'s campaign_env \<Rightarrow> campaign_node \<Rightarrow> (string \<times> json) list \<Rightarrow> campaign_run \<Rightarrow> 's campaign_world
     \<Rightarrow> dispatch_result \<times> campaign_run \<times> 's campaign_world" where
  "composite_dispatch E node payload run w =
     (let n = cw_tick w; w' = (tick w)\<lparr>cw_sent := cw_sent w @ [(cr_campaign run, node, payload)]\<rparr>
      in if cn_target node = LOCAL_WORKCELL
         then (let (r, run') = local_dispatch E node payload run n in (r, run', w'))
         else (gateway_dispatch E node payload run n, run, w'))"

section \<open>The approval gate\<close>

definition APPROVAL_KIND :: string where "APPROVAL_KIND = ''campaign_node''"

definition step_of :: "campaign_run \<Rightarrow> string \<Rightarrow> step_result" where
  "step_of run nid = (case map_of (cr_steps run) nid of Some s \<Rightarrow> s | None \<Rightarrow> new_step_result nid)"

definition put_step :: "string \<Rightarrow> step_result \<Rightarrow> campaign_run \<Rightarrow> campaign_run" where
  "put_step nid s run = run\<lparr>cr_steps := AList.update nid s (cr_steps run)\<rparr>"

definition check_approved :: "'s campaign_env \<Rightarrow> string \<Rightarrow> 's campaign_world \<Rightarrow> bool \<times> 's campaign_world" where
  "check_approved E aid w =
     (let (ok, s) = is_currently_approved (ce_load E) (ce_save E) (ce_clock E (cw_tick w)) aid (cw_store w)
      in (ok, (tick w)\<lparr>cw_store := s\<rparr>))"

text \<open>The id recorded for a node's gate: \<open>step.approval_id\<close>, where an empty one counts as none.\<close>

definition recorded_approval :: "campaign_run \<Rightarrow> string \<Rightarrow> string" where
  "recorded_approval run nid =
     (case map_of (cr_steps run) nid of None \<Rightarrow> [] | Some s \<Rightarrow> (case sr_approval s of None \<Rightarrow> [] | Some a \<Rightarrow> a))"

definition gate_payload :: "campaign_run \<Rightarrow> campaign_node \<Rightarrow> approval_level \<Rightarrow> (string \<times> json) list" where
  "gate_payload run node level =
     [(''campaign_id'', JStr (cr_campaign run)), (''client_id'', JStr (cr_client run)), (''node_id'', JStr (cn_id node)),
      (''node_type'', JStr (cn_type node)), (''target_workcell'', JStr (cn_target node)),
      (''capability'', JStr (cn_capability node)), (''approval_level'', JStr (level_value level))]"

definition ensure ::
  "'s campaign_env \<Rightarrow> campaign_run \<Rightarrow> campaign_node \<Rightarrow> approval_level \<Rightarrow> 's campaign_world
     \<Rightarrow> (string \<times> bool) \<times> 's campaign_world" where
  "ensure E run node level w =
     (let existing = recorded_approval run (cn_id node) in
      if existing \<noteq> [] then (let (ok, w') = check_approved E existing w in ((existing, ok), w'))
      else (let n = cw_tick w;
                (row, s) = create_approval (ce_save E) (ce_to_rat E) (ce_environ E) (ce_uuid E n) (ce_clock E n) (ce_stamp E n)
                             APPROVAL_KIND (gate_payload run node level) (risk_level_for (resolve_severity node)) None None None
                             (cw_store w)
            in ((ap_id row, False), (tick w)\<lparr>cw_store := s\<rparr>)))"

definition is_satisfied :: "'s campaign_env \<Rightarrow> string option \<Rightarrow> 's campaign_world \<Rightarrow> bool \<times> 's campaign_world" where
  "is_satisfied E aid w = (case aid of None \<Rightarrow> (False, w) | Some a \<Rightarrow> if a = [] then (False, w) else check_approved E a w)"

section \<open>Outcomes\<close>

definition mark :: "'a \<Rightarrow> 'a list \<Rightarrow> 'a list" where
  "mark x bucket = (if x \<in> set bucket then bucket else bucket @ [x])"

definition unmark :: "'a \<Rightarrow> 'a list \<Rightarrow> 'a list" where
  "unmark x bucket = remove1 x bucket"

lemma set_mark [simp]: "set (mark x b) = insert x (set b)"
  by (auto simp: mark_def)

definition emit_node_event ::
  "'s campaign_env \<Rightarrow> campaign_node \<Rightarrow> string \<Rightarrow> string \<Rightarrow> string \<Rightarrow> campaign_run \<times> 's campaign_world
     \<Rightarrow> campaign_run \<times> 's campaign_world" where
  "emit_node_event E node status approval_state err = (\<lambda>(run, w).
     (let i = ce_uuid E (cw_tick w)
      in (run\<lparr>cr_audit := cr_audit run @ [i]\<rparr>,
          (tick w)\<lparr>cw_audit := cw_audit w @ [NodeEvent i (cr_campaign run) (cn_id node) status approval_state (take 500 err)]\<rparr>)))"

definition reject_unsafe ::
  "'s campaign_env \<Rightarrow> campaign_node \<Rightarrow> campaign_run \<Rightarrow> 's campaign_world \<Rightarrow> campaign_run \<times> 's campaign_world" where
  "reject_unsafe E node run w =
     (let step = (step_of run (cn_id node))\<lparr>sr_status := NS_BLOCKED, sr_error := ''high_risk_node_requires_approval''\<rparr>;
          run = (put_step (cn_id node) step run)\<lparr>cr_blocked := mark (cn_id node) (cr_blocked run)\<rparr>
      in emit_node_event E node ''blocked'' ''missing_required'' (sr_error step) (run, w))"

definition pause_for_approval ::
  "'s campaign_env \<Rightarrow> campaign_node \<Rightarrow> approval_level \<Rightarrow> campaign_run \<Rightarrow> 's campaign_world
     \<Rightarrow> campaign_run \<times> 's campaign_world" where
  "pause_for_approval E node level run w =
     (let step = (step_of run (cn_id node))\<lparr>sr_status := NS_NEEDS_APPROVAL\<rparr>;
          run = (put_step (cn_id node) step run)\<lparr>cr_needs := mark (cn_id node) (cr_needs run)\<rparr>
      in emit_node_event E node ''needs_approval'' (''pending:'' @ level_value level) [] (run, w))"

text \<open>\<open>_coerce_artifact\<close>: defaults, then validation of the field types.\<close>

definition artifact_of_json :: "string \<Rightarrow> (string \<times> json) list \<Rightarrow> campaign_error + artifact" where
  "artifact_of_json stamp d =
     (case (str_of_json (json_get d ''artifact_id''), str_of_json (json_get d ''type''),
            str_of_json (dict_get d ''ref'' (JStr [])), str_of_json (dict_get d ''node_id'' (JStr [])),
            str_of_json (dict_get d ''content_hash'' (JStr [])), str_of_json (dict_get d ''title'' (JStr [])),
            (case dict_get d ''metadata'' (JObj []) of JObj kvs \<Rightarrow> Some kvs | _ \<Rightarrow> None),
            str_of_json (dict_get d ''created_at'' (JStr stamp))) of
        (Some i, Some t, Some r, Some nid, Some h, Some title, Some m, Some c) \<Rightarrow>
          if i = [] \<or> t = [] then Inl (ArtifactInvalid (JObj d))
          else Inr \<lparr>af_id = i, af_type = t, af_ref = r, af_node = nid, af_hash = h, af_title = title, af_metadata = m,
                    af_created = c\<rparr>
      | _ \<Rightarrow> Inl (ArtifactInvalid (JObj d)))"

definition coerce_artifact :: "string \<Rightarrow> string \<Rightarrow> json \<Rightarrow> string \<Rightarrow> campaign_error + artifact" where
  "coerce_artifact new_id stamp raw node_id =
     (let data = (case raw of JObj kvs \<Rightarrow> kvs | _ \<Rightarrow> [(''ref'', JStr (json_text raw))]);
          data = set_default ''node_id'' (JStr node_id)
                   (set_default ''type'' (JStr ''generic'') (set_default ''artifact_id'' (JStr new_id) data));
          data = (if dict_has data ''ref'' \<and> \<not> json_truthy (json_get data ''content_hash'')
                  then AList.update ''content_hash'' (JStr (hash_payload (json_get data ''ref''))) data else data)
      in artifact_of_json stamp data)"

fun add_artifacts ::
  "'s campaign_env \<Rightarrow> string \<Rightarrow> json list \<Rightarrow> string list \<Rightarrow> campaign_run \<Rightarrow> 's campaign_world
     \<Rightarrow> (campaign_error + string list) \<times> campaign_run \<times> 's campaign_world" where
  "add_artifacts E nid [] refs run w = (Inr refs, run, w)"
| "add_artifacts E nid (raw # raws) refs run w =
     (case coerce_artifact (ce_uuid E (cw_tick w)) (ce_stamp E (cw_tick w)) raw nid of
        Inl e \<Rightarrow> (Inl e, run, tick w)
      | Inr a \<Rightarrow> add_artifacts E nid raws (refs @ [af_id a]) (run\<lparr>cr_artifacts := cr_artifacts run @ [a]\<rparr>) (tick w))"

definition kpi_events :: "json \<Rightarrow> json list" where
  "kpi_events kpis =
     (case kpis of
        JObj kvs \<Rightarrow> map (\<lambda>(k, v). JObj [(''kpi'', JStr k), (''mode'', JStr ''set''), (''value'', v)])
                      (filter (\<lambda>(k, v). is_known_kpi k) kvs)
      | _ \<Rightarrow> [])"

definition apply_outputs ::
  "'s campaign_env \<Rightarrow> campaign_node \<Rightarrow> (string \<times> json) list \<Rightarrow> campaign_run \<Rightarrow> 's campaign_world
     \<Rightarrow> (campaign_error + (string list \<times> string list)) \<times> campaign_run \<times> 's campaign_world" where
  "apply_outputs E node result run w =
     (case json_iter (json_or (dict_get result ''artifacts'' (JList [])) (JList [])) of
        Inl e \<Rightarrow> (Inl (PyRaised e), run, w)
      | Inr raws \<Rightarrow>
          (case add_artifacts E (cn_id node) raws [] run w of
             (Inl e, run, w) \<Rightarrow> (Inl e, run, w)
           | (Inr arts, run, w) \<Rightarrow>
               (case apply_kpi_events (ce_to_float E) (kpi_events (json_or (json_get result ''kpis'') (JObj []))) [] run of
                  (changed, run, Some e) \<Rightarrow> (Inl (PyRaised e), run, w)
                | (changed, run, None) \<Rightarrow>
                    (Inr (arts, dict_keys changed),
                     run\<lparr>cr_context := fold (\<lambda>(k, path) c. AList.update k (walk_path (split_on (CHR ''.'') path) (JObj result)) c)
                                        (cn_output_mapping node) (cr_context run)\<rparr>,
                     w))))"

definition summarize :: "(string \<times> json) list \<Rightarrow> (string \<times> json) list" where
  "summarize result =
     (let keep = concat (map (\<lambda>k. case map_of result k of None \<Rightarrow> [] | Some v \<Rightarrow> [(k, v)])
                        [''status'', ''summary'', ''count'', ''url'', ''report_ref''])
      in AList.update ''keys'' (JList (map JStr (sort (dict_keys result)))) keep)"

definition finish_success ::
  "'s campaign_env \<Rightarrow> campaign_node \<Rightarrow> string \<Rightarrow> (string \<times> json) list \<Rightarrow> campaign_run \<Rightarrow> 's campaign_world
     \<Rightarrow> (campaign_error + campaign_run) \<times> 's campaign_world" where
  "finish_success E node approval_state result run w =
     (case apply_outputs E node result run w of
        (Inl e, run, w) \<Rightarrow> (Inl e, w)
      | (Inr (arts, kpis), run, w) \<Rightarrow>
          (let step = (step_of run (cn_id node))\<lparr>sr_status := NS_COMPLETED, sr_output_hash := hash_payload (JObj result),
                        sr_output_summary := summarize result, sr_error := [], sr_artifact_refs := arts, sr_kpi_refs := kpis\<rparr>;
               run = (put_step (cn_id node) step run)\<lparr>cr_completed := mark (cn_id node) (cr_completed run),
                        cr_failed := unmark (cn_id node) (cr_failed run)\<rparr>;
               (run, w) = emit_node_event E node ''completed'' approval_state [] (run, w)
           in (Inr run, w)))"

definition maybe_compensate ::
  "'s campaign_env \<Rightarrow> campaign_node \<Rightarrow> campaign_run \<times> 's campaign_world \<Rightarrow> campaign_run \<times> 's campaign_world" where
  "maybe_compensate E node = (\<lambda>(run, w).
     if cn_rollback node \<noteq> RB_COMPENSATE then (run, w)
     else (case cn_compensation node of
             None \<Rightarrow> (run, w)
           | Some cap \<Rightarrow>
               if cap = [] then (run, w)
               else snd (composite_dispatch E (node\<lparr>cn_capability := cap\<rparr>)
                      [(''campaign_id'', JStr (cr_campaign run)), (''client_id'', JStr (cr_client run)),
                       (''node_id'', JStr (cn_id node)), (''compensate'', JBool True)] run w)))"

definition finish_failure ::
  "'s campaign_env \<Rightarrow> campaign_node \<Rightarrow> string \<Rightarrow> string \<Rightarrow> campaign_run \<Rightarrow> 's campaign_world
     \<Rightarrow> (campaign_error + campaign_run) \<times> 's campaign_world" where
  "finish_failure E node approval_state err run w =
     (let step = (step_of run (cn_id node))\<lparr>sr_status := NS_FAILED, sr_error := py_or err ''dispatch_failed''\<rparr>;
          run = (put_step (cn_id node) step run)\<lparr>cr_failed := mark (cn_id node) (cr_failed run)\<rparr>;
          (run, w) = maybe_compensate E node (emit_node_event E node ''failed'' approval_state (sr_error step) (run, w))
      in (Inr run, w))"

section \<open>Dispatch with retries\<close>

definition should_retry :: "campaign_node \<Rightarrow> py_exc \<Rightarrow> bool" where
  "should_retry node exc =
     (rp_retry_on (cn_retry node) = []
      \<or> (\<exists>token \<in> set (rp_retry_on (cn_retry node)). py_in token (fst exc) \<or> py_in token (snd exc)))"

definition backoff_delay :: "campaign_node \<Rightarrow> nat \<Rightarrow> rat" where
  "backoff_delay node attempt =
     (let delay = rp_backoff_seconds (cn_retry node) * rp_backoff_multiplier (cn_retry node) ^ (attempt - 1)
      in if delay > 0 then min delay 30 else 0)"

text \<open>The attempt loop; its first argument counts the iterations that \<open>range\<close> has left.\<close>

fun dispatch_attempts ::
  "nat \<Rightarrow> nat \<Rightarrow> 's campaign_env \<Rightarrow> campaign_node \<Rightarrow> (string \<times> json) list \<Rightarrow> string \<Rightarrow> campaign_run \<Rightarrow> 's campaign_world
     \<Rightarrow> (string + (string \<times> json) list) \<times> campaign_run \<times> 's campaign_world" where
  "dispatch_attempts 0 attempt E node payload err run w = (Inl err, run, w)"
| "dispatch_attempts (Suc left) attempt E node payload err run w =
     (let run = put_step (cn_id node) ((step_of run (cn_id node))\<lparr>sr_attempts := attempt\<rparr>) run
      in case composite_dispatch E node payload run w of
           (Inr result, run, w) \<Rightarrow> (Inr result, run, w)
         | (Inl exc, run, w) \<Rightarrow>
             (let err = fst exc @ '': '' @ snd exc
              in if \<not> should_retry node exc \<or> int attempt \<ge> rp_max_attempts (cn_retry node) then (Inl err, run, w)
                 else dispatch_attempts left (Suc attempt) E node payload err run w))"

definition run_dispatch ::
  "'s campaign_env \<Rightarrow> campaign_node \<Rightarrow> approval_level \<Rightarrow> campaign_run \<Rightarrow> 's campaign_world
     \<Rightarrow> (campaign_error + campaign_run) \<times> 's campaign_world" where
  "run_dispatch E node level run w =
     (let nid = cn_id node;
          run = (put_step nid ((step_of run nid)\<lparr>sr_status := NS_RUNNING\<rparr>) run)
                  \<lparr>cr_needs := unmark nid (cr_needs run), cr_blocked := unmark nid (cr_blocked run), cr_current := Some nid\<rparr>;
          payload = resolve_inputs node run;
          approval_state = (if level \<noteq> AL_NONE then ''approved'' else ''not_required'')
      in case dispatch_attempts (nat (max 1 (rp_max_attempts (cn_retry node)))) 1 E node payload [] run w of
           (Inl err, run, w) \<Rightarrow> finish_failure E node approval_state err run w
         | (Inr result, run, w) \<Rightarrow> finish_success E node approval_state result run w)"

definition record_approval :: "string \<Rightarrow> string \<Rightarrow> campaign_run \<Rightarrow> campaign_run" where
  "record_approval nid aid run =
     (put_step nid ((step_of run nid)\<lparr>sr_approval := Some aid\<rparr>) run)
       \<lparr>cr_approvals := if aid \<noteq> [] \<and> aid \<notin> set (cr_approvals run) then cr_approvals run @ [aid] else cr_approvals run\<rparr>"

definition execute_node ::
  "'s campaign_env \<Rightarrow> campaign_node \<Rightarrow> campaign_run \<Rightarrow> 's campaign_world
     \<Rightarrow> (campaign_error + campaign_run) \<times> 's campaign_world" where
  "execute_node E node run w =
     (let run = put_step (cn_id node) (step_of run (cn_id node)) run in
      if is_high_risk (cn_type node) \<and> cn_approval node = AL_NONE
      then (let (run, w) = reject_unsafe E node run w in (Inr run, w))
      else
        (let level = resolve_level node (run_rules run) in
         if level \<noteq> AL_NONE
         then (let ((aid, approved), w) = ensure E run node level w;
                   run = record_approval (cn_id node) aid run
               in if \<not> approved then (let (run, w) = pause_for_approval E node level run w in (Inr run, w))
                  else run_dispatch E node level run w)
         else run_dispatch E node level run w))"

end
