(* ===== verification/Campaign_Run.thy ===== *)
theory Campaign_Run
  imports Campaign_Exec
begin

text \<open>
  The campaign lifecycle, \<open>campaigns/orchestrator.py\<close> over the run store of \<open>store.py\<close>: create, start, advance,
  approve, cancel, and the drive loop they share. A run in the store is its record; reads come from the JSON
  mirror only, which is taken to work (\<open>get\<close> never consults the table that \<open>save\<close> also writes).

  An operation that raises returns the error and the world as it was left; the run it was working on is lost,
  except for what it had saved.
\<close>

definition save_run :: "campaign_run \<Rightarrow> 's campaign_world \<Rightarrow> 's campaign_world" where
  "save_run run w = w\<lparr>cw_runs := AList.update (cr_campaign run) run (cw_runs w)\<rparr>"

definition get_run :: "string \<Rightarrow> 's campaign_world \<Rightarrow> campaign_run option" where
  "get_run campaign_id w = map_of (cw_runs w) campaign_id"

definition lifecycle_event ::
  "campaign_run \<Rightarrow> campaign_state \<Rightarrow> campaign_state \<Rightarrow> string \<Rightarrow> 's campaign_world \<Rightarrow> 's campaign_world" where
  "lifecycle_event run from_state to_state reason w =
     (tick w)\<lparr>cw_audit := cw_audit w @ [LifecycleEvent (cr_campaign run) from_state to_state (take 300 reason)]\<rparr>"

text \<open>The bookkeeping of \<open>_transition\<close>: the new state, and a lifecycle event.\<close>

definition transition ::
  "campaign_state \<Rightarrow> string \<Rightarrow> campaign_run \<times> 's campaign_world \<Rightarrow> campaign_run \<times> 's campaign_world" where
  "transition to_state reason = (\<lambda>(run, w).
     (run\<lparr>cr_state := to_state\<rparr>, lifecycle_event run (cr_state run) to_state reason w))"

definition settle_state :: "nat \<Rightarrow> campaign_run \<times> 's campaign_world \<Rightarrow> campaign_run \<times> 's campaign_world" where
  "settle_state n_nodes = (\<lambda>(run, w).
     if cr_state run = CS_CANCELLED then (run, w)
     else
       (let run = run\<lparr>cr_current := None\<rparr> in
        if card (set (cr_completed run)) \<ge> n_nodes then transition CS_COMPLETED ''all_nodes_completed'' (run, w)
        else if cr_failed run \<noteq> [] then transition CS_FAILED ''node_failure'' (run, w)
        else if cr_blocked run \<noteq> [] then transition CS_BLOCKED ''stalled'' (run, w)
        else if cr_needs run \<noteq> [] then transition CS_NEEDS_APPROVAL ''awaiting_approval'' (run, w)
        else transition CS_PAUSED ''no_ready_nodes'' (run, w)))"

definition read_approval :: "'s campaign_env \<Rightarrow> string \<Rightarrow> 's campaign_world \<Rightarrow> approval option \<times> 's campaign_world" where
  "read_approval E aid w =
     (let (row, s) = get_approval (ce_load E) (ce_save E) (ce_clock E (cw_tick w)) aid (cw_store w)
      in (row, (tick w)\<lparr>cw_store := s\<rparr>))"

text \<open>\<open>pending_by_severity\<close>: the counts feed a gauge, but reading the rows expires the overdue ones.\<close>

fun pending_by_severity ::
  "'s campaign_env \<Rightarrow> string list \<Rightarrow> (string \<times> nat) list \<Rightarrow> 's campaign_world \<Rightarrow> (string \<times> nat) list \<times> 's campaign_world" where
  "pending_by_severity E [] buckets w = (buckets, w)"
| "pending_by_severity E (aid # aids) buckets w =
     (case read_approval E aid w of
        (None, w) \<Rightarrow> pending_by_severity E aids buckets w
      | (Some row, w) \<Rightarrow>
          if ap_status row = STATUS_PENDING
          then (let sev = py_or (ap_severity row) SEVERITY_ROUTINE
                in pending_by_severity E aids (AList.update sev (dict_get buckets sev 0 + 1) buckets) w)
          else pending_by_severity E aids buckets w)"

definition refresh_gauge :: "'s campaign_env \<Rightarrow> campaign_run \<Rightarrow> 's campaign_world \<Rightarrow> 's campaign_world" where
  "refresh_gauge E run w = snd (pending_by_severity E (cr_approvals run) [] w)"

section \<open>The drive loop\<close>

fun execute_ready ::
  "'s campaign_env \<Rightarrow> (string \<times> campaign_node) list \<Rightarrow> string list \<Rightarrow> campaign_run \<Rightarrow> 's campaign_world
     \<Rightarrow> (campaign_error + campaign_run) \<times> 's campaign_world" where
  "execute_ready E nodes [] run w = (Inr run, w)"
| "execute_ready E nodes (nid # ids) run w =
     (case map_of nodes nid of
        None \<Rightarrow> (Inl (GraphKeyError nid), w)
      | Some node \<Rightarrow>
          (case execute_node E node run w of
             (Inl e, w) \<Rightarrow> (Inl e, w)
           | (Inr run, w) \<Rightarrow> execute_ready E nodes ids run (save_run run w)))"

definition ready_now :: "'s campaign_env \<Rightarrow> campaign_graph \<Rightarrow> campaign_run \<Rightarrow> string list" where
  "ready_now E g run =
     ready_nodes (ce_to_float E) g (cr_completed run)
       [(''kpi'', kpi_json (cr_kpis run)), (''context'', JObj (cr_context run))]
       (cr_completed run @ cr_failed run @ cr_blocked run @ cr_needs run)"

fun drive_passes ::
  "nat \<Rightarrow> 's campaign_env \<Rightarrow> campaign_graph \<Rightarrow> campaign_run \<Rightarrow> 's campaign_world
     \<Rightarrow> (campaign_error + campaign_run) \<times> 's campaign_world" where
  "drive_passes 0 E g run w = (Inr run, w)"
| "drive_passes (Suc n) E g run w =
     (let ready = ready_now E g run in
      if ready = [] then (Inr run, w)
      else
        (case execute_ready E (cg_nodes g) ready run w of
           (Inl e, w) \<Rightarrow> (Inl e, w)
         | (Inr run', w) \<Rightarrow>
             if length (cr_completed run') = length (cr_completed run) then (Inr run', w)
             else drive_passes n E g run' w))"

definition drive ::
  "'s campaign_env \<Rightarrow> campaign_template \<Rightarrow> campaign_run \<Rightarrow> 's campaign_world
     \<Rightarrow> (campaign_error + campaign_run) \<times> 's campaign_world" where
  "drive E t run w =
     (case new_graph t of
        Inl e \<Rightarrow> (Inl e, w)
      | Inr g \<Rightarrow>
          (let total = length (node_map t) in
           case drive_passes (total + 1) E g run w of
             (Inl e, w) \<Rightarrow> (Inl e, w)
           | (Inr run, w) \<Rightarrow>
               (let (run, w) = settle_state total (run, w) in (Inr run, refresh_gauge E run (save_run run w)))))"

section \<open>Operations\<close>

definition create_campaign ::
  "'s campaign_env \<Rightarrow> campaign_instance \<Rightarrow> campaign_template option \<Rightarrow> 's campaign_world
     \<Rightarrow> (campaign_error + campaign_run) \<times> 's campaign_world" where
  "create_campaign E inst template w =
     (case (case template of Some t \<Rightarrow> Inr t | None \<Rightarrow> ce_templates E (ci_template_id inst)) of
        Inl e \<Rightarrow> (Inl e, w)
      | Inr t \<Rightarrow>
          (let inputs = AList.update ''campaign_id'' (JStr (ci_campaign_id inst))
                          (AList.update ''client_id'' (JStr (ci_client_id inst)) (dict_merge (ct_defaults t) (ci_inputs inst)));
               missing = filter (\<lambda>r. json_get inputs r \<in> {JNull, JStr []}) (ct_required_inputs t)
           in if missing \<noteq> [] then (Inl (MissingInputs missing), w)
              else (case new_graph t of
                      Inl e \<Rightarrow> (Inl e, w)
                    | Inr g \<Rightarrow>
                        (let channels = (if ci_channels inst \<noteq> [] then ci_channels inst else ct_channels t);
                             audience = (case ci_audience inst of Some a \<Rightarrow> Some a | None \<Rightarrow> ct_audience t);
                             run = \<lparr>cr_campaign = ci_campaign_id inst, cr_client = ci_client_id inst, cr_template = ct_id t,
                                    cr_vertical = py_or (ci_vertical inst) (ct_vertical t), cr_state = CS_READY,
                                    cr_current = None, cr_completed = [], cr_blocked = [], cr_failed = [], cr_needs = [],
                                    cr_artifacts = [], cr_kpis = [], cr_approvals = [], cr_audit = [], cr_steps = [],
                                    cr_context =
                                      [(''inputs'', JObj inputs), (''channels'', JList channels),
                                       (''audience'', case audience of None \<Rightarrow> JObj [] | Some a \<Rightarrow> a),
                                       (''vertical_rules'', case ct_rules t of None \<Rightarrow> JNull | Some r \<Rightarrow> rules_to_json r),
                                       (''kpi_targets'', kpi_json (ci_kpi_targets inst))]\<rparr>
                         in (Inr run, lifecycle_event run CS_DRAFT CS_READY ''created'' (save_run run w))))))"

definition start_campaign ::
  "'s campaign_env \<Rightarrow> string \<Rightarrow> 's campaign_world \<Rightarrow> (campaign_error + campaign_run) \<times> 's campaign_world" where
  "start_campaign E cid w =
     (case get_run cid w of
        None \<Rightarrow> (Inl (UnknownCampaign cid), w)
      | Some run \<Rightarrow>
          if cr_state run \<in> set [CS_COMPLETED, CS_CANCELLED] then (Inr run, w)
          else (case ce_templates E (cr_template run) of
                  Inl e \<Rightarrow> (Inl e, w)
                | Inr t \<Rightarrow> (let (run, w) = transition CS_RUNNING ''started'' (run, w) in drive E t run w)))"

fun reconcile_approvals ::
  "'s campaign_env \<Rightarrow> string list \<Rightarrow> campaign_run \<Rightarrow> 's campaign_world \<Rightarrow> campaign_run \<times> 's campaign_world" where
  "reconcile_approvals E [] run w = (run, w)"
| "reconcile_approvals E (nid # ids) run w =
     (case map_of (cr_steps run) nid of
        None \<Rightarrow> reconcile_approvals E ids run w
      | Some step \<Rightarrow>
          (let (ok, w) = is_satisfied E (sr_approval step) w
           in reconcile_approvals E ids (if ok then run\<lparr>cr_needs := remove1 nid (cr_needs run)\<rparr> else run) w))"

definition advance_campaign ::
  "'s campaign_env \<Rightarrow> string \<Rightarrow> 's campaign_world \<Rightarrow> (campaign_error + campaign_run) \<times> 's campaign_world" where
  "advance_campaign E cid w =
     (case get_run cid w of
        None \<Rightarrow> (Inl (UnknownCampaign cid), w)
      | Some run \<Rightarrow>
          if cr_state run \<notin> set [CS_RUNNING, CS_READY, CS_PAUSED, CS_NEEDS_APPROVAL] then (Inr run, w)
          else (case ce_templates E (cr_template run) of
                  Inl e \<Rightarrow> (Inl e, w)
                | Inr t \<Rightarrow>
                    (let (run, w) = reconcile_approvals E (cr_needs run) run w;
                         (run, w) = (if cr_state run \<noteq> CS_RUNNING then transition CS_RUNNING ''advanced'' (run, w) else (run, w))
                     in drive E t run w)))"

fun first_pending_approval :: "'s campaign_env \<Rightarrow> string list \<Rightarrow> 's campaign_world \<Rightarrow> string option \<times> 's campaign_world" where
  "first_pending_approval E [] w = (None, w)"
| "first_pending_approval E (aid # aids) w =
     (case read_approval E aid w of
        (Some row, w) \<Rightarrow> if ap_status row = STATUS_PENDING \<and> ap_kind row = APPROVAL_KIND then (Some aid, w)
                        else first_pending_approval E aids w
      | (None, w) \<Rightarrow> first_pending_approval E aids w)"

definition approval_for_node ::
  "'s campaign_env \<Rightarrow> campaign_run \<Rightarrow> string option \<Rightarrow> 's campaign_world \<Rightarrow> string option \<times> 's campaign_world" where
  "approval_for_node E run node_id w =
     (case node_id of
        Some nid \<Rightarrow> if nid \<noteq> [] then (case map_of (cr_steps run) nid of None \<Rightarrow> None | Some s \<Rightarrow> sr_approval s, w)
                    else first_pending_approval E (cr_approvals run) w
      | None \<Rightarrow> first_pending_approval E (cr_approvals run) w)"

text \<open>\<open>a or b\<close> on optional strings.\<close>

definition opt_or :: "string option \<Rightarrow> string option \<Rightarrow> string option" where
  "opt_or a b = (case a of Some s \<Rightarrow> if s \<noteq> [] then a else b | None \<Rightarrow> b)"

definition block_node :: "string option \<Rightarrow> campaign_run \<Rightarrow> campaign_run" where
  "block_node target run =
     (case target of
        None \<Rightarrow> run
      | Some nid \<Rightarrow>
          (let run = (if nid \<noteq> [] then run\<lparr>cr_blocked := mark nid (cr_blocked run)\<rparr> else run);
               run = run\<lparr>cr_needs := remove1 nid (cr_needs run)\<rparr>
           in case map_of (cr_steps run) nid of
                None \<Rightarrow> run
              | Some s \<Rightarrow> if nid = [] then run
                          else put_step nid (s\<lparr>sr_status := NS_BLOCKED, sr_error := ''approval_rejected''\<rparr>) run))"

definition resume_approved ::
  "'s campaign_env \<Rightarrow> string option \<Rightarrow> campaign_run \<Rightarrow> 's campaign_world
     \<Rightarrow> (campaign_error + campaign_run) \<times> 's campaign_world" where
  "resume_approved E target run w =
     (let run = (case target of None \<Rightarrow> run | Some nid \<Rightarrow> run\<lparr>cr_needs := remove1 nid (cr_needs run)\<rparr>);
          (run, w) = transition CS_RUNNING (''approved:'' @ (case target of None \<Rightarrow> ''None'' | Some nid \<Rightarrow> nid)) (run, w);
          w = save_run run w
      in case ce_templates E (cr_template run) of Inl e \<Rightarrow> (Inl e, w) | Inr t \<Rightarrow> drive E t run w)"

definition stall_rejected ::
  "'s campaign_env \<Rightarrow> string option \<Rightarrow> campaign_run \<Rightarrow> 's campaign_world
     \<Rightarrow> (campaign_error + campaign_run) \<times> 's campaign_world" where
  "stall_rejected E target run w =
     (case ce_templates E (cr_template run) of
        Inl e \<Rightarrow> (Inl e, w)
      | Inr t \<Rightarrow> (let (run, w) = settle_state (length (ct_nodes t)) (block_node target run, w)
                 in (Inr run, refresh_gauge E run (save_run run w))))"

definition approve_node ::
  "'s campaign_env \<Rightarrow> string \<Rightarrow> string option \<Rightarrow> string option \<Rightarrow> string \<Rightarrow> string \<Rightarrow> 's campaign_world
     \<Rightarrow> (campaign_error + campaign_run) \<times> 's campaign_world" where
  "approve_node E cid node_id approval_id decision decided_by w =
     (case get_run cid w of
        None \<Rightarrow> (Inl (UnknownCampaign cid), w)
      | Some run \<Rightarrow>
          (let (aid, w) = (if opt_or approval_id None \<noteq> None then (approval_id, w) else approval_for_node E run node_id w) in
           case opt_or aid None of
             None \<Rightarrow> (Inl NoPendingApproval, w)
           | Some aid \<Rightarrow>
               (let n = cw_tick w;
                    (row, s) = decide_approval (ce_load E) (ce_save E) (ce_clock E n) (ce_stamp E n) aid decision decided_by (cw_store w);
                    w = (tick w)\<lparr>cw_store := s\<rparr>
                in case row of
                     None \<Rightarrow> (Inl ApprovalNotDecided, w)
                   | Some row \<Rightarrow>
                       (let target = opt_or node_id (str_of_json (json_get (ap_payload row) ''node_id''))
                        in if ap_status row = STATUS_APPROVED then resume_approved E target run w
                           else stall_rejected E target run w))))"

definition cancel_campaign ::
  "string \<Rightarrow> string \<Rightarrow> 's campaign_world \<Rightarrow> (campaign_error + campaign_run) \<times> 's campaign_world" where
  "cancel_campaign cid reason w =
     (case get_run cid w of
        None \<Rightarrow> (Inl (UnknownCampaign cid), w)
      | Some run \<Rightarrow> (let (run, w) = transition CS_CANCELLED reason (run, w) in (Inr run, save_run run w)))"

text \<open>The KPI route of \<open>app.py\<close> and of the queue worker.\<close>

definition ingest_kpi ::
  "'s campaign_env \<Rightarrow> string \<Rightarrow> json list \<Rightarrow> 's campaign_world \<Rightarrow> (campaign_error + (string \<times> int) list) \<times> 's campaign_world" where
  "ingest_kpi E cid events w =
     (case get_run cid w of
        None \<Rightarrow> (Inl (UnknownCampaign cid), w)
      | Some run \<Rightarrow>
          (case apply_kpi_events (ce_to_float E) events [] run of
             (changed, run, Some e) \<Rightarrow> (Inl (PyRaised e), w)
           | (changed, run, None) \<Rightarrow> (Inr changed, refresh_gauge E run (save_run run w))))"

text \<open>The operations as commands, for statements about sequences of them; \<open>C_Decide\<close> is an operator using the queue directly.\<close>

datatype campaign_op =
    C_Create campaign_instance "campaign_template option"
  | C_Start string
  | C_Advance string
  | C_Approve string "string option" "string option" string string
  | C_Cancel string string
  | C_Ingest string "json list"
  | C_Decide string string string

fun campaign_step :: "'s campaign_env \<Rightarrow> campaign_op \<Rightarrow> 's campaign_world \<Rightarrow> 's campaign_world" where
  "campaign_step E (C_Create inst t) w = snd (create_campaign E inst t w)"
| "campaign_step E (C_Start cid) w = snd (start_campaign E cid w)"
| "campaign_step E (C_Advance cid) w = snd (advance_campaign E cid w)"
| "campaign_step E (C_Approve cid nid aid decision who) w = snd (approve_node E cid nid aid decision who w)"
| "campaign_step E (C_Cancel cid reason) w = snd (cancel_campaign cid reason w)"
| "campaign_step E (C_Ingest cid events) w = snd (ingest_kpi E cid events w)"
| "campaign_step E (C_Decide aid decision who) w =
     (tick w)\<lparr>cw_store := snd (decide_approval (ce_load E) (ce_save E) (ce_clock E (cw_tick w)) (ce_stamp E (cw_tick w)) aid decision who (cw_store w))\<rparr>"

definition campaign_steps :: "'s campaign_env \<Rightarrow> campaign_op list \<Rightarrow> 's campaign_world \<Rightarrow> 's campaign_world" where
  "campaign_steps E ops w = fold (campaign_step E) ops w"

end
