(* ===== verification/Campaign_Example.thy ===== *)
theory Campaign_Example
  imports Campaign_Run
begin

text \<open>
  A small campaign on which the witnesses of the campaign theories evaluate: one public action that needs the
  client's approval, run in-process, with the approval queue on its file. It is created, started (which pauses
  it at the gate) and approved.
\<close>

definition demo_retry :: retry_policy where
  "demo_retry = \<lparr>rp_max_attempts = 1, rp_backoff_seconds = 0, rp_backoff_multiplier = 2, rp_retry_on = []\<rparr>"

definition demo_node :: "string \<Rightarrow> string \<Rightarrow> approval_level \<Rightarrow> campaign_node" where
  "demo_node nid t level = \<lparr>cn_id = nid, cn_type = t, cn_target = ''campaigns'', cn_capability = ''update_kpis'', cn_approval = level,
     cn_severity = None, cn_input_mapping = [], cn_output_mapping = [], cn_kpis = [], cn_retry = demo_retry,
     cn_rollback = RB_HALT, cn_compensation = None\<rparr>"

definition demo_template :: campaign_template where
  "demo_template = \<lparr>ct_id = ''t'', ct_vertical = ''v'', ct_required_inputs = [], ct_kpis = [],
     ct_nodes = [demo_node ''b'' ''public_action'' AL_CLIENT],
     ct_edges = [],
     ct_audience = None, ct_channels = [], ct_rules = None, ct_defaults = []\<rparr>"

definition demo_env :: "approval_store campaign_env" where
  "demo_env = \<lparr>ce_load = load_all file_only, ce_save = save_row file_only, ce_environ = (\<lambda>v. None), ce_to_rat = (\<lambda>s. None),
     ce_to_float = (\<lambda>s. None), ce_clock = of_nat, ce_stamp = (\<lambda>n. ''now''), ce_uuid = (\<lambda>n. replicate (Suc n) (CHR ''u'')),
     ce_gateway_url = None, ce_hmac_ready = False, ce_post = (\<lambda>n u p b. Inl ''down''), ce_report = (\<lambda>n r. Inl (''E'', ''x'')),
     ce_templates = (\<lambda>i. Inr demo_template)\<rparr>"

definition demo_world :: "approval_store campaign_world" where
  "demo_world = \<lparr>cw_store = \<lparr>as_json = [], as_ddb = []\<rparr>, cw_runs = [], cw_audit = [], cw_sent = [], cw_tick = 0\<rparr>"

definition demo_instance :: campaign_instance where
  "demo_instance = \<lparr>ci_campaign_id = ''c'', ci_client_id = ''x'', ci_template_id = ''t'', ci_vertical = [], ci_inputs = [],
     ci_channels = [], ci_audience = None, ci_kpi_targets = []\<rparr>"

lemmas demo_defs = demo_retry_def demo_node_def demo_template_def demo_env_def demo_world_def demo_instance_def

lemma new_graph_demo: "new_graph demo_template = Inr \<lparr>cg_nodes = [(''b'', demo_node ''b'' ''public_action'' AL_CLIENT)],
   cg_edges = [], cg_incoming = [(''b'', [])], cg_outgoing = [(''b'', [])]\<rparr>"
  by (simp add: new_graph_def node_map_def demo_template_def demo_node_def graph_order_def relax_edge_def dict_get_def Let_def)

definition demo_run :: campaign_run where
  "demo_run = \<lparr>cr_campaign = ''c'', cr_client = ''x'', cr_template = ''t'', cr_vertical = ''v'', cr_state = CS_READY, cr_current = None,
     cr_completed = [], cr_blocked = [], cr_failed = [], cr_needs = [], cr_artifacts = [], cr_kpis = [],
     cr_approvals = [], cr_audit = [], cr_steps = [],
     cr_context = [(''inputs'', JObj [(''client_id'', JStr ''x''), (''campaign_id'', JStr ''c'')]), (''channels'', JList []),
       (''audience'', JObj []), (''vertical_rules'', JNull), (''kpi_targets'', JObj [])]\<rparr>"

definition demo_w1 where "demo_w1 = demo_world\<lparr>cw_runs := [(''c'', demo_run)], cw_audit := [LifecycleEvent ''c'' CS_DRAFT CS_READY ''created''], cw_tick := 1\<rparr>"

lemma demo_created: "create_campaign demo_env demo_instance (Some demo_template) demo_world = (Inr demo_run, demo_w1)"
  by (simp add: create_campaign_def new_graph_demo demo_w1_def demo_run_def save_run_def lifecycle_event_def tick_def json_get_def
      dict_merge_def kpi_json_def Let_def)
    (simp add: demo_defs)

lemma demo_env_simps [simp]: "ce_load demo_env = load_all file_only" "ce_save demo_env = save_row file_only" 
   "ce_environ demo_env v = None" "ce_to_rat demo_env s = None" "ce_to_float demo_env = (\<lambda>s. None)" "ce_clock demo_env n = of_nat n"
   "ce_stamp demo_env n = ''now''" "ce_uuid demo_env n = replicate (Suc n) (CHR ''u'')" "ce_templates demo_env i = Inr demo_template"
  by (simp_all add: demo_env_def)

lemma load_save_demo [simp]: "load_all file_only (save_row file_only r \<lparr>as_json = j, as_ddb = d\<rparr>) = AList.update (ap_id r) r j"
 "save_row file_only r \<lparr>as_json = j, as_ddb = d\<rparr> = \<lparr>as_json = AList.update (ap_id r) r j, as_ddb = d\<rparr>"
 "load_all file_only \<lparr>as_json = j, as_ddb = d\<rparr> = j"
  by (simp_all add: load_all_def save_row_def ddb_put_def json_save_def file_only_def)

definition demo_b :: campaign_node where "demo_b = demo_node ''b'' ''public_action'' AL_CLIENT"

lemma demo_b_simps [simp]: "cn_id demo_b = ''b''" "cn_approval demo_b = AL_CLIENT" "cn_target demo_b = ''campaigns''"
  "cn_capability demo_b = ''update_kpis''" "cn_retry demo_b = demo_retry" "rp_max_attempts demo_retry = 1" "cn_output_mapping demo_b = []"
  "cn_type demo_b = ''public_action''" "cn_input_mapping demo_b = []"
  by (simp_all add: demo_b_def demo_node_def demo_retry_def)

lemma demo_b_spec: "spec_for ''public_action'' = type_spec True SEV_CRITICAL AL_CLIENT"
  by (simp add: spec_for_def NODE_TYPE_SPECS_def)

lemma demo_b_severity [simp]: "cn_severity demo_b = None" by (simp add: demo_b_def demo_node_def)
lemma demo_b_risk: "is_high_risk ''public_action''" "resolve_severity demo_b = SEV_CRITICAL"
  by (simp_all add: is_high_risk_def demo_b_spec type_spec_def resolve_severity_def)

lemma demo_b_level: "resolve_level demo_b None = AL_CLIENT"
  by (simp add: resolve_level_def demo_b_spec type_spec_def max_level_def)

lemma demo_rules: "run_rules demo_run = None" "cr_context r = cr_context demo_run \<Longrightarrow> run_rules r = None"
  by (simp_all add: run_rules_def demo_run_def json_get_def rules_of_json_def)

definition demo_row :: approval where
  "demo_row = create_row (\<lambda>s. None) (\<lambda>v. None) ''uuu'' 2 ''now'' APPROVAL_KIND (gate_payload demo_run demo_b AL_CLIENT) ''critical'' None None None"

definition demo_paused :: campaign_run where
  "demo_paused = demo_run\<lparr>cr_state := CS_NEEDS_APPROVAL, cr_needs := [''b''], cr_approvals := [''uuu''], cr_audit := [''uuuu''],
     cr_steps := [(''b'', (new_step_result ''b'')\<lparr>sr_status := NS_NEEDS_APPROVAL, sr_approval := Some ''uuu''\<rparr>)]\<rparr>"

lemma demo_run_simps [simp]: "cr_steps demo_run = []" "cr_campaign demo_run = ''c''" "cr_needs demo_run = []" "cr_completed demo_run = []"
 "cr_failed demo_run = []" "cr_blocked demo_run = []" "cr_approvals demo_run = []" "cr_template demo_run = ''t''" "cr_audit demo_run = []"
 "cr_client demo_run = ''x''" "cr_state demo_run = CS_READY"
  by (simp_all add: demo_run_def)

lemma demo_level [simp]: "max AL_CLIENT AL_NONE = AL_CLIENT" by (simp add: max_def less_eq_approval_level_def)

lemma demo_row_id [simp]: "ap_id demo_row = ''uuu''" by (simp add: demo_row_def create_row_def Let_def)

lemma demo_paused_simps [simp]: "cr_campaign demo_paused = ''c''" "cr_needs demo_paused = [''b'']" "cr_completed demo_paused = []"
 "cr_failed demo_paused = []" "cr_blocked demo_paused = []" "cr_approvals demo_paused = [''uuu'']" "cr_template demo_paused = ''t''"
 "cr_state demo_paused = CS_NEEDS_APPROVAL" "cr_current demo_paused = None" "cr_context demo_paused = cr_context demo_run"
 "demo_paused\<lparr>cr_current := None\<rparr> = demo_paused" "demo_paused\<lparr>cr_state := CS_NEEDS_APPROVAL\<rparr> = demo_paused"
 "demo_paused\<lparr>cr_current := None, cr_state := CS_NEEDS_APPROVAL\<rparr> = demo_paused"
 "demo_paused\<lparr>cr_state := st, cr_current := None\<rparr> = demo_paused\<lparr>cr_state := st\<rparr>"
  by (simp_all add: demo_paused_def demo_run_def)

lemma demo_row_fields: "ap_status demo_row = STATUS_PENDING" "ap_ttl_expires_at demo_row = IsoAt 14402" "ap_kind demo_row = APPROVAL_KIND"
   "ap_severity demo_row = SEVERITY_EMERGENCY" "json_get (ap_payload demo_row) ''node_id'' = JStr ''b''"
proof -
  have "py_or ''critical'' ''normal'' = ''critical''" "py_lower (py_strip ''critical'') = ''critical''" by code_simp+
  then have sev: "severity_for (py_lower (py_strip (py_or ''critical'' ''normal''))) = SEVERITY_EMERGENCY" by (simp add: severity_for_def)
  show "ap_severity demo_row = SEVERITY_EMERGENCY" using sev by (simp add: demo_row_def create_row_def Let_def)
  have "default_ttl_sec (\<lambda>s. None) (\<lambda>v. None) SEVERITY_EMERGENCY = 14400" by (simp add: default_ttl_sec_def getenv_def)
  then show "ap_ttl_expires_at demo_row = IsoAt 14402" unfolding demo_row_def create_row_def Let_def sev by (simp add: iso_at_def)
qed (simp_all add: demo_row_def create_row_def Let_def gate_payload_def json_get_def)

lemma demo_due: "due now demo_row \<longleftrightarrow> 14402 \<le> now"
  by (simp add: due_def demo_row_fields)

lemma demo_pause:
  assumes "cw_store w = \<lparr>as_json = [], as_ddb = []\<rparr>" "cw_tick w = 2"
  shows "execute_node demo_env demo_b (demo_run\<lparr>cr_state := st\<rparr>) w
    = (Inr (demo_paused\<lparr>cr_state := st\<rparr>), w\<lparr>cw_store := \<lparr>as_json = [(''uuu'', demo_row)], as_ddb = []\<rparr>, cw_tick := 4,
          cw_audit := cw_audit w @ [NodeEvent ''uuuu'' ''c'' ''b'' ''needs_approval'' ''pending:client'' []]\<rparr>)"
proof -
  have r: "create_row (ce_to_rat demo_env) (ce_environ demo_env) ''uuu'' 2 ''now'' APPROVAL_KIND
     (gate_payload (demo_run\<lparr>cr_state := st, cr_steps := cs\<rparr>) demo_b AL_CLIENT) ''critical'' None None None = demo_row" for cs
    by (simp add: demo_row_def gate_payload_def demo_env_def)
  show ?thesis using assms
  by (simp add: Let_def execute_node_def demo_b_risk demo_b_level demo_rules step_of_def put_step_def ensure_def recorded_approval_def new_step_result_def 
    record_approval_def pause_for_approval_def emit_node_event_def mark_def tick_def create_approval_def r demo_paused_def numeral_eq_Suc)
qed

definition demo_graph :: campaign_graph where "demo_graph =  \<lparr>cg_nodes = [(''b'', demo_b)],
   cg_edges = [], cg_incoming = [(''b'', [])], cg_outgoing = [(''b'', [])]\<rparr>"

lemma demo_new_graph: "new_graph demo_template = Inr demo_graph" "node_map demo_template = [(''b'', demo_b)]"
  by (simp_all add: new_graph_demo demo_graph_def demo_b_def)
   (simp_all add: node_map_def demo_template_def demo_node_def)

lemma demo_nodes [simp]: "cg_nodes demo_graph = [(''b'', demo_b)]"
  by (simp add: demo_graph_def)

lemma demo_ready: "ready_now demo_env demo_graph r
    = (if ''b'' \<in> set (cr_completed r) \<union> set (cr_failed r) \<union> set (cr_blocked r) \<union> set (cr_needs r) then [] else [''b''])"
  by (simp add: ready_now_def ready_nodes_def demo_graph_def predecessors_def dict_get_def)

definition demo_w2 :: "approval_store campaign_world" where
  "demo_w2 = \<lparr>cw_store = \<lparr>as_json = [(''uuu'', demo_row)], as_ddb = []\<rparr>, cw_runs = [(''c'', demo_paused)],
     cw_audit = [LifecycleEvent ''c'' CS_DRAFT CS_READY ''created'', LifecycleEvent ''c'' CS_READY CS_RUNNING ''started'',
        NodeEvent ''uuuu'' ''c'' ''b'' ''needs_approval'' ''pending:client'' [],
        LifecycleEvent ''c'' CS_RUNNING CS_NEEDS_APPROVAL ''awaiting_approval''],
     cw_sent = [], cw_tick = 6\<rparr>"

lemma demo_started: "start_campaign demo_env ''c'' demo_w1 = (Inr demo_paused, demo_w2)"
proof -
  have "drive_passes 2 demo_env demo_graph (demo_run\<lparr>cr_state := CS_RUNNING\<rparr>) w
      = execute_ready demo_env [(''b'', demo_b)] [''b''] (demo_run\<lparr>cr_state := CS_RUNNING\<rparr>) w"
    if "cw_store w = \<lparr>as_json = [], as_ddb = []\<rparr>" "cw_tick w = 2" for w
    using that by (simp add: numeral_2_eq_2 demo_ready demo_pause)
  then show ?thesis
    by (simp add: start_campaign_def demo_w1_def get_run_def drive_def demo_new_graph transition_def lifecycle_event_def tick_def
        Let_def demo_world_def demo_pause settle_state_def refresh_gauge_def save_run_def read_approval_def get_approval_def
        expire_if_due_def demo_due demo_row_fields demo_w2_def numeral_eq_Suc)
qed

definition demo_yes :: approval where
  "demo_yes = demo_row\<lparr>ap_status := STATUS_APPROVED, ap_decided_by := Some ''op'', ap_decided_at := Some ''now''\<rparr>"

lemma demo_yes_fields [simp]: "ap_id demo_yes = ''uuu''" "ap_status demo_yes = STATUS_APPROVED" "\<not> due now demo_yes"
  by (simp_all add: demo_yes_def due_def)

lemma demo_decision: "decision_status ''approved'' = Some STATUS_APPROVED" by code_simp

lemma demo_run_on:
  assumes "cw_store w = \<lparr>as_json = [(''uuu'', demo_yes)], as_ddb = []\<rparr>" "cr_steps run = cr_steps demo_paused"
    "cr_context run = cr_context demo_run" "cr_approvals run = [''uuu'']"
  shows "\<exists>run' w' p. execute_node demo_env demo_b run w = (Inr run', w')
     \<and> cr_completed run' = mark ''b'' (cr_completed run) \<and> cr_failed run' = unmark ''b'' (cr_failed run)
     \<and> cr_needs run' = unmark ''b'' (cr_needs run) \<and> cr_blocked run' = unmark ''b'' (cr_blocked run)
     \<and> cr_state run' = cr_state run \<and> cr_approvals run' = [''uuu''] \<and> cr_campaign run' = cr_campaign run
     \<and> cw_store w' = cw_store w \<and> cw_runs w' = cw_runs w \<and> cw_sent w' = cw_sent w @ [(cr_campaign run, demo_b, p)]"
  using assms
  apply (simp add: Let_def execute_node_def demo_b_risk demo_b_level demo_rules step_of_def put_step_def ensure_def
      recorded_approval_def new_step_result_def record_approval_def tick_def demo_paused_def numeral_eq_Suc
      check_approved_def is_currently_approved_def get_approval_def expire_if_due_def)
  apply (simp add: run_dispatch_def composite_dispatch_def local_dispatch_def LOCAL_WORKCELL_def Let_def tick_def
      finish_success_def apply_outputs_def json_or_def dict_get_def json_get_def kpi_events_def emit_node_event_def put_step_def step_of_def)
  done

lemma demo_steps: "cr_steps demo_paused = [(''b'', (new_step_result ''b'')\<lparr>sr_status := NS_NEEDS_APPROVAL, sr_approval := Some ''uuu''\<rparr>)]"
  by (simp add: demo_paused_def)

text \<open>Approving the gate, from whatever state the run is in.\<close>

lemma demo_approved:
  assumes w: "get_run ''c'' w = Some (demo_paused\<lparr>cr_state := st\<rparr>)" "cw_store w = \<lparr>as_json = [(''uuu'', demo_row)], as_ddb = []\<rparr>"
    "cw_tick w < 1000"
  shows "\<exists>run w' p. approve_node demo_env ''c'' (Some ''b'') None ''approved'' ''op'' w = (Inr run, w')
     \<and> cr_state run = CS_COMPLETED \<and> cw_sent w' = cw_sent w @ [(''c'', demo_b, p)]"
proof -
  define r where "r = demo_paused\<lparr>cr_needs := [], cr_state := CS_RUNNING\<rparr>"
  define v where "v = save_run r (w\<lparr>cw_store := \<lparr>as_json = [(''uuu'', demo_yes)], as_ddb = []\<rparr>, cw_tick := Suc (Suc (cw_tick w)),
     cw_audit := cw_audit w @ [LifecycleEvent ''c'' st CS_RUNNING ''approved:b'']\<rparr>)"
  have early: "\<not> 14402 \<le> (of_nat (cw_tick w) :: rat)" using w(3) by simp
  have a: "approve_node demo_env ''c'' (Some ''b'') None ''approved'' ''op'' w = drive demo_env demo_template r v"
    using w early
    by (simp add: approve_node_def opt_or_def approval_for_node_def demo_steps decide_approval_def get_approval_def
        expire_if_due_def demo_due demo_row_fields demo_decision Let_def tick_def resume_approved_def transition_def lifecycle_event_def
        save_run_def r_def v_def demo_yes_def [symmetric])
  have fields: "cw_store v = \<lparr>as_json = [(''uuu'', demo_yes)], as_ddb = []\<rparr>" "cr_steps r = cr_steps demo_paused"
    "cr_context r = cr_context demo_run" "cr_approvals r = [''uuu'']" "cr_needs r = []" "cr_completed r = []" "cr_failed r = []"
    "cr_blocked r = []" "cr_state r = CS_RUNNING" "cr_campaign r = ''c''" "cw_sent v = cw_sent w"
    by (simp_all add: v_def r_def save_run_def)
  obtain run1 w1 p where x: "execute_node demo_env demo_b r v = (Inr run1, w1)" "cr_completed run1 = [''b'']" "cr_state run1 = CS_RUNNING"
    "cr_approvals run1 = [''uuu'']" "cw_store w1 = cw_store v" "cw_sent w1 = cw_sent w @ [(''c'', demo_b, p)]"
    using demo_run_on [OF fields(1-4)] fields by (auto simp: mark_def)
  have d: "drive_passes 2 demo_env demo_graph r v = (Inr run1, save_run run1 w1)"
    using x fields by (simp add: numeral_2_eq_2 demo_ready)
  have "drive demo_env demo_template r v
      = (let (run, w) = settle_state 1 (run1, save_run run1 w1) in (Inr run, refresh_gauge demo_env run (save_run run w)))"
    using d by (simp add: drive_def demo_new_graph numeral_2_eq_2)
  with a x fields show ?thesis
    by (auto simp: settle_state_def transition_def lifecycle_event_def tick_def save_run_def refresh_gauge_def read_approval_def
        get_approval_def expire_if_due_def Let_def)
qed

lemma demo_completed:
  "\<exists>run w p. approve_node demo_env ''c'' (Some ''b'') None ''approved'' ''op'' demo_w2 = (Inr run, w)
     \<and> cr_state run = CS_COMPLETED \<and> cw_sent w = [(''c'', demo_b, p)]"
  using demo_approved [of demo_w2 CS_NEEDS_APPROVAL] by (simp add: demo_w2_def get_run_def)

end
