(* ===== verification/Campaign_Gates.thy ===== *)
theory Campaign_Gates
  imports Campaign_Example
begin

text \<open>
  The safety of the approval gates over whole histories of campaign operations. The lemmas live in the context
  of the storage interface \<open>row_store\<close> of theory \<open>Approvals\<close>: an invariant of the world says that every approval
  id recorded in a run names a queue row made for that campaign and node, and that every call of a high-risk
  node ever sent is backed by an approved row for it. The properties at the end use the interface's two
  interpretations.
\<close>

definition gate_row :: "string \<Rightarrow> string \<Rightarrow> approval \<Rightarrow> bool" where
  "gate_row c nid row \<longleftrightarrow> ap_kind row = APPROVAL_KIND
     \<and> json_get (ap_payload row) ''campaign_id'' = JStr c \<and> json_get (ap_payload row) ''node_id'' = JStr nid"

lemma gate_payload_row: "gate_row (cr_campaign run) (cn_id node)
     (create_row to_rat env i now stamp APPROVAL_KIND (gate_payload run node level) risk ev conf ttl)"
  by (simp add: gate_row_def create_row_def gate_payload_def json_get_def Let_def)

section \<open>What the steps leave alone\<close>

lemma recorded_put_step:
  "recorded_approval (put_step nid s run) k = (if k = nid then (case sr_approval s of None \<Rightarrow> [] | Some a \<Rightarrow> a) else recorded_approval run k)"
  by (simp add: recorded_approval_def put_step_def map_of_update)

lemma recorded_step_of: "(case sr_approval (step_of run nid) of None \<Rightarrow> [] | Some a \<Rightarrow> a) = recorded_approval run nid"
  by (simp add: recorded_approval_def step_of_def new_step_result_def split: option.splits)

lemma put_step_simps [simp]: "cr_campaign (put_step nid s run) = cr_campaign run" "cr_client (put_step nid s run) = cr_client run" "cr_needs (put_step nid s run) = cr_needs run"
  "cr_completed (put_step nid s run) = cr_completed run" "cr_failed (put_step nid s run) = cr_failed run"
  "cr_blocked (put_step nid s run) = cr_blocked run" "cr_template (put_step nid s run) = cr_template run"
  "cr_kpis (put_step nid s run) = cr_kpis run" "cr_context (put_step nid s run) = cr_context run"
  "cr_approvals (put_step nid s run) = cr_approvals run" "cr_state (put_step nid s run) = cr_state run"
  by (simp_all add: put_step_def)

text \<open>Two runs with the same gates: the same campaign, and the same approval recorded for every node.\<close>

definition same_gates :: "campaign_run \<Rightarrow> campaign_run \<Rightarrow> bool" where
  "same_gates run run' \<longleftrightarrow> cr_campaign run' = cr_campaign run \<and> (\<forall>k. recorded_approval run' k = recorded_approval run k)"

lemma same_gates_refl [simp]: "same_gates run run"
  by (simp add: same_gates_def)

lemma same_gates_trans: "same_gates a b \<Longrightarrow> same_gates b c \<Longrightarrow> same_gates a c"
  by (simp add: same_gates_def)

lemma same_gates_steps: "cr_steps run' = cr_steps run \<Longrightarrow> cr_campaign run' = cr_campaign run \<Longrightarrow> same_gates run run'"
  by (simp add: same_gates_def recorded_approval_def)

lemma same_gates_put:
  "sr_approval s = sr_approval (step_of run nid) \<Longrightarrow> same_gates run (put_step nid s run)"
  by (simp add: same_gates_def recorded_put_step recorded_step_of)

lemma kpi_events_gates: "apply_kpi_events f evs changed run = (c, run', e) \<Longrightarrow> same_gates run run'"
proof (induction f evs changed run rule: apply_kpi_events.induct)
  case (2 f raw evs changed run)
  show ?case
  proof (cases "\<exists>event key mode val. raw = JObj event \<and> normalize_event f event = Inr (key, mode, val)")
    case True
    then obtain event key mode val where r: "raw = JObj event" "normalize_event f event = Inr (key, mode, val)" by blast
    define nv where "nv = (if mode = ''set'' then val else dict_get (cr_kpis run) key 0 + val)"
    have "apply_kpi_events f evs (AList.update key nv changed) (run\<lparr>cr_kpis := AList.update key nv (cr_kpis run)\<rparr>) = (c, run', e)"
      using "2.prems" r by (simp add: nv_def Let_def)
    with "2.IH" [OF r refl refl nv_def]
    have "same_gates (run\<lparr>cr_kpis := AList.update key nv (cr_kpis run)\<rparr>) run'" by simp
    moreover have "same_gates run (run\<lparr>cr_kpis := AList.update key nv (cr_kpis run)\<rparr>)" by (rule same_gates_steps) simp_all
    ultimately show ?thesis using same_gates_trans by blast
  next
    case False
    with "2.prems" show ?thesis by (auto split: json.splits sum.splits)
  qed
qed simp

lemma local_gates: "local_dispatch E node payload run n = (r, run') \<Longrightarrow> same_gates run run'"
  by (auto simp: local_dispatch_def Let_def split: if_splits sum.splits prod.splits option.splits dest: kpi_events_gates)

text \<open>What a dispatch does to the world.\<close>

lemma composite_post:
  assumes "composite_dispatch E node payload run w = (r, run', w')"
  shows "same_gates run run'" "cw_store w' = cw_store w" "cw_runs w' = cw_runs w"
    "cw_sent w' = cw_sent w @ [(cr_campaign run, node, payload)]" "cw_tick w' = Suc (cw_tick w)"
  using assms by (auto simp: composite_dispatch_def tick_def Let_def split: if_splits prod.splits dest: local_gates)

lemma artifacts_post:
  "add_artifacts E nid raws refs run w = (r, run', w') \<Longrightarrow>
     cr_steps run' = cr_steps run \<and> cr_campaign run' = cr_campaign run
     \<and> cw_store w' = cw_store w \<and> cw_runs w' = cw_runs w \<and> cw_sent w' = cw_sent w \<and> cw_tick w \<le> cw_tick w'"
proof (induction raws arbitrary: refs run w)
  case (Cons raw raws)
  show ?case
  proof (cases "coerce_artifact (ce_uuid E (cw_tick w)) (ce_stamp E (cw_tick w)) raw nid")
    case (Inl e)
    with Cons.prems show ?thesis by (auto simp: tick_def)
  next
    case (Inr a)
    with Cons.prems have "add_artifacts E nid raws (refs @ [af_id a]) (run\<lparr>cr_artifacts := cr_artifacts run @ [a]\<rparr>) (tick w) = (r, run', w')"
      by simp
    from Cons.IH [OF this] show ?thesis by (simp add: tick_def)
  qed
qed simp

lemma outputs_post:
  assumes "apply_outputs E node result run w = (r, run', w')"
  shows "same_gates run run' \<and> cw_store w' = cw_store w \<and> cw_runs w' = cw_runs w \<and> cw_sent w' = cw_sent w \<and> cw_tick w \<le> cw_tick w'"
proof (cases "json_iter (json_or (dict_get result ''artifacts'' (JList [])) (JList []))")
  case (Inl e)
  with assms show ?thesis by (auto simp: apply_outputs_def)
next
  case (Inr raws)
  obtain ar run1 w1 where a: "add_artifacts E (cn_id node) raws [] run w = (ar, run1, w1)" by (metis prod.exhaust)
  note ap = artifacts_post [OF a]
  then have g1: "same_gates run run1" by (intro same_gates_steps) simp_all
  show ?thesis
  proof (cases ar)
    case (Inl e)
    with assms Inr a ap g1 show ?thesis by (auto simp: apply_outputs_def)
  next
    case arts: (Inr arts)
    obtain changed run2 ke where k: "apply_kpi_events (ce_to_float E) (kpi_events (json_or (json_get result ''kpis'') (JObj []))) [] run1
        = (changed, run2, ke)" by (metis prod.exhaust)
    have g2: "same_gates run run2" using g1 kpi_events_gates [OF k] same_gates_trans by blast
    have g3: "same_gates run (run2\<lparr>cr_context := ctx\<rparr>)" for ctx
      using g2 same_gates_steps [of "run2\<lparr>cr_context := ctx\<rparr>" run2] same_gates_trans by simp
    show ?thesis
    proof (cases ke)
      case None
      with assms Inr a arts k ap g3 show ?thesis by (auto simp: apply_outputs_def)
    next
      case (Some e)
      with assms Inr a arts k ap g2 show ?thesis by (auto simp: apply_outputs_def)
    qed
  qed
qed

section \<open>The invariant\<close>

context row_store
begin

definition uses :: "'s campaign_env \<Rightarrow> bool" where
  "uses E \<longleftrightarrow> ce_load E = load \<and> ce_save E = save \<and> inj (ce_uuid E) \<and> (\<forall>n. ce_uuid E n \<noteq> [])"

definition run_gated :: "'s \<Rightarrow> campaign_run \<Rightarrow> bool" where
  "run_gated s run \<longleftrightarrow> (\<forall>nid. recorded_approval run nid \<noteq> [] \<longrightarrow>
     (\<exists>row. look s (recorded_approval run nid) = Some row \<and> gate_row (cr_campaign run) nid row))"

definition call_gated :: "'s \<Rightarrow> dispatch_call \<Rightarrow> bool" where
  "call_gated s = (\<lambda>(c, node, payload). is_high_risk (cn_type node) \<longrightarrow>
     (\<exists>aid row. look s aid = Some row \<and> ap_status row = STATUS_APPROVED \<and> gate_row c (cn_id node) row))"

definition world_ok :: "'s campaign_env \<Rightarrow> 's campaign_world \<Rightarrow> bool" where
  "world_ok E w \<longleftrightarrow> good (cw_store w) \<and> (\<forall>n \<ge> cw_tick w. look (cw_store w) (ce_uuid E n) = None)
     \<and> (\<forall>(c, run) \<in> set (cw_runs w). cr_campaign run = c \<and> run_gated (cw_store w) run)
     \<and> (\<forall>call \<in> set (cw_sent w). call_gated (cw_store w) call)"

text \<open>An operation in progress: the world, and the run it works on.\<close>

definition flight :: "'s campaign_env \<Rightarrow> campaign_run \<Rightarrow> 's campaign_world \<Rightarrow> bool" where
  "flight E run w \<longleftrightarrow> world_ok E w \<and> run_gated (cw_store w) run"

lemma evolves_gate: "evolves a b \<Longrightarrow> a = Some r \<Longrightarrow> gate_row c nid r \<Longrightarrow> \<exists>r'. b = Some r' \<and> gate_row c nid r'"
  by (auto simp: evolves_def gate_row_def)

lemma run_gated_mono: "\<forall>k. evolves (look s k) (look s' k) \<Longrightarrow> run_gated s run \<Longrightarrow> run_gated s' run"
  unfolding run_gated_def by (metis evolves_gate)

lemma call_gated_mono: "\<forall>k. evolves (look s k) (look s' k) \<Longrightarrow> call_gated s call \<Longrightarrow> call_gated s' call"
proof -
  assume ev: "\<forall>k. evolves (look s k) (look s' k)" and call: "call_gated s call"
  obtain c node payload where c: "call = (c, node, payload)" by (metis prod.exhaust)
  have "look s' aid = Some row" if "look s aid = Some row" "ap_status row = STATUS_APPROVED" for aid row
    using ev [rule_format, of aid] that by (auto simp: evolves_def)
  with call show ?thesis unfolding c call_gated_def by blast
qed

lemma run_gated_same: "same_gates run run' \<Longrightarrow> run_gated s run \<Longrightarrow> run_gated s run'"
  by (auto simp: run_gated_def same_gates_def)

text \<open>Everything that keeps the store, the stored runs and the calls keeps the invariant.\<close>

lemma flight_frame:
  assumes "flight E run w" "same_gates run run'" "cw_store w' = cw_store w" "cw_runs w' = cw_runs w"
    "cw_sent w' = cw_sent w" "cw_tick w \<le> cw_tick w'"
  shows "flight E run' w'"
  using assms run_gated_same by (auto simp: flight_def world_ok_def)

text \<open>The store moves on, by changes that only let rows evolve and create none of the ids still to come.\<close>

lemma flight_store:
  assumes "flight E run w" "good s'" "\<forall>k. evolves (look (cw_store w) k) (look s' k)"
    "\<forall>n \<ge> cw_tick w'. look s' (ce_uuid E n) = None"
    "cw_store w' = s'" "cw_runs w' = cw_runs w" "cw_sent w' = cw_sent w"
  shows "flight E run w'"
  unfolding flight_def world_ok_def
proof (intro conjI)
  show "good (cw_store w')" "\<forall>n \<ge> cw_tick w'. look (cw_store w') (ce_uuid E n) = None" using assms by simp_all
  have gated: "run_gated (cw_store w) r \<Longrightarrow> run_gated (cw_store w') r" for r
    using run_gated_mono assms(3,5) by simp
  show "\<forall>(c, run) \<in> set (cw_runs w'). cr_campaign run = c \<and> run_gated (cw_store w') run"
    using assms(1,6) gated by (fastforce simp: flight_def world_ok_def)
  show "run_gated (cw_store w') run" using assms(1) gated by (simp add: flight_def)
  show "\<forall>call \<in> set (cw_sent w'). call_gated (cw_store w') call"
    using assms(1,3,5,7) call_gated_mono by (simp add: flight_def world_ok_def)
qed

lemma flight_dispatch:
  assumes "flight E run w" "call_gated (cw_store w) (cr_campaign run, node, payload)"
    and "composite_dispatch E node payload run w = (r, run', w')"
  shows "flight E run' w'"
  using assms(1,2) composite_post [OF assms(3)] run_gated_same by (auto simp: flight_def world_ok_def)

lemma flight_put:
  "flight E run w \<Longrightarrow> sr_approval s = sr_approval (step_of run nid) \<Longrightarrow> flight E (put_step nid s run) w"
  unfolding flight_def using run_gated_same [OF same_gates_put] by blast

lemma flight_steps:
  "flight E run w \<Longrightarrow> cr_steps run' = cr_steps run \<Longrightarrow> cr_campaign run' = cr_campaign run \<Longrightarrow> flight E run' w"
  unfolding flight_def using run_gated_same [OF same_gates_steps] by blast

lemma flight_emit:
  "flight E run w \<Longrightarrow> emit_node_event E node status appr err (run, w) = (run', w')
     \<Longrightarrow> flight E run' w' \<and> cr_campaign run' = cr_campaign run \<and> cw_store w' = cw_store w"
  using flight_frame [of E run w run' w'] same_gates_steps [of run' run]
  by (auto simp: emit_node_event_def tick_def Let_def)

text \<open>The steps of an execution: each keeps the run's campaign and the invariant.\<close>

definition keeps :: "'s campaign_env \<Rightarrow> campaign_run \<Rightarrow> (campaign_error + campaign_run) \<times> 's campaign_world \<Rightarrow> bool" where
  "keeps E run = (\<lambda>(res, w'). world_ok E w' \<and> (\<forall>run'. res = Inr run' \<longrightarrow> flight E run' w' \<and> cr_campaign run' = cr_campaign run))"

lemma keeps_Inr: "flight E run' w' \<Longrightarrow> cr_campaign run' = cr_campaign run \<Longrightarrow> keeps E run (Inr run', w')"
  by (simp add: keeps_def flight_def)

lemma keeps_Inl: "world_ok E w' \<Longrightarrow> keeps E run (Inl e, w')"
  by (simp add: keeps_def)

lemma keeps_world: "keeps E run (res, w') \<Longrightarrow> world_ok E w'"
  by (simp add: keeps_def)

lemma keeps_campaign: "keeps E run' x \<Longrightarrow> cr_campaign run' = cr_campaign run \<Longrightarrow> keeps E run x"
  by (simp add: keeps_def)

lemma flight_reject:
  assumes f: "flight E run w" and r: "reject_unsafe E node run w = (run', w')"
  shows "flight E run' w' \<and> cr_campaign run' = cr_campaign run"
proof -
  define s where "s = (step_of run (cn_id node))\<lparr>sr_status := NS_BLOCKED, sr_error := ''high_risk_node_requires_approval''\<rparr>"
  have "flight E ((put_step (cn_id node) s run)\<lparr>cr_blocked := mark (cn_id node) (cr_blocked run)\<rparr>) w"
    by (rule flight_steps [OF flight_put [OF f, of s "cn_id node"]]) (simp_all add: s_def)
  from flight_emit [OF this] r show ?thesis by (auto simp: reject_unsafe_def s_def Let_def)
qed

lemma flight_pause:
  assumes f: "flight E run w" and r: "pause_for_approval E node level run w = (run', w')"
  shows "flight E run' w' \<and> cr_campaign run' = cr_campaign run"
proof -
  define s where "s = (step_of run (cn_id node))\<lparr>sr_status := NS_NEEDS_APPROVAL\<rparr>"
  have "flight E ((put_step (cn_id node) s run)\<lparr>cr_needs := mark (cn_id node) (cr_needs run)\<rparr>) w"
    by (rule flight_steps [OF flight_put [OF f, of s "cn_id node"]]) (simp_all add: s_def)
  from flight_emit [OF this] r show ?thesis by (auto simp: pause_for_approval_def s_def Let_def)
qed

lemma flight_attempts:
  "flight E run w \<Longrightarrow> call_gated (cw_store w) (cr_campaign run, node, payload) \<Longrightarrow>
     dispatch_attempts left attempt E node payload err run w = (res, run', w')
     \<Longrightarrow> flight E run' w' \<and> cr_campaign run' = cr_campaign run \<and> cw_store w' = cw_store w"
proof (induction left arbitrary: attempt err run w)
  case 0
  then show ?case by auto
next
  case (Suc left)
  define run1 where "run1 = put_step (cn_id node) ((step_of run (cn_id node))\<lparr>sr_attempts := attempt\<rparr>) run"
  have f1: "flight E run1 w" unfolding run1_def by (rule flight_put [OF Suc.prems(1)]) simp
  have c1: "cr_campaign run1 = cr_campaign run" by (simp add: run1_def)
  obtain r run2 w2 where d: "composite_dispatch E node payload run1 w = (r, run2, w2)" by (metis prod.exhaust)
  have f2: "flight E run2 w2" using flight_dispatch [OF f1 _ d] Suc.prems(2) c1 by simp
  note post = composite_post [OF d]
  have c2: "cr_campaign run2 = cr_campaign run" using post(1) c1 by (simp add: same_gates_def)
  show ?case
  proof (cases "\<exists>exc. r = Inl exc \<and> should_retry node exc \<and> \<not> int attempt \<ge> rp_max_attempts (cn_retry node)")
    case True
    then obtain exc where exc: "r = Inl exc" "should_retry node exc" "\<not> int attempt \<ge> rp_max_attempts (cn_retry node)" by blast
    with Suc.prems(3) d have "dispatch_attempts left (Suc attempt) E node payload (fst exc @ '': '' @ snd exc) run2 w2 = (res, run', w')"
      by (simp add: run1_def Let_def)
    from Suc.IH [OF f2 _ this] Suc.prems(2) post(2) c2 show ?thesis by simp
  next
    case False
    with Suc.prems(3) d have "run' = run2" "w' = w2"
      by (auto simp: run1_def Let_def split: sum.splits if_splits)
    with f2 c2 post(2) show ?thesis by simp
  qed
qed

lemma flight_failure:
  assumes f: "flight E run w" and c: "call_gated (cw_store w) (cr_campaign run, node, payload)"
    and r: "finish_failure E node appr err run w = (res, w')"
  shows "keeps E run (res, w')"
proof -
  define s where "s = (step_of run (cn_id node))\<lparr>sr_status := NS_FAILED, sr_error := py_or err ''dispatch_failed''\<rparr>"
  define run1 where "run1 = (put_step (cn_id node) s run)\<lparr>cr_failed := mark (cn_id node) (cr_failed run)\<rparr>"
  have f1: "flight E run1 w" unfolding run1_def
    by (rule flight_steps [OF flight_put [OF f, of s "cn_id node"]]) (simp_all add: s_def)
  obtain run2 w2 where e: "emit_node_event E node ''failed'' appr (sr_error s) (run1, w) = (run2, w2)" by fastforce
  note f2 = flight_emit [OF f1 e]
  obtain run3 w3 where m: "maybe_compensate E node (run2, w2) = (run3, w3)" by fastforce
  have c2: "call_gated (cw_store w2) (cr_campaign run2, node\<lparr>cn_capability := cap\<rparr>, p)" for cap p
    using c f2 by (simp add: call_gated_def run1_def)
  have "flight E run3 w3 \<and> cr_campaign run3 = cr_campaign run2"
  proof (cases "\<exists>cap. cn_rollback node = RB_COMPENSATE \<and> cn_compensation node = Some cap \<and> cap \<noteq> []")
    case True
    then obtain cap where cap: "cn_rollback node = RB_COMPENSATE" "cn_compensation node = Some cap" "cap \<noteq> []" by blast
    obtain p where "snd (composite_dispatch E (node\<lparr>cn_capability := cap\<rparr>) p run2 w2) = (run3, w3)"
      using m cap by (auto simp: maybe_compensate_def)
    then obtain dr where d: "composite_dispatch E (node\<lparr>cn_capability := cap\<rparr>) p run2 w2 = (dr, run3, w3)"
      by (metis prod.collapse)
    have "flight E run3 w3" using flight_dispatch [OF _ c2 d] f2 by blast
    then show ?thesis using composite_post(1) [OF d] by (simp add: same_gates_def)
  next
    case False
    with m f2 show ?thesis by (auto simp: maybe_compensate_def split: option.splits if_splits)
  qed
  moreover have "res = Inr run3" "w' = w3"
    using r e m by (auto simp: finish_failure_def Let_def s_def run1_def)
  ultimately show ?thesis using f2 by (auto intro!: keeps_Inr simp: run1_def)
qed

lemma flight_success:
  assumes f: "flight E run w" and r: "finish_success E node appr result run w = (res, w')"
  shows "keeps E run (res, w')"
proof -
  obtain out run1 w1 where o: "apply_outputs E node result run w = (out, run1, w1)" by (metis prod.exhaust)
  note op = outputs_post [OF o]
  have f1: "flight E run1 w1" using flight_frame [OF f] op by blast
  have c1: "cr_campaign run1 = cr_campaign run" using op by (simp add: same_gates_def)
  show ?thesis
  proof (cases out)
    case (Inl e)
    with r o f1 show ?thesis by (auto simp: finish_success_def keeps_def flight_def)
  next
    case (Inr refs)
    obtain arts kpis where refs: "refs = (arts, kpis)" by fastforce
    define s where "s = (step_of run1 (cn_id node))\<lparr>sr_status := NS_COMPLETED, sr_output_hash := hash_payload (JObj result),
                        sr_output_summary := summarize result, sr_error := [], sr_artifact_refs := arts, sr_kpi_refs := kpis\<rparr>"
    define run2 where "run2 = (put_step (cn_id node) s run1)\<lparr>cr_completed := mark (cn_id node) (cr_completed run1),
                        cr_failed := unmark (cn_id node) (cr_failed run1)\<rparr>"
    have f2: "flight E run2 w1" unfolding run2_def
      by (rule flight_steps [OF flight_put [OF f1, of s "cn_id node"]]) (simp_all add: s_def)
    obtain run3 w3 where e: "emit_node_event E node ''completed'' appr [] (run2, w1) = (run3, w3)" by fastforce
    have "res = Inr run3" "w' = w3"
      using r o Inr refs e by (auto simp: finish_success_def Let_def s_def run2_def)
    with flight_emit [OF f2 e] c1 show ?thesis by (auto intro!: keeps_Inr simp: run2_def)
  qed
qed

lemma flight_run_dispatch:
  assumes f: "flight E run w"
    and c: "is_high_risk (cn_type node) \<Longrightarrow>
      \<exists>aid row. look (cw_store w) aid = Some row \<and> ap_status row = STATUS_APPROVED \<and> gate_row (cr_campaign run) (cn_id node) row"
    and r: "run_dispatch E node level run w = (res, w')"
  shows "keeps E run (res, w')"
proof -
  define nid where "nid = cn_id node"
  define run1 where "run1 = (put_step nid ((step_of run nid)\<lparr>sr_status := NS_RUNNING\<rparr>) run)
      \<lparr>cr_needs := unmark nid (cr_needs run), cr_blocked := unmark nid (cr_blocked run), cr_current := Some nid\<rparr>"
  have f1: "flight E run1 w" unfolding run1_def
    by (rule flight_steps [OF flight_put [OF f, of "(step_of run nid)\<lparr>sr_status := NS_RUNNING\<rparr>" nid]]) simp_all
  have c1: "cr_campaign run1 = cr_campaign run" by (simp add: run1_def)
  have gated: "call_gated (cw_store w) (cr_campaign run1, node, p)" for p using c c1 by (auto simp: call_gated_def)
  obtain out run2 w2 where d: "dispatch_attempts (nat (max 1 (rp_max_attempts (cn_retry node)))) 1 E node
      (resolve_inputs node run1) [] run1 w = (out, run2, w2)" by (metis prod.exhaust)
  note p = flight_attempts [OF f1 gated d]
  have r2: "(res, w') = (case out of Inl err \<Rightarrow> finish_failure E node (if level \<noteq> AL_NONE then ''approved'' else ''not_required'') err run2 w2
      | Inr result \<Rightarrow> finish_success E node (if level \<noteq> AL_NONE then ''approved'' else ''not_required'') result run2 w2)"
    using r d unfolding run_dispatch_def Let_def nid_def run1_def by (cases out) (auto split: if_splits)
  have "keeps E run2 (res, w')"
  proof (cases out)
    case (Inl err)
    then have "finish_failure E node (if level \<noteq> AL_NONE then ''approved'' else ''not_required'') err run2 w2 = (res, w')"
      using r2 by simp
    moreover have "call_gated (cw_store w2) (cr_campaign run2, node, [])" using gated [of "[]"] p by simp
    ultimately show ?thesis using p flight_failure by blast
  next
    case (Inr result)
    then have "finish_success E node (if level \<noteq> AL_NONE then ''approved'' else ''not_required'') result run2 w2 = (res, w')"
      using r2 by simp
    with p flight_success show ?thesis by blast
  qed
  moreover have "cr_campaign run2 = cr_campaign run" using p c1 by simp
  ultimately show ?thesis by (rule keeps_campaign)
qed

text \<open>The gate: an approval is looked up or created, and a positive answer means an approved row.\<close>

lemma uses_uuid: "uses E \<Longrightarrow> n < m \<Longrightarrow> ce_uuid E m \<noteq> ce_uuid E n"
  unfolding uses_def by (auto dest!: inj_onD [of "ce_uuid E" UNIV m n])

lemma flight_get:
  assumes f: "flight E run w" and s': "cw_store w' = snd (get_approval load save now aid (cw_store w))"
    and w': "cw_runs w' = cw_runs w" "cw_sent w' = cw_sent w" "cw_tick w \<le> cw_tick w'"
  shows "flight E run w'"
proof (rule flight_store [OF f])
  have good: "good (cw_store w)" using f by (simp add: flight_def world_ok_def)
  show "good (cw_store w')" using get_good [OF good] s' by simp
  show "\<forall>k. evolves (look (cw_store w) k) (look (cw_store w') k)" using get_evolves [OF good] s' by simp
  show "\<forall>n \<ge> cw_tick w'. look (cw_store w') (ce_uuid E n) = None"
  proof (intro allI impI)
    fix n
    assume "cw_tick w' \<le> n"
    then have none: "look (cw_store w) (ce_uuid E n) = None" using f w'(3) by (simp add: flight_def world_ok_def)
    show "look (cw_store w') (ce_uuid E n) = None"
      using none by (cases "ce_uuid E n = aid") (simp_all add: s' get_look [OF good])
  qed
qed (simp_all add: w')

lemma check_post:
  assumes u: "uses E" and f: "flight E run w" and r: "check_approved E aid w = (ok, w')"
  shows "flight E run w'" "ok \<Longrightarrow> \<exists>row. look (cw_store w') aid = Some row \<and> ap_status row = STATUS_APPROVED"
proof -
  have good: "good (cw_store w)" using f by (simp add: flight_def world_ok_def)
  let ?now = "ce_clock E (cw_tick w)"
  have s': "cw_store w' = snd (get_approval load save ?now aid (cw_store w))" "cw_runs w' = cw_runs w" "cw_sent w' = cw_sent w"
    "cw_tick w' = Suc (cw_tick w)" "ok = fst (is_currently_approved load save ?now aid (cw_store w))"
    using r u by (auto simp: check_approved_def uses_def tick_def check_state [symmetric] split: prod.splits)
  show "flight E run w'" by (rule flight_get [OF f]) (simp_all add: s')
  assume ok
  then have "fst (is_currently_approved load save ?now aid (cw_store w))" using s'(5) by simp
  then obtain row where "fst (get_approval load save ?now aid (cw_store w)) = Some row" "ap_status row = STATUS_APPROVED"
    by (auto simp: is_currently_approved_def split: prod.splits option.splits)
  then show "\<exists>row. look (cw_store w') aid = Some row \<and> ap_status row = STATUS_APPROVED"
    using get_row [OF good, of ?now aid] get_look [OF good, of ?now aid aid] s'(1) by auto
qed

lemma run_gated_record:
  assumes "run_gated s run" "aid \<noteq> [] \<Longrightarrow> \<exists>row. look s aid = Some row \<and> gate_row (cr_campaign run) nid row"
  shows "run_gated s (record_approval nid aid run)"
  unfolding run_gated_def
proof (intro allI impI)
  fix k
  have rec: "recorded_approval (record_approval nid aid run) k = (if k = nid then aid else recorded_approval run k)"
    by (simp add: record_approval_def recorded_approval_def put_step_def map_of_update)
  assume "recorded_approval (record_approval nid aid run) k \<noteq> []"
  with assms rec show "\<exists>row. look s (recorded_approval (record_approval nid aid run) k) = Some row
      \<and> gate_row (cr_campaign (record_approval nid aid run)) k row"
    by (auto simp: run_gated_def record_approval_def split: if_splits)
qed

lemma flight_ensure:
  assumes u: "uses E" and f: "flight E run w" and e: "ensure E run node level w = ((aid, ok), w')"
  shows "flight E (record_approval (cn_id node) aid run) w'"
    and "ok \<Longrightarrow> \<exists>row. look (cw_store w') aid = Some row \<and> ap_status row = STATUS_APPROVED \<and> gate_row (cr_campaign run) (cn_id node) row"
proof -
  have good: "good (cw_store w)" using f by (simp add: flight_def world_ok_def)
  have "flight E run w' \<and> (\<exists>row. look (cw_store w') aid = Some row \<and> gate_row (cr_campaign run) (cn_id node) row)
      \<and> (ok \<longrightarrow> (\<exists>row. look (cw_store w') aid = Some row \<and> ap_status row = STATUS_APPROVED))"
  proof (cases "recorded_approval run (cn_id node) \<noteq> []")
    case True
    with e have c: "aid = recorded_approval run (cn_id node)" "check_approved E aid w = (ok, w')"
      by (auto simp: ensure_def Let_def split: prod.splits)
    note p = check_post [OF u f c(2)]
    then have "run_gated (cw_store w') run" by (simp add: flight_def)
    with True c(1) p show ?thesis by (auto simp: run_gated_def)
  next
    case False
    define row where "row = create_row (ce_to_rat E) (ce_environ E) (ce_uuid E (cw_tick w)) (ce_clock E (cw_tick w)) (ce_stamp E (cw_tick w))
        APPROVAL_KIND (gate_payload run node level) (risk_level_for (resolve_severity node)) None None None"
    have id: "ap_id row = ce_uuid E (cw_tick w)" by (simp add: row_def create_row_def Let_def)
    have ne: "ap_id row \<noteq> []" using u id by (simp add: uses_def)
    have w': "cw_store w' = save row (cw_store w)" "cw_runs w' = cw_runs w" "cw_sent w' = cw_sent w" "cw_tick w' = Suc (cw_tick w)"
      "aid = ap_id row" "\<not> ok"
      using e u False by (auto simp: ensure_def create_approval_def row_def tick_def uses_def Let_def)
    have fresh: "\<forall>n \<ge> cw_tick w. look (cw_store w) (ce_uuid E n) = None" using f by (simp add: flight_def world_ok_def)
    have "flight E run w'"
    proof (rule flight_store [OF f])
      show "good (cw_store w')" using good_save [OF good ne] w'(1) by simp
      show "\<forall>k. evolves (look (cw_store w) k) (look (cw_store w') k)"
        using fresh id by (simp add: w'(1) look_save [OF good ne] evolves_def)
      show "\<forall>n \<ge> cw_tick w'. look (cw_store w') (ce_uuid E n) = None"
        using fresh id uses_uuid [OF u] by (simp add: w'(1,4) look_save [OF good ne])
    qed (simp_all add: w')
    then show ?thesis using gate_payload_row by (simp add: w' look_save [OF good ne]) (simp add: row_def)
  qed
  then show "flight E (record_approval (cn_id node) aid run) w'"
    and "ok \<Longrightarrow> \<exists>row. look (cw_store w') aid = Some row \<and> ap_status row = STATUS_APPROVED \<and> gate_row (cr_campaign run) (cn_id node) row"
    using run_gated_record [of "cw_store w'" run aid "cn_id node"] by (auto simp: flight_def)
qed

lemma flight_execute:
  assumes u: "uses E" and f: "flight E run w" and r: "execute_node E node run w = (res, w')"
  shows "keeps E run (res, w')"
proof -
  define run1 where "run1 = put_step (cn_id node) (step_of run (cn_id node)) run"
  have f1: "flight E run1 w" unfolding run1_def by (rule flight_put [OF f]) simp
  have c1: "cr_campaign run1 = cr_campaign run" by (simp add: run1_def)
  define level where "level = resolve_level node (run_rules run1)"
  consider (unsafe) "is_high_risk (cn_type node) \<and> cn_approval node = AL_NONE"
    | (free) "\<not> (is_high_risk (cn_type node) \<and> cn_approval node = AL_NONE)" "level = AL_NONE"
    | (gate) "\<not> (is_high_risk (cn_type node) \<and> cn_approval node = AL_NONE)" "level \<noteq> AL_NONE" by blast
  then have "keeps E run1 (res, w')"
  proof cases
    case unsafe
    obtain run2 w2 where j: "reject_unsafe E node run1 w = (run2, w2)" by fastforce
    with r unsafe have "res = Inr run2" "w' = w2" by (auto simp: execute_node_def run1_def Let_def)
    with flight_reject [OF f1 j] show ?thesis by (auto intro: keeps_Inr)
  next
    case free
    then have safe: "\<not> is_high_risk (cn_type node)" using high_risk_is_gated [of node "run_rules run1"] by (auto simp: level_def)
    have d: "run_dispatch E node level run1 w = (res, w')"
      using r free unfolding execute_node_def run1_def [symmetric] Let_def level_def [symmetric] by (simp del: de_Morgan_conj)
    show ?thesis by (rule flight_run_dispatch [OF f1 _ d]) (use safe in simp)
  next
    case gate
    obtain aid ok w1 where e: "ensure E run1 node level w = ((aid, ok), w1)" by (metis prod.exhaust)
    let ?run2 = "record_approval (cn_id node) aid run1"
    have f2: "flight E ?run2 w1" by (rule flight_ensure(1) [OF u f1 e])
    have c2: "cr_campaign ?run2 = cr_campaign run1" by (simp add: record_approval_def)
    have "keeps E ?run2 (res, w')"
    proof (cases ok)
      case False
      obtain run3 w3 where p: "pause_for_approval E node level ?run2 w1 = (run3, w3)" by fastforce
      with r gate e False have "res = Inr run3" "w' = w3" by (auto simp: execute_node_def run1_def level_def Let_def)
      with flight_pause [OF f2 p] show ?thesis by (auto intro: keeps_Inr)
    next
      case True
      then have "run_dispatch E node level ?run2 w1 = (res, w')"
        using r gate e by (simp add: execute_node_def run1_def level_def Let_def)
      then show ?thesis by (rule flight_run_dispatch [OF f2, rotated]) (metis c2 flight_ensure(2) [OF u f1 e True])
    qed
    then show ?thesis using c2 by (rule keeps_campaign)
  qed
  then show ?thesis using c1 by (rule keeps_campaign)
qed

section \<open>Operations keep the invariant\<close>

lemma flight_save: "flight E run w \<Longrightarrow> flight E run (save_run run w)"
  by (auto simp: flight_def world_ok_def save_run_def dest!: update_entry)

lemma flight_transition:
  assumes f: "flight E run w" and t: "transition st reason (run, w) = (run', w')"
  shows "flight E run' w' \<and> cr_campaign run' = cr_campaign run"
proof -
  have "flight E run' w'"
    by (rule flight_frame [OF f]) (use t in \<open>auto simp: transition_def lifecycle_event_def tick_def intro: same_gates_steps\<close>)
  with t show ?thesis by (auto simp: transition_def)
qed

lemma flight_settle:
  assumes f: "flight E run w" and t: "settle_state n (run, w) = (run', w')"
  shows "flight E run' w' \<and> cr_campaign run' = cr_campaign run"
proof (cases "cr_state run = CS_CANCELLED")
  case True
  with f t show ?thesis by (simp add: settle_state_def)
next
  case False
  have "flight E (run\<lparr>cr_current := None\<rparr>) w" by (rule flight_steps [OF f]) simp_all
  moreover obtain st reason where "transition st reason (run\<lparr>cr_current := None\<rparr>, w) = (run', w')"
    using t False by (auto simp: settle_state_def Let_def split: if_splits)
  ultimately show ?thesis using flight_transition by fastforce
qed

lemma flight_read:
  assumes u: "uses E" and f: "flight E run w" and r: "read_approval E aid w = (row, w')"
  shows "flight E run w'"
proof (rule flight_get [OF f, where now = "ce_clock E (cw_tick w)" and aid = aid])
  have E: "ce_load E = load" "ce_save E = save" using u by (simp_all add: uses_def)
  show "cw_store w' = snd (get_approval load save (ce_clock E (cw_tick w)) aid (cw_store w))"
    using r E by (cases "get_approval load save (ce_clock E (cw_tick w)) aid (cw_store w)") (auto simp: read_approval_def)
qed (use r in \<open>auto simp: read_approval_def tick_def split: prod.splits\<close>)

lemma flight_gauge: "uses E \<Longrightarrow> flight E run w \<Longrightarrow> flight E run (snd (pending_by_severity E aids buckets w))"
proof (induction aids arbitrary: buckets w)
  case (Cons aid aids)
  obtain row w1 where r: "read_approval E aid w = (row, w1)" by fastforce
  have "flight E run w1" by (rule flight_read [OF Cons.prems r])
  with Cons.IH [OF Cons.prems(1)] r show ?case by (simp add: Let_def split: option.splits)
qed simp

lemma flight_execute_ready:
  "uses E \<Longrightarrow> flight E run w \<Longrightarrow> execute_ready E nodes ids run w = (res, w') \<Longrightarrow> keeps E run (res, w')"
proof (induction ids arbitrary: run w)
  case Nil
  then show ?case by (auto intro: keeps_Inr)
next
  case (Cons nid ids)
  show ?case
  proof (cases "map_of nodes nid")
    case None
    with Cons.prems show ?thesis by (auto simp: keeps_def flight_def)
  next
    case (Some node)
    obtain r1 w1 where x: "execute_node E node run w = (r1, w1)" by fastforce
    note k = flight_execute [OF Cons.prems(1,2) x]
    show ?thesis
    proof (cases r1)
      case (Inl e)
      with Cons.prems(3) Some x have "res = Inl e" "w' = w1" by simp_all
      with keeps_world [OF k] show ?thesis by (simp add: keeps_Inl)
    next
      case (Inr run1)
      with k have f1: "flight E run1 w1" "cr_campaign run1 = cr_campaign run" by (auto simp: keeps_def)
      from Cons.prems(3) Some x Inr have "execute_ready E nodes ids run1 (save_run run1 w1) = (res, w')" by simp
      then have "keeps E run1 (res, w')" by (rule Cons.IH [OF Cons.prems(1) flight_save [OF f1(1)]])
      then show ?thesis using f1(2) by (rule keeps_campaign)
    qed
  qed
qed

lemma flight_passes:
  "uses E \<Longrightarrow> flight E run w \<Longrightarrow> drive_passes n E g run w = (res, w') \<Longrightarrow> keeps E run (res, w')"
proof (induction n arbitrary: run w)
  case 0
  then show ?case by (auto intro: keeps_Inr)
next
  case (Suc n)
  show ?case
  proof (cases "ready_now E g run = []")
    case True
    with Suc.prems show ?thesis by (auto intro: keeps_Inr)
  next
    case False
    obtain r1 w1 where x: "execute_ready E (cg_nodes g) (ready_now E g run) run w = (r1, w1)" by fastforce
    note k = flight_execute_ready [OF Suc.prems(1,2) x]
    show ?thesis
    proof (cases r1)
      case (Inl e)
      with Suc.prems(3) False x have "res = Inl e" "w' = w1" by simp_all
      with keeps_world [OF k] show ?thesis by (simp add: keeps_Inl)
    next
      case (Inr run1)
      with k have f1: "flight E run1 w1" "cr_campaign run1 = cr_campaign run" by (auto simp: keeps_def)
      show ?thesis
      proof (cases "length (cr_completed run1) = length (cr_completed run)")
        case True
        with Suc.prems(3) False x Inr f1 show ?thesis by (auto intro: keeps_Inr)
      next
        case more: False
        with Suc.prems(3) False x Inr have "drive_passes n E g run1 w1 = (res, w')" by simp
        then have "keeps E run1 (res, w')" by (rule Suc.IH [OF Suc.prems(1) f1(1)])
        then show ?thesis using f1(2) by (rule keeps_campaign)
      qed
    qed
  qed
qed

lemma flight_drive:
  assumes u: "uses E" and f: "flight E run w" and d: "drive E t run w = (res, w')"
  shows "keeps E run (res, w')"
proof (cases "new_graph t")
  case (Inl e)
  with d f show ?thesis by (auto simp: drive_def keeps_def flight_def)
next
  case (Inr g)
  obtain r1 w1 where p: "drive_passes (length (node_map t) + 1) E g run w = (r1, w1)" by fastforce
  note k = flight_passes [OF u f p]
  show ?thesis
  proof (cases r1)
    case (Inl e)
    with d Inr p have "res = Inl e" "w' = w1" by (simp_all add: drive_def)
    with keeps_world [OF k] show ?thesis by (simp add: keeps_Inl)
  next
    case r1: (Inr run1)
    with k have f1: "flight E run1 w1" "cr_campaign run1 = cr_campaign run" by (auto simp: keeps_def)
    obtain run2 w2 where s: "settle_state (length (node_map t)) (run1, w1) = (run2, w2)" by fastforce
    note f2 = flight_settle [OF f1(1) s]
    then have "flight E run2 (refresh_gauge E run2 (save_run run2 w2))"
      unfolding refresh_gauge_def by (intro flight_gauge [OF u] flight_save) simp
    moreover have "res = Inr run2" "w' = refresh_gauge E run2 (save_run run2 w2)"
      using d Inr p r1 s by (auto simp: drive_def Let_def)
    ultimately show ?thesis using f2 f1(2) by (auto intro: keeps_Inr)
  qed
qed

lemma run_flight: "world_ok E w \<Longrightarrow> get_run cid w = Some run \<Longrightarrow> flight E run w"
  by (auto simp: flight_def world_ok_def get_run_def dest!: map_of_SomeD)

lemma start_ok: "uses E \<Longrightarrow> world_ok E w \<Longrightarrow> world_ok E (snd (start_campaign E cid w))"
proof (cases "get_run cid w")
  case (Some run)
  assume u: "uses E" and w: "world_ok E w"
  note f = run_flight [OF w Some]
  obtain run1 w1 where t: "transition CS_RUNNING ''started'' (run, w) = (run1, w1)" by fastforce
  note f1 = flight_transition [OF f t]
  have "world_ok E (snd (drive E tm run1 w1))" for tm
    using flight_drive [OF u, of run1 w1 tm] f1 keeps_world by (metis prod.collapse)
  with Some t w show ?thesis by (simp add: start_campaign_def split: sum.splits)
qed (simp add: start_campaign_def)

lemma flight_satisfied:
  "uses E \<Longrightarrow> flight E run w \<Longrightarrow> is_satisfied E aid w = (ok, w') \<Longrightarrow> flight E run w'"
  by (auto simp: is_satisfied_def split: option.splits if_splits dest: check_post(1))

lemma flight_reconcile:
  "uses E \<Longrightarrow> flight E run w \<Longrightarrow> reconcile_approvals E ids run w = (run', w') \<Longrightarrow> flight E run' w'"
proof (induction ids arbitrary: run w)
  case (Cons nid ids)
  show ?case
  proof (cases "map_of (cr_steps run) nid")
    case None
    with Cons show ?thesis by simp
  next
    case (Some step)
    obtain ok w1 where s: "is_satisfied E (sr_approval step) w = (ok, w1)" by fastforce
    note f1 = flight_satisfied [OF Cons.prems(1,2) s]
    have "flight E (if ok then run\<lparr>cr_needs := remove1 nid (cr_needs run)\<rparr> else run) w1"
      using f1 flight_steps [OF f1, of "run\<lparr>cr_needs := remove1 nid (cr_needs run)\<rparr>"] by simp
    from Cons.IH [OF Cons.prems(1) this] Cons.prems(3) Some s show ?thesis by simp
  qed
qed simp

lemma advance_ok: "uses E \<Longrightarrow> world_ok E w \<Longrightarrow> world_ok E (snd (advance_campaign E cid w))"
proof (cases "get_run cid w")
  case (Some run)
  assume u: "uses E" and w: "world_ok E w"
  note f = run_flight [OF w Some]
  obtain run1 w1 where r: "reconcile_approvals E (cr_needs run) run w = (run1, w1)" by fastforce
  note f1 = flight_reconcile [OF u f r]
  obtain run2 w2 where t: "(if cr_state run1 \<noteq> CS_RUNNING then transition CS_RUNNING ''advanced'' (run1, w1) else (run1, w1)) = (run2, w2)"
    by fastforce
  have f2: "flight E run2 w2" using f1 flight_transition [OF f1] t by (auto split: if_splits)
  have "world_ok E (snd (drive E tm run2 w2))" for tm
    using flight_drive [OF u f2, of tm] keeps_world by (metis prod.collapse)
  with Some r t w show ?thesis by (simp add: advance_campaign_def Let_def split: sum.splits)
qed (simp add: advance_campaign_def)

lemma decide_none:
  assumes "good s" "look s k = None"
  shows "look (snd (decide_approval load save now stamp i decision who s)) k = None"
proof -
  obtain res s' where d: "decide_approval load save now stamp i decision who s = (res, s')" by fastforce
  from decide_spec [OF assms(1), of now stamp i decision who] d have "decide_post now stamp i decision who s (res, s')" by simp
  with assms(2) d show ?thesis by (cases "k = i"; cases res) (auto simp: decide_post_def)
qed

lemma flight_decide:
  assumes f: "flight E run w"
    and w': "cw_store w' = snd (decide_approval load save now stamp aid decision who (cw_store w))"
      "cw_runs w' = cw_runs w" "cw_sent w' = cw_sent w" "cw_tick w \<le> cw_tick w'"
  shows "flight E run w'"
proof (rule flight_store [OF f])
  have good: "good (cw_store w)" using f by (simp add: flight_def world_ok_def)
  show "good (cw_store w')" using decide_good [OF good] w'(1) by simp
  show "\<forall>k. evolves (look (cw_store w) k) (look (cw_store w') k)" using decide_evolves [OF good] w'(1) by simp
  show "\<forall>n \<ge> cw_tick w'. look (cw_store w') (ce_uuid E n) = None"
    using f w'(4) decide_none [OF good] by (simp add: w'(1) flight_def world_ok_def)
qed (simp_all add: w')

lemma flight_first_pending: "uses E \<Longrightarrow> flight E run w \<Longrightarrow> first_pending_approval E aids w = (r, w') \<Longrightarrow> flight E run w'"
proof (induction aids arbitrary: w)
  case (Cons aid aids)
  obtain row w1 where x: "read_approval E aid w = (row, w1)" by fastforce
  have f1: "flight E run w1" by (rule flight_read [OF Cons.prems(1,2) x])
  have "w' = w1 \<or> first_pending_approval E aids w1 = (r, w')"
    using Cons.prems(3) x by (auto split: option.splits if_splits)
  then show ?case using Cons.IH [OF Cons.prems(1) f1] f1 by blast
qed simp

lemma flight_approval_for: "uses E \<Longrightarrow> flight E run w \<Longrightarrow> approval_for_node E run nid w = (r, w') \<Longrightarrow> flight E run w'"
  by (auto simp: approval_for_node_def split: option.splits if_splits dest: flight_first_pending)

lemma flight_block: "flight E run w \<Longrightarrow> flight E (block_node target run) w"
proof (cases target)
  case (Some nid)
  assume f: "flight E run w"
  define run1 where "run1 = (if nid \<noteq> [] then run\<lparr>cr_blocked := mark nid (cr_blocked run)\<rparr> else run)\<lparr>cr_needs := remove1 nid (cr_needs run)\<rparr>"
  have f1: "flight E run1 w" by (rule flight_steps [OF f]) (simp_all add: run1_def)
  have "cr_steps run1 = cr_steps run" by (simp add: run1_def)
  show ?thesis
  proof (cases "\<exists>s. map_of (cr_steps run1) nid = Some s \<and> nid \<noteq> []")
    case True
    then obtain s where s: "map_of (cr_steps run1) nid = Some s" "nid \<noteq> []" by blast
    then have "flight E (put_step nid (s\<lparr>sr_status := NS_BLOCKED, sr_error := ''approval_rejected''\<rparr>) run1) w"
      by (intro flight_put [OF f1]) (simp add: step_of_def)
    with Some s show ?thesis by (simp add: block_node_def run1_def Let_def)
  next
    case False
    with Some f1 show ?thesis by (auto simp: block_node_def run1_def Let_def split: option.splits if_splits)
  qed
qed (simp add: block_node_def)

lemma drive_ok: "uses E \<Longrightarrow> flight E run w \<Longrightarrow> world_ok E (snd (drive E t run w))"
  using flight_drive [of E run w t] keeps_world by (metis prod.collapse)

lemma resume_ok:
  assumes u: "uses E" and f: "flight E run w"
  shows "world_ok E (snd (resume_approved E target run w))"
proof -
  define run1 where "run1 = (case target of None \<Rightarrow> run | Some nid \<Rightarrow> run\<lparr>cr_needs := remove1 nid (cr_needs run)\<rparr>)"
  have f1: "flight E run1 w" by (rule flight_steps [OF f]) (simp_all add: run1_def split: option.split)
  obtain run2 w2 where t: "transition CS_RUNNING (''approved:'' @ (case target of None \<Rightarrow> ''None'' | Some nid \<Rightarrow> nid)) (run1, w) = (run2, w2)"
    by fastforce
  have f2: "flight E run2 (save_run run2 w2)" using flight_transition [OF f1 t] flight_save by blast
  show ?thesis
    unfolding resume_approved_def run1_def [symmetric] Let_def t prod.case
    using f2 drive_ok [OF u f2] by (simp add: flight_def split: sum.split)
qed

lemma stall_ok:
  assumes u: "uses E" and f: "flight E run w"
  shows "world_ok E (snd (stall_rejected E target run w))"
proof -
  have "world_ok E (refresh_gauge E r (save_run r v))" if "settle_state m (block_node target run, w) = (r, v)" for m r v
  proof -
    have "flight E r (save_run r v)" using flight_settle [OF flight_block [OF f] that] flight_save by blast
    then have "flight E r (refresh_gauge E r (save_run r v))" unfolding refresh_gauge_def by (rule flight_gauge [OF u])
    then show ?thesis by (simp add: flight_def)
  qed
  with f show ?thesis by (simp add: stall_rejected_def flight_def split: sum.split prod.split)
qed

lemma approve_ok:
  assumes u: "uses E" and w: "world_ok E w"
  shows "world_ok E (snd (approve_node E cid node_id approval_id decision who w))"
proof (cases "get_run cid w")
  case None
  with w show ?thesis by (simp add: approve_node_def)
next
  case (Some run)
  note f = run_flight [OF w Some]
  obtain aid w1 where a: "(if opt_or approval_id None \<noteq> None then (approval_id, w) else approval_for_node E run node_id w) = (aid, w1)"
    by fastforce
  have f1: "flight E run w1" using f flight_approval_for [OF u f] a by (auto split: if_splits)
  show ?thesis
  proof (cases "opt_or aid None")
    case None
    with Some a f1 show ?thesis by (simp add: approve_node_def flight_def)
  next
    case aid: (Some i)
    define n where "n = cw_tick w1"
    obtain row s where d: "decide_approval (ce_load E) (ce_save E) (ce_clock E n) (ce_stamp E n) i decision who (cw_store w1) = (row, s)"
      by fastforce
    define w2 where "w2 = (tick w1)\<lparr>cw_store := s\<rparr>"
    have f2: "flight E run w2"
      by (rule flight_decide [OF f1, where now = "ce_clock E n" and stamp = "ce_stamp E n" and aid = i and decision = decision and who = who])
        (use d u in \<open>auto simp: w2_def tick_def uses_def\<close>)
    show ?thesis
      unfolding approve_node_def Some option.simps a aid Let_def prod.case n_def [symmetric] d w2_def [symmetric]
      using f2 resume_ok [OF u f2] stall_ok [OF u f2] by (simp add: flight_def split: option.split)
  qed
qed

lemma create_ok: "world_ok E w \<Longrightarrow> world_ok E (snd (create_campaign E inst t w))"
proof -
  assume w: "world_ok E w"
  have "world_ok E (lifecycle_event run CS_DRAFT CS_READY ''created'' (save_run run w))" if "cr_steps run = []" for run
  proof -
    have "flight E run w" using w that by (simp add: flight_def run_gated_def recorded_approval_def)
    from flight_save [OF this] have "flight E run (lifecycle_event run CS_DRAFT CS_READY ''created'' (save_run run w))"
      by (rule flight_frame) (simp_all add: lifecycle_event_def tick_def)
    then show ?thesis by (simp add: flight_def)
  qed
  with w show ?thesis by (simp add: create_campaign_def Let_def split: sum.split)
qed

lemma cancel_ok: "world_ok E w \<Longrightarrow> world_ok E (snd (cancel_campaign cid reason w))"
proof (cases "get_run cid w")
  case (Some run)
  assume w: "world_ok E w"
  obtain run1 w1 where t: "transition CS_CANCELLED reason (run, w) = (run1, w1)" by fastforce
  have "flight E run1 (save_run run1 w1)" using flight_transition [OF run_flight [OF w Some] t] flight_save by blast
  with Some t show ?thesis by (simp add: cancel_campaign_def flight_def)
qed (simp add: cancel_campaign_def)

lemma ingest_ok: "uses E \<Longrightarrow> world_ok E w \<Longrightarrow> world_ok E (snd (ingest_kpi E cid events w))"
proof (cases "get_run cid w")
  case (Some run)
  assume u: "uses E" and w: "world_ok E w"
  obtain changed run1 err where k: "apply_kpi_events (ce_to_float E) events [] run = (changed, run1, err)" by (metis prod.exhaust)
  have "flight E run1 w" by (rule flight_frame [OF run_flight [OF w Some] kpi_events_gates [OF k]]) simp_all
  then have "flight E run1 (refresh_gauge E run1 (save_run run1 w))"
    unfolding refresh_gauge_def by (intro flight_gauge [OF u] flight_save)
  with Some k w show ?thesis by (simp add: ingest_kpi_def flight_def split: option.split)
qed (simp add: ingest_kpi_def)

lemma step_ok: "uses E \<Longrightarrow> world_ok E w \<Longrightarrow> world_ok E (campaign_step E op w)"
proof (cases op)
  case (C_Decide aid decision who)
  assume u: "uses E" and w: "world_ok E w"
  define blank :: campaign_run where "blank = undefined\<lparr>cr_steps := []\<rparr>"
  have "flight E blank w" using w by (simp add: flight_def run_gated_def recorded_approval_def blank_def)
  from flight_decide [OF this, of "campaign_step E op w" "ce_clock E (cw_tick w)" "ce_stamp E (cw_tick w)" aid decision who]
  show ?thesis using u C_Decide by (simp add: flight_def uses_def tick_def)
qed (simp_all add: create_ok start_ok advance_ok approve_ok cancel_ok ingest_ok)

lemma steps_ok: "uses E \<Longrightarrow> world_ok E w \<Longrightarrow> world_ok E (campaign_steps E ops w)"
  unfolding campaign_steps_def by (induction ops arbitrary: w) (simp_all add: step_ok)

lemma high_risk_calls_approved:
  assumes "uses E" "good (cw_store w)" "cw_runs w = []" "cw_sent w = []" "\<forall>n \<ge> cw_tick w. look (cw_store w) (ce_uuid E n) = None"
    and "(c, node, payload) \<in> set (cw_sent (campaign_steps E ops w))" "is_high_risk (cn_type node)"
  shows "\<exists>aid row. look (cw_store (campaign_steps E ops w)) aid = Some row \<and> ap_status row = STATUS_APPROVED
     \<and> gate_row c (cn_id node) row"
proof -
  have "world_ok E w" using assms(2-5) by (simp add: world_ok_def)
  from steps_ok [OF assms(1) this] have "call_gated (cw_store (campaign_steps E ops w)) (c, node, payload)"
    using assms(6) by (simp add: world_ok_def)
  with assms(7) show ?thesis by (simp add: call_gated_def)
qed

end

section \<open>Properties\<close>

text \<open>C1: no public effect without a yes. Start from no runs and a queue that holds none of the ids still to be
  generated. After any sequence of campaign operations and operator decisions, with any gateway behaviour,
  templates and clocks, every call of a node of a high-risk type that was ever sent (its dispatches, retries
  and compensations) is backed by an approved row of the queue, made by the gate for that campaign and node.\<close>

theorem high_risk_effects_are_approved:
  assumes "h \<in> {all_up, file_only}" "ce_load E = load_all h" "ce_save E = save_row h"
    and "inj (ce_uuid E)" "\<forall>n. ce_uuid E n \<noteq> []"
    and "store_ok (cw_store w)" "cw_runs w = []" "cw_sent w = []"
    and "\<forall>n \<ge> cw_tick w. map_of (load_all h (cw_store w)) (ce_uuid E n) = None"
    and "(c, node, payload) \<in> set (cw_sent (campaign_steps E ops w))" "is_high_risk (cn_type node)"
  shows "\<exists>aid row. map_of (load_all h (cw_store (campaign_steps E ops w))) aid = Some row
     \<and> ap_status row = STATUS_APPROVED \<and> ap_kind row = APPROVAL_KIND
     \<and> json_get (ap_payload row) ''campaign_id'' = JStr c \<and> json_get (ap_payload row) ''node_id'' = JStr (cn_id node)"
proof -
  consider "h = all_up" | "h = file_only" using assms(1) by blast
  then show ?thesis
  proof cases
    case 1
    with assms(2-5) have "with_table.uses E" by (simp add: with_table.uses_def)
    from with_table.high_risk_calls_approved [OF this assms(6-8) _ assms(10,11)] 1 assms(9) show ?thesis
      by (auto simp: looks gate_row_def)
  next
    case 2
    with assms(2-5) have "on_file.uses E" by (simp add: on_file.uses_def)
    from on_file.high_risk_calls_approved [OF this assms(6-8) _ assms(10,11)] 2 assms(9) show ?thesis
      by (auto simp: looks gate_row_def)
  qed
qed

theorem high_risk_effects_are_approved_witness:
  "\<exists>ops aid row. map_of (load_all file_only (cw_store (campaign_steps demo_env ops demo_world))) aid = Some row
     \<and> ap_status row = STATUS_APPROVED \<and> json_get (ap_payload row) ''node_id'' = JStr ''b''"
proof -
  let ?ops = "[C_Create demo_instance (Some demo_template), C_Start ''c'', C_Approve ''c'' (Some ''b'') None ''approved'' ''op'']"
  obtain run w p where a: "approve_node demo_env ''c'' (Some ''b'') None ''approved'' ''op'' demo_w2 = (Inr run, w)"
    "cw_sent w = [(''c'', demo_b, p)]" using demo_completed by blast
  have sent: "(''c'', demo_b, p) \<in> set (cw_sent (campaign_steps demo_env ?ops demo_world))"
    by (simp add: campaign_steps_def demo_created demo_started a)
  have "inj (\<lambda>n. replicate (Suc n) (CHR ''u''))" by (rule injI) (metis length_replicate Suc_inject)
  then have "inj (ce_uuid demo_env)" by (simp add: demo_env_def)
  from high_risk_effects_are_approved [OF _ _ _ this _ _ _ _ _ sent, of file_only] demo_b_risk
  show ?thesis by (auto simp: demo_world_def store_ok_def intro!: exI [of _ ?ops])
qed

end
