(* ===== verification/Campaign_Drive.thy ===== *)
theory Campaign_Drive
  imports Campaign_Gates
begin

text \<open>
  What executing nodes does to a run, and the lifecycle: how a drive settles, the order in which nodes
  complete, how many calls a node can cause, and that an ungated campaign with a working gateway completes.
\<close>

section \<open>Shapes of the steps\<close>

text \<open>The parts of a run that dispatching and applying outputs never touch.\<close>

definition core :: "campaign_run \<Rightarrow> (string \<times> string \<times> string \<times> campaign_state) \<times> string list \<times> string list \<times> string list \<times> string list" where
  "core run = ((cr_campaign run, cr_client run, cr_template run, cr_state run),
     cr_completed run, cr_failed run, cr_blocked run, cr_needs run)"

lemma kpi_events_shape: "apply_kpi_events f evs changed run = (c, run', e) \<Longrightarrow> \<exists>k. run' = run\<lparr>cr_kpis := k\<rparr>"
proof (induction f evs changed run rule: apply_kpi_events.induct)
  case (1 f changed run)
  then show ?case by (auto intro: exI [of _ "cr_kpis run"])
next
  case (2 f raw evs changed run)
  show ?case
  proof (cases "\<exists>event key mode val. raw = JObj event \<and> normalize_event f event = Inr (key, mode, val)")
    case True
    then obtain event key mode val where r: "raw = JObj event" "normalize_event f event = Inr (key, mode, val)" by blast
    define nv where "nv = (if mode = ''set'' then val else dict_get (cr_kpis run) key 0 + val)"
    have "apply_kpi_events f evs (AList.update key nv changed) (run\<lparr>cr_kpis := AList.update key nv (cr_kpis run)\<rparr>) = (c, run', e)"
      using "2.prems" r by (simp add: nv_def Let_def)
    with "2.IH" [OF r refl refl nv_def] show ?thesis by auto
  next
    case False
    with "2.prems" have "run' = run" by (auto split: json.splits sum.splits)
    then show ?thesis by (auto intro: exI [of _ "cr_kpis run"])
  qed
qed

lemma core_update [simp]:
  "core (run\<lparr>cr_kpis := k\<rparr>) = core run" "core (run\<lparr>cr_artifacts := a\<rparr>) = core run" "core (run\<lparr>cr_context := c\<rparr>) = core run"
  "core (run\<lparr>cr_steps := s\<rparr>) = core run" "core (run\<lparr>cr_audit := i\<rparr>) = core run" "core (run\<lparr>cr_current := n\<rparr>) = core run"
  "core (run\<lparr>cr_approvals := ap\<rparr>) = core run" "core (put_step nid st run) = core run"
  by (simp_all add: core_def put_step_def)

lemma kpi_events_core: "apply_kpi_events f evs changed run = (c, run', e) \<Longrightarrow> core run' = core run"
  using kpi_events_shape by fastforce

lemma composite_core: "composite_dispatch E node payload run w = (r, run', w') \<Longrightarrow> core run' = core run"
  by (auto simp: composite_dispatch_def local_dispatch_def Let_def split: if_splits sum.splits prod.splits option.splits
      dest: kpi_events_core)

lemma artifacts_core: "add_artifacts E nid raws refs run w = (r, run', w') \<Longrightarrow> core run' = core run"
proof (induction raws arbitrary: refs run w)
  case (Cons raw raws)
  show ?case
  proof (cases "coerce_artifact (ce_uuid E (cw_tick w)) (ce_stamp E (cw_tick w)) raw nid")
    case (Inl e)
    with Cons.prems show ?thesis by auto
  next
    case (Inr a)
    with Cons.prems have "add_artifacts E nid raws (refs @ [af_id a]) (run\<lparr>cr_artifacts := cr_artifacts run @ [a]\<rparr>) (tick w) = (r, run', w')"
      by simp
    from Cons.IH [OF this] show ?thesis by simp
  qed
qed simp

lemma outputs_core: "apply_outputs E node result run w = (Inr refs, run', w') \<Longrightarrow> core run' = core run"
  by (auto simp: apply_outputs_def split: sum.splits prod.splits option.splits dest!: kpi_events_core artifacts_core)

section \<open>The outcome of one execution\<close>

text \<open>A node ends in exactly one bucket; the last argument is the core before.\<close>

datatype outcome = Blocked | Paused | Completed | Failed

fun outcome_core :: "outcome \<Rightarrow> string \<Rightarrow> campaign_run \<Rightarrow> (string \<times> string \<times> string \<times> campaign_state) \<times> string list \<times> string list \<times> string list \<times> string list" where
  "outcome_core Blocked nid run = (fst (core run), cr_completed run, cr_failed run, mark nid (cr_blocked run), cr_needs run)"
| "outcome_core Paused nid run = (fst (core run), cr_completed run, cr_failed run, cr_blocked run, mark nid (cr_needs run))"
| "outcome_core Completed nid run =
     (fst (core run), mark nid (cr_completed run), unmark nid (cr_failed run), unmark nid (cr_blocked run), unmark nid (cr_needs run))"
| "outcome_core Failed nid run =
     (fst (core run), cr_completed run, mark nid (cr_failed run), unmark nid (cr_blocked run), unmark nid (cr_needs run))"

lemma emit_shape: "emit_node_event E node status appr err (run, w) = (run', w') \<Longrightarrow>
    core run' = core run \<and> cw_runs w' = cw_runs w \<and> cw_sent w' = cw_sent w"
  by (auto simp: emit_node_event_def tick_def Let_def)

lemma attempts_shape:
  "dispatch_attempts left attempt E node payload err run w = (res, run', w') \<Longrightarrow>
     core run' = core run \<and> cw_runs w' = cw_runs w
     \<and> (\<exists>k \<le> left. (0 < left \<longrightarrow> 0 < k) \<and> cw_sent w' = cw_sent w @ replicate k (cr_campaign run, node, payload))"
proof (induction left arbitrary: attempt err run w)
  case 0
  then show ?case by auto
next
  case (Suc left)
  define run1 where "run1 = put_step (cn_id node) ((step_of run (cn_id node))\<lparr>sr_attempts := attempt\<rparr>) run"
  obtain r run2 w2 where d: "composite_dispatch E node payload run1 w = (r, run2, w2)" by (metis prod.exhaust)
  note post = composite_post [OF d]
  have c2: "core run2 = core run" using composite_core [OF d] by (simp add: run1_def)
  then have camp: "cr_campaign run2 = cr_campaign run" by (simp add: core_def)
  have sent: "cw_sent w2 = cw_sent w @ [(cr_campaign run, node, payload)]" using post(4) by (simp add: run1_def)
  show ?case
  proof (cases "\<exists>exc. r = Inl exc \<and> should_retry node exc \<and> \<not> int attempt \<ge> rp_max_attempts (cn_retry node)")
    case True
    then obtain exc where exc: "r = Inl exc" "should_retry node exc" "\<not> int attempt \<ge> rp_max_attempts (cn_retry node)" by blast
    with Suc.prems d have "dispatch_attempts left (Suc attempt) E node payload (fst exc @ '': '' @ snd exc) run2 w2 = (res, run', w')"
      by (simp add: run1_def Let_def)
    from Suc.IH [OF this] obtain k where k: "core run' = core run2" "cw_runs w' = cw_runs w2" "k \<le> left"
      "cw_sent w' = cw_sent w2 @ replicate k (cr_campaign run2, node, payload)" by blast
    then have "cw_sent w' = cw_sent w @ replicate (Suc k) (cr_campaign run, node, payload)" using sent camp by simp
    with k c2 post(3) show ?thesis by (metis Suc_le_mono zero_less_Suc)
  next
    case False
    with Suc.prems d have "run' = run2" "w' = w2"
      by (auto simp: run1_def Let_def split: sum.splits if_splits)
    moreover have "cw_sent w2 = cw_sent w @ replicate 1 (cr_campaign run, node, payload)" using sent by simp
    ultimately show ?thesis using c2 post(3) by (metis One_nat_def Suc_le_mono le0 zero_less_one)
  qed
qed

definition call_of :: "campaign_run \<Rightarrow> campaign_node \<Rightarrow> dispatch_call \<Rightarrow> bool" where
  "call_of run node = (\<lambda>(c, n, payload). c = cr_campaign run \<and> cn_id n = cn_id node)"

definition exec_post ::
  "campaign_node \<Rightarrow> campaign_run \<Rightarrow> 's campaign_world \<Rightarrow> (campaign_error + campaign_run) \<times> 's campaign_world \<Rightarrow> dispatch_call list \<Rightarrow> bool" where
  "exec_post node run w = (\<lambda>(res, w') calls.
     cw_runs w' = cw_runs w \<and> cw_sent w' = cw_sent w @ calls
     \<and> (\<forall>call \<in> set calls. call_of run node call) \<and> length calls \<le> nat (max 1 (rp_max_attempts (cn_retry node))) + 1
     \<and> (case res of
          Inl e \<Rightarrow> calls \<noteq> []
        | Inr run' \<Rightarrow> (\<exists>out. core run' = outcome_core out (cn_id node) run \<and> (calls = [] \<longleftrightarrow> out \<in> {Blocked, Paused}))))"

lemma compensate_shape:
  assumes "maybe_compensate E node (run, w) = (run', w')"
  shows "core run' = core run \<and> cw_runs w' = cw_runs w
     \<and> (\<exists>calls. cw_sent w' = cw_sent w @ calls \<and> length calls \<le> 1 \<and> (\<forall>call \<in> set calls. call_of run node call))"
proof (cases "\<exists>cap. cn_rollback node = RB_COMPENSATE \<and> cn_compensation node = Some cap \<and> cap \<noteq> []")
  case True
  then obtain cap where cap: "cn_rollback node = RB_COMPENSATE" "cn_compensation node = Some cap" "cap \<noteq> []" by blast
  obtain p where "snd (composite_dispatch E (node\<lparr>cn_capability := cap\<rparr>) p run w) = (run', w')"
    using assms cap by (auto simp: maybe_compensate_def)
  then obtain dr where d: "composite_dispatch E (node\<lparr>cn_capability := cap\<rparr>) p run w = (dr, run', w')"
    by (metis prod.collapse)
  from composite_core [OF d] composite_post [OF d] show ?thesis by (auto simp: call_of_def)
next
  case False
  with assms show ?thesis by (auto simp: maybe_compensate_def split: option.splits if_splits)
qed

lemma failure_shape:
  assumes "finish_failure E node appr err run w = (res, w')"
  shows "\<exists>run' calls. res = Inr run' \<and> cw_runs w' = cw_runs w \<and> cw_sent w' = cw_sent w @ calls \<and> length calls \<le> 1
     \<and> (\<forall>call \<in> set calls. call_of run node call)
     \<and> core run' = (fst (core run), cr_completed run, mark (cn_id node) (cr_failed run), cr_blocked run, cr_needs run)"
proof -
  define s where "s = (step_of run (cn_id node))\<lparr>sr_status := NS_FAILED, sr_error := py_or err ''dispatch_failed''\<rparr>"
  define run1 where "run1 = (put_step (cn_id node) s run)\<lparr>cr_failed := mark (cn_id node) (cr_failed run)\<rparr>"
  obtain run2 w2 where e: "emit_node_event E node ''failed'' appr (sr_error s) (run1, w) = (run2, w2)" by fastforce
  note f2 = emit_shape [OF e]
  obtain run3 w3 where m: "maybe_compensate E node (run2, w2) = (run3, w3)" by fastforce
  note f3 = compensate_shape [OF m]
  have res: "res = Inr run3" "w' = w3" using assms e m by (auto simp: finish_failure_def Let_def s_def run1_def)
  have c1: "core run1 = (fst (core run), cr_completed run, mark (cn_id node) (cr_failed run), cr_blocked run, cr_needs run)"
    by (simp add: run1_def core_def)
  have "call_of run2 node = call_of run node" using f2 c1 by (simp add: call_of_def core_def fun_eq_iff)
  with res f2 f3 c1 show ?thesis by auto
qed

lemma success_shape:
  assumes "finish_success E node appr result run w = (res, w')"
  shows "cw_runs w' = cw_runs w \<and> cw_sent w' = cw_sent w
     \<and> (\<forall>run'. res = Inr run' \<longrightarrow> core run' = (fst (core run), mark (cn_id node) (cr_completed run),
           unmark (cn_id node) (cr_failed run), cr_blocked run, cr_needs run))"
proof -
  obtain out run1 w1 where o: "apply_outputs E node result run w = (out, run1, w1)" by (metis prod.exhaust)
  note op = outputs_post [OF o]
  show ?thesis
  proof (cases out)
    case (Inl e)
    with assms o op show ?thesis by (auto simp: finish_success_def)
  next
    case (Inr refs)
    obtain arts kpis where refs: "refs = (arts, kpis)" by fastforce
    have c1: "core run1 = core run" using outputs_core o Inr by blast
    define s where "s = (step_of run1 (cn_id node))\<lparr>sr_status := NS_COMPLETED, sr_output_hash := hash_payload (JObj result),
                        sr_output_summary := summarize result, sr_error := [], sr_artifact_refs := arts, sr_kpi_refs := kpis\<rparr>"
    define run2 where "run2 = (put_step (cn_id node) s run1)\<lparr>cr_completed := mark (cn_id node) (cr_completed run1),
                        cr_failed := unmark (cn_id node) (cr_failed run1)\<rparr>"
    obtain run3 w3 where e: "emit_node_event E node ''completed'' appr [] (run2, w1) = (run3, w3)" by fastforce
    have "res = Inr run3" "w' = w3"
      using assms o Inr refs e by (auto simp: finish_success_def Let_def s_def run2_def)
    with emit_shape [OF e] c1 op show ?thesis by (auto simp: run2_def core_def)
  qed
qed

lemma run_dispatch_post:
  assumes "run_dispatch E node level run w = (res, w')"
  shows "\<exists>calls. exec_post node run w (res, w') calls \<and> calls \<noteq> [] \<and> fst (snd (hd calls)) = node"
proof -
  define nid where "nid = cn_id node"
  define run1 where "run1 = (put_step nid ((step_of run nid)\<lparr>sr_status := NS_RUNNING\<rparr>) run)
      \<lparr>cr_needs := unmark nid (cr_needs run), cr_blocked := unmark nid (cr_blocked run), cr_current := Some nid\<rparr>"
  define n where "n = nat (max 1 (rp_max_attempts (cn_retry node)))"
  define appr where "appr = (if level \<noteq> AL_NONE then ''approved'' else ''not_required'')"
  obtain out run2 w2 where d: "dispatch_attempts n 1 E node (resolve_inputs node run1) [] run1 w = (out, run2, w2)" by (metis prod.exhaust)
  have c1: "core run1 = (fst (core run), cr_completed run, cr_failed run, unmark nid (cr_blocked run), unmark nid (cr_needs run))"
    by (simp add: run1_def core_def)
  from attempts_shape [OF d] obtain k where k: "core run2 = core run1" "cw_runs w2 = cw_runs w" "k \<le> n" "0 < n \<longrightarrow> 0 < k"
    "cw_sent w2 = cw_sent w @ replicate k (cr_campaign run1, node, resolve_inputs node run1)" by blast
  define calls where "calls = replicate k (cr_campaign run1, node, resolve_inputs node run1)"
  have calls: "calls \<noteq> []" "fst (snd (hd calls)) = node" "\<forall>call \<in> set calls. call_of run node call" "length calls \<le> n"
    using k(3,4) by (auto simp: calls_def n_def call_of_def run1_def)
  have same: "call_of run2 node = call_of run node" using k(1) c1 by (simp add: call_of_def core_def fun_eq_iff)
  have r: "(res, w') = (case out of Inl err \<Rightarrow> finish_failure E node appr err run2 w2 | Inr result \<Rightarrow> finish_success E node appr result run2 w2)"
    using assms d unfolding run_dispatch_def Let_def nid_def run1_def n_def appr_def by (cases out) (auto split: if_splits)
  show ?thesis
  proof (cases out)
    case (Inl err)
    with r have f: "finish_failure E node appr err run2 w2 = (res, w')" by simp
    from failure_shape [OF f] obtain run' more where m: "res = Inr run'" "cw_runs w' = cw_runs w2" "cw_sent w' = cw_sent w2 @ more"
      "length more \<le> 1" "\<forall>call \<in> set more. call_of run2 node call"
      "core run' = (fst (core run2), cr_completed run2, mark (cn_id node) (cr_failed run2), cr_blocked run2, cr_needs run2)" by blast
    have "core run' = outcome_core Failed (cn_id node) run" using m(6) k(1) c1 by (simp add: core_def nid_def)
    then have out: "\<exists>out. core run' = outcome_core out (cn_id node) run \<and> (calls @ more = [] \<longleftrightarrow> out \<in> {Blocked, Paused})"
      using calls(1) by (intro exI [of _ Failed]) simp
    have "exec_post node run w (res, w') (calls @ more)"
      unfolding exec_post_def prod.case n_def [symmetric]
    proof (intro conjI)
      show "cw_runs w' = cw_runs w" using m(2) k(2) by simp
      show "cw_sent w' = cw_sent w @ calls @ more" using m(3) k(5) by (simp add: calls_def)
      show "\<forall>call \<in> set (calls @ more). call_of run node call" using m(5) calls(3) same by (simp add: ball_Un)
      show "length (calls @ more) \<le> n + 1" using m(4) calls(4) by simp
    qed (use m(1) out in simp)
    with calls show ?thesis by (intro exI [of _ "calls @ more"]) simp
  next
    case (Inr result)
    with r have f: "finish_success E node appr result run2 w2 = (res, w')" by simp
    note m = success_shape [OF f]
    have out: "core run' = outcome_core Completed (cn_id node) run" if "res = Inr run'" for run'
      using m that k(1) c1 by (simp add: core_def nid_def)
    have "exec_post node run w (res, w') calls"
      unfolding exec_post_def prod.case n_def [symmetric]
    proof (intro conjI)
      show "cw_runs w' = cw_runs w" using m k(2) by simp
      show "cw_sent w' = cw_sent w @ calls" using m k(5) by (simp add: calls_def)
      show "\<forall>call \<in> set calls. call_of run node call" "length calls \<le> n + 1" using calls(3,4) by simp_all
      show "case res of Inl e \<Rightarrow> calls \<noteq> []
          | Inr run' \<Rightarrow> \<exists>out. core run' = outcome_core out (cn_id node) run \<and> (calls = [] \<longleftrightarrow> out \<in> {Blocked, Paused})"
      proof (cases res)
        case (Inl e)
        with calls(1) show ?thesis by simp
      next
        case (Inr run')
        with out [OF Inr] calls(1) show ?thesis by (auto intro!: exI [of _ Completed])
      qed
    qed
    with calls show ?thesis by blast
  qed
qed

lemma ensure_shape:
  assumes "ensure E run node level w = ((aid, ok), w')"
  shows "cw_runs w' = cw_runs w \<and> cw_sent w' = cw_sent w"
  using assms by (auto simp: ensure_def check_approved_def tick_def Let_def split: if_splits prod.splits)

lemma execute_post:
  assumes "execute_node E node run w = (res, w')"
  shows "\<exists>calls. exec_post node run w (res, w') calls \<and> (calls \<noteq> [] \<longrightarrow> fst (snd (hd calls)) = node)"
proof -
  define run1 where "run1 = put_step (cn_id node) (step_of run (cn_id node)) run"
  have c1: "core run1 = core run" by (simp add: run1_def)
  define level where "level = resolve_level node (run_rules run1)"
  have same: "exec_post node r v x calls = exec_post node run w x calls"
    if "core r = core run" "cw_runs v = cw_runs w" "cw_sent v = cw_sent w" for r v x calls
  proof -
    have "call_of r node = call_of run node" using that(1) by (simp add: call_of_def core_def fun_eq_iff)
    moreover have "outcome_core out nid r = outcome_core out nid run" for out nid
      using that(1) by (cases out) (simp_all add: core_def)
    ultimately show ?thesis using that(2,3) by (cases x) (simp add: exec_post_def split: sum.split)
  qed
  consider (unsafe) "is_high_risk (cn_type node) \<and> cn_approval node = AL_NONE"
    | (free) "\<not> (is_high_risk (cn_type node) \<and> cn_approval node = AL_NONE)" "level = AL_NONE"
    | (gate) "\<not> (is_high_risk (cn_type node) \<and> cn_approval node = AL_NONE)" "level \<noteq> AL_NONE" by blast
  then show ?thesis
  proof cases
    case unsafe
    obtain run2 w2 where j: "reject_unsafe E node run1 w = (run2, w2)" by fastforce
    with assms unsafe have r: "res = Inr run2" "w' = w2" by (auto simp: execute_node_def run1_def Let_def)
    have "core run2 = outcome_core Blocked (cn_id node) run1 \<and> cw_runs w2 = cw_runs w \<and> cw_sent w2 = cw_sent w"
      using j by (auto simp: reject_unsafe_def Let_def core_def dest!: emit_shape)
    with r c1 have "exec_post node run1 w (res, w') []"
      by (auto simp: exec_post_def intro!: exI [of _ Blocked])
    with same [OF c1 refl refl] show ?thesis by blast
  next
    case free
    have "run_dispatch E node level run1 w = (res, w')"
      using assms free unfolding execute_node_def run1_def [symmetric] Let_def level_def [symmetric] by (simp del: de_Morgan_conj)
    from run_dispatch_post [OF this] same [OF c1 refl refl] show ?thesis by blast
  next
    case gate
    obtain aid ok w1 where e: "ensure E run1 node level w = ((aid, ok), w1)" by (metis prod.exhaust)
    let ?run2 = "record_approval (cn_id node) aid run1"
    have c2: "core ?run2 = core run" using c1 by (simp add: record_approval_def)
    note w1 = ensure_shape [OF e]
    show ?thesis
    proof (cases ok)
      case False
      obtain run3 w3 where p: "pause_for_approval E node level ?run2 w1 = (run3, w3)" by fastforce
      with assms gate e False have r: "res = Inr run3" "w' = w3" by (auto simp: execute_node_def run1_def level_def Let_def)
      have "core run3 = outcome_core Paused (cn_id node) ?run2 \<and> cw_runs w3 = cw_runs w1 \<and> cw_sent w3 = cw_sent w1"
        using p by (auto simp: pause_for_approval_def Let_def core_def dest!: emit_shape)
      with r have "exec_post node ?run2 w1 (res, w') []"
        by (auto simp: exec_post_def intro!: exI [of _ Paused])
      with same [OF c2] w1 show ?thesis by blast
    next
      case True
      then have "run_dispatch E node level ?run2 w1 = (res, w')"
        using assms gate e by (simp add: execute_node_def run1_def level_def Let_def)
      from run_dispatch_post [OF this] same [OF c2] w1 show ?thesis by blast
    qed
  qed
qed

section \<open>Nodes complete in the order of the edges\<close>

lemma new_graph_ends:
  assumes "new_graph t = Inr g"
  shows "\<forall>e \<in> set (ct_edges t). ce_from e \<in> set (node_ids t) \<and> ce_to e \<in> set (node_ids t)"
proof -
  let ?b = "map (\<lambda>nid. (nid, [])) (dict_keys (node_map t)) :: (string \<times> campaign_edge list) list"
  obtain out inc where a: "add_edges (ct_edges t) (?b, ?b) = Inr (out, inc)"
  proof (cases "add_edges (ct_edges t) (?b, ?b)")
    case (Inl e)
    with assms show thesis unfolding new_graph_def Let_def by simp
  next
    case (Inr r)
    with that show thesis by (cases r) simp
  qed
  have "\<forall>e \<in> set (ct_edges t). map_of ?b (ce_from e) \<noteq> None \<and> map_of ?b (ce_to e) \<noteq> None"
    using add_edges_spec [OF a] by blast
  then show ?thesis by (simp only: blank_lookup node_map_keys) (auto split: if_splits)
qed

lemmas built_graph = new_graph_wf [OF _ new_graph_ends]

lemma node_map_ids: "map_of (node_map t) nid = Some n \<Longrightarrow> cn_id n = nid"
proof -
  have gen: "(\<forall>n. map_of m nid = Some n \<longrightarrow> cn_id n = nid)
      \<Longrightarrow> \<forall>n. map_of (fold (\<lambda>n m. AList.update (cn_id n) n m) ns m) nid = Some n \<longrightarrow> cn_id n = nid" for ns :: "campaign_node list" and m
  proof (induction ns arbitrary: m)
    case (Cons a ns)
    have "\<forall>n. map_of (AList.update (cn_id a) a m) nid = Some n \<longrightarrow> cn_id n = nid"
      using Cons.prems by (cases "nid = cn_id a") (simp_all add: update_conv' del: map_of_eq_Some_iff)
    then show ?case unfolding fold_simps by (rule Cons.IH)
  qed simp
  assume "map_of (node_map t) nid = Some n"
  moreover have "\<forall>n. map_of (node_map t) nid = Some n \<longrightarrow> cn_id n = nid"
    unfolding node_map_def by (rule gen) (simp only: map_of.simps option.distinct not_False_eq_True simp_thms)
  ultimately show "cn_id n = nid" by blast
qed

definition in_order :: "campaign_edge list \<Rightarrow> campaign_run \<Rightarrow> bool" where
  "in_order es run \<longleftrightarrow> (\<forall>e \<in> set es. ce_to e \<in> set (cr_completed run) \<longrightarrow> ce_from e \<in> set (cr_completed run))"

lemma in_order_core: "core run' = core run \<Longrightarrow> in_order es run' = in_order es run"
  by (simp add: in_order_def core_def)

lemma outcome_completed:
  "core run' = outcome_core out nid run \<Longrightarrow> set (cr_completed run') = (if out = Completed then insert nid (set (cr_completed run)) else set (cr_completed run))"
  by (cases out) (simp_all add: core_def)

lemma outcome_head: "core run' = outcome_core out nid run \<Longrightarrow> fst (core run') = fst (core run)"
  by (cases out) (simp_all add: core_def)

text \<open>The stored runs of a world: each under its campaign, and ordered by the edges of its template.\<close>

definition runs_ok :: "'s campaign_env \<Rightarrow> 's campaign_world \<Rightarrow> bool" where
  "runs_ok E w \<longleftrightarrow> (\<forall>(c, run) \<in> set (cw_runs w). cr_campaign run = c
     \<and> (\<forall>t. ce_templates E (cr_template run) = Inr t \<longrightarrow> in_order (ct_edges t) run))"

definition run_ok :: "'s campaign_env \<Rightarrow> campaign_run \<Rightarrow> bool" where
  "run_ok E run \<longleftrightarrow> (\<forall>t. ce_templates E (cr_template run) = Inr t \<longrightarrow> in_order (ct_edges t) run)"

lemma run_ok_core: "core run' = core run \<Longrightarrow> run_ok E run' = run_ok E run"
  by (simp add: run_ok_def in_order_def core_def)

lemma runs_ok_save: "runs_ok E w \<Longrightarrow> run_ok E run \<Longrightarrow> runs_ok E (save_run run w)"
  by (auto simp: runs_ok_def run_ok_def save_run_def dest!: update_entry)

lemma runs_ok_same: "cw_runs w' = cw_runs w \<Longrightarrow> runs_ok E w' = runs_ok E w"
  by (simp add: runs_ok_def)

lemma execute_ready_order:
  assumes "execute_ready E (node_map t) ids run w = (res, w')" "runs_ok E w" "ce_templates E (cr_template run) = Inr t"
    and "\<forall>nid \<in> set ids. \<forall>e \<in> set (ct_edges t). ce_to e = nid \<longrightarrow> ce_from e \<in> set (cr_completed run)"
    and "in_order (ct_edges t) run"
  shows "runs_ok E w' \<and> (\<forall>run'. res = Inr run' \<longrightarrow> in_order (ct_edges t) run' \<and> fst (core run') = fst (core run)
           \<and> set (cr_completed run) \<subseteq> set (cr_completed run'))"
  using assms
proof (induction ids arbitrary: run w)
  case Nil
  then show ?case by auto
next
  case (Cons nid ids)
  show ?case
  proof (cases "map_of (node_map t) nid")
    case None
    with Cons.prems show ?thesis by auto
  next
    case (Some node)
    then have id: "cn_id node = nid" by (rule node_map_ids)
    obtain r1 w1 where x: "execute_node E node run w = (r1, w1)" by fastforce
    from execute_post [OF x] obtain calls where p: "exec_post node run w (r1, w1) calls" by blast
    then have w1: "runs_ok E w1" using Cons.prems(2) by (simp add: exec_post_def runs_ok_same [of w1 w])
    show ?thesis
    proof (cases r1)
      case (Inl e)
      with Cons.prems(1) Some x w1 show ?thesis by auto
    next
      case (Inr run1)
      with p obtain out where out: "core run1 = outcome_core out nid run" by (auto simp: exec_post_def id)
      note comp = outcome_completed [OF out] and head = outcome_head [OF out]
      have o1: "in_order (ct_edges t) run1" using Cons.prems(4,5) comp by (auto simp: in_order_def)
      have t1: "ce_templates E (cr_template run1) = Inr t" using Cons.prems(3) head by (simp add: core_def)
      have s1: "runs_ok E (save_run run1 w1)" using o1 t1 by (intro runs_ok_save [OF w1]) (simp add: run_ok_def)
      have "execute_ready E (node_map t) ids run1 (save_run run1 w1) = (res, w')" using Cons.prems(1) Some x Inr by simp
      moreover have "\<forall>nid \<in> set ids. \<forall>e \<in> set (ct_edges t). ce_to e = nid \<longrightarrow> ce_from e \<in> set (cr_completed run1)"
        using Cons.prems(4) comp by simp
      ultimately have "runs_ok E w' \<and> (\<forall>run'. res = Inr run' \<longrightarrow> in_order (ct_edges t) run' \<and> fst (core run') = fst (core run1)
           \<and> set (cr_completed run1) \<subseteq> set (cr_completed run'))"
        by (rule Cons.IH [OF _ s1 t1 _ o1])
      moreover have "set (cr_completed run) \<subseteq> set (cr_completed run1)" using comp by auto
      ultimately show ?thesis using head by auto
    qed
  qed
qed

lemma ready_preds:
  assumes "new_graph t = Inr g" "nid \<in> set (ready_now E g run)" "e \<in> set (ct_edges t)" "ce_to e = nid"
  shows "ce_from e \<in> set (cr_completed run)"
proof -
  note wf = built_graph [OF assms(1) assms(1)]
  have "nid \<in> graph_ids g" using assms(2) by (auto simp: ready_now_def ready_nodes_def graph_ids_def)
  then have "predecessors g nid = filter (\<lambda>e. ce_to e = nid) (ct_edges t)"
    using graph_wfD(2) [OF wf(1)] wf(3) by (simp add: predecessors_def)
  with assms(2-4) show ?thesis by (auto simp: ready_now_def ready_nodes_def filter_empty_conv)
qed

lemma passes_order:
  assumes g: "new_graph t = Inr g"
  shows "drive_passes n E g run w = (res, w') \<Longrightarrow> runs_ok E w \<Longrightarrow> ce_templates E (cr_template run) = Inr t \<Longrightarrow> in_order (ct_edges t) run
     \<Longrightarrow> runs_ok E w' \<and> (\<forall>run'. res = Inr run' \<longrightarrow> in_order (ct_edges t) run' \<and> fst (core run') = fst (core run))"
proof (induction n arbitrary: run w)
  case 0
  then show ?case by auto
next
  case (Suc n)
  show ?case
  proof (cases "ready_now E g run = []")
    case True
    with Suc.prems show ?thesis by auto
  next
    case False
    obtain r1 w1 where x: "execute_ready E (node_map t) (ready_now E g run) run w = (r1, w1)" by fastforce
    have nodes: "cg_nodes g = node_map t" by (rule built_graph(2) [OF g g])
    have preds: "\<forall>nid \<in> set (ready_now E g run). \<forall>e \<in> set (ct_edges t). ce_to e = nid \<longrightarrow> ce_from e \<in> set (cr_completed run)"
      using ready_preds [OF g] by blast
    note p = execute_ready_order [OF x Suc.prems(2,3) preds Suc.prems(4)]
    show ?thesis
    proof (cases r1)
      case (Inl e)
      with Suc.prems(1) False x nodes p show ?thesis by auto
    next
      case (Inr run1)
      with p have p1: "runs_ok E w1" "in_order (ct_edges t) run1" "fst (core run1) = fst (core run)" by auto
      show ?thesis
      proof (cases "length (cr_completed run1) = length (cr_completed run)")
        case True
        with Suc.prems(1) False x Inr p1 nodes show ?thesis by auto
      next
        case more: False
        with Suc.prems(1) False x Inr nodes have "drive_passes n E g run1 w1 = (res, w')" by simp
        moreover have "ce_templates E (cr_template run1) = Inr t" using p1(3) Suc.prems(3) by (simp add: core_def)
        ultimately show ?thesis using Suc.IH [OF _ p1(1) _ p1(2)] p1(3) by simp
      qed
    qed
  qed
qed

section \<open>How a drive settles\<close>

definition settled_state :: "nat \<Rightarrow> campaign_run \<Rightarrow> campaign_state" where
  "settled_state n run =
     (if n \<le> card (set (cr_completed run)) then CS_COMPLETED else if cr_failed run \<noteq> [] then CS_FAILED
      else if cr_blocked run \<noteq> [] then CS_BLOCKED else if cr_needs run \<noteq> [] then CS_NEEDS_APPROVAL else CS_PAUSED)"

lemma settle_shape:
  assumes "settle_state n (run, w) = (run', w')"
  shows "snd (core run') = snd (core run) \<and> cr_campaign run' = cr_campaign run \<and> cr_template run' = cr_template run
     \<and> cw_runs w' = cw_runs w \<and> cw_sent w' = cw_sent w
     \<and> (cr_state run \<noteq> CS_CANCELLED \<longrightarrow> cr_state run' = settled_state n run \<and> cr_current run' = None)"
  using assms by (auto simp: settle_state_def transition_def lifecycle_event_def tick_def settled_state_def core_def Let_def split: if_splits)

lemma transition_shape:
  "transition st reason (run, w) = (run', w') \<Longrightarrow> run' = run\<lparr>cr_state := st\<rparr> \<and> cw_runs w' = cw_runs w \<and> cw_sent w' = cw_sent w"
  by (auto simp: transition_def lifecycle_event_def tick_def)

lemma gauge_shape: "cw_runs (snd (pending_by_severity E aids buckets w)) = cw_runs w \<and> cw_sent (snd (pending_by_severity E aids buckets w)) = cw_sent w"
proof (induction aids arbitrary: buckets w)
  case (Cons aid aids)
  obtain row w1 where r: "read_approval E aid w = (row, w1)" by fastforce
  then have "cw_runs w1 = cw_runs w \<and> cw_sent w1 = cw_sent w" by (auto simp: read_approval_def tick_def split: prod.splits)
  with Cons.IH r show ?case by (simp add: Let_def split: option.splits)
qed simp

lemma refresh_shape [simp]: "cw_runs (refresh_gauge E run w) = cw_runs w" "cw_sent (refresh_gauge E run w) = cw_sent w"
  by (simp_all add: refresh_gauge_def gauge_shape)

lemma save_run_lookup: "map_of (cw_runs (save_run run w)) c = (if c = cr_campaign run then Some run else map_of (cw_runs w) c)"
  by (simp add: save_run_def map_of_update)

lemma drive_shape:
  assumes "drive E t run w = (Inr run', w')" "cr_state run \<noteq> CS_CANCELLED"
  shows "\<exists>g run1 w1. new_graph t = Inr g \<and> drive_passes (length (node_map t) + 1) E g run w = (Inr run1, w1)
     \<and> snd (core run') = snd (core run1) \<and> cr_campaign run' = cr_campaign run1
     \<and> (cr_state run1 = cr_state run \<longrightarrow> cr_state run' = settled_state (length (node_map t)) run' \<and> cr_current run' = None)
     \<and> get_run (cr_campaign run') w' = Some run' \<and> cw_sent w' = cw_sent w1"
proof -
  obtain g where g: "new_graph t = Inr g" using assms(1) by (cases "new_graph t") (auto simp: drive_def)
  obtain r1 w1 where p: "drive_passes (length (node_map t) + 1) E g run w = (r1, w1)" by fastforce
  obtain run1 where r1: "r1 = Inr run1" using assms(1) g p by (cases r1) (auto simp: drive_def)
  obtain run2 w2 where s: "settle_state (length (node_map t)) (run1, w1) = (run2, w2)" by fastforce
  note sh = settle_shape [OF s]
  have res: "run' = run2" "w' = refresh_gauge E run2 (save_run run2 w2)"
    using assms(1) g p r1 s by (auto simp: drive_def Let_def)
  have "settled_state (length (node_map t)) run2 = settled_state (length (node_map t)) run1"
    using sh by (simp add: settled_state_def core_def)
  then have st: "cr_state run1 = cr_state run \<longrightarrow> cr_state run' = settled_state (length (node_map t)) run' \<and> cr_current run' = None"
    using sh res(1) assms(2) by simp
  have get: "get_run (cr_campaign run') w' = Some run'" using res by (simp add: get_run_def save_run_lookup)
  have sent: "cw_sent w' = cw_sent w1" using res(2) sh by (simp add: save_run_def)
  have p1: "drive_passes (length (node_map t) + 1) E g run w = (Inr run1, w1)" using p r1 by simp
  show ?thesis using sh res(1) by (intro exI [of _ g] exI [of _ run1] exI [of _ w1] conjI g p1 st get sent) simp_all
qed

lemma drive_order:
  assumes "drive E t run w = (res, w')" "runs_ok E w" "ce_templates E (cr_template run) = Inr t" "in_order (ct_edges t) run"
  shows "runs_ok E w'"
proof (cases "new_graph t")
  case (Inl e)
  with assms show ?thesis by (auto simp: drive_def)
next
  case (Inr g)
  obtain r1 w1 where p: "drive_passes (length (node_map t) + 1) E g run w = (r1, w1)" by fastforce
  note q = passes_order [OF Inr p assms(2-4)]
  show ?thesis
  proof (cases r1)
    case (Inl e)
    with assms(1) Inr p q show ?thesis by (auto simp: drive_def)
  next
    case r1: (Inr run1)
    obtain run2 w2 where s: "settle_state (length (node_map t)) (run1, w1) = (run2, w2)" by fastforce
    note sh = settle_shape [OF s]
    have "run_ok E run2" using q r1 sh assms(3) by (auto simp: run_ok_def in_order_def core_def)
    moreover have "runs_ok E w2" using q sh by (simp add: runs_ok_same [of w2 w1])
    ultimately have "runs_ok E (save_run run2 w2)" by (intro runs_ok_save)
    moreover have "w' = refresh_gauge E run2 (save_run run2 w2)"
      using assms(1) Inr p r1 s by (auto simp: drive_def Let_def)
    ultimately show ?thesis by (simp add: runs_ok_same [of "refresh_gauge E run2 (save_run run2 w2)" "save_run run2 w2"])
  qed
qed

lemma stored_run_ok: "runs_ok E w \<Longrightarrow> get_run cid w = Some run \<Longrightarrow> run_ok E run \<and> cr_campaign run = cid"
  by (auto simp: runs_ok_def run_ok_def get_run_def dest!: map_of_SomeD)

text \<open>A drive that starts from a run with the completed nodes of a good one keeps the stored runs good.\<close>

lemma drive_keeps_order:
  assumes "runs_ok E w" "run_ok E run" "cr_completed run' = cr_completed run" "cr_template run' = cr_template run"
    "ce_templates E (cr_template run) = Inr t" "cw_runs w1 = cw_runs w"
  shows "runs_ok E (snd (drive E t run' w1))"
proof -
  have "in_order (ct_edges t) run'" using assms(2,3,5) by (simp add: run_ok_def in_order_def)
  moreover have "runs_ok E w1" using assms(1,6) by (simp add: runs_ok_same [of w1 w])
  ultimately show ?thesis using drive_order [of E t run' w1 "fst (drive E t run' w1)" "snd (drive E t run' w1)"] assms(4,5) by simp
qed

lemma reconcile_shape:
  "reconcile_approvals E ids run w = (run', w') \<Longrightarrow>
     cr_completed run' = cr_completed run \<and> cr_template run' = cr_template run \<and> cw_runs w' = cw_runs w \<and> cr_state run' = cr_state run"
proof (induction ids arbitrary: run w)
  case (Cons nid ids)
  show ?case
  proof (cases "map_of (cr_steps run) nid")
    case None
    with Cons show ?thesis by simp
  next
    case (Some step)
    obtain ok w1 where s: "is_satisfied E (sr_approval step) w = (ok, w1)" by fastforce
    then have "cw_runs w1 = cw_runs w"
      by (auto simp: is_satisfied_def check_approved_def tick_def split: option.splits if_splits prod.splits)
    with Cons.IH [of "if ok then run\<lparr>cr_needs := remove1 nid (cr_needs run)\<rparr> else run" w1] Cons.prems Some s show ?thesis
      by (simp split: if_splits)
  qed
qed simp

lemma first_pending_shape: "cw_runs (snd (first_pending_approval E aids w)) = cw_runs w"
proof (induction aids arbitrary: w)
  case (Cons aid aids)
  obtain row w1 where r: "read_approval E aid w = (row, w1)" by fastforce
  then have "cw_runs w1 = cw_runs w" by (auto simp: read_approval_def tick_def split: prod.splits)
  with Cons.IH r show ?case by (simp split: option.splits)
qed simp

lemma approval_for_shape: "cw_runs (snd (approval_for_node E run nid w)) = cw_runs w"
  by (simp add: approval_for_node_def first_pending_shape split: option.split)

lemma block_shape: "cr_completed (block_node target run) = cr_completed run \<and> cr_template (block_node target run) = cr_template run"
  by (auto simp: block_node_def Let_def split: option.split)

lemma start_order: "runs_ok E w \<Longrightarrow> runs_ok E (snd (start_campaign E cid w))"
proof (cases "get_run cid w")
  case (Some run)
  assume w: "runs_ok E w"
  note r = stored_run_ok [OF w Some]
  obtain run1 w1 where t: "transition CS_RUNNING ''started'' (run, w) = (run1, w1)" by fastforce
  note sh = transition_shape [OF t]
  have "runs_ok E (snd (drive E tm run1 w1))" if "ce_templates E (cr_template run) = Inr tm" for tm
    by (rule drive_keeps_order [OF w _ _ _ that]) (use r sh in simp_all)
  with Some t w show ?thesis by (simp add: start_campaign_def split: sum.split)
qed (simp add: start_campaign_def)

lemma advance_order: "runs_ok E w \<Longrightarrow> runs_ok E (snd (advance_campaign E cid w))"
proof (cases "get_run cid w")
  case (Some run)
  assume w: "runs_ok E w"
  note r = stored_run_ok [OF w Some]
  obtain run1 w1 where c: "reconcile_approvals E (cr_needs run) run w = (run1, w1)" by fastforce
  note sh1 = reconcile_shape [OF c]
  obtain run2 w2 where t: "(if cr_state run1 \<noteq> CS_RUNNING then transition CS_RUNNING ''advanced'' (run1, w1) else (run1, w1)) = (run2, w2)"
    by fastforce
  have sh2: "cr_completed run2 = cr_completed run \<and> cr_template run2 = cr_template run \<and> cw_runs w2 = cw_runs w"
    using t sh1 by (auto split: if_splits dest!: transition_shape)
  have "runs_ok E (snd (drive E tm run2 w2))" if "ce_templates E (cr_template run) = Inr tm" for tm
    by (rule drive_keeps_order [OF w _ _ _ that]) (use r sh2 in simp_all)
  with Some c t w show ?thesis by (simp add: advance_campaign_def Let_def split: sum.split)
qed (simp add: advance_campaign_def)

lemma resume_order:
  assumes w: "runs_ok E w" and r: "run_ok E run"
  shows "runs_ok E (snd (resume_approved E target run w))"
proof -
  define run1 where "run1 = (case target of None \<Rightarrow> run | Some nid \<Rightarrow> run\<lparr>cr_needs := remove1 nid (cr_needs run)\<rparr>)"
  have c1: "cr_completed run1 = cr_completed run" "cr_template run1 = cr_template run" by (simp_all add: run1_def split: option.split)
  obtain run2 w2 where t: "transition CS_RUNNING (''approved:'' @ (case target of None \<Rightarrow> ''None'' | Some nid \<Rightarrow> nid)) (run1, w) = (run2, w2)"
    by fastforce
  note sh = transition_shape [OF t]
  have r2: "run_ok E run2" using r c1 sh by (simp add: run_ok_def in_order_def)
  have "runs_ok E w2" using w sh by (simp add: runs_ok_same [of w2 w])
  then have s2: "runs_ok E (save_run run2 w2)" using r2 by (rule runs_ok_save)
  have "runs_ok E (snd (drive E tm run2 (save_run run2 w2)))" if "ce_templates E (cr_template run2) = Inr tm" for tm
    by (rule drive_keeps_order [OF s2 r2 _ _ that]) simp_all
  then show ?thesis
    unfolding resume_approved_def run1_def [symmetric] Let_def t prod.case using s2 by (simp split: sum.split)
qed

lemma stall_order:
  assumes w: "runs_ok E w" and r: "run_ok E run"
  shows "runs_ok E (snd (stall_rejected E target run w))"
proof -
  have "runs_ok E (refresh_gauge E r' (save_run r' v))" if "settle_state m (block_node target run, w) = (r', v)" for m r' v
  proof -
    note sh = settle_shape [OF that]
    have "run_ok E r'" using r sh block_shape [of target run] by (simp add: run_ok_def in_order_def core_def)
    moreover have "runs_ok E v" using w sh by (simp add: runs_ok_same [of v w])
    ultimately have "runs_ok E (save_run r' v)" by (intro runs_ok_save)
    then show ?thesis by (simp add: runs_ok_same [of "refresh_gauge E r' (save_run r' v)" "save_run r' v"])
  qed
  with w show ?thesis by (simp add: stall_rejected_def split: sum.split prod.split)
qed

lemma approve_order: "runs_ok E w \<Longrightarrow> runs_ok E (snd (approve_node E cid node_id approval_id decision who w))"
proof (cases "get_run cid w")
  case (Some run)
  assume w: "runs_ok E w"
  note r = stored_run_ok [OF w Some]
  obtain aid w1 where a: "(if opt_or approval_id None \<noteq> None then (approval_id, w) else approval_for_node E run node_id w) = (aid, w1)"
    by fastforce
  have "cw_runs w1 = cw_runs w" using a approval_for_shape [of E run node_id w] by (auto split: if_splits)
  then have ok1: "runs_ok E w1" using w by (simp add: runs_ok_same [of w1 w])
  show ?thesis
  proof (cases "opt_or aid None")
    case None
    with Some a ok1 show ?thesis by (simp add: approve_node_def)
  next
    case aid: (Some i)
    define n where "n = cw_tick w1"
    obtain row s where d: "decide_approval (ce_load E) (ce_save E) (ce_clock E n) (ce_stamp E n) i decision who (cw_store w1) = (row, s)"
      by fastforce
    define w2 where "w2 = (tick w1)\<lparr>cw_store := s\<rparr>"
    have ok2: "runs_ok E w2" using ok1 by (simp add: w2_def tick_def runs_ok_def)
    show ?thesis
      unfolding approve_node_def Some option.simps a aid Let_def prod.case n_def [symmetric] d w2_def [symmetric]
      using ok2 r resume_order [OF ok2] stall_order [OF ok2] by (simp split: option.split)
  qed
qed (simp add: approve_node_def)

lemma step_order: "runs_ok E w \<Longrightarrow> runs_ok E (campaign_step E op w)"
proof (cases op)
  case (C_Create inst t)
  assume w: "runs_ok E w"
  have "runs_ok E (lifecycle_event run CS_DRAFT CS_READY ''created'' (save_run run w))" if "cr_completed run = []" for run
  proof -
    have "runs_ok E (save_run run w)" using that by (intro runs_ok_save [OF w]) (simp add: run_ok_def in_order_def)
    then show ?thesis by (simp add: lifecycle_event_def tick_def runs_ok_def)
  qed
  with w C_Create show ?thesis by (simp add: create_campaign_def Let_def split: sum.split)
next
  case (C_Cancel cid reason)
  assume w: "runs_ok E w"
  show ?thesis
  proof (cases "get_run cid w")
    case (Some run)
    obtain run1 w1 where t: "transition CS_CANCELLED reason (run, w) = (run1, w1)" by fastforce
    note sh = transition_shape [OF t]
    have "run_ok E run1" using stored_run_ok [OF w Some] sh by (simp add: run_ok_def in_order_def)
    moreover have "runs_ok E w1" using w sh by (simp add: runs_ok_same [of w1 w])
    ultimately have "runs_ok E (save_run run1 w1)" by (intro runs_ok_save)
    with C_Cancel Some t show ?thesis by (simp add: cancel_campaign_def)
  qed (use C_Cancel w in \<open>simp add: cancel_campaign_def\<close>)
next
  case (C_Ingest cid events)
  assume w: "runs_ok E w"
  show ?thesis
  proof (cases "get_run cid w")
    case (Some run)
    obtain changed run1 err where k: "apply_kpi_events (ce_to_float E) events [] run = (changed, run1, err)" by (metis prod.exhaust)
    have "run_ok E run1" using stored_run_ok [OF w Some] run_ok_core [OF kpi_events_core [OF k]] by blast
    then have "runs_ok E (save_run run1 w)" by (rule runs_ok_save [OF w])
    then have "runs_ok E (refresh_gauge E run1 (save_run run1 w))"
      by (simp add: runs_ok_same [of "refresh_gauge E run1 (save_run run1 w)" "save_run run1 w"])
    with C_Ingest Some k w show ?thesis by (simp add: ingest_kpi_def split: option.split)
  qed (use C_Ingest w in \<open>simp add: ingest_kpi_def\<close>)
next
  case (C_Decide aid decision who)
  assume "runs_ok E w"
  with C_Decide show ?thesis by (simp add: runs_ok_def tick_def)
qed (simp_all add: start_order advance_order approve_order)

lemma steps_order: "runs_ok E w \<Longrightarrow> runs_ok E (campaign_steps E ops w)"
  unfolding campaign_steps_def by (induction ops arbitrary: w) (simp_all add: step_order)

end
