(* ===== verification/Campaign_Life.thy ===== *)
theory Campaign_Life imports Campaign_Drive begin

section \<open>How a drive ends\<close>

lemma execute_ready_core:
  "execute_ready E nodes ids run w = (Inr run', w') \<Longrightarrow> fst (core run') = fst (core run)"
proof (induction ids arbitrary: run w)
  case (Cons nid ids)
  obtain node where n: "map_of nodes nid = Some node" using Cons.prems by (auto split: option.splits)
  obtain r1 w1 where x: "execute_node E node run w = (r1, w1)" by fastforce
  obtain run1 where r1: "r1 = Inr run1" using Cons.prems n x by (cases r1) auto
  from execute_post [OF x] r1 obtain out where "core run1 = outcome_core out (cn_id node) run" by (auto simp: exec_post_def)
  then have h: "fst (core run1) = fst (core run)" by (rule outcome_head)
  have "execute_ready E nodes ids run1 (save_run run1 w1) = (Inr run', w')" using Cons.prems n x r1 by simp
  from Cons.IH [OF this] h show ?case by simp
qed simp

lemma passes_core: "drive_passes n E g run w = (Inr run', w') \<Longrightarrow> fst (core run') = fst (core run)"
proof (induction n arbitrary: run w)
  case (Suc n)
  show ?case
  proof (cases "ready_now E g run = []")
    case True
    with Suc.prems show ?thesis by simp
  next
    case False
    obtain r1 w1 where x: "execute_ready E (cg_nodes g) (ready_now E g run) run w = (r1, w1)" by fastforce
    obtain run1 where r1: "r1 = Inr run1" using Suc.prems False x by (cases r1) auto
    have h: "fst (core run1) = fst (core run)" using execute_ready_core x r1 by blast
    show ?thesis
    proof (cases "length (cr_completed run1) = length (cr_completed run)")
      case True
      with Suc.prems False x r1 h show ?thesis by simp
    next
      case more: False
      with Suc.prems False x r1 have "drive_passes n E g run1 w1 = (Inr run', w')" by simp
      from Suc.IH [OF this] h show ?thesis by simp
    qed
  qed
qed simp

lemma drive_settles:
  assumes "drive E t run w = (Inr run', w')" "cr_state run \<noteq> CS_CANCELLED"
  shows "cr_state run' = settled_state (length (node_map t)) run' \<and> cr_current run' = None
     \<and> cr_campaign run' = cr_campaign run \<and> get_run (cr_campaign run) w' = Some run'"
proof -
  from drive_shape [OF assms] obtain g run1 w1 where d: "drive_passes (length (node_map t) + 1) E g run w = (Inr run1, w1)"
    "cr_campaign run' = cr_campaign run1" "cr_state run1 = cr_state run \<longrightarrow> cr_state run' = settled_state (length (node_map t)) run' \<and> cr_current run' = None"
    "get_run (cr_campaign run') w' = Some run'" by blast
  from passes_core [OF d(1)] have "cr_campaign run1 = cr_campaign run" "cr_state run1 = cr_state run" by (simp_all add: core_def)
  with d show ?thesis by simp
qed

lemma settled_not_cancelled: "settled_state n run \<noteq> CS_CANCELLED"
  by (simp add: settled_state_def)

section \<open>Completion\<close>

text \<open>A node that needs nobody's approval and goes to a peer, and a gateway that answers every call.\<close>

definition open_node :: "vertical_rules option \<Rightarrow> campaign_node \<Rightarrow> bool" where
  "open_node rules n \<longleftrightarrow> \<not> is_high_risk (cn_type n) \<and> resolve_level n rules = AL_NONE \<and> cn_target n \<noteq> LOCAL_WORKCELL
     \<and> cn_output_mapping n = []"

definition clean_result :: "(string \<times> json) list \<Rightarrow> bool" where
  "clean_result kvs \<longleftrightarrow> \<not> json_truthy (dict_get kvs ''artifacts'' (JList [])) \<and> \<not> json_truthy (json_get kvs ''kpis'')"

definition gateway_up :: "'s campaign_env \<Rightarrow> bool" where
  "gateway_up E \<longleftrightarrow> ce_gateway_url E \<notin> {None, Some []} \<and> ce_hmac_ready E
     \<and> (\<forall>i u p b. \<exists>status text kvs. ce_post E i u p b = Inr (status, text, Some (JObj kvs)) \<and> status < 400 \<and> clean_result kvs)"

lemma gateway_up_dispatch:
  assumes "gateway_up E"
  shows "\<exists>kvs. gateway_dispatch E node payload run n = Inr kvs \<and> clean_result kvs"
proof -
  obtain url where url: "ce_gateway_url E = Some url" "url \<noteq> []" using assms by (auto simp: gateway_up_def)
  define env where "env = JObj
     [(''task_id'', JStr (cr_campaign run @ '':'' @ cn_id node @ '':'' @ take 8 (ce_uuid E n))), (''payload'', JObj payload),
      (''metadata'', JObj [(''action'', JStr (cn_capability node)), (''campaign_id'', JStr (cr_campaign run)),
         (''client_id'', JStr (cr_client run)), (''node_id'', JStr (cn_id node)), (''node_type'', JStr (cn_type node))])]"
  obtain status msg kvs where post: "ce_post E n url (''/dispatch/'' @ cn_target node) env = Inr (status, msg, Some (JObj kvs))"
    "status < 400" "clean_result kvs" using assms unfolding gateway_up_def by blast
  then show ?thesis using assms url unfolding gateway_dispatch_def gateway_up_def Let_def by (simp add: env_def)
qed

lemma clean_outputs:
  assumes "clean_result kvs" "cn_output_mapping node = []"
  shows "apply_outputs E node kvs run w = (Inr ([], []), run, w)"
  using assms by (simp add: apply_outputs_def clean_result_def json_or_def kpi_events_def)

lemma open_node_completes:
  assumes "open_node (run_rules run) node" "gateway_up E"
  shows "\<exists>run' w'. execute_node E node run w = (Inr run', w') \<and> core run' = outcome_core Completed (cn_id node) run
     \<and> cr_context run' = cr_context run"
proof -
  define nid where "nid = cn_id node"
  define run1 where "run1 = put_step nid (step_of run nid) run"
  define run2 where "run2 = (put_step nid ((step_of run1 nid)\<lparr>sr_status := NS_RUNNING\<rparr>) run1)
      \<lparr>cr_needs := unmark nid (cr_needs run1), cr_blocked := unmark nid (cr_blocked run1), cr_current := Some nid\<rparr>"
  define run3 where "run3 = put_step nid ((step_of run2 nid)\<lparr>sr_attempts := 1\<rparr>) run2"
  define payload where "payload = resolve_inputs node run2"
  obtain kvs where kvs: "gateway_dispatch E node payload run3 (cw_tick w) = Inr kvs" "clean_result kvs"
    using gateway_up_dispatch [OF assms(2)] by blast
  define w1 where "w1 = (tick w)\<lparr>cw_sent := cw_sent w @ [(cr_campaign run3, node, payload)]\<rparr>"
  have c: "composite_dispatch E node payload run3 w = (Inr kvs, run3, w1)"
    using assms(1) kvs(1) by (simp add: composite_dispatch_def open_node_def w1_def Let_def)
  have n: "nat (max 1 (rp_max_attempts (cn_retry node))) = Suc (nat (max 1 (rp_max_attempts (cn_retry node))) - 1)" by simp
  have d: "dispatch_attempts (nat (max 1 (rp_max_attempts (cn_retry node)))) 1 E node payload [] run2 w = (Inr kvs, run3, w1)"
    by (subst n) (simp only: dispatch_attempts.simps Let_def c nid_def [symmetric] run3_def [symmetric] prod.case sum.case)
  have rules: "run_rules run1 = run_rules run" by (simp add: run_rules_def run1_def)
  have x: "execute_node E node run w = finish_success E node ''not_required'' kvs run3 w1"
    using assms(1) d unfolding open_node_def execute_node_def Let_def nid_def [symmetric] run1_def [symmetric] rules
    by (simp add: run_dispatch_def Let_def nid_def [symmetric] run2_def [symmetric] payload_def)
  define s where "s = (step_of run3 nid)\<lparr>sr_status := NS_COMPLETED, sr_output_hash := hash_payload (JObj kvs),
                        sr_output_summary := summarize kvs, sr_error := [], sr_artifact_refs := [], sr_kpi_refs := []\<rparr>"
  define run4 where "run4 = (put_step nid s run3)\<lparr>cr_completed := mark nid (cr_completed run3), cr_failed := unmark nid (cr_failed run3)\<rparr>"
  obtain run5 w2 where e: "emit_node_event E node ''completed'' ''not_required'' [] (run4, w1) = (run5, w2)" by fastforce
  have "finish_success E node ''not_required'' kvs run3 w1 = (Inr run5, w2)"
    using clean_outputs [OF kvs(2), of node E run3 w1] assms(1) e
    by (simp add: finish_success_def open_node_def s_def run4_def nid_def Let_def)
  moreover have "core run5 = outcome_core Completed nid run"
    using emit_shape [OF e] by (simp add: run4_def run3_def run2_def run1_def core_def)
  moreover have "cr_context run5 = cr_context run"
    using e by (auto simp: emit_node_event_def Let_def run4_def run3_def run2_def run1_def)
  ultimately show ?thesis using x by (simp add: nid_def)
qed

text \<open>Buckets empty and the context as it was: what the passes over open nodes keep.\<close>

definition smooth :: "(string \<times> json) list \<Rightarrow> campaign_run \<Rightarrow> bool" where
  "smooth ctx run \<longleftrightarrow> cr_failed run = [] \<and> cr_blocked run = [] \<and> cr_needs run = [] \<and> cr_context run = ctx"

lemma open_ready:
  assumes nodes: "\<forall>nid \<in> set ids. \<exists>n. map_of nodes nid = Some n \<and> cn_id n = nid \<and> open_node (rules_of_json (json_get ctx ''vertical_rules'')) n"
    and up: "gateway_up E"
  shows "smooth ctx run \<Longrightarrow> \<exists>run' w'. execute_ready E nodes ids run w = (Inr run', w') \<and> smooth ctx run'
     \<and> cr_completed run' = fold mark ids (cr_completed run) \<and> fst (core run') = fst (core run)"
  using nodes
proof (induction ids arbitrary: run w)
  case Nil
  then show ?case by simp
next
  case (Cons nid ids)
  then obtain n where n: "map_of nodes nid = Some n" "cn_id n = nid" "open_node (rules_of_json (json_get ctx ''vertical_rules'')) n" by auto
  have "run_rules run = rules_of_json (json_get ctx ''vertical_rules'')" using Cons.prems(1) by (simp add: run_rules_def smooth_def)
  then obtain run1 w1 where x: "execute_node E n run w = (Inr run1, w1)" "core run1 = outcome_core Completed nid run" "cr_context run1 = cr_context run"
    using open_node_completes [of run n E w] n up by auto
  have s1: "smooth ctx run1" "cr_completed run1 = mark nid (cr_completed run)" "fst (core run1) = fst (core run)"
    using x(2,3) Cons.prems(1) by (auto simp: smooth_def core_def unmark_def)
  from Cons.IH [OF s1(1)] Cons.prems(2) obtain run' w' where
    "execute_ready E nodes ids run1 (save_run run1 w1) = (Inr run', w')" "smooth ctx run'"
    "cr_completed run' = fold mark ids (cr_completed run1)" "fst (core run') = fst (core run1)" by (metis list.set_intros(2))
  with n x s1 show ?case by simp
qed

lemma fold_mark: "\<exists>more. fold mark ids xs = xs @ more \<and> set (fold mark ids xs) = set xs \<union> set ids"
proof (induction ids arbitrary: xs)
  case (Cons a ids)
  from Cons.IH [of "mark a xs"] show ?case by (auto simp: mark_def)
qed simp

lemma some_ready:
  assumes g: "new_graph t = Inr g" and un: "\<forall>e \<in> set (ct_edges t). ce_condition e = None" and sm: "smooth ctx run"
    and rest: "graph_ids g - set (cr_completed run) \<noteq> {}"
  shows "\<exists>nid. nid \<in> set (ready_now E g run)"
proof -
  note wf = built_graph [OF g g]
  have ac: "acyclic (edge_rel (ct_edges t))"
  proof -
    obtain g' where g': "graph_wf g'" "cg_edges g' = ct_edges t" "new_graph t = (case graph_order g' of Inl e \<Rightarrow> Inl e | Inr order \<Rightarrow> Inr g')"
      using new_graph_cases [OF new_graph_ends [OF g]] by blast
    then obtain order where "graph_order g' = Inr order" using g by (cases "graph_order g'") simp_all
    with graph_order_spec [OF g'(1)] g'(2) show ?thesis by simp
  qed
  obtain x where x: "x \<in> graph_ids g - set (cr_completed run)" "\<forall>y. (y, x) \<in> edge_rel (ct_edges t) \<longrightarrow> y \<notin> graph_ids g - set (cr_completed run)"
    using stuck_not_acyclic [of "graph_ids g - set (cr_completed run)" "ct_edges t"] rest ac by auto
  have preds: "predecessors g x = filter (\<lambda>e. ce_to e = x) (ct_edges t)"
    using graph_wfD(2) [OF wf(1)] x(1) wf(3) by (simp add: predecessors_def)
  have "ce_from e \<in> set (cr_completed run)" if "e \<in> set (ct_edges t)" "ce_to e = x" for e
  proof -
    have "(ce_from e, x) \<in> edge_rel (ct_edges t)" using that by (auto simp: edge_rel_def)
    moreover have "ce_from e \<in> graph_ids g" using wf(1,3) that by (simp add: graph_wf_def)
    ultimately show ?thesis using x(2) by blast
  qed
  then have "x \<in> set (ready_now E g run)"
    using x(1) sm un preds by (auto simp: ready_now_def ready_nodes_def graph_ids_def smooth_def evaluate_condition_def)
  then show ?thesis by blast
qed

lemma open_passes:
  assumes g: "new_graph t = Inr g" and un: "\<forall>e \<in> set (ct_edges t). ce_condition e = None" and up: "gateway_up E"
    and nodes: "\<forall>(nid, n) \<in> set (node_map t). open_node (rules_of_json (json_get ctx ''vertical_rules'')) n"
  shows "smooth ctx run \<Longrightarrow> card (graph_ids g - set (cr_completed run)) < n \<Longrightarrow>
     \<exists>run' w'. drive_passes n E g run w = (Inr run', w') \<and> smooth ctx run' \<and> graph_ids g \<subseteq> set (cr_completed run')"
proof (induction n arbitrary: run w)
  case (Suc n)
  note wf = built_graph [OF g g]
  show ?case
  proof (cases "graph_ids g - set (cr_completed run) = {}")
    case True
    then have "ready_now E g run = []" by (auto simp: ready_now_def ready_nodes_def graph_ids_def filter_empty_conv)
    with True Suc.prems(1) show ?thesis by auto
  next
    case False
    then obtain nid where nid: "nid \<in> set (ready_now E g run)" using some_ready [OF g un Suc.prems(1)] by blast
    have rdy: "set (ready_now E g run) \<subseteq> graph_ids g - set (cr_completed run)"
      by (auto simp: ready_now_def ready_nodes_def graph_ids_def)
    have "\<forall>nid \<in> set (ready_now E g run). \<exists>n. map_of (node_map t) nid = Some n \<and> cn_id n = nid
        \<and> open_node (rules_of_json (json_get ctx ''vertical_rules'')) n"
    proof
      fix k
      assume "k \<in> set (ready_now E g run)"
      then have "k \<in> set (dict_keys (node_map t))" using wf(2) by (auto simp: ready_now_def ready_nodes_def)
      then obtain m where m: "map_of (node_map t) k = Some m" by (metis map_of_eq_None_iff not_None_eq list.set_map)
      then have "(k, m) \<in> set (node_map t)" by (rule map_of_SomeD)
      with m nodes node_map_ids [OF m] show "\<exists>n. map_of (node_map t) k = Some n \<and> cn_id n = k
        \<and> open_node (rules_of_json (json_get ctx ''vertical_rules'')) n" by auto
    qed
    from open_ready [OF this up Suc.prems(1), of w] obtain run1 w1 where x:
      "execute_ready E (node_map t) (ready_now E g run) run w = (Inr run1, w1)" "smooth ctx run1"
      "cr_completed run1 = fold mark (ready_now E g run) (cr_completed run)" by blast
    from fold_mark [of "ready_now E g run" "cr_completed run"] x(3) obtain more where
      m: "cr_completed run1 = cr_completed run @ more" "set (cr_completed run1) = set (cr_completed run) \<union> set (ready_now E g run)" by auto
    have new: "nid \<in> set (cr_completed run1)" "nid \<notin> set (cr_completed run)" "nid \<in> graph_ids g" using nid rdy m(2) by auto
    then have "length (cr_completed run1) \<noteq> length (cr_completed run)" using m(1) by auto
    moreover have "graph_ids g - set (cr_completed run1) \<subset> graph_ids g - set (cr_completed run)" using new m(2) by auto
    then have "card (graph_ids g - set (cr_completed run1)) < card (graph_ids g - set (cr_completed run))"
      by (intro psubset_card_mono) simp_all
    with Suc.prems(2) have "card (graph_ids g - set (cr_completed run1)) < n" by simp
    from Suc.IH [OF x(2) this, of w1] obtain run' w' where "drive_passes n E g run1 w1 = (Inr run', w')" "smooth ctx run'"
      "graph_ids g \<subseteq> set (cr_completed run')" by blast
    moreover have "ready_now E g run \<noteq> []" using nid by auto
    ultimately show ?thesis using x(1) wf(2) by simp
  qed
qed simp

lemma open_campaign_completes:
  assumes run: "get_run cid w = Some run" "cr_campaign run = cid" "cr_state run = CS_READY"
    "cr_failed run = []" "cr_blocked run = []" "cr_needs run = []"
    and t: "ce_templates E (cr_template run) = Inr t" "new_graph t = Inr g"
    and un: "\<forall>e \<in> set (ct_edges t). ce_condition e = None"
    and nodes: "\<forall>n \<in> set (ct_nodes t). open_node (run_rules run) n"
    and up: "gateway_up E"
  shows "\<exists>run' w'. start_campaign E cid w = (Inr run', w') \<and> cr_state run' = CS_COMPLETED
     \<and> set (node_ids t) \<subseteq> set (cr_completed run') \<and> get_run cid w' = Some run' \<and> cr_template run' = cr_template run"
proof -
  obtain run1 w1 where tr: "transition CS_RUNNING ''started'' (run, w) = (run1, w1)" by fastforce
  note sh = transition_shape [OF tr]
  have wf: "graph_wf g" "cg_nodes g = node_map t" "cg_edges g = ct_edges t" by (rule built_graph [OF t(2) t(2)])+
  have ids: "graph_ids g = set (node_ids t)" "card (graph_ids g) = length (node_map t)"
    using node_map_keys(1) [of t] distinct_card [OF node_map_keys(2) [of t]] wf(2) by (simp_all only: graph_ids_def length_map)
  have entries: "n \<in> set (ct_nodes t)" if "(nid, n) \<in> set (node_map t)" for nid n
  proof -
    have "set (fold (\<lambda>n m. AList.update (cn_id n) n m) ns m) \<subseteq> set m \<union> (\<lambda>n. (cn_id n, n)) ` set ns"
      for ns :: "campaign_node list" and m
    proof (induction ns arbitrary: m)
      case (Cons a ns)
      have "set (AList.update (cn_id a) a m) \<subseteq> insert (cn_id a, a) (set m)" by (auto dest: update_entry)
      with Cons.IH [of "AList.update (cn_id a) a m"] show ?case by auto
    qed simp
    from this [of "ct_nodes t" "[]"] that show ?thesis by (auto simp: node_map_def)
  qed
  have "smooth (cr_context run) run1" using run sh by (simp add: smooth_def)
  moreover have "\<forall>(nid, n) \<in> set (node_map t). open_node (rules_of_json (json_get (cr_context run) ''vertical_rules'')) n"
    using nodes entries by (auto simp: run_rules_def)
  moreover have "card (graph_ids g - set (cr_completed run1)) < length (node_map t) + 1"
    using card_mono [of "graph_ids g" "graph_ids g - set (cr_completed run1)"] ids(2) by simp
  ultimately obtain run2 w2 where p: "drive_passes (length (node_map t) + 1) E g run1 w1 = (Inr run2, w2)"
    "graph_ids g \<subseteq> set (cr_completed run2)" using open_passes [OF t(2) un up] by blast
  obtain run3 w3 where s: "settle_state (length (node_map t)) (run2, w2) = (run3, w3)" by fastforce
  have dr: "drive E t run1 w1 = (Inr run3, refresh_gauge E run3 (save_run run3 w3))"
    using t(2) p(1) s by (simp add: drive_def Let_def)
  have nc: "cr_state run1 \<noteq> CS_CANCELLED" using sh by simp
  note ds = drive_settles [OF dr nc]
  have comp3: "set (cr_completed run3) = set (cr_completed run2)" using settle_shape [OF s] by (simp add: core_def)
  have "length (node_map t) \<le> card (set (cr_completed run3))"
    using card_mono [of "set (cr_completed run3)" "graph_ids g"] p(2) ids(2) comp3 by simp
  then have "cr_state run3 = CS_COMPLETED" using ds by (simp add: settled_state_def)
  moreover have "start_campaign E cid w = (Inr run3, refresh_gauge E run3 (save_run run3 w3))"
    using run t(1) tr dr by (simp add: start_campaign_def)
  moreover have "cr_template run3 = cr_template run"
    using settle_shape [OF s] passes_core [OF p(1)] sh by (simp add: core_def)
  ultimately show ?thesis using ds p(2) ids(1) comp3 sh run(2) by auto
qed

section \<open>A chain of two open nodes\<close>

text \<open>The second example of the witnesses: audits \<open>a\<close> then \<open>b\<close> at a peer, with a gateway that answers.\<close>

definition chain_node :: "string \<Rightarrow> campaign_node" where
  "chain_node nid = (demo_node nid ''seo_audit'' AL_NONE)\<lparr>cn_target := ''seo''\<rparr>"

definition chain_edge :: campaign_edge where
  "chain_edge = \<lparr>ce_from = ''a'', ce_to = ''b'', ce_condition = None\<rparr>"

definition chain_template :: campaign_template where
  "chain_template = demo_template\<lparr>ct_nodes := [chain_node ''a'', chain_node ''b''], ct_edges := [chain_edge]\<rparr>"

definition chain_env :: "approval_store campaign_env" where
  "chain_env = demo_env\<lparr>ce_gateway_url := Some ''http'', ce_hmac_ready := True,
     ce_post := (\<lambda>i u p b. Inr (200, [], Some (JObj [(''status'', JStr ''ok'')]))), ce_templates := (\<lambda>i. Inr chain_template)\<rparr>"

definition chain_graph :: campaign_graph where
  "chain_graph = \<lparr>cg_nodes = [(''a'', chain_node ''a''), (''b'', chain_node ''b'')], cg_edges = [chain_edge],
     cg_incoming = [(''a'', []), (''b'', [chain_edge])], cg_outgoing = [(''a'', [chain_edge]), (''b'', [])]\<rparr>"

lemma chain_new_graph: "new_graph chain_template = Inr chain_graph"
  by (simp add: new_graph_def node_map_def chain_template_def demo_template_def chain_node_def demo_node_def chain_graph_def chain_edge_def
      graph_order_def relax_edge_def dict_get_def Let_def)

lemma chain_created: "create_campaign chain_env demo_instance (Some chain_template) demo_world = (Inr demo_run, demo_w1)"
  by (simp add: create_campaign_def chain_new_graph demo_w1_def demo_run_def save_run_def lifecycle_event_def tick_def json_get_def
      dict_merge_def kpi_json_def Let_def)
    (simp add: chain_template_def demo_defs)

lemma chain_types: "is_high_risk ''seo_audit'' = False" "spec_for ''seo_audit'' = type_spec False SEV_INFO AL_NONE"
  by (simp_all add: is_high_risk_def spec_for_def NODE_TYPE_SPECS_def type_spec_def)

lemma chain_node_fields [simp]: "cn_type (chain_node i) = ''seo_audit''" "cn_approval (chain_node i) = AL_NONE" "cn_id (chain_node i) = i"
  "cn_target (chain_node i) = ''seo''" "cn_output_mapping (chain_node i) = []" "cn_capability (chain_node i) = ''update_kpis''"
  by (simp_all add: chain_node_def demo_node_def)

lemma chain_level: "rules = None \<or> vr_approval_overrides (the rules) = [] \<Longrightarrow> resolve_level (chain_node i) rules = AL_NONE"
  by (auto simp: resolve_level_def chain_types type_spec_def max_level_def split: option.split)

lemma chain_up: "gateway_up chain_env"
  by (simp add: gateway_up_def chain_env_def clean_result_def dict_get_def json_get_def)

lemma chain_open: "open_node (run_rules demo_run) (chain_node i)"
  by (simp add: open_node_def chain_types chain_level demo_rules LOCAL_WORKCELL_def)

lemma chain_ready:
  "get_run ''c'' demo_w1 = Some demo_run" "ce_templates chain_env (cr_template demo_run) = Inr chain_template"
  "\<forall>e \<in> set (ct_edges chain_template). ce_condition e = None" "\<forall>n \<in> set (ct_nodes chain_template). open_node (run_rules demo_run) n"
  by (simp_all add: demo_w1_def get_run_def chain_env_def chain_template_def chain_edge_def chain_open)

lemma chain_started: "\<exists>run' w'. start_campaign chain_env ''c'' demo_w1 = (Inr run', w') \<and> set (node_ids chain_template) \<subseteq> set (cr_completed run')
     \<and> get_run ''c'' w' = Some run'"
  using open_campaign_completes [OF chain_ready(1) _ _ _ _ _ chain_ready(2) chain_new_graph chain_ready(3,4) chain_up] by auto

section \<open>Properties\<close>

text \<open>C13: stages complete in the order of the edges. After any sequence of operations from a world without runs, a
  completed node of a stored run has all its predecessors, in the template the run names, completed too.\<close>

theorem nodes_complete_in_order:
  assumes "cw_runs w = []"
    and "get_run c (campaign_steps E ops w) = Some run" "ce_templates E (cr_template run) = Inr t"
    and "e \<in> set (ct_edges t)" "ce_to e \<in> set (cr_completed run)"
  shows "ce_from e \<in> set (cr_completed run)"
proof -
  have "runs_ok E (campaign_steps E ops w)" by (rule steps_order) (simp add: runs_ok_def assms(1))
  from stored_run_ok [OF this assms(2)] assms(3-5) show ?thesis by (simp add: run_ok_def in_order_def)
qed

theorem nodes_complete_in_order_witness:
  "\<exists>run. get_run ''c'' (campaign_steps chain_env [C_Create demo_instance (Some chain_template), C_Start ''c''] demo_world) = Some run
     \<and> ''b'' \<in> set (cr_completed run) \<and> ce_from chain_edge \<in> set (cr_completed run)"
proof -
  let ?w = "campaign_steps chain_env [C_Create demo_instance (Some chain_template), C_Start ''c''] demo_world"
  obtain run' w' where r: "start_campaign chain_env ''c'' demo_w1 = (Inr run', w')" "set (node_ids chain_template) \<subseteq> set (cr_completed run')"
    "get_run ''c'' w' = Some run'" using chain_started by blast
  have w: "?w = w'" by (simp add: campaign_steps_def chain_created r(1))
  have t: "ce_templates chain_env (cr_template run') = Inr chain_template" by (simp add: chain_env_def)
  have e: "chain_edge \<in> set (ct_edges chain_template)" by (simp add: chain_template_def)
  have b: "''b'' \<in> set (cr_completed run')" using r(2) by (simp add: node_ids_def chain_template_def)
  then have c: "ce_to chain_edge \<in> set (cr_completed run')" by (simp add: chain_edge_def)
  have "cw_runs demo_world = []" by (simp add: demo_world_def)
  from nodes_complete_in_order [OF this _ t e c, of "''c''"] r(3) w b show ?thesis by auto
qed

text \<open>starting a campaign leaves it settled and stored. Unless the run was completed or cancelled (then it is
  returned as it is), a start that returns ends with no current node in the state its node lists call for:
  completed when every node of the template is, else failed, blocked, awaiting approval or paused, in this
  order; and the store holds exactly the run returned.\<close>

theorem start_settles:
  assumes "get_run cid w = Some run" "cr_campaign run = cid" "start_campaign E cid w = (Inr run', w')"
  shows "if cr_state run \<in> {CS_COMPLETED, CS_CANCELLED} then run' = run \<and> w' = w
     else \<exists>t. ce_templates E (cr_template run) = Inr t \<and> cr_state run' = settled_state (length (node_map t)) run'
            \<and> cr_current run' = None \<and> get_run cid w' = Some run'"
proof (cases "cr_state run \<in> {CS_COMPLETED, CS_CANCELLED}")
  case True
  with assms show ?thesis by (auto simp: start_campaign_def)
next
  case False
  obtain run1 w1 where tr: "transition CS_RUNNING ''started'' (run, w) = (run1, w1)" by fastforce
  note sh = transition_shape [OF tr]
  obtain t where t: "ce_templates E (cr_template run) = Inr t" "drive E t run1 w1 = (Inr run', w')"
    using assms False tr by (auto simp: start_campaign_def split: sum.splits)
  from drive_settles [OF t(2)] sh assms(2) t(1) False show ?thesis by auto
qed

theorem start_settles_witness: "cr_state demo_paused = settled_state (length (node_map demo_template)) demo_paused"
  using start_settles [OF _ _ demo_started, of demo_run] by (simp add: demo_w1_def get_run_def)

lemma decided_approved:
  "decide_approval load save now stamp i decision who s = (Some row, s') \<Longrightarrow> decision_status decision = Some st \<Longrightarrow> ap_status row = st"
  by (auto simp: decide_approval_def Let_def split: option.splits prod.splits if_splits)

text \<open>C36: An approval brings a cancelled campaign back. Nothing in approve_node looks at the state of the run: when it
  returns a run for an approving decision, that run, whatever its state was, has been set to running and driven by
  its template, and is stored in the state that a drive settles in (completed, failed, blocked, needing approval or
  paused, by its nodes); a campaign that was cancelled is cancelled no more.\<close>

theorem approval_resumes_cancelled_campaign:
  assumes "get_run cid w = Some run" "cr_campaign run = cid"
    and "decision_status decision = Some STATUS_APPROVED"
    and "approve_node E cid node_id approval_id decision who w = (Inr run', w')"
  shows "(\<exists>t run1 w1. ce_templates E (cr_template run) = Inr t \<and> cr_campaign run1 = cid \<and> cr_state run1 = CS_RUNNING
        \<and> drive E t run1 w1 = (Inr run', w') \<and> cr_state run' = settled_state (length (node_map t)) run')
    \<and> cr_state run' \<noteq> CS_CANCELLED \<and> get_run cid w' = Some run'"
proof -
  obtain aid w1 where a: "(if opt_or approval_id None \<noteq> None then (approval_id, w) else approval_for_node E run node_id w) = (aid, w1)"
    by fastforce
  obtain i where i: "opt_or aid None = Some i" using assms(1,4) a by (cases "opt_or aid None") (auto simp: approve_node_def)
  define n where "n = cw_tick w1"
  obtain row s where d: "decide_approval (ce_load E) (ce_save E) (ce_clock E n) (ce_stamp E n) i decision who (cw_store w1) = (row, s)"
    by fastforce
  define w2 where "w2 = (tick w1)\<lparr>cw_store := s\<rparr>"
  have eq: "approve_node E cid node_id approval_id decision who w = (case row of None \<Rightarrow> (Inl ApprovalNotDecided, w2)
      | Some row \<Rightarrow> (let target = opt_or node_id (str_of_json (json_get (ap_payload row) ''node_id''))
                        in if ap_status row = STATUS_APPROVED then resume_approved E target run w2
                           else stall_rejected E target run w2))"
    unfolding approve_node_def assms(1) option.simps a i Let_def prod.case n_def [symmetric] d w2_def [symmetric] by simp
  obtain r where r: "row = Some r" using assms(4) eq by (cases row) auto
  have "ap_status r = STATUS_APPROVED" by (rule decided_approved [OF d [unfolded r] assms(3)])
  then obtain target where res: "resume_approved E target run w2 = (Inr run', w')" using assms(4) eq r by (auto simp: Let_def)
  define run1 where "run1 = (case target of None \<Rightarrow> run | Some nid \<Rightarrow> run\<lparr>cr_needs := remove1 nid (cr_needs run)\<rparr>)"
  obtain run2 w3 where t: "transition CS_RUNNING (''approved:'' @ (case target of None \<Rightarrow> ''None'' | Some nid \<Rightarrow> nid)) (run1, w2) = (run2, w3)"
    by fastforce
  note sh = transition_shape [OF t]
  obtain tm where dr: "drive E tm run2 (save_run run2 w3) = (Inr run', w')" "ce_templates E (cr_template run2) = Inr tm"
    using res unfolding resume_approved_def run1_def [symmetric] Let_def t prod.case by (auto split: sum.splits)
  have run2: "cr_campaign run2 = cid" "cr_template run2 = cr_template run" "cr_state run2 = CS_RUNNING"
    using sh assms(2) by (simp_all add: run1_def split: option.split)
  then have "cr_state run2 \<noteq> CS_CANCELLED" by simp
  from drive_settles [OF dr(1) this] dr run2 settled_not_cancelled show ?thesis by metis
qed

theorem approval_resumes_cancelled_campaign_witness:
  "\<exists>run w run' w'. cancel_campaign ''c'' ''stop'' demo_w2 = (Inr run, w) \<and> cr_state run = CS_CANCELLED
     \<and> approve_node demo_env ''c'' (Some ''b'') None ''approved'' ''op'' w = (Inr run', w') \<and> cr_state run' \<noteq> CS_CANCELLED
     \<and> length (cw_sent w') = 1"
proof -
  define run where "run = demo_paused\<lparr>cr_state := CS_CANCELLED\<rparr>"
  obtain w where c: "cancel_campaign ''c'' ''stop'' demo_w2 = (Inr run, w)" "get_run ''c'' w = Some run" "cw_store w = cw_store demo_w2"
    "cw_tick w = 7" "cw_sent w = []"
    by (simp add: cancel_campaign_def get_run_def transition_def lifecycle_event_def tick_def save_run_def demo_w2_def run_def)
  obtain run' w' p where a: "approve_node demo_env ''c'' (Some ''b'') None ''approved'' ''op'' w = (Inr run', w')"
    "cw_sent w' = [(''c'', demo_b, p)]"
    using demo_approved [of w CS_CANCELLED] c by (auto simp: run_def demo_w2_def)
  from approval_resumes_cancelled_campaign [OF c(2) _ demo_decision a(1)] c(1) a show ?thesis by (auto simp: run_def)
qed

text \<open>an execution can only raise after its effect. When executing a node raises (its result does not
  validate), the call of the node has been sent, and the stored runs are what they were: nothing records that
  the node ran, so the next drive calls it again.\<close>

theorem raising_node_has_taken_effect:
  assumes "execute_node E node run w = (Inl e, w')"
  shows "cw_runs w' = cw_runs w \<and> (\<exists>payload more. cw_sent w' = cw_sent w @ (cr_campaign run, node, payload) # more)"
proof -
  from execute_post [OF assms] obtain calls where c: "exec_post node run w (Inl e, w') calls" "calls \<noteq> [] \<longrightarrow> fst (snd (hd calls)) = node"
    by blast
  then obtain c0 n0 p0 more where calls: "calls = (c0, n0, p0) # more" by (cases calls) (auto simp: exec_post_def)
  with c show ?thesis by (auto simp: exec_post_def call_of_def)
qed

definition truncated_env :: "approval_store campaign_env" where
  "truncated_env = chain_env\<lparr>ce_post := (\<lambda>i u p b. Inr (200, [], Some (JObj [(''artifacts'', JBool True)])))\<rparr>"

lemma truncated_call: "composite_dispatch truncated_env (chain_node ''a'') payload run w =
   (Inr [(''artifacts'', JBool True)], run, (tick w)\<lparr>cw_sent := cw_sent w @ [(cr_campaign run, chain_node ''a'', payload)]\<rparr>)"
  by (simp add: composite_dispatch_def gateway_dispatch_def truncated_env_def chain_env_def LOCAL_WORKCELL_def Let_def)

lemma truncated_run: "\<exists>e w'. execute_node truncated_env (chain_node ''a'') demo_run w = (Inl e, w')"
proof -
  have l: "resolve_level (chain_node ''a'') None = AL_NONE" by (simp add: chain_level)
  have n: "nat (max 1 (rp_max_attempts (cn_retry (chain_node ''a'')))) = Suc 0" by (simp add: chain_node_def demo_node_def)
  show ?thesis
    unfolding execute_node_def run_dispatch_def n dispatch_attempts.simps Let_def truncated_call
    by (simp add: chain_types demo_rules l finish_success_def apply_outputs_def json_or_def dict_get_def)
qed

theorem raising_node_has_taken_effect_witness:
  "\<exists>e w payload more. execute_node truncated_env (chain_node ''a'') demo_run demo_w1 = (Inl e, w)
     \<and> cw_sent w = (''c'', chain_node ''a'', payload) # more"
proof -
  obtain e w where x: "execute_node truncated_env (chain_node ''a'') demo_run demo_w1 = (Inl e, w)" using truncated_run by blast
  have s: "cw_sent demo_w1 = []" "cr_campaign demo_run = ''c''" by (simp_all add: demo_w1_def demo_world_def demo_run_def)
  from raising_node_has_taken_effect [OF x] x show ?thesis by (auto simp: s)
qed

text \<open>bounded effects. One execution of a node sends at most as many calls as its retry policy allows attempts,
  and one compensation, all of them for this campaign and node; and a node that ends blocked or waiting for
  approval has sent none.\<close>

theorem execution_sends_bounded_calls:
  assumes "execute_node E node run w = (Inr run', w')"
  shows "\<exists>calls. cw_sent w' = cw_sent w @ calls
     \<and> length calls \<le> nat (max 1 (rp_max_attempts (cn_retry node))) + 1
     \<and> (\<forall>(c, n, payload) \<in> set calls. c = cr_campaign run \<and> cn_id n = cn_id node)
     \<and> (cn_id node \<notin> set (cr_completed run') \<union> set (cr_failed run') \<longrightarrow> calls = [])"
proof -
  from execute_post [OF assms] obtain calls out where c: "exec_post node run w (Inr run', w') calls"
    "core run' = outcome_core out (cn_id node) run" "calls = [] \<longleftrightarrow> out \<in> {Blocked, Paused}" by (auto simp: exec_post_def)
  have "calls = []" if "cn_id node \<notin> set (cr_completed run') \<union> set (cr_failed run')"
    using that c(2,3) by (cases out) (auto simp: core_def)
  with c(1) show ?thesis by (auto simp: exec_post_def call_of_def intro!: exI [of _ calls])
qed

theorem execution_sends_bounded_calls_witness:
  "\<exists>run' w' calls. execute_node chain_env (chain_node ''a'') demo_run demo_w1 = (Inr run', w') \<and> cw_sent w' = calls \<and> length calls \<le> 2"
proof -
  obtain run' w' where x: "execute_node chain_env (chain_node ''a'') demo_run demo_w1 = (Inr run', w')"
    using open_node_completes [OF chain_open chain_up] by blast
  from execution_sends_bounded_calls [OF x] x show ?thesis
    by (auto simp: chain_node_def demo_node_def demo_retry_def demo_w1_def demo_world_def)
qed

text \<open>a capability the vertical forbids runs all the same. For a node type whose gate resolves to none, the
  executor calls the node whatever forbidden_capabilities and max_auto_severity say.\<close>

theorem forbidden_capability_is_dispatched:
  assumes "run_rules run = Some rules" "cn_capability node \<in> set (vr_forbidden_capabilities rules)"
    and "\<not> is_high_risk (cn_type node)" "resolve_level node (Some rules) = AL_NONE"
    and "execute_node E node run w = (res, w')"
  shows "\<exists>payload more. cw_sent w' = cw_sent w @ (cr_campaign run, node, payload) # more"
proof -
  have "run_rules (put_step (cn_id node) (step_of run (cn_id node)) run) = Some rules" using assms(1) by (simp add: run_rules_def)
  then have d: "run_dispatch E node AL_NONE (put_step (cn_id node) (step_of run (cn_id node)) run) w = (res, w')"
    using assms(3-5) by (simp add: execute_node_def Let_def)
  from run_dispatch_post [OF d] obtain calls where c:
    "exec_post node (put_step (cn_id node) (step_of run (cn_id node)) run) w (res, w') calls" "calls \<noteq> []" "fst (snd (hd calls)) = node" by blast
  then obtain c0 p0 more where "calls = (c0, node, p0) # more" by (cases calls) auto
  with c(1) show ?thesis by (auto simp: exec_post_def call_of_def)
qed

theorem forbidden_capability_is_dispatched_witness:
  "\<exists>rules run res w' payload. run_rules run = Some rules \<and> ''update_kpis'' \<in> set (vr_forbidden_capabilities rules)
     \<and> execute_node chain_env (chain_node ''a'') run demo_w1 = (res, w') \<and> (''c'', chain_node ''a'', payload) \<in> set (cw_sent w')"
proof -
  define rules where "rules = \<lparr>vr_vertical = ''v'', vr_approval_overrides = [], vr_forbidden_capabilities = [''update_kpis''],
     vr_max_auto_severity = SEV_INFO, vr_extra = []\<rparr>"
  define run where "run = demo_run\<lparr>cr_context := [(''vertical_rules'', rules_to_json rules)]\<rparr>"
  have r: "run_rules run = Some rules" by (simp add: run_rules_def run_def json_get_def rules_round_trip)
  obtain res w' where x: "execute_node chain_env (chain_node ''a'') run demo_w1 = (res, w')" by fastforce
  have f: "''update_kpis'' \<in> set (vr_forbidden_capabilities rules)" by (simp add: rules_def)
  obtain p more where "cw_sent w' = cw_sent demo_w1 @ (''c'', chain_node ''a'', p) # more"
    using forbidden_capability_is_dispatched [OF r _ _ _ x] chain_level [of "Some rules" "''a''"] f by (auto simp: chain_types rules_def run_def demo_run_def)
  then have "(''c'', chain_node ''a'', p) \<in> set (cw_sent w')" by simp
  with r f x show ?thesis by blast
qed

text \<open>C14: An open campaign runs to completion. A ready run without failed, blocked or waiting nodes, of an acyclic template whose
  edges are unconditional and whose nodes go to a peer, are not of a high-risk type, need nobody's approval and map no
  outputs, with a gateway that is set up and answers every call with a status below 400 and an object without artifacts
  and without KPIs, is completed by one start, all its nodes with it.\<close>

theorem ungated_campaign_completes:
  assumes "get_run cid w = Some run" "cr_campaign run = cid" "cr_state run = CS_READY"
    "cr_failed run = []" "cr_blocked run = []" "cr_needs run = []"
    and "ce_templates E (cr_template run) = Inr t" "new_graph t = Inr g"
    and "\<forall>e \<in> set (ct_edges t). ce_condition e = None"
    and "\<forall>n \<in> set (ct_nodes t). open_node (run_rules run) n"
    and "gateway_up E"
  shows "\<exists>run' w'. start_campaign E cid w = (Inr run', w') \<and> cr_state run' = CS_COMPLETED
     \<and> set (node_ids t) \<subseteq> set (cr_completed run')"
  using open_campaign_completes [OF assms] by blast

theorem ungated_campaign_completes_witness:
  "\<exists>run w. start_campaign chain_env ''c'' demo_w1 = (Inr run, w) \<and> cr_state run = CS_COMPLETED \<and> {''a'', ''b''} \<subseteq> set (cr_completed run)"
  using ungated_campaign_completes [OF chain_ready(1) _ _ _ _ _ chain_ready(2) chain_new_graph chain_ready(3,4) chain_up]
  by (simp add: node_ids_def chain_template_def)

text \<open>an expired gate stays shut for good. When the approval recorded for a gated node has expired, executing
  the node pauses it again under the same expired approval, asks for no new one and sends nothing, and
  approving the node is refused; the run can never pass it.\<close>

theorem expired_gate_is_never_reissued:
  assumes "h \<in> {all_up, file_only}" "ce_load E = load_all h" "ce_save E = save_row h"
    and "recorded_approval run (cn_id node) = aid" "aid \<noteq> []" "cn_id node \<noteq> []"
    and "map_of (load_all h (cw_store w)) aid = Some row" "ap_status row = STATUS_EXPIRED"
    and "resolve_level node (run_rules run) \<noteq> AL_NONE" "\<not> (is_high_risk (cn_type node) \<and> cn_approval node = AL_NONE)"
    and "get_run cid w = Some run"
  shows "(\<exists>run' w'. execute_node E node run w = (Inr run', w') \<and> cw_store w' = cw_store w \<and> cw_sent w' = cw_sent w
        \<and> cn_id node \<in> set (cr_needs run') \<and> recorded_approval run' (cn_id node) = aid)
     \<and> fst (approve_node E cid (Some (cn_id node)) None decision who w) = Inl ApprovalNotDecided"
proof -
  obtain s where s: "map_of (cr_steps run) (cn_id node) = Some s" "sr_approval s = Some aid"
    using assms(4,5) by (auto simp: recorded_approval_def split: option.splits)
  have stale: "get_approval (load_all h) (save_row h) now aid (cw_store w) = (Some row, cw_store w)" for now
    using assms(7,8) by (simp add: get_approval_def expire_if_due_def due_def)
  define run1 where "run1 = put_step (cn_id node) (step_of run (cn_id node)) run"
  have r1: "recorded_approval run1 (cn_id node) = aid" "run_rules run1 = run_rules run"
    using s by (simp_all add: run1_def recorded_put_step step_of_def run_rules_def)
  have c: "check_approved E aid w = (False, (tick w)\<lparr>cw_store := cw_store w\<rparr>)"
    using assms(2,3,8) stale by (simp add: check_approved_def is_currently_approved_def)
  have e: "ensure E run1 node level w = ((aid, False), (tick w)\<lparr>cw_store := cw_store w\<rparr>)" for level
    using r1(1) c assms(5) by (simp add: ensure_def)
  define run2 where "run2 = record_approval (cn_id node) aid run1"
  obtain run3 w3 where p: "pause_for_approval E node (resolve_level node (run_rules run)) run2 ((tick w)\<lparr>cw_store := cw_store w\<rparr>) = (run3, w3)"
    by fastforce
  have x: "execute_node E node run w = (Inr run3, w3)"
    using assms(9,10) e p r1(2) unfolding execute_node_def Let_def run1_def [symmetric] by (simp add: run2_def del: de_Morgan_conj)
  have "cw_store w3 = cw_store w" "cw_sent w3 = cw_sent w" "cn_id node \<in> set (cr_needs run3)" "recorded_approval run3 (cn_id node) = aid"
    using p by (auto simp: pause_for_approval_def emit_node_event_def tick_def Let_def run2_def record_approval_def
        recorded_approval_def put_step_def step_of_def map_of_update)
  moreover have "fst (decide_approval (load_all h) (save_row h) now stamp aid decision who (cw_store w)) = None" for now stamp
    using stale assms(8) by (simp add: decide_approval_def split: option.split)
  then have "fst (approve_node E cid (Some (cn_id node)) None decision who w) = Inl ApprovalNotDecided"
    using assms(2,3,5,6,11) s
    by (simp add: approve_node_def approval_for_node_def opt_or_def Let_def split: prod.split option.split) (metis fst_conv option.distinct(1))
  ultimately show ?thesis using x by blast
qed

theorem expired_gate_is_never_reissued_witness:
  "\<exists>w. fst (approve_node demo_env ''c'' (Some ''b'') None ''approved'' ''op'' w) = Inl ApprovalNotDecided \<and> get_run ''c'' w = Some demo_paused"
proof -
  define w where "w = demo_w2\<lparr>cw_store := \<lparr>as_json = [(''uuu'', demo_row\<lparr>ap_status := STATUS_EXPIRED\<rparr>)], as_ddb = []\<rparr>\<rparr>"
  have g: "get_run ''c'' w = Some demo_paused" by (simp add: w_def demo_w2_def get_run_def)
  have r: "recorded_approval demo_paused (cn_id demo_b) = ''uuu''" by (simp add: recorded_approval_def demo_steps)
  have m: "map_of (load_all file_only (cw_store w)) ''uuu'' = Some (demo_row\<lparr>ap_status := STATUS_EXPIRED\<rparr>)" by (simp add: w_def)
  have l: "resolve_level demo_b (run_rules demo_paused) \<noteq> AL_NONE" by (rule high_risk_is_gated) (simp add: demo_b_risk)
  from expired_gate_is_never_reissued [OF _ _ _ r _ _ m _ l _ g, of demo_env "''approved''" "''op''"] g show ?thesis by auto
qed

end
