(* ===== verification/Audit_Chain.thy ===== *)
theory Audit_Chain
  imports Sha256 Json
begin

text \<open>
  The tamper-evident audit ledger, \<open>common/audit_ledger.py\<close>, with its key derivation \<open>common/kdf.py\<close>: signing and
  verifying entries, opening a file (reconciliation, legacy migration, archiving), appending, and the check
  across day files.

  A file is the list of its lines, each as the object it parses to, or \<^const>\<open>None\<close> for a line that does not
  parse (the readers skip it); that a line parses back to the object it was written from is
  taken from the \<open>json\<close> module, and files end in a newline. Values that are no object on a line of their own are
  left out. A directory maps file stems to files of the one suffix.

  The epoch length is positive. A \<open>ts\<close> is a Python float, here a rational; its \<open>repr\<close> and the parsing of one are parameters of the environment.
  Byte strings are lists of words below 256, as in the hash model.
\<close>

section \<open>Key derivation\<close>

definition HASH_LEN :: nat where "HASH_LEN = 32"
definition MAX_OUTPUT_LEN :: nat where "MAX_OUTPUT_LEN = 255 * HASH_LEN"
definition SAMUS_LEDGER_SALT_V1 :: "32 word list" where "SAMUS_LEDGER_SALT_V1 = map byte_of ''samus-ledger-v1''"

text \<open>The expand loop: \<open>todo\<close> blocks are left, block \<open>i\<close> is next.\<close>

fun hkdf_expand :: "nat \<Rightarrow> nat \<Rightarrow> 32 word list \<Rightarrow> 32 word list \<Rightarrow> 32 word list \<Rightarrow> 32 word list" where
  "hkdf_expand 0 i prk info t = []"
| "hkdf_expand (Suc todo) i prk info t =
     (let t = hmac_bytes prk (t @ info @ [of_nat i]) in t @ hkdf_expand todo (Suc i) prk info t)"

definition hkdf_sha256 :: "32 word list \<Rightarrow> 32 word list \<Rightarrow> 32 word list \<Rightarrow> nat \<Rightarrow> 32 word list option" where
  "hkdf_sha256 ikm salt info len =
     (if len = 0 \<or> MAX_OUTPUT_LEN < len then None
      else (let salt = (if salt = [] then replicate HASH_LEN 0 else salt);
                prk = hmac_bytes salt ikm;
                n = (len + HASH_LEN - 1) div HASH_LEN
            in Some (take len (hkdf_expand n 1 prk info []))))"

lemma length_hkdf_expand: "length (hkdf_expand n i prk info t) = 32 * n"
  by (induction n arbitrary: i t) (simp_all add: Let_def)

lemma length_hkdf: "hkdf_sha256 ikm salt info len = Some key \<Longrightarrow> length key = len"
  by (auto simp: hkdf_sha256_def Let_def HASH_LEN_def length_hkdf_expand split: if_splits)

section \<open>Entries\<close>

datatype lval = LFloat rat | LVal json

type_synonym entry = "(string \<times> lval) list"
type_synonym lines = "entry option list"

record ledger_env =
  le_secret :: "32 word list"
  le_epoch :: int
  le_overlap :: int
  le_deployment :: string
  le_float_text :: "rat \<Rightarrow> string"
  le_to_float :: "string \<Rightarrow> rat option"

datatype ledger_fault = NoFault | PrevMismatch | HmacMissing | HmacMismatch

record ledger_state =
  ls_ok :: bool
  ls_length :: nat
  ls_last :: string
  ls_broken :: int
  ls_fault :: ledger_fault

datatype ledger_error = TamperError | BadField

definition GENESIS :: string where "GENESIS = replicate 64 (CHR ''0'')"

fun lv_truthy :: "lval \<Rightarrow> bool" where
  "lv_truthy (LFloat r) = (r \<noteq> 0)"
| "lv_truthy (LVal v) = json_truthy v"

text \<open>\<open>float(v)\<close>, \<open>int(v)\<close> and \<open>str(v)\<close>.\<close>

fun lv_float :: "ledger_env \<Rightarrow> lval \<Rightarrow> rat option" where
  "lv_float E (LFloat r) = Some r"
| "lv_float E (LVal (JInt i)) = Some (of_int i)"
| "lv_float E (LVal (JBool b)) = Some (if b then 1 else 0)"
| "lv_float E (LVal (JStr s)) = le_to_float E s"
| "lv_float E (LVal v) = None"

fun lv_int :: "lval \<Rightarrow> int option" where
  "lv_int (LFloat r) = Some (if 0 \<le> r then \<lfloor>r\<rfloor> else \<lceil>r\<rceil>)"
| "lv_int (LVal (JInt i)) = Some i"
| "lv_int (LVal (JBool b)) = Some (if b then 1 else 0)"
| "lv_int (LVal (JStr s)) = py_int s"
| "lv_int (LVal v) = None"

fun lv_str :: "ledger_env \<Rightarrow> lval \<Rightarrow> string" where
  "lv_str E (LFloat r) = le_float_text E r"
| "lv_str E (LVal v) = json_text v"

text \<open>\<open>json.dumps\<close> of a value, with the given separators.\<close>

fun dumps_lval :: "ledger_env \<Rightarrow> string \<Rightarrow> string \<Rightarrow> lval \<Rightarrow> string" where
  "dumps_lval E isep ksep (LFloat r) = le_float_text E r"
| "dumps_lval E isep ksep (LVal v) = dumps_ascii isep ksep v"

text \<open>The dictionary of five keys, in the order \<open>sort_keys\<close> gives them.\<close>

definition canonical_material :: "ledger_env \<Rightarrow> int \<Rightarrow> rat \<Rightarrow> string \<Rightarrow> string \<Rightarrow> lval \<Rightarrow> string" where
  "canonical_material E seq ts kind prev_hash payload =
     ''{'' @ py_join '',''
       [ascii_string ''payload'' @ '':'' @ dumps_lval E '','' '':'' payload,
        ascii_string ''prev_hash'' @ '':'' @ ascii_string prev_hash,
        ascii_string ''seq'' @ '':'' @ show_int seq,
        ascii_string ''ts'' @ '':'' @ le_float_text E ts,
        ascii_string ''type'' @ '':'' @ ascii_string kind] @ ''}''"

definition epoch_number :: "rat \<Rightarrow> int \<Rightarrow> int" where
  "epoch_number ts epoch_sec = \<lfloor>ts / of_int epoch_sec\<rfloor>"

definition epoch_key :: "32 word list \<Rightarrow> int \<Rightarrow> 32 word list" where
  "epoch_key secret n = (case hkdf_sha256 secret SAMUS_LEDGER_SALT_V1 (map byte_of (''epoch-'' @ show_int n)) 32 of
     Some key \<Rightarrow> key | None \<Rightarrow> [])"

definition candidate_epochs :: "rat \<Rightarrow> int \<Rightarrow> int \<Rightarrow> int list" where
  "candidate_epochs ts epoch_sec overlap_sec =
     (let home = epoch_number ts epoch_sec;
          offset = ts - of_int (home * epoch_sec)
      in [home] @ (if offset < of_int overlap_sec then [home - 1] else [])
                @ (if offset > of_int (epoch_sec - overlap_sec) then [home + 1] else []))"

definition mac_hex :: "32 word list \<Rightarrow> string \<Rightarrow> string" where
  "mac_hex key material = concat (map hex_byte (hmac_bytes key (map byte_of material)))"

definition sign_entry :: "ledger_env \<Rightarrow> int \<Rightarrow> rat \<Rightarrow> string \<Rightarrow> string \<Rightarrow> lval \<Rightarrow> string" where
  "sign_entry E seq ts kind prev_hash payload =
     mac_hex (epoch_key (le_secret E) (epoch_number ts (le_epoch E))) (canonical_material E seq ts kind prev_hash payload)"

text \<open>What an entry's HMAC is checked against; \<^const>\<open>None\<close> when \<open>float\<close> or \<open>int\<close> raises.\<close>

definition entry_payload :: "entry \<Rightarrow> lval" where
  "entry_payload rec = (case map_of rec ''payload'' of
     None \<Rightarrow> LVal (JObj []) | Some v \<Rightarrow> if lv_truthy v then v else LVal (JObj []))"

definition entry_material :: "ledger_env \<Rightarrow> entry \<Rightarrow> (rat \<times> string) option" where
  "entry_material E rec =
     (case lv_float E (dict_get rec ''ts'' (LFloat 0)) of
        None \<Rightarrow> None
      | Some ts \<Rightarrow>
          (case lv_int (dict_get rec ''seq'' (LVal (JInt 0))) of
             None \<Rightarrow> None
           | Some seq \<Rightarrow>
               Some (ts, canonical_material E seq ts (lv_str E (dict_get rec ''type'' (LVal (JStr []))))
                           (lv_str E (dict_get rec ''prev_hash'' (LVal (JStr GENESIS)))) (entry_payload rec))))"

definition verify_hmac :: "ledger_env \<Rightarrow> entry \<Rightarrow> ledger_error + bool" where
  "verify_hmac E rec =
     (case entry_material E rec of
        None \<Rightarrow> Inl BadField
      | Some (ts, material) \<Rightarrow>
          (case map_of rec ''hmac'' of
             Some (LVal (JStr stored)) \<Rightarrow>
               Inr (\<exists>epoch \<in> set (candidate_epochs ts (le_epoch E) (le_overlap E)).
                      mac_hex (epoch_key (le_secret E) epoch) material = stored)
           | _ \<Rightarrow> Inr False))"

section \<open>Verification\<close>

definition bad_state :: "nat \<Rightarrow> string \<Rightarrow> ledger_fault \<Rightarrow> ledger_state" where
  "bad_state i prev fault = \<lparr>ls_ok = False, ls_length = Suc i, ls_last = prev, ls_broken = int i, ls_fault = fault\<rparr>"

definition good_state :: "nat \<Rightarrow> string \<Rightarrow> ledger_state" where
  "good_state n prev = \<lparr>ls_ok = True, ls_length = n, ls_last = prev, ls_broken = -1, ls_fault = NoFault\<rparr>"

fun entry_hmac :: "lval option \<Rightarrow> string" where
  "entry_hmac (Some (LVal (JStr h))) = h"
| "entry_hmac v = []"

fun verify_from :: "ledger_env \<Rightarrow> string \<Rightarrow> nat \<Rightarrow> entry list \<Rightarrow> ledger_error + ledger_state" where
  "verify_from E prev i [] = Inr (good_state i prev)"
| "verify_from E prev i (rec # recs) =
     (if map_of rec ''prev_hash'' \<noteq> Some (LVal (JStr prev)) then Inr (bad_state i prev PrevMismatch)
      else if \<not> dict_has rec ''hmac'' then Inr (bad_state i prev HmacMissing)
      else (case verify_hmac E rec of
              Inl e \<Rightarrow> Inl e
            | Inr False \<Rightarrow> Inr (bad_state i prev HmacMismatch)
            | Inr True \<Rightarrow> verify_from E (entry_hmac (map_of rec ''hmac'')) (Suc i) recs))"

fun read_jsonl :: "lines \<Rightarrow> entry list" where
  "read_jsonl [] = []"
| "read_jsonl (None # ls) = read_jsonl ls"
| "read_jsonl (Some rec # ls) = rec # read_jsonl ls"

section \<open>Files and days\<close>

datatype ledger_alert = ChainBreak string nat int | CrossDayBreak string

record ledger_disk =
  ld_files :: "(string \<times> lines) list"
  ld_alerts :: "ledger_alert list"

definition file_lines :: "ledger_disk \<Rightarrow> string \<Rightarrow> lines" where
  "file_lines d stem = dict_get (ld_files d) stem []"

definition file_records :: "ledger_disk \<Rightarrow> string \<Rightarrow> entry list" where
  "file_records d stem = read_jsonl (file_lines d stem)"

definition read_first :: "ledger_disk \<Rightarrow> string \<Rightarrow> entry option" where
  "read_first d stem = (case file_records d stem of [] \<Rightarrow> None | rec # recs \<Rightarrow> Some rec)"

definition read_last :: "ledger_disk \<Rightarrow> string \<Rightarrow> entry option" where
  "read_last d stem = (case rev (file_records d stem) of [] \<Rightarrow> None | rec # recs \<Rightarrow> Some rec)"

definition daily_stamp :: "string \<Rightarrow> string option" where
  "daily_stamp stem =
     (if prefix ''ledger-'' stem \<and> length (drop 7 stem) = 8 \<and> (\<forall>c \<in> set (drop 7 stem). py_isdigit c)
      then Some (drop 7 stem) else None)"

definition sibling_daily_files :: "ledger_disk \<Rightarrow> (string \<times> string) list" where
  "sibling_daily_files d =
     sort_key fst (concat (map (\<lambda>stem. case daily_stamp stem of None \<Rightarrow> [] | Some st \<Rightarrow> [(st, stem)]) (dict_keys (ld_files d))))"

text \<open>\<open>rec.get("hmac") or rec.get("entry_hash")\<close>, when it is a string.\<close>

definition tip_of :: "entry \<Rightarrow> string option" where
  "tip_of rec =
     (case (case map_of rec ''hmac'' of Some v \<Rightarrow> if lv_truthy v then Some v else map_of rec ''entry_hash''
            | None \<Rightarrow> map_of rec ''entry_hash'') of
        Some (LVal (JStr h)) \<Rightarrow> Some h | _ \<Rightarrow> None)"

definition compute_chain_seed :: "ledger_disk \<Rightarrow> string \<Rightarrow> string" where
  "compute_chain_seed d stem =
     (case daily_stamp stem of
        None \<Rightarrow> GENESIS
      | Some stamp \<Rightarrow>
          fold (\<lambda>(st, sib) tip. if st \<ge> stamp then tip
                                else (case read_last d sib of
                                        None \<Rightarrow> tip
                                      | Some rec \<Rightarrow> (case tip_of rec of None \<Rightarrow> tip | Some h \<Rightarrow> h)))
               (sibling_daily_files d) GENESIS)"

section \<open>The ledger\<close>

record audit_ledger =
  al_stem :: string
  al_last_hash :: string
  al_last_seq :: int
  al_seed :: string
  al_self :: string

definition verify_path :: "ledger_env \<Rightarrow> audit_ledger \<Rightarrow> ledger_disk \<Rightarrow> string \<Rightarrow> string option \<Rightarrow> ledger_error + ledger_state" where
  "verify_path E al d stem start_prev =
     verify_from E (case start_prev of None \<Rightarrow> al_self al | Some p \<Rightarrow> p) 0 (file_records d stem)"

definition al_verify :: "ledger_env \<Rightarrow> audit_ledger \<Rightarrow> ledger_disk \<Rightarrow> ledger_error + ledger_state" where
  "al_verify E al d = verify_path E al d (al_stem al) None"

definition assert_chain_intact :: "ledger_env \<Rightarrow> audit_ledger \<Rightarrow> ledger_disk \<Rightarrow> ledger_error + unit" where
  "assert_chain_intact E al d =
     (case al_verify E al d of Inl e \<Rightarrow> Inl e | Inr st \<Rightarrow> if ls_ok st then Inr () else Inl TamperError)"

definition al_tail :: "audit_ledger \<Rightarrow> ledger_disk \<Rightarrow> nat \<Rightarrow> entry list" where
  "al_tail al d n = (let recs = file_records d (al_stem al) in if n = 0 then recs else drop (length recs - n) recs)"

definition append_line :: "string \<Rightarrow> entry \<Rightarrow> ledger_disk \<Rightarrow> ledger_disk" where
  "append_line stem rec d = d\<lparr>ld_files := AList.update stem (file_lines d stem @ [Some rec]) (ld_files d)\<rparr>"

definition signed_entry :: "ledger_env \<Rightarrow> int \<Rightarrow> rat \<Rightarrow> string \<Rightarrow> string \<Rightarrow> (string \<times> json) list \<Rightarrow> entry" where
  "signed_entry E seq ts kind prev_hash payload =
     [(''seq'', LVal (JInt seq)), (''ts'', LFloat ts), (''type'', LVal (JStr kind)), (''prev_hash'', LVal (JStr prev_hash)),
      (''payload'', LVal (JObj payload)), (''hmac'', LVal (JStr (sign_entry E seq ts kind prev_hash (LVal (JObj payload)))))]"

definition al_record ::
  "ledger_env \<Rightarrow> rat \<Rightarrow> string \<Rightarrow> (string \<times> json) list \<Rightarrow> audit_ledger \<times> ledger_disk \<Rightarrow> entry \<times> audit_ledger \<times> ledger_disk" where
  "al_record E now event payload = (\<lambda>(al, d).
     (let seq = al_last_seq al + 1;
          rec = signed_entry E seq now event (al_last_hash al) payload
      in (rec, al\<lparr>al_last_hash := entry_hmac (map_of rec ''hmac''), al_last_seq := seq\<rparr>, append_line (al_stem al) rec d)))"

text \<open>The tip of the file, or the seed when it holds no record.\<close>

definition seed_tip_cache :: "audit_ledger \<Rightarrow> ledger_disk \<Rightarrow> audit_ledger" where
  "seed_tip_cache al d =
     (case read_last d (al_stem al) of
        Some rec \<Rightarrow>
          al\<lparr>al_last_hash := (case tip_of rec of Some h \<Rightarrow> h | None \<Rightarrow> al_last_hash al),
             al_last_seq := (case lv_int (dict_get rec ''seq'' (LVal (JInt 0))) of Some i \<Rightarrow> i | None \<Rightarrow> 0)\<rparr>
      | None \<Rightarrow> al\<lparr>al_last_hash := al_seed al, al_last_seq := 0\<rparr>)"

section \<open>Opening\<close>

definition lv_or_null :: "lval option \<Rightarrow> lval" where
  "lv_or_null v = (case v of None \<Rightarrow> LVal JNull | Some v \<Rightarrow> v)"

definition legacy_material :: "ledger_env \<Rightarrow> entry \<Rightarrow> string" where
  "legacy_material E rec =
     ''{'' @ py_join '', ''
       (map (\<lambda>k. ascii_string k @ '': '' @ dumps_lval E '', '' '': '' (lv_or_null (map_of rec k)))
          [''event'', ''id'', ''payload'', ''prev_hash'', ''seq'', ''ts'']) @ ''}''"

fun verify_legacy :: "ledger_env \<Rightarrow> string \<Rightarrow> nat \<Rightarrow> entry list \<Rightarrow> ledger_state" where
  "verify_legacy E prev i [] = good_state i prev"
| "verify_legacy E prev i (rec # recs) =
     (if map_of rec ''prev_hash'' \<noteq> Some (LVal (JStr prev)) then bad_state i prev PrevMismatch
      else (let expected = sha256_hex (legacy_material E rec)
            in if map_of rec ''entry_hash'' \<noteq> Some (LVal (JStr expected)) then bad_state i prev HmacMismatch
               else verify_legacy E expected (Suc i) recs))"

text \<open>
  \<open>dict(v or {})\<close>: a dictionary, or a list of pairs (pairs whose key is no string are left out); anything else
  raises.
\<close>

fun pair_of :: "json \<Rightarrow> (string \<times> json) option" where
  "pair_of (JList [JStr k, v]) = Some (k, v)"
| "pair_of (JStr [a, b]) = Some ([a], JStr [b])"
| "pair_of v = None"

fun dict_of_pairs :: "json list \<Rightarrow> (string \<times> json) list \<Rightarrow> (string \<times> json) list option" where
  "dict_of_pairs [] d = Some d"
| "dict_of_pairs (x # xs) d = (case pair_of x of None \<Rightarrow> None | Some (k, v) \<Rightarrow> dict_of_pairs xs (AList.update k v d))"

definition lv_dict :: "lval option \<Rightarrow> (string \<times> json) list option" where
  "lv_dict v = (case v of
     None \<Rightarrow> Some []
   | Some v \<Rightarrow> if \<not> lv_truthy v then Some []
               else (case v of LVal (JObj kvs) \<Rightarrow> Some kvs | LVal (JList xs) \<Rightarrow> dict_of_pairs xs [] | _ \<Rightarrow> None))"

fun migrate_legacy :: "ledger_env \<Rightarrow> rat \<Rightarrow> string \<Rightarrow> entry list \<Rightarrow> entry list option" where
  "migrate_legacy E now prev [] = Some []"
| "migrate_legacy E now prev (rec # recs) =
     (case (lv_int (dict_get rec ''seq'' (LVal (JInt 0))), lv_float E (dict_get rec ''ts'' (LFloat now)),
            lv_dict (map_of rec ''payload'')) of
        (Some seq, Some ts, Some payload) \<Rightarrow>
          (let e = signed_entry E seq ts (lv_str E (dict_get rec ''event'' (LVal (JStr [])))) prev payload
           in case migrate_legacy E now (entry_hmac (map_of e ''hmac'')) recs of
                None \<Rightarrow> None | Some es \<Rightarrow> Some (e # es))
      | _ \<Rightarrow> None)"

definition archive_name :: "string \<Rightarrow> string \<Rightarrow> rat \<Rightarrow> string" where
  "archive_name stem reason now = stem @ ''_pre_'' @ reason @ ''_'' @ show_int \<lfloor>now\<rfloor>"

definition archive_and_reset :: "string \<Rightarrow> string \<Rightarrow> rat \<Rightarrow> ledger_disk \<Rightarrow> ledger_disk" where
  "archive_and_reset stem reason now d =
     d\<lparr>ld_files := AList.update (archive_name stem reason now) (file_lines d stem) (AList.delete stem (ld_files d))\<rparr>"

definition alert_canonical_break ::
  "ledger_env \<Rightarrow> string \<Rightarrow> nat \<Rightarrow> int \<Rightarrow> ledger_disk \<Rightarrow> (ledger_error + unit) \<times> ledger_disk" where
  "alert_canonical_break E stem len broken d =
     ((if le_deployment E \<noteq> ''development'' then Inl TamperError else Inr ()),
      d\<lparr>ld_alerts := ld_alerts d @ [ChainBreak stem len broken]\<rparr>)"

fun chain_links_intact :: "string \<Rightarrow> entry list \<Rightarrow> bool" where
  "chain_links_intact prev [] = True"
| "chain_links_intact prev (rec # recs) =
     (map_of rec ''prev_hash'' = Some (LVal (JStr prev))
      \<and> (case map_of rec ''hmac'' of Some (LVal (JStr h)) \<Rightarrow> chain_links_intact h recs | _ \<Rightarrow> False))"

fun none_verifies :: "ledger_env \<Rightarrow> entry list \<Rightarrow> ledger_error + bool" where
  "none_verifies E [] = Inr True"
| "none_verifies E (rec # recs) =
     (case verify_hmac E rec of Inl e \<Rightarrow> Inl e | Inr True \<Rightarrow> Inr False | Inr False \<Rightarrow> none_verifies E recs)"

definition all_hmacs_fail :: "ledger_env \<Rightarrow> entry list \<Rightarrow> ledger_error + bool" where
  "all_hmacs_fail E recs = (if recs = [] then Inr False else none_verifies E recs)"

definition break_and_archive ::
  "ledger_env \<Rightarrow> rat \<Rightarrow> string \<Rightarrow> ledger_state \<Rightarrow> ledger_disk \<Rightarrow> (ledger_error + unit) \<times> ledger_disk" where
  "break_and_archive E now stem st d =
     (case alert_canonical_break E stem (ls_length st) (ls_broken st) d of
        (Inl e, d) \<Rightarrow> (Inl e, d)
      | (Inr u, d) \<Rightarrow> (Inr u, archive_and_reset stem ''canonical'' now d))"

definition uses_legacy :: "entry list \<Rightarrow> bool" where
  "uses_legacy recs = (\<exists>r \<in> set recs. dict_has r ''event'' \<and> \<not> dict_has r ''type'')"

definition reconcile_on_open ::
  "ledger_env \<Rightarrow> rat \<Rightarrow> audit_ledger \<Rightarrow> ledger_disk \<Rightarrow> (ledger_error + unit) \<times> ledger_disk" where
  "reconcile_on_open E now al d =
     (let stem = al_stem al; recs = file_records d stem in
      if recs = [] then (Inr (), d)
      else if uses_legacy recs
      then (let st = verify_legacy E GENESIS 0 recs in
            if ls_ok st
            then (case migrate_legacy E now GENESIS recs of
                    None \<Rightarrow> (Inl BadField, d)
                  | Some es \<Rightarrow> (Inr (), d\<lparr>ld_files := AList.update stem (map Some es) (ld_files d)\<rparr>))
            else break_and_archive E now stem st d)
      else (case verify_path E al d stem None of
              Inl e \<Rightarrow> (Inl e, d)
            | Inr st \<Rightarrow>
                if ls_ok st then (Inr (), d)
                else if chain_links_intact (al_self al) recs
                then (case all_hmacs_fail E recs of
                        Inl e \<Rightarrow> (Inl e, d)
                      | Inr True \<Rightarrow> (Inr (), archive_and_reset stem ''keychange'' now d)
                      | Inr False \<Rightarrow> break_and_archive E now stem st d)
                else break_and_archive E now stem st d))"

definition new_ledger :: "ledger_disk \<Rightarrow> string \<Rightarrow> audit_ledger" where
  "new_ledger d stem =
     (let seed = compute_chain_seed d stem
      in \<lparr>al_stem = stem, al_last_hash = GENESIS, al_last_seq = 0, al_seed = seed,
          al_self = (case read_first d stem of
                       None \<Rightarrow> seed
                     | Some rec \<Rightarrow> (case map_of rec ''prev_hash'' of Some (LVal (JStr p)) \<Rightarrow> p | _ \<Rightarrow> seed))\<rparr>)"

definition open_ledger ::
  "ledger_env \<Rightarrow> rat \<Rightarrow> string \<Rightarrow> ledger_disk \<Rightarrow> (ledger_error + audit_ledger) \<times> ledger_disk" where
  "open_ledger E now stem d =
     (let al = new_ledger d stem
      in case reconcile_on_open E now al d of
           (Inl e, d') \<Rightarrow> (Inl e, d')
         | (Inr u, d') \<Rightarrow> (Inr (seed_tip_cache al d'), d'))"

section \<open>The check across days\<close>

fun verify_days ::
  "ledger_env \<Rightarrow> ledger_disk \<Rightarrow> (string \<times> string) list \<Rightarrow> string \<Rightarrow> nat \<Rightarrow> ledger_error + (string option \<times> ledger_state)" where
  "verify_days E d [] prev n = Inr (None, good_state n prev)"
| "verify_days E d ((stamp, stem) # sibs) prev n =
     (case verify_from E prev 0 (file_records d stem) of
        Inl e \<Rightarrow> Inl e
      | Inr st \<Rightarrow>
          if \<not> ls_ok st
          then Inr (Some stamp, \<lparr>ls_ok = False, ls_length = n + ls_length st, ls_last = prev, ls_broken = ls_broken st,
                                 ls_fault = ls_fault st\<rparr>)
          else verify_days E d sibs (if ls_last st \<noteq> prev \<or> ls_length st \<noteq> 0 then ls_last st else prev) (n + ls_length st))"

definition verify_cross_day ::
  "ledger_env \<Rightarrow> audit_ledger \<Rightarrow> bool \<Rightarrow> ledger_disk \<Rightarrow> (ledger_error + ledger_state) \<times> ledger_disk" where
  "verify_cross_day E al alert d =
     (let siblings = sibling_daily_files d in
      if siblings = [] then (al_verify E al d, d)
      else (case verify_days E d siblings GENESIS 0 of
              Inl e \<Rightarrow> (Inl e, d)
            | Inr (None, st) \<Rightarrow> (Inr st, d)
            | Inr (Some stamp, st) \<Rightarrow>
                if alert
                then ((if le_deployment E \<noteq> ''development'' then Inl TamperError else Inr st),
                      d\<lparr>ld_alerts := ld_alerts d @ [CrossDayBreak stamp]\<rparr>)
                else (Inr st, d)))"

end
