(* ===== verification/Json_Scan.thy ===== *)
theory Json_Scan
  imports Json
begin

text \<open>
  Unique readability of the compact JSON rendering: a scanner that knows strings and nesting skips exactly one
  rendered value, so a text of rendered values separated by commas determines each of them.
\<close>

fun cut :: "nat \<Rightarrow> string \<Rightarrow> string" and cut_in :: "nat \<Rightarrow> string \<Rightarrow> string" where
  "cut d [] = []"
| "cut d (c # cs) =
     (if c = CHR 0x22 then cut_in d cs
      else if c = CHR ''['' \<or> c = CHR ''{'' then cut (Suc d) cs
      else if c = CHR '']'' \<or> c = CHR ''}'' then (case d of 0 \<Rightarrow> c # cs | Suc d' \<Rightarrow> cut d' cs)
      else if c = CHR '','' \<and> d = 0 then c # cs
      else cut d cs)"
| "cut_in d [] = []"
| "cut_in d (c # cs) =
     (if c = CHR 0x5C then (case cs of [] \<Rightarrow> [] | e # es \<Rightarrow> cut_in d es)
      else if c = CHR 0x22 then cut d cs
      else cut_in d cs)"

definition scannable :: "string \<Rightarrow> bool" where
  "scannable t \<longleftrightarrow> (\<forall>d r. cut d (t @ r) = cut d r)"

definition nested :: "string \<Rightarrow> bool" where
  "nested t \<longleftrightarrow> (\<forall>d r. cut (Suc d) (t @ r) = cut (Suc d) r)"

definition plain_char :: "char \<Rightarrow> bool" where
  "plain_char c \<longleftrightarrow> c \<notin> {CHR 0x22, CHR ''['', CHR ''{'', CHR '']'', CHR ''}'', CHR '',''}"

lemma scannable_append: "scannable s \<Longrightarrow> scannable t \<Longrightarrow> scannable (s @ t)"
  by (simp add: scannable_def)

lemma scannable_nested: "scannable t \<Longrightarrow> nested t"
  by (simp add: scannable_def nested_def)

lemma nested_append: "nested s \<Longrightarrow> nested t \<Longrightarrow> nested (s @ t)"
  by (simp add: nested_def)

lemma scannable_plain: "\<forall>c \<in> set t. plain_char c \<Longrightarrow> scannable t"
  unfolding scannable_def by (induction t) (auto simp: plain_char_def)

lemma nested_comma: "nested '',''"
  by (simp add: nested_def)

lemma scannable_brackets: "nested t \<Longrightarrow> scannable (''['' @ t @ '']'')" "nested t \<Longrightarrow> scannable (''{'' @ t @ ''}'')"
  by (simp_all add: scannable_def nested_def)

lemma nested_join: "nested sep \<Longrightarrow> \<forall>t \<in> set ts. nested t \<Longrightarrow> nested (py_join sep ts)"
proof (induction ts)
  case Nil
  then show ?case by (simp add: nested_def)
next
  case (Cons t ts)
  then show ?case by (auto simp: py_join_singleton_sep intro!: nested_append)
qed

section \<open>Strings\<close>

lemma char_code_less: "char_code c < 256"
  by (simp add: char_code_def)

definition nibble_value :: "char \<Rightarrow> nat" where
  "nibble_value x = length (takeWhile (\<lambda>d. d \<noteq> x) ''0123456789abcdef'')"

lemma nibble_facts: "\<forall>m \<in> set [0..<16]. hex_nibble m \<noteq> CHR 0x22 \<and> hex_nibble m \<noteq> CHR 0x5C \<and> nibble_value (hex_nibble m) = m"
  by code_simp

lemma nibble_plain: "n < 16 \<Longrightarrow> hex_nibble n \<noteq> CHR 0x22 \<and> hex_nibble n \<noteq> CHR 0x5C"
  using nibble_facts by simp

lemma nibble_value [simp]: "n < 16 \<Longrightarrow> nibble_value (hex_nibble n) = n"
  using nibble_facts by simp

lemma code_nibbles: "char_code c div 16 < 16" "char_code c mod 16 < 16"
  using char_code_less [of c] by auto

lemma cut_in_escape: "cut_in d (ascii_escape c @ r) = cut_in d r"
  using nibble_plain [OF code_nibbles(1) [of c]] nibble_plain [OF code_nibbles(2) [of c]]
  by (simp add: ascii_escape_def json_escape_def)

lemma cut_in_body: "cut_in d (concat (map ascii_escape s) @ r) = cut_in d r"
  by (induction s) (simp_all add: cut_in_escape)

lemma scannable_string: "scannable (ascii_string s)"
  by (simp add: scannable_def ascii_string_def cut_in_body)

lemma escape_head: "ascii_escape c = h # t \<Longrightarrow> h \<noteq> CHR 0x22"
  by (auto simp: ascii_escape_def json_escape_def split: if_splits)

text \<open>Reading one escaped character back.\<close>

definition unescape :: "string \<Rightarrow> char \<times> string" where
  "unescape s =
     (case s of
        [] \<Rightarrow> (CHR 0x22, [])
      | c # cs \<Rightarrow>
          if c \<noteq> CHR 0x5C then (c, cs)
          else if hd cs = CHR ''u'' then (char_of (16 * nibble_value (cs ! 3) + nibble_value (cs ! 4)), drop 5 cs)
          else if hd cs = CHR ''n'' then (CHR 0x0A, tl cs)
          else if hd cs = CHR ''r'' then (CHR 0x0D, tl cs)
          else if hd cs = CHR ''t'' then (CHR 0x09, tl cs)
          else if hd cs = CHR ''b'' then (CHR 0x08, tl cs)
          else if hd cs = CHR ''f'' then (CHR 0x0C, tl cs)
          else (hd cs, tl cs))"

lemma code_of_nibbles: "char_of (16 * (char_code c div 16) + char_code c mod 16) = c"
  by (simp add: char_code_def)

lemma unescape_escape: "unescape (ascii_escape c @ r) = (c, r)"
  using code_of_nibbles [of c] code_nibbles [of c] by (simp add: unescape_def ascii_escape_def json_escape_def)

lemma escape_inj: "ascii_escape a @ r = ascii_escape b @ s \<Longrightarrow> a = b \<and> r = s"
  by (metis unescape_escape prod.inject)

lemma body_inj: "concat (map ascii_escape s) @ CHR 0x22 # r = concat (map ascii_escape t) @ CHR 0x22 # q \<Longrightarrow> s = t \<and> r = q"
proof (induction s arbitrary: t)
  case Nil
  have "ascii_escape b \<noteq> []" for b by (simp add: ascii_escape_def json_escape_def)
  with Nil show ?case by (cases t) (auto simp: Cons_eq_append_conv dest!: escape_head [OF sym])
next
  case (Cons a s)
  have ne: "ascii_escape b \<noteq> []" for b by (simp add: ascii_escape_def json_escape_def)
  show ?case
  proof (cases t)
    case Nil
    with Cons.prems escape_head [of a] ne [of a] show ?thesis by (auto simp: append_eq_Cons_conv)
  next
    case (Cons b t')
    then have "ascii_escape a @ concat (map ascii_escape s) @ CHR 0x22 # r = ascii_escape b @ concat (map ascii_escape t') @ CHR 0x22 # q"
      using Cons.prems by simp
    from escape_inj [OF this] Cons.IH [of t'] Cons show ?thesis by simp
  qed
qed

lemma ascii_string_inj: "ascii_string s = ascii_string t \<Longrightarrow> s = t"
  using body_inj [of s "[]" t "[]"] by (simp add: ascii_string_def)

section \<open>Values\<close>

lemma plain_digits: "\<forall>c \<in> set (show_int i). plain_char c"
proof -
  have "plain_char c" if "py_isdigit c" for c using that by (auto simp: py_isdigit_def plain_char_def char_code_def)
  then show ?thesis using show_nat_digits by (auto simp: show_int_def plain_char_def [of "CHR ''-''"])
qed

lemma scannable_int: "scannable (show_int i)"
  by (rule scannable_plain [OF plain_digits])

lemma scannable_dumps: "scannable (dumps_ascii '','' '':'' v)"
proof (induction v)
  case (JList xs)
  then show ?case
    by (simp only: dumps_ascii.simps) (intro scannable_brackets nested_join nested_comma ballI, auto intro: scannable_nested)
next
  case (JObj kvs)
  have colon: "scannable '':''" by (rule scannable_plain) (simp add: plain_char_def)
  have "nested (ascii_string k @ '':'' @ t)" if "scannable t" for k t
    using that colon by (intro scannable_nested scannable_append scannable_string)
  moreover have "scannable t" if "(k, t) \<in> set (sort_key fst (map (\<lambda>(k, v). (k, dumps_ascii '','' '':'' v)) kvs))" for k t
    using that JObj by auto
  ultimately show ?case
    by (simp only: dumps_ascii.simps) (intro scannable_brackets nested_join nested_comma ballI, fastforce)
qed (auto simp: scannable_string scannable_int intro!: scannable_plain simp: plain_char_def)

text \<open>Two texts that start with a scannable part, a comma next, agree on that part.\<close>

lemma cut_head:
  assumes "scannable s" "scannable t" "s @ '','' @ r = t @ '','' @ q"
  shows "s = t \<and> r = q"
proof -
  have "cut 0 (s @ '','' @ r) = '','' @ r" "cut 0 (t @ '','' @ q) = '','' @ q" using assms(1,2) by (simp_all add: scannable_def)
  with assms(3) have "r = q" by simp
  with assms(3) show ?thesis by simp
qed

lemma join_scannable_inj:
  "\<forall>s \<in> set ss. scannable s \<Longrightarrow> \<forall>t \<in> set ts. scannable t \<Longrightarrow> length ss = length ts \<Longrightarrow>
   py_join '','' ss = py_join '','' ts \<Longrightarrow> ss = ts"
proof (induction ss arbitrary: ts)
  case (Cons s ss)
  then obtain t ts' where ts: "ts = t # ts'" "length ss = length ts'" by (cases ts) auto
  show ?case
  proof (cases "ss = []")
    case False
    then have "s @ '','' @ py_join '','' ss = t @ '','' @ py_join '','' ts'"
      using Cons.prems(4) ts by (auto simp: py_join_singleton_sep)
    from cut_head [OF _ _ this] Cons.prems ts have "s = t" "py_join '','' ss = py_join '','' ts'" by auto
    with Cons.IH [of ts'] Cons.prems ts show ?thesis by simp
  qed (use Cons.prems ts in simp)
qed simp

end
