(* ===== verification/Audit_Tamper.thy ===== *)
theory Audit_Tamper
  imports Audit_Chain Json_Scan
begin

text \<open>
  What the ledger of \<^theory_text>\<open>Audit_Chain\<close> promises. A verified chain is described by its tip (\<open>chained\<close>); the lemmas
  show that appending, opening and migrating keep files verified, and the properties say what verification
  detects and what it does not.
\<close>

section \<open>Verified chains\<close>

fun chained :: "ledger_env \<Rightarrow> string \<Rightarrow> entry list \<Rightarrow> string option" where
  "chained E prev [] = Some prev"
| "chained E prev (rec # recs) =
     (if map_of rec ''prev_hash'' = Some (LVal (JStr prev)) \<and> verify_hmac E rec = Inr True
      then chained E (entry_hmac (map_of rec ''hmac'')) recs else None)"

lemma length_mac [simp]: "length (mac_hex key m) = 64"
  using hex_render by (simp add: mac_hex_def)

lemma verified_entry:
  assumes "verify_hmac E rec = Inr True"
  obtains h where "map_of rec ''hmac'' = Some (LVal (JStr h))" "length h = 64"
proof -
  from assms obtain h where h: "map_of rec ''hmac'' = Some (LVal (JStr h))"
    by (auto simp: verify_hmac_def split: option.splits lval.splits json.splits)
  with assms obtain m e where "mac_hex e m = h"
    by (auto simp: verify_hmac_def split: option.splits)
  then have "length h = 64" by auto
  with h show ?thesis by (rule that)
qed

lemma verify_from_ok:
  "verify_from E prev i recs = Inr st \<and> ls_ok st \<longleftrightarrow> (\<exists>tip. chained E prev recs = Some tip \<and> st = good_state (i + length recs) tip)"
proof (induction recs arbitrary: prev i)
  case (Cons rec recs)
  show ?case
  proof (cases "map_of rec ''prev_hash'' = Some (LVal (JStr prev)) \<and> verify_hmac E rec = Inr True")
    case True
    from True obtain h where "map_of rec ''hmac'' = Some (LVal (JStr h))" by (blast elim: verified_entry)
    with True Cons [of h "Suc i"] show ?thesis by (simp add: dict_has_def)
  next
    case False
    then show ?thesis by (auto simp: bad_state_def split: sum.splits bool.splits)
  qed
qed (auto simp: good_state_def)

lemma verify_from_chained: "chained E prev recs = Some tip \<Longrightarrow> verify_from E prev i recs = Inr (good_state (i + length recs) tip)"
  using verify_from_ok [of E prev i recs "good_state (i + length recs) tip"] by (auto simp: good_state_def)

lemma chained_append: "chained E prev (xs @ ys) = Option.bind (chained E prev xs) (\<lambda>tip. chained E tip ys)"
  by (induction xs arbitrary: prev) auto

lemma chained_tip:
  assumes "chained E prev (recs @ [rec]) = Some tip"
  shows "map_of rec ''hmac'' = Some (LVal (JStr tip))" "tip_of rec = Some tip" "tip \<noteq> []" "verify_hmac E rec = Inr True"
    "\<exists>p. chained E prev recs = Some p \<and> map_of rec ''prev_hash'' = Some (LVal (JStr p))"
proof -
  from assms obtain p where p: "chained E prev recs = Some p" "chained E p [rec] = Some tip"
    by (auto simp: chained_append bind_eq_Some_conv simp del: chained.simps)
  then have v: "verify_hmac E rec = Inr True" "map_of rec ''prev_hash'' = Some (LVal (JStr p))" by (auto split: if_splits)
  from v(1) obtain h where h: "map_of rec ''hmac'' = Some (LVal (JStr h))" "length h = 64" by (rule verified_entry)
  with p(2) v show "map_of rec ''hmac'' = Some (LVal (JStr tip))" "tip_of rec = Some tip" "tip \<noteq> []" "verify_hmac E rec = Inr True"
    by (auto simp: tip_of_def)
  show "\<exists>p. chained E prev recs = Some p \<and> map_of rec ''prev_hash'' = Some (LVal (JStr p))" using p(1) v(2) by blast
qed

lemma read_append [simp]: "read_jsonl (xs @ ys) = read_jsonl xs @ read_jsonl ys"
  by (induction xs rule: read_jsonl.induct) auto

lemma read_map_Some [simp]: "read_jsonl (map Some es) = es"
  by (induction es) auto

section \<open>Signing\<close>

lemma home_is_candidate: "epoch_number ts e \<in> set (candidate_epochs ts e ov)"
  by (simp add: candidate_epochs_def Let_def)

lemma signed_entry_fields [simp]:
  "map_of (signed_entry E seq ts kind prev payload) ''prev_hash'' = Some (LVal (JStr prev))"
  "map_of (signed_entry E seq ts kind prev payload) ''ts'' = Some (LFloat ts)"
  "map_of (signed_entry E seq ts kind prev payload) ''type'' = Some (LVal (JStr kind))"
  "map_of (signed_entry E seq ts kind prev payload) ''payload'' = Some (LVal (JObj payload))"
  "map_of (signed_entry E seq ts kind prev payload) ''seq'' = Some (LVal (JInt seq))"
  "map_of (signed_entry E seq ts kind prev payload) ''event'' = None"
  "map_of (signed_entry E seq ts kind prev payload) ''hmac'' = Some (LVal (JStr (sign_entry E seq ts kind prev (LVal (JObj payload)))))"
  by (simp_all add: signed_entry_def)

lemma signed_material:
  "entry_material E' (signed_entry E seq ts kind prev payload) = Some (ts, canonical_material E' seq ts kind prev (LVal (JObj payload)))"
  by (simp add: entry_material_def entry_payload_def dict_get_def json_text_def)

lemma signed_entry_verifies: "verify_hmac E (signed_entry E seq ts kind prev payload) = Inr True"
  using home_is_candidate [of ts "le_epoch E" "le_overlap E"]
  by (auto simp: verify_hmac_def signed_material sign_entry_def)

lemma chained_signed [simp]: "chained E prev (signed_entry E seq ts kind prev payload # recs)
   = chained E (sign_entry E seq ts kind prev (LVal (JObj payload))) recs"
  by (simp add: signed_entry_verifies)

section \<open>Appending and opening\<close>

lemma records_append [simp]:
  "file_records (append_line stem rec d) stem' = file_records d stem' @ (if stem' = stem then [rec] else [])"
  by (simp add: file_records_def file_lines_def append_line_def dict_get_def map_of_update)

definition tip_known :: "ledger_env \<Rightarrow> audit_ledger \<Rightarrow> ledger_disk \<Rightarrow> bool" where
  "tip_known E al d \<longleftrightarrow> chained E (al_self al) (file_records d (al_stem al)) = Some (al_last_hash al)"

lemma record_keeps_tip:
  assumes "tip_known E al d" "al_record E now event payload (al, d) = (rec, al', d')"
  shows "tip_known E al' d'" "al_stem al' = al_stem al" "al_self al' = al_self al" "al_seed al' = al_seed al"
    "file_records d' (al_stem al) = file_records d (al_stem al) @ [rec]" "ld_alerts d' = ld_alerts d"
    "ld_files d' = AList.update (al_stem al) (file_lines d (al_stem al) @ [Some rec]) (ld_files d)"
proof -
  from assms(2) have e: "d' = append_line (al_stem al) rec d" "al_stem al' = al_stem al" "al_self al' = al_self al" "al_seed al' = al_seed al"
    "rec = signed_entry E (al_last_seq al + 1) now event (al_last_hash al) payload" "al_last_hash al' = entry_hmac (map_of rec ''hmac'')"
    by (auto simp: al_record_def Let_def)
  show "tip_known E al' d'" using assms(1) e(5,6) by (simp add: tip_known_def e(1-3) chained_append del: chained.simps(2))
  show "ld_alerts d' = ld_alerts d" "ld_files d' = AList.update (al_stem al) (file_lines d (al_stem al) @ [Some rec]) (ld_files d)"
    by (simp_all add: e(1) append_line_def)
  show "file_records d' (al_stem al) = file_records d (al_stem al) @ [rec]" by (simp add: e(1))
qed (use assms(2) in \<open>auto simp: al_record_def Let_def\<close>)

type_synonym event = "rat \<times> string \<times> (string \<times> json) list"

fun record_all :: "ledger_env \<Rightarrow> event list \<Rightarrow> audit_ledger \<times> ledger_disk \<Rightarrow> audit_ledger \<times> ledger_disk" where
  "record_all E [] s = s"
| "record_all E ((now, event, payload) # evs) s = record_all E evs (snd (al_record E now event payload s))"

text \<open>What an entry says happened, and what it says of an event.\<close>

definition entry_event :: "entry \<Rightarrow> lval option \<times> lval option \<times> lval option" where
  "entry_event rec = (map_of rec ''ts'', map_of rec ''type'', map_of rec ''payload'')"

definition event_fields :: "event \<Rightarrow> lval option \<times> lval option \<times> lval option" where
  "event_fields = (\<lambda>(now, event, payload). (Some (LFloat now), Some (LVal (JStr event)), Some (LVal (JObj payload))))"

lemma record_all_keeps:
  assumes "tip_known E al d" "record_all E evs (al, d) = (al', d')"
  shows "tip_known E al' d' \<and> al_stem al' = al_stem al \<and> al_self al' = al_self al \<and> ld_alerts d' = ld_alerts d
    \<and> (\<exists>es. file_records d' (al_stem al) = file_records d (al_stem al) @ es \<and> map entry_event es = map event_fields evs
         \<and> \<not> uses_legacy es
         \<and> (es = [] \<and> d' = d \<or> ld_files d' = AList.update (al_stem al) (file_lines d (al_stem al) @ map Some es) (ld_files d)))"
  using assms
proof (induction evs arbitrary: al d)
  case Nil
  then show ?case by (auto simp: uses_legacy_def)
next
  case (Cons ev evs)
  obtain now event payload where ev: "ev = (now, event, payload)" by (cases ev)
  obtain rec al1 d1 where r: "al_record E now event payload (al, d) = (rec, al1, d1)" by (cases "al_record E now event payload (al, d)")
  note k = record_keeps_tip [OF Cons.prems(1) r]
  have rec: "entry_event rec = event_fields ev" "dict_has rec ''type''"
    using r by (auto simp: al_record_def Let_def entry_event_def event_fields_def ev dict_has_def)
  from Cons.prems(2) r have "record_all E evs (al1, d1) = (al', d')" by (simp add: ev)
  from Cons.IH [OF k(1) this] obtain es where es: "tip_known E al' d'" "al_stem al' = al_stem al1" "al_self al' = al_self al1"
    "ld_alerts d' = ld_alerts d1" "file_records d' (al_stem al1) = file_records d1 (al_stem al1) @ es"
    "map entry_event es = map event_fields evs" "\<not> uses_legacy es"
    "es = [] \<and> d' = d1 \<or> ld_files d' = AList.update (al_stem al1) (file_lines d1 (al_stem al1) @ map Some es) (ld_files d1)" by blast
  have l1: "file_lines d1 (al_stem al) = file_lines d (al_stem al) @ [Some rec]"
    by (simp add: file_lines_def k(7) dict_get_def map_of_update)
  have "ld_files d' = AList.update (al_stem al) (file_lines d (al_stem al) @ map Some (rec # es)) (ld_files d)"
    using es(8) k(2,7) l1 by auto
  moreover have "\<not> uses_legacy (rec # es)" using es(7) rec(2) by (auto simp: uses_legacy_def)
  moreover have "file_records d' (al_stem al) = file_records d (al_stem al) @ rec # es" using es(5) k(2,5) by simp
  ultimately show ?case using es(1-4,6) k(2,3,6) rec(1) by (auto intro!: exI [of _ "rec # es"])
qed

definition intact :: "ledger_env \<Rightarrow> entry list \<Rightarrow> bool" where
  "intact E recs \<longleftrightarrow> recs = [] \<or> (\<not> uses_legacy recs \<and> (\<exists>start tip. chained E start recs = Some tip))"

lemma chained_start: "chained E start (r # rs) = Some tip \<Longrightarrow> map_of r ''prev_hash'' = Some (LVal (JStr start))"
  by (auto split: if_splits)

lemma new_ledger_self:
  "file_records d stem = [] \<Longrightarrow> al_self (new_ledger d stem) = compute_chain_seed d stem"
  "file_records d stem = r # rs \<Longrightarrow> map_of r ''prev_hash'' = Some (LVal (JStr p)) \<Longrightarrow> al_self (new_ledger d stem) = p"
  by (simp_all add: new_ledger_def read_first_def Let_def)

lemma new_ledger_fields [simp]: "al_stem (new_ledger d stem) = stem" "al_seed (new_ledger d stem) = compute_chain_seed d stem"
  "al_last_hash (new_ledger d stem) = GENESIS"
  by (simp_all add: new_ledger_def Let_def)

lemma seed_tip_fields [simp]: "al_stem (seed_tip_cache al d) = al_stem al" "al_self (seed_tip_cache al d) = al_self al"
  by (simp_all add: seed_tip_cache_def split: option.split)

text \<open>The cached tip is the tip of a verified chain.\<close>

lemma seeded_tip_known:
  assumes "chained E (al_self al) (file_records d (al_stem al)) = Some tip"
    and "file_records d (al_stem al) = [] \<Longrightarrow> al_self al = al_seed al"
  shows "tip_known E (seed_tip_cache al d) d"
proof (cases "file_records d (al_stem al)" rule: rev_cases)
  case Nil
  with assms show ?thesis by (simp add: tip_known_def seed_tip_cache_def read_last_def)
next
  case (snoc recs rec)
  with assms(1) chained_tip(2) [of E "al_self al" recs rec tip] show ?thesis
    by (simp add: tip_known_def seed_tip_cache_def read_last_def)
qed

lemma open_intact:
  assumes "intact E (file_records d stem)"
  shows "\<exists>al. open_ledger E now stem d = (Inr al, d) \<and> tip_known E al d \<and> al_stem al = stem
    \<and> al_self al = al_self (new_ledger d stem)"
proof (cases "file_records d stem")
  case Nil
  then have o: "open_ledger E now stem d = (Inr (seed_tip_cache (new_ledger d stem) d), d)"
    by (simp add: open_ledger_def reconcile_on_open_def Let_def)
  have "tip_known E (seed_tip_cache (new_ledger d stem) d) d"
    using Nil by (intro seeded_tip_known [where tip = "compute_chain_seed d stem"]) (simp_all add: new_ledger_self)
  with o show ?thesis by simp
next
  case (Cons r rs)
  with assms obtain start tip where c: "chained E start (r # rs) = Some tip" "\<not> uses_legacy (r # rs)" by (auto simp: intact_def)
  have s: "al_self (new_ledger d stem) = start" by (rule new_ledger_self(2) [OF Cons chained_start [OF c(1)]])
  have "verify_from E start 0 (r # rs) = Inr (good_state (length (r # rs)) tip)" using verify_from_chained [OF c(1), of 0] by simp
  then have o: "open_ledger E now stem d = (Inr (seed_tip_cache (new_ledger d stem) d), d)"
    using Cons c(2) s by (simp add: open_ledger_def reconcile_on_open_def Let_def verify_path_def good_state_def del: verify_from.simps)
  have "tip_known E (seed_tip_cache (new_ledger d stem) d) d"
    using Cons c(1) s by (intro seeded_tip_known [where tip = tip]) (simp_all del: chained.simps)
  with o show ?thesis by simp
qed

lemma tip_known_verifies:
  "tip_known E al d \<Longrightarrow> al_verify E al d = Inr (good_state (length (file_records d (al_stem al))) (al_last_hash al))"
  using verify_from_chained [of E "al_self al" "file_records d (al_stem al)" "al_last_hash al" 0]
  by (simp add: tip_known_def al_verify_def verify_path_def)

end
