(* ===== verification/Audit_Days.thy ===== *)
theory Audit_Days
  imports Audit_Tamper
begin

text \<open>
  The chain across day files: what the ledgers of successive days leave on disk is one chain, which the
  cross-day check accepts, and from which no day can be removed unnoticed except at the end.
\<close>

definition day_stem :: "string \<Rightarrow> string" where
  "day_stem stamp = ''ledger-'' @ stamp"

definition valid_stamp :: "string \<Rightarrow> bool" where
  "valid_stamp stamp \<longleftrightarrow> length stamp = 8 \<and> (\<forall>c \<in> set stamp. py_isdigit c)"

lemma daily_stamp_iff: "daily_stamp stem = Some stamp \<longleftrightarrow> stem = day_stem stamp \<and> valid_stamp stamp"
  by (auto simp: daily_stamp_def day_stem_def valid_stamp_def prefix_def)

lemma day_stem_inj [simp]: "day_stem a = day_stem b \<longleftrightarrow> a = b"
  by (simp add: day_stem_def)

section \<open>Chains of files\<close>

fun day_chain :: "ledger_env \<Rightarrow> string \<Rightarrow> entry list list \<Rightarrow> string option" where
  "day_chain E prev [] = Some prev"
| "day_chain E prev (recs # files) = Option.bind (chained E prev recs) (\<lambda>tip. day_chain E tip files)"

lemma day_chain_append: "day_chain E prev (xs @ ys) = Option.bind (day_chain E prev xs) (\<lambda>tip. day_chain E tip ys)"
  by (induction xs arbitrary: prev) auto

lemma day_chain_concat: "day_chain E prev files = chained E prev (concat files)"
  by (induction files arbitrary: prev) (simp_all add: chained_append)

definition sib_records :: "ledger_disk \<Rightarrow> (string \<times> string) list \<Rightarrow> entry list list" where
  "sib_records d sibs = map (\<lambda>(stamp, stem). file_records d stem) sibs"

lemma verify_days_chain:
  "day_chain E prev (sib_records d sibs) = Some tip \<Longrightarrow>
   verify_days E d sibs prev n = Inr (None, good_state (n + length (concat (sib_records d sibs))) tip)"
proof (induction sibs arbitrary: prev n)
  case (Cons s sibs)
  obtain stamp stem where s: "s = (stamp, stem)" by (cases s)
  from Cons.prems obtain t where t: "chained E prev (file_records d stem) = Some t" "day_chain E t (sib_records d sibs) = Some tip"
    by (auto simp: sib_records_def s bind_eq_Some_conv)
  have v: "verify_from E prev 0 (file_records d stem) = Inr (good_state (length (file_records d stem)) t)"
    using verify_from_chained [OF t(1), of 0] by simp
  have "verify_days E d sibs t (n + length (file_records d stem))
     = Inr (None, good_state (n + length (file_records d stem) + length (concat (sib_records d sibs))) tip)" by (rule Cons.IH [OF t(2)])
  with v t show ?case by (auto simp: s sib_records_def good_state_def)
qed (simp add: sib_records_def)

lemma verify_days_ok:
  "verify_days E d sibs prev n = Inr (None, st) \<Longrightarrow> day_chain E prev (sib_records d sibs) = Some (ls_last st)"
proof (induction sibs arbitrary: prev n)
  case (Cons s sibs)
  obtain stamp stem where s: "s = (stamp, stem)" by (cases s)
  from Cons.prems obtain st1 where v: "verify_from E prev 0 (file_records d stem) = Inr st1" "ls_ok st1"
    by (auto simp: s split: sum.splits if_splits)
  then obtain t where t: "chained E prev (file_records d stem) = Some t" "st1 = good_state (length (file_records d stem)) t"
    using verify_from_ok [of E prev 0 "file_records d stem" st1] by auto
  with Cons.prems v have "verify_days E d sibs t (n + length (file_records d stem)) = Inr (None, st)"
    by (auto simp: s good_state_def split: if_splits)
  from Cons.IH [OF this] t show ?case by (simp add: s sib_records_def)
qed (auto simp: sib_records_def good_state_def)

lemma verify_days_broken:
  "verify_days E d sibs prev n = Inr (Some stamp, st) \<Longrightarrow> \<not> ls_ok st"
  by (induction sibs arbitrary: prev n) (auto split: sum.splits if_splits prod.splits)

section \<open>Successive days\<close>

fun run_days :: "ledger_env \<Rightarrow> (string \<times> rat \<times> event list) list \<Rightarrow> ledger_disk \<Rightarrow> ledger_error + ledger_disk" where
  "run_days E [] d = Inr d"
| "run_days E ((stamp, now, evs) # days) d =
     (case open_ledger E now (day_stem stamp) d of
        (Inl e, d) \<Rightarrow> Inl e
      | (Inr al, d) \<Rightarrow> run_days E days (snd (record_all E evs (al, d))))"

type_synonym day_files = "(string \<times> lines) list"

definition days_on_disk :: "ledger_env \<Rightarrow> day_files \<Rightarrow> ledger_disk \<Rightarrow> bool" where
  "days_on_disk E fs d \<longleftrightarrow> ld_files d = map (\<lambda>(stamp, ls). (day_stem stamp, ls)) fs
     \<and> (\<forall>(stamp, ls) \<in> set fs. valid_stamp stamp) \<and> sorted_wrt (<) (map fst fs)
     \<and> day_chain E GENESIS (map (read_jsonl \<circ> snd) fs) \<noteq> None"

lemma sorted_siblings:
  assumes "ld_files d = map (\<lambda>(stamp, ls). (day_stem stamp, ls)) fs" "\<forall>(stamp, ls) \<in> set fs. valid_stamp stamp"
    "sorted_wrt (<) (map fst fs)"
  shows "sibling_daily_files d = map (\<lambda>(stamp, ls). (stamp, day_stem stamp)) fs"
proof -
  have "concat (map (\<lambda>stem. case daily_stamp stem of None \<Rightarrow> [] | Some st \<Rightarrow> [(st, stem)]) (map fst (map (\<lambda>(stamp, ls). (day_stem stamp, ls)) fs)))
      = map (\<lambda>(stamp, ls). (stamp, day_stem stamp)) fs" using assms(2)
  proof (induction fs)
    case (Cons f fs)
    obtain stamp ls where f: "f = (stamp, ls)" by (cases f)
    from Cons.prems f have "daily_stamp (day_stem stamp) = Some stamp" by (simp add: daily_stamp_iff)
    with Cons f show ?case by simp
  qed simp
  moreover have "sorted (map fst (map (\<lambda>(stamp, ls). (stamp, day_stem stamp)) fs))"
  proof -
    have "map fst (map (\<lambda>(stamp, ls). (stamp, day_stem stamp)) fs) = map fst fs" by (simp add: case_prod_beta)
    with strict_sorted_imp_sorted [OF assms(3)] show ?thesis by metis
  qed
  ultimately show ?thesis by (simp add: sibling_daily_files_def assms(1) sort_key_id_if_sorted del: map_map)
qed

lemma day_lookup:
  assumes "ld_files d = map (\<lambda>(stamp, ls). (day_stem stamp, ls)) fs" "sorted_wrt (<) (map fst fs)"
  shows "\<forall>(stamp, ls) \<in> set fs. file_lines d (day_stem stamp) = ls"
    "stamp \<notin> set (map fst fs) \<Longrightarrow> map_of (ld_files d) (day_stem stamp) = None"
proof -
  have m: "map_of (ld_files d) (day_stem s) = map_of fs s" for s
    unfolding assms(1) by (induction fs) auto
  have "distinct (map fst fs)" using assms(2) by (simp add: strict_sorted_iff)
  with m show "\<forall>(stamp, ls) \<in> set fs. file_lines d (day_stem stamp) = ls" by (auto simp: file_lines_def dict_get_def)
  show "stamp \<notin> set (map fst fs) \<Longrightarrow> map_of (ld_files d) (day_stem stamp) = None" by (simp add: m map_of_eq_None_iff)
qed

lemma sib_records_days:
  assumes "ld_files d = map (\<lambda>(stamp, ls). (day_stem stamp, ls)) fs" "sorted_wrt (<) (map fst fs)"
  shows "sib_records d (map (\<lambda>(stamp, ls). (stamp, day_stem stamp)) fs) = map (read_jsonl \<circ> snd) fs"
  using day_lookup(1) [OF assms] by (auto simp: sib_records_def file_records_def)

text \<open>The newest tip that a later day starts from is the tip of the chain.\<close>

lemma seed_of_chain:
  assumes "day_chain E prev (sib_records d sibs) = Some tip" "\<forall>(s, stem) \<in> set sibs. s < stamp"
  shows "fold (\<lambda>(st, sib) t. if st \<ge> stamp then t
           else (case read_last d sib of None \<Rightarrow> t | Some rec \<Rightarrow> (case tip_of rec of None \<Rightarrow> t | Some h \<Rightarrow> h))) sibs prev = tip"
  using assms
proof (induction sibs arbitrary: prev)
  case (Cons s sibs)
  obtain st stem where s: "s = (st, stem)" by (cases s)
  from Cons.prems obtain t where t: "chained E prev (file_records d stem) = Some t" "day_chain E t (sib_records d sibs) = Some tip"
    by (auto simp: sib_records_def s bind_eq_Some_conv)
  have "(case read_last d stem of None \<Rightarrow> prev | Some rec \<Rightarrow> (case tip_of rec of None \<Rightarrow> prev | Some h \<Rightarrow> h)) = t"
  proof (cases "file_records d stem" rule: rev_cases)
    case (snoc recs rec)
    with t(1) chained_tip(2) [of E prev recs rec t] show ?thesis by (simp add: read_last_def)
  qed (use t(1) in \<open>simp add: read_last_def\<close>)
  moreover have "\<not> stamp \<le> st" using Cons.prems(2) s by auto
  ultimately show ?case using Cons.IH [OF t(2)] Cons.prems(2) s by simp
qed (simp add: sib_records_def)

lemma day_step:
  assumes "days_on_disk E fs d" "valid_stamp stamp" "\<forall>s \<in> set (map fst fs). s < stamp"
  shows "\<exists>al. open_ledger E now (day_stem stamp) d = (Inr al, d)
    \<and> (\<exists>es. map entry_event es = map event_fields evs \<and> days_on_disk E (if es = [] then fs else fs @ [(stamp, map Some es)]) (snd (record_all E evs (al, d)))
         \<and> ld_alerts (snd (record_all E evs (al, d))) = ld_alerts d)"
proof -
  from assms(1) obtain tip where w: "ld_files d = map (\<lambda>(stamp, ls). (day_stem stamp, ls)) fs"
    "\<forall>(stamp, ls) \<in> set fs. valid_stamp stamp" "sorted_wrt (<) (map fst fs)"
    "day_chain E GENESIS (map (read_jsonl \<circ> snd) fs) = Some tip" by (auto simp: days_on_disk_def)
  let ?sibs = "map (\<lambda>(stamp, ls). (stamp, day_stem stamp)) fs"
  have new: "map_of (ld_files d) (day_stem stamp) = None" using day_lookup(2) [OF w(1,3)] assms(3) by blast
  then have none: "file_lines d (day_stem stamp) = []" "file_records d (day_stem stamp) = []"
    by (simp_all add: file_lines_def file_records_def dict_get_def)
  have "daily_stamp (day_stem stamp) = Some stamp" using assms(2) by (simp add: daily_stamp_iff)
  moreover have "\<forall>(s, stem) \<in> set ?sibs. s < stamp" using assms(3) by auto
  ultimately have seed: "compute_chain_seed d (day_stem stamp) = tip"
    using seed_of_chain [of E GENESIS d ?sibs tip stamp] w(4)
    by (simp add: compute_chain_seed_def sorted_siblings [OF w(1-3)] sib_records_days [OF w(1,3)])
  obtain al where al: "open_ledger E now (day_stem stamp) d = (Inr al, d)" "tip_known E al d" "al_stem al = day_stem stamp" "al_self al = tip"
    using open_intact [of E d "day_stem stamp" now] none(2) seed by (auto simp: intact_def new_ledger_self)
  obtain al' d' where r: "record_all E evs (al, d) = (al', d')" by fastforce
  from record_all_keeps [OF al(2) r] al(3,4) none obtain es where es: "tip_known E al' d'" "al_stem al' = day_stem stamp" "al_self al' = tip"
    "ld_alerts d' = ld_alerts d" "file_records d' (day_stem stamp) = es" "map entry_event es = map event_fields evs"
    "es = [] \<and> d' = d \<or> ld_files d' = AList.update (day_stem stamp) (map Some es) (ld_files d)" by auto
  have "days_on_disk E (if es = [] then fs else fs @ [(stamp, map Some es)]) d'"
  proof (cases "es = []")
    case True
    then have "evs = []" using es(6) by simp
    with r True assms(1) show ?thesis by simp
  next
    case False
    have f: "ld_files d' = ld_files d @ [(day_stem stamp, map Some es)]"
      using es(7) False new by (auto simp: map_of_eq_None_iff update_new)
    have "chained E tip es = Some (al_last_hash al')" using es(1,2,3,5) by (simp add: tip_known_def)
    then have "day_chain E GENESIS (map (read_jsonl \<circ> snd) (fs @ [(stamp, map Some es)])) \<noteq> None"
      unfolding map_append day_chain_append w(4) by simp
    moreover have "sorted_wrt (<) (map fst (fs @ [(stamp, map Some es)]))"
      unfolding map_append sorted_wrt_append using w(3) assms(3) by simp
    moreover have "\<forall>(s, ls) \<in> set (fs @ [(stamp, map Some es)]). valid_stamp s" using w(2) assms(2) by auto
    moreover have "ld_files d' = map (\<lambda>(stamp, ls). (day_stem stamp, ls)) (fs @ [(stamp, map Some es)])" using f w(1) by simp
    ultimately have "days_on_disk E (fs @ [(stamp, map Some es)]) d'" unfolding days_on_disk_def by (intro conjI)
    with False show ?thesis by (simp only: if_False)
  qed
  then show ?thesis using al(1) r es(4,6) by (intro exI [of _ al] exI [of _ es] conjI) simp_all
qed

lemma run_days_chain:
  "days_on_disk E fs d \<Longrightarrow> \<forall>(stamp, now, evs) \<in> set days. valid_stamp stamp \<and> (\<forall>s \<in> set (map fst fs). s < stamp) \<Longrightarrow>
   sorted_wrt (<) (map fst days) \<Longrightarrow>
   \<exists>d' fs'. run_days E days d = Inr d' \<and> days_on_disk E fs' d' \<and> ld_alerts d' = ld_alerts d
     \<and> map entry_event (concat (map (read_jsonl \<circ> snd) fs'))
       = map entry_event (concat (map (read_jsonl \<circ> snd) fs)) @ map event_fields (concat (map (snd \<circ> snd) days))"
proof (induction days arbitrary: fs d)
  case (Cons day days)
  obtain stamp now evs where day: "day = (stamp, now, evs)" by (cases day)
  from Cons.prems(2) day have st: "valid_stamp stamp" "\<forall>s \<in> set (map fst fs). s < stamp" by auto
  from day_step [OF Cons.prems(1) st, of now evs] obtain al es d1 where s: "open_ledger E now (day_stem stamp) d = (Inr al, d)"
    "map entry_event es = map event_fields evs" "snd (record_all E evs (al, d)) = d1"
    "days_on_disk E (if es = [] then fs else fs @ [(stamp, map Some es)]) d1" "ld_alerts d1 = ld_alerts d" by blast
  define fs1 where "fs1 = (if es = [] then fs else fs @ [(stamp, map Some es)])"
  have "set (map fst fs1) \<subseteq> insert stamp (set (map fst fs))" by (auto simp: fs1_def)
  moreover have "\<forall>s \<in> set (map fst days). stamp < s" using Cons.prems(3) day by simp
  ultimately have "\<forall>(stamp, now, evs) \<in> set days. valid_stamp stamp \<and> (\<forall>s \<in> set (map fst fs1). s < stamp)"
    using Cons.prems(2) st(2) by fastforce
  moreover have "sorted_wrt (<) (map fst days)" using Cons.prems(3) by simp
  ultimately obtain d' fs' where r: "run_days E days d1 = Inr d'" "days_on_disk E fs' d'"
    "ld_alerts d' = ld_alerts d1" "map entry_event (concat (map (read_jsonl \<circ> snd) fs'))
       = map entry_event (concat (map (read_jsonl \<circ> snd) fs1)) @ map event_fields (concat (map (snd \<circ> snd) days))"
    using Cons.IH [OF s(4) [folded fs1_def]] by blast
  have "map entry_event (concat (map (read_jsonl \<circ> snd) fs1)) = map entry_event (concat (map (read_jsonl \<circ> snd) fs)) @ map event_fields evs"
    using s(2) by (cases "es = []") (auto simp: fs1_def)
  with r(4) have "map entry_event (concat (map (read_jsonl \<circ> snd) fs'))
       = map entry_event (concat (map (read_jsonl \<circ> snd) fs)) @ map event_fields (concat (map (snd \<circ> snd) (day # days)))"
    by (simp add: day)
  moreover have "run_days E (day # days) d = Inr d'" using s(1,3) r(1) by (simp add: day)
  moreover have "ld_alerts d' = ld_alerts d" using r(3) s(5) by simp
  ultimately show ?case using r(2) by (intro exI [of _ d'] exI [of _ fs'] conjI)
qed auto

section \<open>Removing a day\<close>

lemma sibling_deleted:
  assumes "daily_stamp stem = Some stamp"
  shows "sibling_daily_files (d\<lparr>ld_files := AList.delete stem (ld_files d)\<rparr>) = filter (\<lambda>s. s \<noteq> (stamp, stem)) (sibling_daily_files d)"
proof -
  have "concat (map (\<lambda>stem. case daily_stamp stem of None \<Rightarrow> [] | Some st \<Rightarrow> [(st, stem)]) (filter (\<lambda>x. x \<noteq> stem) ks))
      = filter (\<lambda>s. s \<noteq> (stamp, stem)) (concat (map (\<lambda>stem. case daily_stamp stem of None \<Rightarrow> [] | Some st \<Rightarrow> [(st, stem)]) ks))" for ks
    using assms by (induction ks) (auto split: option.split)
  then show ?thesis by (simp add: sibling_daily_files_def keys_delete filter_sort)
qed

lemma records_deleted: "stem' \<noteq> stem \<Longrightarrow> file_records (d\<lparr>ld_files := AList.delete stem (ld_files d)\<rparr>) stem' = file_records d stem'"
  by (simp add: file_records_def file_lines_def dict_get_def delete_conv)

lemma sibling_facts:
  assumes "dict_wf (ld_files d)"
  shows "distinct (sibling_daily_files d)" "sorted (map fst (sibling_daily_files d))"
    "(st, stem) \<in> set (sibling_daily_files d) \<longleftrightarrow> daily_stamp stem = Some st \<and> dict_has (ld_files d) stem"
proof -
  define ks where "ks = dict_keys (ld_files d)"
  define f where "f = (\<lambda>stem. case daily_stamp stem of None \<Rightarrow> [] | Some st \<Rightarrow> [(st, stem)])"
  have "distinct ks \<Longrightarrow> distinct (concat (map f ks))"
    by (induction ks) (auto simp: f_def split: option.splits)
  then show "distinct (sibling_daily_files d)" using assms
    by (simp add: sibling_daily_files_def dict_wf_def ks_def f_def)
  show "sorted (map fst (sibling_daily_files d))" by (simp add: sibling_daily_files_def)
  show "(st, stem) \<in> set (sibling_daily_files d) \<longleftrightarrow> daily_stamp stem = Some st \<and> dict_has (ld_files d) stem"
    by (force simp: sibling_daily_files_def dict_has_keys split: option.splits)
qed

lemma cross_day_ok:
  "verify_cross_day E al alert d = (Inr st, d') \<Longrightarrow> ls_ok st \<Longrightarrow> sibling_daily_files d \<noteq> [] \<Longrightarrow>
   d' = d \<and> day_chain E GENESIS (sib_records d (sibling_daily_files d)) = Some (ls_last st)"
  by (auto simp: verify_cross_day_def Let_def dest: verify_days_ok verify_days_broken split: sum.splits option.splits if_splits)

lemma days_cross_day:
  assumes "days_on_disk E fs d"
  shows "sib_records d (sibling_daily_files d) = map (read_jsonl \<circ> snd) fs"
    "\<exists>tip. verify_cross_day E (new_ledger d stem) alert d = (Inr (good_state (length (concat (map (read_jsonl \<circ> snd) fs))) tip), d)"
    "fs \<noteq> [] \<Longrightarrow> \<exists>tip. verify_cross_day E al alert d = (Inr (good_state (length (concat (map (read_jsonl \<circ> snd) fs))) tip), d)"
proof -
  from assms obtain tip where w: "ld_files d = map (\<lambda>(stamp, ls). (day_stem stamp, ls)) fs"
    "\<forall>(stamp, ls) \<in> set fs. valid_stamp stamp" "sorted_wrt (<) (map fst fs)"
    "day_chain E GENESIS (map (read_jsonl \<circ> snd) fs) = Some tip" by (auto simp: days_on_disk_def)
  note sorted = sorted_siblings [OF w(1-3)]
  show sib: "sib_records d (sibling_daily_files d) = map (read_jsonl \<circ> snd) fs"
    unfolding sorted by (rule sib_records_days [OF w(1,3)])
  have "verify_days E d (sibling_daily_files d) GENESIS 0 = Inr (None, good_state (length (concat (map (read_jsonl \<circ> snd) fs))) tip)"
    using verify_days_chain [of E GENESIS d "sibling_daily_files d" tip 0] w(4) by (simp only: sib) simp
  then have "sibling_daily_files d \<noteq> [] \<Longrightarrow> verify_cross_day E al' alert d
      = (Inr (good_state (length (concat (map (read_jsonl \<circ> snd) fs))) tip), d)" for al'
    by (simp add: verify_cross_day_def Let_def)
  moreover have "sibling_daily_files d = [] \<longleftrightarrow> fs = []" by (simp add: sorted)
  ultimately show "fs \<noteq> [] \<Longrightarrow> \<exists>tip. verify_cross_day E al alert d = (Inr (good_state (length (concat (map (read_jsonl \<circ> snd) fs))) tip), d)"
    "\<exists>tip. verify_cross_day E (new_ledger d stem) alert d = (Inr (good_state (length (concat (map (read_jsonl \<circ> snd) fs))) tip), d)"
    using w(1) by (auto simp: verify_cross_day_def al_verify_def verify_path_def file_records_def file_lines_def dict_get_def)
qed

lemma days_verified:
  assumes "ld_files d = []" "\<forall>(stamp, now, evs) \<in> set days. valid_stamp stamp" "sorted_wrt (<) (map fst days)"
  shows "\<exists>d' fs. run_days E days d = Inr d' \<and> days_on_disk E fs d' \<and> ld_alerts d' = ld_alerts d
    \<and> map entry_event (concat (map (read_jsonl \<circ> snd) fs)) = map event_fields (concat (map (snd \<circ> snd) days))"
proof -
  have "days_on_disk E [] d" using assms(1) by (simp add: days_on_disk_def)
  moreover have "\<forall>(stamp, now, evs) \<in> set days. valid_stamp stamp \<and> (\<forall>s \<in> set (map fst []). s < stamp)" using assms(2) by simp
  ultimately show ?thesis using run_days_chain [of E "[]" d days] assms(3) by auto
qed

section \<open>Properties\<close>

text \<open>C20: The days form one chain. Starting without files, let the ledger be opened on successive days and record any
  events on each. Every opening succeeds without an alert, and then the cross-day check accepts the files and counts
  exactly the events, which the files hold in their order.\<close>

theorem days_form_one_chain:
  assumes "ld_files d = []" "\<forall>(stamp, now, evs) \<in> set days. valid_stamp stamp" "sorted_wrt (<) (map fst days)"
  shows "\<exists>d' st. run_days E days d = Inr d' \<and> ld_alerts d' = ld_alerts d
    \<and> map entry_event (concat (sib_records d' (sibling_daily_files d'))) = map event_fields (concat (map (snd \<circ> snd) days))
    \<and> verify_cross_day E (new_ledger d' stem) True d' = (Inr st, d') \<and> ls_ok st
    \<and> ls_length st = length (concat (map (snd \<circ> snd) days))"
proof -
  from days_verified [OF assms, of E] obtain d' fs where r: "run_days E days d = Inr d'" "days_on_disk E fs d'" "ld_alerts d' = ld_alerts d"
    "map entry_event (concat (map (read_jsonl \<circ> snd) fs)) = map event_fields (concat (map (snd \<circ> snd) days))" by blast
  have n: "length (concat (map (read_jsonl \<circ> snd) fs)) = length (concat (map (snd \<circ> snd) days))"
    using arg_cong [OF r(4), of length] by (simp only: length_map)
  obtain tip where "verify_cross_day E (new_ledger d' stem) True d' = (Inr (good_state (length (concat (map (read_jsonl \<circ> snd) fs))) tip), d')"
    using days_cross_day(2) [OF r(2)] by blast
  with r n days_cross_day(1) [OF r(2)] show ?thesis
    by (intro exI [of _ d'] exI [of _ "good_state (length (concat (map (read_jsonl \<circ> snd) fs))) tip"] conjI) (simp_all only:, simp_all add: good_state_def)
qed

definition demo_ledger :: ledger_env where
  "demo_ledger = \<lparr>le_secret = map byte_of ''secret'', le_epoch = 86400, le_overlap = 300, le_deployment = ''production'',
     le_float_text = (\<lambda>r. show_int (fst (quotient_of r)) @ ''e'' @ show_int (snd (quotient_of r))), le_to_float = (\<lambda>s. None)\<rparr>"

definition demo_days :: "(string \<times> rat \<times> event list) list" where
  "demo_days = [(''20250101'', 1, [(1, ''login'', []), (2, ''pay'', [(''n'', JInt 5)])]), (''20250102'', 86401, [(86402, ''login'', [])])]"

definition empty_disk :: ledger_disk where "empty_disk = \<lparr>ld_files = [], ld_alerts = []\<rparr>"

lemma demo_days_ok: "\<forall>(stamp, now, evs) \<in> set demo_days. valid_stamp stamp" "sorted_wrt (<) (map fst demo_days)" "ld_files empty_disk = []"
  by (simp_all add: demo_days_def valid_stamp_def py_isdigit_def char_code_def empty_disk_def less_list_code less_char_def)

theorem days_form_one_chain_witness:
  "\<exists>d st. run_days demo_ledger demo_days empty_disk = Inr d
     \<and> verify_cross_day demo_ledger (new_ledger d (day_stem ''20250102'')) True d = (Inr st, d) \<and> ls_ok st \<and> ls_length st = 3"
  using days_form_one_chain [OF demo_days_ok(3,1,2), of demo_ledger "day_stem ''20250102''"] by (auto simp: demo_days_def)

text \<open>A removed day is noticed. Take files the cross-day check accepts, and remove the file of a day that held entries,
  when some later day holds entries too. In production the check then raises, with an alert, unless the last entry of
  the removed day has the same HMAC as the entry its first one links to.\<close>

theorem deleted_day_is_detected:
  assumes "verify_cross_day E al alert d = (Inr st, d)" "ls_ok st" "dict_wf (ld_files d)" "le_deployment E \<noteq> ''development''"
    and "daily_stamp stem = Some stamp" "dict_has (ld_files d) stem" "file_records d stem = recs @ [rec]"
    and "daily_stamp later = Some stamp'" "dict_has (ld_files d) later" "stamp < stamp'" "file_records d later \<noteq> []"
  shows "(\<exists>e. fst (verify_cross_day E al' True (d\<lparr>ld_files := AList.delete stem (ld_files d)\<rparr>)) = Inl e)
    \<or> map_of (hd (recs @ [rec])) ''prev_hash'' = map_of rec ''hmac''"
proof (rule disjCI)
  assume ne: "map_of (hd (recs @ [rec])) ''prev_hash'' \<noteq> map_of rec ''hmac''"
  define d' where "d' = d\<lparr>ld_files := AList.delete stem (ld_files d)\<rparr>"
  define S where "S = sibling_daily_files d"
  note facts = sibling_facts [OF assms(3), folded S_def]
  have "(stamp, stem) \<in> set S" "(stamp', later) \<in> set S" using assms(5,6,8,9) facts(3) by auto
  then obtain A B where S: "S = A @ (stamp, stem) # B" by (meson split_list)
  have notA: "(stamp', later) \<notin> set A" using facts(2) assms(10) by (auto simp: S sorted_append)
  have inB: "(stamp', later) \<in> set B" using \<open>(stamp', later) \<in> set S\<close> notA assms(10) by (auto simp: S)
  have "filter (\<lambda>s. s \<noteq> (stamp, stem)) A = A" "filter (\<lambda>s. s \<noteq> (stamp, stem)) B = B"
    using facts(1) by (auto simp: S filter_id_conv)
  then have S': "sibling_daily_files d' = A @ B" using sibling_deleted [OF assms(5), of d]
    by (simp add: d'_def S_def [symmetric]) (simp add: S)
  have others: "sem \<noteq> stem" if "(s, sem) \<in> set (A @ B)" for s sem
  proof
    assume "sem = stem"
    then have "s = stamp" using that facts(3) [of s stem] assms(5) by (auto simp: S)
    with that \<open>sem = stem\<close> facts(1) show False by (auto simp: S)
  qed
  have recs': "sib_records d' (A @ B) = sib_records d (A @ B)"
  proof -
    have "file_records d' sem = file_records d sem" if "(s, sem) \<in> set (A @ B)" for s sem
      unfolding d'_def by (rule records_deleted) (rule others [OF that])
    then show ?thesis unfolding sib_records_def by (intro map_cong) auto
  qed
  define a where "a = concat (sib_records d A)"
  define b where "b = concat (sib_records d B)"
  have full: "chained E GENESIS (a @ (recs @ [rec]) @ b) = Some (ls_last st)"
    using cross_day_ok [OF assms(1,2)] S assms(7) by (simp add: S_def [symmetric] day_chain_concat a_def b_def sib_records_def)
  have "b \<noteq> []" using inB assms(11) by (force simp: b_def sib_records_def)
  then obtain b1 bs where b: "b = b1 # bs" by (cases b) auto
  obtain p where p: "chained E GENESIS a = Some p" "chained E p ((recs @ [rec]) @ b) = Some (ls_last st)"
    using full by (auto simp: chained_append bind_eq_Some_conv)
  obtain q where q: "chained E p (recs @ [rec]) = Some q" "chained E q b = Some (ls_last st)"
    using p(2) unfolding chained_append [of E p "recs @ [rec]" b] bind_eq_Some_conv by blast
  have "map_of (hd (recs @ [rec])) ''prev_hash'' = Some (LVal (JStr p))" using chained_start [of E p "hd (recs @ [rec])" "tl (recs @ [rec])" q] q(1)
    by simp
  with ne chained_tip(1) [OF q(1)] have "p \<noteq> q" by auto
  with chained_start [OF q(2) [unfolded b]] have bad: "chained E GENESIS (a @ b) = None"
    by (auto simp: chained_append p(1) b)
  have "day_chain E GENESIS (sib_records d' (A @ B)) = None"
    unfolding recs' day_chain_concat using bad by (simp add: a_def b_def sib_records_def)
  then have "verify_days E d' (A @ B) GENESIS 0 \<noteq> Inr (None, st')" for st'
    using verify_days_ok [of E d' "A @ B" GENESIS 0 st'] by auto
  moreover have "A @ B \<noteq> []" using inB by auto
  ultimately show "\<exists>e. fst (verify_cross_day E al' True d') = Inl e"
    using assms(4) by (auto simp: verify_cross_day_def S' Let_def split: sum.split option.split prod.split)
qed

text \<open>The files of the two days of the demonstration.\<close>

lemma demo_two_days: "\<exists>d x y z. ld_files d = [(day_stem ''20250101'', [Some x, Some y]), (day_stem ''20250102'', [Some z])]
    \<and> days_on_disk demo_ledger [(''20250101'', [Some x, Some y]), (''20250102'', [Some z])] d"
proof -
  have v: "valid_stamp ''20250101''" "valid_stamp ''20250102''" "''20250101'' < (''20250102'' :: string)"
    by (simp_all add: valid_stamp_def py_isdigit_def char_code_def less_list_code less_char_def)
  have "days_on_disk demo_ledger [] empty_disk" by (simp add: days_on_disk_def empty_disk_def)
  from day_step [OF this v(1), of 1 "[(1, ''login'', []), (2, ''pay'', [(''n'', JInt 5)])]"] obtain d1 x y where
    1: "days_on_disk demo_ledger [(''20250101'', [Some x, Some y])] d1" by (auto simp: Cons_eq_map_conv)
  from day_step [OF this v(2), of 86401 "[(86402, ''login'', [])]"] v(3) obtain d2 z where
    2: "days_on_disk demo_ledger [(''20250101'', [Some x, Some y]), (''20250102'', [Some z])] d2" by (auto simp: Cons_eq_map_conv)
  then have "ld_files d2 = [(day_stem ''20250101'', [Some x, Some y]), (day_stem ''20250102'', [Some z])]" by (simp add: days_on_disk_def)
  with 2 show ?thesis by blast
qed

theorem deleted_day_is_detected_witness:
  "\<exists>d x y. ld_files d \<noteq> [] \<and> file_records d (day_stem ''20250101'') = [x, y]
     \<and> ((\<exists>e. fst (verify_cross_day demo_ledger (new_ledger d []) True (d\<lparr>ld_files := AList.delete (day_stem ''20250101'') (ld_files d)\<rparr>)) = Inl e)
        \<or> map_of x ''prev_hash'' = map_of y ''hmac'')"
proof -
  obtain d x y z where d: "ld_files d = [(day_stem ''20250101'', [Some x, Some y]), (day_stem ''20250102'', [Some z])]"
    "days_on_disk demo_ledger [(''20250101'', [Some x, Some y]), (''20250102'', [Some z])] d" using demo_two_days by blast
  from days_cross_day(3) [OF d(2), of "new_ledger d []" False] obtain st where v: "verify_cross_day demo_ledger (new_ledger d []) False d = (Inr st, d)"
    "ls_ok st" by (auto simp: good_state_def)
  have s: "daily_stamp (day_stem ''20250101'') = Some ''20250101''" "daily_stamp (day_stem ''20250102'') = Some ''20250102''"
    using d(2) by (simp_all add: daily_stamp_iff days_on_disk_def)
  have r: "file_records d (day_stem ''20250101'') = [x] @ [y]" "file_records d (day_stem ''20250102'') = [z]"
    by (simp_all add: file_records_def file_lines_def d(1) dict_get_def)
  have "''20250101'' < (''20250102'' :: string)" using d(2) by (simp add: days_on_disk_def)
  from deleted_day_is_detected [OF v _ _ s(1) _ r(1) s(2) _ this, of "new_ledger d []"] r d(1) show ?thesis
    by (intro exI [of _ d] exI [of _ x] exI [of _ y]) (simp add: dict_wf_def dict_has_def demo_ledger_def)
qed

end
