(* ===== verification/Audit_Open.thy ===== *)
theory Audit_Open
  imports Audit_Days
begin

text \<open>
  What a chain binds, and what opening a ledger does with a file that is not a verified chain.
\<close>

section \<open>Signed content\<close>

text \<open>The repr of a float: never a character that structures JSON, and different for different floats.\<close>

definition float_text_ok :: "ledger_env \<Rightarrow> bool" where
  "float_text_ok E \<longleftrightarrow> (\<forall>r. \<forall>c \<in> set (le_float_text E r). plain_char c) \<and> inj (le_float_text E)"

lemma plain_colon: "scannable '':''"
  by (rule scannable_plain) (simp add: plain_char_def)

lemma scannable_lval: "float_text_ok E \<Longrightarrow> scannable (dumps_lval E '','' '':'' v)"
  by (cases v) (auto simp: float_text_ok_def scannable_dumps intro: scannable_plain)

lemma material_determines:
  assumes "float_text_ok E" "canonical_material E seq ts kind prev payload = canonical_material E seq' ts' kind' prev' payload'"
  shows "seq = seq'" "ts = ts'" "kind = kind'" "prev = prev'"
    "dumps_lval E '','' '':'' payload = dumps_lval E '','' '':'' payload'"
proof -
  let ?ss = "\<lambda>seq ts kind prev payload.
       [ascii_string ''payload'' @ '':'' @ dumps_lval E '','' '':'' payload, ascii_string ''prev_hash'' @ '':'' @ ascii_string prev,
        ascii_string ''seq'' @ '':'' @ show_int seq, ascii_string ''ts'' @ '':'' @ le_float_text E ts, ascii_string ''type'' @ '':'' @ ascii_string kind]"
  have sc: "\<forall>s \<in> set (?ss seq ts kind prev payload). scannable s" for seq ts kind prev payload
    using assms(1) scannable_lval [OF assms(1), of "LFloat ts"]
    by (auto intro!: scannable_append scannable_string plain_colon scannable_int scannable_lval simp del: append_Cons append_Nil)
  have "?ss seq ts kind prev payload = ?ss seq' ts' kind' prev' payload'"
    using assms(2) by (intro join_scannable_inj sc) (simp_all add: canonical_material_def)
  then show "seq = seq'" "ts = ts'" "kind = kind'" "prev = prev'"
    "dumps_lval E '','' '':'' payload = dumps_lval E '','' '':'' payload'"
    using assms(1) by (auto simp: show_int_inj float_text_ok_def dest: ascii_string_inj injD)
qed

lemma material_eq_iff: "float_text_ok E \<Longrightarrow>
   canonical_material E seq ts kind prev payload = canonical_material E seq' ts' kind' prev' payload' \<longleftrightarrow>
   seq = seq' \<and> ts = ts' \<and> kind = kind' \<and> prev = prev' \<and> dumps_lval E '','' '':'' payload = dumps_lval E '','' '':'' payload'"
  by (rule iffI, intro conjI, (erule material_determines, assumption)+, simp add: canonical_material_def)

text \<open>What the HMAC of an entry covers: sequence number, time, type, link, and the rendered payload.\<close>

definition entry_content :: "ledger_env \<Rightarrow> entry \<Rightarrow> (int \<times> rat \<times> string \<times> string \<times> string) option" where
  "entry_content E rec =
     (case (lv_int (dict_get rec ''seq'' (LVal (JInt 0))), lv_float E (dict_get rec ''ts'' (LFloat 0))) of
        (Some seq, Some ts) \<Rightarrow>
          Some (seq, ts, lv_str E (dict_get rec ''type'' (LVal (JStr []))), lv_str E (dict_get rec ''prev_hash'' (LVal (JStr GENESIS))),
                dumps_lval E '','' '':'' (entry_payload rec))
      | _ \<Rightarrow> None)"

lemma content_prev:
  "entry_content E rec = entry_content E rec' \<Longrightarrow> entry_content E rec \<noteq> None \<Longrightarrow>
   map_of rec ''prev_hash'' = Some (LVal (JStr p)) \<Longrightarrow> map_of rec' ''prev_hash'' = Some (LVal (JStr q)) \<Longrightarrow> p = q"
  by (auto simp: entry_content_def dict_get_def json_text_def split: option.splits)

lemma verified_content: "verify_hmac E rec = Inr True \<Longrightarrow> entry_content E rec \<noteq> None"
  by (auto simp: verify_hmac_def entry_material_def entry_content_def split: option.splits)

text \<open>Different content is different signed text.\<close>

lemma content_material:
  "float_text_ok E \<Longrightarrow> entry_content E rec \<noteq> None \<Longrightarrow> entry_material E rec = entry_material E rec' \<Longrightarrow> entry_content E rec = entry_content E rec'"
  by (auto simp: entry_content_def entry_material_def material_eq_iff split: option.splits)

section \<open>The tip binds the history\<close>

definition same_hmac_other_content :: "ledger_env \<Rightarrow> entry \<Rightarrow> entry \<Rightarrow> bool" where
  "same_hmac_other_content E x y \<longleftrightarrow> entry_content E x \<noteq> entry_content E y \<and> map_of x ''hmac'' = map_of y ''hmac''"

lemma chain_binds:
  assumes "chained E start xs = Some tip" "chained E start ys = Some tip"
  shows "map (entry_content E) xs = map (entry_content E) ys
     \<or> (\<exists>x \<in> set xs. \<exists>y \<in> set ys. same_hmac_other_content E x y)
     \<or> (\<exists>r \<in> set xs \<union> set ys. map_of r ''hmac'' = Some (LVal (JStr start)))"
  using assms
proof (induction xs arbitrary: ys tip rule: rev_induct)
  case Nil
  then show ?case
  proof (cases ys rule: rev_cases)
    case (snoc ys' y)
    with chained_tip(1) [of E start ys' y tip] Nil show ?thesis by auto
  qed simp
next
  case (snoc x xs)
  note X = chained_tip [OF snoc.prems(1)]
  show ?case
  proof (cases ys rule: rev_cases)
    case Nil
    with snoc.prems(2) X(1) show ?thesis by auto
  next
    case (snoc ys' y)
    note Y = chained_tip [OF snoc.prems(2) [unfolded snoc]]
    obtain p q where p: "chained E start xs = Some p" "map_of x ''prev_hash'' = Some (LVal (JStr p))"
      and q: "chained E start ys' = Some q" "map_of y ''prev_hash'' = Some (LVal (JStr q))" using X(5) Y(5) by blast
    show ?thesis
    proof (cases "entry_content E x = entry_content E y")
      case True
      from content_prev [OF True verified_content [OF X(4)] p(2) q(2)] have "p = q" .
      from snoc.IH [OF p(1) q(1) [folded this]] True snoc show ?thesis by auto
    next
      case False
      with X(1) Y(1) snoc show ?thesis by (auto simp: same_hmac_other_content_def)
    qed
  qed
qed

text \<open>The tip binds the history. If two files verify from the same start and end in the same tip, then they hold the
  same entries in the same order, as far as the HMAC covers them (sequence number, time, type, link and payload), or
  they exhibit a forgery: two entries of theirs with different content, so with different signed text, and the same
  HMAC, or an entry whose HMAC is the starting value.\<close>

theorem tip_binds_history:
  assumes "float_text_ok E" "al_self al = start" "al_self al' = start"
    and "al_verify E al d = Inr st" "ls_ok st" "al_verify E al' d' = Inr st'" "ls_ok st'" "ls_last st = ls_last st'"
  shows "map (entry_content E) (file_records d (al_stem al)) = map (entry_content E) (file_records d' (al_stem al'))
     \<or> (\<exists>x \<in> set (file_records d (al_stem al)). \<exists>y \<in> set (file_records d' (al_stem al')).
          map_of x ''hmac'' = map_of y ''hmac'' \<and> entry_content E x \<noteq> entry_content E y \<and> entry_material E x \<noteq> entry_material E y)
     \<or> (\<exists>r \<in> set (file_records d (al_stem al)) \<union> set (file_records d' (al_stem al')). map_of r ''hmac'' = Some (LVal (JStr start)))"
proof -
  let ?xs = "file_records d (al_stem al)" and ?ys = "file_records d' (al_stem al')"
  obtain tip tip' where t: "chained E start ?xs = Some tip" "chained E start ?ys = Some tip'" "tip = tip'"
    using verify_from_ok [of E start 0 ?xs st] verify_from_ok [of E start 0 ?ys st'] assms(2-)
    by (auto simp: al_verify_def verify_path_def good_state_def)
  have "same_hmac_other_content E x y \<Longrightarrow> x \<in> set ?xs \<Longrightarrow> entry_material E x \<noteq> entry_material E y" for x y
  proof
    assume s: "same_hmac_other_content E x y" "x \<in> set ?xs" "entry_material E x = entry_material E y"
    from s(2) obtain as bs where x: "?xs = (as @ [x]) @ bs" by (auto dest: split_list)
    from t(1) obtain u where "chained E start (as @ [x]) = Some u"
      unfolding x by (metis bind_eq_Some_conv chained_append)
    from chained_tip(4) [OF this] have "entry_content E x \<noteq> None" by (rule verified_content)
    from content_material [OF assms(1) this s(3)] s(1) show False by (simp add: same_hmac_other_content_def)
  qed
  with chain_binds [OF t(1) t(2) [folded t(3)]] show ?thesis by (auto simp: same_hmac_other_content_def)
qed

lemma demo_float_ok: "float_text_ok demo_ledger"
proof -
  have e: "\<not> py_isdigit (CHR ''e'')" "CHR ''e'' \<noteq> CHR ''-''" by (simp_all add: py_isdigit_def char_code_def)
  have ne: "CHR ''e'' \<notin> set (show_int i)" for i
    using show_nat_digits e by (auto simp: show_int_def)
  have "inj (le_float_text demo_ledger)"
  proof (rule injI)
    fix r s assume "le_float_text demo_ledger r = le_float_text demo_ledger s"
    then have "show_int (fst (quotient_of r)) @ CHR ''e'' # show_int (snd (quotient_of r))
      = show_int (fst (quotient_of s)) @ CHR ''e'' # show_int (snd (quotient_of s))" by (simp add: demo_ledger_def)
    then have "show_int (fst (quotient_of r)) = show_int (fst (quotient_of s)) \<and> show_int (snd (quotient_of r)) = show_int (snd (quotient_of s))"
      by (simp add: append_Cons_eq_iff ne)
    then have "quotient_of r = quotient_of s" by (simp add: show_int_inj prod_eq_iff)
    then show "r = s" using quotient_of_inject by blast
  qed
  moreover have "plain_char (CHR ''e'')" by (simp add: plain_char_def)
  ultimately show ?thesis using plain_digits by (auto simp: float_text_ok_def demo_ledger_def)
qed

text \<open>A field the HMAC does not cover is added to the one entry of a file; the file still verifies, with the same tip.\<close>

theorem tip_binds_history_witness:
  "\<exists>(al :: audit_ledger) d d' rec. file_records d (al_stem al) = [rec] \<and> file_records d' (al_stem al) = [rec @ [(''note'', LVal JNull)]]
     \<and> (entry_content demo_ledger rec = entry_content demo_ledger (rec @ [(''note'', LVal JNull)])
        \<or> map_of rec ''hmac'' = Some (LVal (JStr GENESIS)))"
proof -
  define rec where "rec = signed_entry demo_ledger 1 1 ''e'' GENESIS []"
  define al where "al = \<lparr>al_stem = ''x'', al_last_hash = GENESIS, al_last_seq = 0, al_seed = GENESIS, al_self = GENESIS\<rparr>"
  define d where "d = empty_disk\<lparr>ld_files := [(''x'', [Some rec])]\<rparr>"
  define rec' where "rec' = rec @ [(''note'', LVal JNull)]"
  define d' where "d' = empty_disk\<lparr>ld_files := [(''x'', [Some rec'])]\<rparr>"
  have f: "file_records d (al_stem al) = [rec]" "file_records d' (al_stem al) = [rec']"
    by (simp_all add: d_def d'_def al_def file_records_def file_lines_def dict_get_def)
  have m: "map_of rec' k = map_of rec k" if "k \<noteq> ''note''" for k
    using that by (simp add: rec'_def map_add_def split: option.split)
  have g: "dict_get rec' ''ts'' v = dict_get rec ''ts'' v" "dict_get rec' ''seq'' v = dict_get rec ''seq'' v"
    "dict_get rec' ''type'' v = dict_get rec ''type'' v" "dict_get rec' ''prev_hash'' v = dict_get rec ''prev_hash'' v" for v
    by (simp_all add: dict_get_def m)
  have p: "entry_payload rec' = entry_payload rec" by (simp add: entry_payload_def m)
  have mat: "entry_material demo_ledger rec' = entry_material demo_ledger rec" unfolding entry_material_def g p ..
  have v: "verify_hmac demo_ledger rec = Inr True" by (simp add: rec_def signed_entry_verifies)
  have h': "map_of rec' ''hmac'' = map_of rec ''hmac''" by (simp add: m)
  have v': "verify_hmac demo_ledger rec' = Inr True" using v unfolding verify_hmac_def mat h' .
  obtain h where h: "map_of rec ''hmac'' = Some (LVal (JStr h))" "map_of rec ''prev_hash'' = Some (LVal (JStr GENESIS))" by (simp add: rec_def)
  have ok: "al_verify demo_ledger al d = Inr (good_state 1 h)" "al_verify demo_ledger al d' = Inr (good_state 1 h)"
    unfolding al_verify_def verify_path_def f using v v' h m by (simp_all add: al_def dict_has_def)
  have "entry_content demo_ledger rec = entry_content demo_ledger rec' \<or> map_of rec ''hmac'' = Some (LVal (JStr GENESIS))"
    using tip_binds_history [OF demo_float_ok, of al GENESIS al d "good_state 1 h" d' "good_state 1 h"] ok f mat h h'
    by (auto simp: good_state_def al_def)
  with f show ?thesis unfolding rec'_def by blast
qed

section \<open>A forged legacy file\<close>

text \<open>
  A file in the legacy schema that anyone can write: its hashes are plain SHA-256, so building it takes the claimed
  events and how floats print, and no secret.
\<close>

definition legacy_base :: "int \<Rightarrow> event \<Rightarrow> string \<Rightarrow> entry" where
  "legacy_base seq ev prev = (case ev of (ts, kind, payload) \<Rightarrow>
     [(''seq'', LVal (JInt seq)), (''ts'', LFloat ts), (''event'', LVal (JStr kind)), (''payload'', LVal (JObj payload)),
      (''prev_hash'', LVal (JStr prev))])"

definition legacy_entry :: "ledger_env \<Rightarrow> int \<Rightarrow> event \<Rightarrow> string \<Rightarrow> entry" where
  "legacy_entry E seq ev prev =
     (''entry_hash'', LVal (JStr (sha256_hex (legacy_material E (legacy_base seq ev prev))))) # legacy_base seq ev prev"

fun legacy_forgery :: "ledger_env \<Rightarrow> string \<Rightarrow> int \<Rightarrow> event list \<Rightarrow> entry list" where
  "legacy_forgery E prev seq [] = []"
| "legacy_forgery E prev seq (ev # evs) =
     legacy_entry E seq ev prev # legacy_forgery E (sha256_hex (legacy_material E (legacy_base seq ev prev))) (seq + 1) evs"

lemma legacy_material_env: "le_float_text E0 = le_float_text E \<Longrightarrow> legacy_material E0 rec = legacy_material E rec"
proof -
  assume "le_float_text E0 = le_float_text E"
  then have "dumps_lval E0 i k v = dumps_lval E i k v" for i k v by (cases v) auto
  then show ?thesis by (simp add: legacy_material_def)
qed

lemma legacy_fields [simp]:
  "map_of (legacy_entry E seq (ts, kind, payload) prev) ''prev_hash'' = Some (LVal (JStr prev))"
  "map_of (legacy_entry E seq ev prev) ''entry_hash'' = Some (LVal (JStr (sha256_hex (legacy_material E (legacy_base seq ev prev)))))"
  "map_of (legacy_entry E seq (ts, kind, payload) prev) ''seq'' = Some (LVal (JInt seq))"
  "map_of (legacy_entry E seq (ts, kind, payload) prev) ''ts'' = Some (LFloat ts)"
  "map_of (legacy_entry E seq (ts, kind, payload) prev) ''event'' = Some (LVal (JStr kind))"
  "map_of (legacy_entry E seq (ts, kind, payload) prev) ''payload'' = Some (LVal (JObj payload))"
  "map_of (legacy_entry E seq (ts, kind, payload) prev) ''type'' = None"
  "legacy_material E' (legacy_entry E seq ev prev) = legacy_material E' (legacy_base seq ev prev)"
  by (simp_all add: legacy_entry_def legacy_base_def legacy_material_def)

lemma forgery_verifies:
  "le_float_text E0 = le_float_text E \<Longrightarrow> ls_ok (verify_legacy E prev i (legacy_forgery E0 prev seq evs))"
proof (induction evs arbitrary: prev i seq)
  case (Cons ev evs)
  obtain ts kind payload where ev: "ev = (ts, kind, payload)" by (cases ev)
  show ?case using Cons by (simp add: ev Let_def legacy_material_env [OF Cons.prems])
qed (simp add: good_state_def)

lemma forgery_migrates:
  "\<exists>es tip. migrate_legacy E now p (legacy_forgery E0 prev seq evs) = Some es \<and> chained E p es = Some tip
     \<and> map entry_event es = map event_fields evs"
proof (induction evs arbitrary: p prev seq)
  case (Cons ev evs)
  obtain ts kind payload where ev: "ev = (ts, kind, payload)" by (cases ev)
  define e where "e = signed_entry E seq ts kind p payload"
  define h where "h = sha256_hex (legacy_material E0 (legacy_base seq ev prev))"
  have d: "lv_dict (Some (LVal (JObj payload))) = Some payload" by (simp add: lv_dict_def)
  from Cons.IH [of "entry_hmac (map_of e ''hmac'')" h "seq + 1"] obtain es tip where
    es: "migrate_legacy E now (entry_hmac (map_of e ''hmac'')) (legacy_forgery E0 h (seq + 1) evs) = Some es"
    "chained E (entry_hmac (map_of e ''hmac'')) es = Some tip" "map entry_event es = map event_fields evs" by blast
  have "migrate_legacy E now p (legacy_forgery E0 prev seq (ev # evs)) = Some (e # es)"
    using es(1) d by (simp add: Let_def h_def [unfolded ev, symmetric] ev dict_get_def json_text_def e_def [symmetric])
  moreover have "chained E p (e # es) = Some tip" using es(2) by (simp add: e_def signed_entry_verifies)
  moreover have "map entry_event (e # es) = map event_fields (ev # evs)" using es(3)
    by (simp add: e_def entry_event_def event_fields_def ev)
  ultimately show ?case by blast
qed simp

text \<open>C34: A forged past is signed. Whoever can write a ledger file, and knows nothing but how floats print, can
  replace it by a file in the legacy schema that claims any events. In every deployment the next opening accepts it
  without an alert, signs every claimed event with the current key, and from then on the chain verifies.\<close>

theorem forged_legacy_file_is_signed:
  assumes "le_float_text E0 = le_float_text E" "claims \<noteq> []"
    and "file_lines d stem = map Some (legacy_forgery E0 GENESIS 1 claims)"
  shows "\<exists>al d' st. open_ledger E now stem d = (Inr al, d') \<and> ld_alerts d' = ld_alerts d
     \<and> al_verify E al d' = Inr st \<and> ls_ok st \<and> ls_length st = length claims
     \<and> map entry_event (file_records d' stem) = map event_fields claims"
proof -
  let ?recs = "legacy_forgery E0 GENESIS 1 claims"
  have recs: "file_records d stem = ?recs" by (simp add: file_records_def assms(3))
  obtain ev evs where c: "claims = ev # evs" using assms(2) by (cases claims) auto
  obtain ts kind payload where ev: "ev = (ts, kind, payload)" by (cases ev)
  have ne: "?recs \<noteq> []" by (simp add: c)
  have self: "al_self (new_ledger d stem) = GENESIS"
    by (rule new_ledger_self(2) [of _ _ "legacy_entry E0 1 ev GENESIS"]) (simp_all add: recs c ev)
  have leg: "uses_legacy ?recs" by (simp add: uses_legacy_def c ev dict_has_def)
  obtain es tip where es: "migrate_legacy E now GENESIS ?recs = Some es" "chained E GENESIS es = Some tip"
    "map entry_event es = map event_fields claims" using forgery_migrates by blast
  define d' where "d' = d\<lparr>ld_files := AList.update stem (map Some es) (ld_files d)\<rparr>"
  have r': "file_records d' stem = es" by (simp add: d'_def file_records_def file_lines_def dict_get_def map_of_update)
  have o: "open_ledger E now stem d = (Inr (seed_tip_cache (new_ledger d stem) d'), d')"
    using ne leg forgery_verifies [OF assms(1), of GENESIS 0 1 claims] es(1)
    by (simp add: open_ledger_def reconcile_on_open_def recs Let_def d'_def [symmetric])
  have l: "length es = length claims" using arg_cong [OF es(3), of length] by simp
  then have "es \<noteq> []" using assms(2) by auto
  then have "tip_known E (seed_tip_cache (new_ledger d stem) d') d'"
    using es(2) self by (intro seeded_tip_known [where tip = tip]) (simp_all add: r')
  from tip_known_verifies [OF this] have "al_verify E (seed_tip_cache (new_ledger d stem) d') d'
      = Inr (good_state (length claims) (al_last_hash (seed_tip_cache (new_ledger d stem) d')))" using r' l by simp
  with o r' es(3) show ?thesis
    by (intro exI [of _ "seed_tip_cache (new_ledger d stem) d'"] exI [of _ d'] exI conjI) (assumption | simp add: good_state_def d'_def)+
qed

theorem forged_legacy_file_is_signed_witness:
  "\<exists>al d. open_ledger demo_ledger 9 (day_stem ''20250101'') (empty_disk\<lparr>ld_files := [(day_stem ''20250101'',
        map Some (legacy_forgery (demo_ledger\<lparr>le_secret := []\<rparr>) GENESIS 1 [(1, ''wire'', [(''usd'', JInt 5000)])]))]\<rparr>) = (Inr al, d)
     \<and> ld_alerts d = [] \<and> map entry_event (file_records d (day_stem ''20250101''))
        = [(Some (LFloat 1), Some (LVal (JStr ''wire'')), Some (LVal (JObj [(''usd'', JInt 5000)])))]"
  using forged_legacy_file_is_signed [of "demo_ledger\<lparr>le_secret := []\<rparr>" demo_ledger "[(1, ''wire'', [(''usd'', JInt 5000)])]"
      "empty_disk\<lparr>ld_files := [(day_stem ''20250101'', map Some (legacy_forgery (demo_ledger\<lparr>le_secret := []\<rparr>) GENESIS 1 [(1, ''wire'', [(''usd'', JInt 5000)])]))]\<rparr>"
      "day_stem ''20250101''" 9]
  by (fastforce simp: file_lines_def dict_get_def empty_disk_def event_fields_def)

section \<open>A file that does not verify\<close>

lemma mac_length_neq: "length s \<noteq> 64 \<Longrightarrow> mac_hex key m \<noteq> s"
  by auto

lemma all_fail: "\<forall>r \<in> set recs. verify_hmac E r = Inr False \<Longrightarrow> none_verifies E recs = Inr True"
  by (induction recs) auto

lemma some_verifies: "\<forall>r \<in> set recs. verify_hmac E r \<in> {Inr True, Inr False} \<Longrightarrow> \<exists>r \<in> set recs. verify_hmac E r = Inr True \<Longrightarrow>
   none_verifies E recs = Inr False"
proof (induction recs)
  case (Cons r recs)
  from Cons.prems(1) consider "verify_hmac E r = Inr True" | "verify_hmac E r = Inr False" by auto
  then show ?case using Cons by cases auto
qed simp

lemma links_first: "chain_links_intact start (r # rs) \<Longrightarrow> map_of r ''prev_hash'' = Some (LVal (JStr start))"
  by simp

lemma verify_from_total: "\<forall>r \<in> set recs. verify_hmac E r \<in> {Inr True, Inr False} \<Longrightarrow> \<exists>st. verify_from E prev i recs = Inr st"
  by (induction recs arbitrary: prev i) (auto split: bool.splits)

text \<open>A rewritten file is set aside silently. When no entry of a file verifies but the links between its entries
  are intact, as anyone can arrange by rewriting all of it, the opening takes this for a change of the key: in every
  deployment it succeeds without an alert, moves the file away and starts an empty one.\<close>

theorem rewritten_file_is_set_aside_silently:
  assumes "file_records d stem = recs" "recs \<noteq> []" "\<not> uses_legacy recs"
    and "chain_links_intact start recs" "\<forall>r \<in> set recs. verify_hmac E r = Inr False"
  shows "\<exists>al d'. open_ledger E now stem d = (Inr al, d') \<and> ld_alerts d' = ld_alerts d \<and> file_records d' stem = []
     \<and> file_records d' (archive_name stem ''keychange'' now) = recs \<and> al_last_hash al = compute_chain_seed d stem"
proof -
  obtain r rs where c: "recs = r # rs" using assms(2) by (cases recs) auto
  have self: "al_self (new_ledger d stem) = start"
    by (rule new_ledger_self(2) [OF assms(1) [unfolded c] links_first [OF assms(4) [unfolded c]]])
  define d' where "d' = archive_and_reset stem ''keychange'' now d"
  have ne: "archive_name stem ''keychange'' now \<noteq> stem" by (simp add: archive_name_def)
  have lines: "file_lines d' stem = []" "file_lines d' (archive_name stem ''keychange'' now) = file_lines d stem"
    using ne by (auto simp: d'_def archive_and_reset_def file_lines_def dict_get_def map_of_update delete_conv)
  have "verify_from E start 0 recs = Inr (bad_state 0 start HmacMissing) \<or> verify_from E start 0 recs = Inr (bad_state 0 start HmacMismatch)"
    using assms(4,5) c by simp
  then have "open_ledger E now stem d = (Inr (seed_tip_cache (new_ledger d stem) d'), d')"
    using assms self all_fail [OF assms(5)]
    by (auto simp: open_ledger_def reconcile_on_open_def Let_def verify_path_def bad_state_def all_hmacs_fail_def d'_def)
  moreover have "file_records d' stem = []" "file_records d' (archive_name stem ''keychange'' now) = recs"
    using lines assms(1) by (simp_all add: file_records_def)
  ultimately show ?thesis
    by (intro exI [of _ "seed_tip_cache (new_ledger d stem) d'"] exI [of _ d'])
       (simp add: d'_def archive_and_reset_def seed_tip_cache_def read_last_def)
qed

theorem rewritten_file_is_set_aside_silently_witness:
  "\<exists>al d. open_ledger demo_ledger 9 ''x'' (empty_disk\<lparr>ld_files := [(''x'', [Some [(''prev_hash'', LVal (JStr GENESIS)), (''hmac'', LVal (JStr ''f''))]])]\<rparr>)
     = (Inr al, d) \<and> ld_alerts d = [] \<and> file_records d ''x'' = []"
proof -
  define r where "r = [(''prev_hash'', LVal (JStr GENESIS)), (''hmac'', LVal (JStr ''f''))]"
  have "mac_hex key m \<noteq> ''f''" for key m by (rule mac_length_neq) simp
  then have v: "verify_hmac demo_ledger r = Inr False"
    by (simp add: verify_hmac_def entry_material_def r_def dict_get_def)
  have f: "file_records (empty_disk\<lparr>ld_files := [(''x'', [Some r])]\<rparr>) ''x'' = [r]" by (simp add: file_records_def file_lines_def dict_get_def)
  from rewritten_file_is_set_aside_silently [OF f, of GENESIS demo_ledger 9] v show ?thesis
    by (auto simp: uses_legacy_def dict_has_def r_def empty_disk_def)
qed



section \<open>Two processes\<close>

lemma record_links:
  "al_record E now ev payload (al, d) = (rec, al', d') \<Longrightarrow> map_of rec ''prev_hash'' = Some (LVal (JStr (al_last_hash al)))
     \<and> map_of rec ''hmac'' = Some (LVal (JStr (al_last_hash al')))"
  by (auto simp: al_record_def Let_def)

text \<open>A second writer breaks the chain. Two processes open the same intact file and each appends an entry. The tip is
  cached in the process and not read again on an append, so both entries link to the same one, and the file no longer
  verifies (unless the HMAC of the first entry happens to be the hash it links to).\<close>

theorem second_writer_breaks_chain:
  assumes "intact E (file_records d stem)"
    and "open_ledger E t1 stem d = (Inr a, d)" "open_ledger E t2 stem d = (Inr b, d)"
    and "al_record E u1 e1 p1 (a, d) = (r1, a', d1)" "al_record E u2 e2 p2 (b, d1) = (r2, b', d2)"
  shows "(\<exists>st. al_verify E a' d2 = Inr st \<and> ls_ok st = False \<and> ls_length st = length (file_records d stem) + 2)
     \<or> map_of r1 ''hmac'' = map_of r1 ''prev_hash''"
proof (rule disjCI)
  assume fresh: "map_of r1 ''hmac'' \<noteq> map_of r1 ''prev_hash''"
  obtain al where al: "tip_known E al d" "al_stem al = stem" "al = a" using open_intact [OF assms(1), of t1] assms(2) by auto
  obtain bl where bl: "tip_known E bl d" "al_stem bl = stem" "bl = b" "al_self bl = al_self a"
    using open_intact [OF assms(1), of t2] open_intact [OF assms(1), of t1] assms(2,3) by auto
  have tips: "al_last_hash b = al_last_hash a" using al bl by (simp add: tip_known_def)
  note k = record_keeps_tip [OF al(1) [unfolded al(3)] assms(4)]
  have f2: "file_records d2 stem = file_records d stem @ [r1] @ [r2]"
    using assms(5) k(5) al(2,3) bl(2,3) by (auto simp: al_record_def Let_def)
  have c: "chained E (al_self a) (file_records d stem @ [r1]) = Some (al_last_hash a')"
    using k(1,2,3,5) al(2,3) by (simp add: tip_known_def)
  have ne: "map_of r2 ''prev_hash'' \<noteq> Some (LVal (JStr (al_last_hash a')))"
    using record_links [OF assms(4)] record_links [OF assms(5)] fresh tips by auto
  have "verify_from E p i (xs @ [r2]) = Inr (bad_state (i + length xs) tip PrevMismatch)"
    if "chained E p xs = Some tip" "map_of r2 ''prev_hash'' \<noteq> Some (LVal (JStr tip))" for p i xs tip
    using that
  proof (induction xs arbitrary: p i)
    case (Cons x xs)
    from Cons.prems(1) have x: "map_of x ''prev_hash'' = Some (LVal (JStr p))" "verify_hmac E x = Inr True" by (auto split: if_splits)
    from x(2) obtain h where "map_of x ''hmac'' = Some (LVal (JStr h))" by (rule verified_entry)
    with Cons.IH [of h "Suc i"] Cons.prems x show ?case by (simp add: dict_has_def)
  qed simp
  from this [OF c ne, of 0] k(2,3) al(2,3) f2 show "\<exists>st. al_verify E a' d2 = Inr st \<and> ls_ok st = False \<and> ls_length st = length (file_records d stem) + 2"
    by (simp add: al_verify_def verify_path_def bad_state_def)
qed

theorem second_writer_breaks_chain_witness:
  "\<exists>(a :: audit_ledger) r1 (a' :: audit_ledger) d1 d2. open_ledger demo_ledger 0 ''x'' empty_disk = (Inr a, empty_disk)
     \<and> al_record demo_ledger 1 ''e'' [] (a, empty_disk) = (r1, a', d1) \<and> snd (snd (al_record demo_ledger 2 ''f'' [] (a, d1))) = d2
     \<and> ((\<exists>st. al_verify demo_ledger a' d2 = Inr st \<and> ls_ok st = False \<and> ls_length st = 2) \<or> map_of r1 ''hmac'' = map_of r1 ''prev_hash'')"
proof -
  have i: "intact demo_ledger (file_records empty_disk ''x'')" by (simp add: intact_def file_records_def file_lines_def empty_disk_def dict_get_def)
  from open_intact [OF i, of 0] obtain a where o: "open_ledger demo_ledger 0 ''x'' empty_disk = (Inr a, empty_disk)" by blast
  obtain r1 a' d1 where r: "al_record demo_ledger 1 ''e'' [] (a, empty_disk) = (r1, a', d1)" by (cases "al_record demo_ledger 1 ''e'' [] (a, empty_disk)")
  obtain r2 b' d2 where s: "al_record demo_ledger 2 ''f'' [] (a, d1) = (r2, b', d2)" by (cases "al_record demo_ledger 2 ''f'' [] (a, d1)")
  from second_writer_breaks_chain [OF i o o r s] o r s show ?thesis
    by (intro exI [of _ a] exI [of _ r1] exI [of _ a'] exI [of _ d1] exI [of _ d2]) (auto simp: file_records_def file_lines_def empty_disk_def dict_get_def)
qed

end
