(* ===== verification/Budget_Store.thy ===== *)
theory Budget_Store
  imports Prelude
begin

text \<open>
  The storage that \<open>common/llm_budget.py\<close> and \<open>common/llm_global_budget.py\<close> share: one row per key, read through a cache of
  the process from a DynamoDB table, else from a JSON file, else made fresh, with the daily counters reset on the way; and
  written to the table, to the file only when the table does not take it, and to the cache.

  The row type, its reset and its fresh value are parameters; the locale \<open>daily_rows\<close> states what the two modules
  promise of them, and holds what follows: when a row is renewed, and when it is not. Each of the calls on the table and
  the file can fail; a call that fails has no effect. An operation reads the clock once.

  The object the cache returns is the cached one: what an operation writes to its fields is in the cache, saved or not.
\<close>

datatype utc_day = Day int | No_Day

definition today_utc :: "rat \<Rightarrow> utc_day" where
  "today_utc now = Day (\<lfloor>now\<rfloor> div 86400)"

record store_reach =
  sr_table_get :: bool
  sr_table_put :: bool
  sr_file_read :: bool
  sr_file_write :: bool

record 'r row_store =
  rs_table :: "(string \<times> 'r) list"
  rs_file :: "(string \<times> 'r) list"
  rs_cache :: "(string \<times> rat \<times> 'r) list"

definition cached_row :: "rat \<Rightarrow> rat \<Rightarrow> string \<Rightarrow> 'r row_store \<Rightarrow> 'r option" where
  "cached_row ttl now key s =
     (case map_of (rs_cache s) key of Some (t0, b) \<Rightarrow> (if now - t0 < ttl then Some b else None) | None \<Rightarrow> None)"

definition stored_row :: "bool \<Rightarrow> store_reach \<Rightarrow> string \<Rightarrow> 'r row_store \<Rightarrow> 'r option" where
  "stored_row ddb h key s =
     (case (if ddb \<and> sr_table_get h then map_of (rs_table s) key else None) of
        Some b \<Rightarrow> Some b
      | None \<Rightarrow> (if sr_file_read h then map_of (rs_file s) key else None))"

definition load_row ::
  "(rat \<Rightarrow> 'r \<Rightarrow> 'r) \<Rightarrow> (string \<Rightarrow> rat \<Rightarrow> 'r) \<Rightarrow> rat \<Rightarrow> bool \<Rightarrow> store_reach \<Rightarrow> rat \<Rightarrow> string \<Rightarrow> 'r row_store \<Rightarrow> 'r \<times> 'r row_store" where
  "load_row reset fresh ttl ddb h now key s =
     (case cached_row ttl now key s of
        Some b \<Rightarrow> (b, s)
      | None \<Rightarrow>
          (let b = reset now (case stored_row ddb h key s of Some b \<Rightarrow> b | None \<Rightarrow> fresh key now)
           in (b, s\<lparr>rs_cache := AList.update key (now, b) (rs_cache s)\<rparr>)))"

definition store_row :: "bool \<Rightarrow> store_reach \<Rightarrow> rat \<Rightarrow> string \<Rightarrow> 'r \<Rightarrow> 'r row_store \<Rightarrow> 'r row_store" where
  "store_row ddb h now key b s =
     (let s = (if ddb \<and> sr_table_put h then s\<lparr>rs_table := AList.update key b (rs_table s)\<rparr>
               else if sr_file_write h then s\<lparr>rs_file := AList.update key b (if sr_file_read h then rs_file s else [])\<rparr>
               else s)
      in s\<lparr>rs_cache := AList.update key (now, b) (rs_cache s)\<rparr>)"

text \<open>An in-place change of the cached object, which leaves the time it was cached at.\<close>

definition mutate_cached :: "string \<Rightarrow> 'r \<Rightarrow> 'r row_store \<Rightarrow> 'r row_store" where
  "mutate_cached key b s =
     (case map_of (rs_cache s) key of Some (t0, b') \<Rightarrow> s\<lparr>rs_cache := AList.update key (t0, b) (rs_cache s)\<rparr> | None \<Rightarrow> s)"

text \<open>Read, change, write: the shape of every operation that saves.\<close>

definition touch_row ::
  "(rat \<Rightarrow> 'r \<Rightarrow> 'r) \<Rightarrow> (string \<Rightarrow> rat \<Rightarrow> 'r) \<Rightarrow> rat \<Rightarrow> bool \<Rightarrow> ('r \<Rightarrow> 'r) \<Rightarrow> store_reach \<Rightarrow> rat \<Rightarrow> string \<Rightarrow> 'r row_store \<Rightarrow> 'r \<times> 'r row_store" where
  "touch_row reset fresh ttl ddb f h now key s =
     (let (b, s) = load_row reset fresh ttl ddb h now key s; b = f b in (b, store_row ddb h now key b s))"

section \<open>Facts about one row\<close>

definition fully_working :: store_reach where
  "fully_working = \<lparr>sr_table_get = True, sr_table_put = True, sr_file_read = True, sr_file_write = True\<rparr>"

lemma fully_working_simps [simp]:
  "sr_table_get fully_working" "sr_table_put fully_working" "sr_file_read fully_working" "sr_file_write fully_working"
  by (simp_all add: fully_working_def)

lemma cached_after_store: "cached_row ttl now' key (store_row ddb h now key b s) = (if now' - now < ttl then Some b else None)"
  by (simp add: cached_row_def store_row_def Let_def map_of_update)

lemma cached_after_mutate:
  "cached_row ttl now key s = Some b \<Longrightarrow> cached_row ttl now key (mutate_cached key b' s) = Some b'"
  by (auto simp: cached_row_def mutate_cached_def map_of_update split: option.splits if_splits)

lemma cached_other:
  "key' \<noteq> key \<Longrightarrow> cached_row ttl now key' (store_row ddb h t key b s) = cached_row ttl now key' s"
  "key' \<noteq> key \<Longrightarrow> cached_row ttl now key' (mutate_cached key b s) = cached_row ttl now key' s"
  by (auto simp: cached_row_def store_row_def mutate_cached_def Let_def map_of_update split: option.splits)

lemma stored_after_store:
  "ddb \<Longrightarrow> sr_table_put h \<Longrightarrow> sr_table_get h' \<Longrightarrow> stored_row ddb h' key (store_row ddb h now key b s) = Some b"
  by (simp add: stored_row_def store_row_def Let_def map_of_update)

lemma load_cached: "cached_row ttl now key s = Some b \<Longrightarrow> load_row reset fresh ttl ddb h now key s = (b, s)"
  by (simp add: load_row_def)

lemma cached_after_load:
  assumes "0 < ttl" "load_row reset fresh ttl ddb h now key s = (b, s')"
  shows "cached_row ttl now key s' = Some b"
  using assms by (cases "cached_row ttl now key s") (auto simp: load_row_def Let_def, simp add: cached_row_def map_of_update)

text \<open>Each time less than the limit after the one before.\<close>

fun close_times :: "rat \<Rightarrow> rat \<Rightarrow> rat list \<Rightarrow> bool" where
  "close_times ttl t [] = True"
| "close_times ttl t (t' # ts) = (t' - t < ttl \<and> close_times ttl t' ts)"

section \<open>What the daily reset promises\<close>

locale daily_rows =
  fixes reset :: "rat \<Rightarrow> 'r \<Rightarrow> 'r" and fresh :: "string \<Rightarrow> rat \<Rightarrow> 'r" and day_of :: "'r \<Rightarrow> utc_day"
  assumes reset_day: "day_of (reset now b) = today_utc now"
    and reset_same_day: "day_of b = today_utc now \<Longrightarrow> reset now b = b"
begin

text \<open>A row that does not come from the cache is today's.\<close>

lemma uncached_is_today:
  assumes "cached_row ttl now key s = None" "load_row reset fresh ttl ddb h now key s = (b, s')"
  shows "day_of b = today_utc now"
  using assms by (auto simp: load_row_def Let_def reset_day)

text \<open>A row saved to the table and read back on the same day, from the cache or not, is the row that was saved.\<close>

lemma saved_row_is_read_back:
  assumes "ddb" "sr_table_put h" "sr_table_get h'" "day_of b = today_utc now'"
  shows "fst (load_row reset fresh ttl ddb h' now' key (store_row ddb h now key b s)) = b"
  using assms by (simp add: load_row_def cached_after_store stored_after_store reset_same_day Let_def)

text \<open>
  Traffic keeps a row: while a row is touched again before its cache entry has expired, it is never renewed, however many
  days go by: the result is the changes applied to the first row, one after the other.
\<close>

lemma busy_row_is_kept:
  assumes "map_of (rs_cache s) key = Some (t, b)" "close_times ttl t (map fst evs)"
  shows "map_of (rs_cache (fold (\<lambda>(now, f, h) s. snd (touch_row reset fresh ttl ddb f h now key s)) evs s)) key
    = Some (last (t # map fst evs), fold (\<lambda>(now, f, h) b. f b) evs b)"
  using assms
proof (induction evs arbitrary: s t b)
  case (Cons ev evs)
  obtain now f h where ev: "ev = (now, f, h)" by (cases ev)
  have "cached_row ttl now key s = Some b" using Cons.prems ev by (simp add: cached_row_def)
  then have "touch_row reset fresh ttl ddb f h now key s = (f b, store_row ddb h now key (f b) s)"
    by (simp add: touch_row_def load_cached Let_def)
  moreover have "map_of (rs_cache (store_row ddb h now key (f b) s)) key = Some (now, f b)"
    by (simp add: store_row_def Let_def map_of_update)
  moreover have "close_times ttl now (map fst evs)" using Cons.prems(2) ev by simp
  ultimately show ?case using Cons.IH [of "store_row ddb h now key (f b) s" now "f b"] ev by simp
qed simp

text \<open>
  An outage of the reads forgets: when neither the table nor the file gives the row, the next change is applied to a fresh
  row, and the save replaces the stored one.
\<close>

lemma outage_forgets:
  assumes "cached_row ttl now key s = None" "\<not> sr_table_get h" "map_of (rs_file s) key = None" "ddb" "sr_table_put h"
  shows "map_of (rs_table (snd (touch_row reset fresh ttl ddb f h now key s))) key = Some (f (reset now (fresh key now)))"
  using assms by (simp add: touch_row_def load_row_def stored_row_def store_row_def Let_def map_of_update)

end

section \<open>Counting rows\<close>

fun day_upto :: "rat \<Rightarrow> utc_day \<Rightarrow> bool" where
  "day_upto now (Day d) = (d \<le> \<lfloor>now\<rfloor> div 86400)"
| "day_upto now No_Day = True"

definition stale_from :: "('r \<Rightarrow> utc_day) \<Rightarrow> rat \<Rightarrow> 'r \<Rightarrow> bool" where
  "stale_from day_of t r \<longleftrightarrow> (\<forall>now \<ge> t. day_of r \<noteq> today_utc now)"

text \<open>
  The stored row and the cached one are sound and within the limit, and a later reading of the stored one counts no more
  than the cached one does.
\<close>

definition books_ok ::
  "('r \<Rightarrow> utc_day) \<Rightarrow> ('r \<Rightarrow> rat) \<Rightarrow> ('r \<Rightarrow> bool) \<Rightarrow> rat \<Rightarrow> string \<Rightarrow> rat \<Rightarrow> 'r row_store \<Rightarrow> bool" where
  "books_ok day_of amount sound limit w now s \<longleftrightarrow> map_of (rs_file s) w = None
     \<and> (\<forall>r. map_of (rs_table s) w = Some r \<longrightarrow> sound r \<and> amount r \<le> limit \<and> day_upto now (day_of r))
     \<and> (\<forall>t b. map_of (rs_cache s) w = Some (t, b) \<longrightarrow> t \<le> now \<and> sound b \<and> amount b \<le> limit \<and> day_upto now (day_of b)
          \<and> (\<forall>r. map_of (rs_table s) w = Some r \<longrightarrow> amount r \<le> amount b \<or> stale_from day_of t r))"

lemma div_day_mono: "now \<le> (now' :: rat) \<Longrightarrow> \<lfloor>now\<rfloor> div 86400 \<le> \<lfloor>now'\<rfloor> div (86400 :: int)"
  by (simp add: floor_mono zdiv_mono1)

lemma day_upto_mono: "day_upto now d \<Longrightarrow> now \<le> now' \<Longrightarrow> day_upto now' d"
  using div_day_mono [of now now'] by (cases d) auto

lemma day_upto_today [simp]: "day_upto now (today_utc now)"
  by (simp add: today_utc_def)

lemma books_ok_later: "books_ok day_of amount sound limit w now s \<Longrightarrow> now \<le> now' \<Longrightarrow> books_ok day_of amount sound limit w now' s"
  unfolding books_ok_def using day_upto_mono order_trans by blast

lemma books_start: "books_ok day_of amount sound limit w now \<lparr>rs_table = [], rs_file = [], rs_cache = []\<rparr>"
  by (simp add: books_ok_def)

lemma stale_or_today:
  assumes "day_upto now (day_of r)" "day_of r \<noteq> today_utc now"
  shows "stale_from day_of now r"
  unfolding stale_from_def
proof (intro allI impI)
  fix later assume "now \<le> later"
  with assms div_day_mono [of now later] show "day_of r \<noteq> today_utc later" by (cases "day_of r") (auto simp: today_utc_def)
qed

lemma load_other_books:
  assumes "books_ok day_of amount sound limit w now s" "key \<noteq> w" "load_row reset fresh ttl ddb h t key s = (b, s')"
  shows "books_ok day_of amount sound limit w now s'" "map_of (rs_cache s') w = map_of (rs_cache s) w"
  using assms by (auto simp: load_row_def Let_def books_ok_def map_of_update split: option.splits)

lemma mutate_books:
  assumes "books_ok day_of amount sound limit w now s" "map_of (rs_cache s) w = Some (t, b)"
    "day_of b' = day_of b" "amount b' = amount b" "sound b \<Longrightarrow> sound b'"
  shows "books_ok day_of amount sound limit w now (mutate_cached w b' s)" "map_of (rs_cache (mutate_cached w b' s)) w = Some (t, b')"
  using assms by (auto simp: books_ok_def mutate_cached_def map_of_update)

lemma store_books:
  assumes "books_ok day_of amount sound limit w now s" "sound b" "amount b \<le> limit" "day_upto now (day_of b)" "ddb"
  shows "books_ok day_of amount sound limit w now (store_row ddb fully_working now w b s)"
  using assms by (auto simp: books_ok_def store_row_def Let_def map_of_update)

locale counted_rows = daily_rows reset fresh day_of
  for reset :: "rat \<Rightarrow> 'r \<Rightarrow> 'r" and fresh :: "string \<Rightarrow> rat \<Rightarrow> 'r" and day_of :: "'r \<Rightarrow> utc_day" +
  fixes amount :: "'r \<Rightarrow> rat" and sound :: "'r \<Rightarrow> bool"
  assumes reset_new_day: "day_of b \<noteq> today_utc now \<Longrightarrow> amount (reset now b) = 0 \<and> sound (reset now b)"
    and fresh_row: "amount (fresh key now) = 0" "sound (fresh key now)" "day_of (fresh key now) = today_utc now"
    and sound_amount: "sound b \<Longrightarrow> 0 \<le> amount b"
begin

lemma load_books:
  assumes "books_ok day_of amount sound limit w now s" "0 \<le> limit" "ddb" "load_row reset fresh ttl ddb fully_working now w s = (b, s')"
  shows "books_ok day_of amount sound limit w now s'" "\<exists>t. map_of (rs_cache s') w = Some (t, b)"
    "map_of (rs_cache s) w = Some (t0, b0) \<Longrightarrow> amount b \<le> amount b0"
proof -
  have *: "books_ok day_of amount sound limit w now s' \<and> (\<exists>t. map_of (rs_cache s') w = Some (t, b))
      \<and> (map_of (rs_cache s) w = Some (t0, b0) \<longrightarrow> amount b \<le> amount b0)"
  proof (cases "cached_row ttl now w s")
    case (Some c)
    with assms(4) have "b = c" "s' = s" by (simp_all add: load_cached)
    with Some assms(1) show ?thesis by (auto simp: cached_row_def split: option.splits if_splits)
  next
    case None
    define r where "r = (case map_of (rs_table s) w of Some r \<Rightarrow> r | None \<Rightarrow> fresh w now)"
    have f: "map_of (rs_file s) w = None" using assms(1) by (simp add: books_ok_def)
    have l: "b = reset now r" "s' = s\<lparr>rs_cache := AList.update w (now, b) (rs_cache s)\<rparr>"
      using assms(3,4) None f by (auto simp: load_row_def stored_row_def r_def Let_def split: option.splits)
    have day: "day_of b = today_utc now" by (simp add: l reset_day)
    have r: "sound r \<and> amount r \<le> limit \<and> day_upto now (day_of r)"
      using assms(1,2) by (cases "map_of (rs_table s) w") (auto simp: r_def books_ok_def fresh_row)
    have sound: "sound b \<and> amount b \<le> limit \<and> amount b \<le> amount r"
      using r assms(2) reset_new_day [of r now] reset_same_day [of r now] sound_amount [of r] by (cases "day_of r = today_utc now") (auto simp: l)
    have rel: "amount r \<le> amount b \<or> stale_from day_of now r"
      using stale_or_today [of now day_of r] r reset_same_day [of r now] by (cases "day_of r = today_utc now") (auto simp: l)
    have "amount b \<le> amount b0" if "map_of (rs_cache s) w = Some (t0, b0)"
    proof -
      have c: "t0 \<le> now" "0 \<le> amount b0" "\<And>r. map_of (rs_table s) w = Some r \<Longrightarrow> amount r \<le> amount b0 \<or> stale_from day_of t0 r"
        using assms(1) that sound_amount by (auto simp: books_ok_def)
      show ?thesis
      proof (cases "day_of r = today_utc now \<and> map_of (rs_table s) w \<noteq> None")
        case True
        with c(1) c(3) [of r] sound show ?thesis by (auto simp: r_def stale_from_def)
      next
        case False
        then have "amount b = 0" using reset_new_day [of r now] reset_same_day [of r now]
          by (cases "day_of r = today_utc now") (auto simp: l r_def fresh_row split: option.splits)
        with c(2) show ?thesis by simp
      qed
    qed
    moreover have "books_ok day_of amount sound limit w now s'"
      using assms(1) sound rel day by (auto simp: books_ok_def l(2) map_of_update r_def split: option.splits)
    ultimately show ?thesis by (simp add: l(2) map_of_update)
  qed
  show "books_ok day_of amount sound limit w now s'" "\<exists>t. map_of (rs_cache s') w = Some (t, b)"
    "map_of (rs_cache s) w = Some (t0, b0) \<Longrightarrow> amount b \<le> amount b0" using * by simp_all
qed

text \<open>
  A change that is made after an allowed check: the row it is applied to, possibly later and possibly read again, counts no
  more than the row that was checked.
\<close>

lemma touch_after_check:
  assumes "books_ok day_of amount sound limit w now s" "map_of (rs_cache s) w = Some (t, b)" "now \<le> later" "0 \<le> limit" "ddb"
    and "amount b + x \<le> limit" "\<And>r. sound r \<Longrightarrow> sound (f r) \<and> amount (f r) \<le> amount r + x \<and> day_of (f r) = day_of r"
  shows "books_ok day_of amount sound limit w later (snd (touch_row reset fresh ttl ddb f fully_working later w s))"
proof -
  obtain b2 s2 where l: "load_row reset fresh ttl ddb fully_working later w s = (b2, s2)" by fastforce
  note lb = load_books [OF books_ok_later [OF assms(1,3)] assms(4,5) l]
  have b2: "sound b2" "day_upto later (day_of b2)" using lb(1,2) by (auto simp: books_ok_def)
  have "amount (f b2) \<le> limit" using assms(6) assms(7) [OF b2(1)] lb(3) [OF assms(2)] by linarith
  with store_books [OF lb(1) _ _ _ assms(5)] assms(7) [OF b2(1)] b2 l show ?thesis by (simp add: touch_row_def Let_def)
qed

end

text \<open>Processes over one table and one file, each with a cache of its own.\<close>

record 'r row_mesh =
  rm_table :: "(string \<times> 'r) list"
  rm_file :: "(string \<times> 'r) list"
  rm_caches :: "nat \<Rightarrow> (string \<times> rat \<times> 'r) list"

definition seen_by :: "nat \<Rightarrow> 'r row_mesh \<Rightarrow> 'r row_store" where
  "seen_by i m = \<lparr>rs_table = rm_table m, rs_file = rm_file m, rs_cache = rm_caches m i\<rparr>"

definition left_by :: "nat \<Rightarrow> 'r row_store \<Rightarrow> 'r row_mesh \<Rightarrow> 'r row_mesh" where
  "left_by i s m = \<lparr>rm_table = rs_table s, rm_file = rs_file s, rm_caches = (rm_caches m)(i := rs_cache s)\<rparr>"

definition on_process :: "nat \<Rightarrow> ('r row_store \<Rightarrow> 'r row_store) \<Rightarrow> 'r row_mesh \<Rightarrow> 'r row_mesh" where
  "on_process i f m = left_by i (f (seen_by i m)) m"

end
