(* ===== verification/Llm_Budget.thy ===== *)
theory Llm_Budget
  imports Budget_Store
begin

text \<open>
  The per-workcell token budget, \<open>common/llm_budget.py\<close>: the daily row of a workcell, the adaptive quota, the pre-flight check
  with the circuit breaker, the freeze and the quota override, and the bookkeeping after a call. The efficiency average is a
  rational number, so the rounding of floats is not modelled; a reason text is a value. Metrics and log lines are left out.
\<close>

section \<open>Rows\<close>

record workcell_budget =
  wb_day :: utc_day
  wb_input :: int
  wb_output :: int
  wb_total :: int
  wb_calls :: int
  wb_successes :: int
  wb_failures :: int
  wb_errors :: int
  wb_ema :: rat
  wb_ema_calls :: int
  wb_consecutive :: int
  wb_open_until :: iso_time
  wb_override :: int
  wb_override_until :: iso_time
  wb_freeze_until :: iso_time

definition fresh_budget :: "string \<Rightarrow> rat \<Rightarrow> workcell_budget" where
  "fresh_budget workcell now = \<lparr>wb_day = today_utc now, wb_input = 0, wb_output = 0, wb_total = 0, wb_calls = 0, wb_successes = 0,
     wb_failures = 0, wb_errors = 0, wb_ema = 1, wb_ema_calls = 0, wb_consecutive = 0, wb_open_until = IsoText [],
     wb_override = 0, wb_override_until = IsoText [], wb_freeze_until = IsoText []\<rparr>"

definition reset_if_new_day :: "rat \<Rightarrow> workcell_budget \<Rightarrow> workcell_budget" where
  "reset_if_new_day now b =
     (if wb_day b \<noteq> today_utc now
      then b\<lparr>wb_day := today_utc now, wb_input := 0, wb_output := 0, wb_total := 0, wb_calls := 0, wb_successes := 0,
             wb_failures := 0, wb_errors := 0\<rparr>
      else b)"

interpretation workcell_rows: daily_rows reset_if_new_day fresh_budget wb_day
  by unfold_locales (simp_all add: reset_if_new_day_def)

section \<open>The quota\<close>

text \<open>\<open>int(x)\<close> of a number truncates towards zero.\<close>

definition py_trunc :: "rat \<Rightarrow> int" where
  "py_trunc x = (if 0 \<le> x then \<lfloor>x\<rfloor> else \<lceil>x\<rceil>)"

definition compute_quota :: "int \<Rightarrow> rat \<Rightarrow> int \<Rightarrow> int \<Rightarrow> rat \<Rightarrow> int" where
  "compute_quota base ema ema_calls min_calls floor_pct =
     (if ema_calls < min_calls then base
      else (let ema = max 0 (min 1 ema);
                factor = 1 / 2 + 3 / 2 * ema;
                least = py_trunc (of_int base * floor_pct)
            in max least (py_trunc (of_int base * factor))))"

record budget_config =
  bc_base :: int
  bc_alpha :: rat
  bc_floor :: rat
  bc_threshold :: int
  bc_cooldown :: int
  bc_ddb :: bool

definition llm_budget_init :: "int \<Rightarrow> rat \<Rightarrow> rat \<Rightarrow> bool \<Rightarrow> int \<Rightarrow> int \<Rightarrow> string + budget_config" where
  "llm_budget_init base alpha floor_pct ddb threshold cooldown =
     (if \<not> (0 < alpha \<and> alpha \<le> 1) then Inl ''ema_alpha must be in (0, 1]''
      else if \<not> (0 \<le> floor_pct \<and> floor_pct \<le> 1) then Inl ''floor_pct must be in [0, 1]''
      else if threshold < 1 then Inl ''circuit_breaker_threshold must be >= 1''
      else if cooldown < 0 then Inl ''circuit_breaker_cooldown_sec must be >= 0''
      else Inr \<lparr>bc_base = base, bc_alpha = alpha, bc_floor = floor_pct, bc_threshold = threshold, bc_cooldown = cooldown, bc_ddb = ddb\<rparr>)"

definition QUOTA_OVERRIDE_MIN_FACTOR :: rat where "QUOTA_OVERRIDE_MIN_FACTOR = 1 / 4"
definition QUOTA_OVERRIDE_MAX_FACTOR :: rat where "QUOTA_OVERRIDE_MAX_FACTOR = 2"
definition QUOTA_OVERRIDE_MAX_TTL_SEC :: rat where "QUOTA_OVERRIDE_MAX_TTL_SEC = 24 * 3600"

definition clamp_override :: "budget_config \<Rightarrow> int \<Rightarrow> int" where
  "clamp_override cfg quota =
     (let lo = py_trunc (of_int (bc_base cfg) * QUOTA_OVERRIDE_MIN_FACTOR);
          hi = py_trunc (of_int (bc_base cfg) * QUOTA_OVERRIDE_MAX_FACTOR)
      in max lo (min hi quota))"

definition effective_quota :: "budget_config \<Rightarrow> rat \<Rightarrow> workcell_budget \<Rightarrow> int" where
  "effective_quota cfg now b =
     (if wb_override b \<noteq> 0 \<and> wb_override_until b \<noteq> IsoText [] \<and> now < of_int (iso_to_epoch (wb_override_until b))
      then clamp_override cfg (wb_override b)
      else compute_quota (bc_base cfg) (wb_ema b) (wb_ema_calls b) 10 (bc_floor cfg))"

section \<open>Operations\<close>

definition GLOBAL_CONTROLS :: string where "GLOBAL_CONTROLS = ''__global_controls__''"

definition ESSENTIAL_WORKCELLS :: "string list" where
  "ESSENTIAL_WORKCELLS = [''finance'', ''gateway'', ''cash_engine'', ''crm'']"

definition BUDGET_CACHE_TTL :: rat where "BUDGET_CACHE_TTL = 60"

type_synonym budgets = "workcell_budget row_store"

abbreviation load_budget :: "budget_config \<Rightarrow> store_reach \<Rightarrow> rat \<Rightarrow> string \<Rightarrow> budgets \<Rightarrow> workcell_budget \<times> budgets" where
  "load_budget cfg h now \<equiv> load_row reset_if_new_day fresh_budget BUDGET_CACHE_TTL (bc_ddb cfg) h now"

datatype quota_reason = Circuit_Open_Until iso_time | Nonessential_Frozen_Until iso_time | Budget_Used_Up int int int | Broker_Said string

record quota_decision =
  qd_allowed :: bool
  qd_quota :: int
  qd_used :: int
  qd_requested :: int
  qd_reason :: "quota_reason option"

definition nonessential_frozen_until :: "budget_config \<Rightarrow> store_reach \<Rightarrow> rat \<Rightarrow> budgets \<Rightarrow> iso_time option \<times> budgets" where
  "nonessential_frozen_until cfg h now s =
     (let (row, s) = load_budget cfg h now GLOBAL_CONTROLS s; until = wb_freeze_until row
      in ((if until \<noteq> IsoText [] \<and> now < of_int (iso_to_epoch until) then Some until else None), s))"

definition can_spend :: "budget_config \<Rightarrow> store_reach \<Rightarrow> rat \<Rightarrow> string \<Rightarrow> int \<Rightarrow> budgets \<Rightarrow> quota_decision \<times> budgets" where
  "can_spend cfg h now workcell est s =
     (let (b, s) = load_budget cfg h now workcell s;
          deny = (\<lambda>quota reason. \<lparr>qd_allowed = False, qd_quota = quota, qd_used = wb_total b, qd_requested = max 0 est, qd_reason = Some reason\<rparr>) in
      if wb_open_until b \<noteq> IsoText [] \<and> now < of_int (iso_to_epoch (wb_open_until b))
      then (deny (bc_base cfg) (Circuit_Open_Until (wb_open_until b)), s)
      else
        (let b = b\<lparr>wb_open_until := IsoText []\<rparr>; s = mutate_cached workcell b s;
             (frozen, s) = nonessential_frozen_until cfg h now s in
         case (if workcell \<in> set ESSENTIAL_WORKCELLS then None else frozen) of
           Some until \<Rightarrow> (deny (bc_base cfg) (Nonessential_Frozen_Until until), s)
         | None \<Rightarrow>
             (let quota = effective_quota cfg now b; used = wb_total b; requested = max 0 est in
              if used + requested > quota then (deny quota (Budget_Used_Up used requested quota), s)
              else (\<lparr>qd_allowed = True, qd_quota = quota, qd_used = used, qd_requested = requested, qd_reason = None\<rparr>, s))))"

datatype outcome = Success | Failure | Error | Unknown_Outcome string

text \<open>The counters of the call, then the outcome; an outcome that is none of the three raises after the counters have moved.\<close>

definition count_tokens :: "int \<Rightarrow> int \<Rightarrow> workcell_budget \<Rightarrow> workcell_budget" where
  "count_tokens inp out b =
     (let i = wb_input b + max 0 inp; k = wb_output b + max 0 out
      in b\<lparr>wb_input := i, wb_output := k, wb_total := i + k, wb_calls := wb_calls b + 1\<rparr>)"

fun count_outcome :: "budget_config \<Rightarrow> rat \<Rightarrow> outcome \<Rightarrow> workcell_budget \<Rightarrow> workcell_budget" where
  "count_outcome cfg now Success b =
     b\<lparr>wb_successes := wb_successes b + 1, wb_ema_calls := wb_ema_calls b + 1,
       wb_ema := (1 - bc_alpha cfg) * wb_ema b + bc_alpha cfg * 1, wb_consecutive := 0, wb_open_until := IsoText []\<rparr>"
| "count_outcome cfg now Failure b =
     b\<lparr>wb_failures := wb_failures b + 1, wb_ema_calls := wb_ema_calls b + 1,
       wb_ema := (1 - bc_alpha cfg) * wb_ema b + bc_alpha cfg * 0, wb_consecutive := 0, wb_open_until := IsoText []\<rparr>"
| "count_outcome cfg now Error b =
     (let b = b\<lparr>wb_errors := wb_errors b + 1, wb_consecutive := wb_consecutive b + 1\<rparr>
      in if wb_consecutive b \<ge> bc_threshold cfg then b\<lparr>wb_open_until := iso_at (now + of_int (bc_cooldown cfg))\<rparr> else b)"
| "count_outcome cfg now (Unknown_Outcome x) b = b"

definition record_spend ::
  "budget_config \<Rightarrow> store_reach \<Rightarrow> rat \<Rightarrow> string \<Rightarrow> int \<Rightarrow> int \<Rightarrow> outcome \<Rightarrow> budgets \<Rightarrow> (string + workcell_budget) \<times> budgets" where
  "record_spend cfg h now workcell inp out oc s =
     (let (b, s) = load_budget cfg h now workcell s; b = count_tokens inp out b in
      case oc of
        Unknown_Outcome x \<Rightarrow> (Inl x, mutate_cached workcell b s)
      | _ \<Rightarrow> (let b = count_outcome cfg now oc b in (Inr b, store_row (bc_ddb cfg) h now workcell b s)))"

definition set_quota_override :: "budget_config \<Rightarrow> store_reach \<Rightarrow> rat \<Rightarrow> string \<Rightarrow> int \<Rightarrow> rat \<Rightarrow> budgets \<Rightarrow> workcell_budget \<times> budgets" where
  "set_quota_override cfg h now workcell quota ttl_seconds =
     touch_row reset_if_new_day fresh_budget BUDGET_CACHE_TTL (bc_ddb cfg)
       (\<lambda>b. b\<lparr>wb_override := clamp_override cfg quota,
              wb_override_until := iso_at (now + max 1 (min ttl_seconds QUOTA_OVERRIDE_MAX_TTL_SEC))\<rparr>) h now workcell"

definition clear_quota_override :: "budget_config \<Rightarrow> store_reach \<Rightarrow> rat \<Rightarrow> string \<Rightarrow> budgets \<Rightarrow> workcell_budget \<times> budgets" where
  "clear_quota_override cfg h now workcell =
     touch_row reset_if_new_day fresh_budget BUDGET_CACHE_TTL (bc_ddb cfg)
       (\<lambda>b. b\<lparr>wb_override := 0, wb_override_until := IsoText []\<rparr>) h now workcell"

definition freeze_nonessential :: "budget_config \<Rightarrow> store_reach \<Rightarrow> rat \<Rightarrow> rat \<Rightarrow> budgets \<Rightarrow> iso_time \<times> budgets" where
  "freeze_nonessential cfg h now ttl_seconds s =
     (let until = iso_at (now + max 1 (min ttl_seconds QUOTA_OVERRIDE_MAX_TTL_SEC));
          (row, s) = touch_row reset_if_new_day fresh_budget BUDGET_CACHE_TTL (bc_ddb cfg)
            (\<lambda>b. b\<lparr>wb_freeze_until := until\<rparr>) h now GLOBAL_CONTROLS s
      in (until, s))"

section \<open>The quota's range\<close>

lemma py_trunc_nonneg: "0 \<le> x \<Longrightarrow> py_trunc x = \<lfloor>x\<rfloor>"
  by (simp add: py_trunc_def)

lemma py_trunc_scaled:
  assumes "0 \<le> base" "0 \<le> x" "x \<le> of_int k"
  shows "0 \<le> py_trunc (of_int base * x)" "py_trunc (of_int base * x) \<le> base * k"
proof -
  have x: "0 \<le> (of_int base :: rat) * x" using assms(1,2) by simp
  have "(of_int base :: rat) * x \<le> of_int (base * k)" using assms(1,3) by (simp add: mult_left_mono)
  then show "py_trunc (of_int base * x) \<le> base * k" using x by (simp add: py_trunc_nonneg floor_le_iff)
  show "0 \<le> py_trunc (of_int base * x)" using x by (simp add: py_trunc_nonneg)
qed

lemma py_trunc_mono: "0 \<le> x \<Longrightarrow> x \<le> y \<Longrightarrow> py_trunc x \<le> py_trunc y"
  by (simp add: py_trunc_nonneg floor_mono)

lemma quota_range:
  assumes "0 \<le> bc_base cfg" "0 \<le> bc_floor cfg" "bc_floor cfg \<le> 1"
  shows "min (py_trunc (of_int (bc_base cfg) * (1 / 4))) (py_trunc (of_int (bc_base cfg) * bc_floor cfg)) \<le> effective_quota cfg now b
    \<and> effective_quota cfg now b \<le> 2 * bc_base cfg"
proof -
  let ?base = "bc_base cfg"
  have q: "py_trunc (of_int ?base * (1 / 4)) \<le> ?base" "py_trunc (of_int ?base * bc_floor cfg) \<le> ?base"
    using py_trunc_scaled [OF assms(1), of "1 / 4" 1] py_trunc_scaled [OF assms(1), of "bc_floor cfg" 1] assms by simp_all
  have "(of_int ?base :: rat) * 2 = of_int (2 * ?base)" by simp
  moreover have "py_trunc (of_int (2 * ?base)) = 2 * ?base" unfolding py_trunc_def floor_of_int ceiling_of_int by simp
  ultimately have "py_trunc (of_int ?base * 2) = 2 * ?base" by metis
  then have clamp: "py_trunc (of_int ?base * (1 / 4)) \<le> clamp_override cfg x \<and> clamp_override cfg x \<le> 2 * ?base" for x
    using q(1) assms(1) by (auto simp: clamp_override_def QUOTA_OVERRIDE_MIN_FACTOR_def QUOTA_OVERRIDE_MAX_FACTOR_def Let_def)
  have "py_trunc (of_int ?base * (1 / 2 + 3 / 2 * max 0 (min 1 e))) \<le> 2 * ?base" for e :: rat
    using py_trunc_scaled(2) [OF assms(1), of "1 / 2 + 3 / 2 * max 0 (min 1 e)" 2] by (auto simp: mult.commute)
  then have "py_trunc (of_int ?base * bc_floor cfg) \<le> compute_quota ?base e n m (bc_floor cfg) \<and> compute_quota ?base e n m (bc_floor cfg) \<le> 2 * ?base" for e n m
    using q(2) assms(1) by (auto simp: compute_quota_def Let_def)
  note computed = this [of "wb_ema b" "wb_ema_calls b" 10]
  have "effective_quota cfg now b \<in> {clamp_override cfg (wb_override b), compute_quota ?base (wb_ema b) (wb_ema_calls b) 10 (bc_floor cfg)}"
    by (simp add: effective_quota_def)
  then show ?thesis using clamp [of "wb_override b"] computed by (auto simp: min_le_iff_disj)
qed

text \<open>The quota has a floor and a ceiling. For a base that is not negative, the quota in force for a workcell, by its
  efficiency or by an override whatever its amount, is at most twice the base and at least the smaller of a quarter of
  the base and the configured floor.\<close>

theorem quota_stays_in_range:
  assumes "0 \<le> bc_base cfg" "0 \<le> bc_floor cfg" "bc_floor cfg \<le> 1"
  shows "min (py_trunc (of_int (bc_base cfg) * (1 / 4))) (py_trunc (of_int (bc_base cfg) * bc_floor cfg)) \<le> effective_quota cfg now b
    \<and> effective_quota cfg now b \<le> 2 * bc_base cfg"
  by (rule quota_range [OF assms])

section \<open>The pre-flight check\<close>

text \<open>The check admits exactly what it should. Let b be the row the check reads, the breaker field aside. The call is
  allowed exactly when the breaker's time has passed or is not set, no freeze is running unless the workcell is
  essential, and the day's total with the (non-negative) request stays within the quota in force.\<close>

theorem can_spend_admits_exactly:
  assumes "load_budget cfg h now workcell s = (b, s1)"
    and "nonessential_frozen_until cfg h now (mutate_cached workcell (b\<lparr>wb_open_until := IsoText []\<rparr>) s1) = (frozen, s2)"
  shows "qd_allowed (fst (can_spend cfg h now workcell est s)) \<longleftrightarrow>
    (wb_open_until b = IsoText [] \<or> of_int (iso_to_epoch (wb_open_until b)) \<le> now)
    \<and> (workcell \<in> set ESSENTIAL_WORKCELLS \<or> frozen = None)
    \<and> wb_total b + max 0 est \<le> effective_quota cfg now b"
proof -
  have "effective_quota cfg now (b\<lparr>wb_open_until := IsoText []\<rparr>) = effective_quota cfg now b" by (simp add: effective_quota_def)
  with assms show ?thesis by (auto simp: can_spend_def Let_def not_less split: option.splits)
qed

section \<open>Recording\<close>

lemma record_spend_touch:
  assumes "\<And>x. oc \<noteq> Unknown_Outcome x"
  shows "snd (record_spend cfg h now workcell inp out oc s) =
    snd (touch_row reset_if_new_day fresh_budget BUDGET_CACHE_TTL (bc_ddb cfg) (\<lambda>b. count_outcome cfg now oc (count_tokens inp out b)) h now workcell s)"
proof (cases oc)
  case (Unknown_Outcome x)
  with assms [of x] show ?thesis by simp
qed (simp_all add: record_spend_def touch_row_def Let_def split: prod.splits)

lemma count_outcome_fields [simp]:
  "wb_day (count_outcome cfg now oc b) = wb_day b" "wb_total (count_outcome cfg now oc b) = wb_total b"
  "wb_input (count_outcome cfg now oc b) = wb_input b" "wb_output (count_outcome cfg now oc b) = wb_output b"
  by (cases oc; simp add: Let_def)+

lemma count_tokens_fields [simp]:
  "wb_day (count_tokens inp out b) = wb_day b" "wb_ema (count_tokens inp out b) = wb_ema b" "wb_ema_calls (count_tokens inp out b) = wb_ema_calls b"
  "wb_total (count_tokens inp out b) = wb_input b + wb_output b + max 0 inp + max 0 out"
  "wb_input (count_tokens inp out b) + wb_output (count_tokens inp out b) = wb_input b + wb_output b + max 0 inp + max 0 out"
  by (simp_all add: count_tokens_def Let_def)

text \<open>A recorded call: its time, tokens, outcome (one of the three), and what of the storage answered.\<close>

type_synonym spend_event = "rat \<times> int \<times> int \<times> outcome \<times> store_reach"

definition spend_step :: "budget_config \<Rightarrow> string \<Rightarrow> spend_event \<Rightarrow> budgets \<Rightarrow> budgets" where
  "spend_step cfg workcell = (\<lambda>(now, inp, out, oc, h) s. snd (record_spend cfg h now workcell inp out oc s))"

definition known_outcome :: "spend_event \<Rightarrow> bool" where
  "known_outcome = (\<lambda>(now, inp, out, oc, h). oc \<in> {Success, Failure, Error})"

definition event_tokens :: "spend_event \<Rightarrow> int" where
  "event_tokens = (\<lambda>(now, inp, out, oc, h). max 0 inp + max 0 out)"

lemma fold_counts:
  "wb_total b = wb_input b + wb_output b \<Longrightarrow>
   (let b' = fold (\<lambda>(now, inp, out, oc, h) b. count_outcome cfg now oc (count_tokens inp out b)) evs b
    in wb_day b' = wb_day b \<and> wb_total b' = wb_total b + (\<Sum>e\<leftarrow>evs. event_tokens e) \<and> wb_total b' = wb_input b' + wb_output b')"
proof (induction evs arbitrary: b)
  case (Cons e evs)
  obtain now inp out oc h where e: "e = (now, inp, out, oc, h)" by (cases e)
  have "wb_total (count_outcome cfg now oc (count_tokens inp out b))
      = wb_input (count_outcome cfg now oc (count_tokens inp out b)) + wb_output (count_outcome cfg now oc (count_tokens inp out b))"
    by simp
  from Cons.IH [OF this] Cons.prems e show ?case by (simp add: Let_def event_tokens_def)
qed simp

text \<open>A busy workcell is not renewed at midnight. The day of a row is looked at only when it comes from storage, and
  every recorded call puts it back into the cache for another minute. While a workcell records a call at least once a minute,
  its counters keep running through any number of days: yesterday's tokens count against today's quota.\<close>

theorem busy_workcell_is_not_renewed:
  assumes "map_of (rs_cache s) workcell = Some (t, b)" "wb_total b = wb_input b + wb_output b"
    and "\<forall>ev \<in> set evs. known_outcome ev" "close_times BUDGET_CACHE_TTL t (map fst evs)" "now - last (t # map fst evs) < BUDGET_CACHE_TTL"
    and "load_budget cfg h now workcell (fold (spend_step cfg workcell) evs s) = (b', s')"
  shows "wb_day b' = wb_day b \<and> wb_total b' = wb_total b + (\<Sum>e\<leftarrow>evs. event_tokens e)"
proof -
  let ?touch = "\<lambda>(now, f, h) s. snd (touch_row reset_if_new_day fresh_budget BUDGET_CACHE_TTL (bc_ddb cfg) f h now workcell s)"
  let ?conv = "\<lambda>(now, inp, out, oc, h). (now, \<lambda>b. count_outcome cfg now oc (count_tokens inp out b), h)"
  have "spend_step cfg workcell ev s = ?touch (?conv ev) s" if "known_outcome ev" for ev s
    using that by (cases ev) (auto simp: spend_step_def known_outcome_def record_spend_touch)
  then have "fold (spend_step cfg workcell) evs s = fold ?touch (map ?conv evs) s"
    using assms(3) by (induction evs arbitrary: s) simp_all
  moreover have t: "map fst (map ?conv evs) = map fst evs" by (auto simp: comp_def)
  moreover have "fold (\<lambda>(now, f, h) b. f b) (map ?conv evs) b = fold (\<lambda>(now, inp, out, oc, h) b. count_outcome cfg now oc (count_tokens inp out b)) evs b"
    by (induction evs arbitrary: b) auto
  ultimately have "map_of (rs_cache (fold (spend_step cfg workcell) evs s)) workcell
      = Some (last (t # map fst evs), fold (\<lambda>(now, inp, out, oc, h) b. count_outcome cfg now oc (count_tokens inp out b)) evs b)"
    using workcell_rows.busy_row_is_kept [OF assms(1), of BUDGET_CACHE_TTL "map ?conv evs" "bc_ddb cfg"] assms(4) by (simp only: t)
  then have "cached_row BUDGET_CACHE_TTL now workcell (fold (spend_step cfg workcell) evs s)
      = Some (fold (\<lambda>(now, inp, out, oc, h) b. count_outcome cfg now oc (count_tokens inp out b)) evs b)"
    using assms(5) by (simp add: cached_row_def)
  from load_cached [OF this] assms(6) fold_counts [OF assms(2), of cfg evs] show ?thesis by (auto simp: Let_def)
qed

text \<open>An outage of the reads forgets the day. The file is written only when the table refuses a row, so it is no mirror:
  when the table cannot be read and the cache has expired, the next recorded call starts from a fresh row, and saving it
  replaces the table's row: the tokens recorded before are gone, and so are efficiency, breaker and override.\<close>

theorem read_outage_forgets_usage:
  assumes "cached_row BUDGET_CACHE_TTL now workcell s = None" "bc_ddb cfg" "\<not> sr_table_get h" "sr_table_put h"
    and "map_of (rs_file s) workcell = None" "oc \<in> {Success, Failure, Error}"
  shows "\<exists>b. map_of (rs_table (snd (record_spend cfg h now workcell inp out oc s))) workcell = Some b
    \<and> wb_total b = max 0 inp + max 0 out \<and> wb_override b = 0 \<and> wb_ema_calls b \<le> 1"
proof -
  have "oc \<noteq> Unknown_Outcome x" for x using assms(6) by auto
  with workcell_rows.outage_forgets [OF assms(1,3,5,2,4), of "\<lambda>b. count_outcome cfg now oc (count_tokens inp out b)"]
  have t: "map_of (rs_table (snd (record_spend cfg h now workcell inp out oc s))) workcell
      = Some (count_outcome cfg now oc (count_tokens inp out (fresh_budget workcell now)))"
    by (simp add: record_spend_touch reset_if_new_day_def fresh_budget_def)
  show ?thesis unfolding t using assms(6)
    by (auto simp: fresh_budget_def, auto simp: count_tokens_def Let_def)
qed

text \<open>Concurrent processes lose tokens. The row is written whole, from each process's own cache: when two processes that
  have the same row cached record one call each, the table's total is as if only the second had been made.\<close>

theorem second_process_overwrites_first:
  assumes "map_of (rm_caches m 0) workcell = Some (t, b)" "map_of (rm_caches m 1) workcell = Some (t, b)"
    and "wb_total b = wb_input b + wb_output b" "bc_ddb cfg" "now - t < BUDGET_CACHE_TTL"
    and "m1 = on_process 0 (\<lambda>s. snd (record_spend cfg fully_working now workcell inp1 out1 Success s)) m"
    and "m2 = on_process 1 (\<lambda>s. snd (record_spend cfg fully_working now workcell inp2 out2 Success s)) m1"
  shows "\<exists>b'. map_of (rm_table m2) workcell = Some b' \<and> wb_total b' = wb_total b + max 0 inp2 + max 0 out2"
proof -
  have "rm_caches m1 1 = rm_caches m 1" by (simp add: assms(6) on_process_def left_by_def)
  then have "cached_row BUDGET_CACHE_TTL now workcell (seen_by 1 m1) = Some b"
    using assms(2,5) by (simp add: cached_row_def seen_by_def)
  then have "snd (record_spend cfg fully_working now workcell inp2 out2 Success (seen_by 1 m1))
      = store_row (bc_ddb cfg) fully_working now workcell (count_outcome cfg now Success (count_tokens inp2 out2 b)) (seen_by 1 m1)"
    by (simp add: record_spend_def load_cached Let_def)
  then have "map_of (rm_table m2) workcell = Some (count_outcome cfg now Success (count_tokens inp2 out2 b))"
    using assms(4,7) by (simp add: on_process_def left_by_def store_row_def Let_def map_of_update del: count_outcome.simps)
  then show ?thesis using assms(3) by simp
qed

section \<open>Sequential calls stay under the ceiling\<close>

definition sound_row :: "workcell_budget \<Rightarrow> bool" where
  "sound_row b \<longleftrightarrow> 0 \<le> wb_input b \<and> 0 \<le> wb_output b \<and> wb_total b = wb_input b + wb_output b"

interpretation workcell_counts: counted_rows reset_if_new_day fresh_budget wb_day "\<lambda>b. of_int (wb_total b)" sound_row
  by unfold_locales (auto simp: reset_if_new_day_def fresh_budget_def sound_row_def)

abbreviation workcell_books :: "budget_config \<Rightarrow> string \<Rightarrow> rat \<Rightarrow> budgets \<Rightarrow> bool" where
  "workcell_books cfg \<equiv> books_ok wb_day (\<lambda>b. of_int (wb_total b)) sound_row (of_int (2 * bc_base cfg))"

lemma can_spend_books:
  assumes "workcell_books cfg w now s" "0 \<le> bc_base cfg" "0 \<le> bc_floor cfg" "bc_floor cfg \<le> 1" "bc_ddb cfg" "w \<noteq> GLOBAL_CONTROLS"
    and "can_spend cfg fully_working now w est s = (d, s')"
  shows "workcell_books cfg w now s'" "qd_allowed d \<Longrightarrow> \<exists>t b. map_of (rs_cache s') w = Some (t, b) \<and> wb_total b + max 0 est \<le> 2 * bc_base cfg"
proof -
  obtain b s1 where l: "load_budget cfg fully_working now w s = (b, s1)" by fastforce
  have "0 \<le> (of_int (2 * bc_base cfg) :: rat)" using assms(2) by simp
  note lb = workcell_counts.load_books [OF assms(1) this assms(5) l]
  obtain t where t: "map_of (rs_cache s1) w = Some (t, b)" using lb(2) by blast
  define b' where "b' = b\<lparr>wb_open_until := IsoText []\<rparr>"
  have "wb_day b' = wb_day b" "(of_int (wb_total b') :: rat) = of_int (wb_total b)" "sound_row b \<Longrightarrow> sound_row b'"
    by (simp_all add: b'_def sound_row_def)
  note m = mutate_books [OF lb(1) t this]
  obtain frozen s2 where n: "nonessential_frozen_until cfg fully_working now (mutate_cached w b' s1) = (frozen, s2)" by fastforce
  then have "\<exists>row. load_budget cfg fully_working now GLOBAL_CONTROLS (mutate_cached w b' s1) = (row, s2)"
    by (auto simp: nonessential_frozen_until_def Let_def split: prod.splits)
  then obtain row where g: "load_budget cfg fully_working now GLOBAL_CONTROLS (mutate_cached w b' s1) = (row, s2)" by blast
  note o = load_other_books [OF m(1) _ g]
  have s': "s' \<in> {s1, s2}" "qd_allowed d \<Longrightarrow> s' = s2 \<and> wb_total b + max 0 est \<le> effective_quota cfg now b'"
    using assms(7) l n by (auto simp: can_spend_def Let_def b'_def split: if_splits option.splits)
  have q: "effective_quota cfg now b' \<le> 2 * bc_base cfg" using quota_range [OF assms(2-4)] by blast
  show "workcell_books cfg w now s'" using s'(1) lb(1) o(1) assms(6) by auto
  show "\<exists>t b. map_of (rs_cache s') w = Some (t, b) \<and> wb_total b + max 0 est \<le> 2 * bc_base cfg" if "qd_allowed d"
    using s'(2) [OF that] q o(2) m(2) assms(6) by (auto simp: b'_def)
qed

definition guarded_call :: "budget_config \<Rightarrow> string \<Rightarrow> rat \<times> rat \<times> int \<times> int \<times> int \<times> outcome \<Rightarrow> budgets \<Rightarrow> budgets" where
  "guarded_call cfg w = (\<lambda>(asked, done_at, est, inp, out, oc) s.
     (let (d, s) = can_spend cfg fully_working asked w est s
      in if qd_allowed d then snd (record_spend cfg fully_working done_at w inp out oc s) else s))"

fun honest_calls :: "rat \<Rightarrow> (rat \<times> rat \<times> int \<times> int \<times> int \<times> outcome) list \<Rightarrow> bool" where
  "honest_calls t [] = True"
| "honest_calls t ((asked, done_at, est, inp, out, oc) # calls) =
     (t \<le> asked \<and> asked \<le> done_at \<and> max 0 inp + max 0 out \<le> max 0 est \<and> oc \<in> {Success, Failure, Error} \<and> honest_calls done_at calls)"

lemma guarded_books:
  assumes "workcell_books cfg w asked s" "0 \<le> bc_base cfg" "0 \<le> bc_floor cfg" "bc_floor cfg \<le> 1" "bc_ddb cfg" "w \<noteq> GLOBAL_CONTROLS"
    and "asked \<le> done_at" "max 0 inp + max 0 out \<le> max 0 est" "oc \<in> {Success, Failure, Error}"
  shows "workcell_books cfg w done_at (guarded_call cfg w (asked, done_at, est, inp, out, oc) s)"
proof -
  obtain d s1 where c: "can_spend cfg fully_working asked w est s = (d, s1)" by fastforce
  note cb = can_spend_books [OF assms(1-6) c]
  show ?thesis
  proof (cases "qd_allowed d")
    case True
    obtain t b where b: "map_of (rs_cache s1) w = Some (t, b)" "wb_total b + max 0 est \<le> 2 * bc_base cfg" using cb(2) [OF True] by blast
    let ?f = "\<lambda>b. count_outcome cfg done_at oc (count_tokens inp out b)"
    have "sound_row (?f r) \<and> of_int (wb_total (?f r)) \<le> (of_int (wb_total r) + of_int (max 0 est) :: rat) \<and> wb_day (?f r) = wb_day r" if "sound_row r" for r
      using that assms(8) by (auto simp: sound_row_def count_tokens_def Let_def simp flip: of_int_add)
    moreover have "of_int (wb_total b) + of_int (max 0 est) \<le> (of_int (2 * bc_base cfg) :: rat)" using b(2) by (simp only: of_int_add [symmetric] of_int_le_iff)
    moreover have "0 \<le> (of_int (2 * bc_base cfg) :: rat)" using assms(2) by simp
    moreover have "oc \<noteq> Unknown_Outcome x" for x using assms(9) by auto
    ultimately show ?thesis
      using workcell_counts.touch_after_check [OF cb(1) b(1) assms(7) _ assms(5), of "of_int (max 0 est)" ?f BUDGET_CACHE_TTL] c True
      by (simp add: guarded_call_def record_spend_touch)
  next
    case False
    with c books_ok_later [OF cb(1) assms(7)] show ?thesis by (simp add: guarded_call_def)
  qed
qed

text \<open>In regular use the ceiling holds. In one process with the table reachable, let the calls of a workcell come one after
  the other, each checked first, made only when it was allowed, and recorded with no more tokens than were asked for. Then the
  total in the workcell's row is never above twice the base budget, at whatever times the calls start and end, across
  midnights and cache expiries.\<close>

theorem sequential_spend_stays_under_ceiling:
  assumes "0 \<le> bc_base cfg" "0 \<le> bc_floor cfg" "bc_floor cfg \<le> 1" "bc_ddb cfg" "w \<noteq> GLOBAL_CONTROLS"
    and "s = \<lparr>rs_table = [], rs_file = [], rs_cache = []\<rparr>" "honest_calls t calls"
  shows "case map_of (rs_table (fold (guarded_call cfg w) calls s)) w of
     Some b \<Rightarrow> wb_total b = wb_input b + wb_output b \<and> wb_total b \<le> 2 * bc_base cfg
   | None \<Rightarrow> True"
proof -
  have "\<exists>t. workcell_books cfg w t (fold (guarded_call cfg w) calls s)" if "workcell_books cfg w t s" using that assms(7)
  proof (induction calls arbitrary: s t)
    case (Cons c calls)
    obtain asked done_at est inp out oc where c: "c = (asked, done_at, est, inp, out, oc)" by (cases c)
    with Cons.prems have h: "t \<le> asked" "asked \<le> done_at" "max 0 inp + max 0 out \<le> max 0 est" "oc \<in> {Success, Failure, Error}" "honest_calls done_at calls"
      by simp_all
    have "workcell_books cfg w asked s" by (rule books_ok_later [OF Cons.prems(1) h(1)])
    from guarded_books [OF this assms(1-5) h(2-4)] Cons.IH [OF _ h(5)] c show ?case by simp
  qed auto
  moreover have "workcell_books cfg w t s" using assms(6) by (simp add: books_ok_def)
  ultimately obtain t' where "workcell_books cfg w t' (fold (guarded_call cfg w) calls s)" by blast
  then show ?thesis by (cases "map_of (rs_table (fold (guarded_call cfg w) calls s)) w") (auto simp: books_ok_def sound_row_def)
qed

section \<open>The breaker\<close>

definition breaker_set :: "iso_time \<Rightarrow> string \<Rightarrow> budgets \<Rightarrow> bool" where
  "breaker_set u w s \<longleftrightarrow> (\<exists>r. map_of (rs_table s) w = Some r \<and> wb_open_until r = u)
     \<and> (\<forall>t b. map_of (rs_cache s) w = Some (t, b) \<longrightarrow> wb_open_until b = u)"

lemma load_breaker:
  assumes "breaker_set u w s" "bc_ddb cfg" "sr_table_get h" "load_budget cfg h now key s = (b, s')"
  shows "breaker_set u w s'" "key = w \<Longrightarrow> wb_open_until b = u"
  using assms
  by (auto simp: breaker_set_def load_row_def cached_row_def stored_row_def reset_if_new_day_def map_of_update Let_def
      split: option.splits if_splits)

lemma mutate_breaker: "breaker_set u w s \<Longrightarrow> key \<noteq> w \<Longrightarrow> breaker_set u w (mutate_cached key b s)"
  by (auto simp: breaker_set_def mutate_cached_def map_of_update split: option.splits)

lemma can_spend_breaker:
  assumes "breaker_set u w s" "bc_ddb cfg" "sr_table_get h" "u \<noteq> IsoText []" "now < of_int (iso_to_epoch u)"
    and "can_spend cfg h now key est s = (d, s')"
  shows "breaker_set u w s'" "key = w \<Longrightarrow> \<not> qd_allowed d \<and> qd_reason d = Some (Circuit_Open_Until u)"
proof -
  obtain b s1 where l: "load_budget cfg h now key s = (b, s1)" by fastforce
  note lb = load_breaker [OF assms(1-3) l]
  define s2 where "s2 = mutate_cached key (b\<lparr>wb_open_until := IsoText []\<rparr>) s1"
  obtain row s3 where g: "load_budget cfg h now GLOBAL_CONTROLS s2 = (row, s3)" by fastforce
  have s': "s' = s1 \<or> s' = s3" "key = w \<Longrightarrow> s' = s1 \<and> \<not> qd_allowed d \<and> qd_reason d = Some (Circuit_Open_Until u)"
    using assms(4-6) l g lb(2)
    by (auto simp: can_spend_def nonessential_frozen_until_def Let_def s2_def [symmetric] split: if_splits option.splits)
  have "breaker_set u w s3" if "key \<noteq> w"
    using load_breaker(1) [OF mutate_breaker [OF lb(1) that] assms(2,3)] g by (simp add: s2_def)
  then show "breaker_set u w s'" using s' lb(1) by blast
  show "key = w \<Longrightarrow> \<not> qd_allowed d \<and> qd_reason d = Some (Circuit_Open_Until u)" using s'(2) by blast
qed

type_synonym check_event = "rat \<times> store_reach \<times> string \<times> int"

definition check_step :: "budget_config \<Rightarrow> check_event \<Rightarrow> budgets \<Rightarrow> budgets" where
  "check_step cfg = (\<lambda>(now, h, key, est) s. snd (can_spend cfg h now key est s))"

text \<open>An open breaker stays open. When the error that reaches the threshold of consecutive errors is recorded and saved,
  every check of that workcell is refused with the breaker's time as the reason until the cooldown is over, after any
  number of checks of any workcells in between, across cache expiry and midnight, as long as the table can be read.\<close>

theorem breaker_holds_until_cooldown:
  assumes "bc_ddb cfg" "sr_table_put h" "load_budget cfg h t w s = (b, s1)" "bc_threshold cfg \<le> wb_consecutive b + 1"
    and "record_spend cfg h t w inp out Error s = (res, s')"
    and "\<forall>(now, h, key, est) \<in> set ((later, h', w, est) # checks). now < of_int \<lfloor>t + of_int (bc_cooldown cfg)\<rfloor> \<and> sr_table_get h"
    and "can_spend cfg h' later w est (fold (check_step cfg) checks s') = (d, s'')"
  shows "\<not> qd_allowed d \<and> qd_reason d = Some (Circuit_Open_Until (iso_at (t + of_int (bc_cooldown cfg))))"
proof -
  let ?u = "iso_at (t + of_int (bc_cooldown cfg))"
  have u: "?u \<noteq> IsoText []" "iso_to_epoch ?u = \<lfloor>t + of_int (bc_cooldown cfg)\<rfloor>" by (simp_all add: iso_at_def)
  have b: "wb_consecutive (count_tokens inp out b) = wb_consecutive b" by (simp add: count_tokens_def Let_def)
  have "s' = store_row (bc_ddb cfg) h t w (count_outcome cfg t Error (count_tokens inp out b)) s1"
    using assms(3,5) by (simp add: record_spend_def Let_def)
  then have "breaker_set ?u w s'"
    using assms(1,2,4) b by (simp add: breaker_set_def store_row_def map_of_update Let_def)
  then have "breaker_set ?u w (fold (check_step cfg) checks s')" using assms(6)
  proof (induction checks arbitrary: s')
    case (Cons c checks)
    obtain now hh key e where c: "c = (now, hh, key, e)" by (cases c)
    obtain dd s2 where d: "can_spend cfg hh now key e s' = (dd, s2)" by fastforce
    have "breaker_set ?u w s2" using can_spend_breaker(1) [OF Cons.prems(1) assms(1) _ u(1) _ d] Cons.prems(2) c u(2) by simp
    with Cons.IH [OF this] Cons.prems(2) c d show ?case by (simp add: check_step_def)
  qed simp
  from can_spend_breaker(2) [OF this assms(1) _ u(1) _ assms(7)] assms(6) u(2) show ?thesis by simp
qed

section \<open>The efficiency average\<close>

text \<open>
  A call whose answer turns out to be useless: the client records a success for the call, then the caller records a failure
  for the task (\<open>record_outcome\<close>).
\<close>

definition failed_task :: "budget_config \<Rightarrow> rat \<Rightarrow> int \<Rightarrow> int \<Rightarrow> workcell_budget \<Rightarrow> workcell_budget" where
  "failed_task cfg now inp out b =
     count_outcome cfg now Failure (count_tokens 0 0 (count_outcome cfg now Success (count_tokens inp out b)))"

text \<open>A failing workcell keeps its quota. The failure is recorded beside the success of the same call, not in its place. If
  every single task of a workcell fails, its efficiency never falls below (1 - a) / (2 - a) for the average's weight a,
  and its quota never below the base or the base scaled by that efficiency, whichever is less: with the default weight it stays
  above its base, while the documentation promises half of it.\<close>

theorem failing_workcell_keeps_quota:
  assumes "0 < bc_alpha cfg" "bc_alpha cfg \<le> 1" "0 \<le> bc_base cfg" "(1 - bc_alpha cfg) / (2 - bc_alpha cfg) \<le> wb_ema b"
  defines "e \<equiv> (1 - bc_alpha cfg) / (2 - bc_alpha cfg)"
  shows "e \<le> wb_ema ((failed_task cfg now inp out ^^ n) b)
    \<and> min (bc_base cfg) (py_trunc (of_int (bc_base cfg) * (1 / 2 + 3 / 2 * e)))
      \<le> compute_quota (bc_base cfg) (wb_ema ((failed_task cfg now inp out ^^ n) b)) (wb_ema_calls ((failed_task cfg now inp out ^^ n) b)) 10 (bc_floor cfg)"
proof -
  let ?a = "bc_alpha cfg"
  have e: "0 \<le> e" "e \<le> 1" using assms(1,2) by (simp_all add: e_def divide_simps)
  have fixp: "(1 - ?a) * ((1 - ?a) * e + ?a) = e" using assms(2) by (simp add: e_def field_simps)
  have step: "e \<le> wb_ema (failed_task cfg now inp out b)" if "e \<le> wb_ema b" for b
  proof -
    have "(1 - ?a) * ((1 - ?a) * e + ?a) \<le> (1 - ?a) * ((1 - ?a) * wb_ema b + ?a)"
      using that assms(2) by (intro mult_left_mono add_right_mono) simp_all
    with fixp show ?thesis by (simp add: failed_task_def)
  qed
  have n: "e \<le> wb_ema ((failed_task cfg now inp out ^^ n) b)" using assms(4) step by (induction n) (simp_all add: e_def)
  let ?x = "wb_ema ((failed_task cfg now inp out ^^ n) b)"
  have "of_int (bc_base cfg) * (1 / 2 + 3 / 2 * e) \<le> of_int (bc_base cfg) * (1 / 2 + 3 / 2 * max 0 (min 1 ?x))"
    using assms(3) n e by (intro mult_left_mono) auto
  then have "py_trunc (of_int (bc_base cfg) * (1 / 2 + 3 / 2 * e)) \<le> py_trunc (of_int (bc_base cfg) * (1 / 2 + 3 / 2 * max 0 (min 1 ?x)))"
    using assms(3) e(1) by (intro py_trunc_mono) simp_all
  then have "min (bc_base cfg) (py_trunc (of_int (bc_base cfg) * (1 / 2 + 3 / 2 * e))) \<le> compute_quota (bc_base cfg) ?x k 10 (bc_floor cfg)" for k
    by (auto simp: compute_quota_def Let_def min_le_iff_disj le_max_iff_disj)
  with n show ?thesis by blast
qed

section \<open>Instances\<close>

definition demo_budget :: budget_config where
  "demo_budget = \<lparr>bc_base = 1000, bc_alpha = 1 / 20, bc_floor = 1 / 10, bc_threshold = 2, bc_cooldown = 300, bc_ddb = True\<rparr>"

definition table_down :: store_reach where
  "table_down = \<lparr>sr_table_get = False, sr_table_put = True, sr_file_read = True, sr_file_write = True\<rparr>"

definition demo_row :: workcell_budget where
  "demo_row = (fresh_budget ''seo'' 1000)\<lparr>wb_input := 700, wb_output := 200, wb_total := 900\<rparr>"

definition no_rows :: budgets where "no_rows = \<lparr>rs_table = [], rs_file = [], rs_cache = []\<rparr>"

lemma demo_budget_row_fields: "wb_total demo_row = 900" "wb_input demo_row = 700" "wb_output demo_row = 200" "wb_day demo_row = Day 0"
  by (simp_all add: demo_row_def fresh_budget_def today_utc_def)

theorem quota_stays_in_range_witness: "250 \<le> effective_quota demo_budget 0 demo_row \<or> 100 \<le> effective_quota demo_budget 0 demo_row"
proof -
  have "py_trunc 250 = 250" "py_trunc 100 = 100" by (simp_all add: py_trunc_def)
  with quota_stays_in_range [of demo_budget 0 demo_row] show ?thesis by (auto simp: demo_budget_def)
qed

theorem can_spend_admits_exactly_witness:
  "qd_allowed (fst (can_spend demo_budget fully_working 5 ''crm'' 400 no_rows)) \<longleftrightarrow> 400 \<le> effective_quota demo_budget 5 (fresh_budget ''crm'' 5)"
proof -
  obtain b s1 where l: "load_budget demo_budget fully_working 5 ''crm'' no_rows = (b, s1)" by fastforce
  then have b: "b = fresh_budget ''crm'' 5"
    by (simp add: load_row_def cached_row_def stored_row_def no_rows_def Let_def reset_if_new_day_def fresh_budget_def split: if_splits)
  obtain frozen s2 where "nonessential_frozen_until demo_budget fully_working 5 (mutate_cached ''crm'' (b\<lparr>wb_open_until := IsoText []\<rparr>) s1) = (frozen, s2)"
    by fastforce
  from can_spend_admits_exactly [OF l this, of 400] show ?thesis by (simp add: b ESSENTIAL_WORKCELLS_def) (simp add: fresh_budget_def)
qed

text \<open>Two calls around the midnight after day 0, forty seconds apart.\<close>

theorem busy_workcell_is_not_renewed_witness:
  "\<exists>b s'. load_budget demo_budget fully_working 86430 ''seo''
      (fold (spend_step demo_budget ''seo'') [(86380, 10, 5, Success, fully_working), (86420, 10, 5, Success, fully_working)]
        \<lparr>rs_table = [], rs_file = [], rs_cache = [(''seo'', 86340, demo_row)]\<rparr>) = (b, s') \<and> wb_day b = Day 0 \<and> wb_total b = 930"
proof -
  let ?s = "\<lparr>rs_table = [], rs_file = [], rs_cache = [(''seo'', 86340, demo_row)]\<rparr>"
  let ?evs = "[(86380, 10, 5, Success, fully_working), (86420, 10, 5, Success, fully_working)]"
  obtain b s' where l: "load_budget demo_budget fully_working 86430 ''seo'' (fold (spend_step demo_budget ''seo'') ?evs ?s) = (b, s')" by fastforce
  have "map_of (rs_cache ?s) ''seo'' = Some (86340, demo_row)" by simp
  from busy_workcell_is_not_renewed [OF this _ _ _ _ l] l show ?thesis
    by (simp add: demo_budget_row_fields known_outcome_def BUDGET_CACHE_TTL_def event_tokens_def)
qed

theorem read_outage_forgets_usage_witness:
  "\<exists>b. map_of (rs_table (snd (record_spend demo_budget table_down 1100 ''seo'' 10 5 Success
      \<lparr>rs_table = [(''seo'', demo_row)], rs_file = [], rs_cache = [(''seo'', 1000, demo_row)]\<rparr>))) ''seo'' = Some b \<and> wb_total b = 15"
  using read_outage_forgets_usage [of 1100 "''seo''" "\<lparr>rs_table = [(''seo'', demo_row)], rs_file = [], rs_cache = [(''seo'', 1000, demo_row)]\<rparr>"
      demo_budget table_down Success 10 5]
  by (auto simp: cached_row_def BUDGET_CACHE_TTL_def demo_budget_def table_down_def)

theorem second_process_overwrites_first_witness:
  "\<exists>b. map_of (rm_table (on_process 1 (\<lambda>s. snd (record_spend demo_budget fully_working 1010 ''seo'' 1 1 Success s))
       (on_process 0 (\<lambda>s. snd (record_spend demo_budget fully_working 1010 ''seo'' 50 50 Success s))
         \<lparr>rm_table = [(''seo'', demo_row)], rm_file = [], rm_caches = (\<lambda>i. [(''seo'', 1000, demo_row)])\<rparr>))) ''seo'' = Some b
     \<and> wb_total b = 902"
  using second_process_overwrites_first [of "\<lparr>rm_table = [(''seo'', demo_row)], rm_file = [], rm_caches = (\<lambda>i. [(''seo'', 1000, demo_row)])\<rparr>"
      "''seo''" 1000 demo_row demo_budget 1010 _ 50 50 _ 1 1]
  by (simp add: demo_budget_row_fields BUDGET_CACHE_TTL_def demo_budget_def)

theorem sequential_spend_stays_under_ceiling_witness:
  "case map_of (rs_table (fold (guarded_call demo_budget ''seo'')
       [(10, 20, 900, 500, 400, Success), (86390, 86410, 900, 500, 400, Failure), (90000, 90001, 50, 10, 10, Error)] no_rows)) ''seo'' of
     Some b \<Rightarrow> wb_total b \<le> 2000 | None \<Rightarrow> True"
  using sequential_spend_stays_under_ceiling [of demo_budget "''seo''" no_rows 0
      "[(10, 20, 900, 500, 400, Success), (86390, 86410, 900, 500, 400, Failure), (90000, 90001, 50, 10, 10, Error)]"]
  by (simp add: demo_budget_def no_rows_def GLOBAL_CONTROLS_def split: option.splits)

theorem breaker_holds_until_cooldown_witness:
  "qd_reason (fst (can_spend demo_budget fully_working 1250 ''seo'' 1
      (fold (check_step demo_budget) [(1100, fully_working, ''crm'', 5), (1200, fully_working, ''seo'', 5)]
        (snd (record_spend demo_budget fully_working 1000 ''seo'' 0 0 Error
          \<lparr>rs_table = [(''seo'', demo_row\<lparr>wb_consecutive := 1\<rparr>)], rs_file = [], rs_cache = []\<rparr>))))) = Some (Circuit_Open_Until (IsoAt 1300))"
proof -
  let ?s = "\<lparr>rs_table = [(''seo'', demo_row\<lparr>wb_consecutive := 1\<rparr>)], rs_file = [], rs_cache = []\<rparr>"
  obtain b s1 where l: "load_budget demo_budget fully_working 1000 ''seo'' ?s = (b, s1)" by fastforce
  have b: "wb_consecutive b = 1"
    using l by (auto simp: load_row_def cached_row_def stored_row_def demo_budget_def Let_def reset_if_new_day_def split: if_splits)
  obtain res s' where r: "record_spend demo_budget fully_working 1000 ''seo'' 0 0 Error ?s = (res, s')" by fastforce
  obtain d s'' where d: "can_spend demo_budget fully_working 1250 ''seo'' 1
      (fold (check_step demo_budget) [(1100, fully_working, ''crm'', 5), (1200, fully_working, ''seo'', 5)] s') = (d, s'')" by fastforce
  have c: "bc_ddb demo_budget" "bc_threshold demo_budget = 2" "bc_cooldown demo_budget = 300" by (simp_all add: demo_budget_def)
  have "\<not> qd_allowed d \<and> qd_reason d = Some (Circuit_Open_Until (iso_at (1000 + of_int (bc_cooldown demo_budget))))"
    by (rule breaker_holds_until_cooldown [OF c(1) _ l _ r _ d]) (simp_all add: b c)
  then show ?thesis unfolding r snd_conv d fst_conv by (simp add: c iso_at_def)
qed

theorem failing_workcell_keeps_quota_witness:
  "1000 \<le> compute_quota 1000 (wb_ema ((failed_task demo_budget 0 10 10 ^^ 30) (fresh_budget ''seo'' 0)))
     (wb_ema_calls ((failed_task demo_budget 0 10 10 ^^ 30) (fresh_budget ''seo'' 0))) 10 (1 / 10)"
proof -
  have d: "bc_base demo_budget = 1000" "bc_alpha demo_budget = 1 / 20" "bc_floor demo_budget = 1 / 10" by (simp_all add: demo_budget_def)
  have "1000 \<le> py_trunc (1000 * (1 / 2 + 3 / 2 * ((1 - 1 / 20) / (2 - 1 / 20))))" by (simp add: py_trunc_def le_floor_iff)
  moreover have "(1 - bc_alpha demo_budget) / (2 - bc_alpha demo_budget) \<le> wb_ema (fresh_budget ''seo'' 0)" by (simp add: d fresh_budget_def)
  note failing_workcell_keeps_quota [OF _ _ _ this, where n = 30 and now = 0 and inp = 10 and out = 10, unfolded d]
  ultimately show ?thesis by (simp add: min_le_iff_disj)
qed

end
