(* ===== verification/Llm_Global.thy ===== *)
theory Llm_Global
  imports Budget_Store
begin

text \<open>
  The dollar cap over all workcells: the price table and cost of \<open>common/llm_pricing.py\<close>, the cap that follows revenue of
  \<open>common/llm_budget_scaler.py\<close>, and the GLOBAL row of \<open>common/llm_global_budget.py\<close> over the shared storage. Dollar amounts are
  rational numbers; the regular expressions of the price table are predicates on the model name; fetching the revenue is an
  outcome that is given.
\<close>

section \<open>Prices\<close>

record model_pricing =
  mp_input :: rat
  mp_output :: rat
  mp_cache_write :: rat
  mp_cache_read :: rat

abbreviation price :: "rat \<Rightarrow> rat \<Rightarrow> rat \<Rightarrow> rat \<Rightarrow> model_pricing" where
  "price i k w r \<equiv> \<lparr>mp_input = i, mp_output = k, mp_cache_write = w, mp_cache_read = r\<rparr>"

text \<open>\<open>p$\<close> matches before one final newline too; \<open>.\<close> does not match a newline.\<close>

definition re_exactly :: "string \<Rightarrow> string \<Rightarrow> bool" where
  "re_exactly p m \<longleftrightarrow> m = p \<or> m = p @ [CHR 0x0A]"

definition re_after_some :: "string \<Rightarrow> string \<Rightarrow> bool" where
  "re_after_some p m \<longleftrightarrow> list_ex (\<lambda>i. py_startswith (drop i m) p \<and> CHR 0x0A \<notin> set (take i m)) [1 ..< Suc (length m)]"

definition local_model :: "string \<Rightarrow> bool" where
  "local_model m \<longleftrightarrow> re_exactly ''local'' m \<or> list_ex (py_startswith m) [''qwen'', ''llama'', ''gemma'', ''mistral'', ''phi-'', ''deepseek'']
     \<or> re_after_some ''gguf'' m"

definition PRICING_TABLE :: "((string \<Rightarrow> bool) \<times> model_pricing) list" where
  "PRICING_TABLE =
     [(local_model, price 0 0 0 0),
      (\<lambda>m. py_startswith m ''gpt-4.1-nano'', price (1 / 10) (2 / 5) 0 (1 / 40)),
      (\<lambda>m. py_startswith m ''gpt-4.1-mini'', price (2 / 5) (8 / 5) 0 (1 / 10)),
      (\<lambda>m. re_exactly ''gpt-4.1'' m \<or> py_startswith m ''gpt-4.1-'', price 2 8 0 (1 / 2)),
      (\<lambda>m. py_startswith m ''o4-mini'', price (11 / 10) (22 / 5) 0 (11 / 40)),
      (\<lambda>m. py_startswith m ''o3'', price 2 8 0 (1 / 2)),
      (\<lambda>m. py_startswith m ''claude-haiku-4'', price (4 / 5) 4 1 (2 / 25)),
      (\<lambda>m. py_startswith m ''claude-sonnet-4'', price 3 15 (15 / 4) (3 / 10)),
      (\<lambda>m. py_startswith m ''claude-opus-4'', price 15 75 (75 / 4) (3 / 2))]"

definition resolve_pricing :: "string \<Rightarrow> model_pricing option" where
  "resolve_pricing model = (if model = [] then None else map_option snd (find (\<lambda>(p, pricing). p model) PRICING_TABLE))"

definition quantize_half_up :: "rat \<Rightarrow> rat" where
  "quantize_half_up x = of_int \<lfloor>x * 10000 + 1 / 2\<rfloor> / 10000"

definition compute_cost_usd :: "string \<Rightarrow> int \<Rightarrow> int \<Rightarrow> int \<Rightarrow> int \<Rightarrow> rat option" where
  "compute_cost_usd model inp out cache_write cache_read =
     map_option (\<lambda>p. quantize_half_up
       (of_int (max 0 inp) * mp_input p / 1000000 + of_int (max 0 out) * mp_output p / 1000000
        + of_int (max 0 cache_write) * mp_cache_write p / 1000000 + of_int (max 0 cache_read) * mp_cache_read p / 1000000))
       (resolve_pricing model)"

definition cost_from_usage :: "string \<Rightarrow> (string \<times> int) list \<Rightarrow> rat" where
  "cost_from_usage model usage =
     (if usage = [] then 0
      else (case compute_cost_usd model (dict_get usage ''input_tokens'' 0) (dict_get usage ''output_tokens'' 0)
              (dict_get usage ''cache_creation_input_tokens'' 0) (dict_get usage ''cache_read_input_tokens'' 0) of
              Some c \<Rightarrow> c | None \<Rightarrow> 0))"

section \<open>The cap that follows revenue\<close>

text \<open>\<open>round(x, 4)\<close> rounds halves to the even neighbour.\<close>

definition round4 :: "rat \<Rightarrow> rat" where
  "round4 x =
     (let y = x * 10000; f = \<lfloor>y\<rfloor>; d = y - of_int f
      in of_int (if d < 1 / 2 then f else if d > 1 / 2 then f + 1 else if even f then f else f + 1) / 10000)"

record scaler_config =
  sc_reinvest :: rat
  sc_floor :: rat
  sc_ceiling :: rat
  sc_refresh :: rat

type_synonym mrr_cache = "rat option \<times> rat"

definition refresh_if_stale :: "scaler_config \<Rightarrow> rat \<Rightarrow> rat option \<Rightarrow> mrr_cache \<Rightarrow> rat \<times> mrr_cache" where
  "refresh_if_stale cfg now fetched st =
     (case st of
        (Some mrr, t) \<Rightarrow>
          if now - t < sc_refresh cfg then (mrr, st)
          else (case fetched of Some m \<Rightarrow> (m, (Some m, now)) | None \<Rightarrow> (mrr, st))
      | (None, t) \<Rightarrow> (case fetched of Some m \<Rightarrow> (m, (Some m, now)) | None \<Rightarrow> (0, st)))"

definition compute_daily_cap :: "scaler_config \<Rightarrow> rat \<Rightarrow> rat option \<Rightarrow> mrr_cache \<Rightarrow> rat \<times> mrr_cache" where
  "compute_daily_cap cfg now fetched st =
     (let (mrr, st) = refresh_if_stale cfg now fetched st;
          raw = mrr * sc_reinvest cfg / 30
      in (round4 (max (sc_floor cfg) (min raw (sc_ceiling cfg))), st))"

section \<open>The GLOBAL row\<close>

record global_budget =
  gb_day :: utc_day
  gb_dollars :: rat
  gb_calls :: int

definition fresh_global :: "string \<Rightarrow> rat \<Rightarrow> global_budget" where
  "fresh_global key now = \<lparr>gb_day = today_utc now, gb_dollars = 0, gb_calls = 0\<rparr>"

definition reset_global :: "rat \<Rightarrow> global_budget \<Rightarrow> global_budget" where
  "reset_global now b = (if gb_day b \<noteq> today_utc now then \<lparr>gb_day = today_utc now, gb_dollars = 0, gb_calls = 0\<rparr> else b)"

definition GLOBAL_PK :: string where "GLOBAL_PK = ''GLOBAL''"

definition GLOBAL_CACHE_TTL :: rat where "GLOBAL_CACHE_TTL = 30"

type_synonym dollars = "global_budget row_store"

abbreviation load_global :: "bool \<Rightarrow> store_reach \<Rightarrow> rat \<Rightarrow> dollars \<Rightarrow> global_budget \<times> dollars" where
  "load_global ddb h now \<equiv> load_row reset_global fresh_global GLOBAL_CACHE_TTL ddb h now GLOBAL_PK"

datatype global_reason = Unknown_Model_Pricing | Global_Cap_Exceeded rat rat rat

record global_decision =
  gd_allowed :: bool
  gd_cap :: rat
  gd_used :: rat
  gd_estimated :: rat
  gd_reason :: "global_reason option"

text \<open>The cap in force during the operation is given: the static one, or what \<^const>\<open>compute_daily_cap\<close> returns.\<close>

definition can_spend_global ::
  "bool \<Rightarrow> rat \<Rightarrow> store_reach \<Rightarrow> rat \<Rightarrow> string \<Rightarrow> int \<Rightarrow> int \<Rightarrow> dollars \<Rightarrow> global_decision \<times> dollars" where
  "can_spend_global ddb cap h now model est_in est_out s =
     (case compute_cost_usd model est_in est_out 0 0 of
        None \<Rightarrow> (\<lparr>gd_allowed = True, gd_cap = cap, gd_used = 0, gd_estimated = 0, gd_reason = Some Unknown_Model_Pricing\<rparr>, s)
      | Some estimated \<Rightarrow>
          (let (b, s) = load_global ddb h now s in
           if gb_dollars b + estimated > cap
           then (\<lparr>gd_allowed = False, gd_cap = cap, gd_used = gb_dollars b, gd_estimated = estimated,
                  gd_reason = Some (Global_Cap_Exceeded (gb_dollars b) estimated cap)\<rparr>, s)
           else (\<lparr>gd_allowed = True, gd_cap = cap, gd_used = gb_dollars b, gd_estimated = estimated, gd_reason = None\<rparr>, s)))"

definition add_cost :: "rat \<Rightarrow> global_budget \<Rightarrow> global_budget" where
  "add_cost cost b = b\<lparr>gb_dollars := round4 (gb_dollars b + cost), gb_calls := gb_calls b + 1\<rparr>"

definition record_spend_global ::
  "bool \<Rightarrow> store_reach \<Rightarrow> rat \<Rightarrow> string \<Rightarrow> int \<Rightarrow> int \<Rightarrow> int \<Rightarrow> int \<Rightarrow> dollars \<Rightarrow> global_budget \<times> dollars" where
  "record_spend_global ddb h now model inp out cache_write cache_read s =
     (case compute_cost_usd model inp out cache_write cache_read of
        None \<Rightarrow> (fresh_global GLOBAL_PK now, s)
      | Some cost \<Rightarrow> touch_row reset_global fresh_global GLOBAL_CACHE_TTL ddb (add_cost cost) h now GLOBAL_PK s)"

section \<open>Facts about amounts\<close>

lemma round4_grid: "round4 (of_int k / 10000) = of_int k / 10000"
  by (simp add: round4_def Let_def)

definition on_grid :: "rat \<Rightarrow> bool" where
  "on_grid x \<longleftrightarrow> (\<exists>k. x = of_int k / 10000)"

lemma round4_on_grid: "on_grid x \<Longrightarrow> round4 x = x"
  unfolding on_grid_def using round4_grid by blast

lemma on_grid_add: "on_grid x \<Longrightarrow> on_grid y \<Longrightarrow> on_grid (x + y)"
  unfolding on_grid_def by (metis add_divide_distrib of_int_add)

lemma quantize_on_grid: "on_grid (quantize_half_up x)"
  unfolding on_grid_def quantize_half_up_def by blast

lemma cost_on_grid: "compute_cost_usd m i k w r = Some c \<Longrightarrow> on_grid c"
  by (auto simp: compute_cost_usd_def quantize_on_grid)

lemma round4_bounds: "x - 1 / 20000 \<le> round4 x \<and> round4 x \<le> x + 1 / 20000"
proof -
  define y where "y = x * 10000"
  have x: "x = y / 10000" by (simp add: y_def)
  define k where "k = \<lfloor>y\<rfloor>"
  have k: "of_int k \<le> y" "y < of_int k + 1" unfolding k_def by linarith+
  have "round4 x = of_int (if y - of_int k < 1 / 2 then k else if y - of_int k > 1 / 2 then k + 1 else if even k then k else k + 1) / 10000"
    by (simp add: round4_def Let_def x k_def)
  with k show ?thesis by (auto simp: x field_simps split: if_splits)
qed

lemma cost_mono:
  assumes "inp \<le> inp'" "out \<le> out'" "cw \<le> cw'" "cr \<le> cr'"
  shows "case (compute_cost_usd model inp out cw cr, compute_cost_usd model inp' out' cw' cr') of
     (Some c, Some c') \<Rightarrow> 0 \<le> c \<and> c \<le> c' | (None, None) \<Rightarrow> True | _ \<Rightarrow> False"
proof (cases "resolve_pricing model")
  case None
  then show ?thesis by (simp add: compute_cost_usd_def)
next
  case (Some p)
  have "p \<in> snd ` set PRICING_TABLE"
    using Some by (auto simp: resolve_pricing_def find_Some_iff image_iff in_set_conv_nth split: if_splits) (metis nth_mem snd_conv)
  then have p: "0 \<le> mp_input p" "0 \<le> mp_output p" "0 \<le> mp_cache_write p" "0 \<le> mp_cache_read p"
    by (auto simp: PRICING_TABLE_def)
  define f where "f i k w r = of_int (max 0 i) * mp_input p / 1000000 + of_int (max 0 k) * mp_output p / 1000000
      + of_int (max 0 w) * mp_cache_write p / 1000000 + of_int (max 0 r) * mp_cache_read p / 1000000" for i k w r :: int
  have "f inp out cw cr \<le> f inp' out' cw' cr'"
    unfolding f_def using assms p by (intro add_mono divide_right_mono mult_right_mono) auto
  then have "quantize_half_up (f inp out cw cr) \<le> quantize_half_up (f inp' out' cw' cr')"
    unfolding quantize_half_up_def by (intro divide_right_mono) (auto intro!: floor_mono)
  moreover have "0 \<le> f inp out cw cr" unfolding f_def using p by (intro add_nonneg_nonneg) auto
  then have "0 \<le> quantize_half_up (f inp out cw cr)" unfolding quantize_half_up_def by (simp add: zero_le_floor)
  ultimately show ?thesis by (simp add: compute_cost_usd_def Some f_def)
qed

text \<open>Prices do not fall with use. A call of a priced model costs at least zero, and more tokens of any of the four kinds never
  cost less. Whether a model is priced does not depend on the tokens.\<close>

theorem cost_grows_with_tokens:
  assumes "inp \<le> inp'" "out \<le> out'" "cw \<le> cw'" "cr \<le> cr'"
  shows "case (compute_cost_usd model inp out cw cr, compute_cost_usd model inp' out' cw' cr') of
     (Some c, Some c') \<Rightarrow> 0 \<le> c \<and> c \<le> c' | (None, None) \<Rightarrow> True | _ \<Rightarrow> False"
  by (rule cost_mono [OF assms])

section \<open>Sequential calls stay under the cap\<close>

definition grid_row :: "global_budget \<Rightarrow> bool" where
  "grid_row b \<longleftrightarrow> on_grid (gb_dollars b) \<and> 0 \<le> gb_dollars b"

lemma zero_on_grid: "on_grid 0"
  unfolding on_grid_def by (metis div_0 of_int_0)

interpretation global_counts: counted_rows reset_global fresh_global gb_day gb_dollars grid_row
  by unfold_locales (auto simp: reset_global_def fresh_global_def grid_row_def zero_on_grid)

lemma add_cost_row:
  "grid_row r \<Longrightarrow> on_grid cost \<Longrightarrow> 0 \<le> cost \<Longrightarrow>
   grid_row (add_cost cost r) \<and> gb_dollars (add_cost cost r) = gb_dollars r + cost \<and> gb_day (add_cost cost r) = gb_day r"
  by (simp add: grid_row_def add_cost_def round4_on_grid on_grid_add)

definition guarded_dollars :: "rat \<Rightarrow> rat \<times> rat \<times> string \<times> int \<times> int \<times> int \<times> int \<Rightarrow> dollars \<Rightarrow> dollars" where
  "guarded_dollars cap = (\<lambda>(asked, done_at, model, est_in, est_out, inp, out) s.
     (let (d, s) = can_spend_global True cap fully_working asked model est_in est_out s
      in if gd_allowed d then snd (record_spend_global True fully_working done_at model inp out 0 0 s) else s))"

fun within_estimates :: "rat \<Rightarrow> (rat \<times> rat \<times> string \<times> int \<times> int \<times> int \<times> int) list \<Rightarrow> bool" where
  "within_estimates t [] = True"
| "within_estimates t ((asked, done_at, model, est_in, est_out, inp, out) # calls) =
     (t \<le> asked \<and> asked \<le> done_at \<and> inp \<le> est_in \<and> out \<le> est_out \<and> within_estimates done_at calls)"

lemma guarded_dollars_books:
  assumes "books_ok gb_day gb_dollars grid_row cap GLOBAL_PK t s" "0 \<le> cap" "t \<le> asked" "asked \<le> done_at" "inp \<le> est_in" "out \<le> est_out"
  shows "books_ok gb_day gb_dollars grid_row cap GLOBAL_PK done_at (guarded_dollars cap (asked, done_at, model, est_in, est_out, inp, out) s)"
proof (cases "compute_cost_usd model est_in est_out 0 0")
  case None
  with cost_mono [OF assms(5,6) order_refl order_refl, of model 0 0] have "compute_cost_usd model inp out 0 0 = None"
    by (cases "compute_cost_usd model inp out 0 0") simp_all
  with None books_ok_later [OF assms(1), of done_at] assms(3,4) show ?thesis
    by (simp add: guarded_dollars_def can_spend_global_def record_spend_global_def)
next
  case (Some est)
  with cost_mono [OF assms(5,6) order_refl order_refl, of model 0 0] obtain c where c: "compute_cost_usd model inp out 0 0 = Some c" "0 \<le> c" "c \<le> est"
    by (cases "compute_cost_usd model inp out 0 0") simp_all
  obtain b s1 where l: "load_global True fully_working asked s = (b, s1)" by fastforce
  note lb = global_counts.load_books [OF books_ok_later [OF assms(1,3)] assms(2) TrueI l]
  show ?thesis
  proof (cases "gb_dollars b + est > cap")
    case True
    with Some l books_ok_later [OF lb(1) assms(4)] show ?thesis by (simp add: guarded_dollars_def can_spend_global_def Let_def)
  next
    case False
    obtain t1 where t1: "map_of (rs_cache s1) GLOBAL_PK = Some (t1, b)" using lb(2) by blast
    have "gb_dollars b + c \<le> cap" using False c(3) by simp
    from global_counts.touch_after_check [OF lb(1) t1 assms(4,2) TrueI this, of "add_cost c" GLOBAL_CACHE_TTL]
    show ?thesis using Some l False c add_cost_row [OF _ cost_on_grid [OF c(1)] c(2)]
      by (simp add: guarded_dollars_def can_spend_global_def record_spend_global_def Let_def)
  qed
qed

text \<open>C22: In regular use the day's dollars stay under the cap. In one process that starts with no rows and no cache, with the
  table reachable throughout, one cap that is not negative and stays the same, and a clock that does not go back, let
  calls of any models come one after the other: each is checked first, made only when allowed, and recorded, before the next
  is checked, with no more input and output tokens than were estimated and no cache tokens. Then the dollars in the
  GLOBAL row are never negative and never exceed the cap, over any number of days.\<close>

theorem sequential_dollars_stay_under_cap:
  assumes "0 \<le> cap" "s = \<lparr>rs_table = [], rs_file = [], rs_cache = []\<rparr>" "within_estimates t calls"
  shows "case map_of (rs_table (fold (guarded_dollars cap) calls s)) GLOBAL_PK of
     Some b \<Rightarrow> 0 \<le> gb_dollars b \<and> gb_dollars b \<le> cap | None \<Rightarrow> True"
proof -
  have "\<exists>t. books_ok gb_day gb_dollars grid_row cap GLOBAL_PK t (fold (guarded_dollars cap) calls s)"
    if "books_ok gb_day gb_dollars grid_row cap GLOBAL_PK t s" using that assms(3)
  proof (induction calls arbitrary: s t)
    case (Cons c calls)
    obtain asked done_at model est_in est_out inp out where c: "c = (asked, done_at, model, est_in, est_out, inp, out)" by (cases c)
    with Cons.prems have h: "t \<le> asked" "asked \<le> done_at" "inp \<le> est_in" "out \<le> est_out" "within_estimates done_at calls" by simp_all
    from guarded_dollars_books [OF Cons.prems(1) assms(1) h(1-4)] Cons.IH [OF _ h(5)] c show ?case by simp
  qed auto
  moreover have "books_ok gb_day gb_dollars grid_row cap GLOBAL_PK t s" using assms(2) by (simp add: books_start)
  ultimately obtain t' where "books_ok gb_day gb_dollars grid_row cap GLOBAL_PK t' (fold (guarded_dollars cap) calls s)" by blast
  then show ?thesis
    by (cases "map_of (rs_table (fold (guarded_dollars cap) calls s)) GLOBAL_PK") (auto simp: books_ok_def grid_row_def)
qed

text \<open>A model without a price is outside the cap. A call of a model that no entry of the price table matches is allowed whatever
  has been spent, and recording it changes nothing: not even the number of calls.\<close>

theorem unpriced_model_is_not_capped:
  assumes "resolve_pricing model = None"
  shows "gd_allowed (fst (can_spend_global ddb cap h now model est_in est_out s)) \<and> snd (can_spend_global ddb cap h now model est_in est_out s) = s
    \<and> snd (record_spend_global ddb h now model inp out cw cr s) = s"
  using assms by (simp add: can_spend_global_def record_spend_global_def compute_cost_usd_def)

text \<open>The cap follows revenue between its ends. With a floor not above the ceiling, the cap of the day is within half of a
  hundredth of a cent of the interval from floor to ceiling, whatever revenue was fetched or cached; without any
  revenue data it is the rounded floor.\<close>

theorem daily_cap_stays_in_range:
  assumes "sc_floor cfg \<le> sc_ceiling cfg" "compute_daily_cap cfg now fetched st = (cap, st')"
  shows "sc_floor cfg - 1 / 20000 \<le> cap \<and> cap \<le> sc_ceiling cfg + 1 / 20000
    \<and> (fst st = None \<and> fetched = None \<and> 0 \<le> sc_floor cfg \<and> 0 \<le> sc_ceiling cfg \<longrightarrow> cap = round4 (sc_floor cfg))"
proof -
  obtain mrr where m: "cap = round4 (max (sc_floor cfg) (min (mrr * sc_reinvest cfg / 30) (sc_ceiling cfg)))"
    "fst st = None \<and> fetched = None \<longrightarrow> mrr = 0"
    using assms(2) by (auto simp: compute_daily_cap_def refresh_if_stale_def Let_def split: prod.splits option.splits if_splits)
  from round4_bounds [of "max (sc_floor cfg) (min (mrr * sc_reinvest cfg / 30) (sc_ceiling cfg))"] assms(1) m show ?thesis
    by (auto simp: max_def min_def)
qed

section \<open>Instances\<close>

theorem cost_grows_with_tokens_witness:
  "case (compute_cost_usd ''gpt-4.1-mini'' 100 10 0 0, compute_cost_usd ''gpt-4.1-mini'' 500 20 0 0) of
     (Some c, Some c') \<Rightarrow> 0 \<le> c \<and> c \<le> c' | (None, None) \<Rightarrow> True | _ \<Rightarrow> False"
  by (rule cost_grows_with_tokens) simp_all

theorem sequential_dollars_stay_under_cap_witness:
  "case map_of (rs_table (fold (guarded_dollars 1) [(10, 20, ''o3'', 900, 500, 400, 500), (86390, 86410, ''o3'', 900, 500, 800, 100)]
       \<lparr>rs_table = [], rs_file = [], rs_cache = []\<rparr>)) GLOBAL_PK of Some b \<Rightarrow> 0 \<le> gb_dollars b \<and> gb_dollars b \<le> 1 | None \<Rightarrow> True"
  by (rule sequential_dollars_stay_under_cap [where t = 0]) simp_all

lemma unpriced_demo: "resolve_pricing ''grok'' = None"
  by (simp add: resolve_pricing_def PRICING_TABLE_def local_model_def re_exactly_def re_after_some_def py_startswith_def upt_rec)

theorem unpriced_model_is_not_capped_witness:
  "gd_allowed (fst (can_spend_global True 0 fully_working 0 ''grok'' 100000 100000 \<lparr>rs_table = [], rs_file = [], rs_cache = []\<rparr>))"
  using unpriced_model_is_not_capped [OF unpriced_demo] by blast

theorem daily_cap_stays_in_range_witness:
  "fst (compute_daily_cap \<lparr>sc_reinvest = 1 / 10, sc_floor = 2, sc_ceiling = 50, sc_refresh = 900\<rparr> 1000 (Some 90000) (None, 0)) \<le> 50 + 1 / 20000"
proof -
  let ?cfg = "\<lparr>sc_reinvest = 1 / 10, sc_floor = 2, sc_ceiling = 50, sc_refresh = 900\<rparr>"
  obtain cap st' where c: "compute_daily_cap ?cfg 1000 (Some 90000) (None, 0) = (cap, st')"
    by (rule that) (rule prod.collapse [symmetric])
  from daily_cap_stays_in_range [OF _ c] show ?thesis by (simp add: c)
qed

end
