(* ===== verification/Http_Stack.thy ===== *)
theory Http_Stack
  imports Hmac_Middleware Json
begin

text \<open>
  The inbound stack of a workcell around its handler: the body ceiling of \<open>common/body_size_limit.py\<close>, the signature
  gate of \<^theory_text>\<open>Hmac_Middleware\<close>, and the HTTP idempotency of \<open>common/middleware.py\<close> over the DynamoDB records of
  \<open>common/dynamodb.py\<close>, composed in the order in which \<open>common/app_factory.py\<close> adds them.

  The DynamoDB table is a dictionary; every call of it can fail, without effect, as the health record of the request
  says. Removal of records by the table's time to live is an event of its own, which takes away any of the records whose time is over.
\<close>

section \<open>The body ceiling\<close>

definition SKIPPED_METHODS :: "string list" where
  "SKIPPED_METHODS = [''GET'', ''HEAD'', ''OPTIONS'']"

definition DEFAULT_MAX_BYTES :: int where
  "DEFAULT_MAX_BYTES = 1 * 1024 * 1024"

definition configured_limit :: "environ \<Rightarrow> int" where
  "configured_limit env =
     (let raw = py_strip (getenv env ''SAMUS_MAX_REQUEST_BODY_BYTES'' [])
      in if raw = [] then DEFAULT_MAX_BYTES
         else (case py_int raw of Some n \<Rightarrow> n | None \<Rightarrow> DEFAULT_MAX_BYTES))"

definition body_limit :: "environ \<Rightarrow> int option \<Rightarrow> int" where
  "body_limit env max_bytes = (case max_bytes of Some n \<Rightarrow> n | None \<Rightarrow> configured_limit env)"

text \<open>
  \<open>capped_receive\<close> over the chunks still to come: the bytes received so far, and either the chunk handed to the
  application or \<^const>\<open>None\<close>, the overflow signal.
\<close>

definition capped_receive :: "int \<Rightarrow> int \<Rightarrow> string \<Rightarrow> string option \<times> int" where
  "capped_receive limit received chunk =
     (let received = received + int (length chunk)
      in if received > limit then (None, received) else (Some chunk, received))"

text \<open>\<open>request.body()\<close> through it: all chunks in one string, unless one of them overflows.\<close>

fun read_body :: "int \<Rightarrow> int \<Rightarrow> string list \<Rightarrow> string option" where
  "read_body limit received [] = Some []"
| "read_body limit received (chunk # chunks) =
     (case capped_receive limit received chunk of
        (None, received) \<Rightarrow> None
      | (Some c, received) \<Rightarrow> map_option (\<lambda>rest. c @ rest) (read_body limit received chunks))"

datatype body_verdict = Pass_Through | Too_Large | Capped string

text \<open>
  The middleware for an application that reads its body before it answers, as the signature gate does: the
  request is passed on untouched, refused with 413, or passed on with the body that was read.
\<close>

definition declared_refused :: "int \<Rightarrow> string option \<Rightarrow> bool" where
  "declared_refused limit content_length =
     (case content_length of None \<Rightarrow> False
      | Some v \<Rightarrow> (case py_int v of None \<Rightarrow> True | Some declared \<Rightarrow> declared > limit))"

definition body_gate :: "environ \<Rightarrow> int option \<Rightarrow> string \<Rightarrow> string option \<Rightarrow> string list \<Rightarrow> body_verdict" where
  "body_gate env max_bytes method content_length chunks =
     (if py_upper method \<in> set SKIPPED_METHODS then Pass_Through
      else
        (let limit = body_limit env max_bytes in
         if limit \<le> 0 then Pass_Through
         else if declared_refused limit content_length then Too_Large
         else (case read_body limit 0 chunks of None \<Rightarrow> Too_Large | Some body \<Rightarrow> Capped body)))"

lemma read_body_spec:
  "received \<le> limit \<Longrightarrow>
   read_body limit received chunks = (if received + int (length (concat chunks)) \<le> limit then Some (concat chunks) else None)"
  by (induction chunks arbitrary: received) (auto simp: capped_receive_def Let_def)

text \<open>C31: No body above the ceiling is buffered. With a positive ceiling, a request of a method that carries a body is
  passed on exactly when its declared length, if there is one, is a number within the ceiling and the chunks received add
  up to at most the ceiling, and then with exactly the concatenation of its chunks; otherwise it is answered with 413.\<close>

theorem body_gate_admits_exactly:
  assumes "py_upper method \<notin> set SKIPPED_METHODS" "body_limit env max_bytes > 0"
  shows "body_gate env max_bytes method content_length chunks =
     (if (\<forall>v. content_length = Some v \<longrightarrow> (\<exists>n. py_int v = Some n \<and> n \<le> body_limit env max_bytes))
         \<and> int (length (concat chunks)) \<le> body_limit env max_bytes
      then Capped (concat chunks) else Too_Large)"
  using assms by (auto simp: body_gate_def declared_refused_def Let_def read_body_spec not_less split: option.splits)

theorem body_gate_admits_exactly_witness:
  "body_gate (\<lambda>v. None) (Some 4) ''POST'' None [''ab'', ''cd''] = Capped ''abcd''
   \<and> body_gate (\<lambda>v. None) (Some 4) ''POST'' None [''ab'', ''cde''] = Too_Large"
proof -
  have "py_upper ''POST'' \<notin> set SKIPPED_METHODS" by code_simp
  from body_gate_admits_exactly [OF this, of "\<lambda>v. None" "Some 4"] show ?thesis by (simp add: body_limit_def)
qed

section \<open>Idempotency records\<close>

record http_response =
  hr_status :: int
  hr_body :: string
  hr_ctype :: string
  hr_headers :: "(string \<times> string) list"

record cached_reply =
  ca_status :: int
  ca_body :: string
  ca_ctype :: string

datatype idem_item = Claimed int | Completed int cached_reply

definition IDEMPOTENCY_TTL_SECONDS :: int where "IDEMPOTENCY_TTL_SECONDS = 86400"

definition idem_pk :: "string \<Rightarrow> string \<Rightarrow> string" where
  "idem_pk workcell key = workcell @ '':'' @ key"

definition idempotency_claim :: "int \<Rightarrow> string \<Rightarrow> string \<Rightarrow> (string \<times> idem_item) list \<Rightarrow> bool \<times> (string \<times> idem_item) list" where
  "idempotency_claim now workcell key table =
     (if dict_has table (idem_pk workcell key) then (False, table)
      else (True, AList.update (idem_pk workcell key) (Claimed (now + IDEMPOTENCY_TTL_SECONDS)) table))"

text \<open>The table's time to live: of the records named, those whose time is over are removed. The records of this table have no other writer.\<close>

fun expires_at :: "idem_item \<Rightarrow> int" where
  "expires_at (Claimed e) = e"
| "expires_at (Completed e reply) = e"

definition ttl_sweep :: "int \<Rightarrow> string list \<Rightarrow> (string \<times> idem_item) list \<Rightarrow> (string \<times> idem_item) list" where
  "ttl_sweep now pks table = filter (\<lambda>(pk, item). \<not> (pk \<in> set pks \<and> expires_at item < now)) table"

definition idempotency_complete ::
  "int \<Rightarrow> string \<Rightarrow> string \<Rightarrow> cached_reply \<Rightarrow> (string \<times> idem_item) list \<Rightarrow> (string \<times> idem_item) list" where
  "idempotency_complete now workcell key reply table =
     AList.update (idem_pk workcell key) (Completed (now + IDEMPOTENCY_TTL_SECONDS) reply) table"

definition idempotency_get :: "string \<Rightarrow> string \<Rightarrow> (string \<times> idem_item) list \<Rightarrow> idem_item option" where
  "idempotency_get workcell key table = map_of table (idem_pk workcell key)"

section \<open>The middleware\<close>

definition IDEMPOTENCY_METHODS :: "string list" where
  "IDEMPOTENCY_METHODS = [''POST'', ''PUT'', ''PATCH'']"

definition IDEMPOTENCY_EXEMPT :: "string list" where
  "IDEMPOTENCY_EXEMPT = [''/health'', ''/metrics'', ''/stripe_webhook'', ''/api/ses/feedback'']"

definition IDEMPOTENCY_IN_FLIGHT_TTL :: int where "IDEMPOTENCY_IN_FLIGHT_TTL = 30"

definition fail_closed_paths :: "environ \<Rightarrow> string list" where
  "fail_closed_paths env =
     filter (\<lambda>p. p \<noteq> []) (map py_strip (split_on (CHR '','') (getenv env ''SAMUS_IDEMPOTENCY_FAIL_CLOSED_PATHS'' ''/meter-event'')))"

record ddb_health =
  dh_claim :: bool
  dh_get :: bool
  dh_complete :: bool

text \<open>
  The state of all instances of a workcell: the shared table, the fast-path cache of each instance (by its number), the
  requests the handler has been called with, and the state of the application.
\<close>

record 'w idem_world =
  iw_table :: "(string \<times> idem_item) list"
  iw_local :: "nat \<Rightarrow> (string \<times> cached_reply) list"
  iw_log :: "http_request list"
  iw_app :: 'w

type_synonym 'w http_handler = "http_request \<Rightarrow> 'w \<Rightarrow> (string + http_response) \<times> 'w"

definition call_next :: "'w http_handler \<Rightarrow> http_request \<Rightarrow> 'w idem_world \<Rightarrow> (string + http_response) \<times> 'w idem_world" where
  "call_next handle r w = (let (res, app) = handle r (iw_app w) in (res, w\<lparr>iw_app := app, iw_log := iw_log w @ [r]\<rparr>))"

definition replay :: "cached_reply \<Rightarrow> http_response" where
  "replay c = \<lparr>hr_status = ca_status c, hr_body = ca_body c, hr_ctype = ca_ctype c,
     hr_headers = [(''X-Idempotency-Replayed'', ''true'')]\<rparr>"

definition store_down_reply :: http_response where
  "store_down_reply = \<lparr>hr_status = 503,
     hr_body = ''{'' @ [CHR 0x22] @ ''error'' @ [CHR 0x22] @ '':'' @ [CHR 0x22] @ ''idempotency_store_unavailable'' @ [CHR 0x22] @ ''}'',
     hr_ctype = ''application/json'', hr_headers = [(''Retry-After'', ''5'')]\<rparr>"

definition conflict_reply :: "string \<Rightarrow> http_response" where
  "conflict_reply key = \<lparr>hr_status = 409,
     hr_body = json_dumps (JObj [(''error'', JStr ''idempotency_conflict''), (''idempotency_key'', JStr key)]), hr_ctype = ''application/json'',
     hr_headers = [(''Retry-After'', show_int IDEMPOTENCY_IN_FLIGHT_TTL)]\<rparr>"

definition idem_key_of :: "http_request \<Rightarrow> string" where
  "idem_key_of r = py_strip (header r ''Idempotency-Key'')"

definition idem_covered :: "string list \<Rightarrow> http_request \<Rightarrow> bool" where
  "idem_covered exempt r \<longleftrightarrow> req_method r \<in> set IDEMPOTENCY_METHODS \<and> req_path r \<notin> set (IDEMPOTENCY_EXEMPT @ exempt) \<and> idem_key_of r \<noteq> []"

text \<open>The reply of a handler under a claim: recorded in the table and then in the instance's cache.\<close>

definition run_claimed ::
  "'w http_handler \<Rightarrow> string \<Rightarrow> nat \<Rightarrow> ddb_health \<Rightarrow> int \<Rightarrow> http_request \<Rightarrow> 'w idem_world \<Rightarrow> (string + http_response) \<times> 'w idem_world" where
  "run_claimed handle workcell inst health now r w =
     (case call_next handle r w of
        (Inl exc, w) \<Rightarrow> (Inl exc, w)
      | (Inr resp, w) \<Rightarrow>
          (let reply = \<lparr>ca_status = hr_status resp, ca_body = hr_body resp, ca_ctype = hr_ctype resp\<rparr>;
               pk = idem_pk workcell (idem_key_of r)
           in (Inr resp,
               if dh_complete health
               then w\<lparr>iw_table := idempotency_complete now workcell (idem_key_of r) reply (iw_table w),
                      iw_local := (iw_local w)(inst := AList.update pk reply (iw_local w inst))\<rparr>
               else w)))"

definition idem_dispatch ::
  "'w http_handler \<Rightarrow> environ \<Rightarrow> string \<Rightarrow> string list \<Rightarrow> nat \<Rightarrow> ddb_health \<Rightarrow> int \<Rightarrow> http_request \<Rightarrow> 'w idem_world
     \<Rightarrow> (string + http_response) \<times> 'w idem_world" where
  "idem_dispatch handle env workcell exempt inst health now r w =
     (if req_method r \<notin> set IDEMPOTENCY_METHODS then call_next handle r w
      else if req_path r \<in> set (IDEMPOTENCY_EXEMPT @ exempt) then call_next handle r w
      else
        (let key = idem_key_of r; pk = idem_pk workcell key in
         if key = [] then call_next handle r w
         else (case map_of (iw_local w inst) pk of
                 Some c \<Rightarrow> (Inr (replay c), w)
               | None \<Rightarrow>
                   if \<not> dh_claim health
                   then (if req_path r \<in> set (fail_closed_paths env) then (Inr store_down_reply, w) else call_next handle r w)
                   else
                     (let (claimed, table) = idempotency_claim now workcell key (iw_table w);
                          w = w\<lparr>iw_table := table\<rparr>
                      in if claimed then run_claimed handle workcell inst health now r w
                         else (case (if dh_get health then idempotency_get workcell key (iw_table w) else None) of
                                 Some (Completed expires c) \<Rightarrow>
                                   (Inr (replay c), w\<lparr>iw_local := (iw_local w)(inst := AList.update pk c (iw_local w inst))\<rparr>)
                               | _ \<Rightarrow> (Inr (conflict_reply key), w))))))"

text \<open>Requests one after the other, each at an instance, with the table's health and the clock.\<close>

type_synonym idem_event = "nat \<times> ddb_health \<times> int \<times> http_request"

definition idem_step ::
  "'w http_handler \<Rightarrow> environ \<Rightarrow> string \<Rightarrow> string list \<Rightarrow> idem_event \<Rightarrow> 'w idem_world \<Rightarrow> 'w idem_world" where
  "idem_step handle env workcell exempt = (\<lambda>(inst, health, now, r) w. snd (idem_dispatch handle env workcell exempt inst health now r w))"

definition idem_run ::
  "'w http_handler \<Rightarrow> environ \<Rightarrow> string \<Rightarrow> string list \<Rightarrow> idem_event list \<Rightarrow> 'w idem_world \<Rightarrow> 'w idem_world" where
  "idem_run handle env workcell exempt evs w = fold (idem_step handle env workcell exempt) evs w"

text \<open>Requests, removals by the time to live, and restarts of an instance, which lose its cache, in any order.\<close>

datatype idem_move = Arrives idem_event | Swept int "string list" | Restarted nat

fun idem_move_step ::
  "'w http_handler \<Rightarrow> environ \<Rightarrow> string \<Rightarrow> string list \<Rightarrow> idem_move \<Rightarrow> 'w idem_world \<Rightarrow> 'w idem_world" where
  "idem_move_step handle env workcell exempt (Arrives ev) w = idem_step handle env workcell exempt ev w"
| "idem_move_step handle env workcell exempt (Swept now pks) w = w\<lparr>iw_table := ttl_sweep now pks (iw_table w)\<rparr>"
| "idem_move_step handle env workcell exempt (Restarted inst) w = w\<lparr>iw_local := (iw_local w)(inst := [])\<rparr>"

text \<open>The clock readings of a move, and whether the table takes a claim in it.\<close>

fun move_time :: "idem_move \<Rightarrow> int option" where
  "move_time (Arrives (inst, health, now, r)) = Some now"
| "move_time (Swept now pks) = Some now"
| "move_time (Restarted inst) = None"

fun move_claims :: "idem_move \<Rightarrow> bool" where
  "move_claims (Arrives (inst, health, now, r)) = dh_claim health"
| "move_claims _ = True"

section \<open>What a dispatch does\<close>

definition covered_calls :: "string list \<Rightarrow> string \<Rightarrow> 'w idem_world \<Rightarrow> nat" where
  "covered_calls exempt key w = length (filter (\<lambda>r. idem_covered exempt r \<and> idem_key_of r = key) (iw_log w))"

text \<open>The records say what the caches say, and a handled key is recorded.\<close>

definition idem_ok :: "string \<Rightarrow> string list \<Rightarrow> 'w idem_world \<Rightarrow> bool" where
  "idem_ok workcell exempt w \<longleftrightarrow>
     (\<forall>inst pk c. map_of (iw_local w inst) pk = Some c \<longrightarrow> (\<exists>e. map_of (iw_table w) pk = Some (Completed e c)))
     \<and> (\<forall>key. covered_calls exempt key w \<le> (if dict_has (iw_table w) (idem_pk workcell key) then 1 else 0))"

lemma idem_pk_inj [simp]: "idem_pk wc a = idem_pk wc b \<longleftrightarrow> a = b"
  by (simp add: idem_pk_def)

lemma call_next_fields:
  "call_next handle r w = (res, w') \<Longrightarrow> iw_table w' = iw_table w \<and> iw_local w' = iw_local w \<and> iw_log w' = iw_log w @ [r]"
  by (auto simp: call_next_def split: prod.splits)

lemma calls_append:
  "iw_log w' = iw_log w @ [r] \<Longrightarrow>
   covered_calls exempt key w' = covered_calls exempt key w + (if idem_covered exempt r \<and> idem_key_of r = key then 1 else 0)"
  by (simp add: covered_calls_def)

lemma run_claimed_fields:
  assumes "run_claimed handle workcell inst health now r w = (res, w')"
  shows "iw_log w' = iw_log w @ [r]"
    "(iw_table w' = iw_table w \<and> iw_local w' = iw_local w)
     \<or> (\<exists>reply. iw_table w' = AList.update (idem_pk workcell (idem_key_of r)) (Completed (now + IDEMPOTENCY_TTL_SECONDS) reply) (iw_table w)
          \<and> iw_local w' = (iw_local w)(inst := AList.update (idem_pk workcell (idem_key_of r)) reply (iw_local w inst)))"
proof -
  obtain r1 w1 where c: "call_next handle r w = (r1, w1)" by fastforce
  note f = call_next_fields [OF c]
  show "iw_log w' = iw_log w @ [r]" using assms c f
    by (auto simp: run_claimed_def Let_def split: sum.splits if_splits)
  show "(iw_table w' = iw_table w \<and> iw_local w' = iw_local w)
     \<or> (\<exists>reply. iw_table w' = AList.update (idem_pk workcell (idem_key_of r)) (Completed (now + IDEMPOTENCY_TTL_SECONDS) reply) (iw_table w)
          \<and> iw_local w' = (iw_local w)(inst := AList.update (idem_pk workcell (idem_key_of r)) reply (iw_local w inst)))"
    using assms c f by (auto simp: run_claimed_def Let_def idempotency_complete_def split: sum.splits if_splits)
qed

text \<open>The four ways a dispatch with the table's claim working can go.\<close>

lemma idem_dispatch_cases:
  assumes "idem_dispatch handle env workcell exempt inst health now r w = (res, w')" "dh_claim health"
  obtains
    (Uncovered) "\<not> idem_covered exempt r" "call_next handle r w = (res, w')"
  | (Cached) c where "idem_covered exempt r" "map_of (iw_local w inst) (idem_pk workcell (idem_key_of r)) = Some c" "res = Inr (replay c)" "w' = w"
  | (Claims) w1 where "idem_covered exempt r" "map_of (iw_local w inst) (idem_pk workcell (idem_key_of r)) = None"
      "map_of (iw_table w) (idem_pk workcell (idem_key_of r)) = None"
      "w1 = w\<lparr>iw_table := AList.update (idem_pk workcell (idem_key_of r)) (Claimed (now + IDEMPOTENCY_TTL_SECONDS)) (iw_table w)\<rparr>"
      "run_claimed handle workcell inst health now r w1 = (res, w')"
  | (Replayed) e c where "idem_covered exempt r" "map_of (iw_table w) (idem_pk workcell (idem_key_of r)) = Some (Completed e c)"
      "res = Inr (replay c)" "w' = w\<lparr>iw_local := (iw_local w)(inst := AList.update (idem_pk workcell (idem_key_of r)) c (iw_local w inst))\<rparr>"
  | (Refused) item where "idem_covered exempt r" "map_of (iw_local w inst) (idem_pk workcell (idem_key_of r)) = None"
      "map_of (iw_table w) (idem_pk workcell (idem_key_of r)) = Some item" "dh_get health \<Longrightarrow> \<exists>e. item = Claimed e"
      "res = Inr (conflict_reply (idem_key_of r))" "w' = w"
proof (cases "idem_covered exempt r")
  case False
  with assms show ?thesis
    by (intro Uncovered) (auto simp: idem_dispatch_def idem_covered_def Let_def split: if_splits)
next
  case True
  then have c: "req_method r \<in> set IDEMPOTENCY_METHODS" "req_path r \<notin> set (IDEMPOTENCY_EXEMPT @ exempt)" "idem_key_of r \<noteq> []"
    by (auto simp: idem_covered_def)
  define pk where "pk = idem_pk workcell (idem_key_of r)"
  show ?thesis
  proof (cases "map_of (iw_local w inst) pk")
    case (Some c)
    with assms c True show ?thesis by (intro Cached [of c]) (auto simp: idem_dispatch_def pk_def Let_def)
  next
    case None
    show ?thesis
    proof (cases "map_of (iw_table w) pk")
      case n: None
      with None assms c True show ?thesis
        by (intro Claims [OF True _ _ refl]) (auto simp: idem_dispatch_def idempotency_claim_def dict_has_def pk_def Let_def)
    next
      case (Some item)
      have "w\<lparr>iw_table := iw_table w\<rparr> = w" by simp
      with Some None assms c True show ?thesis
        using Replayed Refused
        by (cases item) (auto simp: idem_dispatch_def idempotency_claim_def idempotency_get_def dict_has_def pk_def Let_def split: if_splits)
    qed
  qed
qed

lemma idem_ok_step:
  assumes "idem_ok workcell exempt w" "idem_dispatch handle env workcell exempt inst health now r w = (res, w')" "dh_claim health"
  shows "idem_ok workcell exempt w'"
  using assms(2,3)
proof (cases rule: idem_dispatch_cases)
  case Uncovered
  from call_next_fields [OF Uncovered(2)] assms(1) Uncovered(1) show ?thesis
    by (simp add: idem_ok_def calls_append)
next
  case (Claims w1)
  note f = run_claimed_fields [OF Claims(5)]
  have l: "map_of (iw_local w i) (idem_pk workcell (idem_key_of r)) = None" for i
    using assms(1) Claims(3) by (cases "map_of (iw_local w i) (idem_pk workcell (idem_key_of r))") (force simp: idem_ok_def)+
  have n: "covered_calls exempt (idem_key_of r) w = 0"
    using assms(1) Claims(3) by (auto simp: idem_ok_def dict_has_def dest: spec [of _ "idem_key_of r"])
  have log: "iw_log w' = iw_log w @ [r]" using f(1) Claims(4) by simp
  have "covered_calls exempt key w' \<le> (if dict_has (iw_table w') (idem_pk workcell key) then 1 else 0)" for key
  proof (cases "key = idem_key_of r")
    case True
    then show ?thesis using n f(2) Claims(4) by (auto simp: calls_append [OF log] dict_has_def map_of_update)
  next
    case False
    have "covered_calls exempt key w \<le> (if dict_has (iw_table w) (idem_pk workcell key) then 1 else 0)"
      using assms(1) unfolding idem_ok_def by blast
    with False f(2) Claims(4) show ?thesis by (auto simp: calls_append [OF log] dict_has_def map_of_update)
  qed
  moreover have "\<exists>e. map_of (iw_table w') pk = Some (Completed e c)" if "map_of (iw_local w' i) pk = Some c" for i pk c
    using that f(2) Claims(4) assms(1) l by (auto simp: idem_ok_def map_of_update split: if_splits)
  ultimately show ?thesis by (simp add: idem_ok_def)
next
  case (Replayed e c)
  with assms(1) show ?thesis by (auto simp: idem_ok_def map_of_update covered_calls_def)
qed (use assms(1) in simp_all)

lemma idem_ok_run:
  "idem_ok workcell exempt w \<Longrightarrow> \<forall>(inst, health, now, r) \<in> set evs. dh_claim health \<Longrightarrow>
   idem_ok workcell exempt (idem_run handle env workcell exempt evs w)"
proof (induction evs arbitrary: w)
  case (Cons ev evs)
  obtain inst health now r where ev: "ev = (inst, health, now, r)" by (cases ev)
  obtain res w1 where d: "idem_dispatch handle env workcell exempt inst health now r w = (res, w1)" by fastforce
  have "idem_ok workcell exempt w1" using idem_ok_step [OF Cons.prems(1) d] Cons.prems(2) ev by simp
  from Cons.IH [OF this] Cons.prems(2) d ev show ?case by (simp add: idem_run_def idem_step_def)
qed (simp add: idem_run_def)

text \<open>A record, once there, stays as it is.\<close>

lemma record_stays:
  assumes "idem_dispatch handle env workcell exempt inst health now r w = (res, w')" "dh_claim health"
    and "map_of (iw_table w) pk = Some item"
  shows "map_of (iw_table w') pk = Some item"
  using assms(1,2)
proof (cases rule: idem_dispatch_cases)
  case Uncovered
  with call_next_fields [OF Uncovered(2)] assms(3) show ?thesis by simp
next
  case (Claims w1)
  with run_claimed_fields(2) [OF Claims(5)] assms(3) show ?thesis by (auto simp: map_of_update)
qed (use assms(3) in simp_all)

lemma record_stays_run:
  "\<forall>(inst, health, now, r) \<in> set evs. dh_claim health \<Longrightarrow> map_of (iw_table w) pk = Some item \<Longrightarrow>
   map_of (iw_table (idem_run handle env workcell exempt evs w)) pk = Some item"
proof (induction evs arbitrary: w)
  case (Cons ev evs)
  obtain inst health now r where ev: "ev = (inst, health, now, r)" by (cases ev)
  obtain res w1 where d: "idem_dispatch handle env workcell exempt inst health now r w = (res, w1)" by fastforce
  have "map_of (iw_table w1) pk = Some item" using record_stays [OF d] Cons.prems ev by simp
  from Cons.IH [OF _ this] Cons.prems(1) d ev show ?case by (simp add: idem_run_def idem_step_def)
qed (simp add: idem_run_def)

lemma idem_ok_start: "iw_table w = [] \<Longrightarrow> iw_local w = (\<lambda>i. []) \<Longrightarrow> iw_log w = [] \<Longrightarrow> idem_ok workcell exempt w"
  by (simp add: idem_ok_def covered_calls_def)

section \<open>Properties of HTTP idempotency\<close>

text \<open>The record of a key that was handled within a day, as long as its time is not over.\<close>

definition key_recorded :: "int \<Rightarrow> string \<Rightarrow> string \<Rightarrow> 'w idem_world \<Rightarrow> bool" where
  "key_recorded until workcell key w \<longleftrightarrow> (\<exists>item. map_of (iw_table w) (idem_pk workcell key) = Some item \<and> until \<le> expires_at item)"

lemma sweep_keeps:
  assumes "map_of table pk = Some item" "now \<le> expires_at item"
  shows "map_of (ttl_sweep now pks table) pk = Some item"
  using assms by (induction table) (auto simp: ttl_sweep_def)

lemma dispatch_calls:
  assumes "idem_dispatch handle env workcell exempt inst health now r w = (res, w')" "dh_claim health" "until \<le> now + IDEMPOTENCY_TTL_SECONDS"
  shows "key_recorded until workcell key w \<Longrightarrow> covered_calls exempt key w' = covered_calls exempt key w \<and> key_recorded until workcell key w'"
    "covered_calls exempt key w' = covered_calls exempt key w
       \<or> covered_calls exempt key w' = Suc (covered_calls exempt key w) \<and> key_recorded until workcell key w'"
  using assms(1,2)
proof (atomize(full), cases rule: idem_dispatch_cases)
  case Uncovered
  with call_next_fields [OF Uncovered(2)] show "(key_recorded until workcell key w \<longrightarrow> covered_calls exempt key w' = covered_calls exempt key w \<and> key_recorded until workcell key w') \<and>
    (covered_calls exempt key w' = covered_calls exempt key w
       \<or> covered_calls exempt key w' = Suc (covered_calls exempt key w) \<and> key_recorded until workcell key w')"
    by (simp add: calls_append key_recorded_def)
next
  case (Claims w1)
  note f = run_claimed_fields [OF Claims(5)]
  have log: "iw_log w' = iw_log w @ [r]" using f(1) Claims(4) by simp
  show "(key_recorded until workcell key w \<longrightarrow> covered_calls exempt key w' = covered_calls exempt key w \<and> key_recorded until workcell key w') \<and>
    (covered_calls exempt key w' = covered_calls exempt key w
       \<or> covered_calls exempt key w' = Suc (covered_calls exempt key w) \<and> key_recorded until workcell key w')"
    using f(2) Claims(1,3,4) assms(3) by (auto simp: calls_append [OF log] key_recorded_def map_of_update)
qed (auto simp: covered_calls_def key_recorded_def)

lemma run_calls:
  assumes "\<forall>m \<in> set moves. move_claims m \<and> (\<forall>now. move_time m = Some now \<longrightarrow> since \<le> now \<and> now \<le> since + IDEMPOTENCY_TTL_SECONDS)"
  shows "key_recorded (since + IDEMPOTENCY_TTL_SECONDS) workcell key w \<Longrightarrow>
      covered_calls exempt key (fold (idem_move_step handle env workcell exempt) moves w) = covered_calls exempt key w"
    "covered_calls exempt key (fold (idem_move_step handle env workcell exempt) moves w) \<le> Suc (covered_calls exempt key w)"
  using assms
proof (atomize(full), induction moves arbitrary: w)
  case (Cons m moves)
  let ?rec = "key_recorded (since + IDEMPOTENCY_TTL_SECONDS) workcell key" and ?calls = "covered_calls exempt key"
  let ?w = "idem_move_step handle env workcell exempt m w"
  have step: "(?rec w \<longrightarrow> ?calls ?w = ?calls w \<and> ?rec ?w) \<and> (?calls ?w = ?calls w \<or> ?calls ?w = Suc (?calls w) \<and> ?rec ?w)"
  proof (cases m)
    case (Arrives ev)
    obtain inst health now r where ev: "ev = (inst, health, now, r)" by (cases ev)
    obtain res w' where d: "idem_dispatch handle env workcell exempt inst health now r w = (res, w')" by (rule that) (rule prod.collapse [symmetric])
    have "dh_claim health" "since + IDEMPOTENCY_TTL_SECONDS \<le> now + IDEMPOTENCY_TTL_SECONDS" using Cons.prems Arrives ev by auto
    from dispatch_calls [OF d this, of key] d Arrives ev show ?thesis by (simp add: idem_step_def)
  next
    case (Swept now pks)
    then have "now \<le> since + IDEMPOTENCY_TTL_SECONDS" using Cons.prems by simp
    with Swept show ?thesis by (auto simp: covered_calls_def key_recorded_def intro!: sweep_keeps)
  qed (simp add: covered_calls_def key_recorded_def)
  from Cons.IH [of ?w] Cons.prems step show ?case by auto
qed simp

text \<open>C4: At most one execution per key in a day. In any state and from any point in time, let requests arrive at any instances of a
  workcell, while the table accepts claims, instances restart and lose their caches, and the table removes records whose time is over.
  As long as no clock reading is later than the 24 hours a record lives, for every idempotency key the handler is called at most once with
  a request the middleware covers (a mutation on a path that is not exempt) under this key.\<close>

theorem handler_runs_once_per_key:
  assumes "\<forall>m \<in> set moves. move_claims m \<and> (\<forall>now. move_time m = Some now \<longrightarrow> since \<le> now \<and> now \<le> since + IDEMPOTENCY_TTL_SECONDS)"
  shows "covered_calls exempt key (fold (idem_move_step handle env workcell exempt) moves w) \<le> Suc (covered_calls exempt key w)"
  using run_calls(2) [OF assms] .

definition demo_post :: "string \<Rightarrow> string \<Rightarrow> http_request" where
  "demo_post path body = \<lparr>req_method = ''POST'', req_path = path, req_query = [], req_headers = [(''Idempotency-Key'', ''k1'')], req_body = body\<rparr>"

definition demo_idem :: "nat idem_world" where
  "demo_idem = \<lparr>iw_table = [], iw_local = (\<lambda>i. []), iw_log = [], iw_app = 0\<rparr>"

definition all_working :: ddb_health where
  "all_working = \<lparr>dh_claim = True, dh_get = True, dh_complete = True\<rparr>"

definition demo_handler :: "nat http_handler" where
  "demo_handler r n = (if req_path r = ''/boom'' then (Inl ''crash'', n)
     else (Inr \<lparr>hr_status = 200, hr_body = req_path r, hr_ctype = ''text'', hr_headers = []\<rparr>, Suc n))"

theorem handler_runs_once_per_key_witness:
  "covered_calls [] ''k1'' (fold (idem_move_step demo_handler (\<lambda>v. None) ''crm'' [])
     [Arrives (0, all_working, 5, demo_post ''/charge'' ''a''), Restarted 0, Swept 86405 [''crm:k1''], Arrives (0, all_working, 86405, demo_post ''/charge'' ''a'')] demo_idem)
   \<le> 1"
  using handler_runs_once_per_key [of "[Arrives (0, all_working, 5, demo_post ''/charge'' ''a''), Restarted 0, Swept 86405 [''crm:k1''],
      Arrives (0, all_working, 86405, demo_post ''/charge'' ''a'')]" 5 "[]" "''k1''" demo_handler "\<lambda>v. None" "''crm''" demo_idem]
  by (simp add: all_working_def IDEMPOTENCY_TTL_SECONDS_def covered_calls_def [of _ _ demo_idem]) (simp add: demo_idem_def)

text \<open>The first reply is everybody's reply. When a covered request has been handled and its reply recorded, then
  after any further traffic a request under the same key, at any instance, is answered with the status, body and content
  type of that reply and calls no handler. It need not be the same request: its path, method, body and caller
  are not looked at.\<close>

theorem replay_returns_first_reply:
  assumes "idem_ok workcell exempt w" "idem_covered exempt r" "dh_claim health" "dh_complete health"
    and "idem_dispatch handle env workcell exempt inst health now r w = (Inr resp, w1)" "iw_log w1 = iw_log w @ [r]"
    and "\<forall>(inst, health, now, r) \<in> set evs. dh_claim health"
    and "idem_covered exempt r'" "idem_key_of r' = idem_key_of r" "dh_claim health'" "dh_get health'"
    and "idem_dispatch handle env workcell exempt inst' health' now' r' (idem_run handle env workcell exempt evs w1) = (res, w2)"
  shows "\<exists>resp'. res = Inr resp' \<and> hr_status resp' = hr_status resp \<and> hr_body resp' = hr_body resp \<and> hr_ctype resp' = hr_ctype resp
     \<and> iw_log w2 = iw_log (idem_run handle env workcell exempt evs w1)"
proof -
  define c where "c = \<lparr>ca_status = hr_status resp, ca_body = hr_body resp, ca_ctype = hr_ctype resp\<rparr>"
  define W where "W = idem_run handle env workcell exempt evs w1"
  let ?pk = "idem_pk workcell (idem_key_of r)"
  have "\<exists>e. map_of (iw_table w1) ?pk = Some (Completed e c)" using assms(5,3)
  proof (cases rule: idem_dispatch_cases)
    case (Claims v)
    obtain r1 v1 where n: "call_next handle r v = (r1, v1)" by fastforce
    with Claims(5) assms(4) show ?thesis
      by (auto simp: run_claimed_def Let_def idempotency_complete_def map_of_update c_def split: sum.splits)
  qed (use assms(2,6) in auto)
  then obtain e where t: "map_of (iw_table W) ?pk = Some (Completed e c)"
    using record_stays_run [OF assms(7)] unfolding W_def by blast
  have ok: "idem_ok workcell exempt W" unfolding W_def
    by (rule idem_ok_run [OF idem_ok_step [OF assms(1,5,3)] assms(7)])
  from assms(12) [folded W_def] assms(10) have "res = Inr (replay c) \<and> iw_log w2 = iw_log W"
  proof (cases rule: idem_dispatch_cases)
    case (Cached c')
    with ok have "\<exists>e. map_of (iw_table W) ?pk = Some (Completed e c')" using assms(9) by (simp add: idem_ok_def)
    with Cached t show ?thesis by auto
  qed (use t assms(8,9,11) in auto)
  then show ?thesis by (auto simp: replay_def c_def W_def)
qed

text \<open>The second request goes to another route with another body.\<close>

lemma demo_post_covered:
  assumes "p \<in> {''/charge'', ''/refund'', ''/boom''}"
  shows "idem_covered [] (demo_post p b)" "idem_key_of (demo_post p b) = ''k1''" "req_path (demo_post p b) = p"
proof -
  have "py_strip ''k1'' = ''k1''" by code_simp
  then show "idem_covered [] (demo_post p b)" "idem_key_of (demo_post p b) = ''k1''" "req_path (demo_post p b) = p" using assms
    by (auto simp: idem_covered_def idem_key_of_def header_def dict_get_def demo_post_def IDEMPOTENCY_METHODS_def IDEMPOTENCY_EXEMPT_def)
qed

lemma demo_first_dispatch:
  assumes "p \<in> {''/charge'', ''/refund'', ''/boom''}"
  shows "idem_dispatch demo_handler (\<lambda>v. None) ''crm'' [] 0 all_working 5 (demo_post p b) demo_idem
    = run_claimed demo_handler ''crm'' 0 all_working 5 (demo_post p b)
        (demo_idem\<lparr>iw_table := AList.update (idem_pk ''crm'' ''k1'') (Claimed (5 + IDEMPOTENCY_TTL_SECONDS)) []\<rparr>)"
  using demo_post_covered [OF assms, of b]
  by (simp add: idem_dispatch_def idem_covered_def demo_idem_def all_working_def idempotency_claim_def dict_has_def)

lemma demo_charge:
  "\<exists>w1 resp. idem_dispatch demo_handler (\<lambda>v. None) ''crm'' [] 0 all_working 5 (demo_post ''/charge'' b) demo_idem = (Inr resp, w1)
     \<and> iw_log w1 = iw_log demo_idem @ [demo_post ''/charge'' b] \<and> hr_body resp = ''/charge''"
proof -
  have p: "req_path (demo_post ''/charge'' b) = ''/charge''" by (rule demo_post_covered(3)) simp
  have "idem_dispatch demo_handler (\<lambda>v. None) ''crm'' [] 0 all_working 5 (demo_post ''/charge'' b) demo_idem
    = run_claimed demo_handler ''crm'' 0 all_working 5 (demo_post ''/charge'' b)
        (demo_idem\<lparr>iw_table := AList.update (idem_pk ''crm'' ''k1'') (Claimed (5 + IDEMPOTENCY_TTL_SECONDS)) []\<rparr>)"
    by (rule demo_first_dispatch) simp
  with p show ?thesis by (simp add: run_claimed_def call_next_def demo_handler_def Let_def all_working_def)
qed

theorem replay_returns_first_reply_witness:
  "\<exists>w1 resp'. w1 = snd (idem_dispatch demo_handler (\<lambda>v. None) ''crm'' [] 0 all_working 5 (demo_post ''/charge'' ''a'') demo_idem)
     \<and> fst (idem_dispatch demo_handler (\<lambda>v. None) ''crm'' [] 1 all_working 6 (demo_post ''/refund'' ''b'') w1) = Inr resp'
     \<and> hr_body resp' = ''/charge''"
proof -
  obtain w1 resp where d: "idem_dispatch demo_handler (\<lambda>v. None) ''crm'' [] 0 all_working 5 (demo_post ''/charge'' ''a'') demo_idem = (Inr resp, w1)"
    "iw_log w1 = iw_log demo_idem @ [demo_post ''/charge'' ''a'']" "hr_body resp = ''/charge''" using demo_charge by blast
  obtain res w2 where e: "idem_dispatch demo_handler (\<lambda>v. None) ''crm'' [] 1 all_working 6 (demo_post ''/refund'' ''b'')
      (idem_run demo_handler (\<lambda>v. None) ''crm'' [] [] w1) = (res, w2)" by fastforce
  have "idem_ok ''crm'' [] demo_idem" by (rule idem_ok_start) (simp_all add: demo_idem_def)
  from replay_returns_first_reply [OF this _ _ _ d(1,2) _ _ _ _ _ e] e d(1,3) demo_post_covered [of "''/charge''"] demo_post_covered [of "''/refund''"]
  show ?thesis by (auto simp: all_working_def idem_run_def)
qed

text \<open>A crash blocks its key. When the handler raises under a claim, the claim is never released: after any further
  traffic, every covered request under this key is answered with 409, though the reply asks the client to come back after
  thirty seconds, and the handler is not called for it again.\<close>

theorem crashed_key_is_refused:
  assumes "idem_ok workcell exempt w" "idem_covered exempt r" "dh_claim health"
    and "idem_dispatch handle env workcell exempt inst health now r w = (Inl exc, w1)"
    and "\<forall>(inst, health, now, r) \<in> set evs. dh_claim health"
    and "idem_covered exempt r'" "idem_key_of r' = idem_key_of r" "dh_claim health'"
  shows "idem_dispatch handle env workcell exempt inst' health' now' r' (idem_run handle env workcell exempt evs w1)
     = (Inr (conflict_reply (idem_key_of r)), idem_run handle env workcell exempt evs w1)"
proof -
  define W where "W = idem_run handle env workcell exempt evs w1"
  let ?pk = "idem_pk workcell (idem_key_of r)"
  have "\<exists>e. map_of (iw_table w1) ?pk = Some (Claimed e)" using assms(4,3)
  proof (cases rule: idem_dispatch_cases)
    case (Claims v)
    obtain r1 v1 where n: "call_next handle r v = (r1, v1)" by fastforce
    with Claims(4,5) call_next_fields [OF n] show ?thesis
      by (auto simp: run_claimed_def Let_def map_of_update split: sum.splits)
  qed (use assms(2) in auto)
  then obtain e where t: "map_of (iw_table W) ?pk = Some (Claimed e)"
    using record_stays_run [OF assms(5)] unfolding W_def by blast
  have ok: "idem_ok workcell exempt W" unfolding W_def
    by (rule idem_ok_run [OF idem_ok_step [OF assms(1,4,3)] assms(5)])
  obtain res w2 where d: "idem_dispatch handle env workcell exempt inst' health' now' r' W = (res, w2)" by fastforce
  from d assms(8) have "res = Inr (conflict_reply (idem_key_of r)) \<and> w2 = W"
  proof (cases rule: idem_dispatch_cases)
    case (Cached c')
    with ok have "\<exists>e. map_of (iw_table W) ?pk = Some (Completed e c')" using assms(7) by (simp add: idem_ok_def)
    with t show ?thesis by auto
  qed (use t assms(6,7) in auto)
  with d show ?thesis by (simp add: W_def)
qed

text \<open>The crash here is the handler's; the second try comes a day of seconds later less one.\<close>

theorem crashed_key_is_refused_witness:
  "\<exists>w1. idem_dispatch demo_handler (\<lambda>v. None) ''crm'' [] 0 all_working 5 (demo_post ''/boom'' ''a'') demo_idem = (Inl ''crash'', w1)
     \<and> idem_dispatch demo_handler (\<lambda>v. None) ''crm'' [] 0 all_working 86404 (demo_post ''/boom'' ''a'') w1
       = (Inr (conflict_reply ''k1''), w1)"
proof -
  obtain w1 where d: "idem_dispatch demo_handler (\<lambda>v. None) ''crm'' [] 0 all_working 5 (demo_post ''/boom'' ''a'') demo_idem = (Inl ''crash'', w1)"
    using demo_post_covered(3) [of "''/boom''" "''a''"]
    by (simp add: demo_first_dispatch run_claimed_def call_next_def demo_handler_def)
  have "idem_ok ''crm'' [] demo_idem" by (rule idem_ok_start) (simp_all add: demo_idem_def)
  from crashed_key_is_refused [OF this _ _ d, of "[]" "demo_post ''/boom'' ''a''" all_working 0 86404] d demo_post_covered [of "''/boom''"]
  show ?thesis by (auto simp: all_working_def idem_run_def)
qed

end
