(* ===== verification/Service_Stack.thy ===== *)
theory Service_Stack
  imports Http_Stack
begin

text \<open>
  \<open>create_base_app\<close> of \<open>common/app_factory.py\<close>: which layers a workcell is started with, and a request on its
  way through them: body ceiling, signature gate, idempotency, handler. The layers in between that only add headers,
  traces and metrics are left out. The parsing of the Codex at start is an outcome that is given.

  A request the signature gate exempts (by its path, or because the workcell is exempt) goes on unsigned to the layers behind it, as
  do all requests of a workcell without the gate; the scheme of such a route is the handler's. When the body of such a request overflows the
  ceiling while the route reads it, what follows depends on how the route reads (the framework answers 413 or 400): it ends as \<open>Cut_Off\<close> here.
\<close>

section \<open>Starting an application\<close>

record app_settings =
  as_service :: string
  as_env :: string
  as_shared :: string
  as_per_service :: "(string \<times> string) list"
  as_window :: int

record app_stack =
  sk_name :: string
  sk_hmac :: "hmac_config option"
  sk_idem :: "string list option"

datatype boot_error = Codex_Failed string | Hmac_Key_Missing string string

definition HMAC_SIGNER_SERVICES :: "string list" where
  "HMAC_SIGNER_SERVICES = [''gateway'']"

definition hmac_disabled_for_tests :: "environ \<Rightarrow> bool" where
  "hmac_disabled_for_tests env =
     (py_lower (py_strip (getenv env ''SAMUS_DISABLE_HMAC_MIDDLEWARE'' [])) \<in> set [''1'', ''true'', ''yes'', ''on'', ''y''])"

definition create_base_app ::
  "environ \<Rightarrow> app_settings \<Rightarrow> string option \<Rightarrow> string option \<Rightarrow> bool \<Rightarrow> string list \<Rightarrow> bool \<Rightarrow> string list \<Rightarrow> boot_error + app_stack" where
  "create_base_app env s codex_failure service_name add_hmac hmac_exempt_paths add_idem idem_exempt_paths =
     (let name = py_or (py_or (case service_name of Some n \<Rightarrow> n | None \<Rightarrow> []) (as_service s)) ''samus'' in
      case codex_failure of
        Some exc \<Rightarrow> Inl (Codex_Failed exc)
      | None \<Rightarrow>
          (let idem = (if add_idem \<and> \<not> hmac_disabled_for_tests env then Some idem_exempt_paths else None) in
           if add_hmac
           then if hmac_disabled_for_tests env then Inr \<lparr>sk_name = name, sk_hmac = None, sk_idem = idem\<rparr>
                else (let has_any_key = as_shared s \<noteq> [] \<or> as_per_service s \<noteq> [] in
                      if \<not> has_any_key \<and> as_env s \<noteq> ''development'' \<and> name \<notin> set HMAC_SIGNER_SERVICES
                      then Inl (Hmac_Key_Missing name (as_env s))
                      else Inr \<lparr>sk_name = name,
                             sk_hmac = Some (verify_hmac_init None None [''gateway''] hmac_exempt_paths (as_shared s) (as_window s) (as_service s)),
                             sk_idem = idem\<rparr>)
           else Inr \<lparr>sk_name = name, sk_hmac = None, sk_idem = idem\<rparr>))"

section \<open>A request through the layers\<close>

text \<open>The content of a \<open>JSONResponse\<close> over strings, in the order given.\<close>

definition flat_json :: "string \<Rightarrow> string \<Rightarrow> (string \<times> string) list \<Rightarrow> string" where
  "flat_json isep ksep kvs = ''{'' @ py_join isep (map (\<lambda>(k, v). json_string k @ ksep @ json_string v) kvs) @ ''}''"

definition json_reply :: "int \<Rightarrow> (string \<times> string) list \<Rightarrow> http_response" where
  "json_reply code kvs = \<lparr>hr_status = code, hr_body = flat_json '','' '':'' kvs, hr_ctype = ''application/json'', hr_headers = []\<rparr>"

definition too_large_reply :: "int \<Rightarrow> http_response" where
  "too_large_reply limit = \<lparr>hr_status = 413,
     hr_body = flat_json '', '' '': '' [(''error'', ''request_body_too_large''),
       (''detail'', ''request body exceeds the '' @ show_int limit @ ''-byte limit'')],
     hr_ctype = ''application/json'', hr_headers = []\<rparr>"

definition reject_reply :: "hmac_config \<Rightarrow> http_request \<Rightarrow> int \<Rightarrow> string \<Rightarrow> http_response" where
  "reject_reply cfg r code reason =
     json_reply code (if reason = ''authz_denied''
       then [(''error'', reason), (''caller'', py_or (request_caller r) UNKNOWN_CALLER), (''callee'', hc_self cfg)]
       else [(''error'', reason)])"

definition internal_error_reply :: "string \<Rightarrow> http_response" where
  "internal_error_reply trace =
     (json_reply 500 [(''error'', ''internal_error''),
        (''message'', ''An internal error occurred. Quote the trace id to the operator for diagnosis.''), (''trace_id'', trace)])
     \<lparr>hr_headers := [(''X-Samus-Trace-Id'', trace)]\<rparr>"

text \<open>The refusals of the signature gate that are given before it reads the body.\<close>

definition refused_unread :: "verdict \<Rightarrow> bool" where
  "refused_unread v = (case v of
     Reject code reason \<Rightarrow> reason \<in> set [''hmac_headers_missing'', ''hmac_not_configured'', ''hmac_timestamp_invalid'',
       ''hmac_timestamp_stale'', ''hmac_timestamp_future'', ''hmac_nonce_replay'']
   | Forward caller \<Rightarrow> False)"

record wire_request =
  wr_request :: http_request
  wr_length :: "string option"
  wr_chunks :: "string list"

datatype served = Cut_Off | Answered http_response

text \<open>The verifier's state is the instance's own; records and application are shared by all instances.\<close>

type_synonym 'w workcell_state = "verifier_state \<times> 'w idem_world"

text \<open>
  The handler and the layers below it answer with a response or raise; what is raised leaves as the generic error with
  the trace id. \<open>behind_gate\<close> is the gate's continuation, \<open>serve\<close> the whole: the body is read, through the ceiling,
  when the gate asks for it.
\<close>

definition behind_gate ::
  "'w http_handler \<Rightarrow> environ \<Rightarrow> app_stack \<Rightarrow> nat \<Rightarrow> ddb_health \<Rightarrow> int \<Rightarrow> string \<Rightarrow> http_request \<Rightarrow> 'w idem_world \<Rightarrow> http_response \<times> 'w idem_world" where
  "behind_gate handle env stack inst health now trace r w =
     (let (res, w) = (case sk_idem stack of
            None \<Rightarrow> call_next handle r w
          | Some exempt \<Rightarrow> idem_dispatch handle env (sk_name stack) exempt inst health now r w)
      in ((case res of Inl exc \<Rightarrow> internal_error_reply trace | Inr resp \<Rightarrow> resp), w))"

definition serve ::
  "'w http_handler \<Rightarrow> environ \<Rightarrow> app_stack \<Rightarrow> nat \<Rightarrow> ddb_health \<Rightarrow> int \<Rightarrow> string \<Rightarrow> wire_request \<Rightarrow> 'w workcell_state \<Rightarrow> served \<times> 'w workcell_state" where
  "serve handle env stack inst health now trace wr s =
     (let r = wr_request wr; limit = body_limit env None;
          capped = (py_upper (req_method r) \<notin> set SKIPPED_METHODS \<and> limit > 0);
          body = (if capped then read_body limit 0 (wr_chunks wr) else Some (concat (wr_chunks wr)));
          ungated = (case body of
              None \<Rightarrow> (Cut_Off, s)
            | Some body \<Rightarrow>
                (let (resp, w) = behind_gate handle env stack inst health now trace (r\<lparr>req_body := body\<rparr>) (snd s) in (Answered resp, (fst s, w)))) in
      if capped \<and> declared_refused limit (wr_length wr) then (Answered (too_large_reply limit), s)
      else (case sk_hmac stack of
          None \<Rightarrow> ungated
        | Some cfg \<Rightarrow>
            if hmac_exempt cfg r then ungated
            else (case body of
                None \<Rightarrow>
                  (let (v, st) = verify_dispatch cfg env now (r\<lparr>req_body := []\<rparr>) (fst s) in
                   case v of
                     Reject code reason \<Rightarrow>
                       if refused_unread v then (Answered (reject_reply cfg r code reason), (st, snd s))
                       else (Answered (too_large_reply limit), (st\<lparr>vs_alerts := vs_alerts (fst s)\<rparr>, snd s))
                   | Forward caller \<Rightarrow> (Answered (too_large_reply limit), (st\<lparr>vs_alerts := vs_alerts (fst s)\<rparr>, snd s)))
              | Some body \<Rightarrow>
                  (let r = r\<lparr>req_body := body\<rparr>; (v, st) = verify_dispatch cfg env now r (fst s) in
                   case v of
                     Reject code reason \<Rightarrow> (Answered (reject_reply cfg r code reason), (st, snd s))
                   | Forward caller \<Rightarrow>
                       (let (resp, w) = behind_gate handle env stack inst health now trace r (snd s)
                        in (Answered resp, (st, w)))))))"

text \<open>Requests at one instance of the workcell, each with the table's health, the clock and its trace id.\<close>

type_synonym serve_event = "ddb_health \<times> int \<times> string \<times> wire_request"

definition serve_step :: "'w http_handler \<Rightarrow> environ \<Rightarrow> app_stack \<Rightarrow> nat \<Rightarrow> serve_event \<Rightarrow> 'w workcell_state \<Rightarrow> 'w workcell_state" where
  "serve_step handle env stack inst = (\<lambda>(health, now, trace, wr) s. snd (serve handle env stack inst health now trace wr s))"

definition serve_run :: "'w http_handler \<Rightarrow> environ \<Rightarrow> app_stack \<Rightarrow> nat \<Rightarrow> serve_event list \<Rightarrow> 'w workcell_state \<Rightarrow> 'w workcell_state" where
  "serve_run handle env stack inst evs s = fold (serve_step handle env stack inst) evs s"

section \<open>What reaches the handler\<close>

lemma idem_dispatch_log:
  assumes "idem_dispatch handle env workcell exempt inst health now r w = (res, w')"
  shows "iw_log w' = iw_log w \<or> iw_log w' = iw_log w @ [r]"
proof (cases "dh_claim health")
  case True
  from assms True show ?thesis
    by (cases rule: idem_dispatch_cases) (auto dest: call_next_fields run_claimed_fields(1))
next
  case False
  with assms show ?thesis
    by (auto simp: idem_dispatch_def Let_def dest: call_next_fields split: if_splits option.splits)
qed

lemma behind_gate_log:
  "behind_gate handle env stack inst health now trace r w = (resp, w') \<Longrightarrow> iw_log w' = iw_log w \<or> iw_log w' = iw_log w @ [r]"
  by (auto simp: behind_gate_def split: prod.splits option.splits dest: call_next_fields idem_dispatch_log)

lemma read_body_start: "0 \<le> limit \<Longrightarrow> read_body limit 0 chunks = Some body \<Longrightarrow> body = concat chunks \<and> int (length body) \<le> limit"
  by (simp add: read_body_spec split: if_splits)

text \<open>The verifier's ring moves by one \<open>seen\<close> of the request's nonce, or not at all; the body plays no part in it.\<close>

lemma dispatch_ring:
  "vs_nonces (snd (verify_dispatch cfg env now r st))
    \<in> {vs_nonces st, snd (nonce_seen (header r ''X-Samus-Nonce'') now (vs_nonces st))}"
  by (simp add: verify_dispatch_nonces)

definition within_ceiling :: "environ \<Rightarrow> http_request \<Rightarrow> bool" where
  "within_ceiling env r \<longleftrightarrow> py_upper (req_method r) \<in> set SKIPPED_METHODS \<or> body_limit env None \<le> 0
     \<or> int (length (req_body r)) \<le> body_limit env None"

lemma serve_cases:
  assumes "serve handle env stack inst health now trace wr s = (ans, s')" "sk_hmac stack = Some cfg"
  obtains
    (Quiet) "iw_log (snd s') = iw_log (snd s)"
      "vs_nonces (fst s') \<in> {vs_nonces (fst s), snd (nonce_seen (header (wr_request wr) ''X-Samus-Nonce'') now (vs_nonces (fst s)))}"
  | (Open) r where "r = (wr_request wr)\<lparr>req_body := concat (wr_chunks wr)\<rparr>" "iw_log (snd s') = iw_log (snd s) @ [r]"
      "fst s' = fst s" "hmac_exempt cfg r" "within_ceiling env r"
  | (Handled) r c where "r = (wr_request wr)\<lparr>req_body := concat (wr_chunks wr)\<rparr>" "iw_log (snd s') = iw_log (snd s) @ [r]"
      "verify_dispatch cfg env now r (fst s) = (Forward c, fst s')" "\<not> hmac_exempt cfg r" "within_ceiling env r"
proof -
  define r0 where "r0 = wr_request wr"
  define capped where "capped = (py_upper (req_method r0) \<notin> set SKIPPED_METHODS \<and> body_limit env None > 0)"
  define read where "read = (if capped then read_body (body_limit env None) 0 (wr_chunks wr) else Some (concat (wr_chunks wr)))"
  have h: "header (r0\<lparr>req_body := b\<rparr>) f = header r0 f" for b f by (simp add: header_def)
  have e: "hmac_exempt cfg (r0\<lparr>req_body := b\<rparr>) = hmac_exempt cfg r0" for b by (simp add: hmac_exempt_def)
  note d = dispatch_ring [of cfg env now "r0\<lparr>req_body := b\<rparr>" "fst s" for b, unfolded h]
  note s = assms(1) [unfolded serve_def Let_def assms(2) option.case, folded r0_def, folded capped_def, folded read_def]
  show ?thesis
  proof (cases "capped \<and> declared_refused (body_limit env None) (wr_length wr)")
    case True
    with s have "s' = s" by simp
    then show ?thesis by (intro Quiet) simp_all
  next
    case small: False
    show ?thesis
    proof (cases "read")
      case None
      with s small d [of "[]"] show ?thesis
        by (intro Quiet) (auto simp: r0_def [symmetric] split: prod.splits if_splits verdict.splits)
    next
      case (Some b)
      have b: "b = concat (wr_chunks wr)" "within_ceiling env (r0\<lparr>req_body := b\<rparr>)"
        using Some read_body_start [of "body_limit env None" "wr_chunks wr" b]
        by (auto simp: read_def capped_def within_ceiling_def split: if_splits)
      obtain resp w where g: "behind_gate handle env stack inst health now trace (r0\<lparr>req_body := b\<rparr>) (snd s) = (resp, w)" by fastforce
      obtain v st where v: "verify_dispatch cfg env now (r0\<lparr>req_body := b\<rparr>) (fst s) = (v, st)" by fastforce
      show ?thesis
      proof (cases "hmac_exempt cfg r0")
        case True
        with s small Some g have s': "s' = (fst s, w)" by auto
        from behind_gate_log [OF g] show ?thesis
        proof
          assume "iw_log w = iw_log (snd s)"
          with s' show ?thesis by (intro Quiet) simp_all
        next
          assume "iw_log w = iw_log (snd s) @ [r0\<lparr>req_body := b\<rparr>]"
          with s' b True show ?thesis by (intro Open [of "r0\<lparr>req_body := b\<rparr>"]) (auto simp: e [unfolded r0_def] r0_def)
        qed
      next
        case gated: False
        show ?thesis
        proof (cases v)
          case (Reject code reason)
          with s v Some small gated d [of b] show ?thesis by (intro Quiet) (auto simp: r0_def [symmetric])
        next
          case (Forward c)
          with s v Some small gated g have s': "s' = (st, w)" by auto
          from behind_gate_log [OF g] show ?thesis
          proof
            assume "iw_log w = iw_log (snd s)"
            with s' v d [of b] show ?thesis by (intro Quiet) (auto simp: r0_def [symmetric])
          next
            assume "iw_log w = iw_log (snd s) @ [r0\<lparr>req_body := b\<rparr>]"
            with s' v b Forward gated show ?thesis by (intro Handled [of "r0\<lparr>req_body := b\<rparr>" c]) (auto simp: e [unfolded r0_def] r0_def)
          qed
        qed
      qed
    qed
  qed
qed

text \<open>While the ring has room it forgets nothing.\<close>

lemma nonce_room:
  assumes "length (nonce_ring s) < nonce_max s"
  shows "length (nonce_ring (snd (nonce_seen n now s))) \<le> Suc (length (nonce_ring s))"
    "nonce_max (snd (nonce_seen n now s)) = nonce_max s"
    "dict_has (nonce_ring (snd (nonce_seen n now s))) k \<longleftrightarrow> dict_has (nonce_ring s) k \<or> (k = n \<and> n \<noteq> [])"
proof -
  have "length (AList.update n now d) \<le> Suc (length d)" for d :: "(string \<times> int) list"
    by (induction d) auto
  from this [of "nonce_ring s"] have "od_evict (nonce_max s) (AList.update n now (nonce_ring s)) = AList.update n now (nonce_ring s)"
    "length (AList.update n now (nonce_ring s)) \<le> Suc (length (nonce_ring s))" using assms by simp_all
  then show "length (nonce_ring (snd (nonce_seen n now s))) \<le> Suc (length (nonce_ring s))"
    "nonce_max (snd (nonce_seen n now s)) = nonce_max s"
    "dict_has (nonce_ring (snd (nonce_seen n now s))) k \<longleftrightarrow> dict_has (nonce_ring s) k \<or> (k = n \<and> n \<noteq> [])"
    using assms by (auto simp: nonce_seen_def dict_has_def map_of_update)
qed

text \<open>What is true of a request that was handled, and of the handled requests together.\<close>

definition verified_request :: "hmac_config \<Rightarrow> environ \<Rightarrow> http_request \<Rightarrow> bool" where
  "verified_request cfg env r \<longleftrightarrow>
     header r ''X-Samus-Signature'' = expected_signature cfg env r
     \<and> authorize_caller_to_callee env (Some (py_or (request_caller r) UNKNOWN_CALLER)) (hc_self cfg) None"

definition handled_ok :: "hmac_config \<Rightarrow> environ \<Rightarrow> 'w workcell_state \<Rightarrow> bool" where
  "handled_ok cfg env s \<longleftrightarrow>
     (\<forall>r \<in> set (iw_log (snd s)). within_ceiling env r)
     \<and> (\<forall>r \<in> set (filter (\<lambda>r. \<not> hmac_exempt cfg r) (iw_log (snd s))).
          verified_request cfg env r \<and> dict_has (nonce_ring (vs_nonces (fst s))) (header r ''X-Samus-Nonce''))
     \<and> distinct (map (\<lambda>r. header r ''X-Samus-Nonce'') (filter (\<lambda>r. \<not> hmac_exempt cfg r) (iw_log (snd s))))"

lemma serve_handled_ok:
  assumes "serve handle env stack inst health now trace wr s = (ans, s')" "sk_hmac stack = Some cfg"
    and "handled_ok cfg env s" "length (nonce_ring (vs_nonces (fst s))) < nonce_max (vs_nonces (fst s))"
  shows "handled_ok cfg env s'" "length (nonce_ring (vs_nonces (fst s'))) \<le> Suc (length (nonce_ring (vs_nonces (fst s))))"
    "nonce_max (vs_nonces (fst s')) = nonce_max (vs_nonces (fst s))"
proof -
  note room = nonce_room [OF assms(4)]
  from assms(1,2) have "handled_ok cfg env s' \<and> length (nonce_ring (vs_nonces (fst s'))) \<le> Suc (length (nonce_ring (vs_nonces (fst s))))
      \<and> nonce_max (vs_nonces (fst s')) = nonce_max (vs_nonces (fst s))"
  proof (cases rule: serve_cases)
    case Quiet
    then show ?thesis using assms(3) room by (auto simp: handled_ok_def)
  next
    case (Open r)
    then show ?thesis using assms(3) by (auto simp: handled_ok_def)
  next
    case (Handled r c)
    note f = forward_facts [OF Handled(3,4)]
    have n: "vs_nonces (fst s') = snd (nonce_seen (header r ''X-Samus-Nonce'') now (vs_nonces (fst s)))"
      using verify_dispatch_nonces [of cfg env now r "fst s"] f(1) Handled(3) by simp
    have "verified_request cfg env r" using f by (simp add: verified_request_def)
    moreover have "header r ''X-Samus-Nonce'' \<noteq> []" using f(1) by (simp add: reaches_nonce_check_def)
    ultimately show ?thesis using assms(3) room n f(3) Handled(2,4,5) by (auto simp: handled_ok_def)
  qed
  then show "handled_ok cfg env s'" "length (nonce_ring (vs_nonces (fst s'))) \<le> Suc (length (nonce_ring (vs_nonces (fst s))))"
    "nonce_max (vs_nonces (fst s')) = nonce_max (vs_nonces (fst s))" by simp_all
qed

lemma serve_run_handled_ok:
  assumes "sk_hmac stack = Some cfg"
  shows "handled_ok cfg env s \<Longrightarrow> length (nonce_ring (vs_nonces (fst s))) + length evs \<le> nonce_max (vs_nonces (fst s)) \<Longrightarrow>
    handled_ok cfg env (serve_run handle env stack inst evs s)"
proof (induction evs arbitrary: s)
  case (Cons ev evs)
  obtain health now trace wr where ev: "ev = (health, now, trace, wr)" by (cases ev)
  obtain ans s1 where d: "serve handle env stack inst health now trace wr s = (ans, s1)" by (rule that) (rule prod.collapse [symmetric])
  have "length (nonce_ring (vs_nonces (fst s))) < nonce_max (vs_nonces (fst s))" using Cons.prems(2) by simp
  note step = serve_handled_ok [OF d assms Cons.prems(1) this]
  have "handled_ok cfg env (serve_run handle env stack inst evs s1)"
    using step Cons.prems(2) by (intro Cons.IH) auto
  with d ev show ?case by (simp add: serve_run_def serve_step_def)
qed (simp add: serve_run_def)


section \<open>A request of the signing client\<close>

definition on_the_wire :: "http_request \<Rightarrow> wire_request" where
  "on_the_wire r = \<lparr>wr_request = r, wr_length = Some (show_int (int (length (req_body r)))), wr_chunks = [req_body r]\<rparr>"

lemma built_without_key: "build_signed_request env service shared path body secret now nonce = Inr r \<Longrightarrow> idem_key_of r = []"
  by (auto simp: build_signed_request_def idem_key_of_def header_def dict_get_def Let_def py_strip_def py_lstrip_def split: if_splits)

lemma built_behind_gate:
  "idem_key_of r = [] \<Longrightarrow> behind_gate handle env stack inst health now trace r w =
     ((case fst (handle r (iw_app w)) of Inl exc \<Rightarrow> internal_error_reply trace | Inr resp \<Rightarrow> resp), snd (call_next handle r w))"
  by (auto simp: behind_gate_def idem_dispatch_def call_next_def Let_def split: option.splits prod.splits)

lemma serve_on_the_wire:
  assumes "sk_hmac stack = Some cfg" "\<not> hmac_exempt cfg r" "within_ceiling env r"
  shows "serve handle env stack inst health now trace (on_the_wire r) s =
    (case verify_dispatch cfg env now r (fst s) of
       (Reject code reason, st) \<Rightarrow> (Answered (reject_reply cfg r code reason), (st, snd s))
     | (Forward caller, st) \<Rightarrow>
         (let (resp, w) = behind_gate handle env stack inst health now trace r (snd s) in (Answered resp, (st, w))))"
  using assms
  by (auto simp: serve_def on_the_wire_def Let_def declared_refused_def py_int_show_int within_ceiling_def read_body_spec
      simp del: read_body.simps split: prod.splits verdict.splits)

text \<open>Such a request is handled when its nonce is new to the instance, and answered with 401 when it is not.\<close>

lemma serve_built:
  assumes built: "build_signed_request env service shared path body None sent nonce = Inr r"
    and cfg: "sk_hmac stack = Some cfg" "hc_pinned cfg = None" "hc_shared cfg = shared" "py_startswith path ''/''"
      "\<not> hmac_exempt cfg r" "nonce \<noteq> []" "within_ceiling env r"
    and clock: "now - sent \<le> hc_window cfg" "sent - now \<le> FUTURE_SKEW_SECONDS"
    and auth: "authorize_caller_to_callee env (Some (caller_name service)) (hc_self cfg) None"
  shows "\<not> dict_has (nonce_ring (vs_nonces st)) nonce \<Longrightarrow>
      serve handle env stack inst health now trace (on_the_wire r) (st, w) =
        (Answered (case fst (handle r (iw_app w)) of Inl exc \<Rightarrow> internal_error_reply trace | Inr resp \<Rightarrow> resp),
         (snd (verify_dispatch cfg env now r st), snd (call_next handle r w)))"
    "dict_has (nonce_ring (vs_nonces st)) nonce \<Longrightarrow>
      serve handle env stack inst health now trace (on_the_wire r) (st, w) = (Answered (reject_reply cfg r 401 ''hmac_nonce_replay''), (st, w))"
proof -
  note b = built_request_headers [OF built]
  note v = built_request_verified [OF built cfg(2-6)]
  assume new: "\<not> dict_has (nonce_ring (vs_nonces st)) nonce"
  obtain st1 where "verify_dispatch cfg env now r st = (Forward (caller_name service), st1)"
    using v [OF new clock] auth by (cases "verify_dispatch cfg env now r st") auto
  then show "serve handle env stack inst health now trace (on_the_wire r) (st, w) =
        (Answered (case fst (handle r (iw_app w)) of Inl exc \<Rightarrow> internal_error_reply trace | Inr resp \<Rightarrow> resp),
         (snd (verify_dispatch cfg env now r st), snd (call_next handle r w)))"
    by (simp add: serve_on_the_wire [OF cfg(1,5,7)] built_behind_gate [OF built_without_key [OF built]])
next
  note b = built_request_headers [OF built]
  assume seen: "dict_has (nonce_ring (vs_nonces st)) nonce"
  have "verifier_key cfg env (request_caller r) \<noteq> []"
    using b(6) cfg(2,3) caller_name_nonempty [of service] by (simp add: verifier_key_def resolve_caller_key_def b)
  then have "reaches_nonce_check cfg env now r"
    using cfg(5,6) clock by (auto simp: reaches_nonce_check_def b(1-3) py_int_show_int show_int_nonempty) (simp add: b(5) sign_request_nonempty)
  then have "verify_dispatch cfg env now r st = (Reject 401 ''hmac_nonce_replay'', st)"
    using seen by (auto simp: verify_dispatch_def reaches_nonce_check_def nonce_seen_def Let_def b(2))
  then show "serve handle env stack inst health now trace (on_the_wire r) (st, w) = (Answered (reject_reply cfg r 401 ''hmac_nonce_replay''), (st, w))"
    by (simp add: serve_on_the_wire [OF cfg(1,5,7)])
qed

text \<open>Handling it leaves its nonce in the ring.\<close>

lemma forwarded_nonce_kept:
  assumes "verify_dispatch cfg env now r st = (Forward c, st')" "\<not> hmac_exempt cfg r" "0 < nonce_max (vs_nonces st)" "nonces.ring_wf (vs_nonces st)"
  shows "dict_has (nonce_ring (vs_nonces st')) (header r ''X-Samus-Nonce'')"
proof -
  note f = forward_facts [OF assms(1,2)]
  have n: "header r ''X-Samus-Nonce'' \<noteq> []" using f(1) by (simp add: reaches_nonce_check_def)
  have "vs_nonces st' = snd (nonce_seen (header r ''X-Samus-Nonce'') now (vs_nonces st))"
    using verify_dispatch_nonces [of cfg env now r st] f(1) assms(1) by simp
  with n f(3) assms(3) show ?thesis
    by (simp add: nonce_seen_def dict_has_keys keys_od_evict update_new od_evict_drop)
qed

section \<open>An instance of the CRM, with voice calling\<close>

definition crm_stack :: app_stack where
  "crm_stack = \<lparr>sk_name = ''crm'', sk_hmac = Some w_cfg, sk_idem = Some []\<rparr>"

lemma crm_stack_cfg: "sk_hmac crm_stack = Some w_cfg"
  by (simp add: crm_stack_def)

lemma crm_within_ceiling: "within_ceiling w_env (w_genuine c)"
proof -
  have "py_strip [] = []" by code_simp
  then show ?thesis
    by (simp add: within_ceiling_def w_genuine_def w_signed_def body_limit_def configured_limit_def getenv_def DEFAULT_MAX_BYTES_def)
qed

lemmas crm_served = serve_built [OF w_built_voice crm_stack_cfg w_facts(1-3) w_facts(5) _ crm_within_ceiling,
  unfolded w_facts w_names FUTURE_SKEW_SECONDS_def, OF _ _ _ w_voice_reaches_crm]


text \<open>Production never starts a workcell that is gated without a key.\<close>

lemma booted_workcell_is_gated:
  assumes "create_base_app env s codex_failure service_name True hmac_paths add_idem idem_paths = Inr stack" "\<not> hmac_disabled_for_tests env"
  shows "codex_failure = None" "\<exists>cfg. sk_hmac stack = Some cfg \<and> hc_pinned cfg = None \<and> hc_shared cfg = as_shared s \<and> hc_self cfg = as_service s"
    "as_env s = ''development'' \<or> sk_name stack = ''gateway'' \<or> as_shared s \<noteq> [] \<or> as_per_service s \<noteq> []"
  using assms
  by (auto simp: create_base_app_def verify_hmac_init_def py_or_def HMAC_SIGNER_SERVICES_def Let_def split: option.splits if_splits)

end
