(* ===== verification/Retry_Circuit.thy ===== *)
theory Retry_Circuit
  imports Service_Stack
begin

text \<open>
  The outbound side: the circuit breaker and the retry loop of \<open>common/retry.py\<close>, and the signing clients of
  \<open>common/http_client.py\<close> that use it. Times are whole milliseconds. A call to the peer is given: it answers, or fails in one
  of the ways the loop tells apart, and the monotonic clock is read after it.
\<close>

section \<open>The circuit\<close>

record circuit_state =
  ci_failures :: int
  ci_threshold :: int
  ci_recovery :: int
  ci_open_until :: int

definition new_circuit :: circuit_state where
  "new_circuit = \<lparr>ci_failures = 0, ci_threshold = 5, ci_recovery = 30000, ci_open_until = 0\<rparr>"

definition can_call :: "int \<Rightarrow> circuit_state \<Rightarrow> bool" where
  "can_call now c \<longleftrightarrow> ci_open_until c = 0 \<or> now \<ge> ci_open_until c"

definition record_success :: "circuit_state \<Rightarrow> bool \<times> circuit_state" where
  "record_success c = (ci_open_until c \<noteq> 0, c\<lparr>ci_failures := 0, ci_open_until := 0\<rparr>)"

definition record_failure :: "int \<Rightarrow> circuit_state \<Rightarrow> bool \<times> circuit_state" where
  "record_failure now c =
     (let was_open = ci_open_until c \<noteq> 0;
          c = c\<lparr>ci_failures := ci_failures c + 1\<rparr>;
          c = (if ci_failures c \<ge> ci_threshold c then c\<lparr>ci_open_until := now + ci_recovery c\<rparr> else c)
      in (\<not> was_open \<and> ci_open_until c \<noteq> 0, c))"

section \<open>The retry loop\<close>

text \<open>
  The client's side of the world: the circuits by target, the health transitions announced (\<^const>\<open>True\<close> for a recovery), the
  pauses slept, the number of calls made, and the peer's state.
\<close>

record 'w client_world =
  cw_circuits :: "(string \<times> circuit_state) list"
  cw_notices :: "(string \<times> bool) list"
  cw_slept :: "int list"
  cw_calls :: nat
  cw_peer :: 'w

datatype 'a call_result = Reply 'a | Net_Timeout string | Http_Error string | Other_Error string

type_synonym ('a, 'w) peer_call = "'w \<Rightarrow> ('a call_result \<times> int) \<times> 'w"

datatype retry_error = Circuit_Open string | Call_Failed string | Assertion_Failed | Not_Signed sign_error

definition circuit_of :: "string \<Rightarrow> 'w client_world \<Rightarrow> circuit_state" where
  "circuit_of target w = (case map_of (cw_circuits w) target of Some c \<Rightarrow> c | None \<Rightarrow> new_circuit)"

definition get_circuit :: "string \<Rightarrow> 'w client_world \<Rightarrow> circuit_state \<times> 'w client_world" where
  "get_circuit target w =
     (case map_of (cw_circuits w) target of
        Some c \<Rightarrow> (c, w)
      | None \<Rightarrow> (new_circuit, w\<lparr>cw_circuits := AList.update target new_circuit (cw_circuits w)\<rparr>))"

definition make_call :: "('a, 'w) peer_call \<Rightarrow> 'w client_world \<Rightarrow> ('a call_result \<times> int) \<times> 'w client_world" where
  "make_call call w = (let (res, p) = call (cw_peer w) in (res, w\<lparr>cw_peer := p, cw_calls := cw_calls w + 1\<rparr>))"

definition settle_circuit :: "string \<Rightarrow> bool \<Rightarrow> bool \<times> circuit_state \<Rightarrow> 'w client_world \<Rightarrow> 'w client_world" where
  "settle_circuit target healthy = (\<lambda>(changed, c) w.
     w\<lparr>cw_circuits := AList.update target c (cw_circuits w),
       cw_notices := (if changed then cw_notices w @ [(target, healthy)] else cw_notices w)\<rparr>)"

definition on_success :: "string \<Rightarrow> 'w client_world \<Rightarrow> 'w client_world" where
  "on_success target w = settle_circuit target True (record_success (circuit_of target w)) w"

definition on_failure :: "string \<Rightarrow> int \<Rightarrow> 'w client_world \<Rightarrow> 'w client_world" where
  "on_failure target now w = settle_circuit target False (record_failure now (circuit_of target w)) w"

definition pause :: "int \<Rightarrow> 'w client_world \<Rightarrow> 'w client_world" where
  "pause delay w = w\<lparr>cw_slept := cw_slept w @ [delay]\<rparr>"

text \<open>The passes of \<open>for attempt in range(max_retries + 1)\<close> that are left, from the given attempt on.\<close>

fun retry_attempts ::
  "('a, 'w) peer_call \<Rightarrow> string \<Rightarrow> int \<Rightarrow> int \<Rightarrow> bool \<Rightarrow> nat \<Rightarrow> nat \<Rightarrow> string option \<Rightarrow> 'w client_world \<Rightarrow> (retry_error + 'a) \<times> 'w client_world" where
  "retry_attempts call target max_retries base_delay idempotent 0 attempt last_exc w =
     ((case last_exc of None \<Rightarrow> Inl Assertion_Failed | Some exc \<Rightarrow> Inl (Call_Failed exc)), w)"
| "retry_attempts call target max_retries base_delay idempotent (Suc left) attempt last_exc w =
     (case make_call call w of
        ((Reply a, now), w) \<Rightarrow> (Inr a, on_success target w)
      | ((Net_Timeout exc, now), w) \<Rightarrow>
          (let w = on_failure target now w in
           if \<not> idempotent \<or> int attempt \<ge> max_retries then (Inl (Call_Failed exc), w)
           else retry_attempts call target max_retries base_delay idempotent left (Suc attempt) (Some exc)
                  (pause (base_delay * 2 ^ attempt) w))
      | ((Http_Error exc, now), w) \<Rightarrow> (Inl (Call_Failed exc), on_failure target now w)
      | ((Other_Error exc, now), w) \<Rightarrow> (Inl (Call_Failed exc), on_failure target now w))"

definition retry_request ::
  "('a, 'w) peer_call \<Rightarrow> string \<Rightarrow> int \<Rightarrow> int \<Rightarrow> bool \<Rightarrow> int \<Rightarrow> 'w client_world \<Rightarrow> (retry_error + 'a) \<times> 'w client_world" where
  "retry_request call target max_retries base_delay idempotent now w =
     (let (circuit, w) = get_circuit target w in
      if \<not> can_call now circuit then (Inl (Circuit_Open target), w)
      else retry_attempts call target max_retries base_delay idempotent (nat (max_retries + 1)) 0 None w)"

section \<open>The signing clients\<close>

definition INTER_WORKCELL_MAX_BYTES :: int where "INTER_WORKCELL_MAX_BYTES = 16 * 1024 * 1024"

text \<open>\<open>check_httpx_size\<close> on a response with the given declared length: \<^const>\<open>True\<close> when it raises.\<close>

definition oversized :: "int \<Rightarrow> string option \<Rightarrow> string \<Rightarrow> bool" where
  "oversized max_bytes declared content \<longleftrightarrow>
     (case declared of None \<Rightarrow> False | Some d \<Rightarrow> (case py_int d of None \<Rightarrow> False | Some n \<Rightarrow> n > max_bytes))
     \<or> int (length content) > max_bytes"

definition checked_call :: "('w \<Rightarrow> ((string option \<times> http_response) call_result \<times> int) \<times> 'w) \<Rightarrow> (http_response, 'w) peer_call" where
  "checked_call send p =
     (case send p of
        ((Reply (declared, resp), now), p) \<Rightarrow>
          ((if oversized INTER_WORKCELL_MAX_BYTES declared (hr_body resp) then Other_Error ''ResponseTooLarge'' else Reply resp, now), p)
      | ((Net_Timeout exc, now), p) \<Rightarrow> ((Net_Timeout exc, now), p)
      | ((Http_Error exc, now), p) \<Rightarrow> ((Http_Error exc, now), p)
      | ((Other_Error exc, now), p) \<Rightarrow> ((Other_Error exc, now), p))"

definition join_url :: "string \<Rightarrow> string \<Rightarrow> string" where
  "join_url base_url path = rev (dropWhile (\<lambda>c. c = CHR ''/'') (rev base_url)) @ url_path path"

type_synonym 'w transport = "string \<Rightarrow> http_request \<Rightarrow> 'w \<Rightarrow> ((string option \<times> http_response) call_result \<times> int) \<times> 'w"

definition signed_post_json ::
  "'w transport \<Rightarrow> environ \<Rightarrow> string \<Rightarrow> string \<Rightarrow> string \<Rightarrow> string \<Rightarrow> string \<Rightarrow> int \<Rightarrow> string option \<Rightarrow> int \<Rightarrow> string \<Rightarrow> int
     \<Rightarrow> 'w client_world \<Rightarrow> (retry_error + http_response) \<times> 'w client_world" where
  "signed_post_json send env service shared base_url path body retries secret wall nonce now w =
     (case build_signed_request env service shared path body secret wall nonce of
        Inl e \<Rightarrow> (Inl (Not_Signed e), w)
      | Inr r \<Rightarrow>
          (let url = join_url base_url path
           in retry_request (checked_call (send url r)) url retries 500 True now w))"

text \<open>The synchronous loop retries every \<open>httpx\<close> error, with its own pauses and no circuit.\<close>

fun sync_attempts ::
  "(http_response, 'w) peer_call \<Rightarrow> nat \<Rightarrow> nat \<Rightarrow> nat \<Rightarrow> string option \<Rightarrow> 'w client_world \<Rightarrow> (retry_error + http_response) \<times> 'w client_world" where
  "sync_attempts call max_attempts 0 attempt last_exc w =
     ((case last_exc of None \<Rightarrow> Inl Assertion_Failed | Some exc \<Rightarrow> Inl (Call_Failed exc)), w)"
| "sync_attempts call max_attempts (Suc left) attempt last_exc w =
     (case make_call call w of
        ((Reply a, now), w) \<Rightarrow> (Inr a, w)
      | ((Net_Timeout exc, now), w) \<Rightarrow>
          (if attempt + 1 \<ge> max_attempts then (Inl (Call_Failed exc), w)
           else sync_attempts call max_attempts left (Suc attempt) (Some exc) (pause (100 * 4 ^ attempt) w))
      | ((Http_Error exc, now), w) \<Rightarrow>
          (if attempt + 1 \<ge> max_attempts then (Inl (Call_Failed exc), w)
           else sync_attempts call max_attempts left (Suc attempt) (Some exc) (pause (100 * 4 ^ attempt) w))
      | ((Other_Error exc, now), w) \<Rightarrow> (Inl (Call_Failed exc), w))"

definition sync_retry :: "(http_response, 'w) peer_call \<Rightarrow> int \<Rightarrow> 'w client_world \<Rightarrow> (retry_error + http_response) \<times> 'w client_world" where
  "sync_retry call retries w =
     (let max_attempts = nat (max 1 (retries + 1)) in sync_attempts call max_attempts max_attempts 0 None w)"

definition signed_post_json_sync ::
  "'w transport \<Rightarrow> environ \<Rightarrow> string \<Rightarrow> string \<Rightarrow> string \<Rightarrow> string \<Rightarrow> string \<Rightarrow> int \<Rightarrow> string option \<Rightarrow> int \<Rightarrow> string
     \<Rightarrow> 'w client_world \<Rightarrow> (retry_error + http_response) \<times> 'w client_world" where
  "signed_post_json_sync send env service shared base_url path body retries secret wall nonce w =
     (case build_signed_request env service shared path body secret wall nonce of
        Inl e \<Rightarrow> (Inl (Not_Signed e), w)
      | Inr r \<Rightarrow> sync_retry (checked_call (send (join_url base_url path) r)) retries w)"

definition signed_get_json_sync ::
  "'w transport \<Rightarrow> environ \<Rightarrow> string \<Rightarrow> string \<Rightarrow> string \<Rightarrow> string \<Rightarrow> int \<Rightarrow> string option \<Rightarrow> int \<Rightarrow> string
     \<Rightarrow> 'w client_world \<Rightarrow> (retry_error + http_response) \<times> 'w client_world" where
  "signed_get_json_sync send env service shared base_url path retries secret wall nonce w =
     (case build_signed_get_request env service shared path secret wall nonce of
        Inl e \<Rightarrow> (Inl (Not_Signed e), w)
      | Inr r \<Rightarrow> sync_retry (checked_call (send (join_url base_url path) r)) retries w)"

section \<open>Attempts, pauses and calls\<close>

lemma settle_fields [simp]:
  "cw_calls (settle_circuit target healthy x w) = cw_calls w" "cw_slept (settle_circuit target healthy x w) = cw_slept w"
  "cw_peer (settle_circuit target healthy x w) = cw_peer w"
  by (cases x; simp add: settle_circuit_def)+

lemma outcome_fields [simp]:
  "cw_calls (on_success target w) = cw_calls w" "cw_slept (on_success target w) = cw_slept w" "cw_peer (on_success target w) = cw_peer w"
  "cw_calls (on_failure target now w) = cw_calls w" "cw_slept (on_failure target now w) = cw_slept w" "cw_peer (on_failure target now w) = cw_peer w"
  "cw_calls (pause d w) = cw_calls w" "cw_slept (pause d w) = cw_slept w @ [d]" "cw_peer (pause d w) = cw_peer w"
  by (simp_all add: on_success_def on_failure_def pause_def)

lemma make_call_fields:
  "make_call call w = (res, w') \<Longrightarrow> cw_calls w' = cw_calls w + 1 \<and> cw_slept w' = cw_slept w
     \<and> cw_circuits w' = cw_circuits w \<and> cw_notices w' = cw_notices w \<and> call (cw_peer w) = (res, cw_peer w')"
  by (auto simp: make_call_def split: prod.splits)

definition backoff :: "int \<Rightarrow> nat \<Rightarrow> nat \<Rightarrow> int list" where
  "backoff base_delay start n = map (\<lambda>i. base_delay * 2 ^ i) [start ..< start + n]"

lemma backoff_simps: "backoff b a 0 = []" "backoff b a (Suc n) = (b * 2 ^ a) # backoff b (Suc a) n"
  by (simp_all add: backoff_def upt_conv_Cons del: upt.simps)

lemma attempts_bounded:
  assumes "retry_attempts call target max_retries base_delay idempotent left attempt last_exc w = (res, w')"
    and "int attempt + int left = max_retries + 1" "0 < left"
  shows "\<exists>n. n < left \<and> cw_calls w' = cw_calls w + Suc n \<and> cw_slept w' = cw_slept w @ backoff base_delay attempt n
    \<and> (idempotent \<or> n = 0)"
  using assms
proof (induction left arbitrary: attempt last_exc w)
  case (Suc left)
  obtain r now w1 where m: "make_call call w = ((r, now), w1)" by (metis prod.collapse)
  note f = make_call_fields [OF m]
  show ?case
  proof (cases "\<exists>exc. r = Net_Timeout exc \<and> idempotent \<and> int attempt < max_retries")
    case True
    then obtain exc where r: "r = Net_Timeout exc" "idempotent" "int attempt < max_retries" by blast
    then have "retry_attempts call target max_retries base_delay idempotent left (Suc attempt) (Some exc)
        (pause (base_delay * 2 ^ attempt) (on_failure target now w1)) = (res, w')"
      using Suc.prems(1) m by (simp add: Let_def)
    from Suc.IH [OF this] Suc.prems(2) r(3) obtain n where n: "n < left" "cw_calls w' = cw_calls w1 + Suc n"
        "cw_slept w' = (cw_slept w1 @ [base_delay * 2 ^ attempt]) @ backoff base_delay (Suc attempt) n" by auto
    with f r(2) show ?thesis by (intro exI [of _ "Suc n"]) (simp add: backoff_simps)
  next
    case False
    with Suc.prems(1) m f show ?thesis
      by (intro exI [of _ 0]) (auto simp: backoff_simps Let_def split: call_result.splits if_splits)
  qed
qed simp

lemma get_circuit_world:
  "get_circuit target w = (c, w') \<Longrightarrow> c = circuit_of target w \<and> circuit_of t w' = circuit_of t w \<and> cw_notices w' = cw_notices w
     \<and> cw_slept w' = cw_slept w \<and> cw_calls w' = cw_calls w \<and> cw_peer w' = cw_peer w"
  by (auto simp: get_circuit_def circuit_of_def map_of_update split: option.splits if_splits)

text \<open>A request is bounded. An open circuit lets no call through: the request is refused at once and nothing is slept.
  Otherwise, with a number of retries that is at least 0, at least one call is made and at most one more than that number, exactly one when
  the request is not idempotent, and between two calls the pause doubles from the base delay.\<close>

theorem retry_request_is_bounded:
  assumes "retry_request call target max_retries base_delay idempotent now w = (res, w')" "0 \<le> max_retries"
  shows "if can_call now (circuit_of target w)
    then (\<exists>n. int n \<le> max_retries \<and> (idempotent \<or> n = 0) \<and> cw_calls w' = cw_calls w + n + 1
            \<and> cw_slept w' = cw_slept w @ map (\<lambda>i. base_delay * 2 ^ i) [0 ..< n])
    else res = Inl (Circuit_Open target) \<and> cw_calls w' = cw_calls w \<and> cw_slept w' = cw_slept w \<and> cw_peer w' = cw_peer w"
proof -
  obtain c w1 where g: "get_circuit target w = (c, w1)" by fastforce
  note f = get_circuit_world [OF g]
  show ?thesis
  proof (cases "can_call now c")
    case True
    with assms(1) g have "retry_attempts call target max_retries base_delay idempotent (nat (max_retries + 1)) 0 None w1 = (res, w')"
      by (simp add: retry_request_def)
    from attempts_bounded [OF this] assms(2) obtain n where
      "n < nat (max_retries + 1)" "cw_calls w' = cw_calls w1 + Suc n" "cw_slept w' = cw_slept w1 @ backoff base_delay 0 n" "idempotent \<or> n = 0"
      by auto
    moreover have "int n \<le> max_retries" using calculation(1) assms(2) by linarith
    ultimately show ?thesis using True f by (auto simp: backoff_def intro!: exI [of _ n])
  next
    case False
    with assms(1) g f show ?thesis by (auto simp: retry_request_def)
  qed
qed

text \<open>Asked for fewer than no retries, the loop makes no call and fails its own assertion.\<close>

lemma negative_retries_fail:
  "max_retries < 0 \<Longrightarrow> can_call now (circuit_of target w) \<Longrightarrow>
   fst (retry_request call target max_retries base_delay idempotent now w) = Inl Assertion_Failed"
  by (auto simp: retry_request_def dest: get_circuit_world split: prod.splits)

section \<open>Health transitions\<close>

text \<open>The announcements about one target, and what they say of its circuit: they alternate, the first being a failure, and the
  circuit is open exactly when the last one is.\<close>

definition notices_of :: "string \<Rightarrow> 'w client_world \<Rightarrow> bool list" where
  "notices_of target w = map snd (filter (\<lambda>(t, healthy). t = target) (cw_notices w))"

fun alternating :: "bool \<Rightarrow> bool list \<Rightarrow> bool" where
  "alternating healthy [] = True"
| "alternating healthy (x # xs) = (x \<noteq> healthy \<and> alternating x xs)"

definition announced :: "string \<Rightarrow> 'w client_world \<Rightarrow> bool" where
  "announced target w \<longleftrightarrow> alternating True (notices_of target w) \<and> 0 < ci_recovery (circuit_of target w)
     \<and> (ci_open_until (circuit_of target w) = 0 \<longleftrightarrow> last (True # notices_of target w))"

lemma alternating_snoc: "alternating h (xs @ [x]) \<longleftrightarrow> alternating h xs \<and> x \<noteq> last (h # xs)"
  by (induction h xs rule: alternating.induct) auto

lemma settle_view:
  "circuit_of t (settle_circuit target healthy (changed, c) w) = (if t = target then c else circuit_of t w)"
  "notices_of t (settle_circuit target healthy (changed, c) w) = notices_of t w @ (if changed \<and> t = target then [healthy] else [])"
  by (auto simp: settle_circuit_def circuit_of_def notices_of_def map_of_update)

lemma announced_success: "announced t w \<Longrightarrow> announced t (on_success target w)"
  by (auto simp: on_success_def record_success_def announced_def settle_view alternating_snoc)

lemma announced_failure: "announced t w \<Longrightarrow> 0 \<le> now \<Longrightarrow> announced t (on_failure target now w)"
  by (auto simp: on_failure_def record_failure_def announced_def settle_view alternating_snoc Let_def)

lemma announced_same: "cw_circuits w' = cw_circuits w \<Longrightarrow> cw_notices w' = cw_notices w \<Longrightarrow> announced t w' = announced t w"
  by (simp add: announced_def circuit_of_def notices_of_def)

lemma announced_pause: "announced t (pause d w) = announced t w"
  by (rule announced_same) (simp_all add: pause_def)

lemma announced_attempts:
  assumes "\<And>p. 0 \<le> snd (fst (call p))"
  shows "announced t w \<Longrightarrow> announced t (snd (retry_attempts call target max_retries base_delay idempotent left attempt last_exc w))"
proof (induction left arbitrary: attempt last_exc w)
  case (Suc left)
  obtain r now w1 where m: "make_call call w = ((r, now), w1)" by (metis prod.collapse)
  have now: "0 \<le> now" using make_call_fields [OF m] assms [of "cw_peer w"] by simp
  have "announced t w1" using make_call_fields [OF m] Suc.prems announced_same by metis
  note a = announced_success [OF this] announced_failure [OF this now]
  have "announced t (pause d (on_failure target now w1))" for d
    using a(2) by (simp add: announced_pause)
  from a this Suc.IH show ?case by (cases r) (auto simp: m Let_def)
qed simp

definition retry_step :: "('a, 'w) peer_call \<times> string \<times> int \<times> int \<times> bool \<times> int \<Rightarrow> 'w client_world \<Rightarrow> 'w client_world" where
  "retry_step = (\<lambda>(call, target, max_retries, base_delay, idempotent, now) w.
     snd (retry_request call target max_retries base_delay idempotent now w))"

lemma announced_request:
  assumes "\<And>p. 0 \<le> snd (fst (call p))" "announced t w"
  shows "announced t (snd (retry_request call target max_retries base_delay idempotent now w))"
proof -
  obtain c w1 where g: "get_circuit target w = (c, w1)" by fastforce
  have "announced t w1" using get_circuit_world [OF g, of t] assms(2) by (simp add: announced_def notices_of_def)
  with announced_attempts [OF assms(1)] g show ?thesis by (simp add: retry_request_def)
qed

text \<open>Health is announced by turns. After any sequence of requests to any targets, in a process that started with no
  circuits and whose monotonic clock is never negative, the transitions announced for a target alternate between unhealthy and
  recovered, beginning with unhealthy, and its circuit is open exactly when the last one was unhealthy: no flip is announced
  twice and none is missed.\<close>

theorem health_transitions_alternate:
  assumes "cw_circuits w = []" "cw_notices w = []"
    and "\<forall>(call, req) \<in> set reqs. \<forall>p. 0 \<le> snd (fst (call p))"
    and "fold retry_step reqs w = w'"
  shows "alternating True (notices_of target w') \<and> (ci_open_until (circuit_of target w') \<noteq> 0 \<longleftrightarrow> \<not> last (True # notices_of target w'))"
proof -
  have "announced target (fold retry_step reqs w)" if "announced target w" using that assms(3)
  proof (induction reqs arbitrary: w)
    case (Cons req reqs)
    obtain call t max_retries base_delay idempotent now where r: "req = (call, t, max_retries, base_delay, idempotent, now)" by (cases req)
    have "announced target (retry_step req w)" using Cons.prems r announced_request [of call target w] by (simp add: retry_step_def)
    with Cons show ?case by simp
  qed simp
  moreover have "announced target w" using assms(1,2) by (simp add: announced_def notices_of_def circuit_of_def new_circuit_def)
  ultimately show ?thesis using assms(4) by (auto simp: announced_def)
qed

section \<open>A peer that is down\<close>

text \<open>When every call times out, each retry counts against the circuit, those after it has opened too.\<close>

lemma down_attempts:
  assumes "\<And>p. \<exists>exc t p'. call p = ((Net_Timeout exc, t), p') \<and> lo \<le> t"
  shows "int attempt + int left = max_retries + 1 \<Longrightarrow> 0 < left \<Longrightarrow>
    retry_attempts call target max_retries base_delay True left attempt last_exc w = (res, w') \<Longrightarrow>
    (\<exists>exc. res = Inl (Call_Failed exc)) \<and> cw_calls w' = cw_calls w + left
    \<and> ci_failures (circuit_of target w') = ci_failures (circuit_of target w) + int left
    \<and> ci_threshold (circuit_of target w') = ci_threshold (circuit_of target w) \<and> ci_recovery (circuit_of target w') = ci_recovery (circuit_of target w)
    \<and> (ci_failures (circuit_of target w') \<ge> ci_threshold (circuit_of target w') \<longrightarrow>
         lo + ci_recovery (circuit_of target w') \<le> ci_open_until (circuit_of target w'))"
proof (induction left arbitrary: attempt last_exc w)
  case (Suc left)
  obtain exc t p' where c: "call (cw_peer w) = ((Net_Timeout exc, t), p')" "lo \<le> t" using assms by blast
  define w1 where "w1 = w\<lparr>cw_peer := p', cw_calls := cw_calls w + 1\<rparr>"
  have m: "make_call call w = ((Net_Timeout exc, t), w1)" by (simp add: make_call_def c w1_def)
  define w2 where "w2 = on_failure target t w1"
  have v: "circuit_of target w1 = circuit_of target w" "cw_calls w2 = cw_calls w + 1"
    by (simp_all add: w1_def w2_def circuit_of_def)
  have f: "ci_failures (circuit_of target w2) = ci_failures (circuit_of target w) + 1"
    "ci_threshold (circuit_of target w2) = ci_threshold (circuit_of target w)" "ci_recovery (circuit_of target w2) = ci_recovery (circuit_of target w)"
    "ci_failures (circuit_of target w2) \<ge> ci_threshold (circuit_of target w2) \<Longrightarrow>
       lo + ci_recovery (circuit_of target w2) \<le> ci_open_until (circuit_of target w2)"
    using c(2) by (auto simp: w2_def on_failure_def record_failure_def settle_view v Let_def split: if_splits)
  show ?case
  proof (cases "left = 0")
    case True
    with Suc.prems m f v show ?thesis by (auto simp: Let_def w2_def [symmetric])
  next
    case False
    with Suc.prems(1,3) m have r: "retry_attempts call target max_retries base_delay True left (Suc attempt) (Some exc)
        (pause (base_delay * 2 ^ attempt) w2) = (res, w')" by (simp add: Let_def w2_def split: if_splits)
    have "circuit_of target (pause d w2) = circuit_of target w2" for d by (simp add: pause_def circuit_of_def)
    note ih = Suc.IH [OF _ _ r, unfolded this f(1-3)]
    show ?thesis using ih Suc.prems(1) False v(2) by (auto simp: f(2,3))
  qed
qed simp

text \<open>A target that is down is shed. If every call to a target times out, a request to it makes its first
  call and all its retries, also when the circuit opens on the way. If they bring the failures to the threshold, no request to
  that target, whatever its own parameters, makes a call until the recovery time has passed since the earliest moment
  at which one of those timeouts can have happened.\<close>

theorem down_target_is_shed:
  assumes "\<And>p. \<exists>exc t p'. call p = ((Net_Timeout exc, t), p') \<and> lo \<le> t"
    and "can_call now (circuit_of target w)" "0 \<le> max_retries"
    and "ci_threshold (circuit_of target w) \<le> ci_failures (circuit_of target w) + max_retries + 1"
    and "0 < lo" "0 \<le> ci_recovery (circuit_of target w)"
    and "retry_request call target max_retries base_delay True now w = (res, w1)"
    and "later < lo + ci_recovery (circuit_of target w)"
  shows "int (cw_calls w1) = int (cw_calls w) + max_retries + 1 \<and> (\<exists>exc. res = Inl (Call_Failed exc))
     \<and> fst (retry_request call' target max_retries' base_delay' idempotent' later w1) = Inl (Circuit_Open target)
     \<and> cw_calls (snd (retry_request call' target max_retries' base_delay' idempotent' later w1)) = cw_calls w1"
proof -
  obtain c w0 where g: "get_circuit target w = (c, w0)" by fastforce
  note w0 = get_circuit_world [OF g, of target]
  have "retry_attempts call target max_retries base_delay True (nat (max_retries + 1)) 0 None w0 = (res, w1)"
    using assms(2,7) g w0 by (simp add: retry_request_def)
  note d = down_attempts [OF assms(1) _ _ this]
  have a: "int (cw_calls w1) = int (cw_calls w) + max_retries + 1" "\<exists>exc. res = Inl (Call_Failed exc)"
    "lo + ci_recovery (circuit_of target w) \<le> ci_open_until (circuit_of target w1)"
    using d assms(3,4) w0 by auto
  have "\<not> can_call later (circuit_of target w1)" using a(3) assms(5,6,8) by (simp add: can_call_def)
  moreover obtain c' w2 where g': "get_circuit target w1 = (c', w2)" by fastforce
  ultimately show ?thesis using a(1,2) get_circuit_world [OF g', of target] by (simp add: retry_request_def)
qed

section \<open>The client and a workcell\<close>

text \<open>
  A link to the instances of a workcell: the verifier of each, the shared records and application, and for every attempt to
  come the instance it reaches, the wall clock there, and whether the reply is lost on the way back. The answer
  where a body is cut off is given.
\<close>

record 'w link =
  lk_verifiers :: "nat \<Rightarrow> verifier_state"
  lk_shared :: "'w idem_world"
  lk_fates :: "(nat \<times> int \<times> bool) list"

definition deliver ::
  "'w http_handler \<Rightarrow> environ \<Rightarrow> app_stack \<Rightarrow> ddb_health \<Rightarrow> string \<Rightarrow> http_response \<Rightarrow> 'w link transport" where
  "deliver handle env stack health trace own_answer url r p =
     (case lk_fates p of
        [] \<Rightarrow> ((Net_Timeout ''ConnectTimeout'', 0), p)
      | (inst, now, lost) # fates \<Rightarrow>
          (let (ans, st, w) = serve handle env stack inst health now trace (on_the_wire r) (lk_verifiers p inst, lk_shared p);
               p = p\<lparr>lk_verifiers := (lk_verifiers p)(inst := st), lk_shared := w, lk_fates := fates\<rparr>
           in ((if lost then Net_Timeout ''ReadTimeout''
                else Reply (None, case ans of Answered resp \<Rightarrow> resp | Cut_Off \<Rightarrow> own_answer), 1000 * now), p)))"

lemma retry_once:
  assumes "can_call now (circuit_of target w)" "1 \<le> max_retries"
    and "call (cw_peer w) = ((Net_Timeout exc, t1), p1)" "call p1 = ((Reply a, t2), p2)"
  shows "fst (retry_request call target max_retries base_delay True now w) = Inr a"
    "cw_peer (snd (retry_request call target max_retries base_delay True now w)) = p2"
proof -
  obtain c w0 where g: "get_circuit target w = (c, w0)" by fastforce
  note w0 = get_circuit_world [OF g, of target]
  define v1 where "v1 = w0\<lparr>cw_peer := p1, cw_calls := cw_calls w0 + 1\<rparr>"
  define w1 where "w1 = pause base_delay (on_failure target t1 v1)"
  define v2 where "v2 = w1\<lparr>cw_peer := p2, cw_calls := cw_calls w1 + 1\<rparr>"
  have m: "make_call call w0 = ((Net_Timeout exc, t1), v1)" "make_call call w1 = ((Reply a, t2), v2)"
    using w0 assms(3,4) by (simp_all add: make_call_def w1_def v1_def v2_def)
  have l: "nat (max_retries + 1) = Suc (Suc (nat (max_retries - 1)))" using assms(2) by simp
  have "retry_request call target max_retries base_delay True now w = (Inr a, on_success target v2)"
    using g w0 assms(1,2) m by (simp add: retry_request_def l Let_def w1_def [symmetric])
  then show "fst (retry_request call target max_retries base_delay True now w) = Inr a"
    "cw_peer (snd (retry_request call target max_retries base_delay True now w)) = p2" by (simp_all add: v2_def)
qed

lemma replay_reply_fits: "\<not> oversized INTER_WORKCELL_MAX_BYTES None (hr_body (reject_reply cfg r 401 ''hmac_nonce_replay''))"
proof -
  have "length (flat_json '','' '':'' [(''error'', ''hmac_nonce_replay'')]) = 29" by code_simp
  then show ?thesis by (simp add: oversized_def reject_reply_def json_reply_def INTER_WORKCELL_MAX_BYTES_def)
qed

text \<open>C33: A lost reply is not retried but refused. The client signs once and resends the same bytes. When a signed post is
  handled and its reply is lost, the next attempt, reaching the same instance, is taken for a replay: the caller is handed a 401
  as the answer to work that was done, and the handler is not called again.\<close>

theorem lost_reply_is_refused_on_retry:
  assumes "build_signed_request env service shared path body None sent nonce = Inr r"
    and "sk_hmac stack = Some cfg" "hc_pinned cfg = None" "hc_shared cfg = shared" "py_startswith path ''/''"
    and "\<not> hmac_exempt cfg r" "nonce \<noteq> []" "within_ceiling env r"
    and "authorize_caller_to_callee env (Some (caller_name service)) (hc_self cfg) None"
    and "lk_fates (cw_peer w) = [(inst, now1, True), (inst, now2, False)]" "lk_verifiers (cw_peer w) inst = st"
    and "\<forall>now \<in> {now1, now2}. now - sent \<le> hc_window cfg \<and> sent - now \<le> FUTURE_SKEW_SECONDS"
    and "\<not> dict_has (nonce_ring (vs_nonces st)) nonce" "0 < nonce_max (vs_nonces st)" "nonces.ring_wf (vs_nonces st)"
    and "can_call tick (circuit_of (join_url base_url path) w)" "1 \<le> retries"
    and "signed_post_json (deliver handle env stack health trace own_answer) env service shared base_url path body retries None sent nonce tick w = (res, w')"
  shows "res = Inr (reject_reply cfg r 401 ''hmac_nonce_replay'')
     \<and> lk_shared (cw_peer w') = snd (call_next handle r (lk_shared (cw_peer w)))"
proof -
  let ?call = "checked_call (deliver handle env stack health trace own_answer (join_url base_url path) r)"
  note b = built_request_headers [OF assms(1)]
  note served = serve_built [OF assms(1-8) _ _ assms(9)]
  have c: "now1 - sent \<le> hc_window cfg" "sent - now1 \<le> FUTURE_SKEW_SECONDS" "now2 - sent \<le> hc_window cfg" "sent - now2 \<le> FUTURE_SKEW_SECONDS"
    using assms(12) by simp_all
  define st1 where "st1 = snd (verify_dispatch cfg env now1 r st)"
  have "verify_dispatch cfg env now1 r st = (Forward (caller_name service), st1)"
    using built_request_verified [OF assms(1,3-7,13) c(1,2)] assms(9) unfolding st1_def by (metis prod.collapse)
  then have kept: "dict_has (nonce_ring (vs_nonces st1)) nonce" using forwarded_nonce_kept [OF _ assms(6,14,15)] b(2) by simp
  define v1 where "v1 = snd (call_next handle r (lk_shared (cw_peer w)))"
  define p1 where "p1 = (cw_peer w)\<lparr>lk_verifiers := (lk_verifiers (cw_peer w))(inst := st1), lk_shared := v1, lk_fates := [(inst, now2, False)]\<rparr>"
  have c1: "?call (cw_peer w) = ((Net_Timeout ''ReadTimeout'', 1000 * now1), p1)"
    using served(1) [OF c(1,2) assms(13), of handle inst health trace "lk_shared (cw_peer w)"] assms(10,11)
    by (simp add: checked_call_def deliver_def p1_def v1_def st1_def)
  have c2: "?call p1 = ((Reply (reject_reply cfg r 401 ''hmac_nonce_replay''), 1000 * now2), p1\<lparr>lk_fates := []\<rparr>)"
    using served(2) [OF c(3,4) kept, of handle inst health trace v1]
    by (simp add: checked_call_def deliver_def p1_def replay_reply_fits fun_upd_idem)
  have "res = Inr (reject_reply cfg r 401 ''hmac_nonce_replay'') \<and> cw_peer w' = p1\<lparr>lk_fates := []\<rparr>"
    using retry_once [OF assms(16,17) c1 c2, of 500] assms(18) by (simp add: signed_post_json_def assms(1) Let_def)
  then show ?thesis by (simp add: p1_def v1_def)
qed

text \<open>Another instance runs it again. The nonce ring is each instance's own: when the attempt after the lost reply reaches
  another instance, the handler is called a second time for the one signed request, and the caller gets the second answer.\<close>

theorem lost_reply_runs_again_elsewhere:
  assumes "build_signed_request env service shared path body None sent nonce = Inr r"
    and "sk_hmac stack = Some cfg" "hc_pinned cfg = None" "hc_shared cfg = shared" "py_startswith path ''/''"
    and "\<not> hmac_exempt cfg r" "nonce \<noteq> []" "within_ceiling env r"
    and "authorize_caller_to_callee env (Some (caller_name service)) (hc_self cfg) None"
    and "lk_fates (cw_peer w) = [(inst, now1, True), (inst', now2, False)]" "inst \<noteq> inst'"
    and "\<forall>now \<in> {now1, now2}. now - sent \<le> hc_window cfg \<and> sent - now \<le> FUTURE_SKEW_SECONDS"
    and "\<forall>i \<in> {inst, inst'}. \<not> dict_has (nonce_ring (vs_nonces (lk_verifiers (cw_peer w) i))) nonce"
    and "handle r (iw_app (lk_shared (cw_peer w))) = (Inr resp, app1)" "handle r app1 = (Inr resp', app2)"
    and "\<not> oversized INTER_WORKCELL_MAX_BYTES None (hr_body resp')"
    and "can_call tick (circuit_of (join_url base_url path) w)" "1 \<le> retries"
    and "signed_post_json (deliver handle env stack health trace own_answer) env service shared base_url path body retries None sent nonce tick w = (res, w')"
  shows "res = Inr resp' \<and> iw_log (lk_shared (cw_peer w')) = iw_log (lk_shared (cw_peer w)) @ [r, r] \<and> iw_app (lk_shared (cw_peer w')) = app2"
proof -
  let ?call = "checked_call (deliver handle env stack health trace own_answer (join_url base_url path) r)"
  note served = serve_built [OF assms(1-8) _ _ assms(9)]
  have c: "now1 - sent \<le> hc_window cfg" "sent - now1 \<le> FUTURE_SKEW_SECONDS" "now2 - sent \<le> hc_window cfg" "sent - now2 \<le> FUTURE_SKEW_SECONDS"
    using assms(12) by simp_all
  define v0 where "v0 = lk_shared (cw_peer w)"
  define v1 where "v1 = v0\<lparr>iw_app := app1, iw_log := iw_log v0 @ [r]\<rparr>"
  define v2 where "v2 = v1\<lparr>iw_app := app2, iw_log := iw_log v1 @ [r]\<rparr>"
  have n: "snd (call_next handle r v0) = v1" "snd (call_next handle r v1) = v2"
    using assms(14,15) by (simp_all add: call_next_def v0_def v1_def v2_def)
  define st1 where "st1 = snd (verify_dispatch cfg env now1 r (lk_verifiers (cw_peer w) inst))"
  define st2 where "st2 = snd (verify_dispatch cfg env now2 r (lk_verifiers (cw_peer w) inst'))"
  define p1 where "p1 = (cw_peer w)\<lparr>lk_verifiers := (lk_verifiers (cw_peer w))(inst := st1), lk_shared := v1, lk_fates := [(inst', now2, False)]\<rparr>"
  define p2 where "p2 = p1\<lparr>lk_verifiers := (lk_verifiers p1)(inst' := st2), lk_shared := v2, lk_fates := []\<rparr>"
  have new: "\<not> dict_has (nonce_ring (vs_nonces (lk_verifiers (cw_peer w) inst))) nonce" "\<not> dict_has (nonce_ring (vs_nonces (lk_verifiers (cw_peer w) inst'))) nonce"
    using assms(13) by simp_all
  have c1: "?call (cw_peer w) = ((Net_Timeout ''ReadTimeout'', 1000 * now1), p1)"
    using served(1) [OF c(1,2) new(1), of handle inst health trace v0] assms(10) n(1)
    by (simp add: checked_call_def deliver_def p1_def v0_def [symmetric] st1_def)
  have c2: "?call p1 = ((Reply resp', 1000 * now2), p2)"
    using served(1) [OF c(3,4) new(2), of handle inst' health trace v1] assms(11,15,16) n(2)
    by (simp add: checked_call_def deliver_def p2_def p1_def st2_def v1_def)
  have "res = Inr resp' \<and> cw_peer w' = p2"
    using retry_once [OF assms(17,18) c1 c2, of 500] assms(19) by (simp add: signed_post_json_def assms(1) Let_def)
  then show ?thesis by (simp add: p2_def v2_def v1_def v0_def)
qed

section \<open>Instances\<close>

definition demo_client :: "'w \<Rightarrow> 'w client_world" where
  "demo_client p = \<lparr>cw_circuits = [], cw_notices = [], cw_slept = [], cw_calls = 0, cw_peer = p\<rparr>"

definition down_call :: "(http_response, nat) peer_call" where
  "down_call p = ((Net_Timeout ''ConnectTimeout'', 1000 + int p), Suc p)"

definition up_call :: "(http_response, nat) peer_call" where
  "up_call p = ((Reply (json_reply 200 []), 40000), p)"

lemma demo_circuit: "circuit_of t (demo_client p) = new_circuit"
  by (simp add: circuit_of_def demo_client_def)

theorem retry_request_is_bounded_witness:
  "\<exists>n. int n \<le> 3 \<and> cw_slept (snd (retry_request down_call ''crm'' 3 500 True 0 (demo_client 0))) = map (\<lambda>i. 500 * 2 ^ i) [0 ..< n]"
  using retry_request_is_bounded [of down_call "''crm''" 3 500 True 0 "demo_client 0"]
  by (cases "retry_request down_call ''crm'' 3 500 True 0 (demo_client 0)")
     (auto simp: demo_circuit can_call_def new_circuit_def, auto simp: demo_client_def)

text \<open>Five calls to a dead target, then one that answers: one failure and one recovery are announced.\<close>

theorem health_transitions_alternate_witness:
  "alternating True (notices_of ''crm'' (fold retry_step
     [(down_call, ''crm'', 4, 500, True, 0), (up_call, ''crm'', 3, 500, True, 39000)] (demo_client 0)))"
  using health_transitions_alternate [of "demo_client 0" "[(down_call, ''crm'', 4, 500, True, 0), (up_call, ''crm'', 3, 500, True, 39000)]"]
  by (simp add: demo_client_def down_call_def up_call_def)

theorem down_target_is_shed_witness:
  "fst (retry_request up_call ''crm'' 3 500 True 30999 (snd (retry_request down_call ''crm'' 4 500 True 0 (demo_client 0)))) = Inl (Circuit_Open ''crm'')"
proof -
  have d: "\<exists>exc t p'. down_call p = ((Net_Timeout exc, t), p') \<and> 1000 \<le> t" for p by (simp add: down_call_def)
  obtain res w1 where r: "retry_request down_call ''crm'' 4 500 True 0 (demo_client 0) = (res, w1)" by fastforce
  from down_target_is_shed [OF d _ _ _ _ _ r, of 30999 up_call 3 500 True] show ?thesis
    by (simp add: r demo_circuit can_call_def new_circuit_def)
qed

definition crm_link :: "nat \<Rightarrow> nat link" where
  "crm_link second = \<lparr>lk_verifiers = (\<lambda>i. w_state), lk_shared = demo_idem, lk_fates = [(0, 1002, True), (second, 1003, False)]\<rparr>"

lemma crm_link_fields: "lk_fates (cw_peer (demo_client (crm_link k))) = [(0, 1002, True), (k, 1003, False)]"
  "lk_verifiers (cw_peer (demo_client (crm_link k))) i = w_state" "lk_shared (cw_peer (demo_client (crm_link k))) = demo_idem"
  by (simp_all add: crm_link_def demo_client_def)

definition post_to_crm :: "nat \<Rightarrow> (retry_error + http_response) \<times> nat link client_world" where
  "post_to_crm k = signed_post_json (deliver demo_handler w_env crm_stack all_working ''t'' (json_reply 200 [])) w_env ''voice'' ''shared''
     ''http://crm'' ''/work'' ''{}'' 3 None 1000 ''n1'' 0 (demo_client (crm_link k))"

lemma crm_verifier: "0 < nonce_max (vs_nonces w_state)" "nonces.ring_wf (vs_nonces w_state)"
  by (simp_all add: w_state_def nonce_init_wf) (simp add: nonce_init_def)

lemmas crm_posted = w_built_voice crm_stack_cfg w_facts(1-3) w_facts(5)

theorem lost_reply_is_refused_on_retry_witness:
  "fst (post_to_crm 0) = Inr (reject_reply w_cfg (w_genuine ''voice'') 401 ''hmac_nonce_replay'')
   \<and> iw_log (lk_shared (cw_peer (snd (post_to_crm 0)))) = [w_genuine ''voice'']"
proof -
  obtain res w' where p: "post_to_crm 0 = (res, w')" by fastforce
  have "can_call 0 (circuit_of t (demo_client (crm_link 0)))" for t by (simp add: demo_circuit can_call_def new_circuit_def)
  from lost_reply_is_refused_on_retry [OF crm_posted _ crm_within_ceiling _ crm_link_fields(1) crm_link_fields(2) _ w_facts(6) crm_verifier this _ p [unfolded post_to_crm_def]]
  have "res = Inr (reject_reply w_cfg (w_genuine ''voice'') 401 ''hmac_nonce_replay'')
     \<and> lk_shared (cw_peer w') = snd (call_next demo_handler (w_genuine ''voice'') demo_idem)"
    by (simp add: w_facts w_names w_voice_reaches_crm FUTURE_SKEW_SECONDS_def crm_link_fields)
  then show ?thesis by (simp add: p call_next_def demo_idem_def split: prod.splits)
qed

lemma demo_handles_work: "demo_handler (w_genuine ''voice'') n = (Inr \<lparr>hr_status = 200, hr_body = ''/work'', hr_ctype = ''text'', hr_headers = []\<rparr>, Suc n)"
  by (simp add: demo_handler_def w_genuine_def w_signed_def)

theorem lost_reply_runs_again_elsewhere_witness:
  "fst (post_to_crm 1) = Inr \<lparr>hr_status = 200, hr_body = ''/work'', hr_ctype = ''text'', hr_headers = []\<rparr>
   \<and> iw_log (lk_shared (cw_peer (snd (post_to_crm 1)))) = [w_genuine ''voice'', w_genuine ''voice'']
   \<and> iw_app (lk_shared (cw_peer (snd (post_to_crm 1)))) = 2"
proof -
  obtain res w' where p: "post_to_crm 1 = (res, w')" by fastforce
  have c: "can_call 0 (circuit_of t (demo_client (crm_link 1)))" for t :: string by (simp add: demo_circuit can_call_def new_circuit_def)
  have d: "iw_app demo_idem = 0" "iw_log demo_idem = []" by (simp_all add: demo_idem_def)
  from lost_reply_runs_again_elsewhere [OF crm_posted _ crm_within_ceiling _ crm_link_fields(1) _ _ _ demo_handles_work demo_handles_work _ c _ p [unfolded post_to_crm_def]]
  show ?thesis unfolding p
    by (simp add: d w_facts w_names w_voice_reaches_crm FUTURE_SKEW_SECONDS_def crm_link_fields oversized_def INTER_WORKCELL_MAX_BYTES_def)
qed

end
