(* ===== verification/Llm_Client.thy ===== *)
theory Llm_Client
  imports Llm_Budget Llm_Global Retry_Circuit
begin

text \<open>
  The one door to a language model, \<open>anthropic_messages\<close> of \<open>common/llm_client.py\<close>: model floor, dollar cap, token budget and the
  reservation at the resource broker (\<open>common/broker_client.py\<close>) before the HTTP call, and the bookkeeping after it. What
  the model server and the broker answer is given, with the parsed body; signing of the broker's envelope either works or
  does not. A number of a reply is an integer or a text that \<open>float\<close> takes. Telemetry is left out.
\<close>

section \<open>Replies\<close>

datatype http_outcome = Transport_Error string | Http_Response int "string option" string "json option"

definition LLM_MAX_BYTES :: int where "LLM_MAX_BYTES = 16 * 1024 * 1024"
definition BROKER_MAX_BYTES :: int where "BROKER_MAX_BYTES = 1 * 1024 * 1024"

definition extract_text :: "json \<Rightarrow> string reading" where
  "extract_text payload =
     (case get_or payload ''choices'' (JList []) of
        Got (JList (c # cs)) \<Rightarrow>
          (case get_or (if json_truthy c then c else JObj []) ''message'' (JObj []) of
             Got message \<Rightarrow>
               (case get_or message ''content'' (JStr []) of
                  Got (JStr s) \<Rightarrow> (let answer = py_strip s in if answer = [] then Call_Error ''llm response has no text content'' else Got answer)
                | _ \<Rightarrow> Crash)
           | _ \<Rightarrow> Crash)
      | Got _ \<Rightarrow> Call_Error ''llm response has no choices''
      | _ \<Rightarrow> Crash)"

definition json_int :: "json \<Rightarrow> int option" where
  "json_int v = (case v of JInt i \<Rightarrow> Some i | JBool b \<Rightarrow> Some (if b then 1 else 0) | JStr s \<Rightarrow> py_int s | _ \<Rightarrow> None)"

definition token_count :: "(string \<times> json) list \<Rightarrow> string \<Rightarrow> int reading" where
  "token_count usage k =
     (let x = dict_get usage k (JInt 0) in 
      if json_truthy x then (case json_int x of Some n \<Rightarrow> Got n | None \<Rightarrow> (case x of JStr s \<Rightarrow> Value_Error | _ \<Rightarrow> Crash)) else Got 0)"

definition extract_usage :: "json \<Rightarrow> (int \<times> int) reading" where
  "extract_usage payload =
     (case get_or payload ''usage'' (JObj []) of
        Got (JObj usage) \<Rightarrow>
          (case token_count usage ''prompt_tokens'' of
             Got i \<Rightarrow> (case token_count usage ''completion_tokens'' of Got k \<Rightarrow> Got (i, k) | Value_Error \<Rightarrow> Value_Error | _ \<Rightarrow> Crash)
           | Value_Error \<Rightarrow> Value_Error
           | _ \<Rightarrow> Crash)
      | Got _ \<Rightarrow> Got (0, 0)
      | _ \<Rightarrow> Crash)"

section \<open>The resource broker\<close>

record broker_config =
  br_enabled :: bool
  br_overrides :: "(string \<times> json) list option"

text \<open>What a reservation is asked with; the time of the request goes with it.\<close>

record reserve_payload =
  rp_kind :: string
  rp_cost :: rat
  rp_priority :: int
  rp_workcell :: string

record reservation =
  rv_id :: string
  rv_cost :: rat
  rv_expires :: rat
  rv_priority :: int

definition BROKER_PRIORITY_BY_WORKCELL_CLASS :: "(string \<times> int) list" where
  "BROKER_PRIORITY_BY_WORKCELL_CLASS = [(''prospecting'', 5), (''outreach'', 5), (''fulfillment'', 3), (''voice'', 4)]"

definition DEFAULT_BROKER_PRIORITY :: int where "DEFAULT_BROKER_PRIORITY = 5"

definition workcell_priority_for :: "broker_config \<Rightarrow> string \<Rightarrow> int" where
  "workcell_priority_for cfg workcell =
     (if workcell = [] then DEFAULT_BROKER_PRIORITY
      else
        (let cleaned = py_lower (py_strip workcell);
             override = (case br_overrides cfg of None \<Rightarrow> None
               | Some overrides \<Rightarrow>
                   (case map_of overrides cleaned of Some v \<Rightarrow> json_int v
                    | None \<Rightarrow> (case find (\<lambda>(k, v). py_startswith cleaned (py_lower k)) overrides of Some (k, v) \<Rightarrow> json_int v | None \<Rightarrow> None)))
         in case override of Some n \<Rightarrow> n
            | None \<Rightarrow>
                (case find (\<lambda>(c, n). cleaned = c \<or> py_startswith cleaned (c @ ''_'') \<or> py_startswith cleaned (c @ ''-'')) BROKER_PRIORITY_BY_WORKCELL_CLASS of
                   Some (c, n) \<Rightarrow> n | None \<Rightarrow> DEFAULT_BROKER_PRIORITY)))"

definition DISABLED_RESERVATION_ID :: string where "DISABLED_RESERVATION_ID = ''broker-disabled-dummy''"

definition json_number :: "(string \<Rightarrow> rat option) \<Rightarrow> json \<Rightarrow> rat option" where
  "json_number to_float v =
     (case v of JInt i \<Rightarrow> Some (of_int i) | JBool b \<Rightarrow> Some (if b then 1 else 0) | JStr s \<Rightarrow> to_float s | _ \<Rightarrow> None)"

definition grant_of :: "(string \<Rightarrow> rat option) \<Rightarrow> int \<Rightarrow> (string \<times> json) list \<Rightarrow> reservation option" where
  "grant_of to_float priority body =
     (case (map_of body ''reservation_id'', Option.bind (map_of body ''granted_cost'') (json_number to_float),
            Option.bind (map_of body ''expires_at'') (json_number to_float), json_int (dict_get body ''priority'' (JInt priority))) of
        (Some i, Some c, Some e, Some p) \<Rightarrow> Some \<lparr>rv_id = json_text i, rv_cost = c, rv_expires = e, rv_priority = p\<rparr>
      | _ \<Rightarrow> None)"

text \<open>A refusal's reason: the body's \<open>detail\<close>, or the body itself when it has none.\<close>

definition deny_reason :: "json option \<Rightarrow> string" where
  "deny_reason payload =
     (case payload of
        Some (JObj body) \<Rightarrow>
          (case dict_get body ''detail'' (JObj body) of
             JObj detail \<Rightarrow> json_text (dict_get detail ''reason'' (JStr ''broker_denied'')) | _ \<Rightarrow> ''broker_denied'')
      | _ \<Rightarrow> ''broker_denied'')"

text \<open>\<open>broker\<close> is the broker's answer to the request it is sent.\<close>

definition reserve ::
  "broker_config \<Rightarrow> (string \<Rightarrow> rat option) \<Rightarrow> bool \<Rightarrow> (reserve_payload \<Rightarrow> http_outcome) \<Rightarrow> rat \<Rightarrow> reserve_payload \<Rightarrow> string + reservation" where
  "reserve cfg to_float envelope_built broker now payload =
     (if \<not> br_enabled cfg
      then Inr \<lparr>rv_id = DISABLED_RESERVATION_ID, rv_cost = rp_cost payload, rv_expires = now + 300, rv_priority = rp_priority payload\<rparr>
      else if \<not> envelope_built then Inl ''broker_unreachable''
      else (case broker payload of
          Transport_Error exc \<Rightarrow> Inl ''broker_unreachable''
        | Http_Response code declared content reply \<Rightarrow>
            if oversized BROKER_MAX_BYTES declared content then Inl ''server_error''
            else if code = 200
            then (case reply of
                Some (JObj body) \<Rightarrow> (case grant_of to_float (rp_priority payload) body of Some g \<Rightarrow> Inr g | None \<Rightarrow> Inl ''server_error'')
              | _ \<Rightarrow> Inl ''server_error'')
            else if code = 409 then Inl (deny_reason reply)
            else Inl ''server_error''))"

lemma reserve_granted:
  assumes "reserve cfg to_float built broker now payload = Inr rv" "br_enabled cfg"
  obtains declared content body where "built" "broker payload = Http_Response 200 declared content (Some (JObj body))"
    "grant_of to_float (rp_priority payload) body = Some rv"
  using assms by (auto simp: reserve_def split: if_splits http_outcome.splits option.splits json.splits)

section \<open>The call\<close>

record llm_config =
  lc_openai :: bool
  lc_free :: string
  lc_budget :: budget_config
  lc_global_ddb :: bool
  lc_cap :: rat
  lc_broker :: broker_config

text \<open>The two budgets, the models of the paid HTTP calls made, the number of free ones, and the releases sent to the broker.\<close>

record llm_world =
  lw_tokens :: budgets
  lw_dollars :: dollars
  lw_posts :: "string list"
  lw_local :: nat
  lw_released :: "(string \<times> rat \<times> string) list"

datatype llm_error =
    Empty_Prompt | Model_Not_Permitted string | Global_Budget_Exceeded global_decision | Budget_Exceeded quota_decision
  | Llm_Call_Error string | Uncaught

definition free_workcells :: "string \<Rightarrow> string list" where
  "free_workcells raw = filter (\<lambda>w. w \<noteq> []) (map py_strip (split_on (CHR '','') raw))"

definition expensive_model :: "string \<Rightarrow> bool" where
  "expensive_model m \<longleftrightarrow>
     (py_startswith m ''gpt-4.1'' \<and> \<not> py_startswith (drop 7 m) ''-mini'' \<and> \<not> py_startswith (drop 7 m) ''-nano'')
     \<or> (case m of c # d # rest \<Rightarrow> c = CHR ''o'' \<and> d \<in> set ''123456789'' | _ \<Rightarrow> False)"

definition check_model_floor :: "llm_config \<Rightarrow> string \<Rightarrow> bool \<Rightarrow> bool" where
  "check_model_floor cfg model allow_expensive \<longleftrightarrow> \<not> lc_openai cfg \<or> allow_expensive \<or> \<not> expensive_model model"

definition estimate_split :: "string \<Rightarrow> int \<Rightarrow> int \<times> int" where
  "estimate_split prompt max_tokens = (max 1 (int (length prompt) div 4), max 0 max_tokens)"

definition estimate_tokens :: "string \<Rightarrow> int \<Rightarrow> int" where
  "estimate_tokens prompt max_tokens = (let (i, k) = estimate_split prompt max_tokens in i + k)"

text \<open>What the reply means: the answer with its token counts, or the error, or an exception that nothing catches.\<close>

definition read_reply :: "http_outcome \<Rightarrow> (string \<times> int \<times> int) reading" where
  "read_reply reply =
     (case reply of
        Transport_Error exc \<Rightarrow> Call_Error ''llm_transport_error''
      | Http_Response code declared content payload \<Rightarrow>
          if oversized LLM_MAX_BYTES declared content then Call_Error ''llm_response_too_large''
          else if code \<ge> 400 then Call_Error (''llm_http_'' @ show_int code)
          else (case payload of
              None \<Rightarrow> Call_Error ''llm_invalid_json''
            | Some v \<Rightarrow>
                (case extract_text v of
                   Call_Error e \<Rightarrow> Call_Error e
                 | Value_Error \<Rightarrow> Value_Error
                 | Crash \<Rightarrow> Crash
                 | Got answer \<Rightarrow>
                     (case extract_usage v of
                        Got (i, k) \<Rightarrow> Got (answer, i, k) | Call_Error e \<Rightarrow> Call_Error e | Value_Error \<Rightarrow> Value_Error | Crash \<Rightarrow> Crash))))"

definition complete_free_local :: "http_outcome \<Rightarrow> llm_world \<Rightarrow> (llm_error + string \<times> int \<times> int) \<times> llm_world" where
  "complete_free_local reply w =
     ((case read_reply reply of
         Got a \<Rightarrow> Inr a
       | Call_Error e \<Rightarrow> Inl (Llm_Call_Error (if py_startswith e ''llm response'' then ''llm_invalid_json'' else e))
       | Value_Error \<Rightarrow> Inl (Llm_Call_Error ''llm_invalid_json'')
       | Crash \<Rightarrow> Inl Uncaught),
      w\<lparr>lw_local := lw_local w + 1\<rparr>)"

definition release_broker :: "llm_config \<Rightarrow> reservation \<Rightarrow> rat \<Rightarrow> string \<Rightarrow> llm_world \<Rightarrow> llm_world" where
  "release_broker cfg rv cost oc w =
     (if rv_id rv = DISABLED_RESERVATION_ID \<or> \<not> br_enabled (lc_broker cfg) then w
      else w\<lparr>lw_released := lw_released w @ [(rv_id rv, cost, oc)]\<rparr>)"

definition book_tokens :: "llm_config \<Rightarrow> store_reach \<Rightarrow> rat \<Rightarrow> string \<Rightarrow> int \<Rightarrow> int \<Rightarrow> outcome \<Rightarrow> llm_world \<Rightarrow> llm_world" where
  "book_tokens cfg h now workcell inp out oc w =
     w\<lparr>lw_tokens := snd (record_spend (lc_budget cfg) h now workcell inp out oc (lw_tokens w))\<rparr>"

definition book_dollars :: "llm_config \<Rightarrow> store_reach \<Rightarrow> rat \<Rightarrow> string \<Rightarrow> int \<Rightarrow> int \<Rightarrow> llm_world \<Rightarrow> llm_world" where
  "book_dollars cfg h now model inp out w =
     w\<lparr>lw_dollars := snd (record_spend_global (lc_global_ddb cfg) h now model inp out 0 0 (lw_dollars w))\<rparr>"

definition after_call ::
  "llm_config \<Rightarrow> store_reach \<Rightarrow> rat \<Rightarrow> string \<Rightarrow> string \<Rightarrow> reservation \<Rightarrow> http_outcome \<Rightarrow> llm_world \<Rightarrow> (llm_error + string \<times> int \<times> int) \<times> llm_world" where
  "after_call cfg h now workcell model rv reply w =
     (case read_reply reply of
        Call_Error e \<Rightarrow> (Inl (Llm_Call_Error e), release_broker cfg rv 0 ''error'' (book_tokens cfg h now workcell 0 0 Error w))
      | Value_Error \<Rightarrow> (Inl Uncaught, w)
      | Crash \<Rightarrow> (Inl Uncaught, w)
      | Got (answer, inp, out) \<Rightarrow>
          (let w = book_tokens cfg h now workcell inp out Success w;
               cost = (if lc_openai cfg then cost_from_usage model [(''input_tokens'', inp), (''output_tokens'', out)] else 0);
               w = release_broker cfg rv cost ''ok'' w
           in (Inr (answer, inp, out), book_dollars cfg h now model inp out w)))"

record llm_request =
  lr_workcell :: string
  lr_prompt :: string
  lr_system :: string
  lr_model :: string
  lr_max_tokens :: int
  lr_estimated :: "int option"
  lr_allow_expensive :: bool
  lr_prefer_local :: bool

text \<open>The reservation for a call: at the cost that the dollar gate has estimated for it.\<close>

definition llm_reservation :: "llm_config \<Rightarrow> llm_request \<Rightarrow> global_decision \<Rightarrow> reserve_payload" where
  "llm_reservation cfg q g =
     \<lparr>rp_kind = ''llm_tokens'', rp_cost = gd_estimated g, rp_priority = workcell_priority_for (lc_broker cfg) (lr_workcell q),
      rp_workcell = lr_workcell q\<rparr>"

text \<open>The clock is read when the call is checked and when it is booked.\<close>

definition anthropic_messages ::
  "llm_config \<Rightarrow> (string \<Rightarrow> rat option) \<Rightarrow> bool \<Rightarrow> (reserve_payload \<Rightarrow> http_outcome) \<Rightarrow> http_outcome \<Rightarrow> store_reach \<Rightarrow> rat \<Rightarrow> rat \<Rightarrow> llm_request \<Rightarrow> llm_world
     \<Rightarrow> (llm_error + string \<times> int \<times> int) \<times> llm_world" where
  "anthropic_messages cfg to_float envelope_built broker llm_reply h asked done_at q w =
     (if lr_prompt q = [] then (Inl Empty_Prompt, w)
      else if \<not> check_model_floor cfg (lr_model q) (lr_allow_expensive q) then (Inl (Model_Not_Permitted (lr_model q)), w)
      else
        (let full = lr_system q @ lr_prompt q;
             est = (case lr_estimated q of Some n \<Rightarrow> n | None \<Rightarrow> estimate_tokens full (lr_max_tokens q));
             (est_in, est_out) = estimate_split full (lr_max_tokens q) in
         if lr_prefer_local q \<or> lr_workcell q \<in> set (free_workcells (lc_free cfg)) then complete_free_local llm_reply w
         else
           (let (g, dollars) = can_spend_global (lc_global_ddb cfg) (lc_cap cfg) h asked (lr_model q) est_in est_out (lw_dollars w);
                w = w\<lparr>lw_dollars := dollars\<rparr> in
            if \<not> gd_allowed g then (Inl (Global_Budget_Exceeded g), w)
            else
              (let (d, tokens) = can_spend (lc_budget cfg) h asked (lr_workcell q) est (lw_tokens w);
                   w = w\<lparr>lw_tokens := tokens\<rparr> in
               if \<not> qd_allowed d then (Inl (Budget_Exceeded d), w)
               else
                 (case reserve (lc_broker cfg) to_float envelope_built broker asked (llm_reservation cfg q g) of
                    Inl reason \<Rightarrow> (Inl (Budget_Exceeded (d\<lparr>qd_allowed := False, qd_reason := Some (Broker_Said reason)\<rparr>)), w)
                  | Inr rv \<Rightarrow>
                      after_call cfg h done_at (lr_workcell q) (lr_model q) rv llm_reply
                        (w\<lparr>lw_posts := lw_posts w @ [lr_model q]\<rparr>))))))"

definition record_outcome :: "llm_config \<Rightarrow> store_reach \<Rightarrow> rat \<Rightarrow> string \<Rightarrow> outcome \<Rightarrow> llm_world \<Rightarrow> string + llm_world" where
  "record_outcome cfg h now workcell oc w =
     (case oc of Unknown_Outcome x \<Rightarrow> Inl x | _ \<Rightarrow> Inr (book_tokens cfg h now workcell 0 0 oc w))"

section \<open>Nothing goes out unchecked, nothing stays unsettled\<close>

lemma after_call_posts: "lw_posts (snd (after_call cfg h now workcell model rv reply w)) = lw_posts w"
  by (auto simp: after_call_def book_tokens_def book_dollars_def release_broker_def Let_def split: reading.splits prod.splits)

text \<open>The ways a call goes.\<close>

lemma anthropic_messages_cases:
  assumes "anthropic_messages cfg to_float built broker lreply h asked done_at q w = (res, w')"
  obtains
    (Free) "lr_prefer_local q \<or> lr_workcell q \<in> set (free_workcells (lc_free cfg))" "lr_prompt q \<noteq> []"
      "(res, w') = complete_free_local lreply w"
  | (Refused) tokens dollars where "w' = w\<lparr>lw_tokens := tokens, lw_dollars := dollars\<rparr>"
      "res \<in> {Inl Empty_Prompt, Inl (Model_Not_Permitted (lr_model q))} \<or> (\<exists>g. res = Inl (Global_Budget_Exceeded g)) \<or> (\<exists>d. res = Inl (Budget_Exceeded d))"
      "tokens = lw_tokens w \<or> (\<exists>est. tokens = snd (can_spend (lc_budget cfg) h asked (lr_workcell q) est (lw_tokens w)))"
      "dollars = lw_dollars w \<or> (\<exists>i k. dollars = snd (can_spend_global (lc_global_ddb cfg) (lc_cap cfg) h asked (lr_model q) i k (lw_dollars w)))"
  | (Sent) g dollars d tokens rv est est_in est_out where "lr_prompt q \<noteq> []" "check_model_floor cfg (lr_model q) (lr_allow_expensive q)"
      "\<not> lr_prefer_local q" "lr_workcell q \<notin> set (free_workcells (lc_free cfg))"
      "can_spend_global (lc_global_ddb cfg) (lc_cap cfg) h asked (lr_model q) est_in est_out (lw_dollars w) = (g, dollars)" "gd_allowed g"
      "can_spend (lc_budget cfg) h asked (lr_workcell q) est (lw_tokens w) = (d, tokens)" "qd_allowed d"
      "reserve (lc_broker cfg) to_float built broker asked (llm_reservation cfg q g) = Inr rv"
      "(res, w') = after_call cfg h done_at (lr_workcell q) (lr_model q) rv lreply
         (w\<lparr>lw_dollars := dollars, lw_tokens := tokens, lw_posts := lw_posts w @ [lr_model q]\<rparr>)"
      "est_in = max 1 (int (length (lr_system q @ lr_prompt q)) div 4)" "est_out = max 0 (lr_max_tokens q)"
      "est = (case lr_estimated q of Some n \<Rightarrow> n | None \<Rightarrow> est_in + est_out)"
proof -
  define full where "full = lr_system q @ lr_prompt q"
  define est where "est = (case lr_estimated q of Some n \<Rightarrow> n | None \<Rightarrow> estimate_tokens full (lr_max_tokens q))"
  obtain est_in est_out where e: "estimate_split full (lr_max_tokens q) = (est_in, est_out)" by fastforce
  obtain g dollars where g: "can_spend_global (lc_global_ddb cfg) (lc_cap cfg) h asked (lr_model q) est_in est_out (lw_dollars w) = (g, dollars)" by fastforce
  obtain d tokens where d: "can_spend (lc_budget cfg) h asked (lr_workcell q) est (lw_tokens w) = (d, tokens)" by fastforce
  have seen: "\<exists>i k. dollars = snd (can_spend_global (lc_global_ddb cfg) (lc_cap cfg) h asked (lr_model q) i k (lw_dollars w))"
    "\<exists>est. tokens = snd (can_spend (lc_budget cfg) h asked (lr_workcell q) est (lw_tokens w))"
    using g d by (metis snd_conv)+
  have sizes: "est_in = max 1 (int (length (lr_system q @ lr_prompt q)) div 4)" "est_out = max 0 (lr_max_tokens q)"
    "est = (case lr_estimated q of Some n \<Rightarrow> n | None \<Rightarrow> est_in + est_out)"
    using e by (auto simp: estimate_split_def estimate_tokens_def full_def est_def split: option.split)
  note m = assms [unfolded anthropic_messages_def Let_def, folded full_def, folded est_def, unfolded e prod.case g]
  show ?thesis
  proof (cases "lr_prompt q = [] \<or> \<not> check_model_floor cfg (lr_model q) (lr_allow_expensive q)")
    case True
    with m show ?thesis by (intro Refused [where tokens = "lw_tokens w" and dollars = "lw_dollars w"]) (auto split: if_splits)
  next
    case ok: False
    show ?thesis
    proof (cases "lr_prefer_local q \<or> lr_workcell q \<in> set (free_workcells (lc_free cfg))")
      case True
      with ok m show ?thesis by (intro Free) auto
    next
      case paid: False
      show ?thesis
      proof (cases "gd_allowed g")
        case False
        with ok paid m g show ?thesis by (intro Refused [where tokens = "lw_tokens w" and dollars = dollars]) (auto simp: seen)
      next
        case allowed: True
        show ?thesis
        proof (cases "qd_allowed d")
          case False
          with ok paid allowed m d g show ?thesis
            by (intro Refused [where tokens = tokens and dollars = dollars]) (auto simp: seen)
        next
          case True
          show ?thesis
          proof (cases "reserve (lc_broker cfg) to_float built broker asked (llm_reservation cfg q g)")
            case (Inl reason)
            with ok paid allowed True m d g show ?thesis
              by (intro Refused [where tokens = tokens and dollars = dollars]) (auto simp: seen)
          next
            case (Inr rv)
            with ok paid allowed True m d g show ?thesis by (intro Sent [OF _ _ _ _ g _ d _ Inr]) (auto simp: sizes)
          qed
        qed
      qed
    qed
  qed
qed

text \<open>C15: No paid call without every gate. If a call of the language-model door makes a paid HTTP request, it makes exactly one,
  and then the prompt is not empty and the model is within the floor or the caller opted in; the dollar cap has allowed the
  model at the size of this call (a quarter of the characters of system text and prompt as input tokens, the requested
  maximum as output tokens); the workcell's token budget has allowed the same size, or the caller's own estimate where
  one is given; and with the broker on, the broker was asked to reserve the cost that the dollar gate had estimated, for
  this workcell, and answered with a grant.\<close>

theorem paid_call_passed_every_gate:
  assumes "anthropic_messages cfg to_float built broker lreply h asked done_at q w = (res, w')" "lw_posts w' \<noteq> lw_posts w"
    and "i = max 1 (int (length (lr_system q @ lr_prompt q)) div 4)" "k = max 0 (lr_max_tokens q)"
    and "g = fst (can_spend_global (lc_global_ddb cfg) (lc_cap cfg) h asked (lr_model q) i k (lw_dollars w))"
    and "d = fst (can_spend (lc_budget cfg) h asked (lr_workcell q) (case lr_estimated q of Some n \<Rightarrow> n | None \<Rightarrow> i + k) (lw_tokens w))"
    and "prio = workcell_priority_for (lc_broker cfg) (lr_workcell q)"
  shows "lw_posts w' = lw_posts w @ [lr_model q] \<and> lr_prompt q \<noteq> []
    \<and> (lc_openai cfg \<longrightarrow> lr_allow_expensive q \<or> \<not> expensive_model (lr_model q))
    \<and> gd_allowed g \<and> qd_allowed d
    \<and> (br_enabled (lc_broker cfg) \<longrightarrow> built \<and> (\<exists>declared content body rv.
         broker \<lparr>rp_kind = ''llm_tokens'', rp_cost = gd_estimated g, rp_priority = prio, rp_workcell = lr_workcell q\<rparr>
             = Http_Response 200 declared content (Some (JObj body))
         \<and> grant_of to_float prio body = Some rv))"
  using assms(1)
proof (cases rule: anthropic_messages_cases)
  case Free
  with assms(2) show ?thesis by (simp add: complete_free_local_def)
next
  case Refused
  with assms(2) show ?thesis by simp
next
  case (Sent g' dollars d' tokens rv est est_in est_out)
  from Sent(10) after_call_posts [of cfg h done_at "lr_workcell q" "lr_model q" rv lreply] have "lw_posts w' = lw_posts w @ [lr_model q]"
    by (metis (no_types, lifting) llm_world.select_convs(3) llm_world.surjective llm_world.update_convs(1-3) snd_conv)
  moreover have "lc_openai cfg \<longrightarrow> lr_allow_expensive q \<or> \<not> expensive_model (lr_model q)" using Sent(2) by (auto simp: check_model_floor_def)
  moreover have "est_in = i" "est_out = k" using Sent(11,12) assms(3,4) by simp_all
  moreover from this Sent(5,7,13) have same: "g' = g" "d' = d" unfolding assms(5,6) by (metis fst_conv)+
  moreover have "built \<and> (\<exists>declared content body rv. broker (llm_reservation cfg q g) = Http_Response 200 declared content (Some (JObj body))
      \<and> grant_of to_float prio body = Some rv)" if "br_enabled (lc_broker cfg)"
  proof (rule reserve_granted [OF Sent(9) that])
    fix declared content body
    assume "built" "broker (llm_reservation cfg q g') = Http_Response 200 declared content (Some (JObj body))"
      "grant_of to_float (rp_priority (llm_reservation cfg q g')) body = Some rv"
    then show ?thesis unfolding same assms(7) by (auto simp: llm_reservation_def)
  qed
  ultimately show ?thesis using Sent(1,6,8) by (auto simp: llm_reservation_def assms(7))
qed

text \<open>What a refused call leaves: the rows in the table and in the file as they were.\<close>

definition same_books :: "llm_world \<Rightarrow> llm_world \<Rightarrow> bool" where
  "same_books w w' \<longleftrightarrow> rs_table (lw_tokens w') = rs_table (lw_tokens w) \<and> rs_file (lw_tokens w') = rs_file (lw_tokens w)
     \<and> rs_table (lw_dollars w') = rs_table (lw_dollars w) \<and> rs_file (lw_dollars w') = rs_file (lw_dollars w)
     \<and> lw_released w' = lw_released w"

lemma load_keeps_books:
  "rs_table (snd (load_row reset fresh ttl ddb h now key s)) = rs_table s" "rs_file (snd (load_row reset fresh ttl ddb h now key s)) = rs_file s"
  by (simp_all add: load_row_def Let_def split: option.split)

lemma mutate_keeps_books: "rs_table (mutate_cached key b s) = rs_table s" "rs_file (mutate_cached key b s) = rs_file s"
  by (simp_all add: mutate_cached_def split: option.split)

lemma can_spend_keeps_books:
  "rs_table (snd (can_spend cfg h now w est s)) = rs_table s \<and> rs_file (snd (can_spend cfg h now w est s)) = rs_file s"
proof -
  obtain b s1 where l: "load_budget cfg h now w s = (b, s1)" by fastforce
  obtain row s3 where g: "load_budget cfg h now GLOBAL_CONTROLS (mutate_cached w (b\<lparr>wb_open_until := IsoText []\<rparr>) s1) = (row, s3)" by fastforce
  have s1: "rs_table s1 = rs_table s" "rs_file s1 = rs_file s"
    using load_keeps_books [where s = s and key = w] l by (metis snd_conv)+
  moreover have s3: "rs_table s3 = rs_table s1" "rs_file s3 = rs_file s1"
    using load_keeps_books [where s = "mutate_cached w (b\<lparr>wb_open_until := IsoText []\<rparr>) s1" and key = GLOBAL_CONTROLS] g mutate_keeps_books
    by (metis snd_conv)+
  moreover have "snd (can_spend cfg h now w est s) \<in> {s1, s3}"
    using l g by (simp add: can_spend_def nonessential_frozen_until_def Let_def split: option.split)
  ultimately show ?thesis by auto
qed

lemma can_spend_global_keeps_books:
  "rs_table (snd (can_spend_global ddb cap h now m i k s)) = rs_table s \<and> rs_file (snd (can_spend_global ddb cap h now m i k s)) = rs_file s"
  using load_keeps_books [where s = s and key = GLOBAL_PK and reset = reset_global and fresh = fresh_global and ttl = GLOBAL_CACHE_TTL and ddb = ddb and h = h and now = now]
  by (auto simp: can_spend_global_def Let_def split: option.split prod.splits)

text \<open>A refused call spends nothing. If the door answers that the prompt is empty, the model is not permitted, the dollar cap is
  exceeded or the budget is exceeded (the workcell's own or the broker's word), then no HTTP call to a model was made, free
  or paid, nothing was released at the broker, and the stored rows of both budgets are what they were.\<close>

theorem refused_call_spends_nothing:
  assumes "anthropic_messages cfg to_float built broker lreply h asked done_at q w = (Inl e, w')"
    and "case e of Llm_Call_Error x \<Rightarrow> False | Uncaught \<Rightarrow> False | _ \<Rightarrow> True"
  shows "lw_posts w' = lw_posts w \<and> lw_local w' = lw_local w \<and> same_books w w'"
  using assms(1)
proof (cases rule: anthropic_messages_cases)
  case Free
  with assms(2) show ?thesis by (auto simp: complete_free_local_def split: reading.splits)
next
  case (Refused tokens dollars)
  with can_spend_keeps_books can_spend_global_keeps_books show ?thesis by (auto simp: same_books_def)
next
  case Sent
  with assms(2) show ?thesis by (auto simp: after_call_def Let_def split: reading.splits prod.splits)
qed

text \<open>C16: Every paid call is settled. With the broker on, let the door make a paid HTTP call whose reply it can read or reject.
  Then the granted reservation is released exactly once: on an answer with the cost of its tokens and the outcome ok, the tokens
  and the dollars being booked; on an error with no cost and the outcome error, an error being counted for the workcell's
  breaker and no dollars.\<close>

theorem every_paid_call_is_settled:
  assumes "anthropic_messages cfg to_float built broker lreply h asked done_at q w = (res, w')" "lw_posts w' \<noteq> lw_posts w"
    and "res \<noteq> Inl Uncaught" "br_enabled (lc_broker cfg)"
  shows "\<exists>est i k.
    (let (g, dollars) = can_spend_global (lc_global_ddb cfg) (lc_cap cfg) h asked (lr_model q) i k (lw_dollars w);
         (d, tokens) = can_spend (lc_budget cfg) h asked (lr_workcell q) est (lw_tokens w)
     in case reserve (lc_broker cfg) to_float built broker asked (llm_reservation cfg q g) of
       Inl reason \<Rightarrow> False
     | Inr rv \<Rightarrow>
         (case res of
            Inr (answer, inp, out) \<Rightarrow>
              lw_released w' = lw_released w @ (if rv_id rv = DISABLED_RESERVATION_ID then [] else
                [(rv_id rv, if lc_openai cfg then cost_from_usage (lr_model q) [(''input_tokens'', inp), (''output_tokens'', out)] else 0, ''ok'')])
              \<and> lw_tokens w' = snd (record_spend (lc_budget cfg) h done_at (lr_workcell q) inp out Success tokens)
              \<and> lw_dollars w' = snd (record_spend_global (lc_global_ddb cfg) h done_at (lr_model q) inp out 0 0 dollars)
          | Inl e \<Rightarrow>
              lw_released w' = lw_released w @ (if rv_id rv = DISABLED_RESERVATION_ID then [] else [(rv_id rv, 0, ''error'')])
              \<and> lw_tokens w' = snd (record_spend (lc_budget cfg) h done_at (lr_workcell q) 0 0 Error tokens) \<and> lw_dollars w' = dollars))"
  using assms(1)
proof (cases rule: anthropic_messages_cases)
  case Free
  with assms(2) show ?thesis by (simp add: complete_free_local_def)
next
  case Refused
  with assms(2) show ?thesis by simp
next
  case (Sent g dollars d tokens rv est est_in est_out)
  show ?thesis unfolding Let_def
    by (rule exI [where x = est], rule exI [where x = est_in], rule exI [where x = est_out])
      (use Sent(10) assms(3,4) in \<open>auto simp: Sent(5,7,9) after_call_def Let_def release_broker_def book_tokens_def book_dollars_def
        split: reading.splits prod.splits\<close>)
qed

text \<open>A reply of an unexpected shape is not booked. If the paid call's reply has status 2xx or 3xx and is JSON in which a field
  is not the object that the code reads it as, an error escapes that nothing catches: the call is neither counted nor
  booked, no error is counted for the breaker, and the reservation stays held, contrary to the documentation, which
  promises the outcome error and LlmCallError for a parse error.\<close>

theorem malformed_reply_is_not_booked:
  assumes "anthropic_messages cfg to_float built broker lreply h asked done_at q w = (res, w')" "lw_posts w' \<noteq> lw_posts w"
    and "read_reply lreply = Crash \<or> read_reply lreply = Value_Error"
  shows "res = Inl Uncaught \<and> same_books w w'"
  using assms(1)
proof (cases rule: anthropic_messages_cases)
  case Free
  with assms(2) show ?thesis by (simp add: complete_free_local_def)
next
  case Refused
  with assms(2) show ?thesis by simp
next
  case (Sent g dollars d tokens rv est est_in est_out)
  then have w': "res = Inl Uncaught" "w' = w\<lparr>lw_dollars := dollars, lw_tokens := tokens, lw_posts := lw_posts w @ [lr_model q]\<rparr>"
    using assms(3) by (auto simp: after_call_def split: reading.splits)
  moreover have "rs_table dollars = rs_table (lw_dollars w) \<and> rs_file dollars = rs_file (lw_dollars w)"
    using Sent(5) can_spend_global_keeps_books by (metis snd_conv)
  moreover have "rs_table tokens = rs_table (lw_tokens w) \<and> rs_file tokens = rs_file (lw_tokens w)"
    using Sent(7) can_spend_keeps_books by (metis snd_conv)
  ultimately show ?thesis by (simp add: same_books_def)
qed

section \<open>Instances\<close>

definition demo_llm :: llm_config where
  "demo_llm = \<lparr>lc_openai = True, lc_free = ''crm_notes'', lc_budget = demo_budget, lc_global_ddb = True, lc_cap = 5,
     lc_broker = \<lparr>br_enabled = True, br_overrides = None\<rparr>\<rparr>"

definition demo_grant :: http_outcome where
  "demo_grant = Http_Response 200 None ''{}'' (Some (JObj
     [(''reservation_id'', JStr ''r1''), (''granted_cost'', JInt 1), (''expires_at'', JInt 900)]))"

definition demo_answer :: http_outcome where
  "demo_answer = Http_Response 200 None ''{}'' (Some (JObj
     [(''choices'', JList [JObj [(''message'', JObj [(''content'', JStr '' yes '')])]]),
      (''usage'', JObj [(''prompt_tokens'', JInt 12), (''completion_tokens'', JInt 3)])]))"

definition bad_answer :: http_outcome where
  "bad_answer = Http_Response 200 None ''{}'' (Some (JObj [(''choices'', JList [JInt 5])]))"

definition demo_world :: llm_world where
  "demo_world = \<lparr>lw_tokens = no_rows, lw_dollars = \<lparr>rs_table = [], rs_file = [], rs_cache = []\<rparr>, lw_posts = [], lw_local = 0, lw_released = []\<rparr>"

definition demo_ask :: llm_request where
  "demo_ask = \<lparr>lr_workcell = ''seo'', lr_prompt = ''why'', lr_system = [], lr_model = ''gpt-4.1-mini'', lr_max_tokens = 100, lr_estimated = None,
     lr_allow_expensive = False, lr_prefer_local = False\<rparr>"

abbreviation demo_call :: "http_outcome \<Rightarrow> llm_request \<Rightarrow> (llm_error + string \<times> int \<times> int) \<times> llm_world" where
  "demo_call reply q \<equiv> anthropic_messages demo_llm (\<lambda>_. None) True (\<lambda>_. demo_grant) reply fully_working 100 105 q demo_world"

lemma demo_price: "resolve_pricing ''gpt-4.1-mini'' = Some (price (2 / 5) (8 / 5) 0 (1 / 10))"
  by (simp add: resolve_pricing_def PRICING_TABLE_def local_model_def re_exactly_def re_after_some_def py_startswith_def upt_rec)

lemma demo_dollars: "gd_allowed (fst (can_spend_global True 5 fully_working 100 ''gpt-4.1-mini'' 1 100 \<lparr>rs_table = [], rs_file = [], rs_cache = []\<rparr>))"
  by (simp add: can_spend_global_def compute_cost_usd_def demo_price quantize_half_up_def load_row_def cached_row_def stored_row_def
      fresh_global_def reset_global_def Let_def)

lemma demo_tokens: "qd_allowed (fst (can_spend demo_budget fully_working 100 ''seo'' 101 no_rows))"
  by (simp add: can_spend_def demo_budget_def nonessential_frozen_until_def load_row_def cached_row_def stored_row_def no_rows_def
      fresh_budget_def reset_if_new_day_def mutate_cached_def GLOBAL_CONTROLS_def effective_quota_def compute_quota_def Let_def map_of_update)

lemma demo_reserved: "reserve \<lparr>br_enabled = True, br_overrides = None\<rparr> (\<lambda>_. None) True (\<lambda>_. demo_grant) 100 p
    = Inr \<lparr>rv_id = ''r1'', rv_cost = 1, rv_expires = 900, rv_priority = rp_priority p\<rparr>"
  by (simp add: reserve_def demo_grant_def oversized_def grant_of_def json_number_def json_int_def json_text_def dict_get_def BROKER_MAX_BYTES_def)

lemma free_demo: "free_workcells ''crm_notes'' = [''crm_notes'']"
  by (simp add: free_workcells_def py_strip_def py_lstrip_def py_isspace_def)

lemma demo_call_made:
  "\<exists>rv w. demo_call reply demo_ask = after_call demo_llm fully_working 105 ''seo'' ''gpt-4.1-mini'' rv reply w \<and> lw_posts w = [''gpt-4.1-mini'']"
proof -
  obtain g dollars where g: "can_spend_global True 5 fully_working 100 ''gpt-4.1-mini'' 1 100 \<lparr>rs_table = [], rs_file = [], rs_cache = []\<rparr> = (g, dollars)"
    by (rule that) (rule prod.collapse [symmetric])
  obtain d tokens where d: "can_spend demo_budget fully_working 100 ''seo'' 101 no_rows = (d, tokens)"
    by (rule that) (rule prod.collapse [symmetric])
  have "gd_allowed g" "qd_allowed d" using demo_dollars demo_tokens g d by simp_all
  then show ?thesis
    by (simp add: anthropic_messages_def demo_ask_def demo_world_def check_model_floor_def demo_llm_def expensive_model_def py_startswith_def
      estimate_tokens_def estimate_split_def free_demo demo_reserved g d Let_def) (intro exI conjI, rule refl, simp)
qed

lemma demo_call_posts: "lw_posts (snd (demo_call reply demo_ask)) = [''gpt-4.1-mini'']"
  using demo_call_made [of reply] after_call_posts by auto

lemma demo_replies: "read_reply demo_answer = Got (''yes'', 12, 3)" "read_reply bad_answer = Crash"
  by (simp_all add: read_reply_def demo_answer_def bad_answer_def oversized_def LLM_MAX_BYTES_def extract_text_def extract_usage_def
      get_or_def dict_get_def token_count_def json_int_def py_strip_def py_lstrip_def py_isspace_def)

lemma demo_call_result: "fst (demo_call demo_answer demo_ask) = Inr (''yes'', 12, 3)"
  using demo_call_made [of demo_answer] by (auto simp: after_call_def demo_replies Let_def)

theorem paid_call_passed_every_gate_witness:
  "qd_allowed (fst (can_spend demo_budget fully_working 100 ''seo'' 101 no_rows))
    \<and> (\<exists>content body rv. demo_grant = Http_Response 200 None content (Some (JObj body)) \<and> grant_of (\<lambda>_. None) 5 body = Some rv)"
proof -
  obtain res w' where c: "demo_call demo_answer demo_ask = (res, w')" by (rule that) (rule prod.collapse [symmetric])
  have "lw_posts w' \<noteq> lw_posts demo_world" using demo_call_posts [of demo_answer] c by (simp add: demo_world_def)
  from paid_call_passed_every_gate [OF c this refl refl refl refl refl]
  have q: "qd_allowed (fst (can_spend demo_budget fully_working 100 ''seo'' 101 no_rows))"
    and "\<exists>declared content body rv. demo_grant = Http_Response 200 declared content (Some (JObj body))
      \<and> grant_of (\<lambda>_. None) (workcell_priority_for (lc_broker demo_llm) ''seo'') body = Some rv"
    by (simp_all add: demo_llm_def demo_ask_def demo_world_def)
  moreover have "workcell_priority_for (lc_broker demo_llm) ''seo'' = 5" by code_simp
  ultimately show ?thesis by (auto simp: demo_grant_def)
qed

theorem refused_call_spends_nothing_witness:
  "lw_posts (snd (demo_call demo_answer (demo_ask\<lparr>lr_model := ''o3''\<rparr>))) = []"
proof -
  have "fst (demo_call demo_answer (demo_ask\<lparr>lr_model := ''o3''\<rparr>)) = Inl (Model_Not_Permitted ''o3'')"
    by (simp add: anthropic_messages_def demo_ask_def demo_llm_def check_model_floor_def expensive_model_def py_startswith_def)
  then obtain w' where c: "demo_call demo_answer (demo_ask\<lparr>lr_model := ''o3''\<rparr>) = (Inl (Model_Not_Permitted ''o3''), w')"
    by (metis prod.collapse)
  from refused_call_spends_nothing [OF c] show ?thesis by (simp add: c) (simp add: demo_world_def)
qed

theorem every_paid_call_is_settled_witness: "length (lw_released (snd (demo_call demo_answer demo_ask))) = 1"
proof -
  obtain w' where c: "demo_call demo_answer demo_ask = (Inr (''yes'', 12, 3), w')" using demo_call_result by (metis prod.collapse)
  have "lw_posts w' \<noteq> lw_posts demo_world" using demo_call_posts [of demo_answer] c by (simp add: demo_world_def)
  from every_paid_call_is_settled [OF c this] have "length (lw_released w') = 1"
    by (auto simp: demo_llm_def demo_ask_def demo_reserved DISABLED_RESERVATION_ID_def demo_world_def split: prod.splits)
  then show ?thesis by (simp add: c)
qed

theorem malformed_reply_is_not_booked_witness:
  "fst (demo_call bad_answer demo_ask) = Inl Uncaught \<and> lw_released (snd (demo_call bad_answer demo_ask)) = []"
proof -
  obtain res w' where c: "demo_call bad_answer demo_ask = (res, w')" by (rule that) (rule prod.collapse [symmetric])
  have "lw_posts w' \<noteq> lw_posts demo_world" using demo_call_posts [of bad_answer] c by (simp add: demo_world_def)
  from malformed_reply_is_not_booked [OF c this] show ?thesis by (simp add: c demo_replies same_books_def) (simp add: demo_world_def)
qed

end
