(* ===== verification/Crm_Pipeline.thy ===== *)
theory Crm_Pipeline
  imports Prelude "HOL-Library.AList"
begin

text \<open>
  The pure parts of the CRM: the stages of a deal and the moves between them (\<open>crm/pipeline.py\<close>), the score of a new deal
  (\<open>crm/scoring.py\<close>) and the tasks its life produces (\<open>crm/lifecycle.py\<close>). Amounts and probabilities are rationals,
  times whole seconds. The code's stages are texts that the validation of a request confines to the seven below,
  so that the branch for an unknown target is not reached.
\<close>

section \<open>Stages\<close>

datatype deal_stage = New_Deal | Qualified | In_Proposal | Negotiation | Closed_Won | Closed_Won_Retainer | Closed_Lost

fun stage_value :: "deal_stage \<Rightarrow> string" where
  "stage_value New_Deal = ''new''"
| "stage_value Qualified = ''qualified''"
| "stage_value In_Proposal = ''proposal''"
| "stage_value Negotiation = ''negotiation''"
| "stage_value Closed_Won = ''closed_won''"
| "stage_value Closed_Won_Retainer = ''closed_won_retainer''"
| "stage_value Closed_Lost = ''closed_lost''"

definition TERMINAL_STAGES :: "deal_stage list" where
  "TERMINAL_STAGES = [Closed_Won, Closed_Won_Retainer, Closed_Lost]"

definition WON_TERMINAL_STAGES :: "deal_stage list" where
  "WON_TERMINAL_STAGES = [Closed_Won, Closed_Won_Retainer]"

fun STAGE_PROBABILITIES :: "deal_stage \<Rightarrow> rat" where
  "STAGE_PROBABILITIES New_Deal = 1 / 10"
| "STAGE_PROBABILITIES Qualified = 1 / 4"
| "STAGE_PROBABILITIES In_Proposal = 1 / 2"
| "STAGE_PROBABILITIES Negotiation = 7 / 10"
| "STAGE_PROBABILITIES Closed_Won = 1"
| "STAGE_PROBABILITIES Closed_Won_Retainer = 1"
| "STAGE_PROBABILITIES Closed_Lost = 0"

fun FORWARD_TRANSITIONS :: "deal_stage \<Rightarrow> deal_stage list" where
  "FORWARD_TRANSITIONS New_Deal = [Qualified, In_Proposal, Negotiation]"
| "FORWARD_TRANSITIONS Qualified = [In_Proposal, Negotiation, Closed_Won, Closed_Won_Retainer]"
| "FORWARD_TRANSITIONS In_Proposal = [Negotiation, Closed_Won, Closed_Won_Retainer]"
| "FORWARD_TRANSITIONS Negotiation = [Closed_Won, Closed_Won_Retainer]"
| "FORWARD_TRANSITIONS Closed_Won = []"
| "FORWARD_TRANSITIONS Closed_Won_Retainer = []"
| "FORWARD_TRANSITIONS Closed_Lost = []"

definition next_allowed_stages :: "deal_stage \<Rightarrow> deal_stage list" where
  "next_allowed_stages s = (if s \<in> set TERMINAL_STAGES then [] else FORWARD_TRANSITIONS s @ [Closed_Lost])"

text \<open>\<open>None\<close> allows the move.\<close>

definition validate_transition :: "deal_stage \<Rightarrow> deal_stage \<Rightarrow> string option" where
  "validate_transition s target =
     (if s = target then Some ''noop_same_stage''
      else if s \<in> set TERMINAL_STAGES then Some (''terminal_stage_'' @ stage_value s)
      else if target \<notin> set (next_allowed_stages s) then Some (''illegal_transition_'' @ stage_value s @ ''_to_'' @ stage_value target)
      else None)"

lemma terminal_iff: "s \<in> set TERMINAL_STAGES \<longleftrightarrow> s = Closed_Won \<or> s = Closed_Won_Retainer \<or> s = Closed_Lost"
  by (auto simp: TERMINAL_STAGES_def)

lemma terminal_stages_are_final: "s \<in> set TERMINAL_STAGES \<Longrightarrow> validate_transition s target \<noteq> None"
  by (simp add: validate_transition_def)

lemma won_needs_qualified: "validate_transition s Closed_Won = None \<Longrightarrow> s \<in> {Qualified, In_Proposal, Negotiation}"
  by (cases s) (auto simp: validate_transition_def next_allowed_stages_def TERMINAL_STAGES_def)

section \<open>The score of a new deal\<close>

datatype deal_tier = Tier_Low | Tier_Warm | Tier_Hot | Tier_Priority

fun tier_value :: "deal_tier \<Rightarrow> string" where
  "tier_value Tier_Low = ''low''"
| "tier_value Tier_Warm = ''warm''"
| "tier_value Tier_Hot = ''hot''"
| "tier_value Tier_Priority = ''priority''"

definition classify_tier :: "int \<Rightarrow> deal_tier" where
  "classify_tier s = (if 90 \<le> s then Tier_Priority else if 70 \<le> s then Tier_Hot else if 40 \<le> s then Tier_Warm else Tier_Low)"

fun tier_close_probability :: "deal_tier \<Rightarrow> rat" where
  "tier_close_probability Tier_Low = 5 / 100"
| "tier_close_probability Tier_Warm = 15 / 100"
| "tier_close_probability Tier_Hot = 35 / 100"
| "tier_close_probability Tier_Priority = 55 / 100"

definition BUDGET_MIDPOINTS_USD :: "(string \<times> rat) list" where
  "BUDGET_MIDPOINTS_USD = [([], 0), (''under_$150'', 100), (''$150-$500'', 325), (''$500-$2000'', 1250), (''$2000-$5000'', 3500), (''$5000+'', 7500)]"

text \<open>All values are whole, so the rounding to cents changes nothing.\<close>

definition estimate_deal_size_usd :: "string \<Rightarrow> string list \<Rightarrow> rat" where
  "estimate_deal_size_usd budget services =
     (let annual = dict_get BUDGET_MIDPOINTS_USD budget 0 * 12
      in if 2 \<le> length (filter (\<lambda>s. s \<noteq> [] \<and> s \<noteq> ''not_sure'') services) then annual * 115 / 100 else annual)"

definition score_opportunity_from_lead :: "int \<Rightarrow> string \<Rightarrow> string list \<Rightarrow> deal_tier \<times> rat \<times> rat" where
  "score_opportunity_from_lead intent budget services =
     (classify_tier intent, tier_close_probability (classify_tier intent), estimate_deal_size_usd budget services)"

section \<open>Deals, tasks and requests\<close>

record deal_credit =
  dc_industry :: string
  dc_policy :: string
  dc_seo :: int
  dc_email :: bool
  dc_facebook :: bool
  dc_instagram :: bool
  dc_cost :: rat

record opportunity =
  op_id :: string
  op_prospect :: string
  op_contact :: string
  op_stage :: deal_stage
  op_name :: string
  op_size :: rat
  op_probability :: rat
  op_next :: string
  op_expected :: string
  op_actual :: "int option"
  op_won :: rat
  op_lost :: string
  op_assigned :: string
  op_created :: int
  op_updated :: int
  op_credit :: deal_credit
  op_stake :: "string \<times> string \<times> int option"

datatype task_status = Task_Open | Task_In_Progress | Task_Done | Task_Skipped

record operator_task =
  ot_id :: string
  ot_kind :: string
  ot_title :: string
  ot_description :: string
  ot_assignee :: string
  ot_status :: task_status
  ot_due :: "int option"
  ot_completed :: "int option"
  ot_entity :: "string \<times> string"
  ot_source :: "string \<times> string"
  ot_created :: int
  ot_updated :: int

record task_request =
  tr_kind :: string
  tr_title :: string
  tr_description :: string
  tr_assignee :: string
  tr_due :: "int option"
  tr_entity :: "string \<times> string"
  tr_source :: "string \<times> string"

fun task_status_value :: "task_status \<Rightarrow> string" where
  "task_status_value Task_Open = ''open''"
| "task_status_value Task_In_Progress = ''in_progress''"
| "task_status_value Task_Done = ''done''"
| "task_status_value Task_Skipped = ''skipped''"

definition TERMINAL_TASK_STATUSES :: "task_status list" where "TERMINAL_TASK_STATUSES = [Task_Done, Task_Skipped]"

fun TASK_TRANSITIONS :: "task_status \<Rightarrow> task_status list" where
  "TASK_TRANSITIONS Task_Open = [Task_In_Progress, Task_Done, Task_Skipped]"
| "TASK_TRANSITIONS Task_In_Progress = [Task_Done, Task_Skipped]"
| "TASK_TRANSITIONS Task_Done = []"
| "TASK_TRANSITIONS Task_Skipped = []"

definition validate_task_transition :: "task_status \<Rightarrow> task_status \<Rightarrow> string option" where
  "validate_task_transition s target =
     (if s = target then Some ''noop_same_status''
      else if s \<in> set TERMINAL_TASK_STATUSES then Some (''terminal_status_'' @ task_status_value s)
      else if target \<notin> set (TASK_TRANSITIONS s) then Some (''illegal_transition_'' @ task_status_value s @ ''_to_'' @ task_status_value target)
      else None)"

section \<open>Tasks out of a deal's life\<close>

definition deal_task :: "opportunity \<Rightarrow> int \<Rightarrow> int \<Rightarrow> string \<Rightarrow> string \<Rightarrow> string \<Rightarrow> task_request" where
  "deal_task opp now hours kind title ref =
     \<lparr>tr_kind = kind, tr_title = title, tr_description = [], tr_assignee = op_assigned opp, tr_due = Some (now + hours * 3600),
      tr_entity = (''opportunity'', op_id opp), tr_source = (''lifecycle_auto_generator'', ref)\<rparr>"

definition tasks_for_new_opportunity :: "opportunity \<Rightarrow> int option \<Rightarrow> int \<Rightarrow> task_request list" where
  "tasks_for_new_opportunity opp intent now =
     (if op_stage opp \<noteq> New_Deal then []
      else (let label = py_or (op_name opp) (op_prospect opp) in
        [deal_task opp now 24 ''follow_up'' (''Follow up with prospect for '' @ label) ''opportunity_created'']
        @ (case intent of
             Some s \<Rightarrow> if 70 \<le> s
               then [deal_task opp now 4 ''send_proposal'' (''Send proposal to '' @ label @ '' (high-intent lead)'') ''opportunity_created_high_intent''] else []
           | None \<Rightarrow> [])))"

text \<open>The tasks; the reward that a terminal stage sets off is the caller's effect.\<close>

definition tasks_for_stage_advance :: "opportunity \<Rightarrow> deal_stage \<Rightarrow> int \<Rightarrow> task_request list" where
  "tasks_for_stage_advance opp new_stage now =
     (let label = py_or (op_name opp) (op_prospect opp) in
      if new_stage = In_Proposal then [deal_task opp now 24 ''send_proposal'' (''Send proposal to '' @ label) ''stage_advance_proposal'']
      else if new_stage = Closed_Won then [deal_task opp now 24 ''deliver'' (''Begin delivery for '' @ label) ''stage_advance_closed_won'']
      else if new_stage = Closed_Lost
        then [deal_task opp now 72 ''follow_up'' ''Post-mortem: review lost-reason and update prospect status'' ''stage_advance_closed_lost'']
      else [])"

end
