(* ===== verification/Crm_Deals.thy ===== *)
theory Crm_Deals
  imports Crm_Pipeline
begin

text \<open>
  The CRM service (\<open>crm/service.py\<close>) over its tables (\<open>crm/persistence.py\<close>): reading, scanning and writing rows, converting a lead,
  opening, advancing and closing deals, operator tasks, and the jobs of the queue worker (\<open>crm/worker.py\<close>).

  A table is its rows in the order of a scan, with the key first; rows are those that the code writes, so they
  validate when they are read. Each of get, put and scan can fail during a request. Given are the identifiers, the time in whole
  seconds, and the number of rows in a page of a scan. An effect of the log stands for the call that leaves the
  CRM; audit lines, funnel and metric counters, the sensor for unusual amounts and the knowledge graph are left out, as are
  the conversations, call states and artifacts. The text of an error ends where the code puts the message of the database in.
\<close>

section \<open>The tables\<close>

record crm_contact =
  ct_id :: string
  ct_prospect :: string
  ct_name :: string
  ct_email :: string
  ct_source :: "string \<times> string"
  ct_created :: int

record crm_prospect =
  pp_id :: string
  pp_company :: string
  pp_website :: string

record crm_lead =
  ld_email :: string
  ld_company :: string
  ld_website :: string
  ld_name :: string

datatype crm_effect =
    Deal_Event string string deal_stage deal_stage "rat option"
  | Deal_Opened string string
  | Lead_Converted string string
  | Outcome_Sent string bool
  | Draft_Asked string
  | Reward_Computed string deal_stage

record crm_world =
  cw_deals :: "(string \<times> opportunity) list"
  cw_contacts :: "(string \<times> crm_contact) list"
  cw_prospects :: "(string \<times> crm_prospect) list"
  cw_leads :: "(string \<times> crm_lead) list"
  cw_tasks :: "(string \<times> operator_task) list"
  cw_log :: "crm_effect list"

record crm_reach =
  cr_get :: bool
  cr_put :: bool
  cr_scan :: bool
  cr_page :: nat

record crm_config =
  cc_cap :: rat
  cc_strategy :: bool
  cc_gateway :: bool
  cc_assignee :: string

definition crm_log :: "crm_effect list \<Rightarrow> crm_world \<Rightarrow> crm_world" where
  "crm_log xs w = w\<lparr>cw_log := cw_log w @ xs\<rparr>"

definition crm_safe_get :: "crm_reach \<Rightarrow> string \<Rightarrow> (string \<times> 'a) list \<Rightarrow> string + 'a option" where
  "crm_safe_get h k rows = (if cr_get h then Inr (map_of rows k) else Inl ''ddb_get_failed: '')"

definition SCAN_PAGE_CAP :: nat where "SCAN_PAGE_CAP = 20"

text \<open>The pages of a filtered scan; what is left is reported as truncation.\<close>

fun scan_pages :: "nat \<Rightarrow> nat \<Rightarrow> ('a \<Rightarrow> bool) \<Rightarrow> nat \<Rightarrow> 'a list \<Rightarrow> 'a list \<Rightarrow> 'a list \<times> bool" where
  "scan_pages page want P 0 left collected = (collected, left \<noteq> [])"
| "scan_pages page want P (Suc n) left collected =
     (let collected = collected @ filter P (take page left); left = drop page left
      in if want \<le> length collected \<or> left = [] then (collected, left \<noteq> []) else scan_pages page want P n left collected)"

definition crm_safe_scan :: "crm_reach \<Rightarrow> int \<Rightarrow> ('a \<Rightarrow> bool) \<Rightarrow> (string \<times> 'a) list \<Rightarrow> 'a list \<times> bool" where
  "crm_safe_scan h limit P rows =
     (if \<not> cr_scan h then ([], False)
      else (let want = nat (max 1 (min 500 limit));
                (collected, more) = scan_pages (cr_page h) want P SCAN_PAGE_CAP (map snd rows) []
            in (take want collected, more \<or> want < length collected)))"

section \<open>Reading\<close>

definition get_opportunity :: "crm_reach \<Rightarrow> string \<Rightarrow> crm_world \<Rightarrow> opportunity option" where
  "get_opportunity h oid w = (case crm_safe_get h oid (cw_deals w) of Inr (Some o1) \<Rightarrow> Some o1 | _ \<Rightarrow> None)"

definition existing_contact_for_email :: "crm_reach \<Rightarrow> string \<Rightarrow> crm_world \<Rightarrow> crm_contact option" where
  "existing_contact_for_email h email w =
     (if email = [] then None
      else (case fst (crm_safe_scan h 5 (\<lambda>c. ct_email c = py_lower (py_strip email)) (cw_contacts w)) of [] \<Rightarrow> None | c # cs \<Rightarrow> Some c))"

definition existing_prospect_for_website :: "crm_reach \<Rightarrow> string \<Rightarrow> crm_world \<Rightarrow> crm_prospect option" where
  "existing_prospect_for_website h url w =
     (if url = [] then None
      else (case fst (crm_safe_scan h 5 (\<lambda>p. pp_website p = py_lower (py_strip url)) (cw_prospects w)) of [] \<Rightarrow> None | p # ps \<Rightarrow> Some p))"

text \<open>Python's stable sort, reversed, on the time of the last update and then of the creation.\<close>

definition find_opportunity_for_email :: "crm_reach \<Rightarrow> string \<Rightarrow> crm_world \<Rightarrow> string option" where
  "find_opportunity_for_email h email w =
     (if py_strip email = [] then None
      else (case existing_contact_for_email h email w of
          None \<Rightarrow> None
        | Some c \<Rightarrow>
            if ct_prospect c = [] then None
            else (let opens = filter (\<lambda>d. op_stage d \<notin> set TERMINAL_STAGES)
                        (fst (crm_safe_scan h 50 (\<lambda>d. op_prospect d = ct_prospect c) (cw_deals w)))
                  in (case sort_key (\<lambda>d. - op_updated d) (sort_key (\<lambda>d. - op_created d) opens) of [] \<Rightarrow> None | d # ds \<Rightarrow> Some (op_id d)))))"

section \<open>Leads\<close>

datatype convert_status = Lead_Created | Lead_Existing | Lead_Failed

record convert_result =
  cv_status :: convert_status
  cv_prospect :: string
  cv_contact :: string
  cv_error :: "string option"

text \<open>The prospect is put under the first reach, the contact under the second.\<close>

definition convert_lead_to_prospect :: "crm_reach \<times> crm_reach \<Rightarrow> int \<Rightarrow> string \<Rightarrow> string \<Rightarrow> string \<Rightarrow> crm_world \<Rightarrow> convert_result \<times> crm_world" where
  "convert_lead_to_prospect hs now new_prospect new_contact lead_id w =
     (let h = fst hs; failed = (\<lambda>p e. \<lparr>cv_status = Lead_Failed, cv_prospect = p, cv_contact = [], cv_error = Some e\<rparr>) in
      case crm_safe_get h lead_id (cw_leads w) of
        Inl e \<Rightarrow> (failed [] e, w)
      | Inr None \<Rightarrow> (failed [] ''lead_not_found'', w)
      | Inr (Some ld) \<Rightarrow>
          (let email = py_lower (py_strip (ld_email ld)); company = py_strip (ld_company ld);
               website = py_lower (py_strip (ld_website ld)); name = py_strip (ld_name ld) in
           case existing_contact_for_email h email w of
             Some c \<Rightarrow> (\<lparr>cv_status = Lead_Existing, cv_prospect = ct_prospect c, cv_contact = ct_id c, cv_error = None\<rparr>, w)
           | None \<Rightarrow>
               (let found = (case existing_prospect_for_website h website w of Some p \<Rightarrow> pp_id p | None \<Rightarrow> []);
                    (prospect, w, put_ok) =
                  (if found \<noteq> [] then (found, w, True)
                   else (new_prospect,
                       if cr_put h then w\<lparr>cw_prospects := AList.update new_prospect
                         \<lparr>pp_id = new_prospect, pp_company = py_or (py_or company name) ''(unknown)'', pp_website = website\<rparr> (cw_prospects w)\<rparr> else w,
                       cr_put h))
                in if \<not> put_ok then (failed [] ''ddb_put_failed: '', w)
                   else if \<not> cr_put (snd hs) then (failed prospect ''ddb_put_failed: '', w)
                   else (\<lparr>cv_status = Lead_Created, cv_prospect = prospect, cv_contact = new_contact, cv_error = None\<rparr>,
                     crm_log [Lead_Converted lead_id prospect]
                       (w\<lparr>cw_contacts := AList.update new_contact
                          \<lparr>ct_id = new_contact, ct_prospect = prospect, ct_name = name, ct_email = email, ct_source = (''intake_lead'', lead_id),
                           ct_created = now\<rparr> (cw_contacts w)\<rparr>)))))"

section \<open>Opening a deal\<close>

record create_request =
  nr_prospect :: string
  nr_contact :: string
  nr_name :: string
  nr_intent :: "int option"
  nr_budget :: string
  nr_services :: "string list"
  nr_assigned :: string
  nr_next :: string
  nr_expected :: string
  nr_credit :: deal_credit
  nr_stake :: "string \<times> string"

definition last_six :: "string \<Rightarrow> string" where "last_six s = drop (length s - 6) s"

definition create_opportunity :: "crm_reach \<Rightarrow> int \<Rightarrow> string \<Rightarrow> create_request \<Rightarrow> crm_world \<Rightarrow> string option \<times> crm_world" where
  "create_opportunity h now oid req w =
     (let scored = nr_intent req \<noteq> None \<or> nr_budget req \<noteq> [] \<or> nr_services req \<noteq> [];
          (tier, probability, size) =
            (if scored then score_opportunity_from_lead (case nr_intent req of Some s \<Rightarrow> s | None \<Rightarrow> 0) (nr_budget req) (nr_services req)
             else (Tier_Low, STAGE_PROBABILITIES New_Deal, 0));
          staked = fst (nr_stake req) \<noteq> [];
          d = \<lparr>op_id = oid, op_prospect = nr_prospect req, op_contact = nr_contact req, op_stage = New_Deal,
               op_name = py_or (nr_name req) (''Opportunity '' @ last_six oid), op_size = size, op_probability = probability,
               op_next = py_or (nr_next req) (if scored then ''tier='' @ tier_value tier else []), op_expected = nr_expected req,
               op_actual = None, op_won = 0, op_lost = [], op_assigned = nr_assigned req, op_created = now, op_updated = now,
               op_credit = nr_credit req,
               op_stake = (fst (nr_stake req), if staked then snd (nr_stake req) else [], if staked then Some now else None)\<rparr>
      in if \<not> cr_put h then (None, w)
         else (Some oid, crm_log [Deal_Opened oid (nr_prospect req)] (w\<lparr>cw_deals := AList.update oid d (cw_deals w)\<rparr>)))"

definition set_opportunity_stake :: "crm_reach \<Rightarrow> int \<Rightarrow> string \<Rightarrow> string \<Rightarrow> string \<Rightarrow> int \<Rightarrow> crm_world \<Rightarrow> opportunity option \<times> crm_world" where
  "set_opportunity_stake h now oid sentence author authored w =
     (case get_opportunity h oid w of
        None \<Rightarrow> (None, w)
      | Some d \<Rightarrow>
          (let d = d\<lparr>op_stake := (sentence, author, Some authored), op_updated := now\<rparr> in
           if \<not> cr_put h then (None, w) else (Some d, w\<lparr>cw_deals := AList.update oid d (cw_deals w)\<rparr>)))"

section \<open>Advancing a deal\<close>

record advance_request =
  ar_id :: string
  ar_target :: deal_stage
  ar_lost :: string
  ar_won :: rat

datatype advance_status = Advanced | Invalid_Transition | Deal_Not_Found | Advance_Failed | Blocked_Over_Cap

record advance_result =
  as_status :: advance_status
  as_prior :: "deal_stage option"
  as_new :: "deal_stage option"
  as_error :: "string option"
  as_latency :: "int option"

definition rat_or :: "rat \<Rightarrow> rat \<Rightarrow> rat" where
  "rat_or a b = (if a = 0 then b else a)"

definition latency_to_resolution_sec :: "int \<Rightarrow> int option \<Rightarrow> int option" where
  "latency_to_resolution_sec created actual =
     (case actual of None \<Rightarrow> None | Some t \<Rightarrow> if t - created < 0 then None else Some (t - created))"

text \<open>The decision over the row that was read: a refusal, or the row to write.\<close>

definition close_amount :: "advance_request \<Rightarrow> opportunity \<Rightarrow> rat" where
  "close_amount req d = rat_or (ar_won req) (if ar_target req = Closed_Won then op_size d else op_won d)"

definition advance_decide :: "crm_config \<Rightarrow> int \<Rightarrow> advance_request \<Rightarrow> opportunity \<Rightarrow> advance_result + opportunity" where
  "advance_decide cfg now req d =
     (case validate_transition (op_stage d) (ar_target req) of
        Some reason \<Rightarrow>
          Inl \<lparr>as_status = Invalid_Transition, as_prior = Some (op_stage d), as_new = Some (op_stage d), as_error = Some reason, as_latency = None\<rparr>
      | None \<Rightarrow>
          if ar_target req \<in> set WON_TERMINAL_STAGES \<and> 0 < cc_cap cfg \<and> cc_cap cfg < close_amount req d
          then Inl \<lparr>as_status = Blocked_Over_Cap, as_prior = Some (op_stage d), as_new = Some (op_stage d),
                    as_error = Some ''closed_won_blocked_over_cap'', as_latency = None\<rparr>
          else (let d1 = d\<lparr>op_stage := ar_target req, op_probability := STAGE_PROBABILITIES (ar_target req), op_updated := now\<rparr>;
                    d2 = (if ar_target req \<in> set TERMINAL_STAGES then d1\<lparr>op_actual := Some now\<rparr> else d1);
                    d3 = (if ar_target req = Closed_Won then d2\<lparr>op_won := rat_or (ar_won req) (op_size d)\<rparr> else d2);
                    d4 = (if ar_target req = Closed_Lost then d3\<lparr>op_lost := py_or (ar_lost req) ''unspecified''\<rparr> else d3)
                in Inr d4))"

text \<open>The write of the row and what follows it; the row that is read again after a close is the one just written.\<close>

definition advance_effects :: "crm_config \<Rightarrow> crm_reach \<Rightarrow> deal_stage \<Rightarrow> opportunity \<Rightarrow> crm_effect list" where
  "advance_effects cfg h prior d =
     [Deal_Event (op_id d) (op_prospect d) prior (op_stage d) (if op_stage d \<in> set WON_TERMINAL_STAGES then Some (op_won d) else None)]
     @ (if op_stage d \<in> set TERMINAL_STAGES \<and> cr_get h \<and> cc_strategy cfg then [Outcome_Sent (op_prospect d) (op_stage d \<in> set WON_TERMINAL_STAGES)] else [])
     @ (if op_stage d = In_Proposal \<and> cc_gateway cfg then [Draft_Asked (op_id d)] else [])"

definition advance_commit :: "crm_config \<Rightarrow> crm_reach \<Rightarrow> advance_request \<Rightarrow> opportunity \<Rightarrow> opportunity \<Rightarrow> crm_world \<Rightarrow> advance_result \<times> crm_world" where
  "advance_commit cfg h req prior d w =
     (if \<not> cr_put h
      then (\<lparr>as_status = Advance_Failed, as_prior = Some (op_stage prior), as_new = Some (op_stage prior), as_error = Some ''ddb_put_failed: '', as_latency = None\<rparr>, w)
      else (\<lparr>as_status = Advanced, as_prior = Some (op_stage prior), as_new = Some (ar_target req), as_error = None,
             as_latency = (if ar_target req \<in> set TERMINAL_STAGES then latency_to_resolution_sec (op_created d) (op_actual d) else None)\<rparr>,
            crm_log (advance_effects cfg h (op_stage prior) d) (w\<lparr>cw_deals := AList.update (ar_id req) d (cw_deals w)\<rparr>)))"

definition advance_opportunity :: "crm_config \<Rightarrow> crm_reach \<Rightarrow> int \<Rightarrow> advance_request \<Rightarrow> crm_world \<Rightarrow> advance_result \<times> crm_world" where
  "advance_opportunity cfg h now req w =
     (case crm_safe_get h (ar_id req) (cw_deals w) of
        Inl e \<Rightarrow> (\<lparr>as_status = Advance_Failed, as_prior = None, as_new = None, as_error = Some e, as_latency = None\<rparr>, w)
      | Inr None \<Rightarrow> (\<lparr>as_status = Deal_Not_Found, as_prior = None, as_new = None, as_error = Some ''opportunity_not_found'', as_latency = None\<rparr>, w)
      | Inr (Some d) \<Rightarrow> (case advance_decide cfg now req d of Inl r \<Rightarrow> (r, w) | Inr d' \<Rightarrow> advance_commit cfg h req d d' w))"

text \<open>From a payment: with an email, the deal has to be one of the payer's prospect; the check may see other outages than the advance.\<close>

definition close_request :: "string \<Rightarrow> rat \<Rightarrow> advance_request" where
  "close_request oid amount = \<lparr>ar_id = oid, ar_target = Closed_Won, ar_lost = [], ar_won = amount\<rparr>"

definition close_opportunity_from_payment ::
  "crm_config \<Rightarrow> crm_reach \<times> crm_reach \<Rightarrow> int \<Rightarrow> string \<Rightarrow> rat \<Rightarrow> string \<Rightarrow> crm_world \<Rightarrow> advance_result \<times> crm_world" where
  "close_opportunity_from_payment cfg hs now oid amount email w =
     (let refuse = (\<lambda>s e. (\<lparr>as_status = s, as_prior = None, as_new = None, as_error = Some e, as_latency = None\<rparr>, w));
          go = advance_opportunity cfg (snd hs) now (close_request oid amount) w in
      if email = [] then go
      else (case get_opportunity (fst hs) oid w of
          None \<Rightarrow> refuse Deal_Not_Found (''opportunity_not_found: '' @ oid)
        | Some d \<Rightarrow>
            (let expected = (case existing_contact_for_email (fst hs) email w of Some c \<Rightarrow> ct_prospect c | None \<Rightarrow> []) in
             if expected = [] then refuse Advance_Failed ''ownership_unverifiable''
             else if op_prospect d \<noteq> expected then refuse Advance_Failed ''ownership_mismatch''
             else go)))"

section \<open>Operator tasks\<close>

definition create_operator_task :: "crm_reach \<Rightarrow> int \<Rightarrow> string \<Rightarrow> task_request \<Rightarrow> crm_world \<Rightarrow> string option \<times> crm_world" where
  "create_operator_task h now tid req w =
     (let task = \<lparr>ot_id = tid, ot_kind = tr_kind req, ot_title = tr_title req, ot_description = tr_description req, ot_assignee = tr_assignee req,
                  ot_status = Task_Open, ot_due = tr_due req, ot_completed = None, ot_entity = tr_entity req, ot_source = tr_source req,
                  ot_created = now, ot_updated = now\<rparr>
      in if \<not> cr_put h then (None, w) else (Some tid, w\<lparr>cw_tasks := AList.update tid task (cw_tasks w)\<rparr>))"

datatype task_update = Task_Updated task_status | Task_Invalid string | Task_Not_Found | Task_Failed

definition update_operator_task ::
  "crm_reach \<Rightarrow> int \<Rightarrow> string \<Rightarrow> task_status \<Rightarrow> int option \<Rightarrow> string \<Rightarrow> string \<Rightarrow> crm_world \<Rightarrow> task_update \<times> crm_world" where
  "update_operator_task h now stamp target completed notes tid w =
     (case crm_safe_get h tid (cw_tasks w) of
        Inl e \<Rightarrow> (Task_Failed, w)
      | Inr None \<Rightarrow> (Task_Not_Found, w)
      | Inr (Some task) \<Rightarrow>
          (case validate_task_transition (ot_status task) target of
             Some reason \<Rightarrow> (Task_Invalid reason, w)
           | None \<Rightarrow>
               (let t1 = task\<lparr>ot_status := target, ot_updated := now\<rparr>;
                    t2 = (if target \<in> set TERMINAL_TASK_STATUSES
                          then t1\<lparr>ot_completed := Some (case completed of Some c \<Rightarrow> c | None \<Rightarrow> now)\<rparr> else t1);
                    kept = rev (dropWhile py_isspace (rev (ot_description task)));
                    t3 = (if notes \<noteq> [] then t2\<lparr>ot_description := kept @ (if kept \<noteq> [] then [CHR 0x0A, CHR 0x0A] else []) @ ''['' @ stamp @ ''] '' @ notes\<rparr> else t2)
                in if \<not> cr_put h then (Task_Failed, w) else (Task_Updated target, w\<lparr>cw_tasks := AList.update tid t3 (cw_tasks w)\<rparr>))))"

text \<open>Failed puts are passed over; the identifiers of the tasks are given by their position.\<close>

fun persist_lifecycle_tasks :: "crm_reach \<Rightarrow> int \<Rightarrow> (nat \<Rightarrow> string) \<Rightarrow> nat \<Rightarrow> task_request list \<Rightarrow> crm_world \<Rightarrow> crm_world" where
  "persist_lifecycle_tasks h now ids n [] w = w"
| "persist_lifecycle_tasks h now ids n (req # reqs) w =
     persist_lifecycle_tasks h now ids (Suc n) reqs (snd (create_operator_task h now (ids n) req w))"

definition no_credit :: deal_credit where
  "no_credit = \<lparr>dc_industry = [], dc_policy = [], dc_seo = 0, dc_email = False, dc_facebook = False, dc_instagram = False, dc_cost = 0\<rparr>"

definition auto_create_opportunity_from_lead ::
  "crm_config \<Rightarrow> crm_reach \<Rightarrow> int \<Rightarrow> string \<Rightarrow> (nat \<Rightarrow> string) \<Rightarrow> string \<Rightarrow> string \<Rightarrow> int option \<Rightarrow> string \<Rightarrow> string list \<Rightarrow> string
     \<Rightarrow> crm_world \<Rightarrow> string option \<times> crm_world" where
  "auto_create_opportunity_from_lead cfg h now oid ids prospect contact intent budget services assigned w =
     (let req = \<lparr>nr_prospect = prospect, nr_contact = contact, nr_name = [], nr_intent = intent, nr_budget = budget, nr_services = services,
                 nr_assigned = py_or assigned (cc_assignee cfg), nr_next = [], nr_expected = [], nr_credit = no_credit, nr_stake = ([], [])\<rparr>;
          (r, w) = create_opportunity h now oid req w
      in (r, if r = None then w
             else (case get_opportunity h oid w of
                 None \<Rightarrow> w
               | Some d \<Rightarrow> persist_lifecycle_tasks h now ids 0 (tasks_for_new_opportunity d intent now) w)))"

definition advance_opportunity_with_lifecycle ::
  "crm_config \<Rightarrow> crm_reach \<Rightarrow> int \<Rightarrow> (nat \<Rightarrow> string) \<Rightarrow> advance_request \<Rightarrow> crm_world \<Rightarrow> advance_result \<times> crm_world" where
  "advance_opportunity_with_lifecycle cfg h now ids req w =
     (let (r, w) = advance_opportunity cfg h now req w
      in (r, if as_status r \<noteq> Advanced then w
             else (case get_opportunity h (ar_id req) w of
                 None \<Rightarrow> w
               | Some d \<Rightarrow>
                   (let w = crm_log (if ar_target req \<in> set TERMINAL_STAGES then [Reward_Computed (op_id d) (ar_target req)] else []) w
                    in persist_lifecycle_tasks h now ids 0 (tasks_for_stage_advance d (ar_target req) now) w))))"

section \<open>The worker\<close>

datatype crm_job =
    Convert_Job string string string
  | Create_Job string create_request
  | Advance_Job advance_request
  | Task_Job string task_request
  | Update_Task_Job string task_status "int option" string string
  | Find_Job string
  | Close_By_Id_Job string rat string
  | Close_By_Email_Job string rat

datatype crm_reply =
    Convert_Reply convert_result
  | Create_Reply "string option"
  | Advance_Reply advance_result
  | Task_Reply "string option"
  | Update_Task_Reply task_update
  | Find_Reply "string option"
  | Email_Required
  | No_Open_Opportunity
  | Id_Required

definition crm_handle_action :: "crm_config \<Rightarrow> crm_reach \<times> crm_reach \<Rightarrow> int \<Rightarrow> crm_job \<Rightarrow> crm_world \<Rightarrow> crm_reply \<times> crm_world" where
  "crm_handle_action cfg hs now job w =
     (let h = fst hs in
      case job of
        Convert_Job lead np nc \<Rightarrow> (case convert_lead_to_prospect hs now np nc lead w of (r, w) \<Rightarrow> (Convert_Reply r, w))
      | Create_Job oid req \<Rightarrow> (case create_opportunity h now oid req w of (r, w) \<Rightarrow> (Create_Reply r, w))
      | Advance_Job req \<Rightarrow> (case advance_opportunity cfg h now req w of (r, w) \<Rightarrow> (Advance_Reply r, w))
      | Task_Job tid req \<Rightarrow> (case create_operator_task h now tid req w of (r, w) \<Rightarrow> (Task_Reply r, w))
      | Update_Task_Job tid target completed notes stamp \<Rightarrow>
          (case update_operator_task h now stamp target completed notes tid w of (r, w) \<Rightarrow> (Update_Task_Reply r, w))
      | Find_Job email \<Rightarrow> (Find_Reply (let email = py_strip email in if email = [] then None else find_opportunity_for_email h email w), w)
      | Close_By_Id_Job oid amount email \<Rightarrow>
          if oid = [] then (Id_Required, w)
          else (case close_opportunity_from_payment cfg hs now oid amount (py_strip email) w of (r, w) \<Rightarrow> (Advance_Reply r, w))
      | Close_By_Email_Job email amount \<Rightarrow>
          (let email = py_strip email in
           if email = [] then (Email_Required, w)
           else (case find_opportunity_for_email h email w of
               None \<Rightarrow> (No_Open_Opportunity, w)
             | Some oid \<Rightarrow>
                 if oid = [] then (No_Open_Opportunity, w)
                 else (case close_opportunity_from_payment cfg hs now oid amount email w of (r, w) \<Rightarrow> (Advance_Reply r, w)))))"

end
