(* ===== verification/Customer_Graph.thy ===== *)
theory Customer_Graph
  imports Prelude
begin

text \<open>
  The customer lifecycle of \<open>memory/customers.py\<close>: Customer nodes with a pointer to their state, and a StateEvent node for
  every transition. The database is the list of Customer nodes, keyed by id, and the list of events in the order they
  were written; each Cypher statement of the code is the operation on these lists that it denotes. Each statement can
  fail, without effect. Metadata is left out: no caller in the modelled code passes any.
\<close>

definition VALID_STATES :: "string list" where
  "VALID_STATES = [''prospect'', ''contacted'', ''paid'', ''in_delivery'', ''scope_confirmed'', ''delivered'', ''active_retainer'',
     ''retainer_cancelled'', ''renewed'', ''churned'']"

definition INITIAL_STATE :: string where "INITIAL_STATE = ''prospect''"

record customer =
  cu_id :: string
  cu_email :: string
  cu_name :: string
  cu_company :: string
  cu_source :: string
  cu_created :: rat
  cu_state :: string
  cu_since :: rat

record state_event =
  se_id :: string
  se_customer :: string
  se_from :: "string option"
  se_to :: string
  se_date :: rat
  se_reason :: string

record customer_graph =
  cg_nodes :: "(string \<times> customer) list"
  cg_events :: "state_event list"

text \<open>What works during one operation: the driver, the reads, writes to Customer nodes, writes of events.\<close>

record graph_reach =
  gr_available :: bool
  gr_read :: bool
  gr_node :: bool
  gr_event :: bool

datatype store_error = Unavailable | Bad_Email | Bad_State string | Not_Found string

definition slug_char :: "char \<Rightarrow> bool" where
  "slug_char c \<longleftrightarrow> (97 \<le> char_code c \<and> char_code c \<le> 122) \<or> py_isdigit c"

text \<open>\<open>[^a-z0-9]+\<close> replaced by one underscore; the flag says that the character before was replaced.\<close>

fun squash :: "bool \<Rightarrow> string \<Rightarrow> string" where
  "squash replaced [] = []"
| "squash replaced (c # cs) =
     (if slug_char c then c # squash False cs else if replaced then squash True cs else CHR ''_'' # squash True cs)"

definition strip_underscores :: "string \<Rightarrow> string" where
  "strip_underscores s = rev (dropWhile (\<lambda>c. c = CHR ''_'') (rev (dropWhile (\<lambda>c. c = CHR ''_'') s)))"

definition norm_email :: "string \<Rightarrow> string" where
  "norm_email email = py_lower (py_strip email)"

definition slugify_email :: "string \<Rightarrow> string \<Rightarrow> string" where
  "slugify_email uuid email =
     (let e = norm_email email;
          slug = (if CHR ''@'' \<in> set e
                  then takeWhile (\<lambda>c. c \<noteq> CHR ''@'') e @ ''_at_'' @ drop 1 (dropWhile (\<lambda>c. c \<noteq> CHR ''@'') e) else e)
      in py_or (strip_underscores (squash False slug)) uuid)"

section \<open>Operations\<close>

definition get_customer :: "graph_reach \<Rightarrow> string \<Rightarrow> customer_graph \<Rightarrow> customer option" where
  "get_customer h cid g = (if gr_available h \<and> gr_read h then map_of (cg_nodes g) cid else None)"

definition get_by_email :: "graph_reach \<Rightarrow> string \<Rightarrow> customer_graph \<Rightarrow> customer option" where
  "get_by_email h email g =
     (if gr_available h \<and> gr_read h then find (\<lambda>c. cu_email c = norm_email email) (map snd (cg_nodes g)) else None)"

text \<open>The event is created only when the MATCH finds the customer.\<close>

definition write_event :: "graph_reach \<Rightarrow> state_event \<Rightarrow> customer_graph \<Rightarrow> (store_error + state_event) \<times> customer_graph" where
  "write_event h e g =
     (if \<not> gr_event h then (Inl Unavailable, g)
      else (Inr e, if dict_has (cg_nodes g) (se_customer e) then g\<lparr>cg_events := cg_events g @ [e]\<rparr> else g))"

definition create_customer ::
  "graph_reach \<Rightarrow> string \<Rightarrow> rat \<Rightarrow> string \<Rightarrow> string \<Rightarrow> string \<Rightarrow> string \<Rightarrow> customer_graph \<Rightarrow> (store_error + customer) \<times> customer_graph" where
  "create_customer h uuid now email name company source g =
     (if email = [] \<or> CHR ''@'' \<notin> set email then (Inl Bad_Email, g)
      else if \<not> gr_available h then (Inl Unavailable, g)
      else (case get_by_email h email g of
          Some c \<Rightarrow> (Inr c, g)
        | None \<Rightarrow>
            (let c = \<lparr>cu_id = slugify_email uuid email, cu_email = norm_email email, cu_name = name, cu_company = company,
                      cu_source = py_or source ''manual'', cu_created = now, cu_state = INITIAL_STATE, cu_since = now\<rparr>
             in if \<not> gr_node h then (Inl Unavailable, g)
                else (let g = (if dict_has (cg_nodes g) (cu_id c) then g else g\<lparr>cg_nodes := cg_nodes g @ [(cu_id c, c)]\<rparr>);
                          (r, g) = write_event h \<lparr>se_id = uuid, se_customer = cu_id c, se_from = None, se_to = INITIAL_STATE,
                                                  se_date = now, se_reason = ''created''\<rparr> g
                      in (map_sum id (\<lambda>_. c) r, g)))))"

definition advance_state ::
  "graph_reach \<Rightarrow> string \<Rightarrow> rat \<Rightarrow> string \<Rightarrow> string \<Rightarrow> string \<Rightarrow> customer_graph \<Rightarrow> (store_error + state_event) \<times> customer_graph" where
  "advance_state h uuid now cid to_state reason g =
     (if to_state \<notin> set VALID_STATES then (Inl (Bad_State to_state), g)
      else if \<not> gr_available h then (Inl Unavailable, g)
      else (case get_customer h cid g of
          None \<Rightarrow> (Inl (Not_Found cid), g)
        | Some c \<Rightarrow>
            (case write_event h \<lparr>se_id = uuid, se_customer = cid, se_from = Some (cu_state c), se_to = to_state,
                                 se_date = now, se_reason = reason\<rparr> g of
               (Inl e, g) \<Rightarrow> (Inl e, g)
             | (Inr ev, g) \<Rightarrow>
                 if \<not> gr_node h then (Inl Unavailable, g)
                 else (Inr ev, g\<lparr>cg_nodes := map (\<lambda>(i, c). (i, if i = cid then c\<lparr>cu_state := to_state, cu_since := now\<rparr> else c)) (cg_nodes g)\<rparr>))))"

definition list_customers :: "graph_reach \<Rightarrow> string option \<Rightarrow> int \<Rightarrow> customer_graph \<Rightarrow> store_error + customer list" where
  "list_customers h state_filter limit g =
     (case state_filter of
        Some s \<Rightarrow> if s \<notin> set VALID_STATES then Inl (Bad_State s)
          else Inr (if gr_available h \<and> gr_read h
            then take (nat (max 1 (min (if limit = 0 then 100 else limit) 1000)))
              (sort_key (\<lambda>c. - cu_created c) (filter (\<lambda>c. cu_state c = s) (map snd (cg_nodes g)))) else [])
      | None \<Rightarrow>
          Inr (if gr_available h \<and> gr_read h
            then take (nat (max 1 (min (if limit = 0 then 100 else limit) 1000))) (sort_key (\<lambda>c. - cu_created c) (map snd (cg_nodes g))) else []))"

definition state_history :: "graph_reach \<Rightarrow> string \<Rightarrow> customer_graph \<Rightarrow> state_event list" where
  "state_history h cid g =
     (if gr_available h \<and> gr_read h then sort_key se_date (filter (\<lambda>e. se_customer e = cid) (cg_events g)) else [])"

section \<open>What one operation does\<close>

definition graph_working :: graph_reach where
  "graph_working = \<lparr>gr_available = True, gr_read = True, gr_node = True, gr_event = True\<rparr>"

lemma graph_working_simps [simp]:
  "gr_available graph_working" "gr_read graph_working" "gr_node graph_working" "gr_event graph_working"
  by (simp_all add: graph_working_def)

lemma write_event_graph:
  "snd (write_event h e g) = g \<or> snd (write_event h e g) = g\<lparr>cg_events := cg_events g @ [e]\<rparr>"
  by (simp add: write_event_def)

definition set_node :: "string \<Rightarrow> string \<Rightarrow> rat \<Rightarrow> (string \<times> customer) list \<Rightarrow> (string \<times> customer) list" where
  "set_node cid to_state now = map (\<lambda>(i, c). (i, if i = cid then c\<lparr>cu_state := to_state, cu_since := now\<rparr> else c))"

lemma map_of_set_node:
  "map_of (set_node cid to_state now ns) i
    = (if i = cid then map_option (\<lambda>c. c\<lparr>cu_state := to_state, cu_since := now\<rparr>) (map_of ns i) else map_of ns i)"
  by (induction ns) (auto simp: set_node_def)

lemma keys_set_node [simp]: "map fst (set_node cid to_state now ns) = map fst ns"
  by (induction ns) (auto simp: set_node_def)

lemma advance_cases:
  assumes "advance_state h uuid now cid to_state reason g = (r, g')"
  obtains (Same) "g' = g" "\<forall>ev. r \<noteq> Inr ev"
  | (Written) c where "to_state \<in> set VALID_STATES" "map_of (cg_nodes g) cid = Some c" "\<not> gr_node h" "r = Inl Unavailable"
      "g' = g\<lparr>cg_events := cg_events g @ [\<lparr>se_id = uuid, se_customer = cid, se_from = Some (cu_state c), se_to = to_state, se_date = now, se_reason = reason\<rparr>]\<rparr>"
  | (Advanced) c ev where "to_state \<in> set VALID_STATES" "map_of (cg_nodes g) cid = Some c" "r = Inr ev"
      "ev = \<lparr>se_id = uuid, se_customer = cid, se_from = Some (cu_state c), se_to = to_state, se_date = now, se_reason = reason\<rparr>"
      "g' = g\<lparr>cg_events := cg_events g @ [ev], cg_nodes := set_node cid to_state now (cg_nodes g)\<rparr>"
proof (cases "to_state \<notin> set VALID_STATES \<or> \<not> gr_available h \<or> get_customer h cid g = None \<or> \<not> gr_event h")
  case True
  with assms show ?thesis by (intro Same) (auto simp: advance_state_def write_event_def split: option.splits if_splits)
next
  case False
  then obtain c where c: "get_customer h cid g = Some c" by auto
  with False have m: "map_of (cg_nodes g) cid = Some c" by (auto simp: get_customer_def split: if_splits)
  have d: "dict_has (cg_nodes g) cid" by (simp add: dict_has_def m)
  note a = assms [unfolded advance_state_def write_event_def c, simplified, simplified d, simplified]
  show ?thesis
  proof (cases "gr_node h")
    case True
    with False a show ?thesis by (intro Advanced [OF _ m]) (auto simp: set_node_def d)
  next
    case no: False
    with False a show ?thesis by (intro Written [OF _ m no]) (auto simp: d)
  qed
qed

lemma create_cases:
  assumes "create_customer h uuid now email name company source g = (r, g')"
  defines "c \<equiv> \<lparr>cu_id = slugify_email uuid email, cu_email = norm_email email, cu_name = name, cu_company = company,
                cu_source = py_or source ''manual'', cu_created = now, cu_state = INITIAL_STATE, cu_since = now\<rparr>"
    and "ev \<equiv> \<lparr>se_id = uuid, se_customer = slugify_email uuid email, se_from = None, se_to = INITIAL_STATE, se_date = now, se_reason = ''created''\<rparr>"
  obtains (Same) "g' = g" "\<forall>x. r = Inr x \<longrightarrow> get_by_email h email g = Some x"
  | (Merged) "get_by_email h email g = None" "dict_has (cg_nodes g) (cu_id c)" "r \<in> {Inl Unavailable, Inr c}"
      "g' = (if gr_event h then g\<lparr>cg_events := cg_events g @ [ev]\<rparr> else g)"
  | (Created) "get_by_email h email g = None" "\<not> dict_has (cg_nodes g) (cu_id c)" "r = (if gr_event h then Inr c else Inl Unavailable)"
      "g' = (if gr_event h then g\<lparr>cg_nodes := cg_nodes g @ [(cu_id c, c)], cg_events := cg_events g @ [ev]\<rparr> else g\<lparr>cg_nodes := cg_nodes g @ [(cu_id c, c)]\<rparr>)"
proof (cases "email = [] \<or> CHR ''@'' \<notin> set email \<or> \<not> gr_available h \<or> get_by_email h email g \<noteq> None \<or> \<not> gr_node h")
  case True
  with assms(1) show ?thesis by (intro Same) (auto simp: create_customer_def Let_def split: option.splits if_splits)
next
  case False
  then have n: "get_by_email h email g = None" by simp
  show ?thesis
  proof (cases "dict_has (cg_nodes g) (cu_id c)")
    case True
    with False assms(1) show ?thesis
      by (intro Merged [OF n True]) (auto simp: create_customer_def write_event_def c_def ev_def Let_def split: if_splits)
  next
    case new: False
    with False assms(1) show ?thesis
      by (intro Created [OF n new]) (auto simp: create_customer_def write_event_def c_def ev_def Let_def dict_has_def split: if_splits)
  qed
qed

section \<open>Properties\<close>

datatype graph_op =
    Create graph_reach string rat string string string string
  | Advance graph_reach string rat string string string

fun graph_step :: "graph_op \<Rightarrow> customer_graph \<Rightarrow> customer_graph" where
  "graph_step (Create h uuid now email name company source) g = snd (create_customer h uuid now email name company source g)"
| "graph_step (Advance h uuid now cid to_state reason) g = snd (advance_state h uuid now cid to_state reason g)"

definition no_customers :: customer_graph where "no_customers = \<lparr>cg_nodes = [], cg_events = []\<rparr>"

definition states_valid :: "customer_graph \<Rightarrow> bool" where
  "states_valid g \<longleftrightarrow> (\<forall>(i, c) \<in> set (cg_nodes g). cu_id c = i \<and> cu_state c \<in> set VALID_STATES)
     \<and> (\<forall>e \<in> set (cg_events g). se_to e \<in> set VALID_STATES \<and> dict_has (cg_nodes g) (se_customer e)
          \<and> (case se_from e of Some s \<Rightarrow> s \<in> set VALID_STATES | None \<Rightarrow> True)) \<and> dict_wf (cg_nodes g)"

lemma dict_has_append: "dict_has (xs @ ys) k \<longleftrightarrow> dict_has xs k \<or> dict_has ys k"
  by (auto simp: dict_has_keys)

lemma initial_valid [simp]: "INITIAL_STATE \<in> set VALID_STATES"
  by (simp add: INITIAL_STATE_def VALID_STATES_def)

lemma set_node_elem: "(i, c) \<in> set (set_node cid to_state now ns) \<Longrightarrow>
    \<exists>c0. (i, c0) \<in> set ns \<and> c = (if i = cid then c0\<lparr>cu_state := to_state, cu_since := now\<rparr> else c0)"
  by (auto simp: set_node_def)

lemma dict_has_set_node [simp]: "dict_has (set_node cid to_state now ns) k \<longleftrightarrow> dict_has ns k"
  by (simp add: dict_has_keys)

lemma advance_valid:
  assumes "states_valid g"
  shows "states_valid (snd (advance_state h uuid now cid to_state reason g))"
proof -
  obtain r g' where a: "advance_state h uuid now cid to_state reason g = (r, g')" by fastforce
  have node: "map_of (cg_nodes g) cid = Some c \<Longrightarrow> cu_state c \<in> set VALID_STATES" for c
    using assms map_of_SomeD [of "cg_nodes g" cid c] by (auto simp: states_valid_def)
  have d: "map_of (cg_nodes g) cid = Some c \<Longrightarrow> dict_has (cg_nodes g) cid" for c by (simp add: dict_has_def)
  have "states_valid g'" using a
  proof (cases rule: advance_cases)
    case Same
    with assms show ?thesis by simp
  next
    case (Written c)
    with assms node d show ?thesis by (auto simp: states_valid_def)
  next
    case (Advanced c ev)
    have "cu_id c' = i \<and> cu_state c' \<in> set VALID_STATES" if "(i, c') \<in> set (set_node cid to_state now (cg_nodes g))" for i c'
      using set_node_elem [OF that] assms Advanced(1) by (auto simp: states_valid_def)
    with Advanced assms node d show ?thesis by (auto simp: states_valid_def dict_wf_def)
  qed
  then show ?thesis by (simp add: a)
qed

lemma create_valid:
  assumes "states_valid g"
  shows "states_valid (snd (create_customer h uuid now email name company source g))"
proof -
  obtain r g' where a: "create_customer h uuid now email name company source g = (r, g')" by fastforce
  have new: "dict_wf (cg_nodes g @ [(k, c)])" if "\<not> dict_has (cg_nodes g) k" for k and c :: customer
    using assms that by (auto simp: states_valid_def dict_wf_def dict_has_keys)
  have "states_valid g'" using a
  proof (cases rule: create_cases)
    case Same
    with assms show ?thesis by simp
  next
    case Merged
    with assms show ?thesis by (auto simp: states_valid_def)
  next
    case Created
    with assms new show ?thesis by (auto simp: states_valid_def dict_has_append) (auto simp: dict_has_def)
  qed
  then show ?thesis by (simp add: a)
qed

text \<open>C18: Every stored state is one of the ten. After any operations on the customer store, with any arguments and any of the
  database's statements failing, each customer's state and both ends of each event are among the valid states, each
  customer stands under its own id, once, and each event belongs to a customer that is there.\<close>

theorem customer_states_stay_valid: "states_valid (fold graph_step ops no_customers)"
proof -
  have "states_valid (fold graph_step ops g)" if "states_valid g" for g
    using that
  proof (induction ops arbitrary: g)
    case (Cons op ops)
    then show ?case by (cases op) (simp_all add: advance_valid create_valid)
  qed simp
  moreover have "states_valid no_customers" by (simp add: states_valid_def no_customers_def dict_wf_def)
  ultimately show ?thesis by blast
qed

text \<open>The events of one customer, linked end to start.\<close>

fun linked :: "string option \<Rightarrow> state_event list \<Rightarrow> bool" where
  "linked s [] = True"
| "linked s (e # es) = (se_from e = s \<and> linked (Some (se_to e)) es)"

definition events_of :: "string \<Rightarrow> customer_graph \<Rightarrow> state_event list" where
  "events_of cid g = filter (\<lambda>e. se_customer e = cid) (cg_events g)"

definition last_state :: "state_event list \<Rightarrow> string option" where
  "last_state es = (if es = [] then None else Some (se_to (last es)))"

lemma linked_snoc: "linked s (es @ [e]) \<longleftrightarrow> linked s es \<and> se_from e = (if es = [] then s else last_state es)"
  by (induction s es rule: linked.induct) (auto simp: last_state_def)

lemma last_state_snoc [simp]: "last_state (es @ [e]) = Some (se_to e)"
  by (simp add: last_state_def)

definition history_ok :: "customer_graph \<Rightarrow> bool" where
  "history_ok g \<longleftrightarrow> (\<forall>cid. linked None (events_of cid g) \<and> last_state (events_of cid g) = map_option cu_state (map_of (cg_nodes g) cid))"

fun clean_op :: "graph_op \<Rightarrow> customer_graph \<Rightarrow> bool" where
  "clean_op (Create h uuid now email name company source) g \<longleftrightarrow>
     h = graph_working \<and> (get_by_email h email g = None \<longrightarrow> \<not> dict_has (cg_nodes g) (slugify_email uuid email))"
| "clean_op (Advance h uuid now cid to_state reason) g \<longleftrightarrow> h = graph_working"

fun clean_run :: "graph_op list \<Rightarrow> customer_graph \<Rightarrow> bool" where
  "clean_run [] g = True"
| "clean_run (op # ops) g = (clean_op op g \<and> clean_run ops (graph_step op g))"

lemma clean_step:
  assumes "history_ok g" "clean_op op g"
  shows "history_ok (graph_step op g)"
proof (cases op)
  case (Create h uuid now email name company source)
  obtain r g' where a: "create_customer h uuid now email name company source g = (r, g')" by fastforce
  have "history_ok g'" using a
  proof (cases rule: create_cases)
    case Same
    with assms show ?thesis by simp
  next
    case Merged
    with assms Create show ?thesis by simp
  next
    case Created
    then have "events_of (slugify_email uuid email) g = []"
      using assms(1) by (auto simp: history_ok_def dict_has_def last_state_def split: if_splits)
    with Created assms Create show ?thesis
      by (auto simp: history_ok_def events_of_def linked_snoc map_add_def dict_has_def split: option.split)
  qed
  then show ?thesis by (simp add: Create a)
next
  case (Advance h uuid now cid to_state reason)
  obtain r g' where a: "advance_state h uuid now cid to_state reason g = (r, g')" by fastforce
  have "history_ok g'" using a
  proof (cases rule: advance_cases)
    case Same
    with assms show ?thesis by simp
  next
    case Written
    with assms Advance show ?thesis by simp
  next
    case (Advanced c ev)
    from assms(1) Advanced(2) have "last_state (events_of cid g) = Some (cu_state c)" by (simp add: history_ok_def)
    with Advanced assms(1) show ?thesis
      by (auto simp: history_ok_def events_of_def linked_snoc map_of_set_node last_state_def split: if_splits)
  qed
  then show ?thesis by (simp add: Advance a)
qed

text \<open>The history explains the state. As long as the database works and no two emails share an id, each customer's events
  form a path that starts with the creation, each event starting where the one before ended, and ends in the
  customer's current state; an id without a customer has no events.\<close>

theorem history_ends_in_current_state:
  assumes "clean_run ops no_customers" "g = fold graph_step ops no_customers"
  shows "linked None (events_of cid g) \<and> last_state (events_of cid g) = map_option cu_state (map_of (cg_nodes g) cid)"
proof -
  have "history_ok (fold graph_step ops g)" if "history_ok g" "clean_run ops g" for g
    using that by (induction ops arbitrary: g) (simp_all add: clean_step)
  moreover have "history_ok no_customers" by (simp add: history_ok_def no_customers_def events_of_def last_state_def)
  ultimately have "history_ok g" using assms by simp
  then show ?thesis by (simp add: history_ok_def)
qed

text \<open>Two emails with one id share a customer. If an email that no customer has is turned into the id of another customer,
  creating a customer for it answers with that id and the state prospect, whatever the state of the other customer is;
  advancing the answered customer changes the state of the other one, and the new email is as unknown as before.\<close>

theorem colliding_emails_share_a_customer:
  assumes "map_of (cg_nodes g) cid = Some c" "slugify_email uuid email = cid" "get_by_email graph_working email g = None"
    and "CHR ''@'' \<in> set email" "to_state \<in> set VALID_STATES"
    and "create_customer graph_working uuid now email name company source g = (r, g1)"
    and "advance_state graph_working uuid' later cid to_state reason g1 = (r', g2)"
  shows "\<exists>c'. r = Inr c' \<and> cu_id c' = cid \<and> cu_state c' = INITIAL_STATE
    \<and> map_of (cg_nodes g2) cid = Some (c\<lparr>cu_state := to_state, cu_since := later\<rparr>)
    \<and> get_by_email graph_working email g2 = None"
proof -
  have "email \<noteq> []" using assms(4) by auto
  with assms(1-4,6) have 1: "\<exists>c'. r = Inr c' \<and> cu_id c' = cid \<and> cu_state c' = INITIAL_STATE" "cg_nodes g1 = cg_nodes g"
    by (auto simp: create_customer_def write_event_def dict_has_def Let_def)
  from assms(7) have 2: "cg_nodes g2 = set_node cid to_state later (cg_nodes g)"
  proof (cases rule: advance_cases)
    case Same
    with assms(1,5,7) 1(2) show ?thesis by (auto simp: advance_state_def get_customer_def write_event_def)
  qed (simp_all add: 1(2))
  have "find (\<lambda>c. cu_email c = norm_email email) (map snd (cg_nodes g)) = None"
    using assms(3) by (simp add: get_by_email_def)
  then have "find (\<lambda>c. cu_email c = norm_email email) (map snd (cg_nodes g2)) = None"
    unfolding 2 by (auto simp: find_None_iff set_node_def split: if_splits)
  with 1 2 assms(1) show ?thesis by (auto simp: get_by_email_def map_of_set_node)
qed

text \<open>A transition that fails half way is in the history only. When the event is written and the update of the customer
  fails, the caller is told that the store is unavailable and the customer keeps its state, but the history ends
  in the state that was asked for.\<close>

theorem failed_advance_stays_in_history:
  assumes "map_of (cg_nodes g) cid = Some c" "to_state \<in> set VALID_STATES" "gr_available h" "gr_read h" "gr_event h" "\<not> gr_node h"
    and "advance_state h uuid now cid to_state reason g = (r, g')"
  shows "r = Inl Unavailable \<and> map_of (cg_nodes g') cid = Some c \<and> last_state (events_of cid g') = Some to_state"
  using assms by (auto simp: advance_state_def get_customer_def write_event_def dict_has_def events_of_def)

section \<open>Instances\<close>

definition demo_ops :: "graph_op list" where
  "demo_ops = [Create graph_working ''u1'' 1 ''Ann.Lee@x.com'' [] [] ''stripe_webhook'', Advance graph_working ''u2'' 2 ''ann_lee_at_x_com'' ''paid'' [],
     Advance graph_working ''u3'' 3 ''ann_lee_at_x_com'' ''delivered'' []]"

lemma demo_slugs: "slugify_email u ''Ann.Lee@x.com'' = ''ann_lee_at_x_com''" "slugify_email u ''ann-lee@x.com'' = ''ann_lee_at_x_com''"
    "norm_email ''Ann.Lee@x.com'' = ''ann.lee@x.com''" "norm_email ''ann-lee@x.com'' = ''ann-lee@x.com''"
  by code_simp+

theorem history_ends_in_current_state_witness:
  "last_state (events_of ''ann_lee_at_x_com'' (fold graph_step demo_ops no_customers))
    = map_option cu_state (map_of (cg_nodes (fold graph_step demo_ops no_customers)) ''ann_lee_at_x_com'')"
proof -
  have "clean_run demo_ops no_customers"
    by (simp add: demo_ops_def no_customers_def get_by_email_def demo_slugs dict_has_def)
  from history_ends_in_current_state [OF this refl] show ?thesis by blast
qed

definition demo_customers :: customer_graph where
  "demo_customers = \<lparr>cg_nodes = [(''ann_lee_at_x_com'', \<lparr>cu_id = ''ann_lee_at_x_com'', cu_email = ''ann.lee@x.com'', cu_name = [], cu_company = [],
     cu_source = ''manual'', cu_created = 1, cu_state = ''delivered'', cu_since = 3\<rparr>)], cg_events = []\<rparr>"

theorem colliding_emails_share_a_customer_witness:
  "\<exists>g1 r c. create_customer graph_working ''u4'' 9 ''ann-lee@x.com'' [] [] ''stripe_webhook'' demo_customers = (r, g1)
    \<and> map_of (cg_nodes (snd (advance_state graph_working ''u5'' 9 ''ann_lee_at_x_com'' ''paid'' [] g1))) ''ann_lee_at_x_com'' = Some c
    \<and> cu_email c = ''ann.lee@x.com'' \<and> cu_state c = ''paid''"
proof -
  let ?c = "\<lparr>cu_id = ''ann_lee_at_x_com'', cu_email = ''ann.lee@x.com'', cu_name = [], cu_company = [],
     cu_source = ''manual'', cu_created = 1, cu_state = ''delivered'', cu_since = 3\<rparr>"
  obtain r g1 where c: "create_customer graph_working ''u4'' 9 ''ann-lee@x.com'' [] [] ''stripe_webhook'' demo_customers = (r, g1)"
    by (rule that) (rule prod.collapse [symmetric])
  obtain r' g2 where a: "advance_state graph_working ''u5'' 9 ''ann_lee_at_x_com'' ''paid'' [] g1 = (r', g2)"
    by (rule that) (rule prod.collapse [symmetric])
  have "map_of (cg_nodes demo_customers) ''ann_lee_at_x_com'' = Some ?c" by (simp add: demo_customers_def)
  from colliding_emails_share_a_customer [OF this demo_slugs(2) _ _ _ c a]
  have "map_of (cg_nodes g2) ''ann_lee_at_x_com'' = Some (?c\<lparr>cu_state := ''paid'', cu_since := 9\<rparr>)"
    by (auto simp: get_by_email_def demo_customers_def demo_slugs VALID_STATES_def)
  with c a show ?thesis by (intro exI conjI) (assumption | simp)+
qed

theorem failed_advance_stays_in_history_witness:
  "last_state (events_of ''ann_lee_at_x_com'' (snd (advance_state \<lparr>gr_available = True, gr_read = True, gr_node = False, gr_event = True\<rparr>
      ''u6'' 9 ''ann_lee_at_x_com'' ''renewed'' [] demo_customers))) = Some ''renewed''"
proof -
  let ?h = "\<lparr>gr_available = True, gr_read = True, gr_node = False, gr_event = True\<rparr>"
  obtain r g1 where a: "advance_state ?h ''u6'' 9 ''ann_lee_at_x_com'' ''renewed'' [] demo_customers = (r, g1)"
    by (rule that) (rule prod.collapse [symmetric])
  have "map_of (cg_nodes demo_customers) ''ann_lee_at_x_com'' \<noteq> None" by (simp add: demo_customers_def)
  then obtain c where c: "map_of (cg_nodes demo_customers) ''ann_lee_at_x_com'' = Some c" by auto
  from failed_advance_stays_in_history [OF c _ _ _ _ _ a] show ?thesis by (simp add: a VALID_STATES_def)
qed

end
