(* ===== verification/Upsell_Queue.thy ===== *)
theory Upsell_Queue
  imports Json
begin

text \<open>
  The upsell touches of \<open>finance/upsell_queue.py\<close> and the pass of \<open>finance/upsell_runner.py\<close> that mails them. The log is
  the list of its well-formed rows; an ISO timestamp is the number of its second (such texts compare as their times do).
  An operation reads the clock once. What is given: the fresh event id of each row, by its place in the log; whether the log takes
  rows during an operation (a failed append is swallowed); the coupon Stripe hands out; how a mail is rendered and
  what sending it does.
\<close>

datatype upsell_kind = Queued | Sent | Failed | Converted | Skipped_Dup

record coupon_bundle =
  cb_coupon :: string
  cb_promotion :: string
  cb_code :: string
  cb_cents :: int

record upsell_row =
  ur_event :: string
  ur_ts :: int
  ur_kind :: upsell_kind
  ur_touch :: int
  ur_customer :: string
  ur_email :: string
  ur_source :: string
  ur_target :: string
  ur_price :: string
  ur_due :: "int option"
  ur_message :: string
  ur_subscription :: string
  ur_error :: string
  ur_coupon :: coupon_bundle

definition no_coupon :: coupon_bundle where
  "no_coupon = \<lparr>cb_coupon = [], cb_promotion = [], cb_code = [], cb_cents = 0\<rparr>"

text \<open>The rows; the touches that were handed to the mail backend; the coupons asked of Stripe, by customer and offer.\<close>

record upsell_world =
  uw_rows :: "upsell_row list"
  uw_mails :: "upsell_row list"
  uw_coupons :: "(string \<times> string) list"

type_synonym touch_key = "string \<times> string \<times> int"

definition upsell_key :: "upsell_row \<Rightarrow> touch_key" where
  "upsell_key r = (ur_customer r, ur_source r, ur_touch r)"

definition current_state_by_key :: "upsell_row list \<Rightarrow> (touch_key \<times> upsell_row) list" where
  "current_state_by_key rows =
     fold (\<lambda>r latest. case map_of latest (upsell_key r) of
         None \<Rightarrow> AList.update (upsell_key r) r latest
       | Some prev \<Rightarrow> if ur_ts r \<ge> ur_ts prev then AList.update (upsell_key r) r latest else latest) rows []"

section \<open>Operations\<close>

definition DEFAULT_TOUCH_DELAYS_DAYS :: "int list" where "DEFAULT_TOUCH_DELAYS_DAYS = [5, 12, 30]"

record upsell_target =
  ut_offer :: string
  ut_price :: string
  ut_quote :: bool

definition UPSELL_TARGET_MAP :: "(string \<times> upsell_target) list" where
  "UPSELL_TARGET_MAP =
     [(''seo_audit'', \<lparr>ut_offer = ''seo_implementation'', ut_price = ''price_1TKuEeBdo4u4gpS7853xVNwz'', ut_quote = False\<rparr>),
      (''seo_implementation'', \<lparr>ut_offer = ''seo_optimization'', ut_price = ''price_1TKu0aBdo4u4gpS7I6ZPKIy6'', ut_quote = False\<rparr>),
      (''service_workflow_rescue'', \<lparr>ut_offer = ''service_workflow_buildout'', ut_price = ''price_1TAj1pBdo4u4gpS7JBbZ5SWJ'', ut_quote = True\<rparr>),
      (''service_workflow_buildout'', \<lparr>ut_offer = ''service_ai_ops_partner_build'', ut_price = [], ut_quote = True\<rparr>)]"

definition UPSELL_CREDIT_CENTS_BY_SOURCE :: "(string \<times> int) list" where
  "UPSELL_CREDIT_CENTS_BY_SOURCE =
     [(''seo_audit'', 14900), (''seo_implementation'', 20000), (''service_workflow_rescue'', 50000), (''service_workflow_buildout'', 250000)]"

definition existing_coupon_for :: "upsell_row list \<Rightarrow> string \<Rightarrow> string \<Rightarrow> coupon_bundle option" where
  "existing_coupon_for rows customer source =
     map_option ur_coupon (find (\<lambda>r. ur_customer r = customer \<and> ur_source r = source \<and> cb_coupon (ur_coupon r) \<noteq> []) rows)"

definition append_row :: "bool \<Rightarrow> upsell_row \<Rightarrow> upsell_world \<Rightarrow> upsell_world" where
  "append_row appends r w = (if appends then w\<lparr>uw_rows := uw_rows w @ [r]\<rparr> else w)"

definition touch_row_for ::
  "(nat \<Rightarrow> string) \<Rightarrow> int \<Rightarrow> touch_key list \<Rightarrow> string \<Rightarrow> string \<Rightarrow> string \<Rightarrow> upsell_target \<Rightarrow> int \<Rightarrow> coupon_bundle \<Rightarrow> int \<times> int \<Rightarrow> upsell_world \<Rightarrow> upsell_row" where
  "touch_row_for ids now existing customer email source target delivered bundle = (\<lambda>(touch, delay) w.
     (let dup = (customer, source, touch) \<in> set existing in
      \<lparr>ur_event = ids (length (uw_rows w)), ur_ts = now, ur_kind = (if dup then Skipped_Dup else Queued), ur_touch = touch,
       ur_customer = customer, ur_email = email, ur_source = source, ur_target = ut_offer target, ur_price = ut_price target,
       ur_due = (if dup then None else Some (delivered + delay * 86400)), ur_message = [], ur_subscription = [], ur_error = [],
       ur_coupon = bundle\<rparr>))"

definition enqueue_upsell ::
  "(nat \<Rightarrow> string) \<Rightarrow> bool \<Rightarrow> int \<Rightarrow> coupon_bundle \<Rightarrow> int list \<Rightarrow> string \<Rightarrow> string \<Rightarrow> string \<Rightarrow> int \<Rightarrow> upsell_world \<Rightarrow> upsell_world" where
  "enqueue_upsell ids appends now made delays customer email source delivered w =
     (case map_of UPSELL_TARGET_MAP source of
        None \<Rightarrow> w
      | Some target \<Rightarrow>
          (let existing = map fst (current_state_by_key (uw_rows w));
               credit = dict_get UPSELL_CREDIT_CENTS_BY_SOURCE source 0;
               (bundle, w) = (case existing_coupon_for (uw_rows w) customer source of
                   Some b \<Rightarrow> (b, w)
                 | None \<Rightarrow>
                     if credit > 0 \<and> \<not> ut_quote target then (made, w\<lparr>uw_coupons := uw_coupons w @ [(customer, source)]\<rparr>)
                     else (no_coupon\<lparr>cb_cents := credit\<rparr>, w))
           in fold (\<lambda>td w. append_row appends (touch_row_for ids now existing customer email source target delivered bundle td w) w)
                (zip [1 .. int (length delays)] delays) w))"

definition due_upsells :: "int \<Rightarrow> upsell_world \<Rightarrow> upsell_row list" where
  "due_upsells now w =
     sort_key (\<lambda>r. case ur_due r of Some d \<Rightarrow> d | None \<Rightarrow> 0) (sort_key ur_customer (sort_key ur_touch
       (filter (\<lambda>r. ur_kind r = Queued \<and> (case ur_due r of Some d \<Rightarrow> d \<le> now | None \<Rightarrow> False))
         (map snd (current_state_by_key (uw_rows w))))))"

text \<open>The transition rows carry what identifies the touch, not its due time nor its coupon.\<close>

definition transition_row :: "(nat \<Rightarrow> string) \<Rightarrow> int \<Rightarrow> upsell_row \<Rightarrow> upsell_kind \<Rightarrow> upsell_world \<Rightarrow> upsell_row" where
  "transition_row ids now r kind w =
     r\<lparr>ur_event := ids (length (uw_rows w)), ur_ts := now, ur_kind := kind, ur_due := None, ur_message := [], ur_subscription := [],
       ur_error := [], ur_coupon := no_coupon\<rparr>"

definition mark_sent :: "(nat \<Rightarrow> string) \<Rightarrow> bool \<Rightarrow> int \<Rightarrow> upsell_row \<Rightarrow> string \<Rightarrow> upsell_world \<Rightarrow> upsell_world" where
  "mark_sent ids appends now r message_id w = append_row appends ((transition_row ids now r Sent w)\<lparr>ur_message := message_id\<rparr>) w"

definition mark_failed :: "(nat \<Rightarrow> string) \<Rightarrow> bool \<Rightarrow> int \<Rightarrow> upsell_row \<Rightarrow> string \<Rightarrow> upsell_world \<Rightarrow> upsell_world" where
  "mark_failed ids appends now r err w = append_row appends ((transition_row ids now r Failed w)\<lparr>ur_error := take 200 err\<rparr>) w"

definition mark_converted :: "(nat \<Rightarrow> string) \<Rightarrow> bool \<Rightarrow> int \<Rightarrow> string \<Rightarrow> string \<Rightarrow> int \<Rightarrow> string \<Rightarrow> upsell_world \<Rightarrow> upsell_world" where
  "mark_converted ids appends now customer source touch subscription w =
     (case find (\<lambda>r. ur_customer r = customer \<and> ur_source r = source \<and> ur_touch r = touch \<and> ur_kind r = Sent) (uw_rows w) of
        None \<Rightarrow> w
      | Some r \<Rightarrow> append_row appends ((transition_row ids now r Converted w)\<lparr>ur_subscription := subscription\<rparr>) w)"

text \<open>One pass of the runner; the rendered mail is not looked at, only whether there is one.\<close>

definition process_row ::
  "(nat \<Rightarrow> string) \<Rightarrow> bool \<Rightarrow> int \<Rightarrow> (upsell_row \<Rightarrow> bool) \<Rightarrow> (upsell_row \<Rightarrow> string + string) \<Rightarrow> upsell_row \<Rightarrow> upsell_world \<Rightarrow> upsell_world" where
  "process_row ids appends now renders send r w =
     (if \<not> renders r then mark_failed ids appends now r ''no_composer'' w
      else (let w = w\<lparr>uw_mails := uw_mails w @ [r]\<rparr> in
            case send r of
              Inl err \<Rightarrow> mark_failed ids appends now r err w
            | Inr message_id \<Rightarrow> mark_sent ids appends now r message_id w))"

definition process_upsell_queue ::
  "(nat \<Rightarrow> string) \<Rightarrow> bool \<Rightarrow> int \<Rightarrow> (upsell_row \<Rightarrow> bool) \<Rightarrow> (upsell_row \<Rightarrow> string + string) \<Rightarrow> upsell_world \<Rightarrow> upsell_world" where
  "process_upsell_queue ids appends now renders send w =
     fold (process_row ids appends now renders send) (due_upsells now w) w"

section \<open>The state of a touch is its last row\<close>

definition last_of :: "touch_key \<Rightarrow> upsell_row list \<Rightarrow> upsell_row option" where
  "last_of k rows = (case filter (\<lambda>r. upsell_key r = k) (rev rows) of [] \<Rightarrow> None | r # rs \<Rightarrow> Some r)"

lemma last_of_snoc: "last_of k (rows @ [r]) = (if upsell_key r = k then Some r else last_of k rows)"
  by (simp add: last_of_def)

lemma last_of_append: "last_of k (rows @ new) = (case last_of k new of Some r \<Rightarrow> Some r | None \<Rightarrow> last_of k rows)"
  by (simp add: last_of_def split: list.split)

lemma last_of_Some: "last_of k rows = Some r \<Longrightarrow> r \<in> set rows \<and> upsell_key r = k"
  by (induction rows rule: rev_induct) (simp add: last_of_def, auto simp: last_of_snoc split: if_splits)

lemma last_of_None: "last_of k rows = None \<longleftrightarrow> k \<notin> upsell_key ` set rows"
  by (induction rows rule: rev_induct) (simp add: last_of_def, auto simp: last_of_snoc)

definition latest_step :: "upsell_row \<Rightarrow> (touch_key \<times> upsell_row) list \<Rightarrow> (touch_key \<times> upsell_row) list" where
  "latest_step r latest = (case map_of latest (upsell_key r) of
         None \<Rightarrow> AList.update (upsell_key r) r latest
       | Some prev \<Rightarrow> if ur_ts r \<ge> ur_ts prev then AList.update (upsell_key r) r latest else latest)"

lemma current_state_snoc: "current_state_by_key (rows @ [r]) = latest_step r (current_state_by_key rows)"
  by (simp add: current_state_by_key_def latest_step_def)

lemma current_state_wf: "dict_wf (current_state_by_key rows)"
proof (induction rows rule: rev_induct)
  case (snoc r rows)
  then show ?case by (auto simp: current_state_snoc latest_step_def dict_wf_update split: option.split)
qed (simp add: current_state_by_key_def dict_wf_def)

lemma current_state_last:
  assumes "sorted (map ur_ts rows)"
  shows "map_of (current_state_by_key rows) k = last_of k rows"
  using assms
proof (induction rows rule: rev_induct)
  case (snoc r rows)
  have "sorted (map ur_ts rows)" "\<forall>x \<in> set rows. ur_ts x \<le> ur_ts r" using snoc.prems by (auto simp: sorted_append)
  moreover have "last_of (upsell_key r) rows = Some prev \<Longrightarrow> prev \<in> set rows" for prev using last_of_Some by blast
  ultimately show ?case using snoc.IH
    by (auto simp: current_state_snoc latest_step_def map_of_update last_of_snoc split: option.split)
qed (simp add: current_state_by_key_def last_of_def)

lemma existing_keys:
  assumes "sorted (map ur_ts rows)"
  shows "k \<in> set (map fst (current_state_by_key rows)) \<longleftrightarrow> last_of k rows \<noteq> None"
  using current_state_last [OF assms, of k] dict_has_keys [of "current_state_by_key rows" k] by (simp add: dict_has_def)

lemma due_upsells_iff:
  assumes "sorted (map ur_ts (uw_rows w))"
  shows "r \<in> set (due_upsells now w) \<longleftrightarrow> last_of (upsell_key r) (uw_rows w) = Some r \<and> ur_kind r = Queued
    \<and> (\<exists>d. ur_due r = Some d \<and> d \<le> now)"
proof -
  have "r \<in> snd ` set (current_state_by_key (uw_rows w)) \<longleftrightarrow> last_of (upsell_key r) (uw_rows w) = Some r"
  proof
    assume "r \<in> snd ` set (current_state_by_key (uw_rows w))"
    then obtain k where "(k, r) \<in> set (current_state_by_key (uw_rows w))" by auto
    then have "last_of k (uw_rows w) = Some r"
      using current_state_wf [of "uw_rows w"] current_state_last [OF assms, of k] by (simp add: dict_wf_def)
    with last_of_Some show "last_of (upsell_key r) (uw_rows w) = Some r" by metis
  next
    assume "last_of (upsell_key r) (uw_rows w) = Some r"
    then show "r \<in> snd ` set (current_state_by_key (uw_rows w))"
      using current_state_last [OF assms] by (metis image_eqI map_of_SomeD snd_conv)
  qed
  then show ?thesis by (auto simp: due_upsells_def split: option.splits)
qed

lemma distinct_map_sort: "distinct (map f (sort_key g xs)) \<longleftrightarrow> distinct (map f xs)"
  by (simp add: distinct_map)

lemma due_keys_distinct:
  assumes "sorted (map ur_ts (uw_rows w))"
  shows "distinct (map upsell_key (due_upsells now w))"
proof -
  have "distinct (map fst (current_state_by_key (uw_rows w)))" using current_state_wf by (simp add: dict_wf_def)
  moreover have "map fst (current_state_by_key (uw_rows w)) = map upsell_key (map snd (current_state_by_key (uw_rows w)))"
    using current_state_last [OF assms] last_of_Some current_state_wf
    by (auto simp: dict_wf_def) (metis map_of_eq_Some_iff)
  ultimately have "distinct (map upsell_key (map snd (current_state_by_key (uw_rows w))))" by metis
  then have "distinct (map upsell_key (filter P (map snd (current_state_by_key (uw_rows w)))))" for P by (rule distinct_map_filter)
  then show ?thesis unfolding due_upsells_def distinct_map_sort .
qed

section \<open>Runs\<close>

text \<open>An operation with the clock reading it is given and whether the log takes its rows.\<close>

datatype upsell_op =
    Enqueue int bool coupon_bundle "int list" string string string int
  | Pass int bool "upsell_row \<Rightarrow> bool" "upsell_row \<Rightarrow> string + string"
  | Convert int bool string string int string

fun op_time :: "upsell_op \<Rightarrow> int" where
  "op_time (Enqueue now appends made delays customer email source delivered) = now"
| "op_time (Pass now appends renders send) = now"
| "op_time (Convert now appends customer source touch subscription) = now"

fun op_appends :: "upsell_op \<Rightarrow> bool" where
  "op_appends (Enqueue now appends made delays customer email source delivered) = appends"
| "op_appends (Pass now appends renders send) = appends"
| "op_appends (Convert now appends customer source touch subscription) = appends"

fun upsell_step :: "(nat \<Rightarrow> string) \<Rightarrow> upsell_op \<Rightarrow> upsell_world \<Rightarrow> upsell_world" where
  "upsell_step ids (Enqueue now appends made delays customer email source delivered) w =
     enqueue_upsell ids appends now made delays customer email source delivered w"
| "upsell_step ids (Pass now appends renders send) w = process_upsell_queue ids appends now renders send w"
| "upsell_step ids (Convert now appends customer source touch subscription) w =
     mark_converted ids appends now customer source touch subscription w"

fun orderly :: "int \<Rightarrow> upsell_op list \<Rightarrow> bool" where
  "orderly t [] = True"
| "orderly t (op # ops) = (t \<le> op_time op \<and> op_appends op \<and> orderly (op_time op) ops)"

definition mails_of :: "touch_key \<Rightarrow> upsell_world \<Rightarrow> upsell_row list" where
  "mails_of k w = filter (\<lambda>r. upsell_key r = k) (uw_mails w)"

text \<open>The rows are in the order of their times, up to the given one.\<close>

definition in_time :: "int \<Rightarrow> upsell_world \<Rightarrow> bool" where
  "in_time t w \<longleftrightarrow> sorted (map ur_ts (uw_rows w)) \<and> (\<forall>r \<in> set (uw_rows w). ur_ts r \<le> t)"

text \<open>A touch is spent when it has a row and the last one is not queued.\<close>

definition spent :: "touch_key \<Rightarrow> upsell_world \<Rightarrow> bool" where
  "spent k w \<longleftrightarrow> (\<exists>r. last_of k (uw_rows w) = Some r \<and> ur_kind r \<noteq> Queued)"

lemma in_time_append: "in_time t w \<Longrightarrow> ur_ts r = t \<Longrightarrow> in_time t (append_row appends r w)"
  by (auto simp: in_time_def append_row_def sorted_append)

lemma in_time_later: "in_time t w \<Longrightarrow> t \<le> t' \<Longrightarrow> in_time t' w"
  by (auto simp: in_time_def)

lemma append_row_fields [simp]:
  "uw_mails (append_row appends r w) = uw_mails w" "uw_coupons (append_row appends r w) = uw_coupons w"
  "uw_rows (append_row appends r w) = (if appends then uw_rows w @ [r] else uw_rows w)"
  by (simp_all add: append_row_def)

lemma spent_append: "spent k w \<Longrightarrow> (upsell_key r = k \<Longrightarrow> ur_kind r \<noteq> Queued) \<Longrightarrow> spent k (append_row appends r w)"
  by (auto simp: spent_def last_of_snoc)

lemma transition_row_fields [simp]:
  "ur_ts (transition_row ids now r kind w) = now" "ur_kind (transition_row ids now r kind w) = kind"
  "upsell_key (transition_row ids now r kind w) = upsell_key r"
  by (simp_all add: transition_row_def upsell_key_def)

lemma key_updates [simp]:
  "upsell_key (r\<lparr>ur_message := m\<rparr>) = upsell_key r" "upsell_key (r\<lparr>ur_error := e\<rparr>) = upsell_key r"
  "upsell_key (r\<lparr>ur_subscription := x\<rparr>) = upsell_key r"
  by (simp_all add: upsell_key_def)

text \<open>What a pass does with one row: the touch is mailed at most once more, and it is spent afterwards.\<close>

lemma process_row_facts:
  assumes "in_time now w"
  shows "in_time now (process_row ids appends now renders send r w)"
    and "appends \<Longrightarrow> spent (upsell_key r) (process_row ids appends now renders send r w)"
    and "upsell_key r \<noteq> k \<Longrightarrow> last_of k (uw_rows (process_row ids appends now renders send r w)) = last_of k (uw_rows w)"
    and "mails_of k (process_row ids appends now renders send r w) = mails_of k w @ (if renders r \<and> upsell_key r = k then [r] else [])"
    and "uw_coupons (process_row ids appends now renders send r w) = uw_coupons w"
proof -
  have i: "in_time now (w\<lparr>uw_mails := ms\<rparr>)" for ms using assms by (simp add: in_time_def)
  show "in_time now (process_row ids appends now renders send r w)"
    using assms i by (auto simp: process_row_def mark_failed_def mark_sent_def Let_def intro!: in_time_append split: sum.split)
qed (auto simp: process_row_def mark_failed_def mark_sent_def mails_of_def spent_def last_of_snoc Let_def split: sum.split)

lemma process_rows_facts:
  assumes "in_time now w" "distinct (map upsell_key rs)" "appends" "w' = fold (process_row ids appends now renders send) rs w"
  shows "in_time now w'"
    and "k \<in> upsell_key ` set rs \<Longrightarrow> spent k w'"
    and "k \<notin> upsell_key ` set rs \<Longrightarrow> last_of k (uw_rows w') = last_of k (uw_rows w) \<and> mails_of k w' = mails_of k w"
    and "length (mails_of k w') \<le> length (mails_of k w) + 1"
    and "uw_coupons w' = uw_coupons w"
proof -
  have "in_time now w' \<and> (k \<in> upsell_key ` set rs \<longrightarrow> spent k w')
      \<and> (k \<notin> upsell_key ` set rs \<longrightarrow> last_of k (uw_rows w') = last_of k (uw_rows w) \<and> mails_of k w' = mails_of k w)
      \<and> length (mails_of k w') \<le> length (mails_of k w) + 1 \<and> uw_coupons w' = uw_coupons w"
    using assms(1,2) unfolding assms(4)
  proof (induction rs arbitrary: w)
    case (Cons r rs)
    note p = process_row_facts [OF Cons.prems(1), where ids = ids and appends = appends and renders = renders and send = send and r = r]
    have d: "distinct (map upsell_key rs)" using Cons.prems(2) by simp
    note IH = Cons.IH [OF p(1) d]
    show ?case
    proof (cases "upsell_key r = k")
      case True
      then have "k \<notin> upsell_key ` set rs" using Cons.prems(2) by auto
      with IH p(2,4,5) True \<open>appends\<close> show ?thesis by (auto simp: spent_def)
    next
      case False
      with IH p(3,4,5) show ?thesis by auto
    qed
  qed simp
  then show "in_time now w'" "k \<in> upsell_key ` set rs \<Longrightarrow> spent k w'"
    "k \<notin> upsell_key ` set rs \<Longrightarrow> last_of k (uw_rows w') = last_of k (uw_rows w) \<and> mails_of k w' = mails_of k w"
    "length (mails_of k w') \<le> length (mails_of k w) + 1" "uw_coupons w' = uw_coupons w" by blast+
qed

lemma touch_row_fields:
  "ur_ts (touch_row_for ids now existing customer email source target delivered bundle td w) = now"
  "upsell_key (touch_row_for ids now existing customer email source target delivered bundle td w) = (customer, source, fst td)"
  "ur_kind (touch_row_for ids now existing customer email source target delivered bundle td w)
    = (if (customer, source, fst td) \<in> set existing then Skipped_Dup else Queued)"
  "ur_coupon (touch_row_for ids now existing customer email source target delivered bundle td w) = bundle"
  by (simp_all add: touch_row_for_def upsell_key_def Let_def split: prod.split)

text \<open>The rows an enqueue appends: one for each touch, queued exactly when the touch had no row before.\<close>

lemma enqueue_rows:
  assumes "in_time now w" "appends"
    and "w' = fold (\<lambda>td w. append_row appends (touch_row_for ids now existing customer email source target delivered bundle td w) w) tds w"
  shows "in_time now w' \<and> uw_mails w' = uw_mails w \<and> uw_coupons w' = uw_coupons w
    \<and> (\<exists>new. uw_rows w' = uw_rows w @ new \<and> map upsell_key new = map (\<lambda>td. (customer, source, fst td)) tds
        \<and> (\<forall>r \<in> set new. ur_coupon r = bundle
             \<and> ur_kind r = (if upsell_key r \<in> set existing then Skipped_Dup else Queued)))"
  using assms(1,2) unfolding assms(3)
proof (induction tds arbitrary: w)
  case (Cons td tds)
  let ?r = "touch_row_for ids now existing customer email source target delivered bundle td w"
  have "in_time now (append_row appends ?r w)" using Cons.prems(1) by (intro in_time_append) (simp_all add: touch_row_fields)
  from Cons.IH [OF this Cons.prems(2)] obtain new where
    "uw_rows (fold (\<lambda>td w. append_row appends (touch_row_for ids now existing customer email source target delivered bundle td w) w) tds (append_row appends ?r w))
       = uw_rows (append_row appends ?r w) @ new"
    "map upsell_key new = map (\<lambda>td. (customer, source, fst td)) tds"
    "\<forall>r \<in> set new. ur_coupon r = bundle \<and> ur_kind r = (if upsell_key r \<in> set existing then Skipped_Dup else Queued)" by blast
  with Cons.IH [OF \<open>in_time now (append_row appends ?r w)\<close> Cons.prems(2)] Cons.prems(2) show ?case
    by (auto simp: touch_row_fields intro!: exI [where x = "?r # new"])
qed simp

lemma last_of_new: "last_of k new = Some r \<Longrightarrow> r \<in> set new"
  using last_of_Some by blast

lemma enqueue_shape:
  assumes "in_time now w" "appends" "map_of UPSELL_TARGET_MAP source = Some target"
    and "w' = enqueue_upsell ids appends now made delays customer email source delivered w"
  obtains new where "uw_rows w' = uw_rows w @ new" "in_time now w'" "uw_mails w' = uw_mails w"
    "map upsell_key new = map (\<lambda>td. (customer, source, fst td)) (zip [1 .. int (length delays)] delays)"
    "\<forall>r \<in> set new. ur_kind r = (if last_of (upsell_key r) (uw_rows w) \<noteq> None then Skipped_Dup else Queued)"
proof -
  define existing where "existing = map fst (current_state_by_key (uw_rows w))"
  obtain cb v where v: "w' = fold (\<lambda>td w. append_row appends (touch_row_for ids now existing customer email source target delivered cb td w) w)
       (zip [1 .. int (length delays)] delays) v" "uw_rows v = uw_rows w" "uw_mails v = uw_mails w"
    using assms(3,4) by (auto simp: enqueue_upsell_def existing_def Let_def split: option.splits if_splits)
  have "in_time now v" using assms(1) v(2) by (simp add: in_time_def)
  from enqueue_rows [OF this assms(2) v(1)] v(2,3) existing_keys [of "uw_rows w"] assms(1) that show ?thesis
    by (auto simp: existing_def in_time_def)
qed

lemma enqueue_spent:
  assumes "in_time now w" "appends" "spent k w"
    and "w' = enqueue_upsell ids appends now made delays customer email source delivered w"
  shows "spent k w'"
proof (cases "map_of UPSELL_TARGET_MAP source")
  case None
  with assms(3,4) show ?thesis by (simp add: enqueue_upsell_def)
next
  case (Some target)
  obtain new where new: "uw_rows w' = uw_rows w @ new" "in_time now w'" "uw_mails w' = uw_mails w"
    "map upsell_key new = map (\<lambda>td. (customer, source, fst td)) (zip [1 .. int (length delays)] delays)"
    "\<forall>r \<in> set new. ur_kind r = (if last_of (upsell_key r) (uw_rows w) \<noteq> None then Skipped_Dup else Queued)"
    by (rule enqueue_shape [OF assms(1,2) Some assms(4)])
  from assms(3) obtain r0 where r0: "last_of k (uw_rows w) = Some r0" "ur_kind r0 \<noteq> Queued" by (auto simp: spent_def)
  show ?thesis
  proof (cases "last_of k new")
    case None
    with r0 new(1) show ?thesis by (simp add: spent_def last_of_append)
  next
    case (Some r)
    with new(5) r0 last_of_Some [OF Some] have "ur_kind r = Skipped_Dup" by auto
    with Some new(1) show ?thesis by (simp add: spent_def last_of_append)
  qed
qed

lemma enqueue_fields:
  assumes "in_time now w" "appends"
    and "w' = enqueue_upsell ids appends now made delays customer email source delivered w"
  shows "in_time now w'" "uw_mails w' = uw_mails w"
proof -
  have "in_time now w' \<and> uw_mails w' = uw_mails w"
  proof (cases "map_of UPSELL_TARGET_MAP source")
    case None
    with assms(1,3) show ?thesis by (simp add: enqueue_upsell_def)
  next
    case (Some target)
    show ?thesis by (rule enqueue_shape [OF assms(1,2) Some assms(3)]) simp
  qed
  then show "in_time now w'" "uw_mails w' = uw_mails w" by blast+
qed

lemma spent_not_due: "in_time t w \<Longrightarrow> spent k w \<Longrightarrow> k \<notin> upsell_key ` set (due_upsells now w)"
  by (auto simp: in_time_def spent_def due_upsells_iff)

lemma step_facts:
  assumes "in_time t w" "t \<le> op_time op" "op_appends op"
  shows "in_time (op_time op) (upsell_step ids op w)"
    and "spent k w \<Longrightarrow> spent k (upsell_step ids op w) \<and> mails_of k (upsell_step ids op w) = mails_of k w"
    and "length (mails_of k (upsell_step ids op w)) \<le> length (mails_of k w) + 1"
    and "mails_of k (upsell_step ids op w) \<noteq> mails_of k w \<Longrightarrow> spent k (upsell_step ids op w)"
proof -
  note i = in_time_later [OF assms(1,2)]
  have "in_time (op_time op) (upsell_step ids op w)
    \<and> (spent k w \<longrightarrow> spent k (upsell_step ids op w) \<and> mails_of k (upsell_step ids op w) = mails_of k w)
    \<and> length (mails_of k (upsell_step ids op w)) \<le> length (mails_of k w) + 1
    \<and> (mails_of k (upsell_step ids op w) \<noteq> mails_of k w \<longrightarrow> spent k (upsell_step ids op w))"
  proof (cases op)
    case (Enqueue now appends made delays customer email source delivered)
    with i assms(3) have "in_time now w" "appends" by simp_all
    from enqueue_fields [OF this refl] enqueue_spent [OF this _ refl] Enqueue show ?thesis by (simp add: mails_of_def)
  next
    case (Pass now appends renders send)
    with i assms(3) have p: "in_time now w" "appends" by simp_all
    have d: "distinct (map upsell_key (due_upsells now w))" using p(1) by (intro due_keys_distinct) (simp add: in_time_def)
    note f = process_rows_facts [OF p(1) d p(2) refl, where ids = ids and renders = renders and send = send]
    show ?thesis
    proof (cases "k \<in> upsell_key ` set (due_upsells now w)")
      case True
      with f(1) f(2,4) [where k = k] spent_not_due [OF p(1), of k now] Pass show ?thesis by (auto simp: process_upsell_queue_def)
    next
      case False
      with f(1) f(3) [where k = k] Pass show ?thesis by (auto simp: process_upsell_queue_def spent_def)
    qed
  next
    case (Convert now appends customer source touch subscription)
    with i show ?thesis
      by (auto simp: mark_converted_def mails_of_def split: option.split intro!: in_time_append spent_append)
  qed
  then show "in_time (op_time op) (upsell_step ids op w)"
    "spent k w \<Longrightarrow> spent k (upsell_step ids op w) \<and> mails_of k (upsell_step ids op w) = mails_of k w"
    "length (mails_of k (upsell_step ids op w)) \<le> length (mails_of k w) + 1"
    "mails_of k (upsell_step ids op w) \<noteq> mails_of k w \<Longrightarrow> spent k (upsell_step ids op w)" by blast+
qed

lemma spent_stays:
  assumes "in_time t w" "orderly t ops" "spent k w"
  shows "spent k (fold (upsell_step ids) ops w) \<and> mails_of k (fold (upsell_step ids) ops w) = mails_of k w"
  using assms
proof (induction ops arbitrary: t w)
  case (Cons op ops)
  then have "t \<le> op_time op" "op_appends op" "orderly (op_time op) ops" by simp_all
  with Cons.IH [OF step_facts(1) [OF Cons.prems(1) this(1,2)] this(3)] Cons.prems(3)
    step_facts(2) [OF Cons.prems(1) this(1,2)] show ?case by simp
qed simp

definition no_touches :: upsell_world where "no_touches = \<lparr>uw_rows = [], uw_mails = [], uw_coupons = []\<rparr>"

text \<open>C17: A touch is mailed at most once. In every sequence of enqueues, passes of the runner and conversions, with a clock that does not
  go back and a log that takes its rows, each touch of a customer for an offer is handed to the mail backend at most once,
  however often the customer is enqueued again and whatever sending does.\<close>

theorem touch_is_mailed_at_most_once:
  assumes "orderly t ops"
  shows "length (mails_of (customer, source, touch) (fold (upsell_step ids) ops no_touches)) \<le> 1"
proof -
  let ?k = "(customer, source, touch)"
  have "length (mails_of ?k (fold (upsell_step ids) ops w)) \<le> 1"
    if "in_time t w" "mails_of ?k w = [] \<or> (spent ?k w \<and> length (mails_of ?k w) = 1)" for w
    using that assms
  proof (induction ops arbitrary: t w)
    case (Cons op ops)
    then have o: "t \<le> op_time op" "op_appends op" "orderly (op_time op) ops" by simp_all
    note f = step_facts [OF Cons.prems(1) o(1,2), where ids = ids]
    have "mails_of ?k (upsell_step ids op w) = [] \<or> spent ?k (upsell_step ids op w) \<and> length (mails_of ?k (upsell_step ids op w)) = 1"
      using Cons.prems(2) f(2-4) [of ?k] by (cases "mails_of ?k (upsell_step ids op w)") fastforce+
    from Cons.IH [OF f(1) this o(3)] show ?case by simp
  qed auto
  then show ?thesis by (simp add: no_touches_def in_time_def mails_of_def)
qed

text \<open>C40: A second delivery silences the sequence. If a customer who has touches waiting for an offer is enqueued for it again, as a
  second run of the fulfillment does, then these touches are never mailed any more: the row that marks the duplicate is the
  touch's last one, and only a touch whose last row is queued is due.\<close>

theorem second_enqueue_silences_touches:
  assumes "in_time t w" "last_of (customer, source, touch) (uw_rows w) = Some r"
    and "map_of UPSELL_TARGET_MAP source \<noteq> None" "1 \<le> touch" "touch \<le> int (length delays)"
    and "orderly t (Enqueue now True made delays customer email source delivered # ops)"
  shows "mails_of (customer, source, touch) (fold (upsell_step ids) (Enqueue now True made delays customer email source delivered # ops) w)
    = mails_of (customer, source, touch) w"
proof -
  let ?k = "(customer, source, touch)"
  define w1 where "w1 = enqueue_upsell ids True now made delays customer email source delivered w"
  have i: "in_time now w" using assms(1,6) in_time_later by auto
  from assms(3) obtain target where "map_of UPSELL_TARGET_MAP source = Some target" by blast
  then obtain new where new: "uw_rows w1 = uw_rows w @ new" "in_time now w1" "uw_mails w1 = uw_mails w"
    "map upsell_key new = map (\<lambda>td. (customer, source, fst td)) (zip [1 .. int (length delays)] delays)"
    "\<forall>r \<in> set new. ur_kind r = (if last_of (upsell_key r) (uw_rows w) \<noteq> None then Skipped_Dup else Queued)"
    by (rule enqueue_shape [OF i TrueI _ w1_def])
  have "touch \<in> fst ` set (zip [1 .. int (length delays)] delays)" using assms(4,5) by (simp flip: set_map)
  then have "?k \<in> set (map upsell_key new)" unfolding new(4) by (simp add: image_iff)
  then obtain r' where r': "last_of ?k new = Some r'" using last_of_None [of ?k new] by auto
  have "ur_kind r' = Skipped_Dup" using r' new(5) last_of_Some [OF r'] assms(2) by auto
  then have "spent ?k w1" using r' new(1) by (simp add: spent_def last_of_append)
  from spent_stays [OF new(2) _ this] assms(6) new(3) show ?thesis by (simp add: w1_def mails_of_def)
qed

text \<open>A send that is not recorded is repeated. While the log takes no rows, every pass of the runner hands every due touch that has a
  mail to the backend again.\<close>

theorem unrecorded_send_is_repeated:
  assumes "in_time now w" "r \<in> set (due_upsells now w)" "renders r"
  shows "length (mails_of (upsell_key r) ((process_upsell_queue ids False now renders send ^^ n) w)) = length (mails_of (upsell_key r) w) + n"
proof -
  let ?pass = "process_upsell_queue ids False now renders send"
  have row: "uw_rows (process_row ids False now renders send x v) = uw_rows v" for x v
    by (simp add: process_row_def mark_failed_def mark_sent_def Let_def split: sum.split)
  have mails: "uw_rows (fold (process_row ids False now renders send) xs v) = uw_rows v
      \<and> length (mails_of k (fold (process_row ids False now renders send) xs v))
        = length (mails_of k v) + length (filter (\<lambda>x. renders x \<and> upsell_key x = k) xs)" if "in_time now v" for k xs v
    using that
  proof (induction xs arbitrary: v)
    case (Cons x xs)
    have "in_time now (process_row ids False now renders send x v)" using Cons.prems row [of x v] by (simp add: in_time_def)
    with Cons.IH process_row_facts(4) [OF Cons.prems, where appends = False] row show ?case by simp
  qed simp
  have "filter (\<lambda>x. renders x \<and> upsell_key x = upsell_key r) xs = [r]" if "distinct (map upsell_key xs)" "r \<in> set xs" for xs
    using that
  proof (induction xs)
    case (Cons x xs)
    have none: "filter (\<lambda>y. renders y \<and> upsell_key y = upsell_key x) xs = []"
      using Cons.prems(1) by (auto simp: filter_empty_conv) (metis image_eqI)
    show ?case
    proof (cases "x = r")
      case True
      with none assms(3) show ?thesis by simp
    next
      case False
      with Cons.prems have "upsell_key x \<noteq> upsell_key r" by auto
      with Cons False show ?thesis by simp
    qed
  qed simp
  moreover have "distinct (map upsell_key (due_upsells now w))" using assms(1) by (intro due_keys_distinct) (simp add: in_time_def)
  ultimately have one: "filter (\<lambda>x. renders x \<and> upsell_key x = upsell_key r) (due_upsells now w) = [r]" using assms(2) by blast
  have "uw_rows ((?pass ^^ n) w) = uw_rows w \<and> length (mails_of (upsell_key r) ((?pass ^^ n) w)) = length (mails_of (upsell_key r) w) + n"
  proof (induction n)
    case (Suc n)
    let ?v = "(?pass ^^ n) w"
    have "in_time now ?v" using Suc assms(1) by (simp add: in_time_def)
    moreover have "due_upsells now ?v = due_upsells now w" using Suc by (simp add: due_upsells_def)
    moreover have "?pass ?v = fold (process_row ids False now renders send) (due_upsells now ?v) ?v" by (simp add: process_upsell_queue_def)
    ultimately show ?case using Suc mails [of ?v "due_upsells now w" "upsell_key r"] one by simp
  qed simp
  then show ?thesis by blast
qed

section \<open>Instances\<close>

definition demo_ids :: "nat \<Rightarrow> string" where "demo_ids n = ''id'' @ show_nat n"

definition demo_made :: coupon_bundle where
  "demo_made = \<lparr>cb_coupon = ''c1'', cb_promotion = ''p1'', cb_code = ''AUDIT-CREDIT-X'', cb_cents = 14900\<rparr>"

abbreviation demo_enqueue :: "int \<Rightarrow> upsell_op" where
  "demo_enqueue now \<equiv> Enqueue now True demo_made DEFAULT_TOUCH_DELAYS_DAYS ''ann'' ''ann@x.com'' ''seo_audit'' 0"

abbreviation demo_pass :: "int \<Rightarrow> upsell_op" where
  "demo_pass now \<equiv> Pass now True (\<lambda>r. True) (\<lambda>r. Inr ''m1'')"

theorem touch_is_mailed_at_most_once_witness:
  "length (mails_of (''ann'', ''seo_audit'', 1) (fold (upsell_step demo_ids)
     [demo_enqueue 10, demo_pass 500000, demo_enqueue 600000, demo_pass 600000, Convert 700000 True ''ann'' ''seo_audit'' 1 ''sub''] no_touches)) \<le> 1"
  by (rule touch_is_mailed_at_most_once [where t = 0]) simp

definition waiting :: upsell_world where
  "waiting = \<lparr>uw_rows = [\<lparr>ur_event = ''e'', ur_ts = 10, ur_kind = Queued, ur_touch = 1, ur_customer = ''ann'', ur_email = ''ann@x.com'',
     ur_source = ''seo_audit'', ur_target = ''seo_implementation'', ur_price = [], ur_due = Some 432000, ur_message = [], ur_subscription = [],
     ur_error = [], ur_coupon = demo_made\<rparr>], uw_mails = [], uw_coupons = []\<rparr>"

lemma waiting_facts:
  "10 \<le> t \<Longrightarrow> in_time t waiting" "last_of (''ann'', ''seo_audit'', 1) (uw_rows waiting) = Some (hd (uw_rows waiting))"
  "mails_of k waiting = []" "432000 \<le> now \<Longrightarrow> due_upsells now waiting = uw_rows waiting"
  "upsell_key (hd (uw_rows waiting)) = (''ann'', ''seo_audit'', 1)" "hd (uw_rows waiting) \<in> set (uw_rows waiting)"
  by (simp_all add: in_time_def waiting_def last_of_def upsell_key_def mails_of_def due_upsells_def current_state_by_key_def)

theorem second_enqueue_silences_touches_witness:
  "mails_of (''ann'', ''seo_audit'', 1) (fold (upsell_step demo_ids) [demo_enqueue 20, demo_pass 500000, demo_pass 900000] waiting) = []"
proof -
  have "in_time 10 waiting" by (simp add: waiting_facts)
  from second_enqueue_silences_touches [OF this waiting_facts(2), where delays = DEFAULT_TOUCH_DELAYS_DAYS and now = 20 and made = demo_made
      and email = "''ann@x.com''" and delivered = 0 and ops = "[demo_pass 500000, demo_pass 900000]" and ids = demo_ids]
  show ?thesis by (simp add: UPSELL_TARGET_MAP_def DEFAULT_TOUCH_DELAYS_DAYS_def waiting_facts)
qed

theorem unrecorded_send_is_repeated_witness:
  "length (mails_of (''ann'', ''seo_audit'', 1) ((process_upsell_queue demo_ids False 500000 (\<lambda>r. True) (\<lambda>r. Inr ''m'') ^^ 3) waiting)) = 3"
  using unrecorded_send_is_repeated [where now = 500000 and w = waiting and r = "hd (uw_rows waiting)" and renders = "\<lambda>r. True"
      and ids = demo_ids and send = "\<lambda>r. Inr ''m''" and n = 3]
  by (simp add: waiting_facts)

end
