(* ===== verification/Stripe_Webhook.thy ===== *)
theory Stripe_Webhook
  imports Customer_Graph Upsell_Queue Ledger Security
begin

text \<open>
  The Stripe webhook, \<open>finance/webhook.py\<close>: verification of the signature, the idempotency scan and the reservation of the
  event, and the whole handler with its effects: customer state, receipt, scheduled fulfillment, event log, revenue
  events, jobs for the CRM, conversions (\<open>finance/outreach_attribution.py\<close>) and the upsell attribution.

  Given are: what parsing the body yields; which database statements and ledgers work; the outcome of sending the receipt; whether
  the customer's URL is public (see \<open>common/safe_fetch.py\<close>). Bytes are strings of characters, amounts are rationals (the code's are floats
  that come from whole cents). The log is the list of its well-formed rows. A field of a Stripe object that the code
  takes for text and that holds something else raises an error in the extraction already. Notes, log lines and the
  Firestore backend of the ledgers are left out.
\<close>

section \<open>The signature\<close>

datatype signature_error =
  Secret_Unset | Missing_Header | Bad_Timestamp | Missing_Timestamp | No_Signatures | Expired | In_Future | No_Match

fun sig_parts :: "string list \<Rightarrow> int option \<Rightarrow> string list \<Rightarrow> signature_error + int option \<times> string list" where
  "sig_parts [] ts sigs = Inr (ts, sigs)"
| "sig_parts (part # parts) ts sigs =
     (if CHR ''='' \<notin> set part then sig_parts parts ts sigs
      else
        (let key = py_strip (takeWhile (\<lambda>c. c \<noteq> CHR ''='') part); v = py_strip (drop 1 (dropWhile (\<lambda>c. c \<noteq> CHR ''='') part)) in
         if key = ''t'' then (case py_int v of None \<Rightarrow> Inl Bad_Timestamp | Some n \<Rightarrow> sig_parts parts (Some n) sigs)
         else if key = ''v1'' then sig_parts parts ts (sigs @ [v])
         else sig_parts parts ts sigs))"

definition parse_sig_header :: "string \<Rightarrow> signature_error + int \<times> string list" where
  "parse_sig_header sig_header =
     (case sig_parts (split_on (CHR '','') sig_header) None [] of
        Inl e \<Rightarrow> Inl e
      | Inr (None, sigs) \<Rightarrow> Inl Missing_Timestamp
      | Inr (Some ts, sigs) \<Rightarrow> if sigs = [] then Inl No_Signatures else Inr (ts, sigs))"

definition STRIPE_FUTURE_SKEW_SECONDS :: rat where "STRIPE_FUTURE_SKEW_SECONDS = 5"
definition DEFAULT_REPLAY_TOLERANCE_SECONDS :: rat where "DEFAULT_REPLAY_TOLERANCE_SECONDS = 300"

definition verify_stripe_signature :: "string \<Rightarrow> string \<Rightarrow> string \<Rightarrow> rat \<Rightarrow> rat \<Rightarrow> signature_error option" where
  "verify_stripe_signature payload sig_header secret tolerance now =
     (if secret = [] then Some Secret_Unset
      else if sig_header = [] then Some Missing_Header
      else (case parse_sig_header sig_header of
          Inl e \<Rightarrow> Some e
        | Inr (ts, sigs) \<Rightarrow>
            (let delta = now - of_int ts in
             if delta > tolerance then Some Expired
             else if - delta > STRIPE_FUTURE_SKEW_SECONDS then Some In_Future
             else if list_ex (safe_compare (hmac_sha256_hex secret (show_int ts @ ''.'' @ payload))) sigs then None
             else Some No_Match)))"

section \<open>Events\<close>

record stripe_event =
  ev_id :: string
  ev_type :: string
  ev_live :: bool
  ev_data :: "(string \<times> json) list"

text \<open>Validation of the parsed body; pydantic's coercion of texts and numbers to \<open>bool\<close> is left out.\<close>

definition event_of :: "json \<Rightarrow> stripe_event option" where
  "event_of v =
     (case v of
        JObj kvs \<Rightarrow>
          (case (map_of kvs ''id'', map_of kvs ''type'', dict_get kvs ''livemode'' (JBool False), dict_get kvs ''data'' (JObj [])) of
             (Some (JStr i), Some (JStr ty), JBool live, JObj d) \<Rightarrow> Some \<lparr>ev_id = i, ev_type = ty, ev_live = live, ev_data = d\<rparr>
           | _ \<Rightarrow> None)
      | _ \<Rightarrow> None)"

text \<open>\<open>o.get(k) or ""\<close> where the code goes on to use a text.\<close>

definition text_field :: "(string \<times> json) list \<Rightarrow> string \<Rightarrow> string reading" where
  "text_field kvs k =
     (let v = dict_get kvs k JNull in if \<not> json_truthy v then Got [] else (case v of JStr s \<Rightarrow> Got s | _ \<Rightarrow> Crash))"

definition bind_reading :: "'a reading \<Rightarrow> ('a \<Rightarrow> 'b reading) \<Rightarrow> 'b reading" where
  "bind_reading x f = (case x of Got a \<Rightarrow> f a | Call_Error e \<Rightarrow> Call_Error e | Value_Error \<Rightarrow> Value_Error | Crash \<Rightarrow> Crash)"

definition cents :: "json \<Rightarrow> rat option" where
  "cents v = (case v of JInt i \<Rightarrow> Some (of_int i / 100) | JBool b \<Rightarrow> Some (if b then 1 / 100 else 0) | _ \<Rightarrow> None)"

text \<open>\<open>event.data.object\<close>, when its \<open>object\<close> field names the wanted kind.\<close>

definition stripe_object :: "string \<Rightarrow> (string \<times> json) list \<Rightarrow> (string \<times> json) list option reading" where
  "stripe_object kind data =
     (let v = dict_get data ''object'' JNull in
      case (if json_truthy v then v else JObj []) of
        JObj kvs \<Rightarrow> Got (if map_of kvs ''object'' = Some (JStr kind) then Some kvs else None)
      | _ \<Rightarrow> Crash)"

record session_fields =
  sf_email :: string
  sf_amount :: "rat option"
  sf_currency :: string
  sf_offer :: string
  sf_status :: string
  sf_website :: string

definition dict_or_empty :: "(string \<times> json) list \<Rightarrow> string \<Rightarrow> (string \<times> json) list reading" where
  "dict_or_empty kvs k = bind_reading (get_or (JObj kvs) k (JObj [])) (\<lambda>v. case v of JObj d \<Rightarrow> Got d | _ \<Rightarrow> Crash)"

text \<open>The text of the first custom field with the key \<open>website_url\<close> and the type \<open>text\<close>.\<close>

fun website_field :: "json list \<Rightarrow> string reading" where
  "website_field [] = Got []"
| "website_field (JObj cf # cfs) =
     (if map_of cf ''key'' = Some (JStr ''website_url'') \<and> map_of cf ''type'' = Some (JStr ''text'')
      then bind_reading (dict_or_empty cf ''text'') (\<lambda>d. bind_reading (text_field d ''value'') (\<lambda>s. Got (py_strip s)))
      else website_field cfs)"
| "website_field (v # cfs) = website_field cfs"

definition extract_session_fields :: "(string \<times> json) list \<Rightarrow> session_fields reading" where
  "extract_session_fields data =
     bind_reading (stripe_object ''checkout.session'' data) (\<lambda>obj. case obj of
         None \<Rightarrow> Got \<lparr>sf_email = [], sf_amount = None, sf_currency = ''usd'', sf_offer = [], sf_status = [], sf_website = []\<rparr>
       | Some session \<Rightarrow>
           bind_reading (case dict_get session ''customer_details'' JNull of JObj d \<Rightarrow> text_field d ''email'' | _ \<Rightarrow> Got []) (\<lambda>e1.
           bind_reading (if e1 = [] then text_field session ''customer_email'' else Got e1) (\<lambda>email.
           bind_reading (text_field session ''currency'') (\<lambda>currency.
           bind_reading (text_field session ''payment_status'') (\<lambda>status.
           bind_reading (dict_or_empty session ''metadata'') (\<lambda>md.
           bind_reading (text_field md ''hf_offer_code'') (\<lambda>offer.
           bind_reading (get_or (JObj session) ''custom_fields'' (JList [])) (\<lambda>cfs.
           bind_reading (case cfs of JList xs \<Rightarrow> website_field xs | JObj d \<Rightarrow> Got [] | JStr s \<Rightarrow> Got [] | _ \<Rightarrow> Crash) (\<lambda>website.
             Got \<lparr>sf_email = email, sf_amount = cents (dict_get session ''amount_total'' JNull),
                  sf_currency = py_lower (py_or currency ''usd''), sf_offer = offer, sf_status = status, sf_website = website\<rparr>)))))))))"

record subscription_fields =
  su_mode :: string
  su_id :: string
  su_price :: string
  su_ref :: string

fun first_price :: "json list \<Rightarrow> string reading" where
  "first_price [] = Got []"
| "first_price (JObj item # items) =
     (case dict_get item ''price'' JNull of
        JObj p \<Rightarrow> if json_truthy (dict_get p ''id'' JNull) then text_field p ''id'' else first_price items
      | _ \<Rightarrow> first_price items)"
| "first_price (v # items) = first_price items"

definition extract_subscription_fields :: "(string \<times> json) list \<Rightarrow> subscription_fields reading" where
  "extract_subscription_fields data =
     bind_reading (stripe_object ''checkout.session'' data) (\<lambda>obj. case obj of
         None \<Rightarrow> Got \<lparr>su_mode = [], su_id = [], su_price = [], su_ref = []\<rparr>
       | Some session \<Rightarrow>
           bind_reading (text_field session ''mode'') (\<lambda>mode.
           bind_reading (text_field session ''client_reference_id'') (\<lambda>ref.
           bind_reading (case dict_get session ''line_items'' JNull of
               JObj li \<Rightarrow> (case dict_get li ''data'' JNull of JList items \<Rightarrow> first_price items | JInt n \<Rightarrow> if n = 0 then Got [] else Crash | JBool b \<Rightarrow> if b then Crash else Got [] | _ \<Rightarrow> Got [])
             | _ \<Rightarrow> Got []) (\<lambda>p1.
           bind_reading (if p1 \<noteq> [] then Got p1 else
               (case dict_get session ''subscription_data'' JNull of
                  JObj sd \<Rightarrow> (case dict_get sd ''metadata'' JNull of JObj md \<Rightarrow> text_field md ''hf_target_price_id'' | _ \<Rightarrow> Got [])
                | _ \<Rightarrow> Got [])) (\<lambda>price.
             Got \<lparr>su_mode = mode, su_id = (case dict_get session ''subscription'' JNull of JStr s \<Rightarrow> s | _ \<Rightarrow> []),
                  su_price = price, su_ref = ref\<rparr>)))))"

record invoice_fields =
  iv_email :: string
  iv_amount :: "rat option"
  iv_currency :: string
  iv_subscription :: string
  iv_reason :: string

definition extract_invoice_fields :: "(string \<times> json) list \<Rightarrow> invoice_fields reading" where
  "extract_invoice_fields data =
     bind_reading (stripe_object ''invoice'' data) (\<lambda>obj. case obj of
         None \<Rightarrow> Got \<lparr>iv_email = [], iv_amount = None, iv_currency = ''usd'', iv_subscription = [], iv_reason = []\<rparr>
       | Some invoice \<Rightarrow>
           bind_reading (text_field invoice ''customer_email'') (\<lambda>email.
           bind_reading (text_field invoice ''currency'') (\<lambda>currency.
           bind_reading (text_field invoice ''billing_reason'') (\<lambda>reason.
             Got \<lparr>iv_email = email, iv_amount = cents (dict_get invoice ''amount_paid'' JNull), iv_currency = py_lower (py_or currency ''usd''),
                  iv_subscription = (case dict_get invoice ''subscription'' JNull of JStr s \<Rightarrow> s | _ \<Rightarrow> []), iv_reason = reason\<rparr>))))"

section \<open>The event log, conversions and effects\<close>

datatype webhook_status = W_Processed | W_Ignored | W_Duplicate | W_Bad_Payload | W_Failed | W_Funnel_Signal | W_Renewal

record webhook_row =
  we_event :: string
  we_type :: string
  we_received :: iso_time
  we_live :: bool
  we_email :: string
  we_customer :: string
  we_amount :: "rat option"
  we_currency :: string
  we_offer :: string
  we_payment :: string
  we_status :: webhook_status
  we_receipt :: "bool \<times> string \<times> string"
  we_website :: string
  we_scheduled :: bool
  we_fulfilled :: bool
  we_mode :: string
  we_subscription :: string
  we_price :: string
  we_mrr :: "rat option"
  we_ref :: string

text \<open>A row with the defaults of the model.\<close>

definition plain_row :: "stripe_event \<Rightarrow> rat \<Rightarrow> webhook_status \<Rightarrow> webhook_row" where
  "plain_row ev t status =
     \<lparr>we_event = ev_id ev, we_type = ev_type ev, we_received = iso_at t, we_live = ev_live ev, we_email = [], we_customer = [],
      we_amount = None, we_currency = ''usd'', we_offer = [], we_payment = [], we_status = status, we_receipt = (False, [], []),
      we_website = [], we_scheduled = False, we_fulfilled = False, we_mode = [], we_subscription = [], we_price = [], we_mrr = None, we_ref = []\<rparr>"

record conversion_record =
  co_prospect :: string
  co_email :: string
  co_amount :: rat
  co_currency :: string
  co_offer :: string
  co_event :: string
  co_at :: iso_time
  co_campaign :: "string option"

text \<open>The effects outside; the first text of each names the event it comes from.\<close>

datatype finance_effect =
    Receipt string string "rat option"
  | Fulfil string string string
  | Close_By_Id string string rat string
  | Close_By_Email string string rat
  | Payment_Received string rat string string
  | Deal_Closed string rat rat

record finance_world =
  fw_rows :: "webhook_row list"
  fw_archive :: "webhook_row list"
  fw_appends :: nat
  fw_claims :: jsonl_ledger
  fw_graph :: customer_graph
  fw_conversions :: "conversion_record list"
  fw_upsell :: upsell_world
  fw_log :: "finance_effect list"

record finance_config =
  fc_secret :: string
  fc_reject_test :: bool
  fc_production :: bool
  fc_offers :: "string list"
  fc_floor :: rat
  fc_ttl :: rat
  fc_seen_hours :: rat
  fc_retention_hours :: rat
  fc_rotate_every :: int
  fc_crm :: bool

record finance_outside =
  fo_appends :: bool
  fo_side :: bool
  fo_graph :: graph_reach
  fo_uuid :: "string \<times> string"
  fo_receipt :: "string + string"
  fo_public :: "string \<Rightarrow> bool"
  fo_ids :: "nat \<Rightarrow> string"

definition log_effects :: "finance_effect list \<Rightarrow> finance_world \<Rightarrow> finance_world" where
  "log_effects xs w = w\<lparr>fw_log := fw_log w @ xs\<rparr>"

definition received_before :: "rat \<Rightarrow> webhook_row \<Rightarrow> bool" where
  "received_before cutoff r = (case we_received r of IsoAt n \<Rightarrow> of_int n < cutoff | IsoText s \<Rightarrow> False)"

text \<open>The append, which may fail and is counted either way; every so often rows past the retention go to the archive.\<close>

definition append_event_record :: "finance_config \<Rightarrow> bool \<Rightarrow> rat \<Rightarrow> webhook_row \<Rightarrow> finance_world \<Rightarrow> finance_world" where
  "append_event_record cfg appends t row w =
     (let w = (if appends then w\<lparr>fw_rows := fw_rows w @ [row]\<rparr> else w) in
      if 0 < fc_rotate_every cfg
      then (let w = w\<lparr>fw_appends := fw_appends w + 1\<rparr>; old = received_before (t - fc_retention_hours cfg * 3600) in
            if int (fw_appends w) mod fc_rotate_every cfg = 0 \<and> 0 < fc_retention_hours cfg
            then w\<lparr>fw_rows := filter (\<lambda>r. \<not> old r) (fw_rows w), fw_archive := fw_archive w @ filter old (fw_rows w)\<rparr>
            else w)
      else w)"

definition load_seen_event_ids :: "finance_config \<Rightarrow> rat \<Rightarrow> finance_world \<Rightarrow> string list" where
  "load_seen_event_ids cfg now w =
     map we_event (filter (\<lambda>r. we_event r \<noteq> [] \<and> \<not> received_before (now - fc_seen_hours cfg * 3600) r) (fw_rows w))"

definition terminal_record_present :: "string \<Rightarrow> finance_world \<Rightarrow> bool" where
  "terminal_record_present eid w \<longleftrightarrow> eid \<noteq> [] \<and> list_ex (\<lambda>r. we_event r = eid) (fw_rows w)"

definition claim_event_id :: "finance_config \<Rightarrow> string \<Rightarrow> rat \<Rightarrow> finance_world \<Rightarrow> bool \<times> finance_world" where
  "claim_event_id cfg eid now w =
     (let (won, l) = ledger_claim eid now (fw_claims w) in
      if won then (True, w\<lparr>fw_claims := l\<rparr>)
      else if eid = [] then (False, w)
      else if terminal_record_present eid w then (False, w)
      else (case claim_age_seconds eid now (fw_claims w) of
          None \<Rightarrow> (let (won, l) = ledger_claim eid now (fw_claims w) in (won, w\<lparr>fw_claims := l\<rparr>))
        | Some age \<Rightarrow>
            if age < fc_ttl cfg then (False, w)
            else (let (won, l) = reclaim_expired eid now (fw_claims w) in (won, w\<lparr>fw_claims := l\<rparr>))))"

definition prospect_id_from_ref :: "string \<Rightarrow> string" where
  "prospect_id_from_ref ref = (let r = py_strip ref in if py_startswith r ''out_'' \<and> 4 < length r then drop 4 r else [])"

definition record_conversion ::
  "bool \<Rightarrow> rat \<Rightarrow> string \<Rightarrow> string \<Rightarrow> rat \<Rightarrow> string \<Rightarrow> string \<Rightarrow> string \<Rightarrow> string option \<Rightarrow> finance_world \<Rightarrow> finance_world" where
  "record_conversion works t ref email amount currency offer eid campaign w =
     (if prospect_id_from_ref ref = [] \<or> eid \<noteq> [] \<and> list_ex (\<lambda>c. co_event c = eid) (fw_conversions w) \<or> \<not> works then w
      else w\<lparr>fw_conversions := fw_conversions w @
        [\<lparr>co_prospect = prospect_id_from_ref ref, co_email = email, co_amount = amount, co_currency = py_lower (py_or currency ''usd''),
          co_offer = offer, co_event = eid, co_at = iso_at t, co_campaign = campaign\<rparr>]\<rparr>)"

section \<open>The handler\<close>

record process_result =
  pr_status :: webhook_status
  pr_event :: string
  pr_type :: string
  pr_email :: string
  pr_customer :: string
  pr_advanced :: string
  pr_website :: string
  pr_scheduled :: bool
  pr_mode :: string
  pr_subscription :: string
  pr_mrr :: "rat option"

definition plain_result :: "stripe_event \<Rightarrow> webhook_status \<Rightarrow> process_result" where
  "plain_result ev status =
     \<lparr>pr_status = status, pr_event = ev_id ev, pr_type = ev_type ev, pr_email = [], pr_customer = [], pr_advanced = [], pr_website = [],
      pr_scheduled = False, pr_mode = [], pr_subscription = [], pr_mrr = None\<rparr>"

text \<open>Up to the reservation: refuse, answer at once, or own the event.\<close>

datatype delivery = Refused signature_error | Answered_At_Once process_result | Owned stripe_event

definition no_event :: stripe_event where "no_event = \<lparr>ev_id = [], ev_type = [], ev_live = False, ev_data = []\<rparr>"

definition open_delivery ::
  "finance_config \<Rightarrow> (string \<Rightarrow> json option) \<Rightarrow> rat \<Rightarrow> string \<Rightarrow> string \<Rightarrow> finance_world \<Rightarrow> delivery \<times> finance_world" where
  "open_delivery cfg parse now payload sig_header w =
     (case verify_stripe_signature payload sig_header (py_strip (fc_secret cfg)) DEFAULT_REPLAY_TOLERANCE_SECONDS now of
        Some e \<Rightarrow> (Refused e, w)
      | None \<Rightarrow>
          (case Option.bind (parse payload) event_of of
             None \<Rightarrow> (Answered_At_Once (plain_result no_event W_Bad_Payload), w)
           | Some ev \<Rightarrow>
               if ev_id ev \<noteq> [] \<and> ev_id ev \<in> set (load_seen_event_ids cfg now w) then (Answered_At_Once (plain_result ev W_Duplicate), w)
               else (let (won, w) = claim_event_id cfg (ev_id ev) now w
                     in if won then (Owned ev, w) else (Answered_At_Once (plain_result ev W_Duplicate), w))))"

definition FULFILL_PAYMENT_STATUSES :: "string list" where "FULFILL_PAYMENT_STATUSES = [''paid'', ''no_payment_required'']"

definition FUNNEL_SIGNAL_EVENT_TYPES :: "string list" where
  "FUNNEL_SIGNAL_EVENT_TYPES = [''checkout.session.created'', ''checkout.session.expired'']"

definition INVOICE_REVENUE_EVENT_TYPES :: "string list" where
  "INVOICE_REVENUE_EVENT_TYPES = [''invoice.paid'', ''invoice.payment_succeeded'']"

text \<open>The guarded block: the customer's id and the state it is said to be in, or the error.\<close>

definition settle_customer ::
  "finance_outside \<Rightarrow> rat \<Rightarrow> stripe_event \<Rightarrow> session_fields \<Rightarrow> subscription_fields \<Rightarrow> customer_graph
     \<Rightarrow> (store_error + string \<times> string) \<times> customer_graph" where
  "settle_customer out t ev sf su g =
     (let (r, g) = (case get_by_email (fo_graph out) (sf_email sf) g of
          Some c \<Rightarrow> (Inr c, g)
        | None \<Rightarrow> create_customer (fo_graph out) (fst (fo_uuid out)) t (sf_email sf) [] [] ''stripe_webhook'' g)
      in case r of
           Inl e \<Rightarrow> (Inl e, g)
         | Inr c \<Rightarrow>
             (let settled = sf_status sf \<in> set FULFILL_PAYMENT_STATUSES;
                  target = (if su_mode su = ''subscription''
                    then (if cu_state c = ''delivered'' \<and> settled then Some ''renewed'' else None)
                    else (if cu_state c \<in> {''prospect'', ''contacted''} \<and> settled then Some ''paid'' else None))
              in case target of
                   None \<Rightarrow> (Inr (cu_id c, cu_state c), g)
                 | Some s \<Rightarrow>
                     (let (r, g) = advance_state (fo_graph out) (snd (fo_uuid out)) t (cu_id c) s
                            (if s = ''paid'' then ''stripe checkout.session.completed'' else ''stripe subscription started'') g
                      in (map_sum id (\<lambda>e. (cu_id c, se_to e)) r, g))))"

definition checkout_row :: "stripe_event \<Rightarrow> rat \<Rightarrow> webhook_status \<Rightarrow> session_fields \<Rightarrow> subscription_fields \<Rightarrow> webhook_row" where
  "checkout_row ev t status sf su =
     (plain_row ev t status)\<lparr>we_email := sf_email sf, we_amount := sf_amount sf, we_currency := sf_currency sf, we_offer := sf_offer sf,
        we_payment := sf_status sf, we_website := sf_website sf, we_mode := su_mode su, we_subscription := su_id su\<rparr>"

definition checkout_result :: "stripe_event \<Rightarrow> webhook_status \<Rightarrow> session_fields \<Rightarrow> subscription_fields \<Rightarrow> process_result" where
  "checkout_result ev status sf su =
     (plain_result ev status)\<lparr>pr_email := sf_email sf, pr_website := sf_website sf, pr_mode := su_mode su, pr_subscription := su_id su\<rparr>"

definition amount_or_zero :: "rat option \<Rightarrow> rat" where
  "amount_or_zero a = (case a of Some x \<Rightarrow> x | None \<Rightarrow> 0)"

definition mrr_of :: "session_fields \<Rightarrow> subscription_fields \<Rightarrow> rat option" where
  "mrr_of sf su = (if su_mode su = ''subscription'' \<and> amount_or_zero (sf_amount sf) \<noteq> 0 then sf_amount sf else None)"

definition send_payment_receipt :: "finance_outside \<Rightarrow> stripe_event \<Rightarrow> session_fields \<Rightarrow> (bool \<times> string \<times> string) \<times> finance_effect list" where
  "send_payment_receipt out ev sf =
     (if py_strip (sf_email sf) = [] then ((False, [], ''no_customer_email''), [])
      else (case fo_receipt out of
          Inl err \<Rightarrow> ((False, [], take 200 err), [])
        | Inr message_id \<Rightarrow> ((True, message_id, []), [Receipt (ev_id ev) (sf_email sf) (sf_amount sf)])))"

definition fulfilment_due :: "finance_config \<Rightarrow> finance_outside \<Rightarrow> string \<Rightarrow> session_fields \<Rightarrow> subscription_fields \<Rightarrow> bool" where
  "fulfilment_due cfg out customer_id sf su \<longleftrightarrow>
     su_mode su \<noteq> ''subscription'' \<and> sf_offer sf \<noteq> [] \<and> sf_offer sf \<in> set (fc_offers cfg)
     \<and> sf_website sf \<noteq> [] \<and> fo_public out (sf_website sf) \<and> customer_id \<noteq> []
     \<and> sf_status sf = ''paid'' \<and> sf_currency sf = ''usd'' \<and> amount_or_zero (sf_amount sf) \<ge> fc_floor cfg"

definition close_the_loop :: "finance_config \<Rightarrow> stripe_event \<Rightarrow> string \<Rightarrow> session_fields \<Rightarrow> subscription_fields \<Rightarrow> finance_effect list" where
  "close_the_loop cfg ev customer_id sf su =
     (if customer_id = [] \<or> \<not> fc_crm cfg then []
      else if py_startswith (su_ref su) ''op_''
      then [Close_By_Id (ev_id ev) (su_ref su) (amount_or_zero (sf_amount sf)) (sf_email sf)]
      else if sf_email sf \<noteq> [] then [Close_By_Email (ev_id ev) (sf_email sf) (amount_or_zero (sf_amount sf))] else [])"

definition campaign_of :: "stripe_event \<Rightarrow> string option" where
  "campaign_of ev =
     (case dict_get (ev_data ev) ''object'' JNull of
        JObj session \<Rightarrow> (case dict_get session ''metadata'' JNull of
            JObj md \<Rightarrow> (let v = dict_get md ''hf_campaign_id'' JNull in if json_truthy v then Some (json_text v) else None)
          | _ \<Rightarrow> None)
      | _ \<Rightarrow> None)"

definition attribute_upsell :: "finance_outside \<Rightarrow> rat \<Rightarrow> session_fields \<Rightarrow> subscription_fields \<Rightarrow> finance_world \<Rightarrow> finance_world" where
  "attribute_upsell out t sf su w =
     (if su_mode su = ''subscription'' \<and> py_startswith (su_ref su) ''upsell_'' \<and> su_id su \<noteq> []
      then (case find (\<lambda>r. ur_event r = drop 7 (su_ref su) \<and> ur_kind r = Queued) (uw_rows (fw_upsell w)) of
          None \<Rightarrow> w
        | Some r \<Rightarrow>
            if ur_customer r \<noteq> [] \<and> sf_email sf \<noteq> [] \<and> ur_email r \<noteq> [] \<and> norm_email (sf_email sf) = norm_email (ur_email r)
            then w\<lparr>fw_upsell := mark_converted (fo_ids out) (fo_side out) \<lfloor>t\<rfloor> (ur_customer r) ''seo_audit'' (ur_touch r) (su_id su) (fw_upsell w)\<rparr>
            else w)
      else w)"

text \<open>What follows once the customer is settled: receipt, fulfillment, the row of the log, and the best-effort calls after it.\<close>

definition after_settlement ::
  "finance_config \<Rightarrow> finance_outside \<Rightarrow> rat \<Rightarrow> stripe_event \<Rightarrow> session_fields \<Rightarrow> subscription_fields \<Rightarrow> string \<times> string \<Rightarrow> finance_world
     \<Rightarrow> process_result \<times> finance_world" where
  "after_settlement cfg out t ev sf su = (\<lambda>(customer_id, advanced) w.
     (let is_subscription = su_mode su = ''subscription'';
          settled = sf_status sf \<in> set FULFILL_PAYMENT_STATUSES;
          (receipt, receipts) = (if is_subscription then ((False, [], []), []) else send_payment_receipt out ev sf);
          scheduled = fulfilment_due cfg out customer_id sf su;
          w = log_effects (receipts @ (if scheduled then [Fulfil (ev_id ev) (sf_email sf) (sf_website sf)] else [])) w;
          w = append_event_record cfg (fo_appends out) t
                ((checkout_row ev t W_Processed sf su)\<lparr>we_customer := customer_id, we_receipt := receipt, we_price := su_price su,
                   we_mrr := mrr_of sf su, we_ref := su_ref su, we_scheduled := scheduled\<rparr>) w;
          w = log_effects (if settled
                then [Payment_Received (ev_id ev) (amount_or_zero (sf_amount sf))
                        (if py_startswith (su_ref su) ''out_'' then drop 4 (su_ref su) else [])
                        (if py_startswith (su_ref su) ''op_'' then su_ref su else [])] else []) w;
          w = log_effects (close_the_loop cfg ev customer_id sf su) w;
          w = (if py_startswith (su_ref su) ''out_'' \<and> settled
               then record_conversion (fo_side out) t (su_ref su) (sf_email sf) (amount_or_zero (sf_amount sf)) (sf_currency sf) (sf_offer sf)
                      (ev_id ev) (campaign_of ev) w else w);
          w = attribute_upsell out t sf su w;
          w = log_effects (if customer_id \<noteq> [] \<and> settled
                then [Deal_Closed (ev_id ev) (amount_or_zero (mrr_of sf su)) (amount_or_zero (sf_amount sf))] else []) w
      in ((checkout_result ev W_Processed sf su)\<lparr>pr_customer := customer_id, pr_advanced := advanced, pr_scheduled := scheduled,
            pr_mrr := mrr_of sf su\<rparr>, w)))"

definition complete_checkout ::
  "finance_config \<Rightarrow> finance_outside \<Rightarrow> rat \<Rightarrow> stripe_event \<Rightarrow> session_fields \<Rightarrow> subscription_fields \<Rightarrow> finance_world \<Rightarrow> process_result \<times> finance_world" where
  "complete_checkout cfg out t ev sf su w =
     (if sf_email sf = []
      then (checkout_result ev W_Failed sf su, append_event_record cfg (fo_appends out) t (checkout_row ev t W_Failed sf su) w)
      else (case settle_customer out t ev sf su (fw_graph w) of
          (Inl e, g) \<Rightarrow>
            ((checkout_result ev W_Failed sf su)\<lparr>pr_mrr := mrr_of sf su\<rparr>,
             append_event_record cfg (fo_appends out) t ((checkout_row ev t W_Failed sf su)\<lparr>we_mrr := mrr_of sf su\<rparr>) (w\<lparr>fw_graph := g\<rparr>))
        | (Inr settled, g) \<Rightarrow> after_settlement cfg out t ev sf su settled (w\<lparr>fw_graph := g\<rparr>)))"

text \<open>Everything after the reservation; \<open>None\<close> when an error escapes.\<close>

definition process_event ::
  "finance_config \<Rightarrow> finance_outside \<Rightarrow> rat \<Rightarrow> stripe_event \<Rightarrow> finance_world \<Rightarrow> process_result option \<times> finance_world" where
  "process_event cfg out t ev w =
     (let ignored = (Some (plain_result ev W_Ignored), append_event_record cfg (fo_appends out) t (plain_row ev t W_Ignored) w) in
      if fc_reject_test cfg \<and> fc_production cfg \<and> \<not> ev_live ev then ignored
      else if ev_type ev \<in> set INVOICE_REVENUE_EVENT_TYPES
      then (case extract_invoice_fields (ev_data ev) of
          Got iv \<Rightarrow>
            (Some ((plain_result ev W_Renewal)\<lparr>pr_email := iv_email iv, pr_mode := ''subscription'', pr_subscription := iv_subscription iv\<rparr>),
             log_effects (if amount_or_zero (iv_amount iv) \<noteq> 0 then [Payment_Received (ev_id ev) (amount_or_zero (iv_amount iv)) [] []] else [])
               (append_event_record cfg (fo_appends out) t
                  ((plain_row ev t W_Renewal)\<lparr>we_email := iv_email iv, we_amount := iv_amount iv, we_currency := iv_currency iv,
                     we_payment := ''paid'', we_mode := ''subscription'', we_subscription := iv_subscription iv\<rparr>) w))
        | _ \<Rightarrow> (None, w))
      else if ev_type ev \<in> set FUNNEL_SIGNAL_EVENT_TYPES \<or> ev_type ev = ''checkout.session.completed''
      then (case (extract_session_fields (ev_data ev), extract_subscription_fields (ev_data ev)) of
          (Got sf, Got su) \<Rightarrow>
            if ev_type ev = ''checkout.session.completed''
            then (case complete_checkout cfg out t ev sf su w of (r, w) \<Rightarrow> (Some r, w))
            else (Some (checkout_result ev W_Funnel_Signal sf su),
                  append_event_record cfg (fo_appends out) t
                    ((checkout_row ev t W_Funnel_Signal sf su)\<lparr>we_price := su_price su, we_ref := su_ref su\<rparr>) w)
        | _ \<Rightarrow> (None, w))
      else ignored)"

definition handle_stripe_webhook ::
  "finance_config \<Rightarrow> (string \<Rightarrow> json option) \<Rightarrow> finance_outside \<Rightarrow> rat \<Rightarrow> rat \<Rightarrow> string \<Rightarrow> string \<Rightarrow> finance_world
     \<Rightarrow> (signature_error + process_result option) \<times> finance_world" where
  "handle_stripe_webhook cfg parse out now t payload sig_header w =
     (case open_delivery cfg parse now payload sig_header w of
        (Refused e, w) \<Rightarrow> (Inl e, w)
      | (Answered_At_Once r, w) \<Rightarrow> (Inr (Some r), w)
      | (Owned ev, w) \<Rightarrow> (case process_event cfg out t ev w of (r, w) \<Rightarrow> (Inr r, w)))"

text \<open>\<open>_run_auto_fulfill_sync\<close>, the thread behind a scheduled fulfillment: its outcome is a second row with the event's id.\<close>

definition run_auto_fulfill_sync :: "finance_config \<Rightarrow> bool \<Rightarrow> rat \<Rightarrow> string \<Rightarrow> string \<Rightarrow> string \<Rightarrow> bool \<Rightarrow> finance_world \<Rightarrow> finance_world" where
  "run_auto_fulfill_sync cfg appends t eid email url ok w =
     append_event_record cfg appends t
       ((plain_row \<lparr>ev_id = eid, ev_type = ''auto_fulfill'', ev_live = False, ev_data = []\<rparr> t (if ok then W_Processed else W_Failed))
          \<lparr>we_email := email, we_website := url, we_scheduled := True, we_fulfilled := ok\<rparr>) w"

section \<open>What one event does\<close>

lemma log_effects_fields [simp]:
  "fw_log (log_effects xs w) = fw_log w @ xs" "fw_rows (log_effects xs w) = fw_rows w" "fw_claims (log_effects xs w) = fw_claims w"
  "fw_graph (log_effects xs w) = fw_graph w" "fw_appends (log_effects xs w) = fw_appends w"
  by (simp_all add: log_effects_def)

lemma append_event_fields [simp]:
  "fw_log (append_event_record cfg appends t row w) = fw_log w" "fw_claims (append_event_record cfg appends t row w) = fw_claims w"
  "fw_graph (append_event_record cfg appends t row w) = fw_graph w" "fw_conversions (append_event_record cfg appends t row w) = fw_conversions w"
  "fw_upsell (append_event_record cfg appends t row w) = fw_upsell w"
  by (simp_all add: append_event_record_def Let_def)

lemma record_conversion_fields [simp]:
  "fw_log (record_conversion works t ref email amount currency offer eid campaign w) = fw_log w"
  "fw_rows (record_conversion works t ref email amount currency offer eid campaign w) = fw_rows w"
  "fw_claims (record_conversion works t ref email amount currency offer eid campaign w) = fw_claims w"
  "fw_graph (record_conversion works t ref email amount currency offer eid campaign w) = fw_graph w"
  by (simp_all add: record_conversion_def)

lemma attribute_upsell_fields [simp]:
  "fw_log (attribute_upsell out t sf su w) = fw_log w" "fw_rows (attribute_upsell out t sf su w) = fw_rows w"
  "fw_claims (attribute_upsell out t sf su w) = fw_claims w" "fw_graph (attribute_upsell out t sf su w) = fw_graph w"
  by (simp_all add: attribute_upsell_def split: option.split)

definition receipt_effects :: "finance_outside \<Rightarrow> stripe_event \<Rightarrow> session_fields \<Rightarrow> subscription_fields \<Rightarrow> finance_effect list" where
  "receipt_effects out ev sf su = (if su_mode su = ''subscription'' then [] else snd (send_payment_receipt out ev sf))"

definition payment_effects :: "stripe_event \<Rightarrow> session_fields \<Rightarrow> subscription_fields \<Rightarrow> finance_effect list" where
  "payment_effects ev sf su =
     (if sf_status sf \<in> set FULFILL_PAYMENT_STATUSES
      then [Payment_Received (ev_id ev) (amount_or_zero (sf_amount sf))
              (if py_startswith (su_ref su) ''out_'' then drop 4 (su_ref su) else [])
              (if py_startswith (su_ref su) ''op_'' then su_ref su else [])] else [])"

lemma after_settlement_facts:
  defines "s \<equiv> \<lambda>cfg out t ev sf su customer_id advanced w. snd (after_settlement cfg out t ev sf su (customer_id, advanced) w)"
  shows "fw_log (s cfg out t ev sf su customer_id advanced w) = fw_log w @ receipt_effects out ev sf su
      @ (if fulfilment_due cfg out customer_id sf su then [Fulfil (ev_id ev) (sf_email sf) (sf_website sf)] else [])
      @ payment_effects ev sf su @ close_the_loop cfg ev customer_id sf su
      @ (if customer_id \<noteq> [] \<and> sf_status sf \<in> set FULFILL_PAYMENT_STATUSES
         then [Deal_Closed (ev_id ev) (amount_or_zero (mrr_of sf su)) (amount_or_zero (sf_amount sf))] else [])"
    and "fw_claims (s cfg out t ev sf su customer_id advanced w) = fw_claims w"
    and "fw_graph (s cfg out t ev sf su customer_id advanced w) = fw_graph w"
    and "\<exists>row w1. we_event row = ev_id ev \<and> we_received row = iso_at t \<and> fw_rows w1 = fw_rows w \<and> fw_appends w1 = fw_appends w
      \<and> fw_rows (s cfg out t ev sf su customer_id advanced w) = fw_rows (append_event_record cfg (fo_appends out) t row w1)"
proof -
  show "fw_log (s cfg out t ev sf su customer_id advanced w) = fw_log w @ receipt_effects out ev sf su
      @ (if fulfilment_due cfg out customer_id sf su then [Fulfil (ev_id ev) (sf_email sf) (sf_website sf)] else [])
      @ payment_effects ev sf su @ close_the_loop cfg ev customer_id sf su
      @ (if customer_id \<noteq> [] \<and> sf_status sf \<in> set FULFILL_PAYMENT_STATUSES
         then [Deal_Closed (ev_id ev) (amount_or_zero (mrr_of sf su)) (amount_or_zero (sf_amount sf))] else [])"
    by (simp add: s_def after_settlement_def receipt_effects_def payment_effects_def Let_def split: prod.split)
  show "fw_claims (s cfg out t ev sf su customer_id advanced w) = fw_claims w" "fw_graph (s cfg out t ev sf su customer_id advanced w) = fw_graph w"
    by (simp_all add: s_def after_settlement_def Let_def split: prod.split)
  obtain receipt receipts where r: "(if su_mode su = ''subscription'' then ((False, [], []), []) else send_payment_receipt out ev sf) = (receipt, receipts)"
    by (rule that) (rule prod.collapse [symmetric])
  let ?row = "(checkout_row ev t W_Processed sf su)\<lparr>we_customer := customer_id, we_receipt := receipt, we_price := su_price su,
                   we_mrr := mrr_of sf su, we_ref := su_ref su, we_scheduled := fulfilment_due cfg out customer_id sf su\<rparr>"
  let ?w1 = "log_effects (receipts @ (if fulfilment_due cfg out customer_id sf su then [Fulfil (ev_id ev) (sf_email sf) (sf_website sf)] else [])) w"
  have "fw_rows (s cfg out t ev sf su customer_id advanced w) = fw_rows (append_event_record cfg (fo_appends out) t ?row ?w1)"
    unfolding s_def after_settlement_def by (simp add: r Let_def)
  then show "\<exists>row w1. we_event row = ev_id ev \<and> we_received row = iso_at t \<and> fw_rows w1 = fw_rows w \<and> fw_appends w1 = fw_appends w
      \<and> fw_rows (s cfg out t ev sf su customer_id advanced w) = fw_rows (append_event_record cfg (fo_appends out) t row w1)"
    by (intro exI [where x = ?row] exI [where x = ?w1]) (simp add: checkout_row_def plain_row_def)
qed

text \<open>The ways an owned event goes.\<close>

lemma process_event_cases:
  assumes "process_event cfg out t ev w = (res, w')"
  obtains
    (Escaped) "res = None" "w' = w"
  | (Row) row g r where "res = Some r" "we_event row = ev_id ev" "we_received row = iso_at t"
      "w' = append_event_record cfg (fo_appends out) t row (w\<lparr>fw_graph := g\<rparr>)" "\<not> pr_scheduled r"
      "g = fw_graph w \<or> ev_type ev = ''checkout.session.completed''"
  | (Renewal) row r a where "res = Some r" "we_event row = ev_id ev" "we_received row = iso_at t"
      "ev_type ev \<in> set INVOICE_REVENUE_EVENT_TYPES" "\<not> (fc_reject_test cfg \<and> fc_production cfg \<and> \<not> ev_live ev)"
      "w' = log_effects [Payment_Received (ev_id ev) a [] []] (append_event_record cfg (fo_appends out) t row w)"
  | (Checkout) sf su c a g r where "res = Some r" "ev_type ev = ''checkout.session.completed''"
      "\<not> (fc_reject_test cfg \<and> fc_production cfg \<and> \<not> ev_live ev)"
      "extract_session_fields (ev_data ev) = Got sf" "extract_subscription_fields (ev_data ev) = Got su" "sf_email sf \<noteq> []"
      "settle_customer out t ev sf su (fw_graph w) = (Inr (c, a), g)"
      "after_settlement cfg out t ev sf su (c, a) (w\<lparr>fw_graph := g\<rparr>) = (r, w')"
proof -
  have eta: "w = w\<lparr>fw_graph := fw_graph w\<rparr>" by simp
  note p = assms [unfolded process_event_def Let_def]
  consider (ignored) "fc_reject_test cfg \<and> fc_production cfg \<and> \<not> ev_live ev"
    | (invoice) "\<not> (fc_reject_test cfg \<and> fc_production cfg \<and> \<not> ev_live ev)" "ev_type ev \<in> set INVOICE_REVENUE_EVENT_TYPES"
    | (session) "\<not> (fc_reject_test cfg \<and> fc_production cfg \<and> \<not> ev_live ev)" "ev_type ev \<notin> set INVOICE_REVENUE_EVENT_TYPES"
        "ev_type ev \<in> set FUNNEL_SIGNAL_EVENT_TYPES \<or> ev_type ev = ''checkout.session.completed''"
    | (other) "\<not> (fc_reject_test cfg \<and> fc_production cfg \<and> \<not> ev_live ev)" "ev_type ev \<notin> set INVOICE_REVENUE_EVENT_TYPES"
        "\<not> (ev_type ev \<in> set FUNNEL_SIGNAL_EVENT_TYPES \<or> ev_type ev = ''checkout.session.completed'')" by blast
  then show ?thesis
  proof cases
    case ignored
    with p show ?thesis by (intro Row [of "plain_result ev W_Ignored" "plain_row ev t W_Ignored" "fw_graph w"]) (auto simp: plain_row_def plain_result_def)
  next
    case other
    with p show ?thesis by (intro Row [of "plain_result ev W_Ignored" "plain_row ev t W_Ignored" "fw_graph w"]) (auto simp: plain_row_def plain_result_def)
  next
    case invoice
    show ?thesis
    proof (cases "extract_invoice_fields (ev_data ev)")
      case (Got iv)
      let ?row = "(plain_row ev t W_Renewal)\<lparr>we_email := iv_email iv, we_amount := iv_amount iv, we_currency := iv_currency iv,
                     we_payment := ''paid'', we_mode := ''subscription'', we_subscription := iv_subscription iv\<rparr>"
      show ?thesis
      proof (cases "amount_or_zero (iv_amount iv) = 0")
        case True
        with p invoice Got show ?thesis by (intro Row [of _ ?row "fw_graph w"]) (auto simp: plain_row_def plain_result_def log_effects_def)
      next
        case False
        with p invoice Got show ?thesis by (intro Renewal [of _ ?row]) (auto simp: plain_row_def)
      qed
    qed (use p invoice in \<open>auto intro: Escaped\<close>)
  next
    case session
    show ?thesis
    proof (cases "\<exists>sf su. extract_session_fields (ev_data ev) = Got sf \<and> extract_subscription_fields (ev_data ev) = Got su")
      case False
      with p session show ?thesis by (intro Escaped) (auto split: reading.splits)
    next
      case True
      then obtain sf su where e: "extract_session_fields (ev_data ev) = Got sf" "extract_subscription_fields (ev_data ev) = Got su" by blast
      show ?thesis
      proof (cases "ev_type ev = ''checkout.session.completed''")
        case False
        with p session e show ?thesis
          by (intro Row [of _ "(checkout_row ev t W_Funnel_Signal sf su)\<lparr>we_price := su_price su, we_ref := su_ref su\<rparr>" "fw_graph w"])
            (auto simp: checkout_row_def plain_row_def checkout_result_def plain_result_def)
      next
        case c: True
        with p session e have cc: "complete_checkout cfg out t ev sf su w = (the res, w')" "res \<noteq> None" by (auto split: prod.splits)
        show ?thesis
        proof (cases "sf_email sf = []")
          case True
          with cc c show ?thesis
            by (intro Row [of "the res" "checkout_row ev t W_Failed sf su" "fw_graph w"])
              (auto simp: complete_checkout_def checkout_row_def plain_row_def checkout_result_def plain_result_def)
        next
          case False
          obtain r g where s: "settle_customer out t ev sf su (fw_graph w) = (r, g)" by (rule that) (rule prod.collapse [symmetric])
          show ?thesis
          proof (cases r)
            case (Inl x)
            with cc c False s show ?thesis
              by (intro Row [of "the res" "(checkout_row ev t W_Failed sf su)\<lparr>we_mrr := mrr_of sf su\<rparr>" g])
                (auto simp: complete_checkout_def checkout_row_def plain_row_def checkout_result_def plain_result_def)
          next
            case (Inr ca)
            obtain cid adv where "ca = (cid, adv)" by (cases ca)
            with cc c False s Inr e session show ?thesis by (intro Checkout [of "the res" sf su cid adv g]) (auto simp: complete_checkout_def)
          qed
        qed
      qed
    qed
  qed
qed

end
