(* ===== verification/Stripe_Runs.thy ===== *)
theory Stripe_Runs
  imports Stripe_Webhook
begin

text \<open>
  Deliveries of the Stripe webhook side by side: each arrives, and when it owns its event it later completes or dies.
  The effects of an event happen once; fulfillment only follows a settled payment; what the reservation does for an
  owner that died; and what the handler gets wrong.
\<close>

section \<open>Claims\<close>

definition claimed_at :: "finance_world \<Rightarrow> string \<Rightarrow> rat option" where
  "claimed_at w eid = map_of (lg_claims (fw_claims w)) (claim_marker eid)"

lemma claim_event_cases:
  assumes "claim_event_id cfg eid now w = (won, w')"
  obtains
    (Lost) "\<not> won" "w' = w" "eid \<noteq> []" "claimed_at w eid \<noteq> None"
  | (Nameless) "won" "eid = []" "w' = w"
  | (First) "won" "eid \<noteq> []" "claimed_at w eid = None"
      "w' = w\<lparr>fw_claims := (fw_claims w)\<lparr>lg_claims := AList.update (claim_marker eid) now (lg_claims (fw_claims w))\<rparr>\<rparr>"
  | (Taken_Over) tc where "won" "eid \<noteq> []" "claimed_at w eid = Some tc" "\<not> terminal_record_present eid w" "fc_ttl cfg \<le> max 0 (now - tc)"
      "w' = w\<lparr>fw_claims := (fw_claims w)\<lparr>lg_claims := AList.update (claim_marker eid) now (lg_claims (fw_claims w))\<rparr>\<rparr>"
proof (cases "eid = []")
  case True
  with assms Nameless show ?thesis by (simp add: claim_event_id_def ledger_claim_def)
next
  case id: False
  show ?thesis
  proof (cases "claimed_at w eid")
    case None
    with id assms First show ?thesis by (auto simp: claim_event_id_def ledger_claim_def dict_has_def claimed_at_def Let_def)
  next
    case (Some tc)
    then have h: "dict_has (lg_claims (fw_claims w)) (claim_marker eid)" "map_of (lg_claims (fw_claims w)) (claim_marker eid) = Some tc"
      by (simp_all add: dict_has_def claimed_at_def)
    show ?thesis
    proof (cases "terminal_record_present eid w \<or> max 0 (now - tc) < fc_ttl cfg")
      case True
      with id Some h assms Lost show ?thesis
        by (auto simp: claim_event_id_def ledger_claim_def claim_age_seconds_def Let_def split: if_splits)
    next
      case False
      with id Some h assms show ?thesis
        by (intro Taken_Over [OF _ id Some])
          (auto simp: claim_event_id_def ledger_claim_def claim_age_seconds_def reclaim_expired_def Let_def split: if_splits)
    qed
  qed
qed

lemma open_delivery_owned:
  assumes "open_delivery cfg parse now payload sig_header w = (Owned ev, w')"
  shows "verify_stripe_signature payload sig_header (py_strip (fc_secret cfg)) DEFAULT_REPLAY_TOLERANCE_SECONDS now = None
    \<and> Option.bind (parse payload) event_of = Some ev \<and> claim_event_id cfg (ev_id ev) now w = (True, w')"
  using assms by (auto simp: open_delivery_def Let_def split: option.splits if_splits prod.splits)

lemma open_delivery_other:
  assumes "open_delivery cfg parse now payload sig_header w = (d, w')" "\<forall>ev. d \<noteq> Owned ev"
  shows "w' = w"
proof -
  have "w'' = w" if "claim_event_id cfg eid now w = (False, w'')" for eid w'' using that by (cases rule: claim_event_cases) simp_all
  with assms show ?thesis by (auto simp: open_delivery_def Let_def split: option.splits if_splits prod.splits)
qed

section \<open>Runs\<close>

datatype webhook_step =
    Arrive nat rat string string
  | Complete nat rat finance_outside
  | Die nat
  | Fulfilled rat string string string bool bool

record webhook_run =
  wn_world :: finance_world
  wn_open :: "(nat \<times> rat \<times> stripe_event) list"

fun run_step :: "finance_config \<Rightarrow> (string \<Rightarrow> json option) \<Rightarrow> webhook_step \<Rightarrow> webhook_run \<Rightarrow> webhook_run" where
  "run_step cfg parse (Arrive i t payload sig_header) s =
     (case open_delivery cfg parse t payload sig_header (wn_world s) of
        (Owned ev, w) \<Rightarrow> s\<lparr>wn_world := w, wn_open := wn_open s @ [(i, t, ev)]\<rparr>
      | (_, w) \<Rightarrow> s\<lparr>wn_world := w\<rparr>)"
| "run_step cfg parse (Complete i t out) s =
     (case map_of (wn_open s) i of
        None \<Rightarrow> s
      | Some (tc, ev) \<Rightarrow> s\<lparr>wn_world := snd (process_event cfg out t ev (wn_world s)), wn_open := filter (\<lambda>x. fst x \<noteq> i) (wn_open s)\<rparr>)"
| "run_step cfg parse (Die i) s = s\<lparr>wn_open := filter (\<lambda>x. fst x \<noteq> i) (wn_open s)\<rparr>"
| "run_step cfg parse (Fulfilled t eid email url appends ok) s =
     (if Fulfil eid email url \<in> set (fw_log (wn_world s))
      then s\<lparr>wn_world := run_auto_fulfill_sync cfg appends t eid email url ok (wn_world s)\<rparr> else s)"

definition in_span :: "finance_config \<Rightarrow> int \<Rightarrow> rat \<Rightarrow> bool" where
  "in_span cfg t0 t \<longleftrightarrow> of_int t0 \<le> t \<and> t \<le> of_int t0 + fc_retention_hours cfg * 3600"

text \<open>Within the retention; a completed event's row is appended; no owner is around for the reservation's time or longer.\<close>

fun step_timely :: "finance_config \<Rightarrow> int \<Rightarrow> webhook_step \<Rightarrow> webhook_run \<Rightarrow> bool" where
  "step_timely cfg t0 (Arrive i t payload sig_header) s \<longleftrightarrow> in_span cfg t0 t \<and> list_all (\<lambda>(j, tc, ev). t - tc < fc_ttl cfg) (wn_open s)"
| "step_timely cfg t0 (Complete i t out) s \<longleftrightarrow> in_span cfg t0 t \<and> fo_appends out"
| "step_timely cfg t0 (Die i) s \<longleftrightarrow> True"
| "step_timely cfg t0 (Fulfilled t eid email url appends ok) s \<longleftrightarrow> in_span cfg t0 t"

fun timely :: "finance_config \<Rightarrow> (string \<Rightarrow> json option) \<Rightarrow> int \<Rightarrow> webhook_step list \<Rightarrow> webhook_run \<Rightarrow> bool" where
  "timely cfg parse t0 [] s = True"
| "timely cfg parse t0 (st # sts) s = (step_timely cfg t0 st s \<and> timely cfg parse t0 sts (run_step cfg parse st s))"

datatype effect_kind = A_Receipt | A_Fulfil | A_Close | A_Payment | A_Deal

fun effect_event :: "finance_effect \<Rightarrow> string" where
  "effect_event (Receipt e email a) = e"
| "effect_event (Fulfil e email url) = e"
| "effect_event (Close_By_Id e opp a email) = e"
| "effect_event (Close_By_Email e email a) = e"
| "effect_event (Payment_Received e a p opp) = e"
| "effect_event (Deal_Closed e m a) = e"

fun kind_of :: "finance_effect \<Rightarrow> effect_kind" where
  "kind_of (Receipt e email a) = A_Receipt"
| "kind_of (Fulfil e email url) = A_Fulfil"
| "kind_of (Close_By_Id e opp a email) = A_Close"
| "kind_of (Close_By_Email e email a) = A_Close"
| "kind_of (Payment_Received e a p opp) = A_Payment"
| "kind_of (Deal_Closed e m a) = A_Deal"

definition effects_on :: "string \<Rightarrow> effect_kind \<Rightarrow> finance_effect list \<Rightarrow> finance_effect list" where
  "effects_on e k xs = filter (\<lambda>x. effect_event x = e \<and> kind_of x = k) xs"

lemma effects_on_simps [simp]:
  "effects_on e k [] = []" "effects_on e k (xs @ ys) = effects_on e k xs @ effects_on e k ys"
  "effects_on e k (x # xs) = (if effect_event x = e \<and> kind_of x = k then x # effects_on e k xs else effects_on e k xs)"
  by (simp_all add: effects_on_def)

lemma short_effects:
  "receipt_effects out ev sf su = [] \<or> (\<exists>a b. receipt_effects out ev sf su = [Receipt (ev_id ev) a b])"
  "payment_effects ev sf su = [] \<or> (\<exists>a p q. payment_effects ev sf su = [Payment_Received (ev_id ev) a p q])"
  "close_the_loop cfg ev c sf su = [] \<or> (\<exists>a b d. close_the_loop cfg ev c sf su = [Close_By_Id (ev_id ev) a b d])
    \<or> (\<exists>a b. close_the_loop cfg ev c sf su = [Close_By_Email (ev_id ev) a b])"
  by (auto simp: receipt_effects_def payment_effects_def close_the_loop_def send_payment_receipt_def split: sum.split)

lemma process_event_effects:
  assumes "process_event cfg out t ev w = (res, w')"
  shows "\<exists>new. fw_log w' = fw_log w @ new \<and> (\<forall>e k. length (effects_on e k new) \<le> 1) \<and> (\<forall>e k. e \<noteq> ev_id ev \<longrightarrow> effects_on e k new = [])
    \<and> (res = None \<longrightarrow> new = []) \<and> fw_claims w' = fw_claims w"
  using assms
proof (cases rule: process_event_cases)
  case Escaped
  then show ?thesis by simp
next
  case Row
  then show ?thesis by simp
next
  case Renewal
  then show ?thesis by simp
next
  case (Checkout sf su c a g r)
  let ?new = "receipt_effects out ev sf su
      @ (if fulfilment_due cfg out c sf su then [Fulfil (ev_id ev) (sf_email sf) (sf_website sf)] else [])
      @ payment_effects ev sf su @ close_the_loop cfg ev c sf su
      @ (if c \<noteq> [] \<and> sf_status sf \<in> set FULFILL_PAYMENT_STATUSES
         then [Deal_Closed (ev_id ev) (amount_or_zero (mrr_of sf su)) (amount_or_zero (sf_amount sf))] else [])"
  have "fw_log w' = fw_log w @ ?new" "fw_claims w' = fw_claims w"
    using after_settlement_facts(1,2) [of cfg out t ev sf su c a "w\<lparr>fw_graph := g\<rparr>"] Checkout(8) by simp_all
  moreover have "length (effects_on e k ?new) \<le> 1" "e \<noteq> ev_id ev \<Longrightarrow> effects_on e k ?new = []" for e k
    using short_effects(1) [of out ev sf su] short_effects(2) [of ev sf su] short_effects(3) [of cfg ev c sf su] by auto
  ultimately show ?thesis using Checkout(1) by blast
qed

section \<open>Rows in_span the retention\<close>

definition rows_since :: "int \<Rightarrow> finance_world \<Rightarrow> bool" where
  "rows_since t0 w \<longleftrightarrow> (\<forall>r \<in> set (fw_rows w). \<exists>n. we_received r = IsoAt n \<and> t0 \<le> n)"

lemma append_in_span:
  assumes "rows_since t0 w" "in_span cfg t0 t" "we_received row = iso_at t"
  shows "fw_rows (append_event_record cfg appends t row w) = fw_rows w @ (if appends then [row] else [])"
proof -
  have "\<not> received_before (t - fc_retention_hours cfg * 3600) r" if "r \<in> set (fw_rows w) \<or> r = row" for r
  proof -
    from that assms have "\<exists>n. we_received r = IsoAt n \<and> t0 \<le> n" by (auto simp: rows_since_def iso_at_def in_span_def le_floor_iff)
    then obtain n where "we_received r = IsoAt n" "t0 \<le> n" by blast
    moreover have "(of_int t0 :: rat) \<le> of_int n" using \<open>t0 \<le> n\<close> by simp
    ultimately show ?thesis using assms(2) by (simp add: received_before_def in_span_def)
  qed
  then show ?thesis by (auto simp: append_event_record_def Let_def filter_id_conv)
qed

lemma rows_since_append: "rows_since t0 w \<Longrightarrow> in_span cfg t0 t \<Longrightarrow> we_received row = iso_at t \<Longrightarrow>
    fw_rows w' = fw_rows w @ (if appends then [row] else []) \<Longrightarrow> rows_since t0 w'"
  by (auto simp: rows_since_def iso_at_def in_span_def le_floor_iff)

lemma process_event_rows:
  assumes "process_event cfg out t ev w = (res, w')" "rows_since t0 w" "in_span cfg t0 t" "fo_appends out"
  shows "(res = None \<and> fw_rows w' = fw_rows w) \<or> (\<exists>row. we_event row = ev_id ev \<and> we_received row = iso_at t \<and> fw_rows w' = fw_rows w @ [row])"
  using assms(1)
proof (cases rule: process_event_cases)
  case Escaped
  then show ?thesis by simp
next
  case (Row row g r)
  have "rows_since t0 (w\<lparr>fw_graph := g\<rparr>)" using assms(2) by (simp add: rows_since_def)
  from append_in_span [OF this assms(3) Row(3), of True] Row assms(4) show ?thesis by auto
next
  case (Renewal row r a)
  from append_in_span [OF assms(2,3) Renewal(3), of True] Renewal assms(4) show ?thesis by auto
next
  case (Checkout sf su c a g r)
  obtain row w1 where row: "we_event row = ev_id ev" "we_received row = iso_at t" "fw_rows w1 = fw_rows w"
    "fw_rows w' = fw_rows (append_event_record cfg (fo_appends out) t row w1)"
    using after_settlement_facts(4) [where ev = ev and t = t and w = "w\<lparr>fw_graph := g\<rparr>" and cfg = cfg and out = out and sf = sf and su = su and customer_id = c and advanced = a] Checkout(8)
    by auto
  have "rows_since t0 w1" using assms(2) row(3) by (simp add: rows_since_def)
  from append_in_span [OF this assms(3) row(2), of True] row assms(4) show ?thesis by auto
qed

section \<open>The invariant of a run\<close>

definition named :: "(nat \<times> rat \<times> stripe_event) list \<Rightarrow> (nat \<times> rat \<times> stripe_event) list" where
  "named opened = filter (\<lambda>(i, tc, ev). ev_id ev \<noteq> []) opened"

definition marker_of :: "nat \<times> rat \<times> stripe_event \<Rightarrow> string" where
  "marker_of = (\<lambda>(i, tc, ev). claim_marker (ev_id ev))"

definition has_row :: "string \<Rightarrow> finance_world \<Rightarrow> bool" where
  "has_row e w \<longleftrightarrow> (\<exists>r \<in> set (fw_rows w). we_event r = e)"

definition owners_hold :: "webhook_run \<Rightarrow> bool" where
  "owners_hold s \<longleftrightarrow> distinct (map marker_of (named (wn_open s)))
     \<and> (\<forall>(i, tc, ev) \<in> set (wn_open s). ev_id ev \<noteq> [] \<longrightarrow> claimed_at (wn_world s) (ev_id ev) = Some tc \<and> \<not> has_row (ev_id ev) (wn_world s))"

definition log_holds :: "finance_world \<Rightarrow> bool" where
  "log_holds w \<longleftrightarrow> (\<forall>e. e \<noteq> [] \<longrightarrow> (\<forall>k. length (effects_on e k (fw_log w)) \<le> 1) \<and> (\<not> has_row e w \<longrightarrow> (\<forall>k. effects_on e k (fw_log w) = []))
     \<and> (has_row e w \<longrightarrow> claimed_at w e \<noteq> None))"

definition run_holds :: "int \<Rightarrow> webhook_run \<Rightarrow> bool" where
  "run_holds t0 s \<longleftrightarrow> rows_since t0 (wn_world s) \<and> owners_hold s \<and> log_holds (wn_world s)"

lemma named_filter: "distinct (map marker_of (named opened)) \<Longrightarrow> distinct (map marker_of (named (filter P opened)))"
  by (induction opened) (auto simp: named_def)

lemma markers_differ:
  assumes "distinct (map marker_of (named opened))" "(i, tc, ev) \<in> set opened" "(j, tc', ev') \<in> set opened" "i \<noteq> j"
    "ev_id ev \<noteq> []" "ev_id ev' \<noteq> []"
  shows "ev_id ev \<noteq> ev_id ev'"
proof
  assume "ev_id ev = ev_id ev'"
  then have "marker_of (i, tc, ev) = marker_of (j, tc', ev')" by (simp add: marker_of_def)
  moreover have "inj_on marker_of (set (named opened))" using assms(1) by (simp add: distinct_map)
  ultimately show False using assms(2-6) by (auto simp: named_def dest: inj_onD)
qed

lemma claimed_after_update:
  "claimed_at (w\<lparr>fw_claims := (fw_claims w)\<lparr>lg_claims := AList.update (claim_marker e) t (lg_claims (fw_claims w))\<rparr>\<rparr>) e'
     = (if claim_marker e' = claim_marker e then Some t else claimed_at w e')"
  by (simp add: claimed_at_def update_conv')

lemma owner_joins:
  assumes "run_holds t0 s" "ev_id ev \<noteq> []" "\<not> has_row (ev_id ev) (wn_world s)"
    "\<forall>(j, tc, ev') \<in> set (wn_open s). ev_id ev' \<noteq> [] \<longrightarrow> claim_marker (ev_id ev') \<noteq> claim_marker (ev_id ev)"
    "w' = (wn_world s)\<lparr>fw_claims := (fw_claims (wn_world s))\<lparr>lg_claims := AList.update (claim_marker (ev_id ev)) t (lg_claims (fw_claims (wn_world s)))\<rparr>\<rparr>"
  shows "run_holds t0 (s\<lparr>wn_world := w', wn_open := wn_open s @ [(i, t, ev)]\<rparr>)"
proof -
  have claims: "claimed_at w' e' = (if claim_marker e' = claim_marker (ev_id ev) then Some t else claimed_at (wn_world s) e')" for e'
    unfolding assms(5) by (rule claimed_after_update)
  have same: "fw_rows w' = fw_rows (wn_world s)" "fw_log w' = fw_log (wn_world s)" "has_row e w' = has_row e (wn_world s)" for e
    by (simp_all add: assms(5) has_row_def)
  have "distinct (map marker_of (named (wn_open s @ [(i, t, ev)])))"
    using assms(1,2,4) by (auto simp: run_holds_def owners_hold_def named_def marker_of_def)
  moreover have "claimed_at w' (ev_id ev') = Some tc \<and> \<not> has_row (ev_id ev') w'"
    if "(j, tc, ev') \<in> set (wn_open s @ [(i, t, ev)])" "ev_id ev' \<noteq> []" for j tc ev'
    using that assms(1,3,4) by (auto simp: claims same run_holds_def owners_hold_def)
  ultimately have "owners_hold (s\<lparr>wn_world := w', wn_open := wn_open s @ [(i, t, ev)]\<rparr>)" by (auto simp: owners_hold_def)
  moreover have "log_holds w'" "rows_since t0 w'"
    using assms(1) by (auto simp: run_holds_def log_holds_def rows_since_def claims same)
  ultimately show ?thesis by (simp add: run_holds_def)
qed

lemma arrival_owns:
  assumes "run_holds t0 s" "0 < fc_ttl cfg" "list_all (\<lambda>(j, tc, ev). t - tc < fc_ttl cfg) (wn_open s)"
    "claim_event_id cfg (ev_id ev) t (wn_world s) = (True, w')"
  shows "run_holds t0 (s\<lparr>wn_world := w', wn_open := wn_open s @ [(i, t, ev)]\<rparr>)"
  using assms(4)
proof (cases rule: claim_event_cases)
  case Lost
  then show ?thesis by simp
next
  case Nameless
  then show ?thesis using assms(1) by (auto simp: run_holds_def owners_hold_def named_def)
next
  case First
  have "\<not> has_row (ev_id ev) (wn_world s)" using assms(1) First(2,3) by (auto simp: run_holds_def log_holds_def)
  moreover have "\<forall>(j, tc, ev') \<in> set (wn_open s). ev_id ev' \<noteq> [] \<longrightarrow> claim_marker (ev_id ev') \<noteq> claim_marker (ev_id ev)"
    using assms(1) First(3) by (fastforce simp: run_holds_def owners_hold_def claimed_at_def)
  ultimately show ?thesis by (rule owner_joins [OF assms(1) First(2) _ _ First(4)])
next
  case (Taken_Over tc)
  have "\<not> has_row (ev_id ev) (wn_world s)" using Taken_Over(2,4) by (auto simp: terminal_record_present_def has_row_def list_ex_iff)
  moreover have "\<forall>(j, tc, ev') \<in> set (wn_open s). ev_id ev' \<noteq> [] \<longrightarrow> claim_marker (ev_id ev') \<noteq> claim_marker (ev_id ev)"
    using assms(1,2,3) Taken_Over(3,5) by (fastforce simp: run_holds_def owners_hold_def claimed_at_def list_all_iff)
  ultimately show ?thesis by (rule owner_joins [OF assms(1) Taken_Over(2) _ _ Taken_Over(6)])
qed

lemma owner_leaves:
  assumes "run_holds t0 s"
  shows "run_holds t0 (s\<lparr>wn_open := filter P (wn_open s)\<rparr>)"
  using assms by (auto simp: run_holds_def owners_hold_def named_filter)

lemma row_appended:
  assumes "log_holds w" "fw_claims w' = fw_claims w" "fw_log w' = fw_log w @ new" "fw_rows w' = fw_rows w @ rows"
    "\<forall>e k. length (effects_on e k new) \<le> 1" "\<forall>e k. e \<noteq> eid \<longrightarrow> effects_on e k new = []"
    "\<forall>r \<in> set rows. we_event r = eid" "rows = [] \<longrightarrow> new = []" "eid \<noteq> [] \<longrightarrow> claimed_at w eid \<noteq> None"
    "new \<noteq> [] \<longrightarrow> eid \<noteq> [] \<longrightarrow> \<not> has_row eid w"
  shows "log_holds w'"
proof -
  have claims: "claimed_at w' e = claimed_at w e" for e by (simp add: claimed_at_def assms(2))
  have rows: "has_row e w' \<longleftrightarrow> has_row e w \<or> rows \<noteq> [] \<and> e = eid" for e
    using assms(4,7) by (cases rows) (auto simp: has_row_def)
  have "length (effects_on e k (fw_log w')) \<le> 1 \<and> (\<not> has_row e w' \<longrightarrow> effects_on e k (fw_log w') = [])" if "e \<noteq> []" for e k
  proof (cases "e = eid \<and> new \<noteq> []")
    case True
    then have "effects_on e k (fw_log w) = []" using assms(1,10) that by (auto simp: log_holds_def)
    then show ?thesis using True assms(3,5,8) rows by simp
  next
    case False
    then have "effects_on e k new = []" using assms(6) by (cases "new = []") auto
    then show ?thesis using assms(1,3) that rows by (auto simp: log_holds_def)
  qed
  then show ?thesis using assms(1,9) by (auto simp: log_holds_def claims rows)
qed

lemma owner_completes:
  assumes "run_holds t0 s" "in_span cfg t0 t" "fo_appends out" "map_of (wn_open s) i = Some (tc, ev)"
  shows "run_holds t0 (run_step cfg parse (Complete i t out) s)"
proof -
  obtain res w' where p: "process_event cfg out t ev (wn_world s) = (res, w')" by (rule that) (rule prod.collapse [symmetric])
  from process_event_effects [OF p] obtain new where new: "fw_log w' = fw_log (wn_world s) @ new" "\<forall>e k. length (effects_on e k new) \<le> 1"
    "\<forall>e k. e \<noteq> ev_id ev \<longrightarrow> effects_on e k new = []" "res = None \<longrightarrow> new = []" "fw_claims w' = fw_claims (wn_world s)" by blast
  have since: "rows_since t0 (wn_world s)" using assms(1) by (simp add: run_holds_def)
  from process_event_rows [OF p since assms(2,3)] obtain rows where rows: "fw_rows w' = fw_rows (wn_world s) @ rows"
    "\<forall>r \<in> set rows. we_event r = ev_id ev \<and> we_received r = iso_at t" "rows = [] \<longrightarrow> new = []"
    using new(4) by (metis append.right_neutral empty_iff list.distinct(1) list.set(1) set_ConsD)
  have mine: "(i, tc, ev) \<in> set (wn_open s)" using assms(4) by (rule map_of_SomeD)
  then have own: "ev_id ev \<noteq> [] \<Longrightarrow> claimed_at (wn_world s) (ev_id ev) = Some tc \<and> \<not> has_row (ev_id ev) (wn_world s)"
    using assms(1) by (auto simp: run_holds_def owners_hold_def)
  have "log_holds w'"
    using assms(1) own rows(2,3) by (intro row_appended [where w = "wn_world s", OF _ new(5,1) rows(1) new(2,3)]) (auto simp: run_holds_def)
  moreover have "rows_since t0 w'"
    using since rows(1,2) assms(2) by (auto simp: rows_since_def iso_at_def in_span_def le_floor_iff)
  moreover have "owners_hold (s\<lparr>wn_world := w', wn_open := filter (\<lambda>x. fst x \<noteq> i) (wn_open s)\<rparr>)"
  proof -
    have dist: "distinct (map marker_of (named (wn_open s)))" using assms(1) by (simp add: run_holds_def owners_hold_def)
    have "claimed_at w' (ev_id ev') = Some tc' \<and> \<not> has_row (ev_id ev') w'" if o: "(j, tc', ev') \<in> set (wn_open s)" "j \<noteq> i" "ev_id ev' \<noteq> []" for j tc' ev'
    proof -
      have "ev_id ev' \<noteq> ev_id ev" using markers_differ [OF dist mine o(1)] o(2,3) by (cases "ev_id ev = []") auto
      moreover have "claimed_at (wn_world s) (ev_id ev') = Some tc' \<and> \<not> has_row (ev_id ev') (wn_world s)"
        using assms(1) o by (auto simp: run_holds_def owners_hold_def)
      ultimately show ?thesis using rows(1,2) new(5) by (auto simp: has_row_def claimed_at_def)
    qed
    then show ?thesis using dist by (auto simp: owners_hold_def named_filter)
  qed
  ultimately show ?thesis using assms(4) p by (simp add: run_holds_def)
qed

lemma thread_reports:
  assumes "run_holds t0 s" "in_span cfg t0 t"
  shows "run_holds t0 (run_step cfg parse (Fulfilled t eid email url appends ok) s)"
proof (cases "Fulfil eid email url \<in> set (fw_log (wn_world s))")
  case True
  let ?w' = "run_auto_fulfill_sync cfg appends t eid email url ok (wn_world s)"
  let ?row = "(plain_row \<lparr>ev_id = eid, ev_type = ''auto_fulfill'', ev_live = False, ev_data = []\<rparr> t (if ok then W_Processed else W_Failed))
      \<lparr>we_email := email, we_website := url, we_scheduled := True, we_fulfilled := ok\<rparr>"
  have since: "rows_since t0 (wn_world s)" using assms(1) by (simp add: run_holds_def)
  have w': "fw_log ?w' = fw_log (wn_world s)" "fw_claims ?w' = fw_claims (wn_world s)"
    "fw_rows ?w' = fw_rows (wn_world s) @ (if appends then [?row] else [])"
    using append_in_span [OF since assms(2), of ?row] by (simp_all add: run_auto_fulfill_sync_def plain_row_def)
  have row: "has_row eid (wn_world s) \<and> claimed_at (wn_world s) eid \<noteq> None" if "eid \<noteq> []"
  proof -
    have "effects_on eid A_Fulfil (fw_log (wn_world s)) \<noteq> []" using True by (force simp: effects_on_def filter_empty_conv)
    then show ?thesis using assms(1) that unfolding run_holds_def log_holds_def by blast
  qed
  have "log_holds ?w'"
    using assms(1) row by (intro row_appended [where w = "wn_world s" and new = "[]", OF _ w'(2) _ w'(3)]) (auto simp: run_holds_def w' plain_row_def)
  moreover have "rows_since t0 ?w'"
    using since assms(2) by (auto simp: w' rows_since_def iso_at_def in_span_def le_floor_iff plain_row_def)
  moreover have "has_row e ?w' \<longleftrightarrow> has_row e (wn_world s)" if "e \<noteq> []" for e using row that w'(3) by (auto simp: has_row_def plain_row_def)
  then have "owners_hold (s\<lparr>wn_world := ?w'\<rparr>)"
    using assms(1) by (auto simp: run_holds_def owners_hold_def claimed_at_def w')
  ultimately show ?thesis using True by (simp add: run_holds_def)
qed (use assms in simp)

lemma run_step_holds:
  assumes "run_holds t0 s" "0 < fc_ttl cfg" "step_timely cfg t0 st s"
  shows "run_holds t0 (run_step cfg parse st s)"
proof (cases st)
  case (Arrive i t payload sig_header)
  obtain d w' where d: "open_delivery cfg parse t payload sig_header (wn_world s) = (d, w')" by (rule that) (rule prod.collapse [symmetric])
  show ?thesis
  proof (cases d)
    case (Owned ev)
    from open_delivery_owned [OF d [unfolded Owned]] arrival_owns [OF assms(1,2)] assms(3) d Owned show ?thesis by (simp add: Arrive)
  qed (use open_delivery_other [OF d] assms(1) d in \<open>simp_all add: Arrive\<close>)
next
  case (Complete i t out)
  show ?thesis
  proof (cases "map_of (wn_open s) i")
    case (Some p)
    then show ?thesis using owner_completes [OF assms(1)] assms(3) Complete by (cases p) (simp del: run_step.simps)
  qed (use assms(1) in \<open>simp add: Complete\<close>)
next
  case (Die i)
  then show ?thesis using owner_leaves [OF assms(1)] by simp
next
  case (Fulfilled t eid email url appends ok)
  then show ?thesis using thread_reports [OF assms(1)] assms(3) by (simp del: run_step.simps)
qed

lemma run_keeps:
  "run_holds t0 s \<Longrightarrow> 0 < fc_ttl cfg \<Longrightarrow> timely cfg parse t0 steps s \<Longrightarrow> run_holds t0 (fold (run_step cfg parse) steps s)"
  by (induction steps arbitrary: s) (auto simp: run_step_holds simp del: run_step.simps step_timely.simps)

end
