(* ===== verification/Stripe_Facts.thy ===== *)
theory Stripe_Facts
  imports Stripe_Runs
begin

text \<open>
  What the Stripe webhook promises and what it does not: a delivery signed with the secret is verified, fulfillment only
  follows a settled payment, a dead owner is replaced after the reservation, and four ways in which money is
  lost, counted twice or closed without being there. Demonstrations on concrete deliveries close the theory.
\<close>

section \<open>Signed deliveries\<close>

definition stripe_signature :: "int \<Rightarrow> string \<Rightarrow> string \<Rightarrow> string" where
  "stripe_signature ts secret payload = ''t='' @ show_int ts @ '',v1='' @ hmac_sha256_hex secret (show_int ts @ ''.'' @ payload)"

lemma hex_plain:
  assumes "c \<in> set (hmac_sha256_hex k m)"
  shows "c \<noteq> CHR '',''" "\<not> py_isspace c"
proof -
  have "c \<in> set ''0123456789abcdef''" using assms hmac_hex_shape [of k m] by blast
  then show "c \<noteq> CHR '',''" "\<not> py_isspace c" by (auto simp: py_isspace_def)
qed

lemma show_int_no_comma: "CHR '','' \<notin> set (show_int i)"
proof -
  have "CHR '','' \<notin> set (show_nat n)" for n using show_nat_digits [of n] by (auto simp: py_isdigit_def char_code_def)
  then show ?thesis by (simp add: show_int_def)
qed

lemma split_on_two: "c \<notin> set a \<Longrightarrow> c \<notin> set b \<Longrightarrow> split_on c (a @ c # b) = [a, b]"
  by (induction a) (auto simp: split_on_none)

lemma parse_stripe_signature:
  "parse_sig_header (stripe_signature ts secret payload) = Inr (ts, [hmac_sha256_hex secret (show_int ts @ ''.'' @ payload)])"
proof -
  let ?h = "hmac_sha256_hex secret (show_int ts @ ''.'' @ payload)"
  have "split_on (CHR '','') (stripe_signature ts secret payload) = [''t='' @ show_int ts, ''v1='' @ ?h]"
    using split_on_two [of "CHR '',''" "''t='' @ show_int ts" "''v1='' @ ?h"] hex_plain(1) show_int_no_comma
    by (auto simp: stripe_signature_def)
  moreover have "py_strip (show_int ts) = show_int ts" "py_strip ?h = ?h" "py_strip ''t'' = ''t''" "py_strip ''v1'' = ''v1''"
    using hex_plain(2) show_int_no_space by (auto intro!: strip_no_space) (simp_all add: py_isspace_def)
  ultimately show ?thesis by (simp add: parse_sig_header_def py_int_show_int)
qed

lemma signed_delivery_is_verified:
  assumes "secret \<noteq> []"
  shows "verify_stripe_signature payload (stripe_signature ts secret payload) secret tolerance now
    = (if now - of_int ts > tolerance then Some Expired else if of_int ts - now > STRIPE_FUTURE_SKEW_SECONDS then Some In_Future else None)"
  using assms by (simp add: verify_stripe_signature_def parse_stripe_signature safe_compare_def) (simp add: stripe_signature_def)

section \<open>What the handler promises\<close>


lemma handle_cases:
  assumes "handle_stripe_webhook cfg parse out now t payload sig_header w = (res, w')"
  obtains (Not_Owned) "w' = w" "\<forall>ev w1. open_delivery cfg parse now payload sig_header w \<noteq> (Owned ev, w1)"
  | (Owner) ev r w1 where "open_delivery cfg parse now payload sig_header w = (Owned ev, w1)" "process_event cfg out t ev w1 = (r, w')" "res = Inr r"
proof -
  obtain d w1 where d: "open_delivery cfg parse now payload sig_header w = (d, w1)" by (rule that) (rule prod.collapse [symmetric])
  show ?thesis
  proof (cases d)
    case (Owned ev)
    with assms d Owner show ?thesis by (auto simp: handle_stripe_webhook_def split: prod.splits)
  qed (use assms d open_delivery_other [OF d] Not_Owned in \<open>auto simp: handle_stripe_webhook_def\<close>)
qed

lemma claim_keeps:
  "claim_event_id cfg eid now w = (won, w') \<Longrightarrow> fw_log w' = fw_log w \<and> fw_rows w' = fw_rows w \<and> fw_graph w' = fw_graph w"
  by (erule claim_event_cases) simp_all

text \<open>C8: Fulfillment follows a settled payment. A fulfillment is scheduled only by a delivery whose signature is verified and whose
  body is a completed checkout that is no subscription, paid, in dollars and at least the floor, for one of the offers that
  are fulfilled automatically, with a public site to work on, and whose customer, found or created for the session's
  email and left in the customer store, has an id that is not empty; where test events are rejected they do not pass
  in production.\<close>

theorem fulfilment_is_paid_for:
  assumes "handle_stripe_webhook cfg parse out now t payload sig_header w = (res, w')"
    and "Fulfil e email url \<in> set (fw_log w')" "Fulfil e email url \<notin> set (fw_log w)"
  obtains ev sf su customer_id advanced where
    "verify_stripe_signature payload sig_header (py_strip (fc_secret cfg)) DEFAULT_REPLAY_TOLERANCE_SECONDS now = None"
    "Option.bind (parse payload) event_of = Some ev" "ev_id ev = e" "ev_type ev = ''checkout.session.completed''"
    "ev_live ev \<or> \<not> fc_reject_test cfg \<or> \<not> fc_production cfg"
    "extract_session_fields (ev_data ev) = Got sf" "extract_subscription_fields (ev_data ev) = Got su"
    "su_mode su \<noteq> ''subscription''" "sf_status sf = ''paid''" "sf_currency sf = ''usd''" "fc_floor cfg \<le> amount_or_zero (sf_amount sf)"
    "sf_offer sf \<in> set (fc_offers cfg)" "sf_website sf = url" "fo_public out url" "sf_email sf = email"
    "settle_customer out t ev sf su (fw_graph w) = (Inr (customer_id, advanced), fw_graph w')" "customer_id \<noteq> []"
  using assms(1)
proof (cases rule: handle_cases)
  case Not_Owned
  with assms(2,3) show ?thesis by simp
next
  case (Owner ev r w1)
  from open_delivery_owned [OF Owner(1)] have o: "verify_stripe_signature payload sig_header (py_strip (fc_secret cfg)) DEFAULT_REPLAY_TOLERANCE_SECONDS now = None"
    "Option.bind (parse payload) event_of = Some ev" "claim_event_id cfg (ev_id ev) now w = (True, w1)" by auto
  have log: "fw_log w1 = fw_log w" "fw_graph w1 = fw_graph w" using claim_keeps [OF o(3)] by simp_all
  from Owner(2) show ?thesis
  proof (cases rule: process_event_cases)
    case (Checkout sf su c a g r')
    let ?due = "fulfilment_due cfg out c sf su"
    have "fw_log w' = fw_log w @ receipt_effects out ev sf su
      @ (if ?due then [Fulfil (ev_id ev) (sf_email sf) (sf_website sf)] else [])
      @ payment_effects ev sf su @ close_the_loop cfg ev c sf su
      @ (if c \<noteq> [] \<and> sf_status sf \<in> set FULFILL_PAYMENT_STATUSES
         then [Deal_Closed (ev_id ev) (amount_or_zero (mrr_of sf su)) (amount_or_zero (sf_amount sf))] else [])"
      using after_settlement_facts(1) [of cfg out t ev sf su c a "w1\<lparr>fw_graph := g\<rparr>"] Checkout(8) log by simp
    with assms(2,3) short_effects(1) [of out ev sf su] short_effects(2) [of ev sf su] short_effects(3) [of cfg ev c sf su]
    have "?due \<and> Fulfil e email url = Fulfil (ev_id ev) (sf_email sf) (sf_website sf)" by (auto split: if_splits)
    moreover have "fw_graph w' = g"
      using after_settlement_facts(3) [of cfg out t ev sf su c a "w1\<lparr>fw_graph := g\<rparr>"] Checkout(8) by simp
    ultimately show ?thesis
      using Checkout(3,7) log(2)
      by (intro that [OF o(1,2) _ Checkout(2) _ Checkout(4,5), where customer_id = c and advanced = a])
         (auto simp: fulfilment_due_def)
  qed (use assms(2,3) log in auto)
qed

text \<open>C28: A dead owner is replaced when its reservation is over, and not before. When an owner of an event dies before the event
  has a row, a verified delivery of the event gets it exactly when the reservation is as old as the limit; any
  earlier one is answered as a duplicate and changes nothing.\<close>

theorem dead_owner_is_replaced_after_ttl:
  assumes "claimed_at w (ev_id ev) = Some t1" "\<not> has_row (ev_id ev) w" "ev_id ev \<noteq> []"
    and "verify_stripe_signature payload sig_header (py_strip (fc_secret cfg)) DEFAULT_REPLAY_TOLERANCE_SECONDS t2 = None"
    and "Option.bind (parse payload) event_of = Some ev"
    and "handle_stripe_webhook cfg parse out t2 t payload sig_header w = (res, w')"
  shows "if fc_ttl cfg \<le> max 0 (t2 - t1)
    then \<exists>r w1. res = Inr r \<and> process_event cfg out t ev w1 = (r, w') \<and> claimed_at w1 (ev_id ev) = Some t2
    else res = Inr (Some (plain_result ev W_Duplicate)) \<and> w' = w"
proof -
  have seen: "ev_id ev \<notin> set (load_seen_event_ids cfg t2 w)" "\<not> terminal_record_present (ev_id ev) w"
    using assms(2) by (auto simp: load_seen_event_ids_def terminal_record_present_def has_row_def list_ex_iff)
  have h: "dict_has (lg_claims (fw_claims w)) (claim_marker (ev_id ev))" "map_of (lg_claims (fw_claims w)) (claim_marker (ev_id ev)) = Some t1"
    using assms(1) by (simp_all add: dict_has_def claimed_at_def)
  show ?thesis
  proof (cases "fc_ttl cfg \<le> max 0 (t2 - t1)")
    case True
    let ?w1 = "w\<lparr>fw_claims := (fw_claims w)\<lparr>lg_claims := AList.update (claim_marker (ev_id ev)) t2 (lg_claims (fw_claims w))\<rparr>\<rparr>"
    have "claim_event_id cfg (ev_id ev) t2 w = (True, ?w1)"
      using True h seen(2) assms(3) by (auto simp: claim_event_id_def ledger_claim_def claim_age_seconds_def reclaim_expired_def Let_def)
    then have "open_delivery cfg parse t2 payload sig_header w = (Owned ev, ?w1)"
      using assms(4,5) seen(1) by (simp add: open_delivery_def)
    moreover have "claimed_at ?w1 (ev_id ev) = Some t2" by (simp add: claimed_after_update)
    ultimately show ?thesis using True assms(6) by (auto simp: handle_stripe_webhook_def split: prod.splits)
  next
    case False
    then have "claim_event_id cfg (ev_id ev) t2 w = (False, w)"
      using h seen(2) assms(3) by (auto simp: claim_event_id_def ledger_claim_def claim_age_seconds_def Let_def)
    then have "open_delivery cfg parse t2 payload sig_header w = (Answered_At_Once (plain_result ev W_Duplicate), w)"
      using assms(4,5) seen(1) by (simp add: open_delivery_def)
    then show ?thesis using False assms(6) by (simp add: handle_stripe_webhook_def)
  qed
qed

section \<open>What the handler gets wrong\<close>

definition passes_mode :: "finance_config \<Rightarrow> stripe_event \<Rightarrow> bool" where
  "passes_mode cfg ev \<longleftrightarrow> \<not> (fc_reject_test cfg \<and> fc_production cfg \<and> \<not> ev_live ev)"

lemma checkout_runs:
  assumes "ev_type ev = ''checkout.session.completed''" "passes_mode cfg ev"
    "extract_session_fields (ev_data ev) = Got sf" "extract_subscription_fields (ev_data ev) = Got su" "sf_email sf \<noteq> []"
  shows "process_event cfg out t ev w = (case settle_customer out t ev sf su (fw_graph w) of
      (Inl e, g) \<Rightarrow> (Some ((checkout_result ev W_Failed sf su)\<lparr>pr_mrr := mrr_of sf su\<rparr>),
        append_event_record cfg (fo_appends out) t ((checkout_row ev t W_Failed sf su)\<lparr>we_mrr := mrr_of sf su\<rparr>) (w\<lparr>fw_graph := g\<rparr>))
    | (Inr ca, g) \<Rightarrow> (case after_settlement cfg out t ev sf su ca (w\<lparr>fw_graph := g\<rparr>) of (r, w) \<Rightarrow> (Some r, w)))"
proof -
  have "(fc_reject_test cfg \<and> fc_production cfg \<and> \<not> ev_live ev) = False" using assms(2) by (simp add: passes_mode_def)
  then show ?thesis
    using assms(1,3-5) unfolding process_event_def Let_def
    by (auto simp: complete_checkout_def INVOICE_REVENUE_EVENT_TYPES_def split: prod.split sum.split)
qed

text \<open>A checkout that is not settled closes the deal. For a known customer, a completed checkout with a payment status that does
  not settle (such as unpaid, for a bank debit) leaves the customer's state as it is and records no payment, but the
  opportunity of its email is closed as won with the amount of the session, and a receipt is sent.\<close>

theorem unsettled_checkout_closes_the_deal:
  assumes "ev_type ev = ''checkout.session.completed''" "passes_mode cfg ev"
    and "extract_session_fields (ev_data ev) = Got sf" "extract_subscription_fields (ev_data ev) = Got su" "sf_email sf \<noteq> []"
    and "sf_status sf \<notin> set FULFILL_PAYMENT_STATUSES" "get_by_email (fo_graph out) (sf_email sf) (fw_graph w) = Some c" "cu_id c \<noteq> []"
    and "fc_crm cfg" "\<not> py_startswith (su_ref su) ''op_''"
    and "process_event cfg out t ev w = (res, w')"
  shows "fw_graph w' = fw_graph w
    \<and> fw_log w' = fw_log w @ receipt_effects out ev sf su @ [Close_By_Email (ev_id ev) (sf_email sf) (amount_or_zero (sf_amount sf))]"
proof -
  have "settle_customer out t ev sf su (fw_graph w) = (Inr (cu_id c, cu_state c), fw_graph w)"
    using assms(6,7) by (simp add: settle_customer_def)
  with assms(11) checkout_runs [OF assms(1-5)]
  have "w' = snd (after_settlement cfg out t ev sf su (cu_id c, cu_state c) w)" by (auto split: prod.splits)
  moreover have "\<not> fulfilment_due cfg out (cu_id c) sf su" "payment_effects ev sf su = []"
    using assms(6) by (auto simp: fulfilment_due_def payment_effects_def FULFILL_PAYMENT_STATUSES_def)
  ultimately show ?thesis
    using assms(5,6,8-10) after_settlement_facts(1,3) [of cfg out t ev sf su "cu_id c" "cu_state c" w] by (simp add: close_the_loop_def)
qed

fun payment_of :: "finance_effect \<Rightarrow> rat" where
  "payment_of (Payment_Received e a p opp) = a"
| "payment_of _ = 0"

definition revenue :: "finance_world \<Rightarrow> rat" where
  "revenue w = sum_list (map payment_of (fw_log w))"

lemma invoice_revenue:
  assumes "ev_type ev \<in> set INVOICE_REVENUE_EVENT_TYPES" "passes_mode cfg ev" "extract_invoice_fields (ev_data ev) = Got iv"
  shows "revenue (snd (process_event cfg out t ev w)) = revenue w + amount_or_zero (iv_amount iv)"
    and "fw_graph (snd (process_event cfg out t ev w)) = fw_graph w"
proof -
  have "(fc_reject_test cfg \<and> fc_production cfg \<and> \<not> ev_live ev) = False" using assms(2) by (simp add: passes_mode_def)
  then show "revenue (snd (process_event cfg out t ev w)) = revenue w + amount_or_zero (iv_amount iv)"
    "fw_graph (snd (process_event cfg out t ev w)) = fw_graph w"
    using assms(1,3) unfolding process_event_def Let_def by (simp_all add: revenue_def)
qed

text \<open>An event whose id has no row, and whose claim is free or as old as the reservation, is processed by the delivery.\<close>

definition takes_event :: "finance_config \<Rightarrow> string \<Rightarrow> rat \<Rightarrow> finance_world \<Rightarrow> bool" where
  "takes_event cfg e now w \<longleftrightarrow> e \<noteq> [] \<and> \<not> has_row e w
     \<and> (case claimed_at w e of None \<Rightarrow> True | Some tc \<Rightarrow> fc_ttl cfg \<le> max 0 (now - tc))"

lemma taken_event_opens:
  assumes "verify_stripe_signature payload sig_header (py_strip (fc_secret cfg)) DEFAULT_REPLAY_TOLERANCE_SECONDS now = None"
    and "Option.bind (parse payload) event_of = Some ev" "takes_event cfg (ev_id ev) now w"
  shows "open_delivery cfg parse now payload sig_header w = (Owned ev,
    w\<lparr>fw_claims := (fw_claims w)\<lparr>lg_claims := AList.update (claim_marker (ev_id ev)) now (lg_claims (fw_claims w))\<rparr>\<rparr>)"
proof -
  have "ev_id ev \<notin> set (load_seen_event_ids cfg now w)" "\<not> terminal_record_present (ev_id ev) w"
    using assms(3) by (auto simp: takes_event_def load_seen_event_ids_def terminal_record_present_def has_row_def list_ex_iff)
  then show ?thesis
    using assms
    by (cases "claimed_at w (ev_id ev)")
       (auto simp: open_delivery_def takes_event_def claim_event_id_def ledger_claim_def claim_age_seconds_def
          reclaim_expired_def dict_has_def claimed_at_def Let_def)
qed

lemma append_rows_of:
  "has_row e (append_event_record cfg appends t row w) \<Longrightarrow> has_row e w \<or> we_event row = e"
  by (auto simp: append_event_record_def has_row_def Let_def split: if_splits)

lemma process_event_rows_of:
  assumes "process_event cfg out t ev w = (res, w')" "has_row e w'" "e \<noteq> ev_id ev"
  shows "has_row e w"
  using assms(1)
proof (cases rule: process_event_cases)
  case (Checkout sf su c a g r)
  obtain row w1 where row: "we_event row = ev_id ev" "fw_rows w1 = fw_rows w"
    "fw_rows w' = fw_rows (append_event_record cfg (fo_appends out) t row w1)"
    using after_settlement_facts(4) [where ev = ev and t = t and w = "w\<lparr>fw_graph := g\<rparr>" and cfg = cfg and out = out
      and sf = sf and su = su and customer_id = c and advanced = a] Checkout(8) by auto
  then have "has_row e (append_event_record cfg (fo_appends out) t row w1)" using assms(2) by (simp add: has_row_def)
  from append_rows_of [OF this] row assms(3) show ?thesis by (simp add: has_row_def)
next
  case (Row row g r)
  with append_rows_of [of e cfg "fo_appends out" t row "w\<lparr>fw_graph := g\<rparr>"] assms(2,3) show ?thesis by (simp add: has_row_def)
next
  case (Renewal row r a)
  with append_rows_of [of e cfg "fo_appends out" t row w] assms(2,3) show ?thesis by (simp add: has_row_def)
qed (use assms in simp)

lemma handled_event:
  assumes "verify_stripe_signature payload sig_header (py_strip (fc_secret cfg)) DEFAULT_REPLAY_TOLERANCE_SECONDS now = None"
    and "Option.bind (parse payload) event_of = Some ev" "takes_event cfg (ev_id ev) now w"
    and "handle_stripe_webhook cfg parse out now t payload sig_header w = (res, w')"
  obtains w1 where "w' = snd (process_event cfg out t ev w1)" "fw_graph w1 = fw_graph w" "revenue w1 = revenue w"
    "\<And>e. e \<noteq> ev_id ev \<Longrightarrow> has_row e w' \<Longrightarrow> has_row e w"
    "\<And>e. claimed_at w' e = (if claim_marker e = claim_marker (ev_id ev) then Some now else claimed_at w e)"
proof -
  let ?w1 = "w\<lparr>fw_claims := (fw_claims w)\<lparr>lg_claims := AList.update (claim_marker (ev_id ev)) now (lg_claims (fw_claims w))\<rparr>\<rparr>"
  obtain r v where p: "process_event cfg out t ev ?w1 = (r, v)" by (rule that) (rule prod.collapse [symmetric])
  with assms(4) taken_event_opens [where parse = parse and cfg = cfg and ev = ev and w = w, OF assms(1,2,3)] have w': "w' = v" by (simp add: handle_stripe_webhook_def)
  have "fw_claims v = fw_claims ?w1" using process_event_effects [OF p] by blast
  then have "claimed_at v e = claimed_at ?w1 e" for e by (simp add: claimed_at_def)
  then have claims: "claimed_at w' e = (if claim_marker e = claim_marker (ev_id ev) then Some now else claimed_at w e)" for e
    by (simp add: w' claimed_after_update)
  have rows: "has_row e w" if "e \<noteq> ev_id ev" "has_row e w'" for e
    using process_event_rows_of [OF p that(2) [unfolded w'] that(1)] by (simp add: has_row_def)
  show ?thesis by (rule that [of ?w1, OF _ _ _ rows claims]) (simp_all add: p w' revenue_def)
qed

text \<open>Two claims do not meet: their markers (SHA-256 of the ids) differ, or the second comes after the reservation.\<close>

definition claims_apart :: "finance_config \<Rightarrow> string \<Rightarrow> rat \<Rightarrow> string \<Rightarrow> rat \<Rightarrow> bool" where
  "claims_apart cfg e now e' now' \<longleftrightarrow> claim_marker e \<noteq> claim_marker e' \<or> fc_ttl cfg \<le> now' - now"

lemma still_taken:
  assumes "takes_event cfg e' now' w" "e' \<noteq> e" "claims_apart cfg e now e' now'" "has_row e' w' \<Longrightarrow> has_row e' w"
    and "claimed_at w' e' = (if claim_marker e' = claim_marker e then Some now else claimed_at w e')"
  shows "takes_event cfg e' now' w'"
  using assms by (auto simp: takes_event_def claims_apart_def split: option.splits)

lemma checkout_revenue:
  assumes "ev_type ev = ''checkout.session.completed''" "passes_mode cfg ev"
    and "extract_session_fields (ev_data ev) = Got sf" "extract_subscription_fields (ev_data ev) = Got su" "sf_email sf \<noteq> []"
    and "sf_status sf = ''paid''" "settle_customer out t ev sf su (fw_graph w) = (Inr ca, g)"
  shows "revenue (snd (process_event cfg out t ev w)) = revenue w + amount_or_zero (sf_amount sf)"
proof -
  obtain c adv where ca: "ca = (c, adv)" by (cases ca)
  have "snd (process_event cfg out t ev w) = snd (after_settlement cfg out t ev sf su (c, adv) (w\<lparr>fw_graph := g\<rparr>))"
    by (simp add: checkout_runs [OF assms(1-5)] assms(7) ca split: prod.split)
  then show ?thesis
    using after_settlement_facts(1) [of cfg out t ev sf su c adv "w\<lparr>fw_graph := g\<rparr>"] assms(6) short_effects(1) [of out ev sf su]
      short_effects(3) [of cfg ev c sf su]
    by (auto simp: revenue_def payment_effects_def FULFILL_PAYMENT_STATUSES_def)
qed

text \<open>C37: The first payment of a subscription counts three times. Deliver, signed and in this order, the paid checkout of a
  subscription and the two events that Stripe sends for its first invoice, invoice.paid and invoice.payment_succeeded
  with the same data: three events with three ids, each new to the event log and to the claims (their claim
  markers differ, or the deliveries lie the reservation's time apart), each in a mode that is accepted, and the checkout with
  an email and a customer that can be settled. All three are processed, and the revenue grows by the amount of the session
  and twice the amount of the invoice.\<close>

theorem first_payment_counts_three_times:
  assumes "verify_stripe_signature p sig (py_strip (fc_secret cfg)) DEFAULT_REPLAY_TOLERANCE_SECONDS now = None"
    and "verify_stripe_signature p1 sig1 (py_strip (fc_secret cfg)) DEFAULT_REPLAY_TOLERANCE_SECONDS now1 = None"
    and "verify_stripe_signature p2 sig2 (py_strip (fc_secret cfg)) DEFAULT_REPLAY_TOLERANCE_SECONDS now2 = None"
    and "Option.bind (parse p) event_of = Some ev" "Option.bind (parse p1) event_of = Some ev1" "Option.bind (parse p2) event_of = Some ev2"
    and "takes_event cfg (ev_id ev) now w" "takes_event cfg (ev_id ev1) now1 w" "takes_event cfg (ev_id ev2) now2 w"
    and "distinct [ev_id ev, ev_id ev1, ev_id ev2]" "claims_apart cfg (ev_id ev) now (ev_id ev1) now1"
      "claims_apart cfg (ev_id ev) now (ev_id ev2) now2" "claims_apart cfg (ev_id ev1) now1 (ev_id ev2) now2"
    and "ev_type ev = ''checkout.session.completed''" "passes_mode cfg ev"
    and "extract_session_fields (ev_data ev) = Got sf" "extract_subscription_fields (ev_data ev) = Got su" "su_mode su = ''subscription''"
    and "sf_email sf \<noteq> []" "sf_status sf = ''paid''" "sf_amount sf = Some a" "settle_customer out t ev sf su (fw_graph w) = (Inr ca, g)"
    and "ev_type ev1 = ''invoice.paid''" "passes_mode cfg ev1" "extract_invoice_fields (ev_data ev1) = Got iv" "iv_amount iv = Some b"
    and "ev_type ev2 = ''invoice.payment_succeeded''" "passes_mode cfg ev2" "ev_data ev2 = ev_data ev1"
    and "handle_stripe_webhook cfg parse out now t p sig w = (res, w1)"
    and "handle_stripe_webhook cfg parse out1 now1 t1 p1 sig1 w1 = (res1, w2)"
    and "handle_stripe_webhook cfg parse out2 now2 t2 p2 sig2 w2 = (res2, w3)"
  shows "revenue w3 = revenue w + a + 2 * b"
proof -
  have ids: "ev_id ev1 \<noteq> ev_id ev" "ev_id ev2 \<noteq> ev_id ev" "ev_id ev2 \<noteq> ev_id ev1" using assms(10) by auto
  have invoices: "ev_type ev1 \<in> set INVOICE_REVENUE_EVENT_TYPES" "ev_type ev2 \<in> set INVOICE_REVENUE_EVENT_TYPES"
    "extract_invoice_fields (ev_data ev2) = Got iv"
    using assms(23,25,27,29) by (simp_all add: INVOICE_REVENUE_EVENT_TYPES_def)
  from handled_event [where parse = parse and cfg = cfg and ev = ev and w = w, OF assms(1,4,7,30)] obtain v where v: "w1 = snd (process_event cfg out t ev v)" "fw_graph v = fw_graph w"
    "revenue v = revenue w" "\<And>e. e \<noteq> ev_id ev \<Longrightarrow> has_row e w1 \<Longrightarrow> has_row e w"
    "\<And>e. claimed_at w1 e = (if claim_marker e = claim_marker (ev_id ev) then Some now else claimed_at w e)" by blast
  have r1: "revenue w1 = revenue w + a"
    using checkout_revenue [OF assms(14-17,19,20), of out t v ca g] v(1-3) assms(21,22) by (simp add: amount_or_zero_def)
  have t1: "takes_event cfg (ev_id ev1) now1 w1" by (rule still_taken [OF assms(8) ids(1) assms(11) v(4) [OF ids(1)] v(5)])
  have t2: "takes_event cfg (ev_id ev2) now2 w1" by (rule still_taken [OF assms(9) ids(2) assms(12) v(4) [OF ids(2)] v(5)])
  from handled_event [where parse = parse and cfg = cfg and ev = ev1 and w = w1, OF assms(2,5) t1 assms(31)] obtain v' where v': "w2 = snd (process_event cfg out1 t1 ev1 v')"
    "revenue v' = revenue w1" "\<And>e. e \<noteq> ev_id ev1 \<Longrightarrow> has_row e w2 \<Longrightarrow> has_row e w1"
    "\<And>e. claimed_at w2 e = (if claim_marker e = claim_marker (ev_id ev1) then Some now1 else claimed_at w1 e)" by blast
  have r2: "revenue w2 = revenue w1 + b"
    using invoice_revenue(1) [OF invoices(1) assms(24,25), of out1 t1 v'] v'(1,2) assms(26) by (simp add: amount_or_zero_def)
  have t3: "takes_event cfg (ev_id ev2) now2 w2" by (rule still_taken [OF t2 ids(3) assms(13) v'(3) [OF ids(3)] v'(4)])
  from handled_event [where parse = parse and cfg = cfg and ev = ev2 and w = w2, OF assms(3,6) t3 assms(32)] obtain v'' where v'': "w3 = snd (process_event cfg out2 t2 ev2 v'')"
    "revenue v'' = revenue w2" by blast
  have "revenue w3 = revenue w2 + b"
    using invoice_revenue(1) [OF invoices(2) assms(28) invoices(3), of out2 t2 v''] v'' assms(26) by (simp add: amount_or_zero_def)
  then show ?thesis using r1 r2 by simp
qed

text \<open>An outage of the customer store drops the payment. When the store is not available for the checkout of an email, the
  event is answered as received with the status failed and its row is appended; from then on every verified
  delivery of it is answered as a duplicate and changes nothing, so that no payment is ever recorded for it.\<close>

theorem store_outage_drops_payment:
  assumes "verify_stripe_signature payload sig_header (py_strip (fc_secret cfg)) DEFAULT_REPLAY_TOLERANCE_SECONDS now = None"
    and "Option.bind (parse payload) event_of = Some ev" "ev_id ev \<noteq> []" "claimed_at w (ev_id ev) = None" "\<not> has_row (ev_id ev) w"
    and "ev_type ev = ''checkout.session.completed''" "passes_mode cfg ev"
    and "extract_session_fields (ev_data ev) = Got sf" "extract_subscription_fields (ev_data ev) = Got su" "sf_email sf \<noteq> []"
    and "\<not> gr_available (fo_graph out)" "fo_appends out" "1 \<le> fc_retention_hours cfg"
    and "handle_stripe_webhook cfg parse out now t payload sig_header w = (res, w1)"
    and "verify_stripe_signature payload2 sig_header2 (py_strip (fc_secret cfg)) DEFAULT_REPLAY_TOLERANCE_SECONDS now2 = None"
    and "Option.bind (parse payload2) event_of = Some ev"
  shows "(\<exists>r. res = Inr (Some r) \<and> pr_status r = W_Failed) \<and> fw_log w1 = fw_log w
    \<and> handle_stripe_webhook cfg parse out2 now2 t2 payload2 sig_header2 w1 = (Inr (Some (plain_result ev W_Duplicate)), w1)"
proof -
  let ?w0 = "w\<lparr>fw_claims := (fw_claims w)\<lparr>lg_claims := AList.update (claim_marker (ev_id ev)) now (lg_claims (fw_claims w))\<rparr>\<rparr>"
  have seen: "ev_id ev \<notin> set (load_seen_event_ids cfg now w)"
    using assms(5) by (auto simp: load_seen_event_ids_def has_row_def)
  have "claim_event_id cfg (ev_id ev) now w = (True, ?w0)"
    using assms(3,4) by (simp add: claim_event_id_def ledger_claim_def dict_has_def claimed_at_def)
  then have "open_delivery cfg parse now payload sig_header w = (Owned ev, ?w0)"
    using assms(1,2) seen by (simp add: open_delivery_def)
  moreover have "settle_customer out t ev sf su g = (Inl (if CHR ''@'' \<in> set (sf_email sf) then Unavailable else Bad_Email), g)" for g
    using assms(10,11) by (auto simp: settle_customer_def get_by_email_def create_customer_def)
  ultimately have handled: "(res, w1) = (Inr (Some ((checkout_result ev W_Failed sf su)\<lparr>pr_mrr := mrr_of sf su\<rparr>)),
      append_event_record cfg True t ((checkout_row ev t W_Failed sf su)\<lparr>we_mrr := mrr_of sf su\<rparr>) ?w0)"
    using assms(12,14) checkout_runs [OF assms(6-10)] by (simp add: handle_stripe_webhook_def)
  then have w1: "\<exists>r. res = Inr (Some r) \<and> pr_status r = W_Failed" by (auto simp: checkout_result_def plain_result_def)
  obtain row where row: "we_event row = ev_id ev" "w1 = append_event_record cfg True t row ?w0" "we_received row = iso_at t"
    using handled by (intro that [of "(checkout_row ev t W_Failed sf su)\<lparr>we_mrr := mrr_of sf su\<rparr>"]) (simp_all add: checkout_row_def plain_row_def)
  have "t - fc_retention_hours cfg * 3600 \<le> of_int \<lfloor>t\<rfloor>" using assms(13) floor_correct [of t] by linarith
  then have "\<not> received_before (t - fc_retention_hours cfg * 3600) row" by (simp add: received_before_def row(3) iso_at_def)
  then have rows: "row \<in> set (fw_rows w1)" "fw_log w1 = fw_log w" "claimed_at w1 (ev_id ev) = Some now"
    by (simp_all add: row(2) append_event_record_def claimed_at_def update_conv' Let_def)
  have "claim_event_id cfg (ev_id ev) now2 w1 = (False, w1)"
    using rows row(1) assms(3)
    by (auto simp: claim_event_id_def ledger_claim_def dict_has_def claimed_at_def terminal_record_present_def list_ex_iff Let_def)
  then have "open_delivery cfg parse now2 payload2 sig_header2 w1 = (Answered_At_Once (plain_result ev W_Duplicate), w1)"
    using assms(15,16) by (simp add: open_delivery_def)
  then show ?thesis using w1 rows(2) by (simp add: handle_stripe_webhook_def)
qed

section \<open>Instances\<close>

definition demo_cfg :: finance_config where
  "demo_cfg = \<lparr>fc_secret = ''whsec'', fc_reject_test = True, fc_production = True, fc_offers = [''seo_audit''], fc_floor = 1, fc_ttl = 900,
     fc_seen_hours = 72, fc_retention_hours = 720, fc_rotate_every = 100, fc_crm = True\<rparr>"

definition demo_session :: "string \<Rightarrow> string \<Rightarrow> json" where
  "demo_session mode status = JObj [(''object'', JObj [(''object'', JStr ''checkout.session''), (''mode'', JStr mode), (''customer_email'', JStr ''ann.lee@x.com''),
     (''amount_total'', JInt 14900), (''currency'', JStr ''USD''), (''payment_status'', JStr status),
     (''metadata'', JObj [(''hf_offer_code'', JStr ''seo_audit'')]),
     (''custom_fields'', JList [JObj [(''key'', JStr ''website_url''), (''type'', JStr ''text''), (''text'', JObj [(''value'', JStr ''https://x.com'')])]])])]"

definition demo_invoice :: json where
  "demo_invoice = JObj [(''object'', JObj [(''object'', JStr ''invoice''), (''customer_email'', JStr ''ann.lee@x.com''), (''amount_paid'', JInt 14900)])]"

definition demo_event :: "string \<Rightarrow> string \<Rightarrow> json \<Rightarrow> json" where
  "demo_event i ty d = JObj [(''id'', JStr i), (''type'', JStr ty), (''livemode'', JBool True), (''data'', d)]"

definition demo_parse :: "string \<Rightarrow> json option" where
  "demo_parse p = (if p = ''paid'' then Some (demo_event ''evt1'' ''checkout.session.completed'' (demo_session ''payment'' ''paid''))
     else if p = ''unpaid'' then Some (demo_event ''evt2'' ''checkout.session.completed'' (demo_session ''payment'' ''unpaid''))
     else if p = ''sub'' then Some (demo_event ''evt3'' ''checkout.session.completed'' (demo_session ''subscription'' ''paid''))
     else if p = ''inv1'' then Some (demo_event ''evt4'' ''invoice.paid'' demo_invoice)
     else if p = ''inv2'' then Some (demo_event ''evt5'' ''invoice.payment_succeeded'' demo_invoice)
     else None)"

definition demo_out :: finance_outside where
  "demo_out = \<lparr>fo_appends = True, fo_side = True, fo_graph = graph_working, fo_uuid = (''u8'', ''u9''), fo_receipt = Inr ''m1'',
     fo_public = (\<lambda>url. True), fo_ids = demo_ids\<rparr>"

definition demo_finance :: finance_world where
  "demo_finance = \<lparr>fw_rows = [], fw_archive = [], fw_appends = 0, fw_claims = ledger_empty, fw_graph = demo_customers, fw_conversions = [],
     fw_upsell = no_touches, fw_log = []\<rparr>"

definition evt :: "string \<Rightarrow> stripe_event" where
  "evt p = the (Option.bind (demo_parse p) event_of)"

lemma evt_facts:
  "ev_id (evt ''paid'') = ''evt1''" "ev_id (evt ''unpaid'') = ''evt2''" "ev_id (evt ''sub'') = ''evt3''" "ev_id (evt ''inv1'') = ''evt4''"
  "ev_id (evt ''inv2'') = ''evt5''" "ev_type (evt ''paid'') = ''checkout.session.completed''" "ev_type (evt ''unpaid'') = ''checkout.session.completed''"
  "ev_type (evt ''sub'') = ''checkout.session.completed''" "ev_type (evt ''inv1'') = ''invoice.paid''" "ev_type (evt ''inv2'') = ''invoice.payment_succeeded''"
  "ev_live (evt ''paid'')" "ev_live (evt ''unpaid'')" "ev_live (evt ''sub'')" "ev_live (evt ''inv1'')" "ev_live (evt ''inv2'')"
  "ev_data (evt ''inv2'') = ev_data (evt ''inv1'')"
  by (simp_all add: evt_def demo_parse_def event_of_def demo_event_def demo_session_def demo_invoice_def dict_get_def)

lemma evt_parsed: "p \<in> {''paid'', ''unpaid'', ''sub'', ''inv1'', ''inv2''} \<Longrightarrow> Option.bind (demo_parse p) event_of = Some (evt p)"
  by (auto simp: evt_def demo_parse_def event_of_def demo_event_def demo_session_def demo_invoice_def dict_get_def)

definition demo_fields :: "string \<Rightarrow> session_fields" where
  "demo_fields status = \<lparr>sf_email = ''ann.lee@x.com'', sf_amount = Some 149, sf_currency = ''usd'', sf_offer = ''seo_audit'', sf_status = status,
     sf_website = ''https://x.com''\<rparr>"

definition demo_sub :: "string \<Rightarrow> subscription_fields" where
  "demo_sub mode = \<lparr>su_mode = mode, su_id = [], su_price = [], su_ref = []\<rparr>"

lemma demo_lower: "py_lower ''USD'' = ''usd''" "py_strip ''https://x.com'' = ''https://x.com''" "py_strip ''whsec'' = ''whsec''"
  "py_strip ''ann.lee@x.com'' = ''ann.lee@x.com''" "norm_email ''ann.lee@x.com'' = ''ann.lee@x.com''" "py_lower ''usd'' = ''usd''"
  by code_simp+

lemmas reading_defs = stripe_object_def bind_reading_def text_field_def dict_or_empty_def get_or_def cents_def dict_get_def

lemma evt_fields:
  "extract_session_fields (ev_data (evt ''paid'')) = Got (demo_fields ''paid'')" "extract_subscription_fields (ev_data (evt ''paid'')) = Got (demo_sub ''payment'')"
  "extract_session_fields (ev_data (evt ''unpaid'')) = Got (demo_fields ''unpaid'')" "extract_subscription_fields (ev_data (evt ''unpaid'')) = Got (demo_sub ''payment'')"
  "extract_session_fields (ev_data (evt ''sub'')) = Got (demo_fields ''paid'')" "extract_subscription_fields (ev_data (evt ''sub'')) = Got (demo_sub ''subscription'')"
  "extract_invoice_fields (ev_data (evt ''inv1'')) = Got \<lparr>iv_email = ''ann.lee@x.com'', iv_amount = Some 149, iv_currency = ''usd'', iv_subscription = [], iv_reason = []\<rparr>"
  by (simp_all add: evt_def demo_parse_def event_of_def demo_event_def demo_session_def demo_invoice_def extract_session_fields_def
      extract_subscription_fields_def extract_invoice_fields_def demo_fields_def demo_sub_def reading_defs demo_lower)

abbreviation demo_sig :: "int \<Rightarrow> string \<Rightarrow> string" where
  "demo_sig ts p \<equiv> stripe_signature ts ''whsec'' p"

lemma demo_verified: "verify_stripe_signature p (demo_sig ts p) (py_strip (fc_secret demo_cfg)) DEFAULT_REPLAY_TOLERANCE_SECONDS (of_int ts) = None"
  by (simp add: demo_cfg_def demo_lower signed_delivery_is_verified DEFAULT_REPLAY_TOLERANCE_SECONDS_def STRIPE_FUTURE_SKEW_SECONDS_def)

lemma demo_passes: "passes_mode demo_cfg (evt ''paid'')" "passes_mode demo_cfg (evt ''unpaid'')" "passes_mode demo_cfg (evt ''sub'')"
  "passes_mode demo_cfg (evt ''inv1'')" "passes_mode demo_cfg (evt ''inv2'')"
  by (simp_all add: passes_mode_def evt_facts)

definition demo_known :: customer where
  "demo_known = \<lparr>cu_id = ''ann_lee_at_x_com'', cu_email = ''ann.lee@x.com'', cu_name = [], cu_company = [],
     cu_source = ''manual'', cu_created = 1, cu_state = ''delivered'', cu_since = 3\<rparr>"

lemma demo_found: "get_by_email (fo_graph demo_out) ''ann.lee@x.com'' (fw_graph demo_finance) = Some demo_known"
  by (simp add: get_by_email_def demo_out_def demo_finance_def demo_customers_def demo_known_def demo_lower)

lemma demo_settled:
  "settle_customer demo_out t (evt ''paid'') (demo_fields ''paid'') (demo_sub ''payment'') (fw_graph demo_finance) = (Inr (''ann_lee_at_x_com'', ''delivered''), fw_graph demo_finance)"
  "\<exists>g. settle_customer demo_out t (evt ''sub'') (demo_fields ''paid'') (demo_sub ''subscription'') (fw_graph demo_finance) = (Inr (''ann_lee_at_x_com'', ''renewed''), g)"
  using demo_found
  by (simp_all add: settle_customer_def demo_fields_def demo_sub_def demo_known_def FULFILL_PAYMENT_STATUSES_def advance_state_def VALID_STATES_def
      demo_out_def get_customer_def demo_finance_def demo_customers_def write_event_def)

lemma demo_fulfilment_due: "fulfilment_due demo_cfg demo_out ''ann_lee_at_x_com'' (demo_fields ''paid'') (demo_sub ''payment'')"
  by (simp add: fulfilment_due_def demo_cfg_def demo_out_def demo_fields_def demo_sub_def amount_or_zero_def)

lemma demo_opens:
  assumes "p \<in> {''paid'', ''unpaid'', ''sub'', ''inv1'', ''inv2''}" "\<not> has_row (ev_id (evt p)) w" "claimed_at w (ev_id (evt p)) = None"
  shows "open_delivery demo_cfg demo_parse (of_int ts) p (demo_sig ts p) w = (Owned (evt p),
    w\<lparr>fw_claims := (fw_claims w)\<lparr>lg_claims := AList.update (claim_marker (ev_id (evt p))) (of_int ts) (lg_claims (fw_claims w))\<rparr>\<rparr>)"
proof -
  have "ev_id (evt p) \<notin> set (load_seen_event_ids demo_cfg (of_int ts) w)" using assms(2) by (auto simp: load_seen_event_ids_def has_row_def)
  moreover have "ev_id (evt p) \<noteq> []" using assms(1) by (auto simp: evt_facts)
  ultimately show ?thesis
    using assms(3) demo_verified [of p ts] evt_parsed [OF assms(1)]
    by (simp add: open_delivery_def claim_event_id_def ledger_claim_def dict_has_def claimed_at_def)
qed

lemma demo_fresh: "\<not> has_row e demo_finance" "claimed_at demo_finance e = None" "fw_log demo_finance = []"
  by (simp_all add: has_row_def demo_finance_def claimed_at_def ledger_empty_def)

theorem fulfilment_is_paid_for_witness:
  "\<exists>w' sf. w' = snd (handle_stripe_webhook demo_cfg demo_parse demo_out 1000 1001 ''paid'' (demo_sig 1000 ''paid'') demo_finance)
    \<and> Fulfil ''evt1'' ''ann.lee@x.com'' ''https://x.com'' \<in> set (fw_log w')
    \<and> extract_session_fields (ev_data (evt ''paid'')) = Got sf \<and> sf_status sf = ''paid'' \<and> fc_floor demo_cfg \<le> amount_or_zero (sf_amount sf)"
proof -
  obtain res w' where h: "handle_stripe_webhook demo_cfg demo_parse demo_out 1000 1001 ''paid'' (demo_sig 1000 ''paid'') demo_finance = (res, w')"
    by (rule that) (rule prod.collapse [symmetric])
  let ?w1 = "demo_finance\<lparr>fw_claims := (fw_claims demo_finance)\<lparr>lg_claims := AList.update (claim_marker (ev_id (evt ''paid''))) (of_int 1000) (lg_claims (fw_claims demo_finance))\<rparr>\<rparr>"
  let ?w2 = "?w1\<lparr>fw_graph := fw_graph demo_finance\<rparr>"
  have o: "open_delivery demo_cfg demo_parse 1000 ''paid'' (demo_sig 1000 ''paid'') demo_finance = (Owned (evt ''paid''), ?w1)"
    using demo_opens [of "''paid''" demo_finance 1000] by (simp add: demo_fresh)
  have "w' = snd (after_settlement demo_cfg demo_out 1001 (evt ''paid'') (demo_fields ''paid'') (demo_sub ''payment'') (''ann_lee_at_x_com'', ''delivered'') ?w2)"
    using h checkout_runs [OF evt_facts(6) demo_passes(1) evt_fields(1,2), of demo_out 1001 ?w1] demo_settled(1)
    by (simp add: handle_stripe_webhook_def o demo_fields_def split: prod.splits)
  then have f: "Fulfil ''evt1'' ''ann.lee@x.com'' ''https://x.com'' \<in> set (fw_log w')"
    using after_settlement_facts(1) [of demo_cfg demo_out 1001 "evt ''paid''" "demo_fields ''paid''" "demo_sub ''payment''" "''ann_lee_at_x_com''" "''delivered''" ?w2] demo_fulfilment_due
    by (simp add: evt_facts demo_fields_def)
  have "\<exists>sf. extract_session_fields (ev_data (evt ''paid'')) = Got sf \<and> sf_status sf = ''paid'' \<and> fc_floor demo_cfg \<le> amount_or_zero (sf_amount sf)"
    using evt_parsed [of "''paid''"] by (auto intro: fulfilment_is_paid_for [OF h f, unfolded demo_fresh(3)])
  with h f show ?thesis by auto
qed

definition left_behind :: finance_world where
  "left_behind = demo_finance\<lparr>fw_claims := ledger_empty\<lparr>lg_claims := [(claim_marker ''evt1'', 1000)]\<rparr>\<rparr>"

lemma left_behind_facts: "claimed_at left_behind (ev_id (evt ''paid'')) = Some 1000" "\<not> has_row (ev_id (evt ''paid'')) left_behind"
  by (simp_all add: left_behind_def claimed_at_def evt_facts has_row_def demo_finance_def)

theorem dead_owner_is_replaced_after_ttl_witness:
  "handle_stripe_webhook demo_cfg demo_parse demo_out 1500 1500 ''paid'' (demo_sig 1500 ''paid'') left_behind
     = (Inr (Some (plain_result (evt ''paid'') W_Duplicate)), left_behind)
   \<and> (\<exists>w1. snd (handle_stripe_webhook demo_cfg demo_parse demo_out 1900 1900 ''paid'' (demo_sig 1900 ''paid'') left_behind)
       = snd (process_event demo_cfg demo_out 1900 (evt ''paid'') w1))"
proof -
  have v: "ev_id (evt ''paid'') \<noteq> []" "Option.bind (demo_parse ''paid'') event_of = Some (evt ''paid'')" "fc_ttl demo_cfg = 900"
    using evt_parsed [of "''paid''"] by (simp_all add: evt_facts demo_cfg_def)
  obtain r1 w1 where h1: "handle_stripe_webhook demo_cfg demo_parse demo_out 1500 1500 ''paid'' (demo_sig 1500 ''paid'') left_behind = (r1, w1)"
    by (rule that) (rule prod.collapse [symmetric])
  obtain r2 w2 where h2: "handle_stripe_webhook demo_cfg demo_parse demo_out 1900 1900 ''paid'' (demo_sig 1900 ''paid'') left_behind = (r2, w2)"
    by (rule that) (rule prod.collapse [symmetric])
  from dead_owner_is_replaced_after_ttl [OF left_behind_facts v(1) _ v(2) h1] dead_owner_is_replaced_after_ttl [OF left_behind_facts v(1) _ v(2) h2]
  have "r1 = Inr (Some (plain_result (evt ''paid'') W_Duplicate)) \<and> w1 = left_behind" "\<exists>r w. process_event demo_cfg demo_out 1900 (evt ''paid'') w = (r, w2)"
    using demo_verified [of "''paid''" 1500] demo_verified [of "''paid''" 1900] v(3) by auto
  then show ?thesis using h1 h2 by (metis snd_conv)
qed

theorem unsettled_checkout_closes_the_deal_witness:
  "Close_By_Email ''evt2'' ''ann.lee@x.com'' 149 \<in> set (fw_log (snd (process_event demo_cfg demo_out 1000 (evt ''unpaid'') demo_finance)))
    \<and> fw_graph (snd (process_event demo_cfg demo_out 1000 (evt ''unpaid'') demo_finance)) = fw_graph demo_finance"
proof -
  obtain res w' where h: "process_event demo_cfg demo_out 1000 (evt ''unpaid'') demo_finance = (res, w')"
    by (rule that) (rule prod.collapse [symmetric])
  from unsettled_checkout_closes_the_deal [OF evt_facts(7) demo_passes(2) evt_fields(3,4) _ _ _ _ _ _ h, of demo_known]
  have "fw_graph w' = fw_graph demo_finance \<and> Close_By_Email ''evt2'' ''ann.lee@x.com'' 149 \<in> set (fw_log w')"
    using demo_found by (simp add: demo_fields_def demo_sub_def demo_known_def FULFILL_PAYMENT_STATUSES_def demo_cfg_def evt_facts amount_or_zero_def py_startswith_def)
  with h show ?thesis by simp
qed

theorem first_payment_counts_three_times_witness:
  "\<exists>w1 w2 w3. w1 = snd (handle_stripe_webhook demo_cfg demo_parse demo_out 1000 1000 ''sub'' (demo_sig 1000 ''sub'') demo_finance)
    \<and> w2 = snd (handle_stripe_webhook demo_cfg demo_parse demo_out 2000 2000 ''inv1'' (demo_sig 2000 ''inv1'') w1)
    \<and> w3 = snd (handle_stripe_webhook demo_cfg demo_parse demo_out 3000 3000 ''inv2'' (demo_sig 3000 ''inv2'') w2)
    \<and> revenue w3 = 447"
proof -
  obtain r1 w1 where h1: "handle_stripe_webhook demo_cfg demo_parse demo_out 1000 1000 ''sub'' (demo_sig 1000 ''sub'') demo_finance = (r1, w1)"
    by (rule that) (rule prod.collapse [symmetric])
  obtain r2 w2 where h2: "handle_stripe_webhook demo_cfg demo_parse demo_out 2000 2000 ''inv1'' (demo_sig 2000 ''inv1'') w1 = (r2, w2)"
    by (rule that) (rule prod.collapse [symmetric])
  obtain r3 w3 where h3: "handle_stripe_webhook demo_cfg demo_parse demo_out 3000 3000 ''inv2'' (demo_sig 3000 ''inv2'') w2 = (r3, w3)"
    by (rule that) (rule prod.collapse [symmetric])
  have v: "verify_stripe_signature p (demo_sig 1000 p) (py_strip (fc_secret demo_cfg)) DEFAULT_REPLAY_TOLERANCE_SECONDS 1000 = None"
    "verify_stripe_signature p (demo_sig 2000 p) (py_strip (fc_secret demo_cfg)) DEFAULT_REPLAY_TOLERANCE_SECONDS 2000 = None"
    "verify_stripe_signature p (demo_sig 3000 p) (py_strip (fc_secret demo_cfg)) DEFAULT_REPLAY_TOLERANCE_SECONDS 3000 = None" for p
    using demo_verified [of p 1000] demo_verified [of p 2000] demo_verified [of p 3000] by simp_all
  have parsed: "Option.bind (demo_parse ''sub'') event_of = Some (evt ''sub'')" "Option.bind (demo_parse ''inv1'') event_of = Some (evt ''inv1'')"
    "Option.bind (demo_parse ''inv2'') event_of = Some (evt ''inv2'')" by (simp_all add: evt_parsed)
  have takes: "takes_event demo_cfg (ev_id (evt p)) now demo_finance" if "p \<in> {''sub'', ''inv1'', ''inv2''}" for p now
    using that by (auto simp: takes_event_def demo_fresh evt_facts)
  have apart: "claims_apart demo_cfg e 1000 e' 2000" "claims_apart demo_cfg e 1000 e' 3000" "claims_apart demo_cfg e 2000 e' 3000" for e e'
    by (simp_all add: claims_apart_def demo_cfg_def)
  from demo_settled(2) obtain g where g: "settle_customer demo_out 1000 (evt ''sub'') (demo_fields ''paid'') (demo_sub ''subscription'') (fw_graph demo_finance)
      = (Inr (''ann_lee_at_x_com'', ''renewed''), g)" by blast
  have "revenue w3 = revenue demo_finance + 149 + 2 * 149"
    by (rule first_payment_counts_three_times [OF v(1) v(2) v(3) parsed takes takes takes _ apart(1) apart(2) apart(3) evt_facts(8) demo_passes(3)
        evt_fields(5,6) _ _ _ _ g evt_facts(9) demo_passes(4) evt_fields(7) _ evt_facts(10) demo_passes(5) evt_facts(16) h1 h2 h3])
       (simp_all add: evt_facts demo_fields_def demo_sub_def)
  then have "revenue w3 = 447" by (simp add: revenue_def demo_fresh)
  with h1 h2 h3 show ?thesis by auto
qed

definition down :: finance_outside where "down = demo_out\<lparr>fo_graph := graph_working\<lparr>gr_available := False\<rparr>\<rparr>"

theorem store_outage_drops_payment_witness:
  "\<exists>w1. w1 = snd (handle_stripe_webhook demo_cfg demo_parse down 1000 1000 ''paid'' (demo_sig 1000 ''paid'') demo_finance)
    \<and> handle_stripe_webhook demo_cfg demo_parse demo_out 4000 4000 ''paid'' (demo_sig 4000 ''paid'') w1
        = (Inr (Some (plain_result (evt ''paid'') W_Duplicate)), w1)"
proof -
  have v: "ev_id (evt ''paid'') \<noteq> []" "Option.bind (demo_parse ''paid'') event_of = Some (evt ''paid'')" "fc_retention_hours demo_cfg = 720"
    "\<not> gr_available (fo_graph down)" "fo_appends down" "sf_email (demo_fields ''paid'') \<noteq> []"
    using evt_parsed [of "''paid''"] by (simp_all add: evt_facts demo_cfg_def down_def demo_out_def demo_fields_def)
  obtain r1 w1 where h: "handle_stripe_webhook demo_cfg demo_parse down 1000 1000 ''paid'' (demo_sig 1000 ''paid'') demo_finance = (r1, w1)"
    by (rule that) (rule prod.collapse [symmetric])
  from store_outage_drops_payment [OF _ v(2,1) demo_fresh(2,1) evt_facts(6) demo_passes(1) evt_fields(1,2) v(6,4,5) _ h _ v(2),
      where ?now2.0 = 4000 and ?t2.0 = 4000 and ?out2.0 = demo_out and ?sig_header2.0 = "demo_sig 4000 ''paid''"]
  show ?thesis using demo_verified [of "''paid''" 1000] demo_verified [of "''paid''" 4000] v(3) h by simp
qed

lemma demo_busy:
  assumes "\<not> has_row (ev_id (evt p)) w" "claimed_at w (ev_id (evt p)) = Some t1" "of_int ts - t1 < 900" "p \<in> {''paid'', ''unpaid'', ''sub'', ''inv1'', ''inv2''}"
  shows "open_delivery demo_cfg demo_parse (of_int ts) p (demo_sig ts p) w = (Answered_At_Once (plain_result (evt p) W_Duplicate), w)"
proof -
  have "ev_id (evt p) \<notin> set (load_seen_event_ids demo_cfg (of_int ts) w)" "\<not> terminal_record_present (ev_id (evt p)) w"
    using assms(1) by (auto simp: load_seen_event_ids_def has_row_def terminal_record_present_def list_ex_iff)
  moreover have "fc_ttl demo_cfg = 900" "ev_id (evt p) \<noteq> []" using assms(4) by (auto simp: demo_cfg_def evt_facts)
  ultimately show ?thesis
    using assms(2,3) demo_verified [of p ts] evt_parsed [OF assms(4)]
    by (simp add: open_delivery_def claim_event_id_def ledger_claim_def dict_has_def claimed_at_def claim_age_seconds_def Let_def)
qed

definition demo_run :: webhook_run where "demo_run = \<lparr>wn_world = demo_finance, wn_open = []\<rparr>"

definition demo_steps :: "webhook_step list" where
  "demo_steps = [Arrive 1 1000 ''paid'' (demo_sig 1000 ''paid''), Arrive 2 1001 ''paid'' (demo_sig 1001 ''paid''), Complete 1 1002 demo_out,
     Arrive 3 1003 ''paid'' (demo_sig 1003 ''paid''), Complete 3 1004 demo_out]"


end
