(* ===== verification/Crm_Facts.thy ===== *)
theory Crm_Facts
  imports Crm_Deals Stripe_Facts
begin

text \<open>
  What holds of deals under any sequence of jobs and requests, and of the way from a payment to the deal it closes: the
  effects of the Stripe webhook become jobs of the CRM's worker (\<open>finance/webhook.py\<close>, \<open>crm/worker.py\<close>).
\<close>

section \<open>Scans\<close>

lemma scan_pages_spec:
  "take want (fst (scan_pages page want P n left collected)) = take want (collected @ filter P (take (n * page) left))"
proof (induction n arbitrary: left collected)
  case (Suc n)
  have all: "collected @ filter P (take (Suc n * page) left) = (collected @ filter P (take page left)) @ filter P (take (n * page) (drop page left))"
    by (simp add: take_add)
  show ?case
  proof (cases "want \<le> length (collected @ filter P (take page left)) \<or> drop page left = []")
    case True
    then show ?thesis unfolding all by (auto simp: Let_def)
  next
    case False
    then have "scan_pages page want P (Suc n) left collected = scan_pages page want P n (drop page left) (collected @ filter P (take page left))"
      by (simp add: Let_def)
    then show ?thesis unfolding all using Suc by metis
  qed
qed simp

lemma scan_first_matches:
  assumes "cr_scan h"
  shows "fst (crm_safe_scan h limit P rows) = take (nat (max 1 (min 500 limit))) (filter P (map snd (take (20 * cr_page h) rows)))"
  using assms scan_pages_spec [of "nat (max 1 (min 500 limit))" "cr_page h" P SCAN_PAGE_CAP "map snd rows" "[]"]
  by (cases "scan_pages (cr_page h) (nat (max 1 (min 500 limit))) P SCAN_PAGE_CAP (map snd rows) []") (simp add: crm_safe_scan_def Let_def SCAN_PAGE_CAP_def take_map)

lemma scan_matches: "x \<in> set (fst (crm_safe_scan h limit P rows)) \<Longrightarrow> P x \<and> x \<in> snd ` set rows"
proof -
  assume x: "x \<in> set (fst (crm_safe_scan h limit P rows))"
  then have "cr_scan h" by (cases "cr_scan h") (simp_all add: crm_safe_scan_def)
  with x show ?thesis by (auto simp: scan_first_matches dest!: in_set_takeD)
qed

lemma contact_found:
  "existing_contact_for_email h email w = Some c \<Longrightarrow> ct_email c = py_lower (py_strip email) \<and> c \<in> snd ` set (cw_contacts w)"
  using scan_matches [of c h 5 "\<lambda>c. ct_email c = py_lower (py_strip email)" "cw_contacts w"]
  by (auto simp: existing_contact_for_email_def split: if_splits list.splits)

section \<open>One request\<close>

lemma crm_log_fields [simp]:
  "cw_deals (crm_log xs w) = cw_deals w" "cw_contacts (crm_log xs w) = cw_contacts w" "cw_log (crm_log xs w) = cw_log w @ xs"
  "cw_tasks (crm_log xs w) = cw_tasks w" "cw_prospects (crm_log xs w) = cw_prospects w" "cw_leads (crm_log xs w) = cw_leads w"
  by (simp_all add: crm_log_def)

lemma decided_row:
  assumes "advance_decide cfg now req d = Inr d'"
  shows "validate_transition (op_stage d) (ar_target req) = None" "op_stage d' = ar_target req" "op_id d' = op_id d" "op_prospect d' = op_prospect d"
    "op_won d' = (if ar_target req = Closed_Won then rat_or (ar_won req) (op_size d) else op_won d)"
    "ar_target req = Closed_Won \<Longrightarrow> 0 < cc_cap cfg \<Longrightarrow> op_won d' \<le> cc_cap cfg"
  using assms by (auto simp: advance_decide_def close_amount_def WON_TERMINAL_STAGES_def Let_def split: option.splits if_splits)

lemma advance_opportunity_cases:
  assumes "advance_opportunity cfg h now req w = (r, w')"
  obtains (Refused) "w' = w" "as_status r \<noteq> Advanced"
  | (Written) d d' where "map_of (cw_deals w) (ar_id req) = Some d" "advance_decide cfg now req d = Inr d'" "as_status r = Advanced"
      "w' = crm_log (advance_effects cfg h (op_stage d) d') (w\<lparr>cw_deals := AList.update (ar_id req) d' (cw_deals w)\<rparr>)"
proof (cases "crm_safe_get h (ar_id req) (cw_deals w)")
  case (Inl e)
  with assms Refused show ?thesis by (auto simp: advance_opportunity_def)
next
  case g: (Inr x)
  show ?thesis
  proof (cases x)
    case None
    with assms g Refused show ?thesis by (auto simp: advance_opportunity_def)
  next
    case (Some d)
    show ?thesis
    proof (cases "advance_decide cfg now req d")
      case (Inl r')
      with assms g Some Refused show ?thesis
        by (auto simp: advance_opportunity_def advance_decide_def Let_def split: option.splits if_splits)
    next
      case (Inr d')
      have "map_of (cw_deals w) (ar_id req) = Some d" using g Some by (simp add: crm_safe_get_def split: if_splits)
      with assms g Some Inr Refused Written show ?thesis
        by (auto simp: advance_opportunity_def advance_commit_def split: if_splits)
    qed
  qed
qed

lemma close_is_advance:
  assumes "close_opportunity_from_payment cfg hs now oid amount email w = (r, w')"
  shows "(w' = w \<and> as_status r \<noteq> Advanced) \<or> advance_opportunity cfg (snd hs) now (close_request oid amount) w = (r, w')"
  using assms by (auto simp: close_opportunity_from_payment_def Let_def split: if_splits option.splits)

lemma task_fields [simp]:
  "cw_deals (snd (create_operator_task h now tid req w)) = cw_deals w"
  "cw_deals (persist_lifecycle_tasks h now ids n reqs w) = cw_deals w"
  by (simp add: create_operator_task_def, induction reqs arbitrary: n w) (simp_all add: create_operator_task_def)

section \<open>Sequences\<close>

datatype crm_op =
    Work "crm_reach \<times> crm_reach" int crm_job
  | Stake crm_reach int string string string int
  | Auto_Create crm_reach int string "nat \<Rightarrow> string" string string "int option" string "string list" string
  | With_Lifecycle crm_reach int "nat \<Rightarrow> string" advance_request

fun crm_step :: "crm_config \<Rightarrow> crm_op \<Rightarrow> crm_world \<Rightarrow> crm_world" where
  "crm_step cfg (Work hs now job) w = snd (crm_handle_action cfg hs now job w)"
| "crm_step cfg (Stake h now oid sentence author authored) w = snd (set_opportunity_stake h now oid sentence author authored w)"
| "crm_step cfg (Auto_Create h now oid ids prospect contact intent budget services assigned) w =
     snd (auto_create_opportunity_from_lead cfg h now oid ids prospect contact intent budget services assigned w)"
| "crm_step cfg (With_Lifecycle h now ids req) w = snd (advance_opportunity_with_lifecycle cfg h now ids req w)"

fun fresh_op :: "crm_op \<Rightarrow> crm_world \<Rightarrow> bool" where
  "fresh_op (Work hs now (Create_Job oid req)) w \<longleftrightarrow> map_of (cw_deals w) oid = None"
| "fresh_op (Auto_Create h now oid ids prospect contact intent budget services assigned) w \<longleftrightarrow> map_of (cw_deals w) oid = None"
| "fresh_op op w \<longleftrightarrow> True"

fun fresh_run :: "crm_config \<Rightarrow> crm_op list \<Rightarrow> crm_world \<Rightarrow> bool" where
  "fresh_run cfg [] w = True"
| "fresh_run cfg (op # ops) w = (fresh_op op w \<and> fresh_run cfg ops (crm_step cfg op w))"

text \<open>How a step changes the table of deals; when the identifiers are fresh, no row is replaced by a new deal.\<close>

inductive deal_move :: "crm_config \<Rightarrow> bool \<Rightarrow> (string \<times> opportunity) list \<Rightarrow> (string \<times> opportunity) list \<Rightarrow> bool" for cfg fresh where
  Same: "deal_move cfg fresh ds ds"
| Opened: "fresh \<longrightarrow> map_of ds oid = None \<Longrightarrow> op_stage d = New_Deal \<Longrightarrow> op_won d = 0 \<Longrightarrow> deal_move cfg fresh ds (AList.update oid d ds)"
| Staked: "map_of ds oid = Some d \<Longrightarrow> deal_move cfg fresh ds (AList.update oid (d\<lparr>op_stake := s, op_updated := now\<rparr>) ds)"
| Moved: "map_of ds (ar_id req) = Some d \<Longrightarrow> advance_decide cfg now req d = Inr d' \<Longrightarrow> deal_move cfg fresh ds (AList.update (ar_id req) d' ds)"

lemma advance_moves: "advance_opportunity cfg h now req w = (r, w') \<Longrightarrow> deal_move cfg fresh (cw_deals w) (cw_deals w')"
  by (erule advance_opportunity_cases) (auto intro: deal_move.intros)

lemma close_moves: "close_opportunity_from_payment cfg hs now oid amount email w = (r, w') \<Longrightarrow> deal_move cfg fresh (cw_deals w) (cw_deals w')"
  using close_is_advance [of cfg hs now oid amount email w r w'] advance_moves deal_move.Same by metis

lemma create_moves: "(fresh \<longrightarrow> map_of (cw_deals w) oid = None) \<Longrightarrow> deal_move cfg fresh (cw_deals w) (cw_deals (snd (create_opportunity h now oid req w)))"
  by (auto simp: create_opportunity_def Let_def split: prod.split intro!: deal_move.intros)

lemma convert_keeps_deals: "cw_deals (snd (convert_lead_to_prospect hs now np nc lead w)) = cw_deals w"
  by (auto simp: convert_lead_to_prospect_def Let_def split: sum.splits option.splits)

lemma update_task_keeps_deals: "cw_deals (snd (update_operator_task h now stamp target completed remarks tid w)) = cw_deals w"
  by (auto simp: update_operator_task_def Let_def split: sum.splits option.splits)

lemma action_moves:
  assumes "fresh \<longrightarrow> fresh_op (Work hs now job) w"
  shows "deal_move cfg fresh (cw_deals w) (cw_deals (snd (crm_handle_action cfg hs now job w)))"
proof (cases job)
  case (Advance_Job req)
  then show ?thesis using advance_moves [of cfg "fst hs" now req w] by (auto simp: crm_handle_action_def Let_def split: prod.splits)
next
  case (Close_By_Id_Job oid amount email)
  then show ?thesis using close_moves [of cfg hs now oid amount "py_strip email" w] deal_move.Same
    by (auto simp: crm_handle_action_def Let_def split: prod.splits)
next
  case (Close_By_Email_Job email amount)
  then show ?thesis using close_moves [of cfg hs now _ amount "py_strip email" w] deal_move.Same
    by (auto simp: crm_handle_action_def Let_def split: prod.splits option.splits)
next
  case (Create_Job oid req)
  then show ?thesis using assms create_moves [of fresh w oid cfg "fst hs" now req] by (auto simp: crm_handle_action_def Let_def split: prod.splits)
next
  case (Convert_Job lead np nc)
  then show ?thesis using convert_keeps_deals [of hs now np nc lead w] deal_move.Same by (auto simp: crm_handle_action_def Let_def split: prod.splits)
next
  case (Task_Job tid req)
  then show ?thesis using task_fields(1) [of "fst hs" now tid req w] deal_move.Same [of cfg fresh "cw_deals w"]
    by (cases "create_operator_task (fst hs) now tid req w") (simp add: crm_handle_action_def Let_def)
next
  case (Update_Task_Job tid target completed remarks stamp)
  then show ?thesis using update_task_keeps_deals [of "fst hs" now stamp target completed remarks tid w] deal_move.Same
    by (auto simp: crm_handle_action_def Let_def split: prod.splits)
next
  case (Find_Job email)
  then show ?thesis using deal_move.Same by (simp add: crm_handle_action_def Let_def)
qed

lemma crm_step_moves:
  assumes "fresh \<longrightarrow> fresh_op op w"
  shows "deal_move cfg fresh (cw_deals w) (cw_deals (crm_step cfg op w))"
proof (cases op)
  case (Work hs now job)
  then show ?thesis using action_moves [of fresh hs now job w] assms by simp
next
  case (Stake h now oid sentence author authored)
  then show ?thesis
    by (auto simp: set_opportunity_stake_def get_opportunity_def crm_safe_get_def Let_def split: option.splits sum.splits if_splits intro!: deal_move.intros)
next
  case (Auto_Create h now oid ids prospect contact intent budget services assigned)
  then have "fresh \<longrightarrow> map_of (cw_deals w) oid = None" using assms by simp
  from create_moves [OF this] Auto_Create show ?thesis
    by (auto simp: auto_create_opportunity_from_lead_def Let_def split: prod.split option.split) (metis snd_conv)+
next
  case (With_Lifecycle h now ids req)
  then show ?thesis using advance_moves [of cfg h now req w]
    by (auto simp: advance_opportunity_with_lifecycle_def Let_def split: prod.splits option.splits)
qed

section \<open>Deals over time\<close>

definition same_close :: "opportunity \<Rightarrow> opportunity \<Rightarrow> bool" where
  "same_close d d' \<longleftrightarrow> op_stage d' = op_stage d \<and> op_won d' = op_won d \<and> op_actual d' = op_actual d \<and> op_lost d' = op_lost d \<and> op_prospect d' = op_prospect d"

lemma closed_move:
  assumes "deal_move cfg True ds ds'" "map_of ds oid = Some d" "op_stage d \<in> set TERMINAL_STAGES"
  shows "\<exists>d'. map_of ds' oid = Some d' \<and> same_close d d'"
  using assms(1)
proof cases
  case Same
  with assms(2) show ?thesis by (simp add: same_close_def)
next
  case (Opened oid' n)
  with assms(2) show ?thesis by (cases "oid' = oid") (auto simp: same_close_def update_conv')
next
  case (Staked oid' e s now)
  with assms(2) show ?thesis by (cases "oid' = oid") (auto simp: same_close_def update_conv')
next
  case (Moved req e now e')
  have "ar_id req \<noteq> oid"
    using Moved(2) decided_row(1) [OF Moved(3)] terminal_stages_are_final [OF assms(3), of "ar_target req"] assms(2) by auto
  with assms(2) Moved(1) show ?thesis by (simp add: same_close_def update_conv')
qed

text \<open>C10: A closed deal stays as it was closed. Whatever jobs, stakes and requests follow one after the other, with any failures of the
  tables, and with new deals under new identifiers, a deal that is won or lost keeps its stage, its amount, the time
  of its close and its reason.\<close>

theorem closed_deals_stay_closed:
  assumes "map_of (cw_deals w) oid = Some d" "op_stage d \<in> set TERMINAL_STAGES" "fresh_run cfg ops w"
  shows "\<exists>d'. map_of (cw_deals (fold (crm_step cfg) ops w)) oid = Some d' \<and> same_close d d'"
  using assms
proof (induction ops arbitrary: w d)
  case Nil
  then show ?case by (simp add: same_close_def)
next
  case (Cons op ops)
  from Cons.prems(3) have "deal_move cfg True (cw_deals w) (cw_deals (crm_step cfg op w))" by (intro crm_step_moves) simp
  from closed_move [OF this Cons.prems(1,2)] obtain e where e: "map_of (cw_deals (crm_step cfg op w)) oid = Some e" "same_close d e" by blast
  then have "op_stage e \<in> set TERMINAL_STAGES" using Cons.prems(2) by (simp add: same_close_def)
  from Cons.IH [OF e(1) this] Cons.prems(3) obtain d' where "map_of (cw_deals (fold (crm_step cfg) (op # ops) w)) oid = Some d'" "same_close e d'"
    by auto
  with e(2) show ?case by (auto simp: same_close_def)
qed

text \<open>The amounts of all deals, open ones included: winning is the only move that writes one.\<close>

definition amounts_under :: "rat \<Rightarrow> (string \<times> opportunity) list \<Rightarrow> bool" where
  "amounts_under cap ds \<longleftrightarrow> (\<forall>oid d. map_of ds oid = Some d \<longrightarrow> op_won d \<le> cap)"

lemma amounts_move:
  assumes "deal_move cfg False ds ds'" "0 < cc_cap cfg" "amounts_under (cc_cap cfg) ds"
  shows "amounts_under (cc_cap cfg) ds'"
  using assms(1)
proof cases
  case (Moved req d now d')
  have "op_won d \<le> cc_cap cfg" using assms(3) Moved(2) by (simp add: amounts_under_def)
  then have "op_won d' \<le> cc_cap cfg" using decided_row(5,6) [OF Moved(3)] assms(2) by (cases "ar_target req = Closed_Won") auto
  with assms(3) Moved(1) show ?thesis by (auto simp: amounts_under_def update_conv')
qed (use assms(2,3) in \<open>auto simp: amounts_under_def update_conv'\<close>)

lemma won_request_under_cap:
  assumes "advance_decide cfg now req d = Inr d'" "ar_target req \<in> set WON_TERMINAL_STAGES" "0 < cc_cap cfg"
  shows "ar_won req \<le> cc_cap cfg"
  using assms by (auto simp: advance_decide_def close_amount_def rat_or_def Let_def split: option.splits if_splits)

text \<open>C11: Won amounts stay under the cap, for one-off deals and retainers alike. With a cap that is on, and a table whose deals have
  amounts within it (new deals have the amount zero), whatever jobs, stakes and requests follow one after the other, and
  whatever amounts and identifiers they carry: no deal of any stage ever has an amount over the cap, and no request to
  win a deal, as closed or as a retainer, is accepted with an amount over the cap.\<close>

theorem won_amounts_stay_under_cap:
  assumes "0 < cc_cap cfg" "amounts_under (cc_cap cfg) (cw_deals w)" "v = fold (crm_step cfg) ops w"
  shows "amounts_under (cc_cap cfg) (cw_deals v)
    \<and> (advance_opportunity cfg h now req v = (r, v') \<longrightarrow> as_status r = Advanced \<longrightarrow> ar_target req \<in> set WON_TERMINAL_STAGES
        \<longrightarrow> ar_won req \<le> cc_cap cfg)"
proof
  show "amounts_under (cc_cap cfg) (cw_deals v)"
    unfolding assms(3) using assms(2) by (induction ops arbitrary: w) (simp_all add: amounts_move [OF crm_step_moves assms(1)])
  show "advance_opportunity cfg h now req v = (r, v') \<longrightarrow> as_status r = Advanced \<longrightarrow> ar_target req \<in> set WON_TERMINAL_STAGES
      \<longrightarrow> ar_won req \<le> cc_cap cfg"
    using assms(1) by (auto elim: advance_opportunity_cases intro: won_request_under_cap)
qed

section \<open>Payments\<close>

lemma closed_by_payment:
  assumes "close_opportunity_from_payment cfg hs now oid amount email w = (r, w')" "email \<noteq> []" "as_status r = Advanced"
  obtains d d' c where "map_of (cw_deals w) oid = Some d" "op_stage d \<in> {Qualified, In_Proposal, Negotiation}"
    "c \<in> snd ` set (cw_contacts w)" "ct_email c = py_lower (py_strip email)" "ct_prospect c = op_prospect d" "op_prospect d \<noteq> []"
    "cw_deals w' = AList.update oid d' (cw_deals w)" "op_stage d' = Closed_Won" "op_won d' = rat_or amount (op_size d)"
    "0 < cc_cap cfg \<Longrightarrow> op_won d' \<le> cc_cap cfg"
proof -
  obtain e c where e: "get_opportunity (fst hs) oid w = Some e" "existing_contact_for_email (fst hs) email w = Some c" "ct_prospect c \<noteq> []"
      "op_prospect e = ct_prospect c" and go: "advance_opportunity cfg (snd hs) now (close_request oid amount) w = (r, w')"
    using assms by (auto simp: close_opportunity_from_payment_def Let_def split: option.splits if_splits)
  from go assms(3) obtain d d' where d: "map_of (cw_deals w) oid = Some d" "advance_decide cfg now (close_request oid amount) d = Inr d'"
      "w' = crm_log (advance_effects cfg (snd hs) (op_stage d) d') (w\<lparr>cw_deals := AList.update oid d' (cw_deals w)\<rparr>)"
    by (cases rule: advance_opportunity_cases) (auto simp: close_request_def)
  have "e = d" using e(1) d(1) by (auto simp: get_opportunity_def crm_safe_get_def split: if_splits option.splits)
  with e d contact_found [OF e(2)] decided_row [OF d(2)] won_needs_qualified [of "op_stage d"] show ?thesis
    by (intro that [of d c d']) (auto simp: close_request_def)
qed

text \<open>C9: A payment closes a deal of the payer only. When the job of a payment that names an email that is not blank, by the deal's
  identifier or by the email, closes a deal, there is a contact with the payer's email who belongs to the prospect of that
  deal; the deal was qualified, in proposal or in negotiation, is now won, with an amount within the cap when the cap is on,
  and no other deal has changed. (A job without an email is closed without that check.)\<close>

theorem payment_closes_only_the_payers_deal:
  assumes "crm_handle_action cfg hs now job w = (Advance_Reply r, w')" "as_status r = Advanced"
    and "job = Close_By_Id_Job oid amount email \<or> job = Close_By_Email_Job email amount" "py_strip email \<noteq> []"
  shows "\<exists>oid d d' c. map_of (cw_deals w) oid = Some d \<and> op_stage d \<in> {Qualified, In_Proposal, Negotiation}
    \<and> c \<in> snd ` set (cw_contacts w) \<and> ct_email c = py_lower (py_strip email) \<and> ct_prospect c = op_prospect d \<and> op_prospect d \<noteq> []
    \<and> cw_deals w' = AList.update oid d' (cw_deals w) \<and> op_stage d' = Closed_Won \<and> (0 < cc_cap cfg \<longrightarrow> op_won d' \<le> cc_cap cfg)"
proof -
  from assms(1,3) obtain x where x: "close_opportunity_from_payment cfg hs now x amount (py_strip email) w = (r, w')"
    by (auto simp: crm_handle_action_def Let_def split: if_splits prod.splits option.splits)
  from closed_by_payment [OF this assms(4,2)] show ?thesis unfolding py_strip_idem by metis
qed

text \<open>The webhook's jobs, as they reach the worker.\<close>

fun crm_job_of :: "finance_effect \<Rightarrow> crm_job option" where
  "crm_job_of (Close_By_Id e oid amount email) = Some (Close_By_Id_Job oid amount email)"
| "crm_job_of (Close_By_Email e email amount) = Some (Close_By_Email_Job email amount)"
| "crm_job_of _ = None"

lemma new_deal_not_won:
  assumes "map_of (cw_deals v) oid = Some d" "op_stage d = New_Deal"
    and "close_opportunity_from_payment cfg hs now oid amount email v = (r, v')"
  shows "v' = v \<and> as_status r \<noteq> Advanced"
proof -
  consider "v' = v" "as_status r \<noteq> Advanced" | "advance_opportunity cfg (snd hs) now (close_request oid amount) v = (r, v')"
    using close_is_advance [OF assms(3)] by blast
  then show ?thesis
  proof cases
    case 2
    then show ?thesis
    proof (cases rule: advance_opportunity_cases)
      case (Written e e')
      with assms(1,2) decided_row(1) [OF Written(2)] show ?thesis
        using won_needs_qualified [of "op_stage e"] by (auto simp: close_request_def)
    qed simp
  qed simp
qed

text \<open>C38: A payment for a new deal does not close it. When the link that was paid is tagged with a deal that is still new, as every deal
  is that was just opened for such a link, the webhook books the payment and sends the job, and the worker refuses the
  move from new to won: the deal stays open and nothing of the CRM changes.\<close>

theorem payment_on_new_deal_is_refused:
  assumes "ev_type ev = ''checkout.session.completed''" "passes_mode cfg ev"
    and "extract_session_fields (ev_data ev) = Got sf" "extract_subscription_fields (ev_data ev) = Got su" "sf_email sf \<noteq> []"
    and "sf_status sf = ''paid''" "settle_customer out t ev sf su (fw_graph w) = (Inr (c, adv), g)" "c \<noteq> []" "fc_crm cfg"
    and "py_startswith (su_ref su) ''op_''" "map_of (cw_deals v) (su_ref su) = Some d" "op_stage d = New_Deal"
    and "process_event cfg out t ev w = (res, w')"
  shows "\<exists>x job. x \<in> set (fw_log w') \<and> crm_job_of x = Some job
    \<and> revenue w' = revenue w + amount_or_zero (sf_amount sf) \<and> snd (crm_handle_action ccfg hs now job v) = v"
proof -
  let ?x = "Close_By_Id (ev_id ev) (su_ref su) (amount_or_zero (sf_amount sf)) (sf_email sf)"
  let ?w = "w\<lparr>fw_graph := g\<rparr>"
  have w': "w' = snd (after_settlement cfg out t ev sf su (c, adv) ?w)"
    using assms(13) checkout_runs [OF assms(1-5), of out t w] assms(7) by (auto split: prod.splits)
  have loop: "close_the_loop cfg ev c sf su = [?x]" using assms(8-10) by (simp add: close_the_loop_def)
  have x: "?x \<in> set (fw_log w')" unfolding w' after_settlement_facts(1) loop by simp
  have r: "revenue w' = revenue w + amount_or_zero (sf_amount sf)"
    unfolding w' revenue_def after_settlement_facts(1) loop
    using assms(6) short_effects(1) [of out ev sf su] by (auto simp: payment_effects_def FULFILL_PAYMENT_STATUSES_def)
  obtain r2 v' where h: "close_opportunity_from_payment ccfg hs now (su_ref su) (amount_or_zero (sf_amount sf)) (py_strip (sf_email sf)) v = (r2, v')"
    by (rule that) (rule prod.collapse [symmetric])
  have "snd (crm_handle_action ccfg hs now (Close_By_Id_Job (su_ref su) (amount_or_zero (sf_amount sf)) (sf_email sf)) v) = v"
    using new_deal_not_won [OF assms(11,12) h] h by (simp add: crm_handle_action_def Let_def)
  with x r show ?thesis by (intro exI [where x = ?x] exI) auto
qed

text \<open>A payment of nothing books the estimate. When a checkout of amount zero (a full coupon) closes a deal, the amount of the won deal and
  the revenue of its event are the estimated yearly size of the deal.\<close>

theorem zero_payment_books_estimate:
  assumes "close_opportunity_from_payment cfg hs now oid 0 email w = (r, w')" "email \<noteq> []" "as_status r = Advanced" "map_of (cw_deals w) oid = Some d"
  shows "\<exists>d'. map_of (cw_deals w') oid = Some d' \<and> op_stage d' = Closed_Won \<and> op_won d' = op_size d
    \<and> Deal_Event (op_id d) (op_prospect d) (op_stage d) Closed_Won (Some (op_size d)) \<in> set (cw_log w')"
proof -
  have go: "advance_opportunity cfg (snd hs) now (close_request oid 0) w = (r, w')" using close_is_advance [OF assms(1)] assms(3) by blast
  then show ?thesis
  proof (cases rule: advance_opportunity_cases)
    case (Written e d')
    then have "e = d" using assms(4) by (simp add: close_request_def)
    with Written decided_row [OF Written(2)] show ?thesis
      by (auto simp: close_request_def rat_or_def advance_effects_def WON_TERMINAL_STAGES_def update_conv')
  qed (use assms(3) in simp)
qed

text \<open>A stale write reopens a deal. Two requests that read the same open deal both succeed: the second to write puts its row over
  the first one's. A deal that a payment has won is in the stage of the other request, without the amount, while the
  event with the revenue is out.\<close>

theorem stale_write_reopens_deal:
  assumes "map_of (cw_deals w) oid = Some d" "ar_id req1 = oid" "ar_id req2 = oid" "ar_target req1 = Closed_Won"
    and "advance_decide cfg now1 req1 d = Inr d1" "advance_decide cfg now2 req2 d = Inr d2" "cr_put h1" "cr_put h2"
    and "advance_commit cfg h1 req1 d d1 w = (r1, w1)" "advance_commit cfg h2 req2 d d2 w1 = (r2, w2)"
  shows "as_status r1 = Advanced \<and> as_status r2 = Advanced \<and> (\<exists>d'. map_of (cw_deals w2) oid = Some d' \<and> op_stage d' = ar_target req2)
    \<and> Deal_Event (op_id d) (op_prospect d) (op_stage d) Closed_Won (Some (op_won d1)) \<in> set (cw_log w2)"
  using assms decided_row [OF assms(5)] decided_row [OF assms(6)]
  by (auto simp: advance_commit_def advance_effects_def WON_TERMINAL_STAGES_def update_conv')

section \<open>Leads\<close>

lemma lower_code: "char_code (lower_char c) = (if 65 \<le> char_code c \<and> char_code c \<le> 90 then char_code c + 32 else char_code c)"
  by (simp add: lower_char_def char_code_def)

lemma space_code: "py_isspace c \<Longrightarrow> char_code c \<le> 32"
  by (auto simp: py_isspace_def char_code_def)

lemma space_lower: "py_isspace (lower_char c) = py_isspace c"
proof (cases "65 \<le> char_code c \<and> char_code c \<le> 90")
  case True
  then have "\<not> py_isspace c" "\<not> py_isspace (lower_char c)" using space_code [of c] space_code [of "lower_char c"] by (auto simp: lower_code)
  then show ?thesis by simp
qed (auto simp: lower_char_def)

lemma lower_idem: "py_lower (py_lower s) = py_lower s"
  unfolding py_lower_def map_map o_def by (rule map_cong [OF refl]) (subst lower_char_def, auto simp: lower_code)

lemma strip_lower: "py_strip (py_lower s) = py_lower (py_strip s)"
  by (simp add: py_strip_def py_lstrip_def py_lower_def dropWhile_map o_def space_lower rev_map)

text \<open>Converting a lead twice converts it once. When the tables work, the contacts fit the pages of a scan and the lead has
  an email, a second conversion of the lead answers with the prospect and the contact of the first and writes nothing.\<close>

theorem lead_is_converted_once:
  assumes "convert_lead_to_prospect hs now np nc lead w = (r, w1)" "cv_status r = Lead_Created"
    and "map_of (cw_leads w) lead = Some ld" "py_strip (ld_email ld) \<noteq> []" "map_of (cw_contacts w) nc = None"
    and "cr_get h2" "cr_scan (fst hs)" "cr_scan h2" "length (cw_contacts w) < 20 * cr_page (fst hs)" "length (cw_contacts w) < 20 * cr_page h2"
  shows "convert_lead_to_prospect (h2, h3) later np2 nc2 lead w1
    = (\<lparr>cv_status = Lead_Existing, cv_prospect = cv_prospect r, cv_contact = nc, cv_error = None\<rparr>, w1)"
proof -
  let ?em = "py_lower (py_strip (ld_email ld))"
  have em: "?em \<noteq> []" "py_lower (py_strip ?em) = ?em"
    using assms(4) by (simp_all add: py_lower_def [of "py_strip (ld_email ld)"]) (simp add: py_lower_def [symmetric] strip_lower lower_idem py_strip_idem)
  have new: "existing_contact_for_email (fst hs) ?em w = None" "cw_leads w1 = cw_leads w"
      "\<exists>c. cw_contacts w1 = AList.update nc c (cw_contacts w) \<and> ct_email c = ?em \<and> ct_id c = nc \<and> ct_prospect c = cv_prospect r"
    using assms(1-3) by (auto simp: convert_lead_to_prospect_def crm_safe_get_def Let_def split: option.splits if_splits)
  then obtain c where c: "cw_contacts w1 = cw_contacts w @ [(nc, c)]" "ct_email c = ?em" "ct_id c = nc" "ct_prospect c = cv_prospect r"
    using assms(5) update_new [of nc "cw_contacts w"] by (auto simp: map_of_eq_None_iff)
  have "filter (\<lambda>c. ct_email c = ?em) (map snd (take (20 * cr_page (fst hs)) (cw_contacts w))) = []"
    using new(1) em assms(7) scan_first_matches [OF assms(7), of 5 "\<lambda>c. ct_email c = ?em" "cw_contacts w"]
    by (auto simp: existing_contact_for_email_def split: list.splits)
  then have "filter (\<lambda>c. ct_email c = ?em) (map snd (cw_contacts w)) = []" using assms(9) by simp
  then have "existing_contact_for_email h2 ?em w1 = Some c"
    using em assms(10) c scan_first_matches [OF assms(8), of 5 "\<lambda>c. ct_email c = ?em" "cw_contacts w1"]
    by (simp add: existing_contact_for_email_def)
  then show ?thesis using assms(3,6) new(2) c by (simp add: convert_lead_to_prospect_def crm_safe_get_def Let_def)
qed

section \<open>Instances\<close>

definition all_up :: crm_reach where
  "all_up = \<lparr>cr_get = True, cr_put = True, cr_scan = True, cr_page = 100\<rparr>"

definition crm_demo :: crm_config where
  "crm_demo = \<lparr>cc_cap = 1000, cc_strategy = True, cc_gateway = True, cc_assignee = []\<rparr>"

definition demo_deal :: "deal_stage \<Rightarrow> rat \<Rightarrow> opportunity" where
  "demo_deal stage won = \<lparr>op_id = ''op_1'', op_prospect = ''pr_1'', op_contact = ''co_1'', op_stage = stage, op_name = ''Acme'', op_size = 900,
     op_probability = 1 / 2, op_next = [], op_expected = [], op_actual = None, op_won = won, op_lost = [], op_assigned = [], op_created = 10,
     op_updated = 10, op_credit = no_credit, op_stake = ([], [], None)\<rparr>"

definition demo_crm :: "deal_stage \<Rightarrow> rat \<Rightarrow> crm_world" where
  "demo_crm stage won = \<lparr>cw_deals = [(''op_1'', demo_deal stage won)],
     cw_contacts = [(''co_1'', \<lparr>ct_id = ''co_1'', ct_prospect = ''pr_1'', ct_name = ''Ann'', ct_email = ''ann.lee@x.com'', ct_source = ([], []), ct_created = 1\<rparr>)],
     cw_prospects = [], cw_leads = [(''ld_1'', \<lparr>ld_email = ''bob@y.com'', ld_company = [], ld_website = [], ld_name = []\<rparr>)],
     cw_tasks = [], cw_log = []\<rparr>"

lemma demo_deal_lookup: "map_of (cw_deals (demo_crm stage won)) ''op_1'' = Some (demo_deal stage won)"
  "op_stage (demo_deal stage won) = stage" "op_size (demo_deal stage won) = 900" "op_won (demo_deal stage won) = won"
  by (simp_all add: demo_crm_def demo_deal_def)

lemma demo_contact: "\<exists>c. existing_contact_for_email all_up ''ann.lee@x.com'' (demo_crm stage won) = Some c \<and> ct_prospect c = ''pr_1''"
proof -
  have e: "py_lower (py_strip ''ann.lee@x.com'') = ''ann.lee@x.com''" "all_up = \<lparr>cr_get = True, cr_put = True, cr_scan = True, cr_page = 100\<rparr>"
    by (code_simp, rule all_up_def)
  show ?thesis
    using scan_first_matches [of all_up 5 "\<lambda>c. ct_email c = ''ann.lee@x.com''" "cw_contacts (demo_crm stage won)"]
    by (simp add: existing_contact_for_email_def e demo_crm_def)
qed

lemma demo_close:
  assumes "stage \<in> {Qualified, In_Proposal, Negotiation}" "amount \<le> 1000"
  shows "\<exists>r w'. close_opportunity_from_payment crm_demo (all_up, all_up) 20 ''op_1'' amount ''ann.lee@x.com'' (demo_crm stage 0) = (r, w') \<and> as_status r = Advanced"
proof -
  obtain c where c: "existing_contact_for_email all_up ''ann.lee@x.com'' (demo_crm stage 0) = Some c" "ct_prospect c = ''pr_1''"
    using demo_contact by blast
  have "validate_transition stage Closed_Won = None"
    using assms(1) by (auto simp: validate_transition_def next_allowed_stages_def TERMINAL_STAGES_def)
  moreover have "get_opportunity all_up ''op_1'' (demo_crm stage 0) = Some (demo_deal stage 0)" "op_prospect (demo_deal stage 0) = ''pr_1''"
    by (simp_all add: get_opportunity_def crm_safe_get_def all_up_def demo_deal_lookup) (simp add: demo_deal_def)
  ultimately show ?thesis
    using c assms(2)
    by (simp add: close_opportunity_from_payment_def advance_opportunity_def crm_safe_get_def close_request_def demo_deal_lookup advance_decide_def
        close_amount_def advance_commit_def all_up_def crm_demo_def rat_or_def Let_def)
qed

theorem closed_deals_stay_closed_witness:
  "\<exists>d'. map_of (cw_deals (fold (crm_step crm_demo)
      [Work (all_up, all_up) 20 (Advance_Job \<lparr>ar_id = ''op_1'', ar_target = Negotiation, ar_lost = [], ar_won = 0\<rparr>),
       Stake all_up 21 ''op_1'' ''a line'' ''alex'' 21,
       Work (all_up, all_up) 22 (Close_By_Id_Job ''op_1'' 500 [])] (demo_crm Closed_Won 149))) ''op_1'' = Some d' \<and> op_won d' = 149"
  using closed_deals_stay_closed [OF demo_deal_lookup(1), of Closed_Won 149 crm_demo
      "[Work (all_up, all_up) 20 (Advance_Job \<lparr>ar_id = ''op_1'', ar_target = Negotiation, ar_lost = [], ar_won = 0\<rparr>),
       Stake all_up 21 ''op_1'' ''a line'' ''alex'' 21, Work (all_up, all_up) 22 (Close_By_Id_Job ''op_1'' 500 [])]"]
  by (auto simp: same_close_def demo_deal_lookup TERMINAL_STAGES_def simp del: crm_step.simps)

theorem won_amounts_stay_under_cap_witness:
  "\<exists>r w. advance_opportunity crm_demo all_up 30 \<lparr>ar_id = ''op_1'', ar_target = Closed_Won_Retainer, ar_lost = [], ar_won = 800\<rparr>
      (demo_crm Qualified 0) = (r, w)
    \<and> as_status r = Advanced \<and> (800 :: rat) \<le> 1000
    \<and> amounts_under 1000 (cw_deals (fold (crm_step crm_demo) [Work (all_up, all_up) 20 (Close_By_Id_Job ''op_1'' 5000 []),
         Work (all_up, all_up) 22 (Close_By_Id_Job ''op_1'' 500 [])] (demo_crm Qualified 0)))"
proof -
  let ?req = "\<lparr>ar_id = ''op_1'', ar_target = Closed_Won_Retainer, ar_lost = [], ar_won = 800\<rparr>"
  have start: "0 < cc_cap crm_demo" "amounts_under (cc_cap crm_demo) (cw_deals (demo_crm Qualified 0))"
    by (auto simp: amounts_under_def demo_crm_def demo_deal_def crm_demo_def)
  obtain r w where a: "advance_opportunity crm_demo all_up 30 ?req (demo_crm Qualified 0) = (r, w)"
    by (rule that) (rule prod.collapse [symmetric])
  have "as_status r = Advanced"
    using a by (auto simp: advance_opportunity_def crm_safe_get_def all_up_def demo_deal_lookup advance_decide_def close_amount_def
        rat_or_def advance_commit_def crm_demo_def validate_transition_def next_allowed_stages_def TERMINAL_STAGES_def Let_def)
  moreover from won_amounts_stay_under_cap [OF start, of "demo_crm Qualified 0" "[]" all_up 30 ?req r w] a this
  have "(800 :: rat) \<le> cc_cap crm_demo" by (simp add: WON_TERMINAL_STAGES_def)
  moreover have "amounts_under (cc_cap crm_demo) (cw_deals (fold (crm_step crm_demo) ops (demo_crm Qualified 0)))" for ops
    using won_amounts_stay_under_cap [OF start refl] by blast
  moreover have "cc_cap crm_demo = 1000" by (simp add: crm_demo_def)
  ultimately show ?thesis using a by metis
qed

theorem payment_closes_only_the_payers_deal_witness:
  "\<exists>r w'. crm_handle_action crm_demo (all_up, all_up) 20 (Close_By_Id_Job ''op_1'' 149 ''ann.lee@x.com'') (demo_crm Qualified 0) = (Advance_Reply r, w')
    \<and> as_status r = Advanced \<and> (\<exists>d'. op_stage d' = Closed_Won \<and> cw_deals w' = AList.update ''op_1'' d' (cw_deals (demo_crm Qualified 0)))"
proof -
  have s: "py_strip ''ann.lee@x.com'' = ''ann.lee@x.com''" by code_simp
  from demo_close [of Qualified 149] obtain r w' where
    c: "close_opportunity_from_payment crm_demo (all_up, all_up) 20 ''op_1'' 149 ''ann.lee@x.com'' (demo_crm Qualified 0) = (r, w')" "as_status r = Advanced" by auto
  then have h: "crm_handle_action crm_demo (all_up, all_up) 20 (Close_By_Id_Job ''op_1'' 149 ''ann.lee@x.com'') (demo_crm Qualified 0) = (Advance_Reply r, w')"
    by (simp add: crm_handle_action_def Let_def s)
  from payment_closes_only_the_payers_deal [OF h c(2), of "''op_1''" 149 "''ann.lee@x.com''"] s obtain oid d d' where
    d: "map_of (cw_deals (demo_crm Qualified 0)) oid = Some d" "cw_deals w' = AList.update oid d' (cw_deals (demo_crm Qualified 0))" "op_stage d' = Closed_Won"
    by auto
  have "oid = ''op_1''" using d(1) by (simp add: demo_crm_def split: if_splits)
  with h c(2) d show ?thesis by blast
qed

definition tagged :: stripe_event where
  "tagged = \<lparr>ev_id = ''evt9'', ev_type = ''checkout.session.completed'', ev_live = True, ev_data = [(''object'', JObj [(''object'', JStr ''checkout.session''),
     (''mode'', JStr ''payment''), (''customer_email'', JStr ''ann.lee@x.com''), (''amount_total'', JInt 14900), (''payment_status'', JStr ''paid''),
     (''client_reference_id'', JStr ''op_1'')])]\<rparr>"

theorem payment_on_new_deal_is_refused_witness:
  "\<exists>x job. x \<in> set (fw_log (snd (process_event demo_cfg demo_out 1000 tagged demo_finance))) \<and> crm_job_of x = Some job
    \<and> revenue (snd (process_event demo_cfg demo_out 1000 tagged demo_finance)) = 149
    \<and> snd (crm_handle_action crm_demo (all_up, all_up) 20 job (demo_crm New_Deal 0)) = demo_crm New_Deal 0"
proof -
  let ?sf = "\<lparr>sf_email = ''ann.lee@x.com'', sf_amount = Some 149, sf_currency = ''usd'', sf_offer = [], sf_status = ''paid'', sf_website = []\<rparr>"
  let ?su = "\<lparr>su_mode = ''payment'', su_id = [], su_price = [], su_ref = ''op_1''\<rparr>"
  have f: "extract_session_fields (ev_data tagged) = Got ?sf" "extract_subscription_fields (ev_data tagged) = Got ?su"
    by (simp_all add: tagged_def extract_session_fields_def extract_subscription_fields_def reading_defs demo_lower)
  have s: "settle_customer demo_out 1000 tagged ?sf ?su (fw_graph demo_finance) = (Inr (''ann_lee_at_x_com'', ''delivered''), fw_graph demo_finance)"
    using demo_found by (simp add: settle_customer_def demo_known_def)
  obtain res w' where p: "process_event demo_cfg demo_out 1000 tagged demo_finance = (res, w')" by (rule that) (rule prod.collapse [symmetric])
  have t: "ev_type tagged = ''checkout.session.completed''" "passes_mode demo_cfg tagged" by (simp_all add: tagged_def passes_mode_def)
  have l: "map_of (cw_deals (demo_crm New_Deal 0)) (su_ref ?su) = Some (demo_deal New_Deal 0)" by (simp add: demo_deal_lookup)
  from payment_on_new_deal_is_refused [OF t f _ _ s _ _ _ l demo_deal_lookup(2) p, of crm_demo "(all_up, all_up)" 20]
  show ?thesis using p by (simp add: demo_cfg_def py_startswith_def amount_or_zero_def revenue_def demo_fresh)
qed

theorem zero_payment_books_estimate_witness:
  "\<exists>r w' d'. close_opportunity_from_payment crm_demo (all_up, all_up) 20 ''op_1'' 0 ''ann.lee@x.com'' (demo_crm Qualified 0) = (r, w')
    \<and> map_of (cw_deals w') ''op_1'' = Some d' \<and> op_stage d' = Closed_Won \<and> op_won d' = 900"
proof -
  from demo_close [of Qualified 0] obtain r w' where
    c: "close_opportunity_from_payment crm_demo (all_up, all_up) 20 ''op_1'' 0 ''ann.lee@x.com'' (demo_crm Qualified 0) = (r, w')" "as_status r = Advanced" by auto
  from zero_payment_books_estimate [OF c(1) _ c(2) demo_deal_lookup(1)] c(1) show ?thesis by (auto simp: demo_deal_lookup)
qed

theorem stale_write_reopens_deal_witness:
  "\<exists>d1 d2 w1. advance_decide crm_demo 20 (close_request ''op_1'' 149) (demo_deal Qualified 0) = Inr d1
    \<and> w1 = snd (advance_commit crm_demo all_up (close_request ''op_1'' 149) (demo_deal Qualified 0) d1 (demo_crm Qualified 0))
    \<and> (\<exists>d'. map_of (cw_deals (snd (advance_commit crm_demo all_up \<lparr>ar_id = ''op_1'', ar_target = In_Proposal, ar_lost = [], ar_won = 0\<rparr>
          (demo_deal Qualified 0) d2 w1))) ''op_1'' = Some d' \<and> op_stage d' = In_Proposal)"
proof -
  let ?d = "demo_deal Qualified 0" let ?r2 = "\<lparr>ar_id = ''op_1'', ar_target = In_Proposal, ar_lost = [], ar_won = 0\<rparr>"
  obtain d1 where d1: "advance_decide crm_demo 20 (close_request ''op_1'' 149) ?d = Inr d1"
    by (simp add: advance_decide_def close_request_def demo_deal_lookup validate_transition_def next_allowed_stages_def TERMINAL_STAGES_def close_amount_def
        rat_or_def crm_demo_def)
  obtain d2 where d2: "advance_decide crm_demo 21 ?r2 ?d = Inr d2"
    by (simp add: advance_decide_def demo_deal_lookup validate_transition_def next_allowed_stages_def TERMINAL_STAGES_def WON_TERMINAL_STAGES_def)
  obtain r1 w1 where w1: "advance_commit crm_demo all_up (close_request ''op_1'' 149) ?d d1 (demo_crm Qualified 0) = (r1, w1)"
    by (rule that) (rule prod.collapse [symmetric])
  obtain r2 w2 where w2: "advance_commit crm_demo all_up ?r2 ?d d2 w1 = (r2, w2)" by (rule that) (rule prod.collapse [symmetric])
  from stale_write_reopens_deal [OF demo_deal_lookup(1) _ _ _ d1 d2 _ _ w1 w2]
  have "\<exists>d'. map_of (cw_deals w2) ''op_1'' = Some d' \<and> op_stage d' = In_Proposal" by (auto simp: close_request_def all_up_def)
  with d1 w1 w2 show ?thesis by (intro exI [where x = d1] exI [where x = d2] exI [where x = w1]) simp
qed

theorem lead_is_converted_once_witness:
  "\<exists>r w1. convert_lead_to_prospect (all_up, all_up) 20 ''pr_2'' ''co_2'' ''ld_1'' (demo_crm Qualified 0) = (r, w1)
    \<and> convert_lead_to_prospect (all_up, all_up) 30 ''pr_3'' ''co_3'' ''ld_1'' w1
      = (\<lparr>cv_status = Lead_Existing, cv_prospect = cv_prospect r, cv_contact = ''co_2'', cv_error = None\<rparr>, w1)"
proof -
  have e: "py_lower (py_strip ''bob@y.com'') = ''bob@y.com''" "py_lower ''bob@y.com'' = ''bob@y.com''" "py_strip ''bob@y.com'' = ''bob@y.com''" "py_lower (py_strip []) = []" by code_simp+
  obtain r w1 where c: "convert_lead_to_prospect (all_up, all_up) 20 ''pr_2'' ''co_2'' ''ld_1'' (demo_crm Qualified 0) = (r, w1)"
    by (rule that) (rule prod.collapse [symmetric])
  have "existing_contact_for_email all_up ''bob@y.com'' (demo_crm Qualified 0) = None"
    using scan_first_matches [of all_up 5 "\<lambda>c. ct_email c = ''bob@y.com''" "cw_contacts (demo_crm Qualified 0)"]
    by (simp add: existing_contact_for_email_def e all_up_def demo_crm_def)
  then have "cv_status r = Lead_Created"
    using c by (auto simp: convert_lead_to_prospect_def crm_safe_get_def demo_crm_def all_up_def e existing_prospect_for_website_def Let_def)
  from lead_is_converted_once [OF c this, of "\<lparr>ld_email = ''bob@y.com'', ld_company = [], ld_website = [], ld_name = []\<rparr>" all_up all_up 30 "''pr_3''" "''co_3''"]
  show ?thesis using c by (simp add: demo_crm_def e all_up_def)
qed

end
