(* ===== verification/Safe_Fetch.thy ===== *)
theory Safe_Fetch
  imports Retry_Circuit "HOL-Library.Word"
begin

text \<open>
  The guard of fetches to addresses that come from outside, \<open>common/safe_fetch.py\<close>: which addresses are refused, the check of
  one URL, and the fetch that walks redirects itself and checks every hop. Of Python's \<open>ipaddress\<close> the parsing of literals and
  the ranges are modelled, as of version 3.11.10. Given are what the URL library makes of a URL, the answers of the name
  service to the check, the address that the transport then connects to, and the answers of the servers; each by
  the number of the hop, so that they may change from hop to hop. A lookup that fails or takes too long is no answer.
\<close>

section \<open>Addresses\<close>

datatype ip = V4 "32 word" | V6 "128 word"

definition in_net :: "'a::len word \<Rightarrow> nat \<Rightarrow> 'a word \<Rightarrow> bool" where
  "in_net base p a \<longleftrightarrow> drop_bit (LENGTH('a) - p) a = drop_bit (LENGTH('a) - p) base"

definition quad :: "nat \<Rightarrow> nat \<Rightarrow> nat \<Rightarrow> nat \<Rightarrow> 32 word" where
  "quad a b c d = of_nat (((a * 256 + b) * 256 + c) * 256 + d)"

definition v4_private_nets :: "(32 word \<times> nat) list" where
  "v4_private_nets = [(quad 0 0 0 0, 8), (quad 10 0 0 0, 8), (quad 127 0 0 0, 8), (quad 169 254 0 0, 16), (quad 172 16 0 0, 12), (quad 192 0 0 0, 24),
     (quad 192 0 0 170, 31), (quad 192 0 2 0, 24), (quad 192 168 0 0, 16), (quad 198 18 0 0, 15), (quad 198 51 100 0, 24), (quad 203 0 113 0, 24),
     (quad 240 0 0 0, 4), (quad 255 255 255 255, 32)]"

definition v4_is_private :: "32 word \<Rightarrow> bool" where
  "v4_is_private a \<longleftrightarrow> list_ex (\<lambda>(n, p). in_net n p a) v4_private_nets \<and> a \<noteq> quad 192 0 0 9 \<and> a \<noteq> quad 192 0 0 10"

definition v4_forbidden :: "32 word \<Rightarrow> bool" where
  "v4_forbidden a \<longleftrightarrow> v4_is_private a \<or> in_net (quad 127 0 0 0) 8 a \<or> in_net (quad 169 254 0 0) 16 a \<or> in_net (quad 224 0 0 0) 4 a
     \<or> in_net (quad 240 0 0 0) 4 a \<or> a = 0 \<or> in_net (quad 100 64 0 0) 10 a"

text \<open>The network whose first two groups are given.\<close>

definition hextets :: "nat \<Rightarrow> nat \<Rightarrow> 128 word" where
  "hextets a b = push_bit 96 (of_nat (a * 65536 + b))"

definition v6_private_nets :: "(128 word \<times> nat) list" where
  "v6_private_nets = [(1, 128), (0, 128), (push_bit 32 0xFFFF, 96), (hextets 0x64 0xff9b + push_bit 80 1, 48), (hextets 0x100 0, 64), (hextets 0x2001 0, 23),
     (hextets 0x2001 0xdb8, 32), (hextets 0x2002 0, 16), (hextets 0xfc00 0, 7), (hextets 0xfe80 0, 10)]"

definition v6_private_exceptions :: "(128 word \<times> nat) list" where
  "v6_private_exceptions = [(hextets 0x2001 1 + 1, 128), (hextets 0x2001 1 + 2, 128), (hextets 0x2001 3, 32), (hextets 0x2001 4 + push_bit 80 0x112, 48),
     (hextets 0x2001 0x20, 28), (hextets 0x2001 0x30, 28)]"

definition v6_reserved_nets :: "(128 word \<times> nat) list" where
  "v6_reserved_nets = [(0, 8), (hextets 0x100 0, 8), (hextets 0x200 0, 7), (hextets 0x400 0, 6), (hextets 0x800 0, 5), (hextets 0x1000 0, 4),
     (hextets 0x4000 0, 3), (hextets 0x6000 0, 3), (hextets 0x8000 0, 3), (hextets 0xa000 0, 3), (hextets 0xc000 0, 3), (hextets 0xe000 0, 4),
     (hextets 0xf000 0, 5), (hextets 0xf800 0, 6), (hextets 0xfe00 0, 9)]"

definition ipv4_mapped :: "128 word \<Rightarrow> 32 word option" where
  "ipv4_mapped a = (if drop_bit 32 a = 0xFFFF then Some (ucast a) else None)"

definition v6_is_private :: "128 word \<Rightarrow> bool" where
  "v6_is_private a = (case ipv4_mapped a of
       Some m \<Rightarrow> v4_is_private m
     | None \<Rightarrow> list_ex (\<lambda>(n, p). in_net n p a) v6_private_nets \<and> \<not> list_ex (\<lambda>(n, p). in_net n p a) v6_private_exceptions)"

fun is_forbidden_ip :: "ip \<Rightarrow> bool" where
  "is_forbidden_ip (V4 a) = v4_forbidden a"
| "is_forbidden_ip (V6 a) = (v6_is_private a \<or> a = 1 \<or> in_net (hextets 0xfe80 0) 10 a \<or> in_net (hextets 0xff00 0) 8 a
     \<or> list_ex (\<lambda>(n, p). in_net n p a) v6_reserved_nets \<or> a = 0
     \<or> (case ipv4_mapped a of Some m \<Rightarrow> v4_forbidden m | None \<Rightarrow> False))"

section \<open>Literals\<close>

definition parse_octet :: "string \<Rightarrow> nat option" where
  "parse_octet s =
     (if s = [] \<or> \<not> list_all py_isdigit s \<or> 3 < length s \<or> (s \<noteq> ''0'' \<and> hd s = CHR ''0'') then None
      else (let n = foldl (\<lambda>acc c. 10 * acc + (char_code c - 48)) 0 s in if 255 < n then None else Some n))"

definition parse_ipv4 :: "string \<Rightarrow> 32 word option" where
  "parse_ipv4 s =
     (case map parse_octet (split_on (CHR ''.'') s) of
        [Some a, Some b, Some c, Some d] \<Rightarrow> Some (quad a b c d)
      | _ \<Rightarrow> None)"

definition hex_value :: "char \<Rightarrow> nat option" where
  "hex_value c =
     (if py_isdigit c then Some (char_code c - 48)
      else if c \<in> set ''abcdef'' then Some (char_code c - 87)
      else if c \<in> set ''ABCDEF'' then Some (char_code c - 55) else None)"

definition parse_hextet :: "string \<Rightarrow> nat option" where
  "parse_hextet s =
     (if s = [] \<or> 4 < length s \<or> list_ex (\<lambda>c. hex_value c = None) s then None
      else Some (foldl (\<lambda>acc c. 16 * acc + the (hex_value c)) 0 s))"

text \<open>A part is a text, or a group that comes from a dotted suffix.\<close>

definition v6_parts :: "string \<Rightarrow> (string + nat) list option" where
  "v6_parts s =
     (let parts = split_on (CHR '':'') s in
      if length parts < 3 then None
      else if CHR ''.'' \<in> set (last parts)
      then (case parse_ipv4 (last parts) of
          None \<Rightarrow> None
        | Some a \<Rightarrow> Some (map Inl (butlast parts) @ [Inr (unat a div 65536), Inr (unat a mod 65536)]))
      else Some (map Inl parts))"

definition part_value :: "string + nat \<Rightarrow> nat option" where
  "part_value p = (case p of Inl s \<Rightarrow> parse_hextet s | Inr n \<Rightarrow> Some n)"

definition join_groups :: "(string + nat) list \<Rightarrow> nat \<Rightarrow> (string + nat) list \<Rightarrow> 128 word option" where
  "join_groups hi skipped lo =
     (if list_ex (\<lambda>p. part_value p = None) (hi @ lo) then None
      else Some (of_nat (foldl (\<lambda>acc n. 65536 * acc + n) 0 (map (\<lambda>p. the (part_value p)) hi @ replicate skipped 0 @ map (\<lambda>p. the (part_value p)) lo))))"

definition parse_ipv6 :: "string \<Rightarrow> 128 word option" where
  "parse_ipv6 s =
     (let addr = takeWhile (\<lambda>c. c \<noteq> CHR ''%'') s; scope = drop 1 (dropWhile (\<lambda>c. c \<noteq> CHR ''%'') s) in
      if CHR ''/'' \<in> set s \<or> (CHR ''%'' \<in> set s \<and> (scope = [] \<or> CHR ''%'' \<in> set scope)) then None
      else (case v6_parts addr of
          None \<Rightarrow> None
        | Some parts \<Rightarrow>
            if 9 < length parts then None
            else (case filter (\<lambda>i. parts ! i = Inl []) [1..<length parts - 1] of
                [] \<Rightarrow> if length parts \<noteq> 8 then None else join_groups parts 0 []
              | [k] \<Rightarrow>
                  (let hi = (if hd parts = Inl [] then 1 else 0); lo = (if last parts = Inl [] then 1 else 0);
                       before = take k parts; behind = drop (Suc k) parts in
                   if (hi = 1 \<and> k \<noteq> 1) \<or> (lo = 1 \<and> length behind \<noteq> 1) \<or> 8 < length before - hi + (length behind - lo) + 1 then None
                   else join_groups (drop hi before) (8 - (length before - hi + (length behind - lo))) (take (length behind - lo) behind))
              | _ \<Rightarrow> None)))"

definition ip_address :: "string \<Rightarrow> ip option" where
  "ip_address s = (case parse_ipv4 s of Some a \<Rightarrow> Some (V4 a) | None \<Rightarrow> map_option V6 (parse_ipv6 s))"

section \<open>The guard\<close>

definition resolved_addresses :: "(string \<Rightarrow> int \<Rightarrow> string list option) \<Rightarrow> string \<Rightarrow> int \<Rightarrow> ip list option" where
  "resolved_addresses resolver host port =
     (case ip_address host of
        Some a \<Rightarrow> Some [a]
      | None \<Rightarrow> map_option (List.map_filter ip_address) (resolver host port))"

datatype ssrf_error = Malformed_Url | Scheme_Refused | No_Host | No_Addresses | Non_Public ip | Too_Many_Redirects

record url_parts =
  up_scheme :: string
  up_host :: string
  up_port :: "int option"

definition assert_public_http_url :: "(string \<Rightarrow> url_parts option) \<Rightarrow> (string \<Rightarrow> int \<Rightarrow> string list option) \<Rightarrow> string \<Rightarrow> ssrf_error option" where
  "assert_public_http_url parse resolver url =
     (case parse url of
        None \<Rightarrow> Some Malformed_Url
      | Some u \<Rightarrow>
          (let scheme = py_lower (up_scheme u) in
           if scheme \<notin> {''http'', ''https''} then Some Scheme_Refused
           else if up_host u = [] then Some No_Host
           else (case resolved_addresses resolver (up_host u) (case up_port u of Some p \<Rightarrow> if p = 0 then (if scheme = ''https'' then 443 else 80) else p
                   | None \<Rightarrow> if scheme = ''https'' then 443 else 80) of
               None \<Rightarrow> None
             | Some addrs \<Rightarrow> if addrs = [] then Some No_Addresses else map_option Non_Public (find is_forbidden_ip addrs))))"

section \<open>The fetch\<close>

record fetch_reply =
  fr_status :: int
  fr_location :: string
  fr_declared :: "string option"
  fr_content :: string

record fetch_world =
  ft_parse :: "string \<Rightarrow> url_parts option"
  ft_join :: "string \<Rightarrow> string \<Rightarrow> string option"
  ft_resolver :: "nat \<Rightarrow> string \<Rightarrow> int \<Rightarrow> string list option"
  ft_connect :: "nat \<Rightarrow> string \<Rightarrow> ip"
  ft_server :: "nat \<Rightarrow> string \<Rightarrow> fetch_reply option"

datatype fetch_result = Ssrf_Blocked ssrf_error | Transport_Error | Bad_Location | Response_Too_Large | Fetched fetch_reply

definition REDIRECTS :: "int list" where "REDIRECTS = [301, 302, 303, 307, 308]"

text \<open>The requests so far are the URLs with the addresses that were connected to.\<close>

fun fetch_from :: "fetch_world \<Rightarrow> int option \<Rightarrow> nat \<Rightarrow> nat \<Rightarrow> string \<Rightarrow> fetch_result \<times> (string \<times> ip) list" where
  "fetch_from env max_bytes 0 hop url = (Ssrf_Blocked Too_Many_Redirects, [])"
| "fetch_from env max_bytes (Suc n) hop url =
     (case assert_public_http_url (ft_parse env) (ft_resolver env hop) url of
        Some e \<Rightarrow> (Ssrf_Blocked e, [])
      | None \<Rightarrow>
          (let contact = (url, ft_connect env hop (case ft_parse env url of Some u \<Rightarrow> up_host u | None \<Rightarrow> [])) in
           case ft_server env hop url of
             None \<Rightarrow> (Transport_Error, [contact])
           | Some r \<Rightarrow>
               if fr_status r \<in> set REDIRECTS
               then (if fr_location r = [] then (Fetched r, [contact])
                     else (case ft_join env url (fr_location r) of
                         None \<Rightarrow> (Bad_Location, [contact])
                       | Some target \<Rightarrow> (case fetch_from env max_bytes n (Suc hop) target of (res, contacts) \<Rightarrow> (res, contact # contacts))))
               else (case max_bytes of
                   Some m \<Rightarrow> (if oversized m (fr_declared r) (fr_content r) then (Response_Too_Large, [contact]) else (Fetched r, [contact]))
                 | None \<Rightarrow> (Fetched r, [contact]))))"

definition MAX_REDIRECTS :: nat where "MAX_REDIRECTS = 5"

definition safe_get :: "fetch_world \<Rightarrow> int option \<Rightarrow> nat \<Rightarrow> string \<Rightarrow> fetch_result \<times> (string \<times> ip) list" where
  "safe_get env max_bytes max_redirects url = fetch_from env max_bytes (max_redirects + 1) 0 url"


section \<open>What the guard promises\<close>

lemma guard_passed:
  assumes "assert_public_http_url parse resolver url = None"
  obtains u where "parse url = Some u" "py_lower (up_scheme u) \<in> {''http'', ''https''}"
    and "\<exists>port. resolved_addresses resolver (up_host u) port = None
           \<or> (\<exists>addrs. resolved_addresses resolver (up_host u) port = Some addrs \<and> addrs \<noteq> [] \<and> list_all (\<lambda>a. \<not> is_forbidden_ip a) addrs)"
proof -
  obtain u where u: "parse url = Some u"
    using assms by (auto simp: assert_public_http_url_def split: option.splits)
  define port where "port = (case up_port u of Some p \<Rightarrow> if p = 0 then (if py_lower (up_scheme u) = ''https'' then 443 else 80) else p
                   | None \<Rightarrow> if py_lower (up_scheme u) = ''https'' then 443 else 80)"
  have ok: "py_lower (up_scheme u) \<in> {''http'', ''https''}"
    using assms u by (auto simp: assert_public_http_url_def Let_def split: if_splits)
  have "resolved_addresses resolver (up_host u) port = None
      \<or> (\<exists>addrs. resolved_addresses resolver (up_host u) port = Some addrs \<and> addrs \<noteq> [] \<and> list_all (\<lambda>a. \<not> is_forbidden_ip a) addrs)"
    using assms u
    by (auto simp: assert_public_http_url_def Let_def list_all_iff find_None_iff simp flip: port_def split: if_splits option.splits)
  with u ok show ?thesis by (intro that) auto
qed

lemma answered_guard:
  assumes "assert_public_http_url (ft_parse env) (ft_resolver env hop) url = None"
    and "\<And>host port. ft_resolver env hop host port \<noteq> None"
    and "\<And>host port addrs. \<lbrakk>resolved_addresses (ft_resolver env hop) host port = Some addrs; addrs \<noteq> []\<rbrakk> \<Longrightarrow> ft_connect env hop host \<in> set addrs"
  shows "\<not> is_forbidden_ip (ft_connect env hop (case ft_parse env url of Some u \<Rightarrow> up_host u | None \<Rightarrow> []))"
proof -
  obtain u port where u: "ft_parse env url = Some u"
    and r: "resolved_addresses (ft_resolver env hop) (up_host u) port = None
      \<or> (\<exists>addrs. resolved_addresses (ft_resolver env hop) (up_host u) port = Some addrs \<and> addrs \<noteq> [] \<and> list_all (\<lambda>a. \<not> is_forbidden_ip a) addrs)"
    using guard_passed [OF assms(1)] by metis
  have "resolved_addresses (ft_resolver env hop) (up_host u) port \<noteq> None"
    using assms(2) [of "up_host u" port] by (auto simp: resolved_addresses_def split: option.splits)
  with r obtain addrs where a: "resolved_addresses (ft_resolver env hop) (up_host u) port = Some addrs" "addrs \<noteq> []"
    "list_all (\<lambda>a. \<not> is_forbidden_ip a) addrs" by auto
  show ?thesis using assms(3) [OF a(1,2)] a(3) u by (simp add: list_all_iff)
qed

lemma fetch_contacts:
  assumes "\<And>hop host port. ft_resolver env hop host port \<noteq> None"
    and "\<And>hop host port addrs. \<lbrakk>resolved_addresses (ft_resolver env hop) host port = Some addrs; addrs \<noteq> []\<rbrakk> \<Longrightarrow> ft_connect env hop host \<in> set addrs"
  shows "list_all (\<lambda>(u, a). \<not> is_forbidden_ip a) (snd (fetch_from env m n hop url))"
proof (induction n arbitrary: hop url)
  case (Suc n)
  show ?case
  proof (cases "assert_public_http_url (ft_parse env) (ft_resolver env hop) url")
    case None
    define a where "a = ft_connect env hop (case ft_parse env url of Some u \<Rightarrow> up_host u | None \<Rightarrow> [])"
    have a: "\<not> is_forbidden_ip a" unfolding a_def by (rule answered_guard [OF None assms])
    have rest: "fetch_from env m n (Suc hop) t = (res, contacts) \<Longrightarrow> list_all (\<lambda>(u, a). \<not> is_forbidden_ip a) contacts" for t res contacts
      using Suc [of "Suc hop" t] by simp
    show ?thesis by (auto simp: Let_def None a rest simp flip: a_def split: option.split prod.split)
  qed simp
qed simp

lemma fetch_length: "length (snd (fetch_from env m n hop url)) \<le> n"
proof (induction n arbitrary: hop url)
  case (Suc n)
  have "fetch_from env m n (Suc hop) t = (res, contacts) \<Longrightarrow> length contacts \<le> n" for t res contacts
    using Suc [of "Suc hop" t] by simp
  then show ?case by (auto simp: Let_def split: option.splits prod.splits)
qed simp

text \<open>C12: Whatever the servers answer and redirect to, a guarded fetch whose lookups are answered, and whose connections
  go to one of the addresses just checked, contacts public addresses only, and no more than one per hop allowed.\<close>
theorem contacted_addresses_are_public:
  assumes "\<And>hop host port. ft_resolver env hop host port \<noteq> None"
    and "\<And>hop host port addrs. \<lbrakk>resolved_addresses (ft_resolver env hop) host port = Some addrs; addrs \<noteq> []\<rbrakk> \<Longrightarrow> ft_connect env hop host \<in> set addrs"
  shows "list_all (\<lambda>(u, a). \<not> is_forbidden_ip a) (snd (safe_get env max_bytes max_redirects url))
    \<and> length (snd (safe_get env max_bytes max_redirects url)) \<le> max_redirects + 1"
  unfolding safe_get_def by (intro conjI fetch_contacts fetch_length assms)

text \<open>C39: A lookup that fails or overruns its five seconds passes the guard, and the fetch then goes to whatever address
  the transport's own lookup gives, an internal one included; the reply is handed back.\<close>
theorem failed_lookup_passes_guard:
  assumes "ft_parse env url = Some u" "py_lower (up_scheme u) = ''http''" "up_host u \<noteq> []" "ip_address (up_host u) = None"
    and "\<And>port. ft_resolver env 0 (up_host u) port = None"
    and "ft_server env 0 url = Some r" "fr_status r \<notin> set REDIRECTS" "\<not> oversized m (fr_declared r) (fr_content r)"
  shows "safe_get env (Some m) max_redirects url = (Fetched r, [(url, ft_connect env 0 (up_host u))])"
  using assms by (simp add: safe_get_def assert_public_http_url_def resolved_addresses_def)

section \<open>A server that redirects to the metadata service\<close>

definition demo_parse :: "string \<Rightarrow> url_parts option" where
  "demo_parse url = Some \<lparr>up_scheme = ''http'', up_host = url, up_port = None\<rparr>"

definition demo_fetch :: fetch_world where
  "demo_fetch = \<lparr>ft_parse = demo_parse, ft_join = (\<lambda>_ target. Some target),
     ft_resolver = (\<lambda>_ host _. Some (if host = ''shop'' then [''93.184.216.34''] else [''127.0.0.1''])),
     ft_connect = (\<lambda>_ host. case ip_address host of Some a \<Rightarrow> a | None \<Rightarrow> if host = ''shop'' then V4 (quad 93 184 216 34) else V4 (quad 127 0 0 1)),
     ft_server = (\<lambda>_ url. Some \<lparr>fr_status = 302, fr_location = ''169.254.169.254'', fr_declared = None, fr_content = []\<rparr>)\<rparr>"

definition demo_slow :: fetch_world where
  "demo_slow = demo_fetch\<lparr>ft_resolver := (\<lambda>_ _ _. None),
     ft_server := (\<lambda>_ _. Some \<lparr>fr_status = 200, fr_location = [], fr_declared = None, fr_content = ''secret''\<rparr>)\<rparr>"

lemma replicate_numeral [simp]: "replicate (numeral k) x = x # replicate (pred_numeral k) x"
  by (simp add: numeral_eq_Suc)

lemmas literal_defs = ip_address_def parse_ipv4_def parse_octet_def py_isdigit_def char_code_def parse_ipv6_def v6_parts_def part_value_def
  join_groups_def parse_hextet_def hex_value_def Let_def upt_rec quad_def

lemmas range_defs = v4_forbidden_def v4_is_private_def v4_private_nets_def in_net_def quad_def v6_is_private_def v6_private_nets_def v6_private_exceptions_def
  v6_reserved_nets_def hextets_def ipv4_mapped_def

lemma demo_addresses:
  "ip_address ''127.0.0.1'' = Some (V4 (quad 127 0 0 1))" "ip_address ''93.184.216.34'' = Some (V4 (quad 93 184 216 34))"
  "ip_address ''shop'' = None" "ip_address ''intranet'' = None" "ip_address ''169.254.169.254'' = Some (V4 (quad 169 254 169 254))"
  by (simp_all add: literal_defs)

lemma demo_ranges:
  "v4_forbidden (quad 169 254 169 254)" "v4_forbidden (quad 127 0 0 1)" "\<not> v4_forbidden (quad 93 184 216 34)"
  by (simp_all add: range_defs)

text \<open>Spellings of addresses that are parsed as the check parses them, and two that are refused as literals.\<close>

lemma demo_spellings:
  "ip_address ''::ffff:10.1.2.3'' = Some (V6 0xffff0a010203)" "ip_address ''fe80::1%eth0'' = Some (V6 0xfe800000000000000000000000000001)"
  "ip_address ''2606:4700::1111'' = Some (V6 0x26064700000000000000000000001111)" "ip_address ''0177.0.0.1'' = None" "ip_address ''2130706433'' = None"
  by (simp_all add: literal_defs)

lemma demo_ranges_v6:
  "is_forbidden_ip (V6 0xffff0a010203)" "is_forbidden_ip (V6 0xfe800000000000000000000000000001)" "\<not> is_forbidden_ip (V6 0x26064700000000000000000000001111)"
  by (simp_all add: range_defs)

lemmas demo_fetch_defs = demo_fetch_def demo_slow_def demo_parse_def assert_public_http_url_def resolved_addresses_def Let_def py_lower_def
  lower_char_def char_code_def demo_addresses demo_ranges REDIRECTS_def oversized_def map_filter_simps

theorem contacted_addresses_are_public_witness:
  "list_all (\<lambda>(u, a). \<not> is_forbidden_ip a) (snd (safe_get demo_fetch None MAX_REDIRECTS ''shop''))
    \<and> safe_get demo_fetch None MAX_REDIRECTS ''shop'' = (Ssrf_Blocked (Non_Public (V4 (quad 169 254 169 254))), [(''shop'', V4 (quad 93 184 216 34))])"
proof -
  have all: "list_all (\<lambda>(u, a). \<not> is_forbidden_ip a) (snd (safe_get demo_fetch None MAX_REDIRECTS ''shop''))"
  proof -
    have r: "ft_resolver demo_fetch hop host port \<noteq> None" for hop host port by (simp add: demo_fetch_def)
    have c: "ft_connect demo_fetch hop host \<in> set addrs" if "resolved_addresses (ft_resolver demo_fetch hop) host port = Some addrs" for hop host port addrs
      using that by (auto simp: demo_fetch_def resolved_addresses_def demo_addresses map_filter_simps split: option.splits if_splits)
    show ?thesis by (rule conjunct1 [OF contacted_addresses_are_public]) (use r c in blast)+
  qed
  have hops: "MAX_REDIRECTS + 1 = Suc (Suc 4)" by (simp add: MAX_REDIRECTS_def)
  have "safe_get demo_fetch None MAX_REDIRECTS ''shop'' = (Ssrf_Blocked (Non_Public (V4 (quad 169 254 169 254))), [(''shop'', V4 (quad 93 184 216 34))])"
    unfolding safe_get_def hops by (simp only: add_Suc add_0 One_nat_def add_Suc_right fetch_from.simps(2), simp add: demo_fetch_defs)
  with all show ?thesis by simp
qed

theorem failed_lookup_passes_guard_witness:
  "snd (safe_get demo_slow (Some 1000) MAX_REDIRECTS ''intranet'') = [(''intranet'', V4 (quad 127 0 0 1))] \<and> is_forbidden_ip (V4 (quad 127 0 0 1))"
  using failed_lookup_passes_guard [of demo_slow "''intranet''" "\<lparr>up_scheme = ''http'', up_host = ''intranet'', up_port = None\<rparr>"
      "\<lparr>fr_status = 200, fr_location = [], fr_declared = None, fr_content = ''secret''\<rparr>" 1000 MAX_REDIRECTS]
  by (simp add: demo_fetch_defs demo_ranges [simplified])

end
