(* ===== verification/Spec2Isabelle.thy ===== *)
theory Spec2Isabelle
  imports Ring_Store Rate_Limit Security Capabilities Hmac_Middleware Queue_Signing Action_Budget Ledger Worker
    Dlq_Replay Dag_Exec Approvals Campaign_Life Audit_Open Llm_Client Crm_Facts Safe_Fetch
begin

text \<open>
  Samus is a sales engine of some twenty FastAPI services (workcells) with queue workers beside them. This
  library models its platform core, the code every workcell runs through, the two engines that carry out
  multi-step work (fulfillment plans and campaigns), the control of spending on language models, and the way
  money comes in. All paths below are under \<^verbatim>\<open>src/backend/\<close>.

  \<^bold>\<open>How the parts fit together.\<close> A workcell calls another one with a signed request
  (\<^verbatim>\<open>common/http_client.py\<close>, \<^verbatim>\<open>common/security.py\<close>), with retries behind a circuit breaker (\<^verbatim>\<open>common/retry.py\<close>). The
  receiver's middleware limits the body (\<^verbatim>\<open>common/body_size_limit.py\<close>), checks clock, nonce and signature, answers a
  repeated Idempotency-Key from its record (\<^verbatim>\<open>common/app_factory.py\<close>, \<^verbatim>\<open>common/dynamodb.py\<close>) and checks
  the caller against the grant matrix (\<^verbatim>\<open>common/middleware.py\<close>, \<^verbatim>\<open>common/capabilities.py\<close>); routes limit their
  callers' rate (\<^verbatim>\<open>common/rate_limit.py\<close>). Work that is queued travels in signed envelopes
  (\<^verbatim>\<open>common/queue_contracts.py\<close>, \<^verbatim>\<open>common/queue_signing.py\<close>) to workers that claim each message once, spend from an
  action budget and dead-letter what fails (\<^verbatim>\<open>common/worker_base.py\<close>, \<^verbatim>\<open>common/worker_action_budget.py\<close>,
  \<^verbatim>\<open>common/dlq.py\<close>, \<^verbatim>\<open>common/replay_worker.py\<close>), over an in-process store that a worker shares with its handlers
  (\<^verbatim>\<open>common/idempotency.py\<close>) and JSONL files (\<^verbatim>\<open>common/persistence.py\<close>). Fulfillment plans (\<^verbatim>\<open>fulfillment/dag.py\<close>) and campaigns (\<^verbatim>\<open>campaigns/\<close>) dispatch their steps
  to workcells in dependency order; a campaign's public steps wait for a decision of the approval queue
  (\<^verbatim>\<open>common/approvals.py\<close>). Security events go to the hash-chained audit ledger (\<^verbatim>\<open>common/audit_ledger.py\<close>). A call
  of a language model passes the free-workcell shortcut, the token budget of its workcell, the dollar cap of all
  of them and the broker's reservation, and is booked afterwards (\<^verbatim>\<open>common/llm_client.py\<close>, \<^verbatim>\<open>common/llm_budget.py\<close>,
  \<^verbatim>\<open>common/llm_global_budget.py\<close>, \<^verbatim>\<open>common/broker_client.py\<close>). Payments arrive at the Stripe webhook
  (\<^verbatim>\<open>finance/webhook.py\<close>), which claims each event once over a JSONL ledger, advances the customer
  (\<^verbatim>\<open>memory/customers.py\<close>), schedules fulfillment, credits the upsell mails (\<^verbatim>\<open>finance/upsell_queue.py\<close>), and sends
  the CRM the job of closing the deal that was paid (\<^verbatim>\<open>crm/service.py\<close>). Pages of customers are fetched through a guard against
  internal addresses (\<^verbatim>\<open>common/safe_fetch.py\<close>).

  \<^bold>\<open>Conventions.\<close> Python strings are strings of ASCII characters, \<^verbatim>\<open>int\<close> is \<^verbatim>\<open>int\<close>, a dictionary is an
  association list with distinct keys in insertion order, a float that is a clock reading is a rational, and an exception
  is an \<^verbatim>\<open>Inl\<close> or a \<^verbatim>\<open>None\<close>. Clock readings, random identifiers, the environment, HTTP replies and handlers are
  arguments. State is passed explicitly; a method under a lock is one step.

  \<^bold>\<open>Theories.\<close>
  \<^item> \<^verbatim>\<open>Prelude\<close>, \<^verbatim>\<open>Json\<close>, \<^verbatim>\<open>Json_Scan\<close>, \<^verbatim>\<open>Sha256\<close>: strings, numerals, dictionaries, JSON values and the two renderings
    of \<^verbatim>\<open>json.dumps\<close> the code uses, their unique readability, SHA-256 and HMAC on 32-bit words.
  \<^item> \<^verbatim>\<open>Ring_Store\<close>: the idempotency store and the nonce ring as bounded ordered dictionaries, with the locale of a
    ring of keys that both interpret.
  \<^item> \<^verbatim>\<open>Rate_Limit\<close>, \<^verbatim>\<open>Security\<close>, \<^verbatim>\<open>Capabilities\<close>, \<^verbatim>\<open>Hmac_Middleware\<close>: the request boundary. Forwarded requests are
    authentic, fresh and authorized; genuine ones pass.
  \<^item> \<^verbatim>\<open>Queue_Signing\<close>, \<^verbatim>\<open>Action_Budget\<close>, \<^verbatim>\<open>Ledger\<close>, \<^verbatim>\<open>Worker\<close>, \<^verbatim>\<open>Dlq_Replay\<close>: the queue side: envelopes, budgets, the JSONL
    files, the worker loop as steps of a state machine, and replay.
  \<^item> \<^verbatim>\<open>Dag\<close>, \<^verbatim>\<open>Dag_Cycle\<close>, \<^verbatim>\<open>Dag_Order\<close>, \<^verbatim>\<open>Dag_Exec\<close>: fulfillment plans: data and operations, the depth-first cycle check,
    the topological order, and the executor.
  \<^item> \<^verbatim>\<open>Approvals\<close>: the approval queue over a file and a table, with the locale of a row store interpreted on the two
    steady configurations (table up, file only).
  \<^item> \<^verbatim>\<open>Campaign_Model\<close>, \<^verbatim>\<open>Campaign_Graph\<close>, \<^verbatim>\<open>Campaign_Exec\<close>, \<^verbatim>\<open>Campaign_Run\<close>: the campaign engine: records and node
    registry, stage graph, node execution, orchestrator. \<^verbatim>\<open>Campaign_Example\<close> is a run evaluated step by step,
    \<^verbatim>\<open>Campaign_Gates\<close> the invariant behind the approval gate, \<^verbatim>\<open>Campaign_Drive\<close> what one execution and one drive do to a run,
    \<^verbatim>\<open>Campaign_Life\<close> the life-cycle properties.
  \<^item> \<^verbatim>\<open>Audit_Chain\<close>, \<^verbatim>\<open>Audit_Tamper\<close>, \<^verbatim>\<open>Audit_Days\<close>: the audit ledger: key derivation, entries, opening and verification;
    verified chains by their tip; the chain across day files; \<^verbatim>\<open>Audit_Open\<close> what opening a file accepts, signs or archives.
  \<^item> \<^verbatim>\<open>Http_Stack\<close>, \<^verbatim>\<open>Service_Stack\<close>, \<^verbatim>\<open>Retry_Circuit\<close>: the body ceiling and the idempotency middleware, the stack of an
    application from the first byte to the handler, and the signed clients with their retries and circuit breaker.
  \<^item> \<^verbatim>\<open>Budget_Store\<close>, \<^verbatim>\<open>Llm_Budget\<close>, \<^verbatim>\<open>Llm_Global\<close>, \<^verbatim>\<open>Llm_Client\<close>: the rows of the budgets over cache, table and file; quota,
    freeze and breaker of a workcell; price, cap and spend of all of them; the door through which every call goes.
  \<^item> \<^verbatim>\<open>Customer_Graph\<close>, \<^verbatim>\<open>Upsell_Queue\<close>, \<^verbatim>\<open>Stripe_Webhook\<close>, \<^verbatim>\<open>Stripe_Runs\<close>, \<^verbatim>\<open>Stripe_Facts\<close>: customers and their history, the queue of
    upsell mails, the webhook's handler, deliveries of it side by side, and what it promises and breaks.
  \<^item> \<^verbatim>\<open>Crm_Pipeline\<close>, \<^verbatim>\<open>Crm_Deals\<close>, \<^verbatim>\<open>Crm_Facts\<close>: the stages of a deal and the state machine over them, scores, tasks; the CRM's
    operations and the jobs of its worker over tables that can fail; what sequences of them keep, and what becomes of a payment
    that the webhook hands over.
  \<^item> \<^verbatim>\<open>Safe_Fetch\<close>: addresses and their literals on 32-bit and 128-bit words, the check of a URL, the walk over redirects.

  \<^bold>\<open>Termination and fuel.\<close> Every loop is total. The depth-first search carries a bound on its depth, the number of
  steps of the plan, which is proved to be enough; the guarded fetch walks the number of hops it is given; the passes of the plan executor end because each one that makes progress
  lowers the number of pending steps; the campaign drive runs the bounded number of passes the code runs; the
  worker's loop does not end by design and is modelled step by step, with what is reached after the stop signal as a
  property.

  \<^bold>\<open>Not modelled.\<close> The manifest lists every part left out with its reason. In short: network and cloud clients,
  FastAPI routes, settings, rendering of text and pages, scoring over floating-point numbers, and most of the domain services built on
  the platform (the conversations, reports and rankings of the CRM, the reports of finance, outreach, voice, SEO and others). Logging, metrics and
  durations are left out of every model.
\<close>

end
